(* ===== verification/Prelude.thy ===== *)
theory Prelude
  imports Main "HOL-Library.Char_ord" "HOL-Library.List_Lexorder"
begin

text \<open>
  What every component of the development shares: the collections the proofs are driven by,
  Go's 64-bit integers with their wrap-around, Go maps as association lists kept sorted by
  key (so that two equal maps are equal lists), and a few facts about lists that hold the
  rows of a table.
\<close>

named_theorems go_defs \<open>definitions of Go library functions, unfolded when a closed term is evaluated\<close>
named_theorems row_simps \<open>how a table operation changes the rows of a table\<close>
named_theorems frame_simps \<open>what an operation leaves untouched\<close>

subsection \<open>64-bit integers\<close>

text \<open>
  Go's \<open>int64\<close> and \<open>int\<close> are modelled as \<open>int\<close>; arithmetic that may overflow is
  written with \<open>wrap64\<close>, the two's complement wrap-around, and division truncates towards
  zero.
\<close>

definition int64_ok :: "int \<Rightarrow> bool" where
  "int64_ok i \<longleftrightarrow> - 9223372036854775808 \<le> i \<and> i \<le> 9223372036854775807"

definition wrap64 :: "int \<Rightarrow> int" where
  "wrap64 i = (i + 9223372036854775808) mod 18446744073709551616 - 9223372036854775808"

definition go_div :: "int \<Rightarrow> int \<Rightarrow> int" where
  "go_div a b = sgn a * sgn b * (\<bar>a\<bar> div \<bar>b\<bar>)"

lemma wrap64_id [simp]: "int64_ok i \<Longrightarrow> wrap64 i = i"
  by (simp add: wrap64_def int64_ok_def)

lemma wrap64_range: "int64_ok (wrap64 i)"
proof -
  have "0 \<le> (i + 9223372036854775808) mod 18446744073709551616"
    and "(i + 9223372036854775808) mod 18446744073709551616 < 18446744073709551616"
    by simp_all
  then show ?thesis by (simp add: wrap64_def int64_ok_def)
qed

lemma go_div_nonneg: "0 \<le> a \<Longrightarrow> 0 < b \<Longrightarrow> go_div a b = a div b"
  by (cases "a = 0") (simp_all add: go_div_def)

subsection \<open>Fallible steps\<close>

text \<open>A Go function that returns an error is a sum, \<open>Inl\<close> the error; a loop that returns on its first error is \<open>foldM\<close>.\<close>

fun and_then :: "'e + 'a \<Rightarrow> ('a \<Rightarrow> 'e + 'b) \<Rightarrow> 'e + 'b" where
  "and_then (Inl e) f = Inl e"
| "and_then (Inr x) f = f x"

fun foldM :: "('a \<Rightarrow> 's \<Rightarrow> 'e + 's) \<Rightarrow> 'a list \<Rightarrow> 's \<Rightarrow> 'e + 's" where
  "foldM f [] s = Inr s"
| "foldM f (x # xs) s = and_then (f x s) (foldM f xs)"

lemma and_then_Inr [simp]: "and_then r f = Inr y \<longleftrightarrow> (\<exists>x. r = Inr x \<and> f x = Inr y)"
  by (cases r) auto

text \<open>A property every accepted step keeps holds at the end of the loop.\<close>

lemma foldM_keeps:
  assumes "foldM f xs s = Inr s'" and "P s"
    and "\<And>x t t'. x \<in> set xs \<Longrightarrow> P t \<Longrightarrow> f x t = Inr t' \<Longrightarrow> P t'"
  shows "P s'"
  using assms
proof (induction xs arbitrary: s)
  case (Cons x xs)
  then obtain t where "f x s = Inr t" "foldM f xs t = Inr s'" by auto
  then show ?case using Cons.prems(2,3) Cons.IH [of t] by (metis list.set_intros)
qed simp

text \<open>A loop that only checks leaves the state alone and accepts iff every element passes.\<close>

definition check_all :: "('a \<Rightarrow> 'e option) \<Rightarrow> 'a list \<Rightarrow> 'e option" where
  "check_all f xs = (case List.find (\<lambda>x. f x \<noteq> None) xs of None \<Rightarrow> None | Some x \<Rightarrow> f x)"

lemma check_all_None: "check_all f xs = None \<longleftrightarrow> (\<forall>x \<in> set xs. f x = None)"
  by (auto simp: check_all_def find_None_iff find_Some_iff split: option.splits)

subsection \<open>Go maps\<close>

text \<open>
  A Go map with string keys is the list of its entries sorted by key. \<open>map_set\<close> is
  \<open>m[k] = v\<close>, \<open>map_get\<close> is \<open>v, ok := m[k]\<close>.
\<close>

type_synonym 'v gomap = "(string \<times> 'v) list"

fun map_set :: "string \<Rightarrow> 'v \<Rightarrow> 'v gomap \<Rightarrow> 'v gomap" where
  "map_set k v [] = [(k, v)]"
| "map_set k v ((k', v') # m) =
     (if k = k' then (k, v) # m
      else if k < k' then (k, v) # (k', v') # m
      else (k', v') # map_set k v m)"

definition map_get :: "'v gomap \<Rightarrow> string \<Rightarrow> 'v option" where
  "map_get m k = map_of m k"

definition map_has :: "'v gomap \<Rightarrow> string \<Rightarrow> bool" where
  "map_has m k \<longleftrightarrow> k \<in> set (map fst m)"

definition map_wf :: "'v gomap \<Rightarrow> bool" where
  "map_wf m \<longleftrightarrow> sorted_wrt (<) (map fst m)"

lemma map_wf_Nil [simp]: "map_wf []"
  by (simp add: map_wf_def)

lemma map_wf_Cons: "map_wf ((k, v) # m) \<longleftrightarrow> (\<forall>k' \<in> set (map fst m). k < k') \<and> map_wf m"
  by (simp add: map_wf_def)

lemma map_get_Nil [simp]: "map_get [] k = None"
  by (simp add: map_get_def)

lemma map_has_get: "map_has m k \<longleftrightarrow> map_get m k \<noteq> None"
  unfolding map_has_def map_get_def by (simp add: map_of_eq_None_iff)

lemma map_get_set [simp]:
  "map_get (map_set k v m) k' = (if k' = k then Some v else map_get m k')"
  unfolding map_get_def by (induction k v m rule: map_set.induct) auto

lemma keys_map_set: "set (map fst (map_set k v m)) = insert k (set (map fst m))"
  by (induction k v m rule: map_set.induct) auto

lemma map_wf_set: "map_wf m \<Longrightarrow> map_wf (map_set k v m)"
proof (induction k v m rule: map_set.induct)
  case (2 k v k' v' m)
  have tl: "map_wf m" and hd: "\<forall>x \<in> set (map fst m). k' < x"
    using "2.prems" by (simp_all add: map_wf_Cons)
  consider "k = k'" | "k < k'" | "k' < k" by (rule linorder_cases)
  then show ?case
  proof cases
    case 1
    then show ?thesis using tl hd by (simp add: map_wf_Cons)
  next
    case 2
    moreover have "\<forall>x \<in> set (map fst m). k < x" using hd 2 by (meson less_trans)
    ultimately show ?thesis using tl hd by (simp add: map_wf_Cons)
  next
    case 3
    then have "map_wf (map_set k v m)" using "2.IH" tl by auto
    moreover have "\<forall>x \<in> set (map fst (map_set k v m)). k' < x"
      unfolding keys_map_set using hd 3 by simp
    moreover have "k \<noteq> k'" "\<not> k < k'" using 3 by auto
    ultimately show ?thesis by (simp add: map_wf_Cons)
  qed
qed (simp add: map_wf_def)

lemma map_wf_distinct: "map_wf m \<Longrightarrow> distinct (map fst m)"
  unfolding map_wf_def by (simp add: strict_sorted_iff)

text \<open>Equal lookups make equal maps: the sorted list is a canonical form.\<close>

lemma map_wf_ext:
  assumes "map_wf m" "map_wf m'" "\<And>k. map_get m k = map_get m' k"
  shows "m = m'"
proof -
  have eq: "map_of m = map_of m'" using assms(3) by (auto simp: map_get_def)
  have d: "distinct (map fst m)" "distinct (map fst m')"
    using assms(1,2) by (simp_all add: map_wf_distinct)
  have "set m = set m'"
    using eq d by (metis map_of_eq_Some_iff prod.collapse subsetI subset_antisym)
  moreover have "sorted (map fst m)" "sorted (map fst m')"
    using assms(1,2) by (simp_all add: map_wf_def strict_sorted_iff)
  moreover have "inj_on fst (set m \<union> set m')"
    using d \<open>set m = set m'\<close> by (simp add: distinct_map)
  ultimately show ?thesis using d by (intro map_sorted_distinct_set_unique [where f = fst])
qed

subsection \<open>Rows\<close>

text \<open>
  \<open>update_first p f rows\<close> rewrites the first row that satisfies \<open>p\<close>; \<open>find p rows\<close>
  is the row it rewrites.
\<close>

fun update_first :: "('a \<Rightarrow> bool) \<Rightarrow> ('a \<Rightarrow> 'a) \<Rightarrow> 'a list \<Rightarrow> 'a list" where
  "update_first p f [] = []"
| "update_first p f (x # xs) = (if p x then f x # xs else x # update_first p f xs)"

lemma length_update_first [simp]: "length (update_first p f xs) = length xs"
  by (induction xs) auto

lemma update_first_none: "(\<forall>x \<in> set xs. \<not> p x) \<Longrightarrow> update_first p f xs = xs"
  by (induction xs) auto

lemma map_update_first:
  "(\<And>x. g (f x) = g x) \<Longrightarrow> map g (update_first p f xs) = map g xs"
  by (induction xs) auto

lemma set_update_first_subset: "set (update_first p f xs) \<subseteq> set xs \<union> f ` {x \<in> set xs. p x}"
  by (induction xs) auto

lemma update_first_split:
  assumes "find p xs = Some x"
  obtains ys zs where "xs = ys @ x # zs" "\<forall>y \<in> set ys. \<not> p y" "p x"
    "update_first p f xs = ys @ f x # zs"
proof -
  have "\<exists>ys zs. xs = ys @ x # zs \<and> (\<forall>y \<in> set ys. \<not> p y) \<and> p x
      \<and> update_first p f xs = ys @ f x # zs"
    using assms
  proof (induction xs)
    case (Cons a xs)
    show ?case
    proof (cases "p a")
      case True
      then show ?thesis using Cons.prems by (intro exI [of _ "[]"] exI [of _ xs]) auto
    next
      case False
      then obtain ys zs where "xs = ys @ x # zs" "\<forall>y \<in> set ys. \<not> p y" "p x"
          "update_first p f xs = ys @ f x # zs"
        using Cons by auto
      then show ?thesis using False by (intro exI [of _ "a # ys"] exI [of _ zs]) auto
    qed
  qed simp
  then show thesis using that by blast
qed

lemma find_Some_in: "find p xs = Some x \<Longrightarrow> x \<in> set xs \<and> p x"
  by (auto simp: find_Some_iff)

lemma find_distinct_key:
  assumes "distinct (map key xs)" and "x \<in> set xs"
  shows "find (\<lambda>y. key y = key x) xs = Some x"
  using assms
proof (induction xs)
  case (Cons a xs)
  then show ?case by (cases "a = x") (auto simp: image_iff)
qed simp

lemma sum_list_filter_append [simp]:
  "sum_list (map f (filter p (xs @ ys))) =
     sum_list (map f (filter p xs)) + sum_list (map f (filter p ys))" for f :: "'a \<Rightarrow> int"
  by simp

lemma sum_list_nonneg_map: "(\<And>x. x \<in> set xs \<Longrightarrow> 0 \<le> f x) \<Longrightarrow> 0 \<le> sum_list (map f xs)"
  for f :: "'a \<Rightarrow> int"
  by (induction xs) auto

end
