(* ===== verification/GoText.thy ===== *)
theory GoText
  imports Prelude
begin

text \<open>
  The part of Go's text library the plane uses. A Go string is a \<open>string\<close>, the list of
  its bytes; where the code works on runes, \<open>chunks\<close> cuts the bytes the way
  \<open>utf8.DecodeRuneInString\<close> does, an invalid byte being a chunk of one byte that reads
  as U+FFFD. What the Unicode tables say about runes beyond ASCII (\<open>unicode.IsPrint\<close>) is
  a parameter where it is used; lower-casing and case folding are written out for ASCII
  and for the two runes that fold to ASCII letters.
\<close>

abbreviation code :: "char \<Rightarrow> nat" where
  "code c \<equiv> of_char c"

subsection \<open>Prefixes, suffixes, splitting\<close>

definition has_prefix :: "string \<Rightarrow> string \<Rightarrow> bool" where
  "has_prefix s p \<longleftrightarrow> take (length p) s = p"

definition has_suffix :: "string \<Rightarrow> string \<Rightarrow> bool" where
  "has_suffix s p \<longleftrightarrow> length p \<le> length s \<and> drop (length s - length p) s = p"

definition trim_prefix :: "string \<Rightarrow> string \<Rightarrow> string" where
  "trim_prefix s p = (if has_prefix s p then drop (length p) s else s)"

definition trim_suffix :: "string \<Rightarrow> string \<Rightarrow> string" where
  "trim_suffix s p = (if has_suffix s p then take (length s - length p) s else s)"

definition cut_prefix :: "string \<Rightarrow> string \<Rightarrow> string \<times> bool" where
  "cut_prefix s p = (if has_prefix s p then (drop (length p) s, True) else (s, False))"

fun contains :: "string \<Rightarrow> string \<Rightarrow> bool" where
  "contains [] p = (p = [])"
| "contains (c # cs) p = (has_prefix (c # cs) p \<or> contains cs p)"

text \<open>\<open>strings.Cut(s, "c")\<close> for a one-byte separator.\<close>

definition cut_at :: "char \<Rightarrow> string \<Rightarrow> string \<times> string \<times> bool" where
  "cut_at c s = (if c \<in> set s then (takeWhile (\<lambda>x. x \<noteq> c) s, tl (dropWhile (\<lambda>x. x \<noteq> c) s), True)
                 else (s, [], False))"

fun join :: "string \<Rightarrow> string list \<Rightarrow> string" where
  "join sep [] = []"
| "join sep [x] = x"
| "join sep (x # y # ys) = x @ sep @ join sep (y # ys)"

declare has_prefix_def [go_defs] has_suffix_def [go_defs] trim_prefix_def [go_defs]
  trim_suffix_def [go_defs] cut_prefix_def [go_defs] cut_at_def [go_defs]

lemma has_prefix_append [simp]: "has_prefix (p @ s) p"
  by (simp add: has_prefix_def)

lemma has_prefix_iff: "has_prefix s p \<longleftrightarrow> (\<exists>r. s = p @ r)"
  unfolding has_prefix_def by (metis append_eq_conv_conj append_take_drop_id)

subsection \<open>Character classes\<close>

definition is_digit :: "char \<Rightarrow> bool" where
  "is_digit c \<longleftrightarrow> 48 \<le> code c \<and> code c \<le> 57"

definition is_upper :: "char \<Rightarrow> bool" where
  "is_upper c \<longleftrightarrow> 65 \<le> code c \<and> code c \<le> 90"

definition is_lower :: "char \<Rightarrow> bool" where
  "is_lower c \<longleftrightarrow> 97 \<le> code c \<and> code c \<le> 122"

definition is_alnum :: "char \<Rightarrow> bool" where
  "is_alnum c \<longleftrightarrow> is_digit c \<or> is_upper c \<or> is_lower c"

declare is_digit_def [go_defs] is_upper_def [go_defs] is_lower_def [go_defs] is_alnum_def [go_defs]

text \<open>A regular expression \<open>^[class]{lo,hi}$\<close>.\<close>

definition class_len :: "(char \<Rightarrow> bool) \<Rightarrow> nat \<Rightarrow> nat \<Rightarrow> string \<Rightarrow> bool" where
  "class_len p lo hi s \<longleftrightarrow> lo \<le> length s \<and> length s \<le> hi \<and> list_all p s"

declare class_len_def [go_defs]

definition lower_char :: "char \<Rightarrow> char" where
  "lower_char c = (if is_upper c then char_of (code c + 32) else c)"

definition to_lower :: "string \<Rightarrow> string" where
  "to_lower s = map lower_char s"

declare lower_char_def [go_defs] to_lower_def [go_defs]

subsection \<open>UTF-8\<close>

definition cont_byte :: "char \<Rightarrow> bool" where
  "cont_byte c \<longleftrightarrow> 128 \<le> code c \<and> code c \<le> 191"

text \<open>The rune at the front of a non-empty string and its width in bytes.\<close>

definition decode_rune :: "string \<Rightarrow> nat \<times> nat" where
  "decode_rune s = (case s of
     [] \<Rightarrow> (65533, 0)
   | a # r \<Rightarrow> (let x = code a in
       if x < 128 then (x, 1)
       else (case r of
         [] \<Rightarrow> (65533, 1)
       | b # r2 \<Rightarrow> (let y = code b in
           if 194 \<le> x \<and> x \<le> 223 then
             (if cont_byte b then ((x - 192) * 64 + (y - 128), 2) else (65533, 1))
           else if 224 \<le> x \<and> x \<le> 239 then
             (case r2 of
               [] \<Rightarrow> (65533, 1)
             | c # _ \<Rightarrow>
                 if cont_byte b \<and> cont_byte c \<and> (x = 224 \<longrightarrow> 160 \<le> y) \<and> (x = 237 \<longrightarrow> y \<le> 159)
                 then ((x - 224) * 4096 + (y - 128) * 64 + (code c - 128), 3) else (65533, 1))
           else if 240 \<le> x \<and> x \<le> 244 then
             (case r2 of
               c # d # _ \<Rightarrow>
                 if cont_byte b \<and> cont_byte c \<and> cont_byte d \<and> (x = 240 \<longrightarrow> 144 \<le> y) \<and> (x = 244 \<longrightarrow> y \<le> 143)
                 then ((x - 240) * 262144 + (y - 128) * 4096 + (code c - 128) * 64 + (code d - 128), 4)
                 else (65533, 1)
             | _ \<Rightarrow> (65533, 1))
           else (65533, 1)))))"

lemma decode_rune_width: "s \<noteq> [] \<Longrightarrow> 1 \<le> snd (decode_rune s)"
  by (auto simp: decode_rune_def Let_def split: list.splits if_splits)

lemma decode_rune_width_le: "snd (decode_rune s) \<le> length s"
  by (auto simp: decode_rune_def Let_def split: list.splits if_splits)

text \<open>A rune written back: surrogates and values beyond U+10FFFF are written as U+FFFD.\<close>

definition encode_rune :: "nat \<Rightarrow> string" where
  "encode_rune r =
     (if r < 128 then [char_of r]
      else if r < 2048 then [char_of (192 + r div 64), char_of (128 + r mod 64)]
      else if r > 1114111 \<or> (55296 \<le> r \<and> r \<le> 57343) then [char_of (239::nat), char_of (191::nat), char_of (189::nat)]
      else if r < 65536 then
        [char_of (224 + r div 4096), char_of (128 + r div 64 mod 64), char_of (128 + r mod 64)]
      else [char_of (240 + r div 262144), char_of (128 + r div 4096 mod 64),
            char_of (128 + r div 64 mod 64), char_of (128 + r mod 64)])"

function chunks :: "string \<Rightarrow> (nat \<times> string) list" where
  "chunks [] = []"
| "chunks (c # cs) =
     (let (r, w) = decode_rune (c # cs) in (r, take w (c # cs)) # chunks (drop w (c # cs)))"
  by pat_completeness auto
termination
proof (relation "measure length")
  fix c :: char and cs :: string and x xa y
  assume "x = decode_rune (c # cs)" and "(xa, y) = x"
  then have "1 \<le> y" using decode_rune_width [of "c # cs"] by (metis list.distinct(1) snd_conv)
  then show "(drop y (c # cs), c # cs) \<in> measure length" by simp
qed simp

lemma concat_chunks: "concat (map snd (chunks s)) = s"
  by (induction s rule: chunks.induct) (auto simp: Let_def split: prod.splits)

definition runes :: "string \<Rightarrow> nat list" where
  "runes s = map fst (chunks s)"

definition of_runes :: "nat list \<Rightarrow> string" where
  "of_runes rs = concat (map encode_rune rs)"

definition utf8_valid :: "string \<Rightarrow> bool" where
  "utf8_valid s \<longleftrightarrow> list_all (\<lambda>(r, b). r \<noteq> 65533 \<or> length b = 3) (chunks s)"

declare decode_rune_def [go_defs] encode_rune_def [go_defs] cont_byte_def [go_defs]
  runes_def [go_defs] of_runes_def [go_defs] utf8_valid_def [go_defs]

lemma of_runes_append [simp]: "of_runes (a @ b) = of_runes a @ of_runes b"
  by (simp add: of_runes_def)

lemma of_runes_Nil [simp]: "of_runes [] = []"
  by (simp add: of_runes_def)

subsection \<open>White space\<close>

definition space_rune :: "nat \<Rightarrow> bool" where
  "space_rune r \<longleftrightarrow> (9 \<le> r \<and> r \<le> 13) \<or> r = 32 \<or> r = 133 \<or> r = 160 \<or> r = 5760 \<or> (8192 \<le> r \<and> r \<le> 8202)
     \<or> r = 8232 \<or> r = 8233 \<or> r = 8239 \<or> r = 8287 \<or> r = 12288"

definition trim_space :: "string \<Rightarrow> string" where
  "trim_space s = concat (map snd (rev (dropWhile (\<lambda>(r, _). space_rune r)
     (rev (dropWhile (\<lambda>(r, _). space_rune r) (chunks s))))))"

fun split_fields :: "(nat \<Rightarrow> bool) \<Rightarrow> (nat \<times> string) list \<Rightarrow> string \<Rightarrow> string list" where
  "split_fields p [] cur = (if cur = [] then [] else [cur])"
| "split_fields p ((r, b) # cs) cur =
     (if p r then (if cur = [] then split_fields p cs [] else cur # split_fields p cs [])
      else split_fields p cs (cur @ b))"

definition fields_func :: "(nat \<Rightarrow> bool) \<Rightarrow> string \<Rightarrow> string list" where
  "fields_func p s = split_fields p (chunks s) []"

definition fields :: "string \<Rightarrow> string list" where
  "fields s = fields_func space_rune s"

declare space_rune_def [go_defs] trim_space_def [go_defs] fields_func_def [go_defs] fields_def [go_defs]

lemma split_fields_nonempty: "f \<in> set (split_fields p cs cur) \<Longrightarrow> f \<noteq> []"
  by (induction p cs cur rule: split_fields.induct) (auto split: if_splits)

lemma fields_nonempty: "f \<in> set (fields s) \<Longrightarrow> f \<noteq> []"
  by (auto simp: fields_def fields_func_def dest: split_fields_nonempty)

end
