(* ===== verification/GoNum.thy ===== *)
theory GoNum
  imports GoText
begin

text \<open>
  Numbers as text: \<open>strconv.ParseInt\<close> in base 10, \<open>strconv.FormatInt\<close>, and
  \<open>hex.EncodeToString\<close>, with the facts that printing then reading gives the number back
  and that printed text determines what was printed.
\<close>

subsection \<open>Decimal\<close>

definition digit_char :: "nat \<Rightarrow> char" where
  "digit_char d = char_of (48 + d)"

fun format_nat :: "nat \<Rightarrow> string" where
  "format_nat n = (if n < 10 then [digit_char n] else format_nat (n div 10) @ [digit_char (n mod 10)])"

declare format_nat.simps [simp del]

definition format_int :: "int \<Rightarrow> string" where
  "format_int i = (if i < 0 then CHR ''-'' # format_nat (nat (- i)) else format_nat (nat i))"

definition digits_value :: "string \<Rightarrow> nat" where
  "digits_value s = foldl (\<lambda>acc c. acc * 10 + (code c - 48)) 0 s"

definition parse_uint :: "string \<Rightarrow> nat option" where
  "parse_uint s = (if s \<noteq> [] \<and> list_all is_digit s then Some (digits_value s) else None)"

text \<open>\<open>strconv.ParseInt(s, 10, bits)\<close>, with the range of the bit size.\<close>

definition parse_int_in :: "int \<Rightarrow> int \<Rightarrow> string \<Rightarrow> int option" where
  "parse_int_in lo hi s =
     (case s of
        [] \<Rightarrow> None
      | c # cs \<Rightarrow>
          (let neg = (c = CHR ''-''); body = (if c = CHR ''-'' \<or> c = CHR ''+'' then cs else s)
           in case parse_uint body of
                None \<Rightarrow> None
              | Some n \<Rightarrow> (let i = (if neg then - int n else int n)
                          in if lo \<le> i \<and> i \<le> hi then Some i else None)))"

definition parse_int :: "string \<Rightarrow> int option" where
  "parse_int s = parse_int_in (- 9223372036854775808) 9223372036854775807 s"

definition parse_int32 :: "string \<Rightarrow> int option" where
  "parse_int32 s = parse_int_in (- 2147483648) 2147483647 s"

declare digit_char_def [go_defs] format_int_def [go_defs] digits_value_def [go_defs]
  parse_uint_def [go_defs] parse_int_in_def [go_defs] parse_int_def [go_defs] parse_int32_def [go_defs]

lemma digit_chars [go_defs]:
  "char_of (48::nat) = CHR ''0''" "char_of (49::nat) = CHR ''1''" "char_of (50::nat) = CHR ''2''"
  "char_of (51::nat) = CHR ''3''" "char_of (52::nat) = CHR ''4''" "char_of (53::nat) = CHR ''5''"
  "char_of (54::nat) = CHR ''6''" "char_of (55::nat) = CHR ''7''" "char_of (56::nat) = CHR ''8''"
  "char_of (57::nat) = CHR ''9''"
  by (simp_all add: char_of_def bit_Suc_0_iff)

lemma code_digit_char: "d < 10 \<Longrightarrow> code (digit_char d) = 48 + d"
  by (simp add: digit_char_def)

lemma is_digit_digit_char: "d < 10 \<Longrightarrow> is_digit (digit_char d)"
  by (simp add: is_digit_def code_digit_char)

lemma format_nat_nonempty: "format_nat n \<noteq> []"
  by (subst format_nat.simps) simp

lemma format_nat_digits: "list_all is_digit (format_nat n)"
proof (induction n rule: format_nat.induct)
  case (1 n)
  then show ?case by (subst format_nat.simps) (auto simp: is_digit_digit_char)
qed

lemma digits_value_snoc: "digits_value (s @ [c]) = digits_value s * 10 + (code c - 48)"
  by (simp add: digits_value_def)

lemma digits_value_format: "digits_value (format_nat n) = n"
proof (induction n rule: format_nat.induct)
  case (1 n)
  show ?case
  proof (cases "n < 10")
    case True
    then have "format_nat n = [digit_char n]" by (subst format_nat.simps) simp
    then show ?thesis using True by (simp add: digits_value_def code_digit_char)
  next
    case False
    then have "format_nat n = format_nat (n div 10) @ [digit_char (n mod 10)]"
      by (subst format_nat.simps) simp
    then show ?thesis using 1 False by (simp add: digits_value_snoc code_digit_char)
  qed
qed

lemma parse_uint_format [simp]: "parse_uint (format_nat n) = Some n"
  by (simp add: parse_uint_def format_nat_nonempty format_nat_digits digits_value_format)

lemma format_nat_head_digit: "is_digit (hd (format_nat n))"
  using format_nat_digits [of n] format_nat_nonempty [of n] by (cases "format_nat n") auto

lemma digit_not_sign: "is_digit c \<Longrightarrow> c \<noteq> CHR ''-'' \<and> c \<noteq> CHR ''+''"
  by (auto simp: is_digit_def)

lemma parse_int_format: "int64_ok i \<Longrightarrow> parse_int (format_int i) = Some i"
proof (cases "i < 0")
  case True
  assume "int64_ok i"
  then show ?thesis using True
    by (simp add: parse_int_def parse_int_in_def format_int_def int64_ok_def)
next
  case False
  assume ok: "int64_ok i"
  obtain c cs where f: "format_nat (nat i) = c # cs"
    using format_nat_nonempty by (cases "format_nat (nat i)") auto
  then have "c \<noteq> CHR ''-''" "c \<noteq> CHR ''+''"
    using format_nat_head_digit [of "nat i"] digit_not_sign by auto
  moreover have "parse_uint (c # cs) = Some (nat i)" using f parse_uint_format by metis
  ultimately show ?thesis using ok False f
    by (simp add: parse_int_def parse_int_in_def format_int_def int64_ok_def)
qed

lemma parse_int_range: "parse_int s = Some i \<Longrightarrow> int64_ok i"
  by (auto simp: parse_int_def parse_int_in_def Let_def int64_ok_def
      split: list.splits option.splits if_splits)

subsection \<open>Hexadecimal\<close>

definition hex_digit :: "nat \<Rightarrow> char" where
  "hex_digit d = (if d < 10 then char_of (48 + d) else char_of (87 + d))"

definition hex_byte :: "char \<Rightarrow> string" where
  "hex_byte c = [hex_digit (code c div 16), hex_digit (code c mod 16)]"

definition hex_encode :: "string \<Rightarrow> string" where
  "hex_encode s = concat (map hex_byte s)"

text \<open>\<open>hex.DecodeString\<close>: both letter cases are read; an odd length or another byte is an error.\<close>

definition hex_value :: "char \<Rightarrow> nat option" where
  "hex_value c =
     (if is_digit c then Some (code c - 48)
      else if 97 \<le> code c \<and> code c \<le> 102 then Some (code c - 87)
      else if 65 \<le> code c \<and> code c \<le> 70 then Some (code c - 55)
      else None)"

fun hex_decode :: "string \<Rightarrow> string option" where
  "hex_decode [] = Some []"
| "hex_decode [c] = None"
| "hex_decode (a # b # r) =
     (case (hex_value a, hex_value b, hex_decode r) of
        (Some x, Some y, Some s) \<Rightarrow> Some (char_of (x * 16 + y) # s)
      | _ \<Rightarrow> None)"

declare hex_digit_def [go_defs] hex_byte_def [go_defs] hex_encode_def [go_defs] hex_value_def [go_defs]

lemma hex_value_digit: "d < 16 \<Longrightarrow> hex_value (hex_digit d) = Some d"
  by (auto simp: hex_value_def hex_digit_def is_digit_def)

lemma code_less_256: "code c < 256"
  by simp

lemma hex_decode_encode: "hex_decode (hex_encode s) = Some s"
proof (induction s)
  case (Cons c s)
  have "code c div 16 < 16" using code_less_256 [of c] by (intro less_mult_imp_div_less) simp
  moreover have "(char_of (code c div 16 * 16 + code c mod 16) :: char) = c"
    by (simp only: div_mult_mod_eq char_of_char)
  ultimately show ?case using Cons
    by (simp add: hex_encode_def hex_byte_def hex_value_digit)
qed (simp add: hex_encode_def)

lemma hex_encode_inj: "hex_encode a = hex_encode b \<Longrightarrow> a = b"
  by (metis hex_decode_encode option.inject)

end
