(* ===== verification/Json.thy ===== *)
theory Json
  imports GoNum
begin

text \<open>
  The parts of \<^verbatim>\<open>encoding/json\<close> the plane's canonicaliser relies on: the lexemes of a JSON
  text, \<open>Decoder.Token\<close> with the decoder's comma-and-colon state machine, and the encoder
  with \<open>SetEscapeHTML(false)\<close>. An object is the list of its members; the trees the
  canonicaliser builds keep it sorted by key (\<open>map_set\<close>), the order Go prints maps in.
\<close>

datatype json =
    JNull
  | JBool bool
  | JNum string
  | JStr string
  | JArr "json list"
  | JObj "(string \<times> json) list"

subsection \<open>Lexemes\<close>

datatype lexeme = LBrace | RBrace | LBrack | RBrack | Comma | Colon
  | LStr string | LNum string | LTrue | LFalse | LNull | LBad

definition json_space :: "char \<Rightarrow> bool" where
  "json_space c \<longleftrightarrow> code c = 32 \<or> code c = 9 \<or> code c = 13 \<or> code c = 10"

definition replacement :: string where
  "replacement = [char_of (239::nat), char_of (191::nat), char_of (189::nat)]"

fun hex4 :: "string \<Rightarrow> (nat \<times> string) option" where
  "hex4 (a # b # c # d # r) =
     (case (hex_value a, hex_value b, hex_value c, hex_value d) of
        (Some w, Some x, Some y, Some z) \<Rightarrow> Some (w * 4096 + x * 256 + y * 16 + z, r)
      | _ \<Rightarrow> None)"
| "hex4 _ = None"

definition is_surrogate :: "nat \<Rightarrow> bool" where
  "is_surrogate u \<longleftrightarrow> 55296 \<le> u \<and> u \<le> 57343"

text \<open>
  The rune of a \<open>\u\<close> escape whose four digits were read as \<open>u\<close>: a high surrogate followed by
  an escaped low one is one rune, any other surrogate is U+FFFD.
\<close>

definition escape_rune :: "nat \<Rightarrow> string \<Rightarrow> string \<times> string" where
  "escape_rune u r =
     (if is_surrogate u then
        (case r of
           x # y # r2 \<Rightarrow>
             if x = CHR 0x5C \<and> y = CHR ''u'' then
               (case hex4 r2 of
                  Some (v, r3) \<Rightarrow>
                    if u < 56320 \<and> 56320 \<le> v \<and> v \<le> 57343
                    then (encode_rune ((u - 55296) * 1024 + (v - 56320) + 65536), r3)
                    else (replacement, r)
                | None \<Rightarrow> (replacement, r))
             else (replacement, r)
         | _ \<Rightarrow> (replacement, r))
      else (encode_rune u, r))"

definition simple_escape :: "char \<Rightarrow> char option" where
  "simple_escape c =
     (if c = CHR 0x22 \<or> c = CHR 0x5C \<or> c = CHR 0x2F then Some c
      else if c = CHR ''b'' then Some (CHR 0x08)
      else if c = CHR ''f'' then Some (CHR 0x0C)
      else if c = CHR ''n'' then Some (CHR 0x0A)
      else if c = CHR ''r'' then Some (CHR 0x0D)
      else if c = CHR ''t'' then Some (CHR 0x09)
      else None)"

lemma hex4_length: "hex4 s = Some (v, r) \<Longrightarrow> length s = length r + 4"
  by (cases s rule: hex4.cases) (auto split: option.splits)

lemma escape_rune_length: "length (snd (escape_rune u r)) \<le> length r"
  by (auto simp: escape_rune_def split: list.splits option.splits dest: hex4_length)

text \<open>The rest of a string literal after its opening quote: the value and what follows it.\<close>

function lex_string :: "string \<Rightarrow> (string \<times> string) option" where
  "lex_string [] = None"
| "lex_string (c # cs) =
     (if c = CHR 0x22 then Some ([], cs)
      else if c = CHR 0x5C then
        (case cs of
           [] \<Rightarrow> None
         | e # r \<Rightarrow>
             if e = CHR ''u'' then
               (case hex4 r of
                  None \<Rightarrow> None
                | Some (u, r2) \<Rightarrow>
                    (case lex_string (snd (escape_rune u r2)) of
                       None \<Rightarrow> None
                     | Some (s, r4) \<Rightarrow> Some (fst (escape_rune u r2) @ s, r4)))
             else
               (case simple_escape e of
                  None \<Rightarrow> None
                | Some x \<Rightarrow> (case lex_string r of None \<Rightarrow> None | Some (s, r2) \<Rightarrow> Some (x # s, r2))))
      else if code c < 32 then None
      else
        (let (rn, w) = decode_rune (c # cs);
             b = (if rn = 65533 \<and> w = 1 then replacement else take w (c # cs))
         in case lex_string (drop w (c # cs)) of None \<Rightarrow> None | Some (s, r) \<Rightarrow> Some (b @ s, r)))"
  by pat_completeness auto
termination
proof (relation "measure length", goal_cases)
  case (2 c cs e r a u r2)
  then show ?case using escape_rune_length [of u r2] hex4_length [of r u r2] by auto
next
  case (4 c cs x rn w b)
  then have "1 \<le> w" using decode_rune_width [of "c # cs"] by (metis list.distinct(1) snd_conv)
  then show ?case by simp
qed auto

text \<open>A number literal, maximal munch: the literal and what follows, \<open>None\<close> when it is malformed.\<close>

definition lex_digits :: "string \<Rightarrow> string \<times> string" where
  "lex_digits s = (takeWhile is_digit s, dropWhile is_digit s)"

definition lex_int :: "string \<Rightarrow> (string \<times> string) option" where
  "lex_int s = (case s of
     [] \<Rightarrow> None
   | c # cs \<Rightarrow> if c = CHR ''0'' then Some ([c], cs)
               else if is_digit c then Some (lex_digits s) else None)"

definition lex_frac :: "string \<Rightarrow> (string \<times> string) option" where
  "lex_frac s = (case s of
     [] \<Rightarrow> Some ([], [])
   | c # cs \<Rightarrow> if c = CHR ''.'' then
                 (let (d, r) = lex_digits cs in if d = [] then None else Some (c # d, r))
               else Some ([], s))"

definition lex_exp :: "string \<Rightarrow> (string \<times> string) option" where
  "lex_exp s = (case s of
     [] \<Rightarrow> Some ([], [])
   | c # cs \<Rightarrow> if c = CHR ''e'' \<or> c = CHR ''E'' then
                 (let (sg, r) = (case cs of
                        x # xs \<Rightarrow> if x = CHR ''+'' \<or> x = CHR ''-'' then ([x], xs) else ([], cs)
                      | [] \<Rightarrow> ([], []));
                      (d, r2) = lex_digits r
                  in if d = [] then None else Some (c # sg @ d, r2))
               else Some ([], s))"

definition lex_number :: "string \<Rightarrow> (string \<times> string) option" where
  "lex_number s =
     (let (m, r0) = (case s of x # xs \<Rightarrow> if x = CHR ''-'' then ([x], xs) else ([], s) | [] \<Rightarrow> ([], []))
      in case lex_int r0 of
           None \<Rightarrow> None
         | Some (i, r1) \<Rightarrow>
             (case lex_frac r1 of
                None \<Rightarrow> None
              | Some (f, r2) \<Rightarrow>
                  (case lex_exp r2 of None \<Rightarrow> None | Some (e, r3) \<Rightarrow> Some (m @ i @ f @ e, r3))))"

lemma lex_digits_length: "length (snd (lex_digits s)) \<le> length s"
  by (simp add: lex_digits_def length_dropWhile_le)

lemma lex_string_length: "lex_string s = Some (v, r) \<Longrightarrow> length r < length s"
proof (induction s arbitrary: v r rule: lex_string.induct)
  case (2 c cs)
  show ?case
  proof (cases "c = CHR 0x22 \<or> c \<noteq> CHR 0x5C")
    case True
    obtain rn w where d: "decode_rune (c # cs) = (rn, w)" by fastforce
    then have "1 \<le> w" using decode_rune_width [of "c # cs"] by simp
    then show ?thesis using True "2.prems" "2.IH"(3) [OF _ _ _ d [symmetric] refl refl]
      by (fastforce simp: d Let_def split: if_splits option.splits)
  next
    case False
    then obtain e t where cs: "cs = e # t" using "2.prems" by (cases cs) auto
    show ?thesis
    proof (cases "e = CHR ''u''")
      case True
      then obtain u r2 v' where h: "hex4 t = Some (u, r2)"
          and l: "lex_string (snd (escape_rune u r2)) = Some (v', r)"
        using False cs "2.prems" by (auto split: option.splits)
      then have "length r < length (snd (escape_rune u r2))"
        using "2.IH"(1) [OF _ _ cs True h refl] False by blast
      then show ?thesis using escape_rune_length [of u r2] hex4_length [OF h] cs by simp
    next
      case E: False
      then obtain x v' where "simple_escape e = Some x" and "lex_string t = Some (v', r)"
        using False cs "2.prems" by (auto split: option.splits)
      then show ?thesis using "2.IH"(2) [OF _ _ cs E] False cs by fastforce
    qed
  qed
qed simp

lemma lex_number_length: "lex_number s = Some (v, r) \<Longrightarrow> length r < length s"
proof -
  note [simp] = length_dropWhile_le le_SucI less_Suc_eq_le
  have i: "length b < length x" if "lex_int x = Some (a, b)" for x a b
    using that by (cases x) (auto simp: lex_int_def lex_digits_def split: if_splits)
  have f: "length b \<le> length x" if "lex_frac x = Some (a, b)" for x a b
    using that by (cases x) (auto simp: lex_frac_def lex_digits_def Let_def split: if_splits)
  have e: "length b \<le> length x" if "lex_exp x = Some (a, b)" for x a b
    using that
    by (cases x; cases "tl x") (auto simp: lex_exp_def lex_digits_def Let_def split: if_splits)
  show "lex_number s = Some (v, r) \<Longrightarrow> length r < length s"
    by (cases s) (auto simp: lex_number_def Let_def split: option.splits if_splits
        dest!: i f e)
qed

subsection \<open>The lexer\<close>

function lex :: "string \<Rightarrow> lexeme list" where
  "lex [] = []"
| "lex (c # cs) =
     (if json_space c then lex cs
      else if c = CHR ''{'' then LBrace # lex cs
      else if c = CHR ''}'' then RBrace # lex cs
      else if c = CHR ''['' then LBrack # lex cs
      else if c = CHR '']'' then RBrack # lex cs
      else if c = CHR '','' then Comma # lex cs
      else if c = CHR '':'' then Colon # lex cs
      else if c = CHR 0x22 then
        (case lex_string cs of None \<Rightarrow> [LBad] | Some (s, r) \<Rightarrow> LStr s # lex r)
      else if c = CHR ''-'' \<or> is_digit c then
        (case lex_number (c # cs) of None \<Rightarrow> [LBad] | Some (s, r) \<Rightarrow> LNum s # lex r)
      else if has_prefix (c # cs) ''true'' then LTrue # lex (drop 3 cs)
      else if has_prefix (c # cs) ''false'' then LFalse # lex (drop 4 cs)
      else if has_prefix (c # cs) ''null'' then LNull # lex (drop 3 cs)
      else [LBad])"
  by pat_completeness auto
termination
proof (relation "measure length", goal_cases)
  case (9 c cs x s r)
  then show ?case using lex_string_length [of cs s r] by simp
next
  case (10 c cs x s r)
  then show ?case using lex_number_length [of "c # cs" s r] by simp
qed (simp_all only: in_measure wf_measure length_Cons length_drop lessI diff_less_Suc simp_thms)

subsection \<open>The decoder\<close>

text \<open>
  \<open>Decoder.Token\<close>: the decoder walks the lexemes, checks commas and colons with its token
  state, and returns delimiters and scalars. \<open>More\<close> looks at the next byte. Running off
  the end of the input is \<open>EOF\<close>, everything else that is not JSON is \<open>Syntax\<close>.
\<close>

datatype tstate = TopValue | ArrayStart | ArrayValue | ArrayComma
  | ObjectStart | ObjectKey | ObjectColon | ObjectValue | ObjectComma

datatype json_error = EOF | Syntax

datatype tok = TDelim lexeme | TScalar json

record decoder =
  lexemes :: "lexeme list"
  tokenState :: tstate
  tokenStack :: "tstate list"

definition new_decoder :: "string \<Rightarrow> decoder" where
  "new_decoder body = \<lparr>lexemes = lex body, tokenState = TopValue, tokenStack = []\<rparr>"

definition value_allowed :: "tstate \<Rightarrow> bool" where
  "value_allowed st \<longleftrightarrow> st = TopValue \<or> st = ArrayStart \<or> st = ArrayValue \<or> st = ObjectValue"

fun value_end :: "tstate \<Rightarrow> tstate" where
  "value_end ArrayStart = ArrayComma"
| "value_end ArrayValue = ArrayComma"
| "value_end ObjectValue = ObjectComma"
| "value_end st = st"

fun scalar_of :: "lexeme \<Rightarrow> json option" where
  "scalar_of (LStr s) = Some (JStr s)"
| "scalar_of (LNum n) = Some (JNum n)"
| "scalar_of LTrue = Some (JBool True)"
| "scalar_of LFalse = Some (JBool False)"
| "scalar_of LNull = Some JNull"
| "scalar_of _ = None"

fun token_from :: "lexeme list \<Rightarrow> tstate \<Rightarrow> tstate list \<Rightarrow> (json_error + tok) \<times> decoder" where
  "token_from [] st stk = (Inl EOF, \<lparr>lexemes = [], tokenState = st, tokenStack = stk\<rparr>)"
| "token_from (l # ls) st stk =
     (let stay = \<lparr>lexemes = l # ls, tokenState = st, tokenStack = stk\<rparr> in
      case l of
        LBrack \<Rightarrow>
          if value_allowed st
          then (Inr (TDelim LBrack), \<lparr>lexemes = ls, tokenState = ArrayStart, tokenStack = st # stk\<rparr>)
          else (Inl Syntax, stay)
      | RBrack \<Rightarrow>
          (if st = ArrayStart \<or> st = ArrayComma then
             (case stk of
                [] \<Rightarrow> (Inl Syntax, stay)
              | st' # stk' \<Rightarrow> (Inr (TDelim RBrack),
                  \<lparr>lexemes = ls, tokenState = value_end st', tokenStack = stk'\<rparr>))
           else (Inl Syntax, stay))
      | LBrace \<Rightarrow>
          if value_allowed st
          then (Inr (TDelim LBrace), \<lparr>lexemes = ls, tokenState = ObjectStart, tokenStack = st # stk\<rparr>)
          else (Inl Syntax, stay)
      | RBrace \<Rightarrow>
          (if st = ObjectStart \<or> st = ObjectComma then
             (case stk of
                [] \<Rightarrow> (Inl Syntax, stay)
              | st' # stk' \<Rightarrow> (Inr (TDelim RBrace),
                  \<lparr>lexemes = ls, tokenState = value_end st', tokenStack = stk'\<rparr>))
           else (Inl Syntax, stay))
      | Colon \<Rightarrow> if st = ObjectColon then token_from ls ObjectValue stk else (Inl Syntax, stay)
      | Comma \<Rightarrow>
          (if st = ArrayComma then token_from ls ArrayValue stk
           else if st = ObjectComma then token_from ls ObjectKey stk
           else (Inl Syntax, stay))
      | LStr s \<Rightarrow>
          (if st = ObjectStart \<or> st = ObjectKey
           then (Inr (TScalar (JStr s)), \<lparr>lexemes = ls, tokenState = ObjectColon, tokenStack = stk\<rparr>)
           else if value_allowed st
           then (Inr (TScalar (JStr s)), \<lparr>lexemes = ls, tokenState = value_end st, tokenStack = stk\<rparr>)
           else (Inl Syntax, stay))
      | _ \<Rightarrow>
          (case scalar_of l of
             None \<Rightarrow> (Inl Syntax, stay)
           | Some v \<Rightarrow>
               if value_allowed st
               then (Inr (TScalar v), \<lparr>lexemes = ls, tokenState = value_end st, tokenStack = stk\<rparr>)
               else (Inl Syntax, stay)))"

definition dec_token :: "decoder \<Rightarrow> (json_error + tok) \<times> decoder" where
  "dec_token d = token_from (lexemes d) (tokenState d) (tokenStack d)"

definition dec_more :: "decoder \<Rightarrow> bool" where
  "dec_more d \<longleftrightarrow> (case lexemes d of [] \<Rightarrow> False | l # _ \<Rightarrow> l \<noteq> RBrack \<and> l \<noteq> RBrace)"

lemma token_from_shorter:
  "token_from ls st stk = (Inr t, d') \<Longrightarrow> length (lexemes d') < length ls"
  by (induction ls st stk rule: token_from.induct)
     (auto simp: Let_def split: lexeme.splits if_splits list.splits option.splits)

lemma dec_token_shorter: "dec_token d = (Inr t, d') \<Longrightarrow> length (lexemes d') < length (lexemes d)"
  by (simp add: dec_token_def token_from_shorter)

subsection \<open>The encoder\<close>

text \<open>
  \<open>Encoder.Encode\<close> with HTML escaping off. A string is copied rune by rune; the quote, the
  backslash, control characters, the two line separators and invalid bytes are escaped.
\<close>

definition esc_chunk :: "nat \<times> string \<Rightarrow> string" where
  "esc_chunk ch = (case ch of (r, b) \<Rightarrow>
     if r = 34 then [CHR 0x5C, CHR 0x22]
     else if r = 92 then [CHR 0x5C, CHR 0x5C]
     else if r = 8 then [CHR 0x5C, CHR ''b'']
     else if r = 12 then [CHR 0x5C, CHR ''f'']
     else if r = 10 then [CHR 0x5C, CHR ''n'']
     else if r = 13 then [CHR 0x5C, CHR ''r'']
     else if r = 9 then [CHR 0x5C, CHR ''t'']
     else if r < 32 then [CHR 0x5C, CHR ''u'', CHR ''0'', CHR ''0'', hex_digit (r div 16), hex_digit (r mod 16)]
     else if r = 65533 \<and> length b = 1 then CHR 0x5C # ''ufffd''
     else if r = 8232 then CHR 0x5C # ''u2028''
     else if r = 8233 then CHR 0x5C # ''u2029''
     else b)"

definition esc_string :: "string \<Rightarrow> string" where
  "esc_string s = concat (map esc_chunk (chunks s))"

definition quote_json :: "string \<Rightarrow> string" where
  "quote_json s = CHR 0x22 # esc_string s @ [CHR 0x22]"

fun render :: "json \<Rightarrow> string" where
  "render JNull = ''null''"
| "render (JBool b) = (if b then ''true'' else ''false'')"
| "render (JNum n) = n"
| "render (JStr s) = quote_json s"
| "render (JArr vs) = CHR ''['' # join '','' (map render vs) @ '']''"
| "render (JObj ms) =
     CHR ''{'' # join '','' (map (\<lambda>(k, v). quote_json k @ '':'' @ render v) ms) @ ''}''"

end
