(* ===== verification/JsonRoundtrip.thy ===== *)
theory JsonRoundtrip
  imports Json
begin

text \<open>
  Printing a JSON tree and reading it back: the lexemes of \<open>render v\<close> are the lexemes of the
  document \<open>v\<close>, for every tree whose strings are valid UTF-8 and whose number literals are
  well formed. Hence printing is injective on those trees.
\<close>

subsection \<open>Runes\<close>

text \<open>A chunk is good when it is a rune, not a byte that could not be decoded.\<close>

definition good_chunk :: "nat \<times> string \<Rightarrow> bool" where
  "good_chunk ch \<longleftrightarrow> (case ch of (r, b) \<Rightarrow>
     b \<noteq> [] \<and> decode_rune b = (r, length b) \<and> \<not> (r = 65533 \<and> length b = 1))"

lemma decode_rune_append:
  assumes "s \<noteq> []" "decode_rune s = (r, w)" "\<not> (r = 65533 \<and> w = 1)"
  shows "decode_rune (take w s @ t) = (r, w)"
  using assms
  by (cases s; cases "tl s"; cases "tl (tl s)"; cases "tl (tl (tl s))")
     (auto simp: decode_rune_def Let_def split: if_splits)

lemma good_chunk_append: "good_chunk (r, b) \<Longrightarrow> decode_rune (b @ t) = (r, length b)"
  using decode_rune_append [of b r "length b" t] by (simp add: good_chunk_def)

lemma decode_rune_good:
  assumes "s \<noteq> []" "decode_rune s = (r, w)" "\<not> (r = 65533 \<and> w = 1)"
  shows "good_chunk (r, take w s)"
proof -
  have "1 \<le> w" "w \<le> length s"
    using assms decode_rune_width [of s] decode_rune_width_le [of s] by auto
  moreover have "decode_rune (take w s) = (r, w)" using decode_rune_append [OF assms, of "[]"] by simp
  ultimately show ?thesis using assms by (auto simp: good_chunk_def)
qed

lemma chunks_good_append: "good_chunk (r, b) \<Longrightarrow> chunks (b @ t) = (r, b) # chunks t"
proof -
  assume g: "good_chunk (r, b)"
  then obtain c cs where b: "b = c # cs" by (cases b) (auto simp: good_chunk_def)
  have "decode_rune (c # (cs @ t)) = (r, Suc (length cs))" using good_chunk_append [OF g, of t] b by simp
  then show ?thesis by (simp add: b Let_def)
qed

lemma utf8_valid_good: "utf8_valid s \<longleftrightarrow> list_all good_chunk (chunks s)"
proof (induction s rule: chunks.induct)
  case (2 c cs)
  obtain r w where d: "decode_rune (c # cs) = (r, w)" by fastforce
  have w: "1 \<le> w" "w \<le> length (c # cs)"
    using d decode_rune_width [of "c # cs"] decode_rune_width_le [of "c # cs"] by auto
  have "(r \<noteq> 65533 \<or> w = 3) \<longleftrightarrow> good_chunk (r, take w (c # cs))"
  proof
    assume "r \<noteq> 65533 \<or> w = 3"
    then show "good_chunk (r, take w (c # cs))" by (intro decode_rune_good [OF _ d]) auto
  next
    assume g: "good_chunk (r, take w (c # cs))"
    have "w = 1 \<or> w = 3" if "r = 65533"
      using d that by (auto simp: decode_rune_def Let_def cont_byte_def split: list.splits if_splits)
    then show "r \<noteq> 65533 \<or> w = 3" using g w by (auto simp: good_chunk_def)
  qed
  then show ?case using 2 [OF d [symmetric] refl] w by (simp add: utf8_valid_def d Let_def)
qed (simp add: utf8_valid_def)

lemma utf8_valid_good_append: "good_chunk (r, b) \<Longrightarrow> utf8_valid (b @ t) \<longleftrightarrow> utf8_valid t"
  by (simp add: utf8_valid_good chunks_good_append)

lemma utf8_valid_Nil [simp]: "utf8_valid []"
  by (simp add: utf8_valid_def)

lemma good_chunk_ascii: "code c < 128 \<Longrightarrow> good_chunk (code c, [c])"
  by (simp add: good_chunk_def decode_rune_def Let_def)

lemma good_chunk_small: "good_chunk (r, b) \<Longrightarrow> r < 128 \<Longrightarrow> b = [char_of r]"
  by (auto simp: good_chunk_def decode_rune_def Let_def cont_byte_def split: list.splits if_splits)

lemma good_chunk_big: "good_chunk (r, c # b) \<Longrightarrow> 128 \<le> r \<Longrightarrow> 128 \<le> code c"
  by (auto simp: good_chunk_def decode_rune_def Let_def cont_byte_def split: list.splits if_splits)

lemma div4096: "r div 64 div 64 = r div (4096::nat)" by (simp add: div_mult2_eq [symmetric])
lemma div262: "r div 4096 div 64 = r div (262144::nat)" by (simp add: div_mult2_eq [symmetric])

lemma good_chunk_encode:
  assumes "r \<le> 1114111" "\<not> is_surrogate r"
  shows "good_chunk (r, encode_rune r)"
proof -
  have s2: "r = 64 * (r div 64) + r mod 64" by simp
  have s3: "r = 4096 * (r div 4096) + 64 * (r div 64 mod 64) + r mod 64"
    using mult_div_mod_eq [of 64 "r div 64"] mult_div_mod_eq [of 64 r] div4096 [of r] by linarith
  have s4: "r = 262144 * (r div 262144) + 4096 * (r div 4096 mod 64) + 64 * (r div 64 mod 64) + r mod 64"
    using s3 mult_div_mod_eq [of 64 "r div 4096"] div262 [of r] by linarith
  have m: "r mod 64 < 64" "r div 64 mod 64 < 64" "r div 4096 mod 64 < 64" by simp_all
  consider (one) "r < 128" | (two) "128 \<le> r" "r < 2048" | (three) "2048 \<le> r" "r < 65536" | (four) "65536 \<le> r"
    by linarith
  then show ?thesis
  proof cases
    case one
    then show ?thesis using good_chunk_ascii [of "char_of r"] by (simp add: encode_rune_def)
  next
    case two
    define a b where "a = r div 64" and "b = r mod 64"
    have "2 \<le> a" "a < 32" "b < 64" "r = 64 * a + b" using two s2 m by (auto simp: a_def b_def)
    then show ?thesis using two unfolding encode_rune_def a_def [symmetric] b_def [symmetric]
      by (simp add: good_chunk_def decode_rune_def Let_def cont_byte_def)
  next
    case three
    define a b c where "a = r div 4096" and "b = r div 64 mod 64" and "c = r mod 64"
    have eq: "r = 4096 * a + 64 * b + c" and lt: "b < 64" "c < 64"
      using three s3 m by (auto simp: a_def b_def c_def)
    moreover have "a < 16" using three eq by linarith
    ultimately show ?thesis using three assms
      unfolding encode_rune_def a_def [symmetric] b_def [symmetric] c_def [symmetric]
      by (auto simp: good_chunk_def decode_rune_def Let_def cont_byte_def is_surrogate_def)
  next
    case four
    define a b c d where "a = r div 262144" and "b = r div 4096 mod 64"
      and "c = r div 64 mod 64" and "d = r mod 64"
    have eq: "r = 262144 * a + 4096 * b + 64 * c + d" and lt: "b < 64" "c < 64" "d < 64"
      using four s4 m by (auto simp: a_def b_def c_def d_def)
    moreover have "a < 5" using assms eq by linarith
    ultimately show ?thesis using four assms
      unfolding encode_rune_def a_def [symmetric] b_def [symmetric] c_def [symmetric] d_def [symmetric]
      by (auto simp: good_chunk_def decode_rune_def Let_def cont_byte_def is_surrogate_def)
  qed
qed

lemma encode_good_chunk:
  assumes g: "good_chunk (r, b)"
  shows "encode_rune r = b"
proof -
  have ch: "c = char_of (k + (code c - k))" if "k \<le> code c" for c k using that by simp
  have w: "length b \<le> 4" "b \<noteq> []" using g
    by (auto simp: good_chunk_def decode_rune_def Let_def split: list.splits if_splits)
  then consider (one) c1 where "b = [c1]" | (two) c1 c2 where "b = [c1, c2]"
    | (three) c1 c2 c3 where "b = [c1, c2, c3]" | (four) c1 c2 c3 c4 where "b = [c1, c2, c3, c4]"
    by (cases b; cases "tl b"; cases "tl (tl b)"; cases "tl (tl (tl b))") auto
  then show ?thesis
  proof cases
    case one
    then have "r < 128" "r = code c1" using g by (auto simp: good_chunk_def decode_rune_def Let_def split: if_splits)
    then show ?thesis using one by (simp add: encode_rune_def)
  next
    case two
    define x y where "x = code c1 - 192" and "y = code c2 - 128"
    have f: "r = x * 64 + y" "2 \<le> x" "x < 32" "y < 64" "192 \<le> code c1" "128 \<le> code c2"
      using g two by (auto simp: good_chunk_def decode_rune_def Let_def cont_byte_def x_def y_def split: if_splits)
    have "c1 = char_of (192 + x)" "c2 = char_of (128 + y)" unfolding x_def y_def using f ch by blast+
    then show ?thesis using two f by (simp add: encode_rune_def)
  next
    case three
    define x y z where "x = code c1 - 224" and "y = code c2 - 128" and "z = code c3 - 128"
    have f: "r = x * 4096 + y * 64 + z" "x < 16" "y < 64" "z < 64" "x = 0 \<longrightarrow> 32 \<le> y" "x = 13 \<longrightarrow> y < 32"
        "224 \<le> code c1" "128 \<le> code c2" "128 \<le> code c3"
      using g three by (auto simp: good_chunk_def decode_rune_def Let_def cont_byte_def x_def y_def z_def split: if_splits)
    have c: "c1 = char_of (224 + x)" "c2 = char_of (128 + y)" "c3 = char_of (128 + z)"
      unfolding x_def y_def z_def using f ch by blast+
    have "r div 4096 = x" "r div 64 = x * 64 + y" "r mod 64 = z"
      using f by (simp_all add: div_nat_eqI mod_nat_eqI)
    moreover have "\<not> r < 2048" "r < 65536" using f by linarith+
    moreover have "\<not> (55296 \<le> r \<and> r \<le> 57343)"
    proof -
      consider "x \<le> 12" | "x = 13" | "14 \<le> x" by linarith
      then show ?thesis using f by cases linarith+
    qed
    ultimately show ?thesis using three f c by (simp add: encode_rune_def)
  next
    case four
    define x y z u where "x = code c1 - 240" and "y = code c2 - 128" and "z = code c3 - 128" and "u = code c4 - 128"
    have f: "r = x * 262144 + y * 4096 + z * 64 + u" "x < 5" "y < 64" "z < 64" "u < 64" "x = 0 \<longrightarrow> 16 \<le> y" "x = 4 \<longrightarrow> y < 16"
        "240 \<le> code c1" "128 \<le> code c2" "128 \<le> code c3" "128 \<le> code c4"
      using g four by (auto simp: good_chunk_def decode_rune_def Let_def cont_byte_def x_def y_def z_def u_def split: if_splits)
    have c: "c1 = char_of (240 + x)" "c2 = char_of (128 + y)" "c3 = char_of (128 + z)" "c4 = char_of (128 + u)"
      unfolding x_def y_def z_def u_def using f ch by blast+
    have q: "r div 262144 = x" "r div 4096 = x * 64 + y" "r div 64 = (x * 64 + y) * 64 + z" "r mod 64 = u"
      using f by (simp_all add: div_nat_eqI mod_nat_eqI)
    have m: "(x * 64 + y) mod 64 = y" "((x * 64 + y) * 64 + z) mod 64 = z"
      using f(3,4) by (metis mod_less mod_mult_self3)+
    have "\<not> r < 65536" "\<not> 1114111 < r" using f by linarith+
    then have "encode_rune r = [char_of (240 + r div 262144), char_of (128 + r div 4096 mod 64),
        char_of (128 + r div 64 mod 64), char_of (128 + r mod 64)]"
      by (simp add: encode_rune_def)
    then show ?thesis unfolding q m four c .
  qed
qed

lemma good_chunk_code: "good_chunk (r, c # b) \<Longrightarrow> r < 128 \<Longrightarrow> code c = r"
  by (auto simp: good_chunk_def decode_rune_def Let_def cont_byte_def split: list.splits if_splits)

subsection \<open>Strings\<close>

definition escapes :: "(nat \<times> char) list" where
  "escapes = [(34, CHR 0x22), (92, CHR 0x5C), (8, CHR ''b''), (12, CHR ''f''), (10, CHR ''n''),
              (13, CHR ''r''), (9, CHR ''t'')]"

lemma escape_chars:
  "list_all (\<lambda>(r, x). r < 128 \<and> x \<noteq> CHR ''u'' \<and> map_option of_char (simple_escape x) = Some r) escapes"
  by (simp add: escapes_def simple_escape_def)

lemma escapes_simple:
  assumes "(r, x) \<in> set escapes"
  shows "esc_chunk (r, b) = [CHR 0x5C, x]" "simple_escape x = Some (char_of r)" "x \<noteq> CHR ''u''" "r < 128"
proof -
  show "esc_chunk (r, b) = [CHR 0x5C, x]" using assms by (auto simp: escapes_def esc_chunk_def)
  have "r < 128 \<and> x \<noteq> CHR ''u'' \<and> map_option of_char (simple_escape x) = Some r"
    using assms escape_chars unfolding list_all_iff by auto
  then show "simple_escape x = Some (char_of r)" "x \<noteq> CHR ''u''" "r < 128"
    by (auto simp: char_of_char)
qed

lemma escapes_other:
  "r \<notin> fst ` set escapes \<Longrightarrow> r \<noteq> 34 \<and> r \<noteq> 92 \<and> r \<noteq> 8 \<and> r \<noteq> 12 \<and> r \<noteq> 10 \<and> r \<noteq> 13 \<and> r \<noteq> 9"
  by (auto simp: escapes_def)

lemma hex4_control:
  assumes "r < 32"
  shows "hex4 (CHR ''0'' # CHR ''0'' # hex_digit (r div 16) # hex_digit (r mod 16) # t) = Some (r, t)"
proof -
  have "hex_value (CHR ''0'') = Some 0" by (simp add: hex_value_def is_digit_def)
  moreover have "r div 16 < 16" using assms by simp
  ultimately show ?thesis by (simp add: hex_value_digit)
qed

lemma lex_string_escape:
  assumes "simple_escape e = Some x" "e \<noteq> CHR ''u''"
  shows "lex_string (CHR 0x5C # e # t) = map_option (\<lambda>(s, r). (x # s, r)) (lex_string t)"
  using assms by (auto split: option.splits)

lemma lex_string_unicode:
  assumes "hex4 (a # b # c # d # t) = Some (u, t)" "\<not> is_surrogate u"
  shows "lex_string (CHR 0x5C # CHR ''u'' # a # b # c # d # t) =
    map_option (\<lambda>(s, r). (encode_rune u @ s, r)) (lex_string t)"
  using assms by (auto simp: escape_rune_def simp del: hex4.simps split: option.splits)

lemma lex_string_plain:
  assumes "good_chunk (r, b)" "r \<noteq> 34" "r \<noteq> 92" "32 \<le> r"
  shows "lex_string (b @ t) = map_option (\<lambda>(s, r). (b @ s, r)) (lex_string t)"
proof -
  obtain c cs where b: "b = c # cs" using assms(1) by (cases b) (auto simp: good_chunk_def)
  have d: "decode_rune (c # cs @ t) = (r, Suc (length cs))"
    using good_chunk_append [OF assms(1), of t] b by simp
  have "c \<noteq> CHR 0x22 \<and> c \<noteq> CHR 0x5C \<and> 32 \<le> code c"
  proof (cases "r < 128")
    case True
    then have "code c = r" using assms(1) b good_chunk_code by blast
    then show ?thesis using assms(2-4) by auto
  next
    case False
    then have "128 \<le> code c" using good_chunk_big [of r c cs] assms(1) b by simp
    then show ?thesis by auto
  qed
  moreover have "\<not> (r = 65533 \<and> Suc (length cs) = 1)" using assms(1) b by (auto simp: good_chunk_def)
  ultimately show ?thesis using b d by (auto simp: Let_def split: option.splits)
qed

lemma lex_esc_chunk:
  assumes "good_chunk (r, b)"
  shows "lex_string (esc_chunk (r, b) @ t) = map_option (\<lambda>(s, r). (b @ s, r)) (lex_string t)"
proof -
  note [simp del] = lex_string.simps hex4.simps
  have e: "encode_rune r = b" by (rule encode_good_chunk [OF assms])
  have small: "r < 128 \<Longrightarrow> b = [char_of r]" by (rule good_chunk_small [OF assms])
  consider (simple) x where "(r, x) \<in> set escapes"
    | (control) "r < 32" "esc_chunk (r, b) = [CHR 0x5C, CHR ''u'', CHR ''0'', CHR ''0'', hex_digit (r div 16), hex_digit (r mod 16)]"
    | (line) "r = 8232 \<or> r = 8233"
    | (plain) "esc_chunk (r, b) = b" "r \<noteq> 34" "r \<noteq> 92" "32 \<le> r"
  proof (cases "r \<in> fst ` set escapes")
    case False
    note n = escapes_other [OF False]
    have "\<not> (r = 65533 \<and> length b = 1)" using assms by (simp add: good_chunk_def)
    then show thesis using n that(2-4)
      by (cases "r < 32"; cases "r = 8232 \<or> r = 8233") (auto simp: esc_chunk_def)
  qed (use that(1) in force)
  then show ?thesis
  proof cases
    case simple
    then show ?thesis using escapes_simple [OF simple] lex_string_escape [of x "char_of r" t] small by simp
  next
    case control
    then show ?thesis using lex_string_unicode [OF hex4_control, of r t] e
      by (simp add: is_surrogate_def)
  next
    case line
    have "hex4 (''2028'' @ t) = Some (8232, t)" "hex4 (''2029'' @ t) = Some (8233, t)"
      by (simp_all add: hex4.simps hex_value_def is_digit_def)
    then show ?thesis using line e
        lex_string_unicode [of "CHR ''2''" "CHR ''0''" "CHR ''2''" "CHR ''8''" t 8232]
        lex_string_unicode [of "CHR ''2''" "CHR ''0''" "CHR ''2''" "CHR ''9''" t 8233]
      by (auto simp: esc_chunk_def is_surrogate_def)
  next
    case plain
    then show ?thesis using lex_string_plain [OF assms] by simp
  qed
qed

lemma lex_esc_string: "utf8_valid s \<Longrightarrow> lex_string (esc_string s @ CHR 0x22 # t) = Some (s, t)"
proof (induction s rule: chunks.induct)
  case 1
  show ?case by (simp add: esc_string_def)
next
  case (2 c cs)
  obtain r w where d: "decode_rune (c # cs) = (r, w)" by fastforce
  have g: "good_chunk (r, take w (c # cs))" and v: "utf8_valid (drop w (c # cs))"
    using "2.prems" d unfolding utf8_valid_good by (simp_all add: Let_def)
  have "esc_string (c # cs) = esc_chunk (r, take w (c # cs)) @ esc_string (drop w (c # cs))"
    using d by (simp add: esc_string_def Let_def)
  then show ?case using lex_esc_chunk [OF g] "2.IH" [OF d [symmetric] refl v]
    by (simp del: lex_string.simps)
qed

subsection \<open>Numbers\<close>

text \<open>A character at which a number literal stops.\<close>

definition num_stop :: "string \<Rightarrow> bool" where
  "num_stop t \<longleftrightarrow> (case t of [] \<Rightarrow> True
     | c # _ \<Rightarrow> \<not> is_digit c \<and> c \<noteq> CHR ''.'' \<and> c \<noteq> CHR ''e'' \<and> c \<noteq> CHR ''E'' \<and> c \<noteq> CHR ''+'' \<and> c \<noteq> CHR ''-'')"

lemma digits_stop: "num_stop t \<Longrightarrow> takeWhile is_digit t = [] \<and> dropWhile is_digit t = t"
  by (cases t) (auto simp: num_stop_def)

lemma lex_digits_append:
  "num_stop t \<Longrightarrow> lex_digits (x @ t) = (fst (lex_digits x), snd (lex_digits x) @ t)"
  using digits_stop [of t]
  by (auto simp: lex_digits_def takeWhile_append dropWhile_append takeWhile_eq_all_conv [THEN iffD2])

lemma lex_int_append: "lex_int x = Some (a, b) \<Longrightarrow> num_stop t \<Longrightarrow> lex_int (x @ t) = Some (a, b @ t)"
  using lex_digits_append [of t x] by (cases x) (auto simp: lex_int_def split: if_splits)

lemma lex_frac_append: "lex_frac x = Some (a, b) \<Longrightarrow> num_stop t \<Longrightarrow> lex_frac (x @ t) = Some (a, b @ t)"
  using lex_digits_append [of t "tl x"]
  by (cases x; cases t) (auto simp: lex_frac_def num_stop_def Let_def split: if_splits prod.splits)

lemma lex_exp_append: "lex_exp x = Some (a, b) \<Longrightarrow> num_stop t \<Longrightarrow> lex_exp (x @ t) = Some (a, b @ t)"
  using lex_digits_append [of t "tl x"] lex_digits_append [of t "tl (tl x)"]
  by (cases x; cases "tl x"; cases t)
     (auto simp: lex_exp_def num_stop_def Let_def lex_digits_def split: if_splits prod.splits)

lemma lex_number_parts:
  "lex_number x = Some (v, r) \<longleftrightarrow>
     (\<exists>m r0 i r1 f r2 e. x = m @ r0 \<and> m = (if \<exists>cs. x = CHR ''-'' # cs then ''-'' else []) \<and>
        lex_int r0 = Some (i, r1) \<and> lex_frac r1 = Some (f, r2) \<and> lex_exp r2 = Some (e, r) \<and>
        v = m @ i @ f @ e)"
  by (cases x) (auto simp: lex_number_def Let_def split: option.splits)

lemma lex_number_append:
  assumes "lex_number x = Some (a, b)" "num_stop t"
  shows "lex_number (x @ t) = Some (a, b @ t)"
proof -
  obtain m r0 i r1 f r2 e where x: "x = m @ r0" and m: "m = (if \<exists>cs. x = CHR ''-'' # cs then ''-'' else [])"
    and p: "lex_int r0 = Some (i, r1)" "lex_frac r1 = Some (f, r2)" "lex_exp r2 = Some (e, b)"
    and a: "a = m @ i @ f @ e"
    using assms(1) unfolding lex_number_parts by blast
  have "r0 \<noteq> []" using p by (auto simp: lex_int_def)
  then have "m = (if \<exists>cs. x @ t = CHR ''-'' # cs then ''-'' else [])" using x m by (cases x) auto
  then show ?thesis unfolding lex_number_parts
    using x a lex_int_append [OF p(1) assms(2)] lex_frac_append [OF p(2) assms(2)]
      lex_exp_append [OF p(3) assms(2)] by fastforce
qed

lemma lex_number_head: "lex_number (c # cs) = Some v \<Longrightarrow> c = CHR ''-'' \<or> is_digit c"
proof -
  have "is_digit (CHR ''0'')" by (simp add: is_digit_def)
  then show "lex_number (c # cs) = Some v \<Longrightarrow> ?thesis"
    by (auto simp: lex_number_def lex_int_def Let_def split: option.splits if_splits)
qed

definition number_ok :: "string \<Rightarrow> bool" where
  "number_ok n \<longleftrightarrow> lex_number n = Some (n, [])"

lemma number_ok_head: "number_ok n \<Longrightarrow> \<exists>c cs. n = c # cs \<and> (c = CHR ''-'' \<or> is_digit c)"
proof (cases n)
  case Nil
  then show "number_ok n \<Longrightarrow> ?thesis" by (simp add: number_ok_def lex_number_def lex_int_def)
next
  case (Cons c cs)
  then show "number_ok n \<Longrightarrow> ?thesis" using lex_number_head [of c cs] by (auto simp: number_ok_def)
qed

subsection \<open>Documents\<close>

text \<open>The lexemes of a raw document, a tree whose objects list their members as written.\<close>

fun doc_lexemes :: "json \<Rightarrow> lexeme list"
and member_lexemes :: "bool \<Rightarrow> (string \<times> json) list \<Rightarrow> lexeme list"
and elem_lexemes :: "bool \<Rightarrow> json list \<Rightarrow> lexeme list"
where
  "doc_lexemes JNull = [LNull]"
| "doc_lexemes (JBool b) = [if b then LTrue else LFalse]"
| "doc_lexemes (JNum n) = [LNum n]"
| "doc_lexemes (JStr s) = [LStr s]"
| "doc_lexemes (JArr vs) = LBrack # elem_lexemes False vs @ [RBrack]"
| "doc_lexemes (JObj ms) = LBrace # member_lexemes False ms @ [RBrace]"
| "member_lexemes sep [] = []"
| "member_lexemes sep ((k, v) # ms) =
     (if sep then [Comma] else []) @ LStr k # Colon # doc_lexemes v @ member_lexemes True ms"
| "elem_lexemes sep [] = []"
| "elem_lexemes sep (v # vs) =
     (if sep then [Comma] else []) @ doc_lexemes v @ elem_lexemes True vs"

text \<open>Trees that print and read back: valid strings, well-formed numbers.\<close>

fun json_ok :: "json \<Rightarrow> bool" where
  "json_ok (JNum n) = number_ok n"
| "json_ok (JStr s) = utf8_valid s"
| "json_ok (JArr vs) = list_all json_ok vs"
| "json_ok (JObj ms) = list_all (\<lambda>(k, v). utf8_valid k \<and> json_ok v) ms"
| "json_ok v = True"

text \<open>What may follow a value inside a document.\<close>

definition value_stop :: "string \<Rightarrow> bool" where
  "value_stop t \<longleftrightarrow> t = [] \<or> hd t = CHR '','' \<or> hd t = CHR '']'' \<or> hd t = CHR ''}''"

lemma value_stop_num: "value_stop t \<Longrightarrow> num_stop t"
  by (cases t) (auto simp: value_stop_def num_stop_def is_digit_def)

lemma not_json_space [simp]:
  "\<not> json_space (CHR ''{'')" "\<not> json_space (CHR ''}'')" "\<not> json_space (CHR ''['')"
  "\<not> json_space (CHR '']'')" "\<not> json_space (CHR '','')" "\<not> json_space (CHR '':'')"
  "\<not> json_space (CHR 0x22)"
  by (simp_all add: json_space_def)

lemma lex_punct [simp]:
  "lex (CHR ''{'' # t) = LBrace # lex t" "lex (CHR ''}'' # t) = RBrace # lex t"
  "lex (CHR ''['' # t) = LBrack # lex t" "lex (CHR '']'' # t) = RBrack # lex t"
  "lex (CHR '','' # t) = Comma # lex t" "lex (CHR '':'' # t) = Colon # lex t"
  by (simp_all add: json_space_def)

lemma lex_words [simp]:
  "lex (CHR ''t'' # CHR ''r'' # CHR ''u'' # CHR ''e'' # t) = LTrue # lex t"
  "lex (CHR ''f'' # CHR ''a'' # CHR ''l'' # CHR ''s'' # CHR ''e'' # t) = LFalse # lex t"
  "lex (CHR ''n'' # CHR ''u'' # CHR ''l'' # CHR ''l'' # t) = LNull # lex t"
  by (simp_all add: json_space_def is_digit_def has_prefix_def)

lemma lex_quoted: "utf8_valid s \<Longrightarrow> lex (quote_json s @ t) = LStr s # lex t"
  using lex_esc_string [of s t] by (simp add: quote_json_def json_space_def del: lex_string.simps)

lemma lex_number_text:
  assumes "number_ok n" "value_stop t"
  shows "lex (n @ t) = LNum n # lex t"
proof -
  obtain c cs where n: "n = c # cs" and c: "c = CHR ''-'' \<or> is_digit c"
    using number_ok_head [OF assms(1)] by blast
  have "lex_number (n @ t) = Some (n, t)"
    using lex_number_append [of n n "[]" t] assms value_stop_num by (simp add: number_ok_def)
  moreover have "\<not> json_space c" "c \<noteq> CHR ''{''" "c \<noteq> CHR ''}''" "c \<noteq> CHR ''[''" "c \<noteq> CHR '']''"
      "c \<noteq> CHR '',''" "c \<noteq> CHR '':''" "c \<noteq> CHR 0x22"
    using c by (auto simp: is_digit_def json_space_def)
  ultimately show ?thesis using n c by simp
qed

lemma join_Cons: "join sep (x # xs) = x @ concat (map (\<lambda>y. sep @ y) xs)"
  by (induction xs arbitrary: x) auto

lemma lex_elems:
  assumes "\<And>v t. v \<in> set vs \<Longrightarrow> value_stop t \<Longrightarrow> lex (render v @ t) = doc_lexemes v @ lex t"
  shows "lex (concat (map (\<lambda>v. '','' @ render v) vs) @ CHR '']'' # t) =
    elem_lexemes True vs @ RBrack # lex t"
  using assms
proof (induction vs)
  case (Cons v vs)
  have "value_stop (concat (map (\<lambda>v. '','' @ render v) vs) @ CHR '']'' # t)"
    by (cases vs) (auto simp: value_stop_def)
  then show ?case using Cons by simp
qed simp

lemma lex_members:
  assumes "\<And>k v t. (k, v) \<in> set ms \<Longrightarrow> value_stop t \<Longrightarrow>
    utf8_valid k \<and> lex (render v @ t) = doc_lexemes v @ lex t"
  shows "lex (concat (map (\<lambda>(k, v). '','' @ quote_json k @ '':'' @ render v) ms) @ CHR ''}'' # t) =
    member_lexemes True ms @ RBrace # lex t"
  using assms
proof (induction ms)
  case (Cons m ms)
  obtain k v where m: "m = (k, v)" by fastforce
  let ?r = "concat (map (\<lambda>(k, v). '','' @ quote_json k @ '':'' @ render v) ms) @ CHR ''}'' # t"
  have "value_stop ?r" by (cases ms) (auto simp: value_stop_def)
  then have "utf8_valid k" "lex (render v @ ?r) = doc_lexemes v @ lex ?r"
    using Cons.prems m by auto
  moreover have "lex ?r = member_lexemes True ms @ RBrace # lex t" using Cons by fastforce
  ultimately show ?case by (simp add: m lex_quoted)
qed simp

text \<open>Printing then reading gives the document back.\<close>

lemma lex_render_append:
  "json_ok v \<Longrightarrow> value_stop t \<Longrightarrow> lex (render v @ t) = doc_lexemes v @ lex t"
proof (induction v arbitrary: t rule: json_ok.induct)
  case (3 vs)
  show ?case
  proof (cases vs)
    case (Cons w ws)
    have s: "value_stop (concat (map (\<lambda>v. '','' @ render v) ws) @ CHR '']'' # t)"
      by (cases ws) (auto simp: value_stop_def)
    have "lex (concat (map (\<lambda>v. '','' @ render v) ws) @ CHR '']'' # t) = elem_lexemes True ws @ RBrack # lex t"
      using 3 Cons by (intro lex_elems) (auto simp: list_all_iff)
    moreover have "lex (render w @ u) = doc_lexemes w @ lex u" if "value_stop u" for u
      using 3 Cons that by (auto simp: list_all_iff)
    ultimately show ?thesis using s Cons by (simp add: join_Cons comp_def)
  qed simp
next
  case (4 ms)
  have ih: "utf8_valid k \<and> lex (render v @ u) = doc_lexemes v @ lex u"
    if "(k, v) \<in> set ms" "value_stop u" for k v u
    using 4 that by (fastforce simp: list_all_iff)
  show ?case
  proof (cases ms)
    case (Cons m ns)
    obtain k v where m: "m = (k, v)" by fastforce
    let ?r = "concat (map (\<lambda>(k, v). '','' @ quote_json k @ '':'' @ render v) ns) @ CHR ''}'' # t"
    have s: "value_stop ?r" by (cases ns) (auto simp: value_stop_def)
    have "lex ?r = member_lexemes True ns @ RBrace # lex t"
      using ih Cons by (intro lex_members) auto
    moreover have "lex (render v @ u) = doc_lexemes v @ lex u" if "value_stop u" for u
      using ih [of k v] Cons m that by simp
    moreover have "utf8_valid k" using ih [of k v "[]"] Cons m by (simp add: value_stop_def)
    ultimately show ?thesis using s Cons m
      by (simp add: join_Cons comp_def case_prod_beta' lex_quoted)
  qed simp
qed (simp_all add: lex_number_text lex_quoted del: lex.simps)

lemma lex_render: "json_ok v \<Longrightarrow> lex (render v) = doc_lexemes v"
  using lex_render_append [of v "[]"] by (simp add: value_stop_def)

subsection \<open>Printing is injective\<close>

lemma doc_lexemes_head: "\<exists>l ls. doc_lexemes v = l # ls \<and> l \<noteq> RBrack \<and> l \<noteq> RBrace \<and> l \<noteq> Comma \<and> l \<noteq> Colon"
  by (cases v) auto

lemma elem_prefix:
  assumes "\<And>v w a b. v \<in> set vs \<Longrightarrow> doc_lexemes v @ a = doc_lexemes w @ b \<Longrightarrow> v = w \<and> a = b"
    and "elem_lexemes sep vs @ RBrack # a = elem_lexemes sep ws @ RBrack # b"
  shows "vs = ws \<and> a = b"
  using assms
proof (induction vs arbitrary: sep ws)
  case Nil
  then show ?case using doc_lexemes_head [of "hd ws"] by (cases ws; cases sep) auto
next
  case (Cons v vs)
  note prem = Cons.prems
  show ?case
  proof (cases ws)
    case Nil
    then show ?thesis using prem(2) doc_lexemes_head [of v] by (cases sep) auto
  next
    case (Cons w ws')
    have "doc_lexemes v @ elem_lexemes True vs @ RBrack # a = doc_lexemes w @ elem_lexemes True ws' @ RBrack # b"
      using prem(2) Cons by (cases sep) simp_all
    then have "v = w" "elem_lexemes True vs @ RBrack # a = elem_lexemes True ws' @ RBrack # b"
      using prem(1) [of v] by (metis list.set_intros(1))+
    then show ?thesis using Cons.IH [of True ws'] prem(1) Cons by auto
  qed
qed

lemma member_prefix:
  assumes "\<And>k v w a b. (k, v) \<in> set ms \<Longrightarrow> doc_lexemes v @ a = doc_lexemes w @ b \<Longrightarrow> v = w \<and> a = b"
    and "member_lexemes sep ms @ RBrace # a = member_lexemes sep ns @ RBrace # b"
  shows "ms = ns \<and> a = b"
  using assms
proof (induction ms arbitrary: sep ns)
  case Nil
  then show ?case by (cases "(sep, ns)" rule: member_lexemes.cases) (auto split: if_splits)
next
  case (Cons m ms)
  note prem = Cons.prems
  obtain k v where m: "m = (k, v)" by fastforce
  show ?case
  proof (cases ns)
    case Nil
    then show ?thesis using prem(2) m by (cases sep) auto
  next
    case (Cons n ns')
    obtain k' w where n: "n = (k', w)" by fastforce
    have k: "k = k'" and "doc_lexemes v @ member_lexemes True ms @ RBrace # a = doc_lexemes w @ member_lexemes True ns' @ RBrace # b"
      using prem(2) Cons m n by (cases sep; simp)+
    then have "v = w" "member_lexemes True ms @ RBrace # a = member_lexemes True ns' @ RBrace # b"
      using prem(1) [of k v] m by (metis list.set_intros(1))+
    moreover from this(2) have "ms = ns' \<and> a = b"
      using prem(1) by (intro Cons.IH [of True]) (meson list.set_intros(2))+
    ultimately show ?thesis using Cons m n k by simp
  qed
qed

lemma doc_lexemes_shape:
  "doc_lexemes w @ b = LNull # x \<Longrightarrow> w = JNull \<and> b = x"
  "doc_lexemes w @ b = LTrue # x \<Longrightarrow> w = JBool True \<and> b = x"
  "doc_lexemes w @ b = LFalse # x \<Longrightarrow> w = JBool False \<and> b = x"
  "doc_lexemes w @ b = LNum n # x \<Longrightarrow> w = JNum n \<and> b = x"
  "doc_lexemes w @ b = LStr s # x \<Longrightarrow> w = JStr s \<and> b = x"
  "doc_lexemes w @ b = LBrack # x \<Longrightarrow> \<exists>ws. w = JArr ws \<and> elem_lexemes False ws @ RBrack # b = x"
  "doc_lexemes w @ b = LBrace # x \<Longrightarrow> \<exists>ms. w = JObj ms \<and> member_lexemes False ms @ RBrace # b = x"
  by (cases w; simp split: if_splits)+

lemma doc_lexemes_bool: "doc_lexemes (JBool x) @ a = doc_lexemes w @ b \<Longrightarrow> JBool x = w \<and> a = b"
proof -
  assume "doc_lexemes (JBool x) @ a = doc_lexemes w @ b"
  then have "doc_lexemes w @ b = (if x then LTrue else LFalse) # a" by simp
  then show ?thesis using doc_lexemes_shape(2,3) [of w b a] by (metis (full_types))
qed

text \<open>The lexemes of a document determine it, even when more text follows.\<close>

lemma doc_lexemes_prefix: "doc_lexemes v @ a = doc_lexemes w @ b \<Longrightarrow> v = w \<and> a = b"
proof (induction v arbitrary: w a b rule: json_ok.induct)
  case (3 vs)
  have "doc_lexemes w @ b = LBrack # (elem_lexemes False vs @ RBrack # a)" using "3.prems" by simp
  then obtain ws where w: "w = JArr ws" and e: "elem_lexemes False ws @ RBrack # b = elem_lexemes False vs @ RBrack # a"
    by (blast dest: doc_lexemes_shape(6))
  have "vs = ws \<and> a = b" by (rule elem_prefix [OF "3.IH" e [symmetric]])
  then show ?case using w by simp
next
  case (4 ms)
  have "doc_lexemes w @ b = LBrace # (member_lexemes False ms @ RBrace # a)" using "4.prems" by simp
  then obtain ns where w: "w = JObj ns" and e: "member_lexemes False ns @ RBrace # b = member_lexemes False ms @ RBrace # a"
    by (blast dest: doc_lexemes_shape(7))
  have "ms = ns \<and> a = b"
    by (rule member_prefix [OF _ e [symmetric]]) (use "4.IH" in blast)
  then show ?case using w by simp
next
  case (1 n)
  then show ?case using doc_lexemes_shape(4) [of w b n a] by simp
next
  case (2 s)
  then show ?case using doc_lexemes_shape(5) [of w b s a] by simp
next
  case "5_1"
  then show ?case using doc_lexemes_shape(1) [of w b a] by simp
next
  case "5_2"
  then show ?case by (rule doc_lexemes_bool)
qed

lemma render_inj:
  assumes "json_ok v" "json_ok w" "render v = render w"
  shows "v = w"
  using doc_lexemes_prefix [of v "[]" w "[]"] lex_render assms by (metis append_Nil2)

subsection \<open>What is read can be printed\<close>

lemma good_chunk_replacement: "good_chunk (65533, replacement)"
  by (simp add: good_chunk_def replacement_def decode_rune_def Let_def cont_byte_def)

lemma good_chunk_escape:
  assumes "u < 65536"
  shows "\<exists>r. good_chunk (r, fst (escape_rune u t))"
proof (cases "is_surrogate u")
  case False
  then show ?thesis using good_chunk_encode [of u] assms by (auto simp: escape_rune_def)
next
  case True
  then have u: "55296 \<le> u" "u \<le> 57343" by (simp_all add: is_surrogate_def)
  have "good_chunk (r, encode_rune r)" if "u < 56320" "56320 \<le> v" "v \<le> 57343"
      "r = (u - 55296) * 1024 + (v - 56320) + 65536" for v r
    using that u by (intro good_chunk_encode) (auto simp: is_surrogate_def)
  then show ?thesis using True good_chunk_replacement
    by (auto simp: escape_rune_def split: list.splits option.splits)
qed

lemma hex_value_less: "hex_value c = Some v \<Longrightarrow> v < 16"
  by (auto simp: hex_value_def is_digit_def split: if_splits)

lemma hex4_less: "hex4 s = Some (v, r) \<Longrightarrow> v < 65536"
  by (cases s rule: hex4.cases) (auto split: option.splits dest!: hex_value_less)

lemma simple_escape_ascii: "simple_escape c = Some x \<Longrightarrow> code x < 128"
  by (auto simp: simple_escape_def split: if_splits)

lemma utf8_valid_Cons_ascii: "code c < 128 \<Longrightarrow> utf8_valid (c # s) \<longleftrightarrow> utf8_valid s"
  using utf8_valid_good_append [OF good_chunk_ascii, of c s] by simp

lemma lex_string_valid: "lex_string s = Some (v, r) \<Longrightarrow> utf8_valid v"
proof (induction s arbitrary: v r rule: lex_string.induct)
  case (2 c cs)
  note [simp del] = lex_string.simps
  note eq = "2.prems" [unfolded lex_string.simps]
  show ?case
  proof (cases "c = CHR 0x22 \<or> c \<noteq> CHR 0x5C")
    case True
    show ?thesis
    proof (cases "c = CHR 0x22")
      case False
      obtain rn w where d: "decode_rune (c # cs) = (rn, w)" by fastforce
      let ?b = "if rn = 65533 \<and> w = 1 then replacement else take w (c # cs)"
      obtain s' where l: "lex_string (drop w (c # cs)) = Some (s', r)" and v: "v = ?b @ s'"
        using eq True False d by (auto simp: Let_def split: if_splits option.splits)
      have "\<not> code c < 32" using eq True False by (auto split: if_splits)
      then have "utf8_valid s'" using "2.IH"(3) [OF _ _ _ refl d [symmetric] refl l] True False by blast
      moreover have "\<exists>q. good_chunk (q, ?b)"
        using good_chunk_replacement decode_rune_good [OF _ d] by auto
      ultimately show ?thesis using v utf8_valid_good_append by metis
    qed (use eq in simp)
  next
    case False
    then obtain e t where cs: "cs = e # t" using eq by (cases cs) auto
    show ?thesis
    proof (cases "e = CHR ''u''")
      case True
      then obtain u r2 v' where h: "hex4 t = Some (u, r2)"
          and l: "lex_string (snd (escape_rune u r2)) = Some (v', r)"
          and v: "v = fst (escape_rune u r2) @ v'"
        using False cs eq by (auto split: option.splits)
      have "utf8_valid v'" using "2.IH"(1) [OF _ _ cs True h refl l] False by blast
      then show ?thesis using v good_chunk_escape [OF hex4_less [OF h], of r2] utf8_valid_good_append by metis
    next
      case E: False
      then obtain x v' where x: "simple_escape e = Some x" and l: "lex_string t = Some (v', r)" and v: "v = x # v'"
        using False cs eq by (auto split: option.splits)
      have "utf8_valid v'" using "2.IH"(2) [OF _ _ cs E x l] False by blast
      then show ?thesis using v simple_escape_ascii [OF x] by (simp add: utf8_valid_Cons_ascii)
    qed
  qed
qed simp

text \<open>A number literal that was read is a number literal on its own.\<close>

definition no_digit :: "string \<Rightarrow> bool" where
  "no_digit t \<longleftrightarrow> (case t of [] \<Rightarrow> True | c # _ \<Rightarrow> \<not> is_digit c)"

lemma lex_digits_self: "no_digit t \<Longrightarrow> lex_digits (fst (lex_digits x) @ t) = (fst (lex_digits x), t)"
  by (cases t) (auto simp: lex_digits_def no_digit_def takeWhile_append dropWhile_append
      takeWhile_eq_all_conv [THEN iffD2] dropWhile_eq_Nil_conv [THEN iffD2] dest: set_takeWhileD)

lemma lex_int_self: "lex_int x = Some (i, r) \<Longrightarrow> no_digit t \<Longrightarrow> lex_int (i @ t) = Some (i, t)"
  using lex_digits_self [of t x]
  by (cases x) (auto simp: lex_int_def lex_digits_def split: if_splits)

lemma lex_exp_shape:
  assumes "lex_exp x = Some (e, r)" "e \<noteq> []"
  shows "\<exists>c sg d. e = c # sg @ d \<and> (c = CHR ''e'' \<or> c = CHR ''E'') \<and>
    (sg = [] \<or> sg = ''+'' \<or> sg = ''-'') \<and> d \<noteq> [] \<and> list_all is_digit d"
proof -
  have dg: "list_all is_digit (takeWhile is_digit y)" for y
    by (auto simp: list_all_iff dest: set_takeWhileD)
  obtain c cs where x: "x = c # cs" "c = CHR ''e'' \<or> c = CHR ''E''"
    using assms by (cases x) (auto simp: lex_exp_def split: if_splits)
  obtain sg y where sy: "(case cs of z # zs \<Rightarrow> if z = CHR ''+'' \<or> z = CHR ''-'' then ([z], zs) else ([], cs)
      | [] \<Rightarrow> ([], [])) = (sg, y)" by fastforce
  then have "sg = [] \<or> sg = ''+'' \<or> sg = ''-''" by (auto split: list.splits if_splits)
  moreover have "e = c # sg @ takeWhile is_digit y" "takeWhile is_digit y \<noteq> []"
    using assms(1) x sy by (auto simp: lex_exp_def lex_digits_def Let_def split: if_splits)
  ultimately show ?thesis using x(2) dg by blast
qed

lemma lex_exp_self:
  assumes "lex_exp x = Some (e, r)"
  shows "lex_exp e = Some (e, [])"
proof (cases "e = []")
  case False
  then obtain c sg d where e: "e = c # sg @ d" "c = CHR ''e'' \<or> c = CHR ''E''"
      "sg = [] \<or> sg = ''+'' \<or> sg = ''-''" "d \<noteq> []" "list_all is_digit d"
    using lex_exp_shape [OF assms] by blast
  then obtain d1 ds where d: "d = d1 # ds" "d1 \<noteq> CHR ''+''" "d1 \<noteq> CHR ''-''"
    using digit_not_sign by (cases d) auto
  have "takeWhile is_digit d = d" "dropWhile is_digit d = []"
    using e(5) by (simp_all add: list_all_iff takeWhile_eq_all_conv dropWhile_eq_Nil_conv)
  then show ?thesis using e(1-3) d by (auto simp: lex_exp_def lex_digits_def Let_def)
qed (simp add: lex_exp_def)

lemma lex_exp_head: "lex_exp x = Some (e, r) \<Longrightarrow> e = [] \<or> hd e = CHR ''e'' \<or> hd e = CHR ''E''"
  by (cases x) (auto simp: lex_exp_def Let_def split: if_splits prod.splits)

lemma lex_frac_self:
  assumes "lex_frac x = Some (f, r)" "t = [] \<or> hd t = CHR ''e'' \<or> hd t = CHR ''E''"
  shows "lex_frac (f @ t) = Some (f, t)"
proof -
  have "no_digit t" using assms(2) by (cases t) (auto simp: no_digit_def is_digit_def)
  moreover have "t = [] \<or> hd t \<noteq> CHR ''.''" using assms(2) by auto
  ultimately show ?thesis using assms(1) lex_digits_self [of t "tl x"]
    by (cases x; cases t) (auto simp: lex_frac_def Let_def split: if_splits prod.splits)
qed

lemma lex_frac_head: "lex_frac x = Some (f, r) \<Longrightarrow> f = [] \<or> hd f = CHR ''.''"
  by (cases x) (auto simp: lex_frac_def Let_def split: if_splits prod.splits)

lemma lex_int_nonempty: "lex_int x = Some (i, r) \<Longrightarrow> i \<noteq> [] \<and> hd i \<noteq> CHR ''-''"
  by (cases x) (auto simp: lex_int_def lex_digits_def is_digit_def split: if_splits)

lemma lex_number_ok:
  assumes "lex_number x = Some (v, r)"
  shows "number_ok v"
proof -
  obtain m r0 i r1 f r2 e where x: "x = m @ r0" and m: "m = (if \<exists>cs. x = CHR ''-'' # cs then ''-'' else [])"
    and p: "lex_int r0 = Some (i, r1)" "lex_frac r1 = Some (f, r2)" "lex_exp r2 = Some (e, r)"
    and v: "v = m @ i @ f @ e"
    using assms unfolding lex_number_parts by blast
  have f: "lex_frac (f @ e) = Some (f, e)" by (rule lex_frac_self [OF p(2) lex_exp_head [OF p(3)]])
  have "no_digit (f @ e)"
    using lex_frac_head [OF p(2)] lex_exp_head [OF p(3)]
    by (cases f; cases e) (auto simp: no_digit_def is_digit_def)
  then have i: "lex_int (i @ f @ e) = Some (i, f @ e)" by (rule lex_int_self [OF p(1)])
  have "m = (if \<exists>cs. v = CHR ''-'' # cs then ''-'' else [])"
    using lex_int_nonempty [OF p(1)] m v by (cases i) (auto split: if_splits)
  then show ?thesis unfolding number_ok_def lex_number_parts
    using i f lex_exp_self [OF p(3)] v by blast
qed

fun lexeme_ok :: "lexeme \<Rightarrow> bool" where
  "lexeme_ok (LStr s) = utf8_valid s"
| "lexeme_ok (LNum n) = number_ok n"
| "lexeme_ok l = True"

lemma lex_ok: "list_all lexeme_ok (lex s)"
proof (induction s rule: length_induct)
  case (1 s)
  show ?case
  proof (cases s)
    case (Cons c cs)
    have ih: "list_all lexeme_ok (lex t)" if "length t \<le> length cs" for t
      using 1 Cons that by simp
    have "utf8_valid v \<and> list_all lexeme_ok (lex r)" if "lex_string cs = Some (v, r)" for v r
      using ih lex_string_valid [OF that] lex_string_length [OF that] by simp
    moreover have "number_ok v \<and> list_all lexeme_ok (lex r)" if "lex_number (c # cs) = Some (v, r)" for v r
      using ih lex_number_ok [OF that] lex_number_length [OF that] by simp
    ultimately show ?thesis unfolding Cons by (simp add: ih split: option.splits prod.splits)
  qed simp
qed

lemma doc_lexemes_ok: "list_all lexeme_ok (doc_lexemes v) \<Longrightarrow> json_ok v"
proof (induction v rule: json_ok.induct)
  case (3 vs)
  have "list_all lexeme_ok (elem_lexemes sep vs) \<Longrightarrow> v \<in> set vs \<Longrightarrow> list_all lexeme_ok (doc_lexemes v)" for sep v
    by (induction vs arbitrary: sep) auto
  then show ?case using 3 by (auto simp: list_all_iff)
next
  case (4 ms)
  have "list_all lexeme_ok (member_lexemes sep ms) \<Longrightarrow> (k, v) \<in> set ms \<Longrightarrow>
      utf8_valid k \<and> list_all lexeme_ok (doc_lexemes v)" for sep k v
    by (induction ms arbitrary: sep) auto
  then show ?case using 4 by (fastforce simp: list_all_iff)
qed simp_all

end
