(* ===== verification/Canon.thy ===== *)
theory Canon
  imports JsonRoundtrip
begin

text \<open>
  Component \<^verbatim>\<open>plane/internal/gateway/canon.go\<close>: one canonical tree per inbound JSON-RPC
  message. The decoder walk refuses a duplicated key at any depth, more than
  \<open>maxCanonDepth\<close> levels and more than \<open>maxCanonNodes\<close> nodes. The recursion of the source is
  bounded here by a fuel of two units per lexeme; \<open>decode_fuel\<close> shows it never runs out.
\<close>

definition maxCanonDepth :: nat where
  "maxCanonDepth = 32"

definition maxCanonNodes :: nat where
  "maxCanonNodes = 20000"

datatype canon_error =
    ErrDuplicateKey string
  | ErrTooDeep
  | ErrTooLarge
  | ErrNotAnObject
  | ErrTrailing
  | ErrKeyNotString
  | ErrDelimiter
  | ErrToken json_error
  | OutOfFuel

text \<open>An integer literal that fits \<open>int64\<close> is rewritten in one form; other scalars stay.\<close>

fun canonScalar :: "json \<Rightarrow> json" where
  "canonScalar (JNum n) = (case parse_int n of Some i \<Rightarrow> JNum (format_int i) | None \<Rightarrow> JNum n)"
| "canonScalar v = v"

fun decodeCanonical :: "nat \<Rightarrow> decoder \<Rightarrow> nat \<Rightarrow> nat \<Rightarrow> canon_error + (json \<times> decoder \<times> nat)"
and decodeMembers :: "nat \<Rightarrow> decoder \<Rightarrow> nat \<Rightarrow> nat \<Rightarrow> json gomap \<Rightarrow> canon_error + (json \<times> decoder \<times> nat)"
and decodeElems :: "nat \<Rightarrow> decoder \<Rightarrow> nat \<Rightarrow> nat \<Rightarrow> json list \<Rightarrow> canon_error + (json \<times> decoder \<times> nat)"
where
  "decodeCanonical 0 d depth nodes = Inl OutOfFuel"
| "decodeCanonical (Suc f) d depth nodes =
     (if depth > maxCanonDepth then Inl ErrTooDeep
      else if nodes + 1 > maxCanonNodes then Inl ErrTooLarge
      else case dec_token d of
             (Inl e, d1) \<Rightarrow> Inl (ErrToken e)
           | (Inr (TScalar v), d1) \<Rightarrow> Inr (canonScalar v, d1, nodes + 1)
           | (Inr (TDelim l), d1) \<Rightarrow>
               (if l = LBrace then decodeMembers f d1 depth (nodes + 1) []
                else if l = LBrack then decodeElems f d1 depth (nodes + 1) []
                else Inl ErrDelimiter))"
| "decodeMembers 0 d depth nodes obj = Inl OutOfFuel"
| "decodeMembers (Suc f) d depth nodes obj =
     (if dec_more d then
        (case dec_token d of
           (Inl e, d1) \<Rightarrow> Inl (ErrToken e)
         | (Inr (TScalar (JStr key)), d1) \<Rightarrow>
             (if map_has obj key then Inl (ErrDuplicateKey key)
              else case decodeCanonical f d1 (depth + 1) nodes of
                     Inl e \<Rightarrow> Inl e
                   | Inr (v, d2, n2) \<Rightarrow> decodeMembers f d2 depth n2 (map_set key v obj))
         | (Inr t, d1) \<Rightarrow> Inl ErrKeyNotString)
      else
        (case dec_token d of
           (Inl e, d1) \<Rightarrow> Inl (ErrToken e)
         | (Inr t, d1) \<Rightarrow> Inr (JObj obj, d1, nodes)))"
| "decodeElems 0 d depth nodes arr = Inl OutOfFuel"
| "decodeElems (Suc f) d depth nodes arr =
     (if dec_more d then
        (case decodeCanonical f d (depth + 1) nodes of
           Inl e \<Rightarrow> Inl e
         | Inr (v, d2, n2) \<Rightarrow> decodeElems f d2 depth n2 (arr @ [v]))
      else
        (case dec_token d of
           (Inl e, d1) \<Rightarrow> Inl (ErrToken e)
         | (Inr t, d1) \<Rightarrow> Inr (JArr arr, d1, nodes)))"

definition marshalCanonical :: "json \<Rightarrow> string" where
  "marshalCanonical v = render v"

definition canonicalize :: "string \<Rightarrow> canon_error + (string \<times> json gomap)" where
  "canonicalize body =
     (let d = new_decoder body in
      case decodeCanonical (2 * length (lexemes d) + 1) d 1 0 of
        Inl e \<Rightarrow> Inl e
      | Inr (v, d1, _) \<Rightarrow>
          (case dec_token d1 of
             (Inl EOF, _) \<Rightarrow>
               (case v of
                  JObj msg \<Rightarrow> Inr (marshalCanonical (JObj msg), msg)
                | _ \<Rightarrow> Inl ErrNotAnObject)
           | _ \<Rightarrow> Inl ErrTrailing))"

text \<open>The tools/call argument object; \<open>None\<close> is the refusal.\<close>

definition argumentsOf :: "json gomap \<Rightarrow> json gomap option" where
  "argumentsOf msg =
     (case map_get msg ''params'' of
        Some (JObj params) \<Rightarrow>
          (case map_get params ''arguments'' of
             None \<Rightarrow> Some []
           | Some JNull \<Rightarrow> Some []
           | Some (JObj args) \<Rightarrow> Some args
           | Some _ \<Rightarrow> None)
      | _ \<Rightarrow> None)"

definition toolNameOf :: "json gomap \<Rightarrow> string" where
  "toolNameOf msg =
     (case map_get msg ''params'' of
        Some (JObj params) \<Rightarrow>
          (case map_get params ''name'' of Some (JStr name) \<Rightarrow> name | _ \<Rightarrow> [])
      | _ \<Rightarrow> [])"

subsection \<open>What a document is\<close>

text \<open>
  A raw document is a tree whose objects list their members in the order they were written:
  whether two members of one object share a key, how deep it nests, how many
  nodes it has, and the canonical tree it denotes.
\<close>

fun no_dup_keys :: "json \<Rightarrow> bool" where
  "no_dup_keys (JArr vs) = list_all no_dup_keys vs"
| "no_dup_keys (JObj ms) = (distinct (map fst ms) \<and> list_all (\<lambda>(k, v). no_dup_keys v) ms)"
| "no_dup_keys v = True"

fun doc_depth :: "json \<Rightarrow> nat" where
  "doc_depth (JArr vs) = Suc (fold max (map doc_depth vs) 0)"
| "doc_depth (JObj ms) = Suc (fold max (map (\<lambda>(k, v). doc_depth v) ms) 0)"
| "doc_depth v = 1"

fun doc_nodes :: "json \<Rightarrow> nat" where
  "doc_nodes (JArr vs) = Suc (sum_list (map doc_nodes vs))"
| "doc_nodes (JObj ms) = Suc (sum_list (map (\<lambda>(k, v). doc_nodes v) ms))"
| "doc_nodes v = 1"

fun canon :: "json \<Rightarrow> json" where
  "canon (JArr vs) = JArr (map canon vs)"
| "canon (JObj ms) = JObj (fold (\<lambda>(k, v) m. map_set k v m) (map (\<lambda>(k, v). (k, canon v)) ms) [])"
| "canon v = canonScalar v"

subsection \<open>Fuel\<close>

lemma canonical_step:
  assumes "decodeCanonical (Suc f) d depth nodes = r" "\<not> depth > maxCanonDepth" "\<not> Suc nodes > maxCanonNodes"
  obtains e d1 where "dec_token d = (Inl e, d1)" "r = Inl (ErrToken e)"
  | v d1 where "dec_token d = (Inr (TScalar v), d1)" "r = Inr (canonScalar v, d1, Suc nodes)"
  | d1 where "dec_token d = (Inr (TDelim LBrace), d1)" "r = decodeMembers f d1 depth (Suc nodes) []"
  | d1 where "dec_token d = (Inr (TDelim LBrack), d1)" "r = decodeElems f d1 depth (Suc nodes) []"
  | "r = Inl ErrDelimiter"
proof -
  obtain t d1 where t: "dec_token d = (t, d1)" by fastforce
  show thesis
    using assms t that
    by (cases t; cases "projr t") (auto split: if_splits)
qed

lemma canonical_bounds:
  assumes "decodeCanonical (Suc f) d depth nodes = Inr y"
  shows "\<not> depth > maxCanonDepth" "\<not> Suc nodes > maxCanonNodes"
  using assms by (auto split: if_splits)

lemma members_step:
  assumes "decodeMembers (Suc f) d depth nodes obj = r"
  obtains e d1 where "dec_token d = (Inl e, d1)" "r = Inl (ErrToken e)"
  | k where "r = Inl (ErrDuplicateKey k)"
  | k d1 e where "dec_more d" "dec_token d = (Inr (TScalar (JStr k)), d1)"
      "decodeCanonical f d1 (Suc depth) nodes = Inl e" "r = Inl e"
  | k d1 v d2 n2 where "dec_more d" "dec_token d = (Inr (TScalar (JStr k)), d1)" "\<not> map_has obj k"
      "decodeCanonical f d1 (Suc depth) nodes = Inr (v, d2, n2)"
      "r = decodeMembers f d2 depth n2 (map_set k v obj)"
  | "r = Inl ErrKeyNotString"
  | t d1 where "\<not> dec_more d" "dec_token d = (Inr t, d1)" "r = Inr (JObj obj, d1, nodes)"
proof -
  obtain t d1 where t: "dec_token d = (t, d1)" by fastforce
  show thesis
  proof (cases "dec_more d")
    case False
    then show thesis using assms t that by (cases t) auto
  next
    case True
    show thesis
    proof (cases "\<exists>k. t = Inr (TScalar (JStr k))")
      case T: True
      then obtain k where k: "t = Inr (TScalar (JStr k))" by blast
      then show thesis using assms t True that(2-4)
        by (cases "map_has obj k"; cases "decodeCanonical f d1 (Suc depth) nodes") auto
    next
      case F: False
      then have "(\<exists>e. t = Inl e \<and> r = Inl (ErrToken e)) \<or> r = Inl ErrKeyNotString"
        using assms t True by (auto split: sum.splits tok.splits json.splits)
      then show thesis using that(1,5) t by blast
    qed
  qed
qed

lemma elems_step:
  assumes "decodeElems (Suc f) d depth nodes arr = r"
  obtains e d1 where "dec_token d = (Inl e, d1)" "r = Inl (ErrToken e)"
  | e where "dec_more d" "decodeCanonical f d (Suc depth) nodes = Inl e" "r = Inl e"
  | v d2 n2 where "dec_more d" "decodeCanonical f d (Suc depth) nodes = Inr (v, d2, n2)"
      "r = decodeElems f d2 depth n2 (arr @ [v])"
  | t d1 where "\<not> dec_more d" "dec_token d = (Inr t, d1)" "r = Inr (JArr arr, d1, nodes)"
proof -
  obtain t d1 where t: "dec_token d = (t, d1)" by fastforce
  show thesis
    using assms t that
    by (cases "dec_more d"; cases t; cases "decodeCanonical f d (Suc depth) nodes") auto
qed

lemma decode_shorter:
  "decodeCanonical f d depth nodes = Inr (x, d', n) \<Longrightarrow> length (lexemes d') < length (lexemes d)"
  "decodeMembers f d depth nodes obj = Inr (x, d', n) \<Longrightarrow> length (lexemes d') < length (lexemes d)"
  "decodeElems f d depth nodes arr = Inr (x, d', n) \<Longrightarrow> length (lexemes d') < length (lexemes d)"
proof (induction f arbitrary: d depth nodes obj arr x d' n)
  case (Suc f)
  note [simp del] = decodeCanonical.simps decodeMembers.simps decodeElems.simps
  {
    case 1
    from canonical_step [OF 1 canonical_bounds [OF 1]] show ?case
    proof cases
      case (2 v d1)
      then show ?thesis using dec_token_shorter [OF 2(1)] by simp
    next
      case (3 d1)
      then show ?thesis
        using dec_token_shorter [OF 3(1)] Suc.IH(2) [of d1 depth "Suc nodes" "[]" x d' n] by simp
    next
      case (4 d1)
      then show ?thesis
        using dec_token_shorter [OF 4(1)] Suc.IH(3) [of d1 depth "Suc nodes" "[]" x d' n] by simp
    qed simp_all
  next
    case 2
    from members_step [OF 2] show ?case
    proof cases
      case (4 k d1 v d2 n2)
      then show ?thesis using dec_token_shorter [OF 4(2)] Suc.IH(1) [OF 4(4)]
          Suc.IH(2) [of d2 depth n2 "map_set k v obj" x d' n] by simp
    next
      case (6 t d1)
      then show ?thesis using dec_token_shorter [OF 6(2)] by simp
    qed simp_all
  next
    case 3
    from elems_step [OF 3] show ?case
    proof cases
      case (3 v d2 n2)
      then show ?thesis using Suc.IH(1) [OF 3(2)] Suc.IH(3) [of d2 depth n2 "arr @ [v]" x d' n] by simp
    next
      case (4 t d1)
      then show ?thesis using dec_token_shorter [OF 4(2)] by simp
    qed simp_all
  }
qed simp_all


lemma decode_fuel:
  "2 * length (lexemes d) + 1 \<le> f \<Longrightarrow> decodeCanonical f d depth nodes \<noteq> Inl OutOfFuel"
  "2 * length (lexemes d) + 2 \<le> f \<Longrightarrow> decodeMembers f d depth nodes obj \<noteq> Inl OutOfFuel"
  "2 * length (lexemes d) + 2 \<le> f \<Longrightarrow> decodeElems f d depth nodes arr \<noteq> Inl OutOfFuel"
proof (induction f arbitrary: d depth nodes obj arr)
  case (Suc f)
  note [simp del] = decodeCanonical.simps decodeMembers.simps decodeElems.simps
  {
    case 1
    show ?case
    proof (cases "depth > maxCanonDepth \<or> Suc nodes > maxCanonNodes")
      case True
      then show ?thesis by (auto simp: decodeCanonical.simps)
    next
      case False
      then have b: "\<not> depth > maxCanonDepth" "\<not> Suc nodes > maxCanonNodes" by auto
      from canonical_step [OF refl b, where f = f and d = d] show ?thesis
        
      proof cases
        case (3 d1)
        then show ?thesis
          using Suc.IH(2) [of d1 depth "Suc nodes" "[]"] dec_token_shorter [OF 3(1)] 1 by simp
      next
        case (4 d1)
        then show ?thesis
          using Suc.IH(3) [of d1 depth "Suc nodes" "[]"] dec_token_shorter [OF 4(1)] 1 by simp
      qed simp_all
    qed
  next
    case 2
    from members_step [OF refl, where f = f and d = d and depth = depth and nodes = nodes and obj = obj] show ?case
    proof cases
      case (3 k d1 e)
      then show ?thesis using Suc.IH(1) [of d1 "Suc depth" nodes] dec_token_shorter [OF 3(2)] 2 by auto
    next
      case (4 k d1 v d2 n2)
      then show ?thesis
        using Suc.IH(2) [of d2 depth n2 "map_set k v obj"] dec_token_shorter [OF 4(2)] decode_shorter(1) [OF 4(4)] 2
        by auto
    qed simp_all
  next
    case 3
    from elems_step [OF refl, where f = f and d = d and depth = depth and nodes = nodes and arr = arr] show ?case
    proof cases
      case (2 e)
      then show ?thesis using Suc.IH(1) [of d "Suc depth" nodes] 3 by auto
    next
      case (3 v d2 n2)
      then show ?thesis
        using Suc.IH(3) [of d2 depth n2 "arr @ [v]"] decode_shorter(1) [OF 3(2)] "3.prems" by auto
    qed simp_all
  }
qed simp_all

subsection \<open>Every admissible document is accepted\<close>

lemma token_doc_scalar:
  assumes "value_allowed st" "scalar_of l = Some v"
  shows "token_from (l # ls) st stk = (Inr (TScalar v), \<lparr>lexemes = ls, tokenState = value_end st, tokenStack = stk\<rparr>)"
  using assms by (cases l) (auto simp: value_allowed_def Let_def)

lemma token_open:
  assumes "value_allowed st"
  shows "token_from (LBrack # ls) st stk = (Inr (TDelim LBrack), \<lparr>lexemes = ls, tokenState = ArrayStart, tokenStack = st # stk\<rparr>)"
    and "token_from (LBrace # ls) st stk = (Inr (TDelim LBrace), \<lparr>lexemes = ls, tokenState = ObjectStart, tokenStack = st # stk\<rparr>)"
  using assms by (simp_all add: Let_def)

lemma fold_max_le: "fold max xs (m :: nat) \<le> b \<longleftrightarrow> m \<le> b \<and> (\<forall>x \<in> set xs. x \<le> b)"
  by (induction xs arbitrary: m) auto

lemma doc_depth_elem: "depth + doc_depth (JArr vs) \<le> Suc n \<Longrightarrow> v \<in> set vs \<Longrightarrow> depth + doc_depth v \<le> n"
  using fold_max_le [of "map doc_depth vs" 0 "fold max (map doc_depth vs) 0"] by force

lemma doc_depth_member:
  "depth + doc_depth (JObj ms) \<le> Suc n \<Longrightarrow> (k, v) \<in> set ms \<Longrightarrow> depth + doc_depth v \<le> n"
  using fold_max_le [of "map (\<lambda>(k, v). doc_depth v) ms" 0 "fold max (map (\<lambda>(k, v). doc_depth v) ms) 0"]
  by force

text \<open>What \<open>decodeCanonical\<close> does with a document in front of the decoder.\<close>

definition reads_doc :: "json \<Rightarrow> bool" where
  "reads_doc v \<longleftrightarrow> (\<forall>f d st stk ls depth nodes.
     dec_token d = token_from (doc_lexemes v @ ls) st stk \<longrightarrow> value_allowed st \<longrightarrow>
     depth + doc_depth v \<le> Suc maxCanonDepth \<longrightarrow> nodes + doc_nodes v \<le> maxCanonNodes \<longrightarrow>
     length (doc_lexemes v) \<le> f \<longrightarrow>
     decodeCanonical f d depth nodes =
       Inr (canon v, \<lparr>lexemes = ls, tokenState = value_end st, tokenStack = stk\<rparr>, nodes + doc_nodes v))"

lemma reads_docD:
  "reads_doc v \<Longrightarrow> dec_token d = token_from (doc_lexemes v @ ls) st stk \<Longrightarrow> value_allowed st \<Longrightarrow>
   depth + doc_depth v \<le> Suc maxCanonDepth \<Longrightarrow> nodes + doc_nodes v \<le> maxCanonNodes \<Longrightarrow>
   length (doc_lexemes v) \<le> f \<Longrightarrow>
   decodeCanonical f d depth nodes =
     Inr (canon v, \<lparr>lexemes = ls, tokenState = value_end st, tokenStack = stk\<rparr>, nodes + doc_nodes v)"
  unfolding reads_doc_def by blast

lemma reads_scalar:
  assumes "doc_lexemes v = [l]" "scalar_of l = Some v" "doc_depth v = 1" "doc_nodes v = 1" "canon v = canonScalar v"
  shows "reads_doc v"
  unfolding reads_doc_def
proof (intro allI impI)
  fix f d st stk ls depth nodes
  assume a: "dec_token d = token_from (doc_lexemes v @ ls) st stk" "value_allowed st"
    "depth + doc_depth v \<le> Suc maxCanonDepth" "nodes + doc_nodes v \<le> maxCanonNodes" "length (doc_lexemes v) \<le> f"
  obtain g where f: "f = Suc g" using a(5) assms(1) by (cases f) auto
  show "decodeCanonical f d depth nodes =
       Inr (canon v, \<lparr>lexemes = ls, tokenState = value_end st, tokenStack = stk\<rparr>, nodes + doc_nodes v)"
    using a assms token_doc_scalar [OF a(2) assms(2), of ls stk] f by simp
qed

lemma reads_elems:
  assumes "\<And>v. v \<in> set vs \<Longrightarrow> reads_doc v"
    and "\<And>v. v \<in> set vs \<Longrightarrow> depth + doc_depth v \<le> maxCanonDepth"
    and "nodes + sum_list (map doc_nodes vs) \<le> maxCanonNodes"
    and "length (elem_lexemes sep vs) < f"
  shows "decodeElems f \<lparr>lexemes = elem_lexemes sep vs @ RBrack # ls,
       tokenState = (if sep then ArrayComma else ArrayStart), tokenStack = st # stk\<rparr> depth nodes arr =
     Inr (JArr (arr @ map canon vs), \<lparr>lexemes = ls, tokenState = value_end st, tokenStack = stk\<rparr>,
       nodes + sum_list (map doc_nodes vs))"
  using assms
proof (induction vs arbitrary: sep nodes f arr)
  case Nil
  then obtain g where f: "f = Suc g" by (cases f) auto
  show ?case unfolding f by (simp add: dec_more_def dec_token_def Let_def)
next
  case (Cons v vs)
  obtain g where f: "f = Suc g" using Cons.prems(4) by (cases f) auto
  let ?r = "elem_lexemes True vs @ RBrack # ls"
  let ?d = "\<lparr>lexemes = elem_lexemes sep (v # vs) @ RBrack # ls,
       tokenState = (if sep then ArrayComma else ArrayStart), tokenStack = st # stk\<rparr>"
  let ?st = "if sep then ArrayValue else ArrayStart"
  have more: "dec_more ?d" using doc_lexemes_head [of v] by (auto simp: dec_more_def)
  have "dec_token ?d = token_from (doc_lexemes v @ ?r) ?st (st # stk)"
    by (simp add: dec_token_def Let_def)
  moreover have "value_allowed ?st" by (simp add: value_allowed_def)
  moreover have "length (doc_lexemes v) \<le> g" using Cons.prems(4) f by (cases sep) simp_all
  ultimately have v: "decodeCanonical g ?d (depth + 1) nodes =
      Inr (canon v, \<lparr>lexemes = ?r, tokenState = ArrayComma, tokenStack = st # stk\<rparr>, nodes + doc_nodes v)"
    using reads_docD [OF Cons.prems(1) [of v]] Cons.prems(2) [of v] Cons.prems(3) by (cases sep) simp_all
  have "length (elem_lexemes True vs) < g"
    using Cons.prems(4) f doc_lexemes_head [of v] by (cases sep) auto
  then have "decodeElems g \<lparr>lexemes = ?r, tokenState = ArrayComma, tokenStack = st # stk\<rparr> depth
      (nodes + doc_nodes v) (arr @ [canon v]) =
     Inr (JArr ((arr @ [canon v]) @ map canon vs), \<lparr>lexemes = ls, tokenState = value_end st, tokenStack = stk\<rparr>,
       nodes + doc_nodes v + sum_list (map doc_nodes vs))"
    using Cons.IH [where sep = True and nodes = "nodes + doc_nodes v" and f = g and arr = "arr @ [canon v]"] Cons.prems by simp
  then show ?case unfolding f using more v by simp
qed

lemma reads_members:
  assumes "\<And>k v. (k, v) \<in> set ms \<Longrightarrow> reads_doc v \<and> depth + doc_depth v \<le> maxCanonDepth"
    and "distinct (map fst ms)" "\<And>k v. (k, v) \<in> set ms \<Longrightarrow> \<not> map_has obj k"
    and "nodes + sum_list (map (\<lambda>(k, v). doc_nodes v) ms) \<le> maxCanonNodes"
    and "length (member_lexemes sep ms) < f"
  shows "decodeMembers f \<lparr>lexemes = member_lexemes sep ms @ RBrace # ls,
       tokenState = (if sep then ObjectComma else ObjectStart), tokenStack = st # stk\<rparr> depth nodes obj =
     Inr (JObj (fold (\<lambda>(k, v) m. map_set k v m) (map (\<lambda>(k, v). (k, canon v)) ms) obj),
       \<lparr>lexemes = ls, tokenState = value_end st, tokenStack = stk\<rparr>,
       nodes + sum_list (map (\<lambda>(k, v). doc_nodes v) ms))"
  using assms
proof (induction ms arbitrary: sep nodes f obj)
  case Nil
  then obtain g where f: "f = Suc g" by (cases f) auto
  show ?case unfolding f by (simp add: dec_more_def dec_token_def Let_def)
next
  case (Cons m ms)
  obtain k v where m: "m = (k, v)" by fastforce
  obtain g where f: "f = Suc g" using Cons.prems(5) by (cases f) auto
  let ?r = "member_lexemes True ms @ RBrace # ls"
  let ?d = "\<lparr>lexemes = member_lexemes sep (m # ms) @ RBrace # ls,
       tokenState = (if sep then ObjectComma else ObjectStart), tokenStack = st # stk\<rparr>"
  let ?d1 = "\<lparr>lexemes = Colon # doc_lexemes v @ ?r, tokenState = ObjectColon, tokenStack = st # stk\<rparr>"
  have more: "dec_more ?d" by (auto simp: dec_more_def m)
  have key: "dec_token ?d = (Inr (TScalar (JStr k)), ?d1)"
    by (simp add: dec_token_def m Let_def)
  have new: "\<not> map_has obj k" using Cons.prems(3) [of k v] m by simp
  have "dec_token ?d1 = token_from (doc_lexemes v @ ?r) ObjectValue (st # stk)"
    by (simp add: dec_token_def Let_def)
  moreover have "length (doc_lexemes v) \<le> g" using Cons.prems(5) f m by (cases sep) simp_all
  ultimately have v: "decodeCanonical g ?d1 (depth + 1) nodes =
      Inr (canon v, \<lparr>lexemes = ?r, tokenState = ObjectComma, tokenStack = st # stk\<rparr>, nodes + doc_nodes v)"
    using reads_docD [of v ?d1 ?r ObjectValue "st # stk" "depth + 1" nodes g] Cons.prems(1) [of k v]
      Cons.prems(4) m by (simp add: value_allowed_def)
  have fresh: "\<not> map_has (map_set k (canon v) obj) k'" if "(k', w) \<in> set ms" for k' w
    using Cons.prems(2) Cons.prems(3) [of k' w] that m unfolding map_has_def keys_map_set by force
  have tail: "\<And>k v. (k, v) \<in> set ms \<Longrightarrow> reads_doc v \<and> depth + doc_depth v \<le> maxCanonDepth"
    using Cons.prems(1) m by (meson list.set_intros(2))
  have "length (member_lexemes True ms) < g" using Cons.prems(5) f m by (cases sep) auto
  then have "decodeMembers g \<lparr>lexemes = ?r, tokenState = ObjectComma, tokenStack = st # stk\<rparr> depth
      (nodes + doc_nodes v) (map_set k (canon v) obj) =
     Inr (JObj (fold (\<lambda>(k, v) m. map_set k v m) (map (\<lambda>(k, v). (k, canon v)) ms) (map_set k (canon v) obj)),
       \<lparr>lexemes = ls, tokenState = value_end st, tokenStack = stk\<rparr>,
       nodes + doc_nodes v + sum_list (map (\<lambda>(k, v). doc_nodes v) ms))"
    using Cons.IH [where sep = True and nodes = "nodes + doc_nodes v" and f = g and obj = "map_set k (canon v) obj", OF tail]
      Cons.prems(2,4) fresh m
    by (simp add: add.assoc)
  then show ?case unfolding f using more key new v by (simp add: m)
qed

lemma reads_every_doc: "no_dup_keys v \<Longrightarrow> reads_doc v"
proof (induction v rule: no_dup_keys.induct)
  case (1 vs)
  show ?case
    unfolding reads_doc_def
  proof (intro allI impI)
    fix f d st stk ls depth nodes
    assume a: "dec_token d = token_from (doc_lexemes (JArr vs) @ ls) st stk" "value_allowed st"
      "depth + doc_depth (JArr vs) \<le> Suc maxCanonDepth" "nodes + doc_nodes (JArr vs) \<le> maxCanonNodes"
      "length (doc_lexemes (JArr vs)) \<le> f"
    obtain g where f: "f = Suc g" using a(5) by (cases f) auto
    have "decodeElems g \<lparr>lexemes = elem_lexemes False vs @ RBrack # ls, tokenState = ArrayStart, tokenStack = st # stk\<rparr>
        depth (nodes + 1) [] = Inr (JArr ([] @ map canon vs),
          \<lparr>lexemes = ls, tokenState = value_end st, tokenStack = stk\<rparr>, nodes + 1 + sum_list (map doc_nodes vs))"
      using 1 doc_depth_elem [OF a(3)] a(4,5) f by (intro reads_elems [where sep = False, simplified]) (auto simp: list_all_iff)
    then show "decodeCanonical f d depth nodes =
       Inr (canon (JArr vs), \<lparr>lexemes = ls, tokenState = value_end st, tokenStack = stk\<rparr>, nodes + doc_nodes (JArr vs))"
      using a(1,3,4) f token_open(1) [OF a(2)] by simp
  qed
next
  case (2 ms)
  show ?case
    unfolding reads_doc_def
  proof (intro allI impI)
    fix f d st stk ls depth nodes
    assume a: "dec_token d = token_from (doc_lexemes (JObj ms) @ ls) st stk" "value_allowed st"
      "depth + doc_depth (JObj ms) \<le> Suc maxCanonDepth" "nodes + doc_nodes (JObj ms) \<le> maxCanonNodes"
      "length (doc_lexemes (JObj ms)) \<le> f"
    obtain g where f: "f = Suc g" using a(5) by (cases f) auto
    have ih: "reads_doc v" if "(k, v) \<in> set ms" for k v
      using 2 that by (fastforce simp: list_all_iff)
    have "decodeMembers g \<lparr>lexemes = member_lexemes False ms @ RBrace # ls, tokenState = ObjectStart, tokenStack = st # stk\<rparr>
        depth (nodes + 1) [] = Inr (canon (JObj ms),
          \<lparr>lexemes = ls, tokenState = value_end st, tokenStack = stk\<rparr>, nodes + 1 + sum_list (map (\<lambda>(k, v). doc_nodes v) ms))"
      using 2 ih doc_depth_member [OF a(3)] a(4,5) f
      unfolding canon.simps by (intro reads_members [where sep = False, simplified]) (auto simp: map_has_def)
    then show "decodeCanonical f d depth nodes =
       Inr (canon (JObj ms), \<lparr>lexemes = ls, tokenState = value_end st, tokenStack = stk\<rparr>, nodes + doc_nodes (JObj ms))"
      using a(1,3,4) f token_open(2) [OF a(2)] by simp
  qed
qed (auto intro!: reads_scalar)

subsection \<open>Every accepted text is an admissible document\<close>

lemma token_value:
  assumes "token_from ls st stk = (Inr t, d1)" "value_allowed st"
  shows "t = TScalar v \<Longrightarrow> \<exists>l ls1. ls = l # ls1 \<and> scalar_of l = Some v \<and>
      d1 = \<lparr>lexemes = ls1, tokenState = value_end st, tokenStack = stk\<rparr>"
    and "t = TDelim LBrack \<Longrightarrow> \<exists>ls1. ls = LBrack # ls1 \<and>
      d1 = \<lparr>lexemes = ls1, tokenState = ArrayStart, tokenStack = st # stk\<rparr>"
    and "t = TDelim LBrace \<Longrightarrow> \<exists>ls1. ls = LBrace # ls1 \<and>
      d1 = \<lparr>lexemes = ls1, tokenState = ObjectStart, tokenStack = st # stk\<rparr>"
  using assms
  by (cases ls; cases "hd ls"; auto simp: Let_def value_allowed_def split: if_splits list.splits)+

lemma token_key_first:
  assumes "token_from ls st stk = (Inr (TScalar (JStr k)), d1)" "st = ObjectStart \<or> st = ObjectKey"
  shows "\<exists>ls1. ls = LStr k # ls1 \<and> d1 = \<lparr>lexemes = ls1, tokenState = ObjectColon, tokenStack = stk\<rparr>"
  using assms
  by (cases ls; cases "hd ls") (auto simp: Let_def value_allowed_def split: if_splits list.splits)

lemma token_comma:
  assumes "token_from ls ObjectComma stk = (Inr (TScalar v), d1)"
  shows "\<exists>ls1. ls = Comma # ls1 \<and> token_from ls1 ObjectKey stk = (Inr (TScalar v), d1)"
  using assms
  by (cases ls; cases "hd ls") (auto simp: Let_def value_allowed_def split: if_splits list.splits)

lemma token_key:
  assumes "token_from ls st stk = (Inr (TScalar (JStr k)), d1)" "st = ObjectStart \<or> st = ObjectComma"
  shows "\<exists>ls1. ls = (if st = ObjectComma then [Comma] else []) @ LStr k # ls1 \<and>
    d1 = \<lparr>lexemes = ls1, tokenState = ObjectColon, tokenStack = stk\<rparr>"
proof (cases "st = ObjectComma")
  case True
  then obtain ls1 where "ls = Comma # ls1" "token_from ls1 ObjectKey stk = (Inr (TScalar (JStr k)), d1)"
    using assms(1) token_comma by blast
  then show ?thesis using True token_key_first [of ls1 ObjectKey stk k d1] by simp
next
  case False
  then show ?thesis using assms token_key_first [of ls st stk k d1] by simp
qed

lemma token_colon:
  assumes "token_from ls ObjectColon stk = (Inr t, d1)"
  shows "\<exists>ls1. ls = Colon # ls1"
  using assms
  by (cases ls; cases "hd ls") (auto simp: Let_def value_allowed_def split: if_splits list.splits)

lemma token_elem:
  assumes "token_from ls ArrayComma stk = (Inr t, d1)"
  shows "\<exists>ls1. ls = Comma # ls1 \<or> ls = RBrack # ls1"
  using assms
  by (cases ls; cases "hd ls") (auto simp: Let_def value_allowed_def split: if_splits list.splits)

lemma token_close:
  assumes "token_from ls st (st0 # stk) = (Inr t, d1)" "\<not> dec_more \<lparr>lexemes = ls, tokenState = st, tokenStack = st0 # stk\<rparr>"
  shows "st = ArrayStart \<or> st = ArrayComma \<Longrightarrow> \<exists>ls1. ls = RBrack # ls1 \<and>
      d1 = \<lparr>lexemes = ls1, tokenState = value_end st0, tokenStack = stk\<rparr>"
    and "st = ObjectStart \<or> st = ObjectComma \<Longrightarrow> \<exists>ls1. ls = RBrace # ls1 \<and>
      d1 = \<lparr>lexemes = ls1, tokenState = value_end st0, tokenStack = stk\<rparr>"
  using assms by (cases ls; auto simp: dec_more_def Let_def split: if_splits lexeme.splits)+

lemma canonical_token:
  "decodeCanonical f d depth nodes = Inr y \<Longrightarrow> \<exists>t d1. dec_token d = (Inr t, d1)"
  by (cases f; cases "dec_token d"; cases "fst (dec_token d)") (auto split: if_splits)

lemma scalar_doc:
  assumes "scalar_of l = Some v"
  shows "doc_lexemes v = [l]" "canon v = canonScalar v" "no_dup_keys v" "doc_depth v = 1" "doc_nodes v = 1"
  using assms by (cases l; auto)+

text \<open>What a successful read says of the lexemes in front of the decoder.\<close>

definition doc_read :: "lexeme list \<Rightarrow> tstate \<Rightarrow> tstate list \<Rightarrow> nat \<Rightarrow> nat \<Rightarrow> json \<times> decoder \<times> nat \<Rightarrow> bool" where
  "doc_read ls st stk depth nodes y \<longleftrightarrow> (\<exists>v ls'. ls = doc_lexemes v @ ls' \<and> no_dup_keys v \<and>
     depth + doc_depth v \<le> Suc maxCanonDepth \<and> nodes + doc_nodes v \<le> maxCanonNodes \<and>
     y = (canon v, \<lparr>lexemes = ls', tokenState = value_end st, tokenStack = stk\<rparr>, nodes + doc_nodes v))"

definition members_read ::
  "lexeme list \<Rightarrow> tstate \<Rightarrow> tstate \<Rightarrow> tstate list \<Rightarrow> nat \<Rightarrow> nat \<Rightarrow> json gomap \<Rightarrow> json \<times> decoder \<times> nat \<Rightarrow> bool" where
  "members_read ls st st0 stk depth nodes obj y \<longleftrightarrow> (\<exists>ms ls'.
     ls = member_lexemes (st = ObjectComma) ms @ RBrace # ls' \<and> distinct (map fst ms) \<and>
     (\<forall>(k, v) \<in> set ms. \<not> map_has obj k \<and> no_dup_keys v \<and> depth + doc_depth v \<le> maxCanonDepth) \<and>
     nodes + sum_list (map (\<lambda>(k, v). doc_nodes v) ms) \<le> maxCanonNodes \<and>
     y = (JObj (fold (\<lambda>(k, v) m. map_set k v m) (map (\<lambda>(k, v). (k, canon v)) ms) obj),
          \<lparr>lexemes = ls', tokenState = value_end st0, tokenStack = stk\<rparr>,
          nodes + sum_list (map (\<lambda>(k, v). doc_nodes v) ms)))"

definition elems_read ::
  "lexeme list \<Rightarrow> tstate \<Rightarrow> tstate \<Rightarrow> tstate list \<Rightarrow> nat \<Rightarrow> nat \<Rightarrow> json list \<Rightarrow> json \<times> decoder \<times> nat \<Rightarrow> bool" where
  "elems_read ls st st0 stk depth nodes arr y \<longleftrightarrow> (\<exists>vs ls'.
     ls = elem_lexemes (st = ArrayComma) vs @ RBrack # ls' \<and>
     (\<forall>v \<in> set vs. no_dup_keys v \<and> depth + doc_depth v \<le> maxCanonDepth) \<and>
     nodes + sum_list (map doc_nodes vs) \<le> maxCanonNodes \<and>
     y = (JArr (arr @ map canon vs), \<lparr>lexemes = ls', tokenState = value_end st0, tokenStack = stk\<rparr>,
          nodes + sum_list (map doc_nodes vs)))"

lemma decode_sound:
  "decodeCanonical f d depth nodes = Inr y \<Longrightarrow> dec_token d = token_from ls st stk \<Longrightarrow>
     value_allowed st \<Longrightarrow> doc_read ls st stk depth nodes y"
  "decodeMembers f \<lparr>lexemes = ls, tokenState = st, tokenStack = st0 # stk\<rparr> depth nodes obj = Inr y \<Longrightarrow>
     st = ObjectStart \<or> st = ObjectComma \<Longrightarrow> nodes \<le> maxCanonNodes \<Longrightarrow>
     members_read ls st st0 stk depth nodes obj y"
  "decodeElems f \<lparr>lexemes = ls, tokenState = st, tokenStack = st0 # stk\<rparr> depth nodes arr = Inr y \<Longrightarrow>
     st = ArrayStart \<or> st = ArrayComma \<Longrightarrow> nodes \<le> maxCanonNodes \<Longrightarrow>
     elems_read ls st st0 stk depth nodes arr y"
proof (induction f arbitrary: d ls st st0 stk depth nodes obj arr y)
  case (Suc f)
  note [simp del] = decodeCanonical.simps decodeMembers.simps decodeElems.simps
  {
    case 1
    note b = canonical_bounds [OF 1(1)]
    from canonical_step [OF 1(1) b] show ?case
    proof cases
      case (2 v d1)
      then obtain l ls1 where "ls = l # ls1" "scalar_of l = Some v"
        "d1 = \<lparr>lexemes = ls1, tokenState = value_end st, tokenStack = stk\<rparr>"
        using token_value(1) [of ls st stk "TScalar v" d1 v] 1 by auto
      then show ?thesis using 2(2) b scalar_doc [of l v] unfolding doc_read_def
        by (intro exI [of _ v] exI [of _ ls1]) auto
    next
      case (3 d1)
      then obtain ls1 where ls: "ls = LBrace # ls1"
        and d1: "d1 = \<lparr>lexemes = ls1, tokenState = ObjectStart, tokenStack = st # stk\<rparr>"
        using token_value(3) [of ls st stk "TDelim LBrace" d1] 1 by auto
      have "members_read ls1 ObjectStart st stk depth (Suc nodes) [] y"
        using Suc.IH(2) [of ls1 ObjectStart st stk depth "Suc nodes" "[]" y] 3 d1 b by simp
      then obtain ms ls' where m: "ls1 = member_lexemes False ms @ RBrace # ls'" "distinct (map fst ms)"
        "\<forall>(k, v) \<in> set ms. no_dup_keys v \<and> depth + doc_depth v \<le> maxCanonDepth"
        "Suc nodes + sum_list (map (\<lambda>(k, v). doc_nodes v) ms) \<le> maxCanonNodes"
        "y = (canon (JObj ms), \<lparr>lexemes = ls', tokenState = value_end st, tokenStack = stk\<rparr>,
           Suc nodes + sum_list (map (\<lambda>(k, v). doc_nodes v) ms))"
        unfolding members_read_def by (auto simp: case_prod_beta')
      have "fold max (map (\<lambda>(k, v). doc_depth v) ms) 0 \<le> maxCanonDepth - depth"
        using m(3) unfolding fold_max_le by fastforce
      then show ?thesis using ls m b unfolding doc_read_def
        by (intro exI [of _ "JObj ms"] exI [of _ ls']) (auto simp: list_all_iff)
    next
      case (4 d1)
      then obtain ls1 where ls: "ls = LBrack # ls1"
        and d1: "d1 = \<lparr>lexemes = ls1, tokenState = ArrayStart, tokenStack = st # stk\<rparr>"
        using token_value(2) [of ls st stk "TDelim LBrack" d1] 1 by auto
      have "elems_read ls1 ArrayStart st stk depth (Suc nodes) [] y"
        using Suc.IH(3) [of ls1 ArrayStart st stk depth "Suc nodes" "[]" y] 4 d1 b by simp
      then obtain vs ls' where m: "ls1 = elem_lexemes False vs @ RBrack # ls'"
        "\<forall>v \<in> set vs. no_dup_keys v \<and> depth + doc_depth v \<le> maxCanonDepth"
        "Suc nodes + sum_list (map doc_nodes vs) \<le> maxCanonNodes"
        "y = (canon (JArr vs), \<lparr>lexemes = ls', tokenState = value_end st, tokenStack = stk\<rparr>,
           Suc nodes + sum_list (map doc_nodes vs))"
        unfolding elems_read_def by auto
      have "fold max (map doc_depth vs) 0 \<le> maxCanonDepth - depth"
        using m(2) unfolding fold_max_le by fastforce
      then show ?thesis using ls m b unfolding doc_read_def
        by (intro exI [of _ "JArr vs"] exI [of _ ls']) (auto simp: list_all_iff)
    qed simp_all
  next
    case 2
    from members_step [OF 2(1)] show ?case
    proof cases
      case (4 k d1 v d2 n2)
      then obtain ls1 where ls: "ls = (if st = ObjectComma then [Comma] else []) @ LStr k # ls1"
        and d1: "d1 = \<lparr>lexemes = ls1, tokenState = ObjectColon, tokenStack = st0 # stk\<rparr>"
        using token_key [of ls st "st0 # stk" k d1] 2(2) by (auto simp: dec_token_def)
      obtain t d3 where "token_from ls1 ObjectColon (st0 # stk) = (Inr t, d3)"
        using canonical_token [OF 4(4)] d1 by (auto simp: dec_token_def)
      then obtain ls2 where ls1: "ls1 = Colon # ls2" using token_colon by blast
      have "dec_token d1 = token_from ls2 ObjectValue (st0 # stk)" using d1 ls1 by (simp add: dec_token_def Let_def)
      from Suc.IH(1) [OF 4(4) this] obtain w ls3 where
        w: "ls2 = doc_lexemes w @ ls3" "no_dup_keys w" "depth + doc_depth w \<le> maxCanonDepth"
          "n2 = nodes + doc_nodes w" "n2 \<le> maxCanonNodes" "v = canon w"
        and d2: "d2 = \<lparr>lexemes = ls3, tokenState = ObjectComma, tokenStack = st0 # stk\<rparr>"
        unfolding doc_read_def by (auto simp: value_allowed_def)
      have "members_read ls3 ObjectComma st0 stk depth n2 (map_set k v obj) y"
        using Suc.IH(2) [of ls3 ObjectComma st0 stk depth n2 "map_set k v obj" y] 4(5) d2 w(5) by simp
      then obtain ms ls' where m: "ls3 = member_lexemes True ms @ RBrace # ls'" "distinct (map fst ms)"
        "\<forall>(k', x) \<in> set ms. \<not> map_has (map_set k v obj) k' \<and> no_dup_keys x \<and> depth + doc_depth x \<le> maxCanonDepth"
        "n2 + sum_list (map (\<lambda>(k, v). doc_nodes v) ms) \<le> maxCanonNodes"
        "y = (JObj (fold (\<lambda>(k, v) m. map_set k v m) (map (\<lambda>(k, v). (k, canon v)) ms) (map_set k v obj)),
           \<lparr>lexemes = ls', tokenState = value_end st0, tokenStack = stk\<rparr>,
           n2 + sum_list (map (\<lambda>(k, v). doc_nodes v) ms))"
        unfolding members_read_def by auto
      have "\<forall>(k', x) \<in> set ms. k' \<noteq> k \<and> \<not> map_has obj k'"
        using m(3) unfolding map_has_def keys_map_set by fastforce
      then show ?thesis using ls ls1 w m 4(3) unfolding members_read_def
        by (intro exI [of _ "(k, w) # ms"] exI [of _ ls']) (auto simp: add.assoc)
    next
      case (6 t d1)
      then obtain ls1 where "ls = RBrace # ls1"
        "d1 = \<lparr>lexemes = ls1, tokenState = value_end st0, tokenStack = stk\<rparr>"
        using token_close(2) [of ls st st0 stk t d1] 2(2) by (auto simp: dec_token_def)
      then show ?thesis using 6(3) 2(3) unfolding members_read_def
        by (intro exI [of _ "[]"] exI [of _ ls1]) simp
    qed simp_all
  next
    case 3
    from elems_step [OF 3(1)] show ?case
    proof cases
      case (3 v d2 n2)
      let ?d = "\<lparr>lexemes = ls, tokenState = st, tokenStack = st0 # stk\<rparr>"
      obtain t d1 where t: "token_from ls st (st0 # stk) = (Inr t, d1)"
        using canonical_token [OF 3(2)] by (auto simp: dec_token_def)
      obtain ls1 st1 where ls: "ls = (if st = ArrayComma then [Comma] else []) @ ls1"
        and st1: "dec_token ?d = token_from ls1 st1 (st0 # stk)" "value_allowed st1" "value_end st1 = ArrayComma"
      proof (cases "st = ArrayComma")
        case True
        then obtain ls1 where "ls = Comma # ls1" using token_elem [of ls "st0 # stk" t d1] t 3(1)
          by (auto simp: dec_more_def)
        then show thesis using that [of ls1 ArrayValue] True by (simp add: dec_token_def Let_def value_allowed_def)
      next
        case False
        then show thesis using that [of ls ArrayStart] "3.prems"(2) by (simp add: dec_token_def value_allowed_def)
      qed
      from Suc.IH(1) [OF 3(2) st1(1,2)] st1(3) obtain w ls3 where
        w: "ls1 = doc_lexemes w @ ls3" "no_dup_keys w" "depth + doc_depth w \<le> maxCanonDepth"
          "n2 = nodes + doc_nodes w" "n2 \<le> maxCanonNodes" "v = canon w"
        and d2: "d2 = \<lparr>lexemes = ls3, tokenState = ArrayComma, tokenStack = st0 # stk\<rparr>"
        unfolding doc_read_def by auto
      have "elems_read ls3 ArrayComma st0 stk depth n2 (arr @ [v]) y"
        using Suc.IH(3) [of ls3 ArrayComma st0 stk depth n2 "arr @ [v]" y] 3(3) d2 w(5) by simp
      then obtain vs ls' where m: "ls3 = elem_lexemes True vs @ RBrack # ls'"
        "\<forall>x \<in> set vs. no_dup_keys x \<and> depth + doc_depth x \<le> maxCanonDepth"
        "n2 + sum_list (map doc_nodes vs) \<le> maxCanonNodes"
        "y = (JArr ((arr @ [v]) @ map canon vs), \<lparr>lexemes = ls', tokenState = value_end st0, tokenStack = stk\<rparr>,
           n2 + sum_list (map doc_nodes vs))"
        unfolding elems_read_def by auto
      then show ?thesis using ls w unfolding elems_read_def
        by (intro exI [of _ "w # vs"] exI [of _ ls']) (auto simp: add.assoc)
    next
      case (4 t d1)
      then obtain ls1 where "ls = RBrack # ls1"
        "d1 = \<lparr>lexemes = ls1, tokenState = value_end st0, tokenStack = stk\<rparr>"
        using token_close(1) [of ls st st0 stk t d1] "3.prems"(2) by (auto simp: dec_token_def)
      then show ?thesis using 4(3) "3.prems"(3) unfolding elems_read_def
        by (intro exI [of _ "[]"] exI [of _ ls1]) simp
    qed simp_all
  }
qed simp_all

subsection \<open>What \<open>canonicalize\<close> accepts\<close>

lemma token_eof: "token_from ls TopValue stk = (Inl EOF, d1) \<longleftrightarrow> ls = [] \<and>
    d1 = \<lparr>lexemes = [], tokenState = TopValue, tokenStack = stk\<rparr>"
  by (cases ls; cases "hd ls") (auto simp: Let_def value_allowed_def)

definition admissible :: "json \<Rightarrow> bool" where
  "admissible v \<longleftrightarrow> no_dup_keys v \<and> doc_depth v \<le> maxCanonDepth \<and> doc_nodes v \<le> maxCanonNodes"

lemma canonicalize_characterised:
  "canonicalize body = Inr (out, msg) \<longleftrightarrow>
     (\<exists>ms. lex body = doc_lexemes (JObj ms) \<and> admissible (JObj ms) \<and>
           JObj msg = canon (JObj ms) \<and> out = render (JObj msg))"
proof
  let ?d = "new_decoder body" and ?f = "2 * length (lexemes (new_decoder body)) + 1"
  assume "canonicalize body = Inr (out, msg)"
  then obtain d1 n d2 where dec: "decodeCanonical ?f ?d 1 0 = Inr (JObj msg, d1, n)"
    and eof: "dec_token d1 = (Inl EOF, d2)" and out: "out = render (JObj msg)"
    by (auto simp: canonicalize_def marshalCanonical_def Let_def
        split: sum.splits prod.splits json_error.splits json.splits)
  have "doc_read (lex body) TopValue [] 1 0 (JObj msg, d1, n)"
    by (rule decode_sound(1) [OF dec]) (simp_all add: new_decoder_def dec_token_def value_allowed_def)
  then obtain v ls' where v: "lex body = doc_lexemes v @ ls'" "no_dup_keys v" "1 + doc_depth v \<le> Suc maxCanonDepth"
      "doc_nodes v \<le> maxCanonNodes" "JObj msg = canon v"
    and d1: "d1 = \<lparr>lexemes = ls', tokenState = TopValue, tokenStack = []\<rparr>"
    unfolding doc_read_def by auto
  have "ls' = []" using eof d1 by (simp add: dec_token_def token_eof)
  moreover obtain ms where "v = JObj ms" using v(5) by (cases v) (auto split: option.splits)
  ultimately show "\<exists>ms. lex body = doc_lexemes (JObj ms) \<and> admissible (JObj ms) \<and>
           JObj msg = canon (JObj ms) \<and> out = render (JObj msg)"
    using v out unfolding admissible_def by (intro exI [of _ ms]) simp
next
  assume "\<exists>ms. lex body = doc_lexemes (JObj ms) \<and> admissible (JObj ms) \<and>
           JObj msg = canon (JObj ms) \<and> out = render (JObj msg)"
  then obtain ms where ms: "lex body = doc_lexemes (JObj ms)" "admissible (JObj ms)"
      "JObj msg = canon (JObj ms)" "out = render (JObj msg)" by blast
  have "reads_doc (JObj ms)" using ms(2) reads_every_doc by (simp add: admissible_def)
  then have dec: "decodeCanonical (2 * length (lexemes (new_decoder body)) + 1) (new_decoder body) 1 0 =
      Inr (JObj msg, \<lparr>lexemes = [], tokenState = TopValue, tokenStack = []\<rparr>, 0 + doc_nodes (JObj ms))"
    using reads_docD [of "JObj ms" "new_decoder body" "[]" TopValue "[]" 1 0 "2 * length (lex body) + 1"] ms(1,2)
    unfolding ms(3) by (simp add: new_decoder_def dec_token_def value_allowed_def admissible_def)
  show "canonicalize body = Inr (out, msg)"
    unfolding canonicalize_def Let_def dec by (simp add: dec_token_def marshalCanonical_def ms(4))
qed

subsection \<open>The canonical form is a fixed point\<close>

lemma set_map_set: "\<not> map_has m k \<Longrightarrow> set (map_set k v m) = insert (k, v) (set m)"
  by (induction k v m rule: map_set.induct) (auto simp: map_has_def)

lemma sum_map_set:
  "\<not> map_has m k \<Longrightarrow> sum_list (map g (map_set k v m)) = g (k, v) + sum_list (map g m)"
  for g :: "_ \<Rightarrow> nat"
  by (induction k v m rule: map_set.induct) (auto simp: map_has_def)

abbreviation sort_map :: "(string \<times> 'v) list \<Rightarrow> 'v gomap \<Rightarrow> 'v gomap" where
  "sort_map ms m \<equiv> fold (\<lambda>(k, v) m. map_set k v m) ms m"

lemma sort_map_facts:
  assumes "distinct (map fst ms)" "\<forall>(k, v) \<in> set ms. \<not> map_has m k" "map_wf m"
  shows "set (sort_map ms m) = set ms \<union> set m \<and> map_wf (sort_map ms m) \<and>
    sum_list (map g (sort_map ms m)) = sum_list (map g ms) + sum_list (map (g :: _ \<Rightarrow> nat) m)"
  using assms
proof (induction ms arbitrary: m)
  case (Cons x ms)
  obtain k v where x: "x = (k, v)" by fastforce
  have new: "\<not> map_has m k" using Cons.prems(2) x by auto
  have p1: "distinct (map fst ms)" and p3: "map_wf (map_set k v m)"
    using Cons.prems x by (simp_all add: map_wf_set)
  have "k \<notin> fst ` set ms" using Cons.prems(1) x by simp
  then have p2: "\<forall>(k', v') \<in> set ms. \<not> map_has (map_set k v m) k'"
  proof (clarify)
    fix k' v' assume in_ms: "(k', v') \<in> set ms" and "map_has (map_set k v m) k'"
    then have "k' = k \<or> map_has m k'" unfolding map_has_def keys_map_set by simp
    moreover have "k' \<noteq> k" using in_ms \<open>k \<notin> fst ` set ms\<close> by (metis fst_conv imageI)
    ultimately show False using Cons.prems(2) in_ms by auto
  qed
  show ?case using Cons.IH [OF p1 p2 p3] set_map_set [OF new, of v] sum_map_set [OF new, of g v] x
    by (simp add: add.left_commute)
qed simp

lemma map_set_last: "(\<forall>k' \<in> set (map fst m). k' < k) \<Longrightarrow> map_set k v m = m @ [(k, v)]"
proof (induction k v m rule: map_set.induct)
  case (2 k v k' v' m)
  then have "k' < k" by simp
  then have "k \<noteq> k'" "\<not> k < k'" by auto
  then show ?case using 2 by simp
qed simp

lemma sort_map_sorted: "map_wf (m @ ms) \<Longrightarrow> sort_map ms m = m @ ms"
proof (induction ms arbitrary: m)
  case (Cons x ms)
  obtain k v where x: "x = (k, v)" by fastforce
  have "\<forall>k' \<in> set (map fst m). k' < k" using Cons.prems x by (auto simp: map_wf_def sorted_wrt_append)
  then have "map_set k v m = m @ [(k, v)]" by (rule map_set_last)
  then show ?case using Cons x by simp
qed simp

lemma map_snd_map_set:
  "map (\<lambda>(k, v). (k, f v)) (map_set k v m) = map_set k (f v) (map (\<lambda>(k, v). (k, f v)) m)"
  by (induction k v m rule: map_set.induct) auto

lemma map_snd_sort_map:
  "map (\<lambda>(k, v). (k, f v)) (sort_map ms m) = sort_map (map (\<lambda>(k, v). (k, f v)) ms) (map (\<lambda>(k, v). (k, f v)) m)"
  by (induction ms arbitrary: m) (auto simp: map_snd_map_set)

lemma canon_idem: "canon (canon v) = canon v"
proof (induction v rule: canon.induct)
  case (2 ms)
  have "map_wf (sort_map (map (\<lambda>(k, v). (k, canon v)) ms) [])"
  proof -
    have "map_wf (sort_map xs m)" if "map_wf m" for xs and m :: "json gomap"
      using that by (induction xs arbitrary: m) (auto simp: map_wf_set)
    then show ?thesis by simp
  qed
  moreover have "map (\<lambda>(k, v). (k, canon v)) (map (\<lambda>(k, v). (k, canon v)) ms) = map (\<lambda>(k, v). (k, canon v)) ms"
    using 2 by auto
  ultimately show ?case
    using sort_map_sorted [of "[]" "sort_map (map (\<lambda>(k, v). (k, canon v)) ms) []"]
    by (simp add: map_snd_sort_map del: map_map)
next
  case "3_3"
  then show ?case using parse_int_format parse_int_range by (auto split: option.splits)
qed simp_all

lemma canon_measures: "no_dup_keys v \<Longrightarrow> no_dup_keys (canon v) \<and> doc_depth (canon v) = doc_depth v \<and> doc_nodes (canon v) = doc_nodes v"
proof (induction v rule: no_dup_keys.induct)
  case (1 vs)
  then have "map doc_depth (map canon vs) = map doc_depth vs" "map doc_nodes (map canon vs) = map doc_nodes vs"
    by (simp_all add: list_all_iff)
  then show ?case using 1 by (simp add: list_all_iff del: map_map)
next
  case (2 ms)
  let ?cs = "map (\<lambda>(k, v). (k, canon v)) ms"
  have ih: "no_dup_keys (canon v) \<and> doc_depth (canon v) = doc_depth v \<and> doc_nodes (canon v) = doc_nodes v"
    if "(k, v) \<in> set ms" for k v using 2 that by (fastforce simp: list_all_iff)
  have d: "distinct (map fst ?cs)" using 2(2) by (simp add: comp_def case_prod_beta')
  have s: "set (sort_map ?cs []) = set ?cs" and w: "map_wf (sort_map ?cs [])"
    and n: "sum_list (map (\<lambda>(k, v). doc_nodes v) (sort_map ?cs [])) = sum_list (map (\<lambda>(k, v). doc_nodes v) ?cs)"
    using sort_map_facts [OF d, of "[]" "\<lambda>(k, v). doc_nodes v"] by (simp_all add: map_has_def)
  have m: "fold max (map (\<lambda>(k, v). doc_depth v) xs) (0::nat) = Max (insert 0 ((\<lambda>(k, v). doc_depth v) ` set xs))" for xs :: "(string \<times> json) list"
    by (metis (no_types, lifting) Max.set_eq_fold list.set_map list.simps(15))
  have "(\<lambda>(k, v). doc_depth v) ` set ?cs = (\<lambda>(k, v). doc_depth v) ` set ms"
    using ih by (force simp: image_iff)
  then have "doc_depth (canon (JObj ms)) = doc_depth (JObj ms)" unfolding canon.simps doc_depth.simps m s by simp
  moreover have e: "map (\<lambda>(k, v). doc_nodes v) ?cs = map (\<lambda>(k, v). doc_nodes v) ms" using ih by auto
  have "doc_nodes (canon (JObj ms)) = doc_nodes (JObj ms)" unfolding canon.simps doc_nodes.simps n e ..
  moreover have "no_dup_keys (canon (JObj ms))"
    using map_wf_distinct [OF w] s ih unfolding canon.simps no_dup_keys.simps list_all_iff by auto
  ultimately show ?case by blast
next
  case "3_3"
  then show ?case by (auto split: option.splits)
qed auto

lemma canon_admissible: "admissible v \<Longrightarrow> admissible (canon v)"
  using canon_measures by (simp add: admissible_def)

subsection \<open>The canonical text reads back as the same tree\<close>

lemma format_nat_first: "0 < n \<Longrightarrow> hd (format_nat n) \<noteq> CHR ''0''"
proof (induction n rule: format_nat.induct)
  case (1 n)
  show ?case
  proof (cases "n < 10")
    case True
    then have "code (digit_char n) = 48 + n" by (rule code_digit_char)
    then have "digit_char n \<noteq> CHR ''0''" using 1 by auto
    then show ?thesis using True by (subst format_nat.simps) simp
  next
    case False
    then show ?thesis using 1 format_nat_nonempty by (subst format_nat.simps) simp
  qed
qed

lemma lex_int_format: "lex_int (format_nat n) = Some (format_nat n, [])"
proof -
  obtain c cs where f: "format_nat n = c # cs" using format_nat_nonempty by (cases "format_nat n") auto
  then have d: "is_digit c" "list_all is_digit cs" using format_nat_digits [of n] by simp_all
  show ?thesis
  proof (cases "n = 0")
    case True
    moreover have "char_of (code (CHR ''0'')) = CHR ''0''" by (rule char_of_char)
    ultimately have "format_nat n = ''0''" by (subst format_nat.simps) (simp add: digit_char_def)
    then show ?thesis by (simp add: lex_int_def)
  next
    case False
    then have "c \<noteq> CHR ''0''" using format_nat_first [of n] f by simp
    then show ?thesis using d f
      by (simp add: lex_int_def lex_digits_def takeWhile_eq_all_conv [THEN iffD2] list_all_iff)
  qed
qed

lemma number_ok_format: "number_ok (format_int i)"
proof -
  have "\<nexists>cs. format_nat n = CHR ''-'' # cs" for n
    using format_nat_head_digit [of n] digit_not_sign by (metis list.sel(1))
  then show ?thesis unfolding number_ok_def lex_number_parts
    using lex_int_format by (cases "i < 0") (auto simp: format_int_def lex_frac_def lex_exp_def)
qed

lemma json_ok_canon: "json_ok v \<Longrightarrow> json_ok (canon v)"
proof (induction v rule: canon.induct)
  case (2 ms)
  have "json_ok (JObj (sort_map xs m))" if "json_ok (JObj xs)" "json_ok (JObj m)" for xs m
    using that
  proof (induction xs arbitrary: m)
    case (Cons x xs)
    obtain k v where x: "x = (k, v)" by fastforce
    have "json_ok (JObj (map_set k v m))" using Cons.prems x
      by (induction k v m rule: map_set.induct) auto
    then show ?case using Cons x by simp
  qed simp
  moreover have "utf8_valid k \<and> json_ok (canon v)" if "(k, v) \<in> set ms" for k v
  proof -
    have "utf8_valid k" "json_ok v" using 2(2) that by (auto simp: list_all_iff)
    then show ?thesis using 2(1) [OF that refl] by blast
  qed
  then have "json_ok (JObj (map (\<lambda>(k, v). (k, canon v)) ms))" by (auto simp: list_all_iff)
  ultimately show ?case by simp
next
  case "3_3"
  then show ?case using number_ok_format by (auto split: option.splits)
qed (auto simp: list_all_iff)

lemma canonicalize_tree:
  assumes "canonicalize body = Inr (out, msg)"
  shows "json_ok (JObj msg)" "canon (JObj msg) = JObj msg" "admissible (JObj msg)"
    "out = render (JObj msg)"
proof -
  obtain ms where ms: "lex body = doc_lexemes (JObj ms)" "admissible (JObj ms)" "JObj msg = canon (JObj ms)"
      and out: "out = render (JObj msg)"
    using assms canonicalize_characterised by blast
  have "json_ok (JObj ms)" using lex_ok [of body] ms(1) by (metis doc_lexemes_ok)
  then show "json_ok (JObj msg)" "canon (JObj msg) = JObj msg" "admissible (JObj msg)"
    unfolding ms(3) using ms(2) by (blast intro: json_ok_canon canon_idem canon_admissible)+
  show "out = render (JObj msg)" by (rule out)
qed

lemma canonicalize_fixpoint:
  assumes "canonicalize body = Inr (out, msg)"
  shows "canonicalize out = Inr (out, msg)"
  unfolding canonicalize_characterised
  using canonicalize_tree [OF assms] lex_render [of "JObj msg"] by (intro exI [of _ msg]) simp

text \<open>Every object of a canonical tree is sorted by key.\<close>

fun sorted_json :: "json \<Rightarrow> bool" where
  "sorted_json (JArr vs) = list_all sorted_json vs"
| "sorted_json (JObj m) = (map_wf m \<and> list_all (\<lambda>(k, v). sorted_json v) m)"
| "sorted_json v = True"

lemma sorted_json_map_set:
  "sorted_json (JObj m) \<Longrightarrow> sorted_json v \<Longrightarrow> sorted_json (JObj (map_set k v m))"
proof -
  assume m: "sorted_json (JObj m)" and v: "sorted_json v"
  then have "map_wf (map_set k v m)" by (simp add: map_wf_set)
  moreover have "list_all (\<lambda>(k, v). sorted_json v) (map_set k v m)"
    using m v by (induction k v m rule: map_set.induct) (auto simp: map_wf_Cons)
  ultimately show ?thesis by simp
qed

lemma sorted_json_canon: "sorted_json (canon v)"
proof (induction v rule: canon.induct)
  case (2 ms)
  have "sorted_json (JObj (fold (\<lambda>(k, v) m. map_set k v m) xs m))"
    if "list_all (\<lambda>(k, v). sorted_json v) xs" "sorted_json (JObj m)" for xs m
    using that
  proof (induction xs arbitrary: m)
    case (Cons x xs)
    then show ?case using sorted_json_map_set [of m "snd x" "fst x"] by (cases x) auto
  qed simp
  moreover have "list_all (\<lambda>(k, v). sorted_json v) (map (\<lambda>(k, v). (k, canon v)) ms)"
    using 2 by (auto simp: list_all_iff)
  ultimately show ?case by simp
qed (auto simp: list_all_iff split: option.splits)

lemma sorted_json_map_get: "sorted_json (JObj m) \<Longrightarrow> map_get m k = Some v \<Longrightarrow> sorted_json v"
  unfolding map_get_def by (auto simp: list_all_iff dest: map_of_SomeD)

subsection \<open>Evaluating the canonicaliser\<close>

lemma canonicalize_run:
  assumes "lex body = doc_lexemes (JObj ms)" "admissible (JObj ms)" "canon (JObj ms) = JObj msg"
    "out = render (JObj msg)"
  shows "canonicalize body = Inr (out, msg)"
  unfolding canonicalize_characterised using assms by (intro exI [of _ ms]) simp

lemmas lex_eval = lex_number_def lex_int_def lex_frac_def lex_exp_def lex_digits_def json_space_def
  go_defs format_nat.simps

lemmas render_eval = quote_json_def esc_string_def esc_chunk_def go_defs

end
