(* ===== verification/Pricing.thy ===== *)
theory Pricing
  imports Prelude
begin

text \<open>
  Component \<^verbatim>\<open>plane/internal/pricing/pricing.go\<close>: token usage to whole cents. Prices are
  fixed-point cents per million tokens; the arithmetic is Go's \<open>int64\<close> arithmetic, with
  its wrap-around, and the lemmas show that the clamp and the configuration's price bound
  keep it from ever happening.
\<close>

record price =
  InCentsPer1M :: int
  OutCentsPer1M :: int

definition MaxTokens :: int where
  "MaxTokens = 1000000000000"

definition clampTokens :: "int \<Rightarrow> int" where
  "clampTokens n = (if n < 0 then 0 else if n > MaxTokens then MaxTokens else n)"

definition CostCents :: "price \<Rightarrow> int \<Rightarrow> int \<Rightarrow> int" where
  "CostCents p inputTokens outputTokens =
     (let numerator = wrap64 (wrap64 (clampTokens inputTokens * InCentsPer1M p) +
                              wrap64 (clampTokens outputTokens * OutCentsPer1M p))
      in go_div numerator 1000000)"

text \<open>The price range \<^verbatim>\<open>config.Parse\<close> admits.\<close>

definition price_in_range :: "price \<Rightarrow> bool" where
  "price_in_range p \<longleftrightarrow> \<not> (InCentsPer1M p < 0 \<or> OutCentsPer1M p < 0 \<or>
     InCentsPer1M p > 1000000 \<or> OutCentsPer1M p > 1000000)"

lemma clampTokens_bounds: "0 \<le> clampTokens n" "clampTokens n \<le> MaxTokens"
  by (simp_all add: clampTokens_def MaxTokens_def)

lemma clampTokens_id: "0 \<le> n \<Longrightarrow> n \<le> MaxTokens \<Longrightarrow> clampTokens n = n"
  by (simp add: clampTokens_def)

lemma clampTokens_idem [simp]: "clampTokens (clampTokens n) = clampTokens n"
  by (simp add: clampTokens_def MaxTokens_def)

lemma clampTokens_mono: "m \<le> n \<Longrightarrow> clampTokens m \<le> clampTokens n"
  by (simp add: clampTokens_def MaxTokens_def)

lemma cost_term_bounds:
  assumes "0 \<le> c" "c \<le> 1000000"
  shows "0 \<le> clampTokens n * c" "clampTokens n * c \<le> 1000000000000000000"
proof -
  show "0 \<le> clampTokens n * c" using assms clampTokens_bounds by simp
  have "clampTokens n * c \<le> MaxTokens * 1000000"
    using assms clampTokens_bounds by (intro mult_mono) (auto simp: MaxTokens_def)
  then show "clampTokens n * c \<le> 1000000000000000000" by (simp add: MaxTokens_def)
qed

text \<open>No overflow: within the configured price range the wrapped arithmetic is exact.\<close>

lemma CostCents_exact:
  assumes "price_in_range p"
  shows "CostCents p i out =
    (clampTokens i * InCentsPer1M p + clampTokens out * OutCentsPer1M p) div 1000000"
proof -
  have c: "0 \<le> InCentsPer1M p" "InCentsPer1M p \<le> 1000000"
    "0 \<le> OutCentsPer1M p" "OutCentsPer1M p \<le> 1000000"
    using assms by (auto simp: price_in_range_def)
  note b = cost_term_bounds [OF c(1,2), of i] cost_term_bounds [OF c(3,4), of out]
  have "int64_ok (clampTokens i * InCentsPer1M p)" "int64_ok (clampTokens out * OutCentsPer1M p)"
    "int64_ok (clampTokens i * InCentsPer1M p + clampTokens out * OutCentsPer1M p)"
    using b by (auto simp: int64_ok_def)
  then show ?thesis using b by (simp add: CostCents_def Let_def go_div_nonneg)
qed

lemma CostCents_nonneg: "price_in_range p \<Longrightarrow> 0 \<le> CostCents p i out"
  using cost_term_bounds [of "InCentsPer1M p" i] cost_term_bounds [of "OutCentsPer1M p" out]
  by (simp add: CostCents_exact price_in_range_def)

lemma CostCents_le: "price_in_range p \<Longrightarrow> CostCents p i out \<le> 2000000000000"
  using cost_term_bounds [of "InCentsPer1M p" i] cost_term_bounds [of "OutCentsPer1M p" out]
  by (simp add: CostCents_exact price_in_range_def)

lemma CostCents_mono:
  assumes "price_in_range p" "i \<le> i'" "out \<le> out'"
  shows "CostCents p i out \<le> CostCents p i' out'"
proof -
  have "clampTokens i * InCentsPer1M p \<le> clampTokens i' * InCentsPer1M p"
    "clampTokens out * OutCentsPer1M p \<le> clampTokens out' * OutCentsPer1M p"
    using assms by (auto simp: price_in_range_def intro!: mult_right_mono clampTokens_mono)
  then show ?thesis using assms(1) by (simp add: CostCents_exact zdiv_mono1)
qed

lemma single_floor:
  fixes a b c :: int
  assumes "0 < c"
  shows "a div c + b div c \<le> (a + b) div c" and "(a + b) div c \<le> a div c + b div c + 1"
proof -
  have m: "0 \<le> a mod c" "a mod c < c" "0 \<le> b mod c" "b mod c < c" using assms by simp_all
  then have "(a mod c + b mod c) div c \<ge> 0" using assms by (simp add: pos_imp_zdiv_nonneg_iff)
  moreover have "(a mod c + b mod c) div c < 2"
  proof (rule ccontr)
    define q where "q = (a mod c + b mod c) div c"
    assume "\<not> ?thesis"
    then have "c * 2 \<le> c * q" unfolding q_def using assms by (intro mult_left_mono) simp_all
    moreover have "c * q \<le> a mod c + b mod c"
      unfolding q_def using assms by (metis add.commute le_add_same_cancel1 mult_div_mod_eq pos_mod_sign)
    ultimately show False using m by linarith
  qed
  ultimately show "a div c + b div c \<le> (a + b) div c" "(a + b) div c \<le> a div c + b div c + 1"
    by (simp_all add: div_add1_eq [of a b])
qed

text \<open>Flooring once on the combined numerator loses less than flooring each side.\<close>

lemma CostCents_single_floor:
  fixes i out :: int
  assumes "price_in_range p"
  defines "a \<equiv> clampTokens i * InCentsPer1M p" and "b \<equiv> clampTokens out * OutCentsPer1M p"
  shows "a div 1000000 + b div 1000000 \<le> CostCents p i out"
    and "CostCents p i out \<le> a div 1000000 + b div 1000000 + 1"
  unfolding CostCents_exact [OF assms(1)] a_def [symmetric] b_def [symmetric]
  by (rule single_floor, simp)+

end
