(* ===== verification/Policy.thy ===== *)
theory Policy
  imports Json Pricing
begin

text \<open>
  Component \<^verbatim>\<open>plane/internal/config/policy.go\<close>: which argument fields of a tool are
  policy-relevant, and the standing constraints a credential carries on them. A Go pointer is
  an option; \<open>None\<close> as the result of \<open>holds\<close>, \<open>describe\<close> and \<open>Satisfied\<close> is the nil
  dereference the code would panic with. \<open>validateConstraint\<close> keeps it from happening.
\<close>

subsection \<open>Data\<close>

record Literal =
  LitStr :: "string option"
  LitInt :: "int option"

record Constraint =
  Field :: string
  Op :: string
  Value :: "Literal option"
  Values :: "Literal list"

record ToolPolicy =
  PolicyFields :: "string list option"

record PolicySet =
  declared :: "string list gomap"
  constraints :: "Constraint list gomap gomap"

definition OpEq :: string where "OpEq = ''eq''"
definition OpNe :: string where "OpNe = ''ne''"
definition OpLt :: string where "OpLt = ''lt''"
definition OpLte :: string where "OpLte = ''lte''"
definition OpGt :: string where "OpGt = ''gt''"
definition OpGte :: string where "OpGte = ''gte''"
definition OpIn :: string where "OpIn = ''in''"
definition OpNotIn :: string where "OpNotIn = ''not_in''"

lemmas op_defs = OpEq_def OpNe_def OpLt_def OpLte_def OpGt_def OpGte_def OpIn_def OpNotIn_def

definition numericOps :: "string \<Rightarrow> bool" where
  "numericOps op \<longleftrightarrow> op = OpLt \<or> op = OpLte \<or> op = OpGt \<or> op = OpGte"

text \<open>A constraint literal as JSON: a string, or a number whose text is an \<open>int64\<close>.\<close>

fun literal_of_json :: "json \<Rightarrow> Literal option" where
  "literal_of_json (JStr s) = Some \<lparr>LitStr = Some s, LitInt = None\<rparr>"
| "literal_of_json (JNum n) =
     (case parse_int n of None \<Rightarrow> None | Some i \<Rightarrow> Some \<lparr>LitStr = None, LitInt = Some i\<rparr>)"
| "literal_of_json _ = None"

definition literal_string :: "Literal \<Rightarrow> string" where
  "literal_string l =
     (case LitStr l of
        Some s \<Rightarrow> s
      | None \<Rightarrow> (case LitInt l of Some i \<Rightarrow> format_int i | None \<Rightarrow> []))"

subsection \<open>Reading the policy set\<close>

definition Declared :: "PolicySet \<Rightarrow> string \<Rightarrow> string list \<times> bool" where
  "Declared p tool = (case map_get (declared p) tool of Some f \<Rightarrow> (f, True) | None \<Rightarrow> ([], False))"

definition AllDeclared :: "PolicySet \<Rightarrow> string list gomap" where
  "AllDeclared p = foldl (\<lambda>out (tool, fs). map_set tool fs out) [] (declared p)"

definition Constraints :: "PolicySet \<Rightarrow> string \<Rightarrow> string \<Rightarrow> Constraint list \<times> bool" where
  "Constraints p credential tool =
     (case map_get (constraints p) credential of
        None \<Rightarrow> ([], False)
      | Some byTool \<Rightarrow> (case map_get byTool tool of Some cs \<Rightarrow> (cs, True) | None \<Rightarrow> ([], False)))"

definition ConstrainedTools :: "PolicySet \<Rightarrow> string \<Rightarrow> string list" where
  "ConstrainedTools p credential =
     sort (case map_get (constraints p) credential of None \<Rightarrow> [] | Some byTool \<Rightarrow> map fst byTool)"

subsection \<open>Evaluating a constraint\<close>

fun asInt :: "json \<Rightarrow> int option" where
  "asInt (JNum n) = parse_int n"
| "asInt _ = None"

definition literalEquals :: "Literal \<Rightarrow> json \<Rightarrow> bool" where
  "literalEquals l raw =
     (case LitStr l of
        Some s \<Rightarrow> raw = JStr s
      | None \<Rightarrow> (case LitInt l of
                   Some i \<Rightarrow> asInt raw = Some i
                 | None \<Rightarrow> False))"

definition holds :: "Constraint \<Rightarrow> json gomap \<Rightarrow> bool option" where
  "holds c args =
     (case map_get args (Field c) of
        None \<Rightarrow> Some False
      | Some raw \<Rightarrow>
          if Op c = OpIn \<or> Op c = OpNotIn then
            (let found = list_ex (\<lambda>v. literalEquals v raw) (Values c) in Some (found = (Op c = OpIn)))
          else if Op c = OpEq then
            (case Value c of None \<Rightarrow> None | Some l \<Rightarrow> Some (literalEquals l raw))
          else if Op c = OpNe then
            (case Value c of None \<Rightarrow> None | Some l \<Rightarrow> Some (\<not> literalEquals l raw))
          else
            (case asInt raw of
               None \<Rightarrow> Some False
             | Some got \<Rightarrow>
                 (case Value c of
                    None \<Rightarrow> None
                  | Some l \<Rightarrow>
                      (case LitInt l of
                         None \<Rightarrow> Some False
                       | Some want \<Rightarrow>
                           if Op c = OpLt then Some (got < want)
                           else if Op c = OpLte then Some (got \<le> want)
                           else if Op c = OpGt then Some (want < got)
                           else if Op c = OpGte then Some (want \<le> got)
                           else Some False))))"

text \<open>The rule as text: \<open>%v\<close> prints a list of strings between brackets, blank-separated.\<close>

definition describe :: "Constraint \<Rightarrow> string option" where
  "describe c =
     (if 0 < length (Values c)
      then Some (Field c @ '' '' @ Op c @ '' ['' @ join '' '' (map literal_string (Values c)) @ '']'')
      else case Value c of
             None \<Rightarrow> None
           | Some l \<Rightarrow> Some (Field c @ '' '' @ Op c @ '' '' @ literal_string l))"

fun Satisfied :: "Constraint list \<Rightarrow> json gomap \<Rightarrow> (bool \<times> string) option" where
  "Satisfied [] args = Some (True, [])"
| "Satisfied (c # cs) args =
     (case holds c args of
        None \<Rightarrow> None
      | Some True \<Rightarrow> Satisfied cs args
      | Some False \<Rightarrow> (case describe c of None \<Rightarrow> None | Some d \<Rightarrow> Some (False, d)))"

subsection \<open>Building the policy set\<close>

datatype policy_error =
    PolInvalidToolName string string
  | PolFieldsRequired string string
  | PolInvalidField string string string
  | PolDuplicateField string string string
  | PolDeclaredDifferently string
  | PolCredentialLabel string
  | PolConstraintToolName string string
  | PolUndeclaredTool string string
  | PolEmptyList string string
  | PolFieldNotDeclared string string string
  | PolNeedsValues string string string
  | PolNeedsValue string string string
  | PolNeedsInt string string string
  | PolUnknownOp string string string

definition dns_char :: "char \<Rightarrow> bool" where
  "dns_char c \<longleftrightarrow> is_lower c \<or> is_digit c"

definition dnsLabel :: "string \<Rightarrow> bool" where
  "dnsLabel s \<longleftrightarrow> (case s of [] \<Rightarrow> False
     | c # cs \<Rightarrow> dns_char c \<and> class_len (\<lambda>x. dns_char x \<or> x = CHR ''-'') 0 62 cs)"

definition toolName :: "string \<Rightarrow> bool" where
  "toolName s \<longleftrightarrow>
     class_len (\<lambda>c. is_alnum c \<or> c = CHR ''.'' \<or> c = CHR ''_'' \<or> c = CHR ''-'') 1 128 s"

definition policyField :: "string \<Rightarrow> bool" where
  "policyField s \<longleftrightarrow> class_len (\<lambda>c. is_alnum c \<or> c = CHR ''_'' \<or> c = CHR ''-'') 1 64 s"

fun sameFields :: "string list \<Rightarrow> string list \<Rightarrow> bool" where
  "sameFields [] [] = True"
| "sameFields (a # as) (b # bs) = (a = b \<and> sameFields as bs)"
| "sameFields _ _ = False"

fun containsString :: "string list \<Rightarrow> string \<Rightarrow> bool" where
  "containsString [] needle = False"
| "containsString (s # hay) needle = (s = needle \<or> containsString hay needle)"

definition validateConstraint :: "string \<Rightarrow> string \<Rightarrow> Constraint \<Rightarrow> string list \<Rightarrow> policy_error option" where
  "validateConstraint credential tool c fs =
     (if \<not> containsString fs (Field c) then Some (PolFieldNotDeclared credential tool (Field c))
      else if Op c = OpIn \<or> Op c = OpNotIn then
        (if length (Values c) = 0 \<or> Value c \<noteq> None then Some (PolNeedsValues credential tool (Field c))
         else None)
      else if Op c = OpEq \<or> Op c = OpNe \<or> Op c = OpLt \<or> Op c = OpLte \<or> Op c = OpGt \<or> Op c = OpGte then
        (case Value c of
           None \<Rightarrow> Some (PolNeedsValue credential tool (Field c))
         | Some l \<Rightarrow>
             if 0 < length (Values c) then Some (PolNeedsValue credential tool (Field c))
             else if numericOps (Op c) \<and> LitInt l = None then Some (PolNeedsInt credential tool (Field c))
             else None)
      else Some (PolUnknownOp credential tool (Op c)))"

fun check_fields :: "string \<Rightarrow> string \<Rightarrow> string list \<Rightarrow> string list \<Rightarrow> policy_error option" where
  "check_fields name tool [] seen = None"
| "check_fields name tool (f # fs) seen =
     (if \<not> policyField f then Some (PolInvalidField name tool f)
      else if f \<in> set seen then Some (PolDuplicateField name tool f)
      else check_fields name tool fs (f # seen))"

definition declare_tool ::
  "string \<Rightarrow> string \<times> ToolPolicy \<Rightarrow> PolicySet \<Rightarrow> policy_error + PolicySet" where
  "declare_tool name td p =
     (case td of (tool, decl) \<Rightarrow>
        if \<not> toolName tool then Inl (PolInvalidToolName name tool)
        else case PolicyFields decl of
               None \<Rightarrow> Inl (PolFieldsRequired name tool)
             | Some fs \<Rightarrow>
                 (case check_fields name tool fs [] of
                    Some e \<Rightarrow> Inl e
                  | None \<Rightarrow>
                      (case map_get (declared p) tool of
                         Some prev \<Rightarrow>
                           if \<not> sameFields prev fs then Inl (PolDeclaredDifferently tool)
                           else Inr (p\<lparr>declared := map_set tool fs (declared p)\<rparr>)
                       | None \<Rightarrow> Inr (p\<lparr>declared := map_set tool fs (declared p)\<rparr>))))"

definition constrain_tool ::
  "string \<Rightarrow> string \<times> Constraint list \<Rightarrow> PolicySet \<Rightarrow> policy_error + PolicySet" where
  "constrain_tool credential tr p =
     (case tr of (tool, rules) \<Rightarrow>
        if \<not> toolName tool then Inl (PolConstraintToolName credential tool)
        else case map_get (declared p) tool of
               None \<Rightarrow> Inl (PolUndeclaredTool credential tool)
             | Some fs \<Rightarrow>
                 if length rules = 0 then Inl (PolEmptyList credential tool)
                 else (case check_all (\<lambda>r. validateConstraint credential tool r fs) rules of
                         Some e \<Rightarrow> Inl e
                       | None \<Rightarrow>
                           (let byTool = (case map_get (constraints p) credential of
                                            None \<Rightarrow> [] | Some m \<Rightarrow> m)
                            in Inr (p\<lparr>constraints :=
                                 map_set credential (map_set tool rules byTool) (constraints p)\<rparr>))))"

text \<open>
  The loops over Go maps run in an unspecified order; here they run in key order. The maps
  are the \<open>tools\<close> tables of the tool upstreams and the \<open>standing_constraints\<close> table.
\<close>

definition buildPolicy ::
  "ToolPolicy gomap gomap \<Rightarrow> Constraint list gomap gomap \<Rightarrow> policy_error + PolicySet" where
  "buildPolicy toolUpstreams standing =
     and_then (foldM (\<lambda>(name, tools). foldM (declare_tool name) tools) toolUpstreams
                 \<lparr>declared = [], constraints = []\<rparr>)
       (foldM (\<lambda>(credential, byTool) p.
          if \<not> dnsLabel credential then Inl (PolCredentialLabel credential)
          else foldM (constrain_tool credential) byTool p) standing)"

subsection \<open>Evaluation\<close>

text \<open>A rule that survives the load never dereferences nil.\<close>

definition rule_ok :: "Constraint \<Rightarrow> bool" where
  "rule_ok c \<longleftrightarrow> (if Op c = OpIn \<or> Op c = OpNotIn then Values c \<noteq> [] \<and> Value c = None
     else Value c \<noteq> None \<and> Values c = [] \<and>
       (Op c = OpEq \<or> Op c = OpNe \<or> (numericOps (Op c) \<and> LitInt (the (Value c)) \<noteq> None)))"

lemma containsString_iff [simp]: "containsString hay s \<longleftrightarrow> s \<in> set hay"
  by (induction hay) auto

lemma sameFields_iff [simp]: "sameFields a b \<longleftrightarrow> a = b"
  by (induction a b rule: sameFields.induct) auto

lemma validateConstraint_ok:
  "validateConstraint cr tool c fs = None \<longleftrightarrow> Field c \<in> set fs \<and> rule_ok c"
  by (auto simp: validateConstraint_def rule_ok_def numericOps_def op_defs split: option.splits if_splits)

lemma rule_ok_holds: "rule_ok c \<Longrightarrow> \<exists>b. holds c args = Some b"
  by (auto simp: rule_ok_def holds_def Let_def op_defs numericOps_def split: option.splits if_splits)

lemma rule_ok_describe: "rule_ok c \<Longrightarrow> \<exists>d. describe c = Some d"
  by (auto simp: rule_ok_def describe_def op_defs split: option.splits if_splits)

lemma Satisfied_total: "(\<forall>c \<in> set cs. rule_ok c) \<Longrightarrow> \<exists>b why. Satisfied cs args = Some (b, why)"
proof (induction cs)
  case (Cons c cs)
  then obtain b d where "holds c args = Some b" "describe c = Some d"
    using rule_ok_holds rule_ok_describe by (meson list.set_intros(1))
  then show ?case using Cons by (cases b) auto
qed auto

lemma Satisfied_True_iff:
  "Satisfied cs args = Some (True, why) \<longleftrightarrow> why = [] \<and> (\<forall>c \<in> set cs. holds c args = Some True)"
  by (induction cs) (auto split: option.splits bool.splits)

lemma Satisfied_False_first:
  assumes "Satisfied cs args = Some (False, why)"
  shows "\<exists>pre c post. cs = pre @ c # post \<and> (\<forall>x \<in> set pre. holds x args = Some True)
    \<and> holds c args = Some False \<and> describe c = Some why"
  using assms
proof (induction cs)
  case (Cons c cs)
  then consider "holds c args = Some True" "Satisfied cs args = Some (False, why)"
    | "holds c args = Some False" "describe c = Some why"
    by (auto split: option.splits bool.splits)
  then show ?case
  proof cases
    case 1
    then obtain pre c' post where "cs = pre @ c' # post" "\<forall>x \<in> set pre. holds x args = Some True"
      "holds c' args = Some False" "describe c' = Some why" using Cons.IH by blast
    then show ?thesis using 1 by (intro exI [of _ "c # pre"] exI [of _ c'] exI [of _ post]) auto
  next
    case 2
    then show ?thesis by (intro exI [of _ "[]"] exI [of _ c] exI [of _ cs]) simp
  qed
qed simp

lemma holds_missing: "map_get args (Field c) = None \<Longrightarrow> holds c args = Some False"
  by (simp add: holds_def)

text \<open>A comparison holds only of an integer argument that is within the bound.\<close>

definition op_rel :: "string \<Rightarrow> int \<Rightarrow> int \<Rightarrow> bool" where
  "op_rel op got want \<longleftrightarrow> (op = OpLt \<and> got < want) \<or> (op = OpLte \<and> got \<le> want)
     \<or> (op = OpGt \<and> got > want) \<or> (op = OpGte \<and> got \<ge> want)"

lemma holds_numeric:
  assumes "numericOps (Op c)"
  shows "holds c args = Some True \<longleftrightarrow>
    (\<exists>raw got l want. map_get args (Field c) = Some raw \<and> asInt raw = Some got \<and>
       Value c = Some l \<and> LitInt l = Some want \<and> op_rel (Op c) got want)"
  using assms by (auto simp: holds_def numericOps_def op_rel_def op_defs split: option.splits)

subsection \<open>What a policy set that was built guarantees\<close>

text \<open>Every stored rule list is non-empty, its rules are well formed and name declared fields.\<close>

definition policy_wf :: "PolicySet \<Rightarrow> bool" where
  "policy_wf p \<longleftrightarrow> (\<forall>credential byTool tool cs. map_get (constraints p) credential = Some byTool \<longrightarrow>
     map_get byTool tool = Some cs \<longrightarrow>
     cs \<noteq> [] \<and> (\<exists>fs. map_get (declared p) tool = Some fs \<and> (\<forall>c \<in> set cs. Field c \<in> set fs \<and> rule_ok c)))"

lemma declare_tool_constraints:
  "declare_tool name td p = Inr p' \<Longrightarrow> constraints p' = constraints p"
  by (auto simp: declare_tool_def split: prod.splits if_splits option.splits)

lemma constrain_tool_wf:
  assumes "constrain_tool credential tr p = Inr p'" "policy_wf p"
  shows "policy_wf p'"
proof -
  obtain tool rules fs where tr: "tr = (tool, rules)" and fs: "map_get (declared p) tool = Some fs"
    and ne: "rules \<noteq> []" and ok: "check_all (\<lambda>r. validateConstraint credential tool r fs) rules = None"
    and p': "p' = p\<lparr>constraints := map_set credential (map_set tool rules
      (case map_get (constraints p) credential of None \<Rightarrow> [] | Some m \<Rightarrow> m)) (constraints p)\<rparr>"
    using assms(1) by (cases tr) (auto simp: constrain_tool_def Let_def split: if_splits option.splits)
  have "\<forall>c \<in> set rules. Field c \<in> set fs \<and> rule_ok c"
    using ok by (simp add: check_all_None validateConstraint_ok)
  then show ?thesis using assms(2) fs ne unfolding policy_wf_def p'
    by (auto split: option.splits if_splits)
qed

lemma buildPolicy_wf:
  assumes "buildPolicy ups standing = Inr p"
  shows "policy_wf p"
proof -
  obtain p0 where p0: "foldM (\<lambda>(name, tools). foldM (declare_tool name) tools) ups
      \<lparr>declared = [], constraints = []\<rparr> = Inr p0"
    and p: "foldM (\<lambda>(credential, byTool) p. if \<not> dnsLabel credential then Inl (PolCredentialLabel credential)
          else foldM (constrain_tool credential) byTool p) standing p0 = Inr p"
    using assms by (auto simp: buildPolicy_def)
  have "constraints p0 = []"
    by (rule foldM_keeps [OF p0]) (auto elim!: foldM_keeps simp: declare_tool_constraints)
  then have "policy_wf p0" by (simp add: policy_wf_def)
  then show ?thesis
    by (rule foldM_keeps [OF p])
       (auto split: if_splits elim!: foldM_keeps intro: constrain_tool_wf)
qed

end
