(* ===== verification/Clock.thy ===== *)
theory Clock
  imports GoNum
begin

text \<open>
  Time. An instant is the number of nanoseconds since the Unix epoch, an \<open>int\<close>; a duration
  is a number of nanoseconds. The civil calendar is the proleptic Gregorian one, computed
  over 400-year cycles whose years begin on 1 March. Also here: \<open>strconv.Quote\<close>, which the
  messages that print instants print names with.
\<close>

definition second :: int where "second = 1000000000"
definition minute :: int where "minute = 60 * second"
definition hour :: int where "hour = 60 * minute"
definition day :: int where "day = 24 * hour"

lemmas duration_defs = second_def minute_def hour_def day_def

subsection \<open>The calendar\<close>

record civil =
  cYear :: int
  cMonth :: int
  cDay :: int

definition civil_of_days :: "int \<Rightarrow> civil" where
  "civil_of_days days =
     (let z = days + 719468;
          era = z div 146097; doe = z mod 146097;
          c = min 3 (doe div 36524); r = doe - c * 36524;
          q = r div 1461; s = r mod 1461;
          y = min 3 (s div 365); doy = s - 365 * y;
          mp = (5 * doy + 2) div 153;
          m = (if mp < 10 then mp + 3 else mp - 9)
      in \<lparr>cYear = era * 400 + 100 * c + 4 * q + y + (if m \<le> 2 then 1 else 0),
          cMonth = m, cDay = doy - (153 * mp + 2) div 5 + 1\<rparr>)"

definition days_of_civil :: "int \<Rightarrow> int \<Rightarrow> int \<Rightarrow> int" where
  "days_of_civil year m d =
     (let y = (if m \<le> 2 then year - 1 else year);
          era = y div 400; yoe = y mod 400;
          mp = (if m > 2 then m - 3 else m + 9);
          doy = (153 * mp + 2) div 5 + d - 1;
          doe = yoe * 365 + yoe div 4 - yoe div 100 + doy
      in era * 146097 + doe - 719468)"

definition day_of :: "int \<Rightarrow> int" where
  "day_of t = t div day"

text \<open>\<open>meter.MonthStartUTC\<close>: midnight UTC on the first of the month.\<close>

definition MonthStartUTC :: "int \<Rightarrow> int" where
  "MonthStartUTC now =
     (let u = civil_of_days (day_of now) in days_of_civil (cYear u) (cMonth u) 1 * day)"

lemma civil_round_trip:
  "days_of_civil (cYear (civil_of_days n)) (cMonth (civil_of_days n)) (cDay (civil_of_days n)) = n"
  and civil_ranges: "1 \<le> cMonth (civil_of_days n)" "cMonth (civil_of_days n) \<le> 12"
    "1 \<le> cDay (civil_of_days n)" "cDay (civil_of_days n) \<le> 31"
proof -
  define z where "z = n + 719468"
  define era doe where "era = z div 146097" and "doe = z mod 146097"
  define c r where "c = min 3 (doe div 36524)" and "r = doe - c * 36524"
  define q s where "q = r div 1461" and "s = r mod 1461"
  define y doy where "y = min 3 (s div 365)" and "doy = s - 365 * y"
  define mp where "mp = (5 * doy + 2) div 153"
  define m where "m = (if mp < 10 then mp + 3 else mp - 9)"
  have doe: "0 \<le> doe" "doe < 146097" by (simp_all add: doe_def)
  have c: "0 \<le> c" "c \<le> 3" "0 \<le> r" "c < 3 \<Longrightarrow> r < 36524" "r \<le> 36524"
    using doe unfolding c_def r_def by (auto simp: min_def)
  have q: "0 \<le> q" "q \<le> 24" "0 \<le> s" "s < 1461" "r = 1461 * q + s"
    using c unfolding q_def s_def by auto
  have y: "0 \<le> y" "y \<le> 3" "0 \<le> doy" "doy \<le> 365" using q unfolding y_def doy_def by (auto simp: min_def)
  have mp: "0 \<le> mp" "mp \<le> 11" using y unfolding mp_def by auto
  have civil: "civil_of_days n = \<lparr>cYear = era * 400 + 100 * c + 4 * q + y + (if m \<le> 2 then 1 else 0),
      cMonth = m, cDay = doy - (153 * mp + 2) div 5 + 1\<rparr>"
    unfolding civil_of_days_def Let_def z_def [symmetric] era_def [symmetric] doe_def [symmetric]
      c_def [symmetric] r_def [symmetric] q_def [symmetric] s_def [symmetric] y_def [symmetric]
      doy_def [symmetric] mp_def [symmetric] m_def [symmetric] ..
  show "1 \<le> cMonth (civil_of_days n)" "cMonth (civil_of_days n) \<le> 12"
    using mp unfolding civil by (auto simp: m_def)
  show "1 \<le> cDay (civil_of_days n)" "cDay (civil_of_days n) \<le> 31"
    unfolding civil mp_def using y by (auto simp: field_simps)
  have mp2: "(if m > 2 then m - 3 else m + 9) = mp" and m2: "m \<le> 2 \<longleftrightarrow> mp \<ge> 10"
    using mp by (auto simp: m_def)
  define yoe where "yoe = 100 * c + 4 * q + y"
  have yoe: "0 \<le> yoe" "yoe < 400" using c(1,2) q(1,2) y(1,2) unfolding yoe_def by linarith+
  have "yoe div 4 = 25 * c + q" "yoe div 100 = c"
    using c(1,2) q(1,2) y(1,2) unfolding yoe_def by linarith+
  note yoe = yoe this
  have e: "(era * 400 + yoe) div 400 = era" "(era * 400 + yoe) mod 400 = yoe" using yoe(1,2) by auto
  have yy: "(if m \<le> 2 then era * 400 + 100 * c + 4 * q + y + (if m \<le> 2 then 1 else 0) - 1
      else era * 400 + 100 * c + 4 * q + y + (if m \<le> 2 then 1 else 0)) = era * 400 + yoe"
    by (simp add: yoe_def)
  have dd: "(153 * mp + 2) div 5 + (doy - (153 * mp + 2) div 5 + 1) - 1 = doy" by linarith
  have "days_of_civil (cYear (civil_of_days n)) (cMonth (civil_of_days n)) (cDay (civil_of_days n)) =
      era * 146097 + (yoe * 365 + (25 * c + q) - c + doy) - 719468"
    by (simp only: civil days_of_civil_def Let_def civil.select_convs mp2 yy e yoe(3,4) dd)
  also have "yoe * 365 + (25 * c + q) - c + doy = doe"
    using q(5) unfolding yoe_def doy_def r_def by simp
  also have "era * 146097 + doe = z" unfolding era_def doe_def by simp
  finally show "days_of_civil (cYear (civil_of_days n)) (cMonth (civil_of_days n)) (cDay (civil_of_days n)) = n"
    by (simp add: z_def)
qed

lemma days_of_civil_day: "days_of_civil y m d = days_of_civil y m 1 + (d - 1)"
  by (simp add: days_of_civil_def Let_def)

text \<open>The month window contains the instant it is computed from and is at most 31 days behind it.\<close>

lemma MonthStartUTC_window: "MonthStartUTC now \<le> now" "now < MonthStartUTC now + 31 * day"
proof -
  define u where "u = civil_of_days (day_of now)"
  have start: "MonthStartUTC now = (day_of now - (cDay u - 1)) * day"
    using civil_round_trip [of "day_of now"] days_of_civil_day [of "cYear u" "cMonth u" "cDay u"]
    by (simp add: MonthStartUTC_def Let_def u_def)
  have d: "0 < day" by (simp add: duration_defs)
  have "day_of now * day = now - now mod day" by (simp add: day_of_def minus_mod_eq_div_mult)
  then have "day_of now * day \<le> now" "now < day_of now * day + day"
    using pos_mod_sign [OF d, of now] pos_mod_bound [OF d, of now] by linarith+
  moreover have "0 \<le> (cDay u - 1) * day" "(cDay u - 1) * day \<le> 30 * day"
    using civil_ranges(3,4) [of "day_of now"] d by (simp_all add: u_def)
  moreover have "MonthStartUTC now = day_of now * day - (cDay u - 1) * day"
    unfolding start by (rule left_diff_distrib)
  ultimately show "MonthStartUTC now \<le> now" "now < MonthStartUTC now + 31 * day" by linarith+
qed

subsection \<open>RFC 3339\<close>

definition pad :: "nat \<Rightarrow> int \<Rightarrow> string" where
  "pad w i = (let s = format_nat (nat i) in replicate (w - length s) (CHR ''0'') @ s)"

text \<open>\<open>t.UTC().Format(time.RFC3339)\<close>, for years 0 to 9999.\<close>

definition format_rfc3339 :: "int \<Rightarrow> string" where
  "format_rfc3339 t =
     (let u = civil_of_days (day_of t); s = t mod day div second in
      pad 4 (cYear u) @ ''-'' @ pad 2 (cMonth u) @ ''-'' @ pad 2 (cDay u) @ ''T'' @
      pad 2 (s div 3600) @ '':'' @ pad 2 (s div 60 mod 60) @ '':'' @ pad 2 (s mod 60) @ ''Z'')"

subsection \<open>Quoting\<close>

definition is_print :: "(nat \<Rightarrow> bool) \<Rightarrow> nat \<Rightarrow> bool" where
  "is_print uprint r \<longleftrightarrow> (if r < 128 then 32 \<le> r \<and> r < 127 else uprint r)"

fun hex_pad :: "nat \<Rightarrow> nat \<Rightarrow> string" where
  "hex_pad 0 r = []"
| "hex_pad (Suc w) r = hex_pad w (r div 16) @ [hex_digit (r mod 16)]"

definition quote_chunk :: "(nat \<Rightarrow> bool) \<Rightarrow> nat \<times> string \<Rightarrow> string" where
  "quote_chunk uprint ch = (case ch of (r, b) \<Rightarrow>
     if r = 65533 \<and> length b = 1 then CHR 0x5C # CHR ''x'' # hex_pad 2 (code (hd b))
     else if r = 34 then [CHR 0x5C, CHR 0x22]
     else if r = 92 then [CHR 0x5C, CHR 0x5C]
     else if is_print uprint r then b
     else if r = 7 then CHR 0x5C # ''a''
     else if r = 8 then CHR 0x5C # ''b''
     else if r = 12 then CHR 0x5C # ''f''
     else if r = 10 then CHR 0x5C # ''n''
     else if r = 13 then CHR 0x5C # ''r''
     else if r = 9 then CHR 0x5C # ''t''
     else if r = 11 then CHR 0x5C # ''v''
     else if r < 32 \<or> r = 127 then CHR 0x5C # CHR ''x'' # hex_pad 2 r
     else if r < 65536 then CHR 0x5C # CHR ''u'' # hex_pad 4 r
     else CHR 0x5C # CHR ''U'' # hex_pad 8 r)"

definition quote :: "(nat \<Rightarrow> bool) \<Rightarrow> string \<Rightarrow> string" where
  "quote uprint s = CHR 0x22 # concat (map (quote_chunk uprint) (chunks s)) @ [CHR 0x22]"

end
