(* ===== verification/Digest.thy ===== *)
theory Digest
  imports Canon Policy Clock
begin

text \<open>
  Component \<^verbatim>\<open>plane/internal/gateway/digest.go\<close>: what an approval binds. The digest is the
  hex SHA-256 of the canonical tree of the bound arguments, the summary the line a human
  reads. SHA-256 is the parameter \<open>sha\<close>; whether a rune beyond ASCII is printable (the
  Unicode tables) is the parameter \<open>uprint\<close>.
\<close>

definition maxSummaryValue :: nat where
  "maxSummaryValue = 64"

definition maxSummary :: nat where
  "maxSummary = 240"

record CallBinding =
  cbDigest :: string
  cbSummary :: string
  cbDeclared :: bool

definition sanitize :: "(nat \<Rightarrow> bool) \<Rightarrow> string \<Rightarrow> string" where
  "sanitize uprint s = of_runes (List.map_filter
     (\<lambda>r. if r = 10 \<or> r = 13 \<or> r = 9 then Some 32
          else if \<not> is_print uprint r then None else Some r) (runes s))"

definition ellipsis :: string where
  "ellipsis = [char_of (226::nat), char_of (128::nat), char_of (166::nat)]"

function clip_runes :: "nat list \<Rightarrow> nat \<Rightarrow> nat list" where
  "clip_runes r n =
     (if r \<noteq> [] \<and> length (of_runes r) + length ellipsis > n then clip_runes (butlast r) n else r)"
  by pat_completeness auto
termination by (relation "measure (\<lambda>(r, n). length r)") auto

declare clip_runes.simps [simp del]

definition clipTo :: "string \<Rightarrow> nat \<Rightarrow> string" where
  "clipTo s n = (if length s \<le> n then s else of_runes (clip_runes (runes s) n) @ ellipsis)"

definition clip :: "string \<Rightarrow> string" where
  "clip s = clipTo s maxSummaryValue"

fun renderValue :: "(nat \<Rightarrow> bool) \<Rightarrow> json \<Rightarrow> string" where
  "renderValue uprint (JStr s) = clip (sanitize uprint s)"
| "renderValue uprint (JNum n) = clip n"
| "renderValue uprint (JBool b) = (if b then ''true'' else ''false'')"
| "renderValue uprint JNull = ''null''"
| "renderValue uprint (JObj _) = ''(object)''"
| "renderValue uprint (JArr _) = ''(list)''"

definition summarize ::
  "(nat \<Rightarrow> bool) \<Rightarrow> string \<Rightarrow> json gomap \<Rightarrow> string list \<Rightarrow> bool \<Rightarrow> string" where
  "summarize uprint tool args fs isDeclared =
     (if \<not> isDeclared then
        tool @ '': (this tool declares no policy-relevant arguments; the approval binds the whole call)''
      else if length fs = 0 then tool @ '': (no policy-relevant arguments)''
      else
        (let parts = List.map_filter (\<lambda>f. case map_get args f of
               None \<Rightarrow> None
             | Some v \<Rightarrow> Some (f @ '' '' @ renderValue uprint v)) fs
         in if length parts = 0 then tool @ '': (no declared argument present)''
            else clipTo (tool @ '': '' @ join '', '' parts) maxSummary))"

text \<open>The arguments an approval binds, and the tree that is hashed.\<close>

definition bound_args :: "json gomap \<Rightarrow> string list \<Rightarrow> bool \<Rightarrow> json gomap" where
  "bound_args args fs isDeclared =
     (if isDeclared then
        fold (\<lambda>f m. case map_get args f of Some v \<Rightarrow> map_set f v m | None \<Rightarrow> m) fs []
      else args)"

definition bind_payload :: "string \<Rightarrow> json gomap \<Rightarrow> string list \<Rightarrow> bool \<Rightarrow> json" where
  "bind_payload tool args fs isDeclared =
     JObj (map_set ''args'' (JObj (bound_args args fs isDeclared))
            (map_set ''bind'' (JStr (if isDeclared then ''declared'' else ''all''))
              (map_set ''tool'' (JStr tool) [])))"

definition Bind ::
  "(string \<Rightarrow> string) \<Rightarrow> (nat \<Rightarrow> bool) \<Rightarrow> string \<Rightarrow> json gomap \<Rightarrow> string list \<Rightarrow> bool \<Rightarrow> CallBinding" where
  "Bind sha uprint tool args fs isDeclared =
     \<lparr>cbDigest = hex_encode (sha (marshalCanonical (bind_payload tool args fs isDeclared))),
      cbSummary = summarize uprint tool args fs isDeclared,
      cbDeclared = isDeclared\<rparr>"

datatype bind_error = BindCanon canon_error | BindNotObject

definition BindArguments ::
  "(string \<Rightarrow> string) \<Rightarrow> (nat \<Rightarrow> bool) \<Rightarrow> string \<Rightarrow> string \<Rightarrow> string list \<Rightarrow> bool \<Rightarrow> bind_error + CallBinding" where
  "BindArguments sha uprint tool raw fs isDeclared =
     (if length (trim_space raw) > 0 then
        (case canonicalize (''{\"params\":{\"arguments\":'' @ raw @ ''}}'') of
           Inl e \<Rightarrow> Inl (BindCanon e)
         | Inr (_, msg) \<Rightarrow>
             (case argumentsOf msg of
                None \<Rightarrow> Inl BindNotObject
              | Some args \<Rightarrow> Inr (Bind sha uprint tool args fs isDeclared)))
      else Inr (Bind sha uprint tool [] fs isDeclared))"

subsection \<open>Clipping\<close>

lemma clip_runes_prefix: "\<exists>k. clip_runes r n = take k r"
proof (induction r n rule: clip_runes.induct)
  case (1 r n)
  show ?case
  proof (cases "r \<noteq> [] \<and> length (of_runes r) + length ellipsis > n")
    case True
    then obtain k where "clip_runes (butlast r) n = take k (butlast r)" using 1 by blast
    then show ?thesis using True by (subst clip_runes.simps) (auto simp: butlast_conv_take min_def)
  next
    case False
    then have "clip_runes r n = take (length r) r" by (subst clip_runes.simps) auto
    then show ?thesis by blast
  qed
qed

lemma clip_runes_bound: "clip_runes r n = [] \<or> length (of_runes (clip_runes r n)) + length ellipsis \<le> n"
proof (induction r n rule: clip_runes.induct)
  case (1 r n)
  then show ?case
    by (cases "r \<noteq> [] \<and> length (of_runes r) + length ellipsis > n")
       (auto simp: clip_runes.simps [of r n])
qed

lemma clipTo_length: "3 \<le> n \<Longrightarrow> length (clipTo s n) \<le> n"
  using clip_runes_bound [of "runes s" n] by (auto simp: clipTo_def ellipsis_def)

lemma clipTo_prefix: "clipTo s n = s \<or> (\<exists>k. clipTo s n = of_runes (take k (runes s)) @ ellipsis)"
  using clip_runes_prefix [of "runes s" n] by (auto simp: clipTo_def)

subsection \<open>What the binding depends on\<close>

lemma map_get_bound_declared:
  "map_get (fold (\<lambda>f m. case map_get args f of Some v \<Rightarrow> map_set f v m | None \<Rightarrow> m) fs m0) k =
     (if k \<in> set fs \<and> map_get args k \<noteq> None then map_get args k else map_get m0 k)"
  by (induction fs arbitrary: m0) (auto split: option.splits)

lemma bound_args_wf: "map_wf args \<Longrightarrow> map_wf (bound_args args fs d)"
proof -
  have "map_wf (fold (\<lambda>f m. case map_get args f of Some v \<Rightarrow> map_set f v m | None \<Rightarrow> m) fs m0)"
    if "map_wf m0" for m0 :: "json gomap"
    using that by (induction fs arbitrary: m0) (auto simp: map_wf_set split: option.splits)
  then show "map_wf args \<Longrightarrow> ?thesis" by (simp add: bound_args_def)
qed

lemma map_get_bound_args:
  "map_get (bound_args args fs d) k = (if d \<longrightarrow> k \<in> set fs then map_get args k else None)"
  unfolding bound_args_def by (auto simp: map_get_bound_declared)

text \<open>Only declared fields of a declaring tool reach the digest and the summary.\<close>

lemma Bind_declared_only:
  assumes "\<And>f. f \<in> set fs \<Longrightarrow> map_get args f = map_get args' f"
  shows "Bind sha uprint tool args fs True = Bind sha uprint tool args' fs True"
proof -
  have "fold (\<lambda>f m. case map_get args f of Some v \<Rightarrow> map_set f v m | None \<Rightarrow> m) fs m0 =
      fold (\<lambda>f m. case map_get args' f of Some v \<Rightarrow> map_set f v m | None \<Rightarrow> m) fs m0" for m0
    using assms by (intro fold_cong) auto
  moreover have "List.map_filter (\<lambda>f. case map_get args f of None \<Rightarrow> None | Some v \<Rightarrow> Some (f @ '' '' @ renderValue uprint v)) fs =
      List.map_filter (\<lambda>f. case map_get args' f of None \<Rightarrow> None | Some v \<Rightarrow> Some (f @ '' '' @ renderValue uprint v)) fs"
    using assms by (induction fs) (auto split: option.splits)
  ultimately show ?thesis by (simp add: Bind_def bind_payload_def bound_args_def summarize_def)
qed

subsection \<open>Equal digests mean equal transactions\<close>

text \<open>The hypothesis on SHA-256: the two payloads do not collide.\<close>

definition no_collision :: "(string \<Rightarrow> string) \<Rightarrow> string \<Rightarrow> string \<Rightarrow> bool" where
  "no_collision sha a b \<longleftrightarrow> (sha a = sha b \<longrightarrow> a = b)"

lemma json_ok_map_get: "json_ok (JObj m) \<Longrightarrow> map_get m k = Some v \<Longrightarrow> utf8_valid k \<and> json_ok v"
  unfolding map_get_def by (auto simp: list_all_iff dest: map_of_SomeD)

lemma json_ok_map_set:
  "json_ok (JObj m) \<Longrightarrow> utf8_valid k \<Longrightarrow> json_ok v \<Longrightarrow> json_ok (JObj (map_set k v m))"
  by (induction k v m rule: map_set.induct) auto

lemma json_ok_bound_args: "json_ok (JObj args) \<Longrightarrow> json_ok (JObj (bound_args args fs d))"
proof -
  assume ok: "json_ok (JObj args)"
  have "json_ok (JObj (fold (\<lambda>f m. case map_get args f of Some v \<Rightarrow> map_set f v m | None \<Rightarrow> m) fs m0))"
    if "json_ok (JObj m0)" for m0
    using that
  proof (induction fs arbitrary: m0)
    case (Cons f fs)
    then show ?case using json_ok_map_get [OF ok, of f] json_ok_map_set [of m0 f]
      by (cases "map_get args f") simp_all
  qed simp
  then show ?thesis using ok by (simp add: bound_args_def)
qed

lemma utf8_valid_ascii: "list_all (\<lambda>c. code c < 128) s \<Longrightarrow> utf8_valid s"
  by (induction s) (simp_all add: utf8_valid_Cons_ascii)

lemma json_ok_bind_payload:
  assumes "utf8_valid tool" "json_ok (JObj args)"
  shows "json_ok (bind_payload tool args fs d)"
proof -
  have "utf8_valid ''tool''" "utf8_valid ''bind''" "utf8_valid ''args''" "utf8_valid ''declared''" "utf8_valid ''all''"
    by (rule utf8_valid_ascii; simp)+
  moreover have "json_ok (JObj (bound_args args fs d))" by (rule json_ok_bound_args [OF assms(2)])
  ultimately show ?thesis unfolding bind_payload_def using assms(1)
    by (intro json_ok_map_set) (simp_all del: map_set.simps)
qed

lemma bind_payload_inj:
  assumes "bind_payload tool args fs d = bind_payload tool' args' fs' d'"
  shows "tool = tool'" "d = d'" "bound_args args fs d = bound_args args' fs' d'"
proof -
  let ?m = "\<lambda>t a f dd. map_set ''args'' (JObj (bound_args a f dd))
            (map_set ''bind'' (JStr (if dd then ''declared'' else ''all'')) (map_set ''tool'' (JStr t) []))"
  have eq: "?m tool args fs d = ?m tool' args' fs' d'"
    using assms unfolding bind_payload_def by blast
  have g: "map_get (?m t a f dd) ''tool'' = Some (JStr t)"
    "map_get (?m t a f dd) ''bind'' = Some (JStr (if dd then ''declared'' else ''all''))"
    "map_get (?m t a f dd) ''args'' = Some (JObj (bound_args a f dd))" for t a f dd
    by (simp_all del: map_set.simps)
  show "tool = tool'"
    using g(1) [where t = tool and a = args and f = fs and dd = d]
      g(1) [where t = tool' and a = args' and f = fs' and dd = d'] unfolding eq by simp
  have "JStr (if d then ''declared'' else ''all'') = JStr (if d' then ''declared'' else ''all'')"
    using g(2) [where t = tool and a = args and f = fs and dd = d]
      g(2) [where t = tool' and a = args' and f = fs' and dd = d'] unfolding eq by simp
  then show "d = d'" by (cases d; cases d') simp_all
  show "bound_args args fs d = bound_args args' fs' d'"
    using g(3) [where t = tool and a = args and f = fs and dd = d]
      g(3) [where t = tool' and a = args' and f = fs' and dd = d'] unfolding eq by simp
qed

lemma digest_inj:
  assumes "json_ok (JObj args)" "json_ok (JObj args')" "utf8_valid tool" "utf8_valid tool'"
    and "no_collision sha (marshalCanonical (bind_payload tool args fs d))
           (marshalCanonical (bind_payload tool' args' fs' d'))"
    and "cbDigest (Bind sha uprint tool args fs d) = cbDigest (Bind sha uprint tool' args' fs' d')"
  shows "tool = tool' \<and> d = d' \<and> bound_args args fs d = bound_args args' fs' d'"
proof -
  have "sha (marshalCanonical (bind_payload tool args fs d)) = sha (marshalCanonical (bind_payload tool' args' fs' d'))"
    using assms(6) hex_encode_inj by (simp add: Bind_def)
  then have "render (bind_payload tool args fs d) = render (bind_payload tool' args' fs' d')"
    using assms(5) by (simp add: no_collision_def marshalCanonical_def)
  then have "bind_payload tool args fs d = bind_payload tool' args' fs' d'"
    by (intro render_inj json_ok_bind_payload assms(1-4))
  from bind_payload_inj [OF this] show ?thesis by simp
qed

end
