(* ===== verification/ArgumentProps.thy ===== *)
theory ArgumentProps
  imports Digest
begin

text \<open>
  What the argument pipeline of the gateway guarantees, from \<^verbatim>\<open>canon.go\<close> (one tree per
  message) through \<^verbatim>\<open>config/policy.go\<close> (standing constraints) and \<^verbatim>\<open>digest.go\<close> (what an
  approval binds), and the arithmetic of \<^verbatim>\<open>pricing.go\<close>. Each property is stated over the
  definitions of those components and rests on their lemmas.
\<close>

subsection \<open>Canonical messages\<close>

text \<open>
  C6: a request body is accepted exactly when its lexemes are those of one object document
  with no duplicated key at any depth, at most 32 levels and at most 20000 nodes; the tree
  handed on is then that document's canonical tree and the bytes are its rendering.
\<close>

theorem canonicalize_accepts_exactly:
  "canonicalize body = Inr (out, msg) \<longleftrightarrow>
     (\<exists>ms. lex body = doc_lexemes (JObj ms) \<and> admissible (JObj ms) \<and>
           JObj msg = canon (JObj ms) \<and> out = marshalCanonical (JObj msg))"
  unfolding marshalCanonical_def by (rule canonicalize_characterised)

text \<open>
  C26: the bytes sent upstream canonicalise to themselves and to the same tree, so what the
  policy evaluated is what a second reader of the forwarded bytes sees.
\<close>

theorem forwarded_bytes_are_canonical:
  assumes "canonicalize body = Inr (out, msg)"
  shows "canonicalize out = Inr (out, msg)"
  by (rule canonicalize_fixpoint [OF assms])

theorem forwarded_bytes_are_canonical_witness:
  "canonicalize ''{\"a\":7,\"b\":-1}'' =
     Inr (''{\"a\":7,\"b\":-1}'', [(''a'', JNum ''7''), (''b'', JNum ''-1'')])"
proof -
  have "canonicalize ''{ \"b\" : -1,\"a\": 7 }'' =
      Inr (''{\"a\":7,\"b\":-1}'', [(''a'', JNum ''7''), (''b'', JNum ''-1'')])"
    by (rule canonicalize_run [where ms = "[(''b'', JNum ''-1''), (''a'', JNum ''7'')]"])
       (simp_all add: lex_eval render_eval admissible_def maxCanonDepth_def maxCanonNodes_def)
  from forwarded_bytes_are_canonical [OF this] show ?thesis .
qed

text \<open>
  The recursive walk always returns a verdict: two units of fuel per lexeme are enough,
  whatever the body.
\<close>

theorem canonicalize_never_out_of_fuel:
  "canonicalize body \<noteq> Inl OutOfFuel"
proof -
  let ?d = "new_decoder body"
  have "decodeCanonical (2 * length (lexemes ?d) + 1) ?d 1 0 \<noteq> Inl OutOfFuel"
    by (rule decode_fuel(1)) simp
  then show ?thesis
    by (auto simp: canonicalize_def Let_def split: sum.splits prod.splits json_error.splits json.splits)
qed

subsection \<open>What an approval binds\<close>

lemma arguments_ok:
  assumes "canonicalize body = Inr (out, msg)" "argumentsOf msg = Some args"
  shows "json_ok (JObj args)" "map_wf args" "utf8_valid (toolNameOf msg)"
proof -
  have ok: "json_ok (JObj msg)" and sorted: "sorted_json (JObj msg)"
    using canonicalize_tree [OF assms(1)] sorted_json_canon [of "JObj msg"] by simp_all
  obtain params where p: "map_get msg ''params'' = Some (JObj params)"
    using assms(2) by (auto simp: argumentsOf_def split: option.splits json.splits)
  note pok = json_ok_map_get [OF ok p] sorted_json_map_get [OF sorted p]
  have args: "args = [] \<or> map_get params ''arguments'' = Some (JObj args)"
    using assms(2) p by (auto simp: argumentsOf_def split: option.splits json.splits)
  show "json_ok (JObj args)"
    using args pok(1) json_ok_map_get [of params "''arguments''" "JObj args"] by auto
  show "map_wf args"
    using args pok(2) sorted_json_map_get [of params "''arguments''" "JObj args"] by auto
  show "utf8_valid (toolNameOf msg)"
    using p pok(1) json_ok_map_get [of params "''name''"]
    by (auto simp: toolNameOf_def split: option.splits json.splits)
qed

text \<open>
  C5: unless SHA-256 collides on the two payloads, two tool calls have the same approval
  digest exactly when they name the same tool and agree on every argument the approval
  covers: the declared fields of a declaring tool, every argument of any other. Nothing else
  in the message, its spelling or its key order reaches the digest.
\<close>

theorem approval_digest_identifies_the_call:
  assumes "canonicalize body = Inr (out, msg)" "argumentsOf msg = Some args"
    and "canonicalize body' = Inr (out', msg')" "argumentsOf msg' = Some args'"
    and "no_collision sha (marshalCanonical (bind_payload (toolNameOf msg) args fs d))
           (marshalCanonical (bind_payload (toolNameOf msg') args' fs d))"
  shows "cbDigest (Bind sha uprint (toolNameOf msg) args fs d) =
      cbDigest (Bind sha uprint (toolNameOf msg') args' fs d)
    \<longleftrightarrow> toolNameOf msg = toolNameOf msg' \<and>
      (\<forall>f. (d \<longrightarrow> f \<in> set fs) \<longrightarrow> map_get args f = map_get args' f)"
proof -
  note ok = arguments_ok [OF assms(1,2)] and ok' = arguments_ok [OF assms(3,4)]
  have eq: "bound_args args fs d = bound_args args' fs d \<longleftrightarrow>
      (\<forall>f. (d \<longrightarrow> f \<in> set fs) \<longrightarrow> map_get args f = map_get args' f)"
  proof
    assume e: "bound_args args fs d = bound_args args' fs d"
    show "\<forall>f. (d \<longrightarrow> f \<in> set fs) \<longrightarrow> map_get args f = map_get args' f"
    proof (intro allI impI)
      fix f assume "d \<longrightarrow> f \<in> set fs"
      then show "map_get args f = map_get args' f"
        using arg_cong [OF e, of "\<lambda>m. map_get m f"] by (simp add: map_get_bound_args)
    qed
  next
    assume "\<forall>f. (d \<longrightarrow> f \<in> set fs) \<longrightarrow> map_get args f = map_get args' f"
    then show "bound_args args fs d = bound_args args' fs d"
      by (intro map_wf_ext bound_args_wf ok(2) ok'(2)) (auto simp: map_get_bound_args)
  qed
  have "cbDigest (Bind sha uprint (toolNameOf msg) args fs d) =
      cbDigest (Bind sha uprint (toolNameOf msg') args' fs d)
    \<longleftrightarrow> toolNameOf msg = toolNameOf msg' \<and> bound_args args fs d = bound_args args' fs d"
    using digest_inj [OF ok(1) ok'(1) ok(3) ok'(3) assms(5)]
    by (auto simp: Bind_def bind_payload_def)
  then show ?thesis unfolding eq by simp
qed

theorem approval_digest_identifies_the_call_witness:
  "cbDigest (Bind id (\<lambda>r. True) ''pay'' [(''to'', JStr ''a'')] [''to''] True) \<noteq>
   cbDigest (Bind id (\<lambda>r. True) ''pay'' [(''to'', JStr ''b'')] [''to''] True)"
proof -
  have a: "canonicalize ''{\"params\":{\"arguments\":{\"to\":\"a\"},\"name\":\"pay\"}}'' =
      Inr (''{\"params\":{\"arguments\":{\"to\":\"a\"},\"name\":\"pay\"}}'',
        [(''params'', JObj [(''arguments'', JObj [(''to'', JStr ''a'')]), (''name'', JStr ''pay'')])])"
    by (rule canonicalize_run [where ms = "[(''params'', JObj [(''arguments'', JObj [(''to'', JStr ''a'')]), (''name'', JStr ''pay'')])]"])
       (simp_all add: lex_eval render_eval admissible_def maxCanonDepth_def maxCanonNodes_def)
  have b: "canonicalize ''{\"params\":{\"arguments\":{\"to\":\"b\"},\"name\":\"pay\"}}'' =
      Inr (''{\"params\":{\"arguments\":{\"to\":\"b\"},\"name\":\"pay\"}}'',
        [(''params'', JObj [(''arguments'', JObj [(''to'', JStr ''b'')]), (''name'', JStr ''pay'')])])"
    by (rule canonicalize_run [where ms = "[(''params'', JObj [(''arguments'', JObj [(''to'', JStr ''b'')]), (''name'', JStr ''pay'')])]"])
       (simp_all add: lex_eval render_eval admissible_def maxCanonDepth_def maxCanonNodes_def)
  have n: "no_collision id x y" for x y :: string by (simp add: no_collision_def)
  note ev = argumentsOf_def map_get_def
  show ?thesis
    using approval_digest_identifies_the_call [OF a _ b _ n, where d = True and fs = "[''to'']" and uprint = "\<lambda>r. True",
        of "[(''to'', JStr ''a'')]" "[(''to'', JStr ''b'')]"]
    by (simp add: ev toolNameOf_def)
qed

text \<open>
  What the reviewer of an approval reads is bounded: for a tool name within the length a
  tool name may have, the summary line is at most 240 bytes whatever the caller sent, and
  every argument value in it was clipped to 64 bytes.
\<close>

theorem approval_summary_bounded:
  assumes "toolName tool"
  shows "length (cbSummary (Bind sha uprint tool args fs d)) \<le> maxSummary \<and> length (clip s) \<le> maxSummaryValue"
  using assms clipTo_length [of maxSummary] clipTo_length [of maxSummaryValue s]
  by (auto simp: Bind_def summarize_def maxSummary_def maxSummaryValue_def toolName_def class_len_def Let_def clip_def)

theorem approval_summary_bounded_witness:
  "length (cbSummary (Bind id (\<lambda>r. True) ''pay'' [] [] True)) \<le> maxSummary"
  using approval_summary_bounded [of "''pay''"] by (simp add: toolName_def go_defs)

subsection \<open>Standing constraints\<close>

text \<open>
  C6: a call is inside a standing constraint set exactly when every rule of the set holds of
  its canonical arguments, and nothing is reported then.
\<close>

theorem standing_constraints_all_hold:
  "Satisfied cs args = Some (True, why) \<longleftrightarrow> why = [] \<and> list_all (\<lambda>c. holds c args = Some True) cs"
  by (simp add: Satisfied_True_iff list_all_iff)

text \<open>
  C22: in a policy set the loader accepted, every rule list a (credential, tool) pair carries
  is non-empty, constrains declared fields only, and evaluates to a verdict on every argument
  object: the nil dereferences the evaluation could meet are unreachable.
\<close>

theorem loaded_policy_always_decides:
  assumes "buildPolicy ups standing = Inr p" "Constraints p credential tool = (cs, True)"
  shows "cs \<noteq> [] \<and> snd (Declared p tool) \<and> Field ` set cs \<subseteq> set (fst (Declared p tool)) \<and>
    (\<exists>inside why. Satisfied cs args = Some (inside, why))"
proof -
  obtain byTool where "map_get (constraints p) credential = Some byTool" "map_get byTool tool = Some cs"
    using assms(2) by (auto simp: Constraints_def split: option.splits)
  then obtain fs where "cs \<noteq> []" "map_get (declared p) tool = Some fs" "\<forall>c \<in> set cs. Field c \<in> set fs \<and> rule_ok c"
    using buildPolicy_wf [OF assms(1)] unfolding policy_wf_def by blast
  then show ?thesis using Satisfied_total [of cs args] by (auto simp: Declared_def)
qed

theorem loaded_policy_always_decides_witness:
  "\<exists>p inside why. buildPolicy [(''erp'', [(''pay'', \<lparr>PolicyFields = Some [''amount'']\<rparr>)])]
      [(''bot'', [(''pay'', [\<lparr>Field = ''amount'', Op = ''lte'', Value = Some \<lparr>LitStr = None, LitInt = Some 50\<rparr>,
         Values = []\<rparr>])])] = Inr p \<and>
    Satisfied (fst (Constraints p ''bot'' ''pay'')) [(''amount'', JNum ''7'')] = Some (inside, why)"
proof -
  let ?r = "\<lparr>Field = ''amount'', Op = ''lte'', Value = Some \<lparr>LitStr = None, LitInt = Some 50\<rparr>, Values = []\<rparr>"
  let ?p = "\<lparr>declared = [(''pay'', [''amount''])], constraints = [(''bot'', [(''pay'', [?r])])]\<rparr>"
  have b: "buildPolicy [(''erp'', [(''pay'', \<lparr>PolicyFields = Some [''amount'']\<rparr>)])] [(''bot'', [(''pay'', [?r])])] = Inr ?p"
    by (simp add: buildPolicy_def declare_tool_def constrain_tool_def toolName_def policyField_def dnsLabel_def
        dns_char_def check_all_def validateConstraint_def op_defs numericOps_def map_get_def go_defs)
  have "Constraints ?p ''bot'' ''pay'' = ([?r], True)" by (simp add: Constraints_def map_get_def)
  from loaded_policy_always_decides [OF b this, of "[(''amount'', JNum ''7'')]"] b this show ?thesis by auto
qed

text \<open>
  A value of the wrong shape (an object, a list, a bool, null, a number that is no
  64-bit integer) is outside every rule except a negative one: \<open>ne\<close> and \<open>not_in\<close> hold of it.
\<close>

definition wrong_shape :: "json \<Rightarrow> bool" where
  "wrong_shape raw \<longleftrightarrow> (case raw of JStr s \<Rightarrow> False | _ \<Rightarrow> asInt raw = None)"

theorem negative_rules_hold_of_wrong_shapes:
  assumes "validateConstraint credential tool c fs = None" "map_get args (Field c) = Some raw" "wrong_shape raw"
  shows "holds c args = Some (Op c = OpNe \<or> Op c = OpNotIn)"
proof -
  have ne: "\<not> literalEquals l raw" for l
    using assms(3) by (auto simp: wrong_shape_def literalEquals_def split: option.splits json.splits)
  have "asInt raw = None" using assms(3) by (auto simp: wrong_shape_def split: json.splits)
  then show ?thesis using assms(1,2) ne
    by (auto simp: holds_def validateConstraint_def op_defs list_ex_iff split: option.splits if_splits)
qed

theorem negative_rules_hold_of_wrong_shapes_witness:
  "holds \<lparr>Field = ''to'', Op = ''ne'', Value = Some \<lparr>LitStr = Some ''evil'', LitInt = None\<rparr>, Values = []\<rparr>
     [(''to'', JArr [JStr ''evil''])] = Some True"
  using negative_rules_hold_of_wrong_shapes [of "''bot''" "''pay''"
      "\<lparr>Field = ''to'', Op = ''ne'', Value = Some \<lparr>LitStr = Some ''evil'', LitInt = None\<rparr>, Values = []\<rparr>"
      "[''to'']" "[(''to'', JArr [JStr ''evil''])]" "JArr [JStr ''evil'']"]
  by (simp add: validateConstraint_def op_defs map_get_def wrong_shape_def numericOps_def)

subsection \<open>Cost\<close>

text \<open>
  Within the price range the configuration admits, no product or sum of the cost
  arithmetic wraps around: the recorded cost is the exact floor of the combined price of the
  clamped counts, is between 0 and 2 * 10^12 cents, and never falls when a count rises.
\<close>

theorem cost_is_exact_and_monotone:
  assumes "price_in_range p" "i \<le> i'" "out \<le> out'"
  shows "CostCents p i out =
      (clampTokens i * InCentsPer1M p + clampTokens out * OutCentsPer1M p) div 1000000 \<and>
    0 \<le> CostCents p i out \<and> CostCents p i out \<le> CostCents p i' out' \<and>
    CostCents p i' out' \<le> 2000000000000"
  using CostCents_exact CostCents_nonneg CostCents_le CostCents_mono assms by simp

theorem cost_is_exact_and_monotone_witness:
  "CostCents \<lparr>InCentsPer1M = 300, OutCentsPer1M = 1500\<rparr> 2000 1000 = 2"
  using cost_is_exact_and_monotone [of "\<lparr>InCentsPer1M = 300, OutCentsPer1M = 1500\<rparr>" 2000 2000 1000 1000]
  by (simp add: price_in_range_def clampTokens_def MaxTokens_def)

end
