(* ===== verification/Schema.thy ===== *)
theory Schema
  imports Clock
begin

text \<open>
  The tables of \<^verbatim>\<open>plane/internal/db/migrations\<close> and the structs of \<^verbatim>\<open>plane/internal/store\<close>
  that read and write them. A table is the list of its rows, oldest insertion first; a row is
  the Go struct it is scanned into (a NULL run id is the empty string, as the reads
  \<open>COALESCE\<close> it). What an insert checks - primary keys, unique indexes, foreign keys, CHECK
  clauses, text that is valid UTF-8 without a zero byte - is in the insert functions; a
  violation is the SQLSTATE the driver reports.
\<close>

subsection \<open>Structs and rows\<close>

record Credential =
  crName :: string
  crCapCents :: "int option"
  crCapTokens :: "int option"
  crExpiresAt :: "int option"
  crCreatedAt :: int

record CredentialRow = Credential +
  crTokenHash :: string

record LedgerEntry =
  leCredentialName :: string
  leUpstream :: string
  leModel :: string
  leInputTokens :: int
  leOutputTokens :: int
  leCostCents :: int
  leCostSource :: string
  leStatus :: int
  leActedFor :: string
  leRunID :: string
  leCreatedAt :: int

record ToolAuditEntry =
  taCredentialName :: string
  taUpstream :: string
  taMethod :: string
  taTool :: string
  taDecision :: string
  taStatus :: int
  taDetail :: string
  taArgDigest :: string
  taArgSummary :: string
  taActedFor :: string
  taRunID :: string
  taCreatedAt :: int

record ApprovalRequest =
  arID :: string
  arCredentialName :: string
  arKind :: string
  arSubject :: string
  arStatus :: string
  arDetail :: string
  arArgDigest :: string
  arArgSummary :: string
  arCreatedAt :: int
  arDecidedAt :: "int option"
  arDecidedBy :: string

record Grant =
  grID :: string
  grRequestID :: string
  grCredentialName :: string
  grKind :: string
  grSubject :: string
  grExpiresAt :: "int option"
  grMaxUses :: "int option"
  grUses :: int
  grAmount :: "int option"
  grCreatedAt :: int
  grDecidedBy :: string
  grArgDigest :: "string option"

record ApprovalAuditEntry =
  aaRequestID :: string
  aaCredentialName :: string
  aaKind :: string
  aaSubject :: string
  aaAction :: string
  aaBounds :: string
  aaArgDigest :: string
  aaArgSummary :: string
  aaDecidedBy :: string
  aaCreatedAt :: int

record InboundAuditEntry =
  iaID :: string
  iaHook :: string
  iaCredentialName :: string
  iaDeliveryID :: string
  iaDecision :: string
  iaStatus :: int
  iaDetail :: string
  iaAgent :: string
  iaInputTokens :: int
  iaOutputTokens :: int
  iaActedFor :: string
  iaCreatedAt :: int

text \<open>A row of \<open>spend_reservation\<close>, which no struct mirrors.\<close>

record ReservationRow =
  srID :: string
  srCredentialName :: string
  srHoldCents :: int
  srHoldTokens :: int
  srCreatedAt :: int
  srExpiresAt :: int

record Run =
  ruID :: string
  ruCredentialName :: string
  ruActedFor :: string
  ruSource :: string
  ruDeliveryID :: string
  ruEventID :: "string option"
  ruStartedAt :: int
  ruEndedAt :: "int option"

record RunRow = Run +
  ruExpiresAt :: int

record db =
  credentials :: "CredentialRow list"
  ledger_entry :: "LedgerEntry list"
  tool_allowlist :: "(string \<times> string) list"
  tool_audit :: "ToolAuditEntry list"
  approval_request :: "ApprovalRequest list"
  permit_grant :: "Grant list"
  approval_audit :: "ApprovalAuditEntry list"
  inbound_audit :: "InboundAuditEntry list"
  spend_reservation :: "ReservationRow list"
  agent_run :: "RunRow list"

subsection \<open>Errors\<close>

text \<open>
  The sentinel errors of the store, a Postgres error by its SQLSTATE, a value that does not
  fit the Go type it is scanned into, and a lost connection. \<open>ErrBounds\<close> carries the text
  it is wrapped with.
\<close>

datatype store_error = ErrNotFound | ErrExists | ErrNotPending | ErrBounds string | ErrAmbiguous
  | ErrReplay | ErrNoGrant | ErrPg string | ErrScan | ErrConn

definition unique_violation :: string where "unique_violation = ''23505''"
definition foreign_key_violation :: string where "foreign_key_violation = ''23503''"
definition check_violation :: string where "check_violation = ''23514''"
definition bad_text :: string where "bad_text = ''22021''"
definition bad_uuid :: string where "bad_uuid = ''22P02''"
definition out_of_range :: string where "out_of_range = ''22003''"

definition pg_text_ok :: "string \<Rightarrow> bool" where
  "pg_text_ok s \<longleftrightarrow> utf8_valid s \<and> CHR 0x00 \<notin> set s"

definition texts_ok :: "string list \<Rightarrow> bool" where
  "texts_ok ss \<longleftrightarrow> list_all pg_text_ok ss"

subsection \<open>Identifiers\<close>

text \<open>
  How Postgres reads a uuid: 32 hex digits of either case, a hyphen allowed after every
  fourth, braces allowed around them. It prints them lower case with the usual hyphens.
\<close>

fun uuid_digits :: "nat \<Rightarrow> string \<Rightarrow> (string \<times> string) option" where
  "uuid_digits 0 s = Some ([], s)"
| "uuid_digits (Suc n) (a # b # r) =
     (case (hex_value a, hex_value b) of
        (Some x, Some y) \<Rightarrow>
          (let r2 = (if n mod 2 = 0 \<and> n > 0 \<and> r \<noteq> [] \<and> hd r = CHR ''-'' then tl r else r)
           in case uuid_digits n r2 of
                None \<Rightarrow> None
              | Some (ds, rest) \<Rightarrow> Some (hex_digit x # hex_digit y # ds, rest))
      | _ \<Rightarrow> None)"
| "uuid_digits (Suc n) _ = None"

definition uuid_print :: "string \<Rightarrow> string" where
  "uuid_print ds = take 8 ds @ ''-'' @ take 4 (drop 8 ds) @ ''-'' @ take 4 (drop 12 ds) @ ''-'' @
     take 4 (drop 16 ds) @ ''-'' @ drop 20 ds"

definition pg_uuid :: "string \<Rightarrow> string option" where
  "pg_uuid s =
     (let braces = (s \<noteq> [] \<and> hd s = CHR ''{''); body = (if braces then tl s else s)
      in case uuid_digits 16 body of
           None \<Rightarrow> None
         | Some (ds, rest) \<Rightarrow>
             if rest = (if braces then ''}'' else []) then Some (uuid_print ds) else None)"

subsection \<open>Inserts\<close>

definition acted_for_ok :: "string \<Rightarrow> bool" where
  "acted_for_ok s \<longleftrightarrow> s = ''none'' \<or> s = ''unknown'' \<or> s = ''legacy'' \<or>
     (has_prefix s ''slack:'' \<and> class_len (\<lambda>c. is_upper c \<or> is_digit c) 1 64 (drop 6 s))"

definition run_actor_ok :: "string \<Rightarrow> bool" where
  "run_actor_ok s \<longleftrightarrow> s = ''none'' \<or>
     (has_prefix s ''slack:'' \<and> class_len (\<lambda>c. is_upper c \<or> is_digit c) 1 64 (drop 6 s))"

definition insert_credential :: "CredentialRow \<Rightarrow> db \<Rightarrow> store_error + db" where
  "insert_credential r d =
     (if \<not> pg_text_ok (crName r) then Inl (ErrPg bad_text)
      else if list_ex (\<lambda>c. crName c = crName r \<or> crTokenHash c = crTokenHash r) (credentials d)
      then Inl (ErrPg unique_violation)
      else Inr (d\<lparr>credentials := credentials d @ [r]\<rparr>))"

definition ledger_row_ok :: "LedgerEntry \<Rightarrow> bool" where
  "ledger_row_ok e \<longleftrightarrow> 0 \<le> leInputTokens e \<and> 0 \<le> leOutputTokens e \<and> 0 \<le> leCostCents e \<and>
     leCostSource e \<in> {''free'', ''priced'', ''unpriced'', ''denied''} \<and> acted_for_ok (leActedFor e)"

text \<open>A run id is an empty string for NULL, else a uuid.\<close>

definition run_id_param :: "string \<Rightarrow> string option" where
  "run_id_param s = (if s = [] then Some [] else pg_uuid s)"

definition insert_ledger :: "LedgerEntry \<Rightarrow> db \<Rightarrow> store_error + db" where
  "insert_ledger e d =
     (if \<not> texts_ok [leCredentialName e, leUpstream e, leModel e, leCostSource e, leActedFor e]
      then Inl (ErrPg bad_text)
      else case run_id_param (leRunID e) of
             None \<Rightarrow> Inl (ErrPg bad_uuid)
           | Some run \<Rightarrow>
               if \<not> ledger_row_ok e then Inl (ErrPg check_violation)
               else Inr (d\<lparr>ledger_entry := ledger_entry d @ [e\<lparr>leRunID := run\<rparr>]\<rparr>))"

definition tool_audit_row_ok :: "ToolAuditEntry \<Rightarrow> bool" where
  "tool_audit_row_ok e \<longleftrightarrow> taDecision e \<in> {''allowed'', ''denied''} \<and> acted_for_ok (taActedFor e)"

definition insert_tool_audit :: "ToolAuditEntry \<Rightarrow> db \<Rightarrow> store_error + db" where
  "insert_tool_audit e d =
     (if \<not> texts_ok [taCredentialName e, taUpstream e, taMethod e, taTool e, taDecision e, taDetail e,
          taArgDigest e, taArgSummary e, taActedFor e]
      then Inl (ErrPg bad_text)
      else case run_id_param (taRunID e) of
             None \<Rightarrow> Inl (ErrPg bad_uuid)
           | Some run \<Rightarrow>
               if \<not> tool_audit_row_ok e then Inl (ErrPg check_violation)
               else Inr (d\<lparr>tool_audit := tool_audit d @ [e\<lparr>taRunID := run\<rparr>]\<rparr>))"

definition kind_ok :: "string \<Rightarrow> bool" where
  "kind_ok k \<longleftrightarrow> k \<in> {''tool'', ''budget'', ''inbound''}"

definition has_credential :: "db \<Rightarrow> string \<Rightarrow> bool" where
  "has_credential d name \<longleftrightarrow> list_ex (\<lambda>c. crName c = name) (credentials d)"

text \<open>The partial unique index over pending requests.\<close>

definition same_pending :: "ApprovalRequest \<Rightarrow> ApprovalRequest \<Rightarrow> bool" where
  "same_pending r q \<longleftrightarrow> arStatus q = ''pending'' \<and> arCredentialName q = arCredentialName r \<and>
     arKind q = arKind r \<and> arSubject q = arSubject r \<and> arArgDigest q = arArgDigest r"

text \<open>\<open>Inr None\<close> is the insert that \<open>ON CONFLICT DO NOTHING\<close> skipped.\<close>

definition insert_request :: "ApprovalRequest \<Rightarrow> db \<Rightarrow> store_error + db option" where
  "insert_request r d =
     (if \<not> texts_ok [arCredentialName r, arKind r, arSubject r, arDetail r, arArgDigest r, arArgSummary r]
      then Inl (ErrPg bad_text)
      else if \<not> kind_ok (arKind r) then Inl (ErrPg check_violation)
      else if list_ex (\<lambda>q. same_pending r q) (approval_request d) then Inr None
      else if list_ex (\<lambda>q. arID q = arID r) (approval_request d) then Inl (ErrPg unique_violation)
      else if \<not> has_credential d (arCredentialName r) then Inl (ErrPg foreign_key_violation)
      else Inr (Some (d\<lparr>approval_request := approval_request d @ [r]\<rparr>)))"

definition grant_row_ok :: "Grant \<Rightarrow> bool" where
  "grant_row_ok g \<longleftrightarrow> kind_ok (grKind g) \<and>
     (case grMaxUses g of None \<Rightarrow> True | Some m \<Rightarrow> 0 < m) \<and> 0 \<le> grUses g \<and>
     (grExpiresAt g \<noteq> None \<or> grMaxUses g \<noteq> None) \<and>
     (case grAmount g of None \<Rightarrow> True | Some a \<Rightarrow> 0 < a) \<and>
     (grKind g = ''budget'') = (grAmount g \<noteq> None)"

definition insert_grant :: "Grant \<Rightarrow> db \<Rightarrow> store_error + db" where
  "insert_grant g d =
     (if \<not> texts_ok [grCredentialName g, grKind g, grSubject g, grDecidedBy g]
        \<or> (case grArgDigest g of None \<Rightarrow> False | Some a \<Rightarrow> \<not> pg_text_ok a)
      then Inl (ErrPg bad_text)
      else if \<not> grant_row_ok g then Inl (ErrPg check_violation)
      else if list_ex (\<lambda>h. grID h = grID g) (permit_grant d) then Inl (ErrPg unique_violation)
      else if \<not> list_ex (\<lambda>q. arID q = grRequestID g) (approval_request d)
        \<or> \<not> has_credential d (grCredentialName g)
      then Inl (ErrPg foreign_key_violation)
      else Inr (d\<lparr>permit_grant := permit_grant d @ [g]\<rparr>))"

definition insert_approval_audit :: "ApprovalAuditEntry \<Rightarrow> db \<Rightarrow> store_error + db" where
  "insert_approval_audit e d =
     (if \<not> texts_ok [aaCredentialName e, aaKind e, aaSubject e, aaAction e, aaBounds e,
          aaArgDigest e, aaArgSummary e, aaDecidedBy e]
      then Inl (ErrPg bad_text)
      else if aaAction e \<notin> {''requested'', ''approved'', ''denied''} then Inl (ErrPg check_violation)
      else Inr (d\<lparr>approval_audit := approval_audit d @ [e]\<rparr>))"

definition inbound_row_ok :: "InboundAuditEntry \<Rightarrow> bool" where
  "inbound_row_ok e \<longleftrightarrow>
     iaDecision e \<in> {''denied'', ''admitted'', ''completed'', ''failed'', ''challenge'', ''ignored'', ''command''} \<and>
     0 \<le> iaInputTokens e \<and> 0 \<le> iaOutputTokens e \<and> acted_for_ok (iaActedFor e)"

definition insert_inbound_audit :: "InboundAuditEntry \<Rightarrow> db \<Rightarrow> store_error + db" where
  "insert_inbound_audit e d =
     (if \<not> texts_ok [iaHook e, iaCredentialName e, iaDeliveryID e, iaDecision e, iaDetail e, iaAgent e, iaActedFor e]
      then Inl (ErrPg bad_text)
      else if \<not> inbound_row_ok e then Inl (ErrPg check_violation)
      else if list_ex (\<lambda>q. iaID q = iaID e) (inbound_audit d)
        \<or> (iaDecision e = ''admitted'' \<and>
            list_ex (\<lambda>q. iaDecision q = ''admitted'' \<and> iaHook q = iaHook e \<and> iaDeliveryID q = iaDeliveryID e)
              (inbound_audit d))
      then Inl (ErrPg unique_violation)
      else Inr (d\<lparr>inbound_audit := inbound_audit d @ [e]\<rparr>))"

definition insert_reservation :: "ReservationRow \<Rightarrow> db \<Rightarrow> store_error + db" where
  "insert_reservation r d =
     (if \<not> pg_text_ok (srCredentialName r) then Inl (ErrPg bad_text)
      else if srHoldCents r < 0 \<or> srHoldTokens r < 0 then Inl (ErrPg check_violation)
      else if list_ex (\<lambda>q. srID q = srID r) (spend_reservation d) then Inl (ErrPg unique_violation)
      else if \<not> has_credential d (srCredentialName r) then Inl (ErrPg foreign_key_violation)
      else Inr (d\<lparr>spend_reservation := spend_reservation d @ [r]\<rparr>))"

definition insert_run :: "RunRow \<Rightarrow> db \<Rightarrow> store_error + db" where
  "insert_run r d =
     (if \<not> texts_ok [ruCredentialName r, ruActedFor r, ruSource r, ruDeliveryID r] then Inl (ErrPg bad_text)
      else case (case ruEventID r of None \<Rightarrow> Some None | Some e \<Rightarrow> map_option Some (pg_uuid e)) of
             None \<Rightarrow> Inl (ErrPg bad_uuid)
           | Some ev \<Rightarrow>
               if \<not> run_actor_ok (ruActedFor r) then Inl (ErrPg check_violation)
               else if list_ex (\<lambda>q. ruID q = ruID r) (agent_run d) then Inl (ErrPg unique_violation)
               else Inr (d\<lparr>agent_run := agent_run d @ [r\<lparr>ruEventID := ev\<rparr>]\<rparr>))"

subsection \<open>Sums and listings\<close>

text \<open>
  A SUM of bigints is exact; it is an error when it does not fit the \<open>int64\<close> it is scanned
  into, and the sum of two columns of one row is an error when it overflows bigint.
\<close>

definition scan_int64 :: "int \<Rightarrow> store_error + int" where
  "scan_int64 i = (if int64_ok i then Inr i else Inl ErrScan)"

definition newest :: "('r \<Rightarrow> int) \<Rightarrow> int \<Rightarrow> 'r list \<Rightarrow> 'r list" where
  "newest created limit rows =
     take (nat (if limit \<le> 0 \<or> limit > 500 then 50 else limit)) (rev (sort_key created rows))"

text \<open>The oldest row of a non-empty selection, the first inserted among equals.\<close>

definition oldest :: "('r \<Rightarrow> int) \<Rightarrow> 'r list \<Rightarrow> 'r option" where
  "oldest created rows = (case sort_key created rows of [] \<Rightarrow> None | r # _ \<Rightarrow> Some r)"

lemma oldest_in: "oldest f rows = Some r \<Longrightarrow> r \<in> set rows"
  by (auto simp: oldest_def split: list.splits dest: arg_cong [where f = set])

lemma oldest_None [simp]: "oldest f rows = None \<longleftrightarrow> rows = []"
  by (auto simp: oldest_def split: list.splits dest: arg_cong [where f = length])

lemma oldest_Nil [simp]: "oldest f [] = None"
  by simp

lemma oldest_least: "oldest f rows = Some r \<Longrightarrow> x \<in> set rows \<Longrightarrow> f r \<le> f x"
proof -
  assume "oldest f rows = Some r" and x: "x \<in> set rows"
  then obtain rs where s: "sort_key f rows = r # rs" by (auto simp: oldest_def split: list.splits)
  then have "x \<in> set (r # rs)" using x by (metis set_sort)
  moreover have "sorted (map f (r # rs))" using s sorted_sort_key [of f rows] by simp
  ultimately show "f r \<le> f x" by auto
qed

subsection \<open>What an insert leaves untouched\<close>

lemma insert_frames [frame_simps]:
  "insert_ledger e d = Inr d' \<Longrightarrow> d' = d\<lparr>ledger_entry := ledger_entry d'\<rparr>"
  "insert_tool_audit ta d = Inr d' \<Longrightarrow> d' = d\<lparr>tool_audit := tool_audit d'\<rparr>"
  "insert_grant g d = Inr d' \<Longrightarrow> d' = d\<lparr>permit_grant := permit_grant d @ [g]\<rparr>"
  "insert_approval_audit ae d = Inr d' \<Longrightarrow> d' = d\<lparr>approval_audit := approval_audit d @ [ae]\<rparr>"
  "insert_inbound_audit ie d = Inr d' \<Longrightarrow> d' = d\<lparr>inbound_audit := inbound_audit d @ [ie]\<rparr>"
  "insert_reservation sr d = Inr d' \<Longrightarrow> d' = d\<lparr>spend_reservation := spend_reservation d @ [sr]\<rparr>"
  "insert_request ar d = Inr (Some d') \<Longrightarrow> d' = d\<lparr>approval_request := approval_request d @ [ar]\<rparr>"
  by (auto simp: insert_ledger_def insert_tool_audit_def insert_grant_def insert_approval_audit_def
      insert_inbound_audit_def insert_reservation_def insert_request_def split: if_splits option.splits)

end
