(* ===== verification/Identity.thy ===== *)
theory Identity
  imports Schema
begin

text \<open>
  Component \<^verbatim>\<open>plane/internal/store/identity.go\<close>: the agent runs the plane holds open and the
  one read that says for whom a call is made. Every operation takes the database and, where
  the SQL does, the transaction time \<open>now\<close> and the fresh \<open>uuid\<close> of the row it inserts.
\<close>

definition ActedForNone :: string where "ActedForNone = ''none''"
definition ActedForUnknown :: string where "ActedForUnknown = ''unknown''"
definition ActedForLegacy :: string where "ActedForLegacy = ''legacy''"

record Attribution =
  atActedFor :: string
  atRunID :: string

definition Unattributed :: Attribution where
  "Unattributed = \<lparr>atActedFor = ActedForNone, atRunID = []\<rparr>"

definition Lost :: Attribution where
  "Lost = \<lparr>atActedFor = ActedForUnknown, atRunID = []\<rparr>"

definition actedFor :: "string \<Rightarrow> string" where
  "actedFor v = (if v = [] then ActedForUnknown else v)"

definition OpenRun ::
  "string \<Rightarrow> string \<Rightarrow> string \<Rightarrow> string \<Rightarrow> string \<Rightarrow> int \<Rightarrow> int \<Rightarrow> string \<Rightarrow> db \<Rightarrow> (store_error + string) \<times> db" where
  "OpenRun credential actor source delivery eventID ttl now uuid d =
     (let event = (if eventID = [] then None else Some eventID) in
      case insert_run \<lparr>ruID = uuid, ruCredentialName = credential, ruActedFor = actor, ruSource = source,
             ruDeliveryID = delivery, ruEventID = event, ruStartedAt = now, ruEndedAt = None,
             ruExpiresAt = now + ttl\<rparr> d of
        Inl e \<Rightarrow> (Inl e, d)
      | Inr d' \<Rightarrow> (Inr uuid, d'))"

definition CloseRun :: "string \<Rightarrow> int \<Rightarrow> db \<Rightarrow> (store_error + unit) \<times> db" where
  "CloseRun runID now d =
     (case pg_uuid runID of
        None \<Rightarrow> (Inl (ErrPg bad_uuid), d)
      | Some u \<Rightarrow> (Inr (), d\<lparr>agent_run :=
          update_first (\<lambda>r. ruID r = u \<and> ruEndedAt r = None) (\<lambda>r. r\<lparr>ruEndedAt := Some now\<rparr>) (agent_run d)\<rparr>))"

definition run_open :: "string \<Rightarrow> int \<Rightarrow> RunRow \<Rightarrow> bool" where
  "run_open credential now r \<longleftrightarrow>
     ruCredentialName r = credential \<and> ruEndedAt r = None \<and> ruExpiresAt r > now"

definition ActorFor :: "string \<Rightarrow> int \<Rightarrow> db \<Rightarrow> (store_error + Attribution)" where
  "ActorFor cred now d =
     (if \<not> pg_text_ok cred then Inl (ErrPg bad_text)
      else
        (let found = take 2 (sort_key ruStartedAt (filter (run_open cred now) (agent_run d)))
         in case found of
              [] \<Rightarrow> Inr Unattributed
            | [r] \<Rightarrow> Inr \<lparr>atActedFor = ruActedFor r, atRunID = ruID r\<rparr>
            | _ \<Rightarrow> Inr Lost))"

text \<open>What the caller uses when the read fails: \<open>ActorFor\<close> returns \<open>Lost\<close> with its error.\<close>

definition actor_or_lost :: "store_error + Attribution \<Rightarrow> Attribution" where
  "actor_or_lost r = (case r of Inl _ \<Rightarrow> Lost | Inr a \<Rightarrow> a)"

definition RunByID :: "string \<Rightarrow> db \<Rightarrow> store_error + Run" where
  "RunByID runID d =
     (case pg_uuid runID of
        None \<Rightarrow> Inl (ErrPg bad_uuid)
      | Some u \<Rightarrow> (case List.find (\<lambda>r. ruID r = u) (agent_run d) of
                   None \<Rightarrow> Inl ErrNotFound
                 | Some r \<Rightarrow> Inr (Run.truncate r)))"

subsection \<open>Who a call is made for\<close>

lemma ActorFor_cases:
  assumes "pg_text_ok cred"
  shows "ActorFor cred now d =
    (case filter (run_open cred now) (agent_run d) of
       [] \<Rightarrow> Inr Unattributed
     | [r] \<Rightarrow> Inr \<lparr>atActedFor = ruActedFor r, atRunID = ruID r\<rparr>
     | _ \<Rightarrow> Inr Lost)"
proof -
  let ?o = "filter (run_open cred now) (agent_run d)"
  have len: "length (sort_key ruStartedAt ?o) = length ?o" by simp
  consider "?o = []" | r where "?o = [r]" | r s t where "?o = r # s # t"
    by (cases ?o; cases "tl ?o") auto
  then show ?thesis
  proof cases
    case 3
    then obtain a b c where "sort_key ruStartedAt ?o = a # b # c"
      using len by (cases "sort_key ruStartedAt ?o"; cases "tl (sort_key ruStartedAt ?o)") auto
    then show ?thesis using assms 3 by (simp add: ActorFor_def Let_def)
  qed (use assms in \<open>simp_all add: ActorFor_def Let_def\<close>)
qed

lemma ActorFor_total: "pg_text_ok cred \<Longrightarrow> \<exists>a. ActorFor cred now d = Inr a"
  by (auto simp: ActorFor_cases split: list.splits)

end
