(* ===== verification/Store.thy ===== *)
theory Store
  imports Identity
begin

text \<open>
  Component \<^verbatim>\<open>plane/internal/store/store.go\<close>: credentials, the spend ledger, the tool
  allowlist and the tool audit. An operation returns its result and the database; one that
  fails returns the database it was given, as the rollback does.
\<close>

subsection \<open>Expiry\<close>

definition Expired :: "Credential \<Rightarrow> int \<Rightarrow> bool" where
  "Expired c now \<longleftrightarrow> (case crExpiresAt c of None \<Rightarrow> False | Some e \<Rightarrow> \<not> now < e)"

definition ExpiringSoon :: "Credential \<Rightarrow> int \<Rightarrow> int \<Rightarrow> bool" where
  "ExpiringSoon c now window \<longleftrightarrow>
     (case crExpiresAt c of None \<Rightarrow> False | Some e \<Rightarrow> \<not> Expired c now \<and> e - now \<le> window)"

definition ExpiredPrefix :: string where
  "ExpiredPrefix = ''expired credential ''"

definition ExpiryWarning :: int where
  "ExpiryWarning = 7 * 24 * hour"

definition ExpiredMessage :: "(nat \<Rightarrow> bool) \<Rightarrow> Credential \<Rightarrow> string" where
  "ExpiredMessage uprint c =
     (let stamp = (case crExpiresAt c of None \<Rightarrow> ''an unknown time'' | Some e \<Rightarrow> format_rfc3339 e) in
      ExpiredPrefix @ quote uprint (crName c) @ '': it expired at '' @ stamp @
      ''; renew it with 'make credential-renew NAME='' @ crName c @ '' TTL=720h', '' @
      ''or re-issue the credential and re-point its Secret'')"

subsection \<open>Credentials\<close>

definition CreateCredential :: "string \<Rightarrow> string \<Rightarrow> int \<Rightarrow> int \<Rightarrow> db \<Rightarrow> (store_error + unit) \<times> db" where
  "CreateCredential name tokenHash expiresAt now d =
     (case insert_credential \<lparr>crName = name, crCapCents = None, crCapTokens = None,
             crExpiresAt = Some expiresAt, crCreatedAt = now, crTokenHash = tokenHash\<rparr> d of
        Inl e \<Rightarrow> (Inl (if e = ErrPg unique_violation then ErrExists else e), d)
      | Inr d' \<Rightarrow> (Inr (), d'))"

definition CredentialByTokenHash :: "string \<Rightarrow> db \<Rightarrow> store_error + Credential" where
  "CredentialByTokenHash tokenHash d =
     (case List.find (\<lambda>c. crTokenHash c = tokenHash) (credentials d) of
        None \<Rightarrow> Inl ErrNotFound
      | Some c \<Rightarrow> Inr (Credential.truncate c))"

definition cap_ok :: "int option \<Rightarrow> bool" where
  "cap_ok c \<longleftrightarrow> (case c of None \<Rightarrow> True | Some i \<Rightarrow> 0 \<le> i)"

definition SetBudget :: "string \<Rightarrow> int option \<Rightarrow> int option \<Rightarrow> db \<Rightarrow> (store_error + unit) \<times> db" where
  "SetBudget name capCents capTokens d =
     (if \<not> pg_text_ok name then (Inl (ErrPg bad_text), d)
      else if \<not> has_credential d name then (Inl ErrNotFound, d)
      else if \<not> cap_ok capCents \<or> \<not> cap_ok capTokens then (Inl (ErrPg check_violation), d)
      else (Inr (), d\<lparr>credentials :=
        update_first (\<lambda>c. crName c = name)
          (\<lambda>c. c\<lparr>crCapCents := capCents, crCapTokens := capTokens\<rparr>) (credentials d)\<rparr>))"

definition RenewCredential :: "string \<Rightarrow> int \<Rightarrow> db \<Rightarrow> (store_error + unit) \<times> db" where
  "RenewCredential name expiresAt d =
     (if \<not> pg_text_ok name then (Inl (ErrPg bad_text), d)
      else if \<not> has_credential d name then (Inl ErrNotFound, d)
      else (Inr (), d\<lparr>credentials :=
        update_first (\<lambda>c. crName c = name) (\<lambda>c. c\<lparr>crExpiresAt := Some expiresAt\<rparr>) (credentials d)\<rparr>))"

definition ListCredentials :: "db \<Rightarrow> Credential list" where
  "ListCredentials d =
     (let rows = sort_key crName (credentials d) in
      map Credential.truncate
        (sort_key (\<lambda>c. the (crExpiresAt c)) (filter (\<lambda>c. crExpiresAt c \<noteq> None) rows)
         @ filter (\<lambda>c. crExpiresAt c = None) rows))"

subsection \<open>The spend ledger\<close>

definition RecordLedger :: "LedgerEntry \<Rightarrow> string \<Rightarrow> int \<Rightarrow> db \<Rightarrow> (store_error + unit) \<times> db" where
  "RecordLedger e reservationID now d =
     (case insert_ledger (e\<lparr>leActedFor := actedFor (leActedFor e), leCreatedAt := now\<rparr>) d of
        Inl err \<Rightarrow> (Inl err, d)
      | Inr d1 \<Rightarrow>
          if reservationID \<noteq> [] then
            (case pg_uuid reservationID of
               None \<Rightarrow> (Inl (ErrPg bad_uuid), d)
             | Some u \<Rightarrow> (Inr (), d1\<lparr>spend_reservation := filter (\<lambda>r. srID r \<noteq> u) (spend_reservation d1)\<rparr>))
          else (Inr (), d1))"

definition ledger_rows :: "string \<Rightarrow> int \<Rightarrow> db \<Rightarrow> LedgerEntry list" where
  "ledger_rows cred monthStart d =
     filter (\<lambda>e. leCredentialName e = cred \<and> leCreatedAt e \<ge> monthStart) (ledger_entry d)"

definition row_tokens :: "LedgerEntry \<Rightarrow> int" where
  "row_tokens e = leInputTokens e + leOutputTokens e"

definition MonthUsage :: "string \<Rightarrow> int \<Rightarrow> db \<Rightarrow> store_error + (int \<times> int)" where
  "MonthUsage cred monthStart d =
     (let rows = ledger_rows cred monthStart d in
      if \<not> pg_text_ok cred then Inl (ErrPg bad_text)
      else if \<not> list_all (\<lambda>e. int64_ok (row_tokens e)) rows then Inl (ErrPg out_of_range)
      else and_then (scan_int64 (sum_list (map leCostCents rows)))
             (\<lambda>cents. and_then (scan_int64 (sum_list (map row_tokens rows)))
                (\<lambda>tokens. Inr (cents, tokens))))"

definition Ledger :: "string \<Rightarrow> int \<Rightarrow> db \<Rightarrow> LedgerEntry list" where
  "Ledger cred limit d =
     newest leCreatedAt limit (filter (\<lambda>e. cred = [] \<or> leCredentialName e = cred) (ledger_entry d))"

subsection \<open>The tool allowlist and the tool audit\<close>

definition SetToolAllowlist :: "string \<Rightarrow> string list \<Rightarrow> db \<Rightarrow> (store_error + unit) \<times> db" where
  "SetToolAllowlist credentialName tools d =
     (if \<not> pg_text_ok credentialName then (Inl (ErrPg bad_text), d)
      else if \<not> has_credential d credentialName then (Inl ErrNotFound, d)
      else if \<not> texts_ok tools then (Inl (ErrPg bad_text), d)
      else (Inr (), d\<lparr>tool_allowlist :=
        fold (\<lambda>tool rows. if (credentialName, tool) \<in> set rows then rows else rows @ [(credentialName, tool)])
          tools (filter (\<lambda>(c, t). c \<noteq> credentialName) (tool_allowlist d))\<rparr>))"

definition ToolAllowlist :: "string \<Rightarrow> db \<Rightarrow> store_error + string list" where
  "ToolAllowlist credentialName d =
     (if \<not> pg_text_ok credentialName then Inl (ErrPg bad_text)
      else Inr (sort (map snd (filter (\<lambda>(c, t). c = credentialName) (tool_allowlist d)))))"

definition CredentialsAllowlisting :: "string list \<Rightarrow> db \<Rightarrow> string list gomap" where
  "CredentialsAllowlisting tools d =
     fold (\<lambda>(tool, cred) out. map_set tool ((case map_get out tool of None \<Rightarrow> [] | Some cs \<Rightarrow> cs) @ [cred]) out)
       (sort_key fst (sort_key snd (map (\<lambda>(c, t). (t, c))
          (filter (\<lambda>(c, t). t \<in> set tools) (tool_allowlist d))))) []"

definition RecordToolAudit :: "ToolAuditEntry \<Rightarrow> int \<Rightarrow> db \<Rightarrow> (store_error + unit) \<times> db" where
  "RecordToolAudit e now d =
     (case insert_tool_audit (e\<lparr>taActedFor := actedFor (taActedFor e), taCreatedAt := now\<rparr>) d of
        Inl err \<Rightarrow> (Inl err, d)
      | Inr d' \<Rightarrow> (Inr (), d'))"

definition ToolAudit :: "string \<Rightarrow> int \<Rightarrow> db \<Rightarrow> ToolAuditEntry list" where
  "ToolAudit cred limit d =
     newest taCreatedAt limit (filter (\<lambda>e. cred = [] \<or> taCredentialName e = cred) (tool_audit d))"

subsection \<open>Facts\<close>

lemma allowlist_fold:
  "set (fold (\<lambda>tool rows. if (cred, tool) \<in> set rows then rows else rows @ [(cred, tool)]) tools rows) =
     set rows \<union> {(cred, t) | t. t \<in> set tools}"
  by (induction tools arbitrary: rows) auto

text \<open>The allowlist read back is exactly the one that was set, for that credential only.\<close>

lemma ToolAllowlist_set:
  assumes "SetToolAllowlist cred tools d = (Inr (), d')"
  shows "\<exists>ts. ToolAllowlist cred d' = Inr ts \<and> set ts = set tools \<and> sorted ts"
    and "c \<noteq> cred \<Longrightarrow> pg_text_ok c \<Longrightarrow>
      \<exists>ts ts'. ToolAllowlist c d = Inr ts \<and> ToolAllowlist c d' = Inr ts' \<and> set ts = set ts'"
proof -
  have rows: "set (tool_allowlist d') = {(c, t) \<in> set (tool_allowlist d). c \<noteq> cred} \<union> {(cred, t) | t. t \<in> set tools}"
    and ok: "pg_text_ok cred"
    using assms by (auto simp: SetToolAllowlist_def allowlist_fold split: if_splits)
  show "\<exists>ts. ToolAllowlist cred d' = Inr ts \<and> set ts = set tools \<and> sorted ts"
    using ok rows by (auto simp: ToolAllowlist_def image_iff)
  show "c \<noteq> cred \<Longrightarrow> pg_text_ok c \<Longrightarrow>
      \<exists>ts ts'. ToolAllowlist c d = Inr ts \<and> ToolAllowlist c d' = Inr ts' \<and> set ts = set ts'"
    using rows by (auto simp: ToolAllowlist_def image_iff)
qed

text \<open>A ledger write appends one row and releases at most the named hold.\<close>

lemma RecordLedger_appends:
  assumes "RecordLedger e res now d = (Inr (), d')"
  shows "\<exists>row. ledger_entry d' = ledger_entry d @ [row] \<and> leCostCents row = leCostCents e \<and>
      row_tokens row = row_tokens e \<and> leCredentialName row = leCredentialName e \<and>
      leCreatedAt row = now \<and> leCostSource row = leCostSource e"
    and "spend_reservation d' = (if res = [] then spend_reservation d
      else filter (\<lambda>r. srID r \<noteq> the (pg_uuid res)) (spend_reservation d))"
    and "d' = d\<lparr>ledger_entry := ledger_entry d', spend_reservation := spend_reservation d'\<rparr>"
  using assms
  by (auto simp: RecordLedger_def insert_ledger_def row_tokens_def split: sum.splits if_splits option.splits)

lemma RecordLedger_rollback: "RecordLedger e res now d = (Inl err, d') \<Longrightarrow> d' = d"
  by (auto simp: RecordLedger_def split: sum.splits if_splits option.splits)

lemma RecordToolAudit_appends:
  assumes "RecordToolAudit e now d = (r, d')"
  shows "(\<exists>err. r = Inl err \<and> d' = d) \<or> (r = Inr () \<and> (\<exists>run. d' = d\<lparr>tool_audit := tool_audit d @
    [e\<lparr>taActedFor := actedFor (taActedFor e), taCreatedAt := now, taRunID := run\<rparr>]\<rparr>))"
  using assms
  by (auto simp: RecordToolAudit_def insert_tool_audit_def split: sum.splits if_splits option.splits)

end
