(* ===== verification/UsePool.thy ===== *)
theory UsePool
  imports Prelude
begin

text \<open>
  The contract of a counted permit: a step that takes one use while uses are left and finds
  nothing when none is. Whatever keeps it admits exactly as many of \<open>n\<close> attempts as it has
  uses, never one more and never one fewer.
\<close>

fun attempts :: "('s \<Rightarrow> 'r option \<times> 's) \<Rightarrow> nat \<Rightarrow> 's \<Rightarrow> nat \<times> 's" where
  "attempts grab 0 s = (0, s)"
| "attempts grab (Suc n) s =
     (case grab s of (r, s1) \<Rightarrow>
        (case attempts grab n s1 of (k, s2) \<Rightarrow> ((if r = None then k else Suc k), s2)))"

locale use_pool =
  fixes grab :: "'s \<Rightarrow> 'r option \<times> 's"
    and left :: "'s \<Rightarrow> nat"
    and ok :: "'s \<Rightarrow> bool"
  assumes grab_some: "ok s \<Longrightarrow> 0 < left s \<Longrightarrow> \<exists>r s'. grab s = (Some r, s') \<and> ok s' \<and> Suc (left s') = left s"
    and grab_none: "ok s \<Longrightarrow> left s = 0 \<Longrightarrow> grab s = (None, s)"
begin

lemma grab_admits_iff: "ok s \<Longrightarrow> fst (grab s) \<noteq> None \<longleftrightarrow> 0 < left s"
  using grab_some [of s] grab_none [of s] by (cases "left s") auto

lemma attempts_exact:
  "ok s \<Longrightarrow> fst (attempts grab n s) = min n (left s) \<and> ok (snd (attempts grab n s))
     \<and> left (snd (attempts grab n s)) = left s - n"
proof (induction n arbitrary: s)
  case (Suc n)
  show ?case
  proof (cases "left s")
    case 0
    then have "grab s = (None, s)" by (rule grab_none [OF Suc.prems])
    then show ?thesis using Suc.IH [OF Suc.prems] 0 by (simp add: split_beta)
  next
    case (Suc m)
    then obtain r s' where g: "grab s = (Some r, s')" "ok s'" and l: "left s = Suc (left s')"
      using grab_some [OF Suc.prems] by (metis zero_less_Suc)
    show ?thesis using Suc.IH [OF g(2)] unfolding l by (simp add: g(1) split_beta)
  qed
qed simp

end

end
