(* ===== verification/Approvals.thy ===== *)
theory Approvals
  imports Store UsePool
begin

text \<open>
  Component \<^verbatim>\<open>plane/internal/store/approvals.go\<close>: pending requests, bounded grants and the
  approvals' own audit trail. Liveness is evaluated at the transaction time \<open>now\<close>. The
  credential's row lock makes the transactions of one credential serial, so an operation is
  one step on the database.
\<close>

subsection \<open>Filing\<close>

definition DecidedByAdmin :: string where
  "DecidedByAdmin = ''admin''"

record Filing =
  fiCredential :: string
  fiKind :: string
  fiSubject :: string
  fiDetail :: string
  fiArgDigest :: string
  fiArgSummary :: string

definition request_of :: "Filing \<Rightarrow> int \<Rightarrow> string \<Rightarrow> ApprovalRequest" where
  "request_of f now uuid = \<lparr>arID = uuid, arCredentialName = fiCredential f, arKind = fiKind f,
     arSubject = fiSubject f, arStatus = ''pending'', arDetail = fiDetail f, arArgDigest = fiArgDigest f,
     arArgSummary = fiArgSummary f, arCreatedAt = now, arDecidedAt = None, arDecidedBy = []\<rparr>"

definition requested_audit :: "Filing \<Rightarrow> int \<Rightarrow> string \<Rightarrow> ApprovalAuditEntry" where
  "requested_audit f now uuid = \<lparr>aaRequestID = uuid, aaCredentialName = fiCredential f, aaKind = fiKind f,
     aaSubject = fiSubject f, aaAction = ''requested'', aaBounds = [], aaArgDigest = fiArgDigest f,
     aaArgSummary = fiArgSummary f, aaDecidedBy = [], aaCreatedAt = now\<rparr>"

definition FileRequest ::
  "Filing \<Rightarrow> int \<Rightarrow> string \<Rightarrow> db \<Rightarrow> (store_error + (string \<times> bool)) \<times> db" where
  "FileRequest f now uuid d =
     (case insert_request (request_of f now uuid) d of
        Inl e \<Rightarrow> (Inl (if e = ErrPg foreign_key_violation then ErrNotFound else e), d)
      | Inr None \<Rightarrow> (Inr ([], False), d)
      | Inr (Some d1) \<Rightarrow>
          (case insert_approval_audit (requested_audit f now uuid) d1 of
             Inl e \<Rightarrow> (Inl e, d)
           | Inr d2 \<Rightarrow> (Inr (uuid, True), d2)))"

definition FileApprovalRequest ::
  "Filing \<Rightarrow> int \<Rightarrow> string \<Rightarrow> db \<Rightarrow> (store_error + bool) \<times> db" where
  "FileApprovalRequest f now uuid d =
     (case FileRequest f now uuid d of
        (Inl e, d') \<Rightarrow> (Inl e, d')
      | (Inr (_, filed), d') \<Rightarrow> (Inr filed, d'))"

definition RequestByPrefix :: "string \<Rightarrow> db \<Rightarrow> store_error + ApprovalRequest" where
  "RequestByPrefix prefix d =
     (case take 2 (sort_key arCreatedAt (filter (\<lambda>r. has_prefix (arID r) prefix) (approval_request d))) of
        [] \<Rightarrow> Inl ErrNotFound
      | [r] \<Rightarrow> Inr r
      | _ \<Rightarrow> Inl ErrAmbiguous)"

definition PendingApprovals :: "db \<Rightarrow> ApprovalRequest list" where
  "PendingApprovals d = sort_key arCreatedAt (filter (\<lambda>r. arStatus r = ''pending'') (approval_request d))"

subsection \<open>Deciding\<close>

definition noDecider :: string where
  "noDecider = ''a decision must name who decided''"

definition noBound :: string where
  "noBound = ''at least one of TTL and USES is required''"

definition badAmount :: string where
  "badAmount = ''AMOUNT is required for budget grants and forbidden otherwise''"

definition noCall :: string where
  "noCall = ''this tool request carries no call to bind (filed before argument binding); let the agent retry so a bound request is filed, or widen the allowlist with 'make tool-allow'' @ [CHR 0x27]"

definition bounds_text :: "int option \<Rightarrow> int option \<Rightarrow> int option \<Rightarrow> string" where
  "bounds_text expiresAt maxUses amount = trim_space
     ((case expiresAt of None \<Rightarrow> [] | Some t \<Rightarrow> ''expires='' @ format_rfc3339 t @ '' '') @
      (case maxUses of None \<Rightarrow> [] | Some u \<Rightarrow> ''uses='' @ format_int u @ '' '') @
      (case amount of None \<Rightarrow> [] | Some a \<Rightarrow> ''amount='' @ format_int a @ '' ''))"

definition decide :: "string \<Rightarrow> string \<Rightarrow> string \<Rightarrow> int \<Rightarrow> db \<Rightarrow> db" where
  "decide rid status decidedBy now d = d\<lparr>approval_request :=
     update_first (\<lambda>r. arID r = rid)
       (\<lambda>r. r\<lparr>arStatus := status, arDecidedAt := Some now, arDecidedBy := decidedBy\<rparr>) (approval_request d)\<rparr>"

definition decision_audit :: "ApprovalRequest \<Rightarrow> string \<Rightarrow> string \<Rightarrow> string \<Rightarrow> int \<Rightarrow> ApprovalAuditEntry" where
  "decision_audit r action bounds decidedBy now = \<lparr>aaRequestID = arID r, aaCredentialName = arCredentialName r,
     aaKind = arKind r, aaSubject = arSubject r, aaAction = action, aaBounds = bounds,
     aaArgDigest = arArgDigest r, aaArgSummary = arArgSummary r, aaDecidedBy = decidedBy, aaCreatedAt = now\<rparr>"

text \<open>\<open>SELECT ... WHERE id = $1 FOR UPDATE\<close>, and the check that the request is still pending.\<close>

definition pending_request :: "string \<Rightarrow> db \<Rightarrow> store_error + ApprovalRequest" where
  "pending_request rid d =
     (case pg_uuid rid of
        None \<Rightarrow> Inl (ErrPg bad_uuid)
      | Some u \<Rightarrow>
          (case List.find (\<lambda>r. arID r = u) (approval_request d) of
             None \<Rightarrow> Inl ErrNotFound
           | Some r \<Rightarrow> if arStatus r \<noteq> ''pending'' then Inl ErrNotPending else Inr r))"

text \<open>The grant an approval mints: a tool grant is welded to the call its request carries.\<close>

definition minted ::
  "ApprovalRequest \<Rightarrow> int option \<Rightarrow> int option \<Rightarrow> int option \<Rightarrow> string \<Rightarrow> int \<Rightarrow> string \<Rightarrow> Grant" where
  "minted r expiresAt maxUses amount decidedBy now uuid =
     \<lparr>grID = uuid, grRequestID = arID r, grCredentialName = arCredentialName r,
      grKind = arKind r, grSubject = arSubject r, grExpiresAt = expiresAt,
      grMaxUses = maxUses, grUses = 0, grAmount = amount, grCreatedAt = now, grDecidedBy = decidedBy,
      grArgDigest = (if arKind r = ''tool'' then Some (arArgDigest r) else None)\<rparr>"

definition ApproveRequest ::
  "string \<Rightarrow> int option \<Rightarrow> int option \<Rightarrow> int option \<Rightarrow> string \<Rightarrow> int \<Rightarrow> string \<Rightarrow> db \<Rightarrow> (store_error + Grant) \<times> db" where
  "ApproveRequest rid expiresAt maxUses amount decidedBy now uuid d =
     (if decidedBy = [] then (Inl (ErrBounds noDecider), d)
      else case pending_request rid d of
             Inl e \<Rightarrow> (Inl e, d)
           | Inr r \<Rightarrow>
               if expiresAt = None \<and> maxUses = None then (Inl (ErrBounds noBound), d)
               else if (arKind r = ''budget'') \<noteq> (amount \<noteq> None) then (Inl (ErrBounds badAmount), d)
               else if arKind r = ''tool'' \<and> arArgDigest r = [] then (Inl (ErrBounds noCall), d)
               else
                 (let g = minted r expiresAt maxUses amount decidedBy now uuid
                  in case insert_grant g d of
                       Inl e \<Rightarrow> (Inl e, d)
                     | Inr d1 \<Rightarrow>
                         (case insert_approval_audit (decision_audit r ''approved''
                                 (bounds_text expiresAt maxUses amount) decidedBy now)
                                 (decide (arID r) ''approved'' decidedBy now d1) of
                            Inl e \<Rightarrow> (Inl e, d)
                          | Inr d2 \<Rightarrow> (Inr g, d2))))"

definition DenyApprovalRequest ::
  "string \<Rightarrow> string \<Rightarrow> int \<Rightarrow> db \<Rightarrow> (store_error + unit) \<times> db" where
  "DenyApprovalRequest rid decidedBy now d =
     (if decidedBy = [] then (Inl (ErrBounds noDecider), d)
      else case pending_request rid d of
             Inl e \<Rightarrow> (Inl e, d)
           | Inr r \<Rightarrow>
               if \<not> pg_text_ok decidedBy then (Inl (ErrPg bad_text), d)
               else (case insert_approval_audit (decision_audit r ''denied'' [] decidedBy now)
                            (decide (arID r) ''denied'' decidedBy now d) of
                       Inl e \<Rightarrow> (Inl e, d)
                     | Inr d2 \<Rightarrow> (Inr (), d2)))"

subsection \<open>Consuming\<close>

definition grantLive :: "int \<Rightarrow> Grant \<Rightarrow> bool" where
  "grantLive now g \<longleftrightarrow> (case grExpiresAt g of None \<Rightarrow> True | Some e \<Rightarrow> e > now) \<and>
     (case grMaxUses g of None \<Rightarrow> True | Some m \<Rightarrow> grUses g < m)"

definition burn_use :: "string \<Rightarrow> db \<Rightarrow> db" where
  "burn_use gid d = d\<lparr>permit_grant :=
     update_first (\<lambda>g. grID g = gid) (\<lambda>g. g\<lparr>grUses := grUses g + 1\<rparr>) (permit_grant d)\<rparr>"

definition grant_matches :: "string \<Rightarrow> string \<Rightarrow> string \<Rightarrow> int \<Rightarrow> Grant \<Rightarrow> bool" where
  "grant_matches cred kind subject now g \<longleftrightarrow>
     grCredentialName g = cred \<and> grKind g = kind \<and> grSubject g = subject \<and> grantLive now g"

definition consumeGrantLocked ::
  "string \<Rightarrow> string \<Rightarrow> string \<Rightarrow> int \<Rightarrow> db \<Rightarrow> (store_error + string option) \<times> db" where
  "consumeGrantLocked cred kind subject now d =
     (if \<not> texts_ok [cred, kind, subject] then (Inl (ErrPg bad_text), d)
      else case oldest grCreatedAt (filter (grant_matches cred kind subject now) (permit_grant d)) of
             None \<Rightarrow> (Inr None, d)
           | Some g \<Rightarrow> (Inr (Some (grID g)), burn_use (grID g) d))"

text \<open>Grants for this very call, and the closed class of verb-level grants.\<close>

definition exact_match :: "string \<Rightarrow> string \<Rightarrow> string \<Rightarrow> int \<Rightarrow> Grant \<Rightarrow> bool" where
  "exact_match cred tool argDigest now g \<longleftrightarrow>
     grant_matches cred ''tool'' tool now g \<and> grArgDigest g = Some argDigest"

definition legacy_match :: "string \<Rightarrow> string \<Rightarrow> int \<Rightarrow> Grant \<Rightarrow> bool" where
  "legacy_match cred tool now g \<longleftrightarrow> grant_matches cred ''tool'' tool now g \<and> grArgDigest g = None"

definition consumeToolGrantLocked ::
  "string \<Rightarrow> string \<Rightarrow> string \<Rightarrow> int \<Rightarrow> db \<Rightarrow> (store_error + string option) \<times> db" where
  "consumeToolGrantLocked cred tool argDigest now d =
     (if \<not> texts_ok [cred, tool, argDigest] then (Inl (ErrPg bad_text), d)
      else case oldest grCreatedAt (filter (exact_match cred tool argDigest now) (permit_grant d)) of
             Some g \<Rightarrow> (Inr (Some (grID g)), burn_use (grID g) d)
           | None \<Rightarrow>
               (case oldest grCreatedAt (filter (legacy_match cred tool now) (permit_grant d)) of
                  None \<Rightarrow> (Inr None, d)
                | Some g \<Rightarrow> (Inr (Some (grID g)), burn_use (grID g) d)))"

definition lockCredential :: "string \<Rightarrow> db \<Rightarrow> store_error + Credential" where
  "lockCredential name d =
     (if \<not> pg_text_ok name then Inl (ErrPg bad_text)
      else case List.find (\<lambda>c. crName c = name) (credentials d) of
             None \<Rightarrow> Inl ErrNotFound
           | Some c \<Rightarrow> Inr (Credential.truncate c))"

definition ConsumeToolGrant ::
  "string \<Rightarrow> string \<Rightarrow> string \<Rightarrow> int \<Rightarrow> db \<Rightarrow> (store_error + string option) \<times> db" where
  "ConsumeToolGrant cred tool argDigest now d =
     (case lockCredential cred d of
        Inl e \<Rightarrow> (Inl e, d)
      | Inr _ \<Rightarrow> consumeToolGrantLocked cred tool argDigest now d)"

definition LiveToolGrantSubjects :: "string \<Rightarrow> int \<Rightarrow> db \<Rightarrow> store_error + string list" where
  "LiveToolGrantSubjects cred now d =
     (if \<not> pg_text_ok cred then Inl (ErrPg bad_text)
      else Inr (remdups (sort (map grSubject (filter (\<lambda>g. grCredentialName g = cred \<and>
             grKind g = ''tool'' \<and> grantLive now g) (permit_grant d))))))"

definition Grants :: "string \<Rightarrow> int \<Rightarrow> int \<Rightarrow> db \<Rightarrow> (Grant \<times> bool) list" where
  "Grants cred limit now d =
     map (\<lambda>g. (g, grantLive now g))
       (newest grCreatedAt limit (filter (\<lambda>g. cred = [] \<or> grCredentialName g = cred) (permit_grant d)))"

definition ApprovalAudit :: "string \<Rightarrow> int \<Rightarrow> db \<Rightarrow> ApprovalAuditEntry list" where
  "ApprovalAudit cred limit d =
     newest aaCreatedAt limit (filter (\<lambda>e. cred = [] \<or> aaCredentialName e = cred) (approval_audit d))"

subsection \<open>The invariant of the approval tables\<close>

definition pending_key :: "ApprovalRequest \<Rightarrow> string \<times> string \<times> string \<times> string" where
  "pending_key r = (arCredentialName r, arKind r, arSubject r, arArgDigest r)"

definition uses_within :: "Grant \<Rightarrow> bool" where
  "uses_within g \<longleftrightarrow> (case grMaxUses g of None \<Rightarrow> True | Some m \<Rightarrow> grUses g \<le> m)"

definition approvals_wf :: "db \<Rightarrow> bool" where
  "approvals_wf d \<longleftrightarrow>
     distinct (map arID (approval_request d)) \<and>
     distinct (map grID (permit_grant d)) \<and>
     distinct (map pending_key (filter (\<lambda>r. arStatus r = ''pending'') (approval_request d))) \<and>
     (\<forall>r \<in> set (approval_request d). arStatus r \<noteq> ''pending'' \<longrightarrow> arDecidedBy r \<noteq> []) \<and>
     (\<forall>g \<in> set (permit_grant d). grant_row_ok g \<and> uses_within g)"

lemma approvals_wf_frame:
  "approval_request d' = approval_request d \<Longrightarrow> permit_grant d' = permit_grant d \<Longrightarrow>
     approvals_wf d' = approvals_wf d"
  by (simp add: approvals_wf_def)

lemma FileRequest_outcome:
  assumes "FileRequest f now uuid d = (r, d')"
  obtains e where "r = Inl e" "d' = d"
  | "r = Inr ([], False)" "d' = d" "list_ex (same_pending (request_of f now uuid)) (approval_request d)"
  | "r = Inr (uuid, True)" "d' = d\<lparr>approval_request := approval_request d @ [request_of f now uuid],
        approval_audit := approval_audit d @ [requested_audit f now uuid]\<rparr>"
      "\<not> list_ex (same_pending (request_of f now uuid)) (approval_request d)"
      "\<forall>q \<in> set (approval_request d). arID q \<noteq> uuid"
  using assms
  by (auto simp: FileRequest_def insert_request_def insert_approval_audit_def list_ex_iff request_of_def
      split: sum.splits option.splits if_splits)

lemma FileRequest_wf:
  assumes "FileRequest f now uuid d = (r, d')" "approvals_wf d"
  shows "approvals_wf d'"
  using assms(1)
proof (cases rule: FileRequest_outcome)
  case 3
  let ?r = "request_of f now uuid"
  have "pending_key ?r \<notin> set (map pending_key (filter (\<lambda>r. arStatus r = ''pending'') (approval_request d)))"
    using 3(3) by (auto simp: list_ex_iff same_pending_def pending_key_def)
  moreover have "arStatus ?r = ''pending''" "arID ?r = uuid" by (simp_all add: request_of_def)
  ultimately show ?thesis using assms(2) 3(2,4) by (auto simp: approvals_wf_def)
qed (use assms(2) in simp_all)

lemma decide_requests:
  assumes "pending_request rid d = Inr r" "distinct (map arID (approval_request d))"
  obtains ys zs where "approval_request d = ys @ r # zs" "arStatus r = ''pending''"
    "approval_request (decide (arID r) st by now d) =
       ys @ r\<lparr>arStatus := st, arDecidedAt := Some now, arDecidedBy := by\<rparr> # zs"
proof -
  obtain u where u: "List.find (\<lambda>r. arID r = u) (approval_request d) = Some r" and st: "arStatus r = ''pending''"
    using assms(1) by (auto simp: pending_request_def split: option.splits if_splits)
  then have "find (\<lambda>q. arID q = arID r) (approval_request d) = Some r"
    using find_Some_in find_distinct_key [OF assms(2)] by metis
  from update_first_split [OF this, of "\<lambda>r. r\<lparr>arStatus := st, arDecidedAt := Some now, arDecidedBy := by\<rparr>"]
  show thesis using that st by (auto simp: decide_def)
qed

lemma decide_wf:
  assumes "pending_request rid d = Inr r" "approvals_wf d" "st \<noteq> ''pending''" "by \<noteq> []"
  shows "approvals_wf (decide (arID r) st by now d)"
proof -
  have d: "distinct (map arID (approval_request d))" using assms(2) by (simp add: approvals_wf_def)
  obtain ys zs where s: "approval_request d = ys @ r # zs" "arStatus r = ''pending''"
    "approval_request (decide (arID r) st by now d) =
       ys @ r\<lparr>arStatus := st, arDecidedAt := Some now, arDecidedBy := by\<rparr> # zs"
    by (rule decide_requests [OF assms(1) d])
  have "permit_grant (decide (arID r) st by now d) = permit_grant d" by (simp add: decide_def)
  then show ?thesis using assms(2-4) unfolding approvals_wf_def s by (simp add: s(2))
qed

lemma DenyApprovalRequest_outcome:
  assumes "DenyApprovalRequest rid by now d = (res, d')"
  obtains e where "res = Inl e" "d' = d"
  | r where "res = Inr ()" "by \<noteq> []" "pending_request rid d = Inr r"
      "d' = (decide (arID r) ''denied'' by now d)\<lparr>approval_audit := approval_audit d @ [decision_audit r ''denied'' [] by now]\<rparr>"
proof (cases res)
  case (Inl e)
  then have "d' = d" using assms
    by (auto simp: DenyApprovalRequest_def split: sum.splits if_splits)
  then show thesis using Inl that(1) by blast
next
  case (Inr x)
  then obtain r where "by \<noteq> []" "pending_request rid d = Inr r"
    and i: "insert_approval_audit (decision_audit r ''denied'' [] by now) (decide (arID r) ''denied'' by now d) = Inr d'"
    using assms by (auto simp: DenyApprovalRequest_def split: sum.splits if_splits)
  moreover have "approval_audit (decide (arID r) ''denied'' by now d) = approval_audit d" by (simp add: decide_def)
  ultimately show thesis using Inr that(2) insert_frames(4) [OF i] by simp
qed

lemma ApproveRequest_outcome:
  assumes "ApproveRequest rid ex mu am by now uuid d = (res, d')"
  obtains e where "res = Inl e" "d' = d"
  | r where "res = Inr (minted r ex mu am by now uuid)" "by \<noteq> []" "pending_request rid d = Inr r"
    "arKind r = ''tool'' \<longrightarrow> arArgDigest r \<noteq> []" "ex \<noteq> None \<or> mu \<noteq> None" "(arKind r = ''budget'') = (am \<noteq> None)"
    "grant_row_ok (minted r ex mu am by now uuid)" "\<forall>g \<in> set (permit_grant d). grID g \<noteq> uuid"
    "d' = (decide (arID r) ''approved'' by now d)\<lparr>permit_grant := permit_grant d @ [minted r ex mu am by now uuid],
      approval_audit := approval_audit d @ [decision_audit r ''approved'' (bounds_text ex mu am) by now]\<rparr>"
proof (cases res)
  case (Inl e)
  then have "d' = d" using assms
    by (simp add: ApproveRequest_def Let_def split: sum.splits if_splits)
  then show thesis using Inl that(1) by blast
next
  case (Inr x)
  obtain r where r: "pending_request rid d = Inr r" and "by": "by \<noteq> []"
    using assms Inr by (auto simp: ApproveRequest_def split: sum.splits if_splits)
  let ?g = "minted r ex mu am by now uuid"
  have c: "ex \<noteq> None \<or> mu \<noteq> None" "(arKind r = ''budget'') = (am \<noteq> None)" "arKind r = ''tool'' \<longrightarrow> arArgDigest r \<noteq> []"
    using assms Inr r "by" by (simp_all add: ApproveRequest_def split: if_splits)
  obtain d1 where d1: "insert_grant ?g d = Inr d1"
    and d2: "insert_approval_audit (decision_audit r ''approved'' (bounds_text ex mu am) by now)
        (decide (arID r) ''approved'' by now d1) = Inr d'" and x: "x = ?g"
    using assms Inr r "by" c by (auto simp: ApproveRequest_def Let_def split: sum.splits if_splits)
  have g: "grant_row_ok ?g" "\<forall>g \<in> set (permit_grant d). grID g \<noteq> uuid"
    using d1 by (auto simp: insert_grant_def list_ex_iff minted_def split: if_splits)
  have "d' = (decide (arID r) ''approved'' by now d)\<lparr>permit_grant := permit_grant d @ [?g],
      approval_audit := approval_audit d @ [decision_audit r ''approved'' (bounds_text ex mu am) by now]\<rparr>"
    using insert_frames(4) [OF d2] insert_frames(3) [OF d1] by (simp add: decide_def)
  then show thesis using that(2) [of r] Inr x "by" r c g by blast
qed

lemma DenyApprovalRequest_wf:
  assumes "DenyApprovalRequest rid by now d = (res, d')" "approvals_wf d"
  shows "approvals_wf d'"
  using assms(1)
proof (cases rule: DenyApprovalRequest_outcome)
  case (2 r)
  have "approvals_wf (decide (arID r) ''denied'' by now d)"
    using decide_wf [OF 2(3) assms(2) _ 2(2)] by simp
  then show ?thesis unfolding 2(4) by (simp add: approvals_wf_def)
qed (use assms(2) in simp_all)

lemma ApproveRequest_wf:
  assumes "ApproveRequest rid ex mu am by now uuid d = (res, d')" "approvals_wf d"
  shows "approvals_wf d'"
  using assms(1)
proof (cases rule: ApproveRequest_outcome)
  case (2 r)
  have "approvals_wf (decide (arID r) ''approved'' by now d)"
    using decide_wf [OF 2(3) assms(2) _ 2(2)] by simp
  moreover have "permit_grant (decide (arID r) ''approved'' by now d) = permit_grant d" by (simp add: decide_def)
  moreover have "grID (minted r ex mu am by now uuid) = uuid" by (simp add: minted_def)
  moreover have "uses_within (minted r ex mu am by now uuid)"
    using 2(7) by (auto simp: grant_row_ok_def minted_def uses_within_def split: option.splits)
  ultimately show ?thesis using 2(7,8) unfolding 2(9) by (auto simp: approvals_wf_def)
qed (use assms(2) in simp_all)


subsection \<open>Consuming a use\<close>

lemma burn_split:
  assumes "distinct (map grID (permit_grant d))" "g \<in> set (permit_grant d)"
  obtains ys zs where "permit_grant d = ys @ g # zs"
    "permit_grant (burn_use (grID g) d) = ys @ g\<lparr>grUses := grUses g + 1\<rparr> # zs"
proof -
  have "find (\<lambda>h. grID h = grID g) (permit_grant d) = Some g"
    by (rule find_distinct_key [OF assms])
  from update_first_split [OF this, of "\<lambda>g. g\<lparr>grUses := grUses g + 1\<rparr>"] show thesis
    using that by (auto simp: burn_use_def)
qed

lemma burn_use_wf:
  assumes "approvals_wf d" "g \<in> set (permit_grant d)" "grantLive now g"
  shows "approvals_wf (burn_use (grID g) d)"
proof -
  have dist: "distinct (map grID (permit_grant d))" using assms(1) by (simp add: approvals_wf_def)
  obtain ys zs where s: "permit_grant d = ys @ g # zs"
    "permit_grant (burn_use (grID g) d) = ys @ g\<lparr>grUses := grUses g + 1\<rparr> # zs"
    by (rule burn_split [OF dist assms(2)])
  have "approval_request (burn_use (grID g) d) = approval_request d" by (simp add: burn_use_def)
  moreover have "grant_row_ok (g\<lparr>grUses := grUses g + 1\<rparr>)"
    "uses_within (g\<lparr>grUses := grUses g + 1\<rparr>)"
    using assms
    by (auto simp: approvals_wf_def grant_row_ok_def uses_within_def grantLive_def split: option.splits)
  ultimately show ?thesis using assms(1) unfolding approvals_wf_def s by simp
qed

lemma burn_use_frame [frame_simps]:
  "approval_request (burn_use gid d) = approval_request d" "tool_audit (burn_use gid d) = tool_audit d"
  "credentials (burn_use gid d) = credentials d" "spend_reservation (burn_use gid d) = spend_reservation d"
  "ledger_entry (burn_use gid d) = ledger_entry d" "tool_allowlist (burn_use gid d) = tool_allowlist d"
  "inbound_audit (burn_use gid d) = inbound_audit d" "approval_audit (burn_use gid d) = approval_audit d"
  "agent_run (burn_use gid d) = agent_run d"
  by (simp_all add: burn_use_def)

text \<open>What a consume step does: it burns one use of one matching grant, or finds none.\<close>

lemma consumeGrantLocked_outcome:
  assumes "consumeGrantLocked cred kind subject now d = (r, d')"
  obtains e where "r = Inl e" "d' = d"
  | "r = Inr None" "d' = d" "\<forall>g \<in> set (permit_grant d). \<not> grant_matches cred kind subject now g"
  | g where "r = Inr (Some (grID g))" "d' = burn_use (grID g) d" "g \<in> set (permit_grant d)"
      "grant_matches cred kind subject now g"
      "\<forall>h \<in> set (permit_grant d). grant_matches cred kind subject now h \<longrightarrow> grCreatedAt g \<le> grCreatedAt h"
proof (cases "oldest grCreatedAt (filter (grant_matches cred kind subject now) (permit_grant d))")
  case None
  then have "\<forall>g \<in> set (permit_grant d). \<not> grant_matches cred kind subject now g" by (simp add: filter_empty_conv)
  then show thesis using assms that(1,2) None
    by (cases "texts_ok [cred, kind, subject]") (auto simp: consumeGrantLocked_def simp del: oldest_None)
next
  case (Some g)
  then have "g \<in> set (permit_grant d) \<and> grant_matches cred kind subject now g" using oldest_in by fastforce
  moreover have "\<forall>h \<in> set (permit_grant d). grant_matches cred kind subject now h \<longrightarrow> grCreatedAt g \<le> grCreatedAt h"
    using oldest_least [OF Some] by simp
  ultimately show thesis using assms Some that(1,3)
    by (auto simp: consumeGrantLocked_def split: if_splits)
qed

lemma consumeToolGrantLocked_outcome:
  assumes "consumeToolGrantLocked cred tool dig now d = (r, d')"
  obtains e where "r = Inl e" "d' = d"
  | "r = Inr None" "d' = d"
      "\<forall>g \<in> set (permit_grant d). \<not> exact_match cred tool dig now g \<and> \<not> legacy_match cred tool now g"
  | g where "r = Inr (Some (grID g))" "d' = burn_use (grID g) d" "g \<in> set (permit_grant d)"
      "exact_match cred tool dig now g"
  | g where "r = Inr (Some (grID g))" "d' = burn_use (grID g) d" "g \<in> set (permit_grant d)"
      "legacy_match cred tool now g" "\<forall>h \<in> set (permit_grant d). \<not> exact_match cred tool dig now h"
proof -
  let ?e = "oldest grCreatedAt (filter (exact_match cred tool dig now) (permit_grant d))"
  let ?l = "oldest grCreatedAt (filter (legacy_match cred tool now) (permit_grant d))"
  have e: "g \<in> set (permit_grant d) \<and> exact_match cred tool dig now g" if "?e = Some g" for g
    using oldest_in [OF that] by simp
  have l: "g \<in> set (permit_grant d) \<and> legacy_match cred tool now g" if "?l = Some g" for g
    using oldest_in [OF that] by simp
  have n: "\<forall>h \<in> set (permit_grant d). \<not> exact_match cred tool dig now h" if "?e = None"
    using that by (simp add: filter_empty_conv)
  have m: "\<forall>h \<in> set (permit_grant d). \<not> legacy_match cred tool now h" if "?l = None"
    using that by (simp add: filter_empty_conv)
  show thesis
  proof (cases "texts_ok [cred, tool, dig]")
    case False
    then show thesis using assms that(1) by (auto simp: consumeToolGrantLocked_def)
  next
    case True
    show thesis
    proof (cases ?e)
      case (Some g)
      have "r = Inr (Some (grID g))" "d' = burn_use (grID g) d"
        using assms by (simp_all add: consumeToolGrantLocked_def True Some)
      then show thesis using that(3) e [OF Some] by blast
    next
      case None
      note ne = None
      show thesis
      proof (cases ?l)
        case None
        have "r = Inr None" "d' = d"
          using assms by (simp_all add: consumeToolGrantLocked_def True ne None del: oldest_None)
        then show thesis using that(2) n [OF ne] m [OF None] by blast
      next
        case (Some g)
        have "r = Inr (Some (grID g))" "d' = burn_use (grID g) d"
          using assms by (simp_all add: consumeToolGrantLocked_def True ne Some del: oldest_None)
        then show thesis using that(4) n [OF ne] l [OF Some] by blast
      qed
    qed
  qed
qed

subsection \<open>A grant with N uses left admits exactly N calls\<close>

text \<open>The uses left to the grants that satisfy \<open>P\<close>, each with a use bound.\<close>

definition uses_left :: "(Grant \<Rightarrow> bool) \<Rightarrow> db \<Rightarrow> nat" where
  "uses_left P d = sum_list (map (\<lambda>g. if P g then nat (the (grMaxUses g) - grUses g) else 0) (permit_grant d))"

definition bounded_pool :: "(Grant \<Rightarrow> bool) \<Rightarrow> db \<Rightarrow> bool" where
  "bounded_pool P d \<longleftrightarrow> distinct (map grID (permit_grant d)) \<and>
     (\<forall>g \<in> set (permit_grant d). P g \<longrightarrow> grMaxUses g \<noteq> None)"

text \<open>A selection that looks at the use count only through liveness.\<close>

definition live_selection :: "(Grant \<Rightarrow> bool) \<Rightarrow> int \<Rightarrow> bool" where
  "live_selection P now \<longleftrightarrow> (\<forall>g. P g \<longrightarrow> grantLive now g) \<and>
     (\<forall>g u. P g \<longrightarrow> grantLive now (g\<lparr>grUses := u\<rparr>) \<longrightarrow> P (g\<lparr>grUses := u\<rparr>))"

lemma live_selection_matches:
  "live_selection (grant_matches cred kind subject now) now"
  "live_selection (\<lambda>g. exact_match cred tool dig now g \<or> legacy_match cred tool now g) now"
  by (auto simp: live_selection_def grant_matches_def exact_match_def legacy_match_def)

lemma uses_left_burn:
  assumes "bounded_pool P d" "live_selection P now" "g \<in> set (permit_grant d)" "P g"
  shows "bounded_pool P (burn_use (grID g) d)" "Suc (uses_left P (burn_use (grID g) d)) = uses_left P d"
proof -
  have dist: "distinct (map grID (permit_grant d))" using assms(1) by (simp add: bounded_pool_def)
  let ?g' = "g\<lparr>grUses := grUses g + 1\<rparr>"
  obtain ys zs where s: "permit_grant d = ys @ g # zs" "permit_grant (burn_use (grID g) d) = ys @ ?g' # zs"
    by (rule burn_split [OF dist assms(3)])
  obtain m where m: "grMaxUses g = Some m" using assms(1,3,4) by (auto simp: bounded_pool_def)
  have live: "grUses g < m" using assms(2,4) m by (auto simp: live_selection_def grantLive_def)
  show "bounded_pool P (burn_use (grID g) d)"
    using assms(1) m unfolding bounded_pool_def s by auto
  have "P ?g' \<or> nat (m - (grUses g + 1)) = 0"
    using assms(2,4) m unfolding live_selection_def grantLive_def by auto
  then have "Suc (if P ?g' then nat (the (grMaxUses ?g') - grUses ?g') else 0) =
      (if P g then nat (the (grMaxUses g) - grUses g) else 0)"
    using live assms(4) m by auto
  then show "Suc (uses_left P (burn_use (grID g) d)) = uses_left P d"
    unfolding uses_left_def s by simp
qed

lemma uses_left_zero:
  assumes "bounded_pool P d" "live_selection P now"
  shows "uses_left P d = 0 \<longleftrightarrow> (\<forall>g \<in> set (permit_grant d). \<not> P g)"
proof
  assume z: "uses_left P d = 0"
  show "\<forall>g \<in> set (permit_grant d). \<not> P g"
  proof (intro ballI notI)
    fix g assume g: "g \<in> set (permit_grant d)" "P g"
    let ?f = "\<lambda>g. if P g then nat (the (grMaxUses g) - grUses g) else 0"
    have "?f g \<le> uses_left P d" unfolding uses_left_def using g(1) by (intro member_le_sum_list) simp_all
    then have "nat (the (grMaxUses g) - grUses g) = 0" using z g(2) by simp
    moreover have "grUses g < the (grMaxUses g)"
      using assms g by (auto simp: bounded_pool_def live_selection_def grantLive_def split: option.splits)
    ultimately show False by simp
  qed
next
  assume "\<forall>g \<in> set (permit_grant d). \<not> P g"
  then show "uses_left P d = 0" by (auto simp: uses_left_def)
qed

definition grab_use :: "string \<Rightarrow> string \<Rightarrow> string \<Rightarrow> int \<Rightarrow> db \<Rightarrow> string option \<times> db" where
  "grab_use cred kind subject now d = apfst (case_sum (\<lambda>_. None) id) (consumeGrantLocked cred kind subject now d)"

definition grab_tool_use :: "string \<Rightarrow> string \<Rightarrow> string \<Rightarrow> int \<Rightarrow> db \<Rightarrow> string option \<times> db" where
  "grab_tool_use cred tool dig now d = apfst (case_sum (\<lambda>_. None) id) (ConsumeToolGrant cred tool dig now d)"

text \<open>The texts of the caller are well formed; the tool path also needs the credential row.\<close>

definition consume_ready :: "string list \<Rightarrow> (Grant \<Rightarrow> bool) \<Rightarrow> db \<Rightarrow> bool" where
  "consume_ready texts P d \<longleftrightarrow> texts_ok texts \<and> bounded_pool P d"

definition tool_ready :: "string \<Rightarrow> string \<Rightarrow> string \<Rightarrow> int \<Rightarrow> db \<Rightarrow> bool" where
  "tool_ready cred tool dig now d \<longleftrightarrow> texts_ok [cred, tool, dig] \<and> has_credential d cred \<and>
     bounded_pool (\<lambda>g. exact_match cred tool dig now g \<or> legacy_match cred tool now g) d"

interpretation grant_uses: use_pool "grab_use cred kind subject now"
    "uses_left (grant_matches cred kind subject now)"
    "consume_ready [cred, kind, subject] (grant_matches cred kind subject now)"
  for cred kind subject now
proof
  let ?P = "grant_matches cred kind subject now"
  fix d assume ok: "consume_ready [cred, kind, subject] ?P d"
  then have pool: "bounded_pool ?P d" and t: "texts_ok [cred, kind, subject]" by (simp_all add: consume_ready_def)
  note sel = live_selection_matches(1) [of cred kind subject now]
  obtain r d' where c: "consumeGrantLocked cred kind subject now d = (r, d')" by fastforce
  have noerr: "r \<noteq> Inl e" for e using c t by (auto simp: consumeGrantLocked_def split: option.splits)
  {
    assume "0 < uses_left ?P d"
    then have some: "\<exists>g \<in> set (permit_grant d). ?P g" using uses_left_zero [OF pool sel] by auto
    from c show "\<exists>r s'. grab_use cred kind subject now d = (Some r, s') \<and>
        consume_ready [cred, kind, subject] ?P s' \<and> Suc (uses_left ?P s') = uses_left ?P d"
    proof (cases rule: consumeGrantLocked_outcome)
      case (3 g)
      then show ?thesis using uses_left_burn [OF pool sel 3(3,4)] c t
        by (auto simp: grab_use_def consume_ready_def)
    qed (use some noerr in auto)
  next
    assume "uses_left ?P d = 0"
    then have none: "\<forall>g \<in> set (permit_grant d). \<not> ?P g" using uses_left_zero [OF pool sel] by auto
    from c show "grab_use cred kind subject now d = (None, d)"
      by (cases rule: consumeGrantLocked_outcome) (use none noerr c in \<open>auto simp: grab_use_def\<close>)
  }
qed

lemma ConsumeToolGrant_locked:
  "has_credential d cred \<Longrightarrow> pg_text_ok cred \<Longrightarrow> ConsumeToolGrant cred tool dig now d = consumeToolGrantLocked cred tool dig now d"
  by (auto simp: ConsumeToolGrant_def lockCredential_def has_credential_def list_ex_iff find_None_iff split: option.splits sum.splits)

interpretation tool_uses: use_pool "grab_tool_use cred tool dig now"
    "uses_left (\<lambda>g. exact_match cred tool dig now g \<or> legacy_match cred tool now g)"
    "tool_ready cred tool dig now"
  for cred tool dig now
proof
  let ?P = "\<lambda>g. exact_match cred tool dig now g \<or> legacy_match cred tool now g"
  fix d assume ok: "tool_ready cred tool dig now d"
  then have pool: "bounded_pool ?P d" and t: "texts_ok [cred, tool, dig]" and cr: "has_credential d cred"
    by (simp_all add: tool_ready_def)
  note sel = live_selection_matches(2) [of cred tool dig now]
  have lk: "ConsumeToolGrant cred tool dig now d = consumeToolGrantLocked cred tool dig now d"
    using ConsumeToolGrant_locked [OF cr] t by (simp add: texts_ok_def)
  obtain r d' where c: "consumeToolGrantLocked cred tool dig now d = (r, d')" by fastforce
  have noerr: "r \<noteq> Inl e" for e using c t by (auto simp: consumeToolGrantLocked_def split: option.splits)
  have cr': "has_credential (burn_use i d) cred" for i using cr by (simp add: has_credential_def frame_simps)
  {
    assume "0 < uses_left ?P d"
    then have some: "\<exists>g \<in> set (permit_grant d). ?P g" using uses_left_zero [OF pool sel] by auto
    have "\<exists>g. r = Inr (Some (grID g)) \<and> d' = burn_use (grID g) d \<and> g \<in> set (permit_grant d) \<and> ?P g"
      using c by (cases rule: consumeToolGrantLocked_outcome) (use some noerr in blast)+
    then show "\<exists>r s'. grab_tool_use cred tool dig now d = (Some r, s') \<and>
        tool_ready cred tool dig now s' \<and> Suc (uses_left ?P s') = uses_left ?P d"
      using uses_left_burn [OF pool sel] c t lk cr' by (auto simp: grab_tool_use_def tool_ready_def)
  next
    assume "uses_left ?P d = 0"
    then have none: "\<forall>g \<in> set (permit_grant d). \<not> ?P g" using uses_left_zero [OF pool sel] by auto
    have "r = Inr None \<and> d' = d"
      using c by (cases rule: consumeToolGrantLocked_outcome) (use none noerr in blast)+
    then show "grab_tool_use cred tool dig now d = (None, d)" using c lk by (simp add: grab_tool_use_def)
  }
qed

end
