(* ===== verification/Spend.thy ===== *)
theory Spend
  imports Approvals
begin

text \<open>
  Component \<^verbatim>\<open>plane/internal/store/spend.go\<close>: the one transaction that admits spend. Under
  the credential's row lock it counts the month's ledger plus the open reservations, covers
  each exceeded cap with a use of a live budget grant, and leaves a reservation. A denial
  rolls everything back.
\<close>

record SpendHold =
  shCents :: int
  shTokens :: int

record Admission =
  adReservationID :: string
  adDenied :: bool
  adSubject :: string
  adGranted :: bool

record BudgetNeed =
  bnSubject :: string
  bnUsed :: int
  bnCap :: int

definition NoAdmission :: Admission where
  "NoAdmission = \<lparr>adReservationID = [], adDenied = False, adSubject = [], adGranted = False\<rparr>"

definition denied_admission :: "string \<Rightarrow> Admission" where
  "denied_admission subject = NoAdmission\<lparr>adDenied := True, adSubject := subject\<rparr>"

definition open_holds :: "string \<Rightarrow> int \<Rightarrow> int \<Rightarrow> db \<Rightarrow> ReservationRow list" where
  "open_holds cred monthStart now d =
     filter (\<lambda>r. srCredentialName r = cred \<and> srCreatedAt r \<ge> monthStart \<and> srExpiresAt r > now)
       (spend_reservation d)"

definition monthCommitted :: "string \<Rightarrow> int \<Rightarrow> int \<Rightarrow> db \<Rightarrow> store_error + (int \<times> int)" where
  "monthCommitted cred monthStart now d =
     (let rows = ledger_rows cred monthStart d; holds = open_holds cred monthStart now d in
      if \<not> pg_text_ok cred then Inl (ErrPg bad_text)
      else if \<not> list_all (\<lambda>e. int64_ok (row_tokens e)) rows then Inl (ErrPg out_of_range)
      else and_then (scan_int64 (sum_list (map leCostCents rows) + sum_list (map srHoldCents holds)))
             (\<lambda>cents. and_then (scan_int64 (sum_list (map row_tokens rows) + sum_list (map srHoldTokens holds)))
                (\<lambda>tokens. Inr (cents, tokens))))"

definition MonthCommitted :: "string \<Rightarrow> int \<Rightarrow> int \<Rightarrow> db \<Rightarrow> store_error + (int \<times> int)" where
  "MonthCommitted cred monthStart now d = monthCommitted cred monthStart now d"

definition OpenReservations :: "string \<Rightarrow> int \<Rightarrow> db \<Rightarrow> int" where
  "OpenReservations cred now d = int (length (filter
     (\<lambda>r. (cred = [] \<or> srCredentialName r = cred) \<and> srExpiresAt r > now) (spend_reservation d)))"

text \<open>The headroom live budget grants add, the same query in the admission and in the preview.\<close>

definition LiveBudgetGrantSum :: "string \<Rightarrow> string \<Rightarrow> int \<Rightarrow> db \<Rightarrow> store_error + int" where
  "LiveBudgetGrantSum cred subject now d =
     (if \<not> texts_ok [cred, subject] then Inl (ErrPg bad_text)
      else scan_int64 (sum_list (map (\<lambda>g. the (grAmount g))
             (filter (\<lambda>g. grant_matches cred ''budget'' subject now g \<and> grAmount g \<noteq> None) (permit_grant d)))))"

definition sweep_reservations :: "string \<Rightarrow> int \<Rightarrow> db \<Rightarrow> db" where
  "sweep_reservations cred now d = d\<lparr>spend_reservation :=
     filter (\<lambda>r. \<not> (srCredentialName r = cred \<and> srExpiresAt r \<le> now)) (spend_reservation d)\<rparr>"

definition budget_needs :: "Credential \<Rightarrow> int \<Rightarrow> int \<Rightarrow> BudgetNeed list" where
  "budget_needs cred cents tokens =
     (case crCapCents cred of
        Some cap \<Rightarrow> if cents \<ge> cap then [\<lparr>bnSubject = ''cents'', bnUsed = cents, bnCap = cap\<rparr>] else []
      | None \<Rightarrow> []) @
     (case crCapTokens cred of
        Some cap \<Rightarrow> if tokens \<ge> cap then [\<lparr>bnSubject = ''tokens'', bnUsed = tokens, bnCap = cap\<rparr>] else []
      | None \<Rightarrow> [])"

text \<open>A cap is covered when the grants' headroom, in \<open>int64\<close> arithmetic, lifts it above the use.\<close>

definition uncovered :: "BudgetNeed \<Rightarrow> int \<Rightarrow> bool" where
  "uncovered n extra \<longleftrightarrow> extra \<le> 0 \<or> bnUsed n \<ge> wrap64 (bnCap n + extra)"

text \<open>\<open>Inl (Inl e)\<close> is an error, \<open>Inl (Inr subject)\<close> the denial of an uncovered cap.\<close>

fun cover_needs :: "string \<Rightarrow> int \<Rightarrow> BudgetNeed list \<Rightarrow> db \<Rightarrow> (store_error + string) + db" where
  "cover_needs cred now [] d = Inr d"
| "cover_needs cred now (n # ns) d =
     (case LiveBudgetGrantSum cred (bnSubject n) now d of
        Inl e \<Rightarrow> Inl (Inl e)
      | Inr extra \<Rightarrow>
          if uncovered n extra then Inl (Inr (bnSubject n))
          else (case consumeGrantLocked cred ''budget'' (bnSubject n) now d of
                  (Inl e, _) \<Rightarrow> Inl (Inl e)
                | (Inr None, _) \<Rightarrow> Inl (Inr (bnSubject n))
                | (Inr (Some _), d') \<Rightarrow> cover_needs cred now ns d'))"

definition AdmitSpend ::
  "string \<Rightarrow> SpendHold \<Rightarrow> int \<Rightarrow> int \<Rightarrow> int \<Rightarrow> string \<Rightarrow> db \<Rightarrow> (store_error + Admission) \<times> db" where
  "AdmitSpend credential hold monthStart ttl now uuid d =
     (case lockCredential credential d of
        Inl e \<Rightarrow> (Inl e, d)
      | Inr cred \<Rightarrow>
          if crCapCents cred = None \<and> crCapTokens cred = None then (Inr NoAdmission, d)
          else
            (let d1 = sweep_reservations credential now d in
             case monthCommitted credential monthStart now d1 of
               Inl e \<Rightarrow> (Inl e, d)
             | Inr (cents, tokens) \<Rightarrow>
                 (let needs = budget_needs cred cents tokens in
                  case cover_needs credential now needs d1 of
                    Inl (Inl e) \<Rightarrow> (Inl e, d)
                  | Inl (Inr subject) \<Rightarrow> (Inr (denied_admission subject), d)
                  | Inr d2 \<Rightarrow>
                      (case insert_reservation \<lparr>srID = uuid, srCredentialName = credential,
                              srHoldCents = shCents hold, srHoldTokens = shTokens hold,
                              srCreatedAt = now, srExpiresAt = now + ttl\<rparr> d2 of
                         Inl e \<Rightarrow> (Inl e, d)
                       | Inr d3 \<Rightarrow> (Inr (NoAdmission\<lparr>adReservationID := uuid, adGranted := needs \<noteq> []\<rparr>), d3)))))"

subsection \<open>What an admission establishes\<close>

text \<open>Committed cents and tokens: ledger rows since the start of the month plus open holds.\<close>

definition committed_cents :: "string \<Rightarrow> int \<Rightarrow> int \<Rightarrow> db \<Rightarrow> int" where
  "committed_cents cred ms now d =
     sum_list (map leCostCents (ledger_rows cred ms d)) + sum_list (map srHoldCents (open_holds cred ms now d))"

definition committed_tokens :: "string \<Rightarrow> int \<Rightarrow> int \<Rightarrow> db \<Rightarrow> int" where
  "committed_tokens cred ms now d =
     sum_list (map row_tokens (ledger_rows cred ms d)) + sum_list (map srHoldTokens (open_holds cred ms now d))"

lemma monthCommitted_Inr:
  "monthCommitted cred ms now d = Inr (c, t) \<Longrightarrow> c = committed_cents cred ms now d \<and> t = committed_tokens cred ms now d"
  by (auto simp: monthCommitted_def Let_def committed_cents_def committed_tokens_def scan_int64_def split: if_splits)

lemma open_holds_sweep: "open_holds cred ms now (sweep_reservations c now d) = open_holds cred ms now d"
  by (auto simp: open_holds_def sweep_reservations_def intro!: filter_cong)

lemma sweep_frame [frame_simps]:
  "ledger_rows cred ms (sweep_reservations c now d) = ledger_rows cred ms d"
  "permit_grant (sweep_reservations c now d) = permit_grant d"
  "credentials (sweep_reservations c now d) = credentials d"
  by (simp_all add: sweep_reservations_def ledger_rows_def)

lemma committed_sweep:
  "committed_cents cred ms now (sweep_reservations c now d) = committed_cents cred ms now d"
  "committed_tokens cred ms now (sweep_reservations c now d) = committed_tokens cred ms now d"
  by (simp_all add: committed_cents_def committed_tokens_def open_holds_sweep frame_simps)

lemma monthCommitted_sweep: "monthCommitted cred ms now (sweep_reservations c now d) = monthCommitted cred ms now d"
  by (simp add: monthCommitted_def open_holds_sweep frame_simps)

lemma cover_needs_frame:
  "cover_needs cred now ns d = Inr d' \<Longrightarrow> spend_reservation d' = spend_reservation d \<and>
     ledger_entry d' = ledger_entry d \<and> credentials d' = credentials d"
proof (induction ns arbitrary: d)
  case (Cons n ns)
  from Cons.prems obtain g d1 where c: "consumeGrantLocked cred ''budget'' (bnSubject n) now d = (Inr (Some g), d1)"
    and r: "cover_needs cred now ns d1 = Inr d'"
    by (auto split: sum.splits if_splits prod.splits option.splits)
  from c have "\<exists>i. d1 = burn_use i d" by (cases rule: consumeGrantLocked_outcome) auto
  then show ?case using Cons.IH [OF r] by (auto simp: frame_simps)
qed simp

lemma AdmitSpend_outcome:
  assumes "AdmitSpend cn hold ms ttl now uuid d = (r, d')"
  obtains e where "r = Inl e" "d' = d"
  | c where "r = Inr NoAdmission" "d' = d" "lockCredential cn d = Inr c" "crCapCents c = None" "crCapTokens c = None"
  | c subject where "r = Inr (denied_admission subject)" "d' = d" "lockCredential cn d = Inr c"
      "cover_needs cn now (budget_needs c (committed_cents cn ms now d) (committed_tokens cn ms now d))
         (sweep_reservations cn now d) = Inl (Inr subject)"
  | c d2 where "r = Inr (NoAdmission\<lparr>adReservationID := uuid,
        adGranted := budget_needs c (committed_cents cn ms now d) (committed_tokens cn ms now d) \<noteq> []\<rparr>)"
      "lockCredential cn d = Inr c" "\<not> (crCapCents c = None \<and> crCapTokens c = None)"
      "cover_needs cn now (budget_needs c (committed_cents cn ms now d) (committed_tokens cn ms now d))
         (sweep_reservations cn now d) = Inr d2"
      "d' = d2\<lparr>spend_reservation := spend_reservation d2 @
        [\<lparr>srID = uuid, srCredentialName = cn, srHoldCents = shCents hold, srHoldTokens = shTokens hold,
          srCreatedAt = now, srExpiresAt = now + ttl\<rparr>]\<rparr>"
      "0 \<le> shCents hold" "0 \<le> shTokens hold"
proof (cases "lockCredential cn d")
  case (Inl e)
  then show thesis using assms that(1) by (auto simp: AdmitSpend_def)
next
  case (Inr c)
  note lk = this
  show thesis
  proof (cases "crCapCents c = None \<and> crCapTokens c = None")
    case True
    then show thesis using assms lk that(2) by (auto simp: AdmitSpend_def)
  next
    case caps: False
    show thesis
    proof (cases "monthCommitted cn ms now (sweep_reservations cn now d)")
      case (Inl e)
      then show thesis using assms lk caps that(1) by (auto simp: AdmitSpend_def Let_def)
    next
      case (Inr ct)
      then obtain ce to where ct: "ct = (ce, to)" by fastforce
      then have eq: "ce = committed_cents cn ms now d" "to = committed_tokens cn ms now d"
        using monthCommitted_Inr Inr by (simp_all add: monthCommitted_sweep)
      let ?needs = "budget_needs c (committed_cents cn ms now d) (committed_tokens cn ms now d)"
      note u = assms [unfolded AdmitSpend_def Let_def lk Inr ct eq]
      show thesis
      proof (cases "cover_needs cn now ?needs (sweep_reservations cn now d)")
        case (Inl x)
        then show thesis
        proof (cases x)
          case (Inl e)
          then show thesis using u caps \<open>cover_needs _ _ _ _ = Inl x\<close> that(1) by auto
        next
          case (Inr s)
          then have "r = Inr (denied_admission s)" "d' = d" using u caps \<open>cover_needs _ _ _ _ = Inl x\<close> by auto
          then show thesis using that(3) lk Inr \<open>cover_needs _ _ _ _ = Inl x\<close> by blast
        qed
      next
        case (Inr d2)
        let ?row = "\<lparr>srID = uuid, srCredentialName = cn, srHoldCents = shCents hold, srHoldTokens = shTokens hold,
          srCreatedAt = now, srExpiresAt = now + ttl\<rparr>"
        show thesis
        proof (cases "insert_reservation ?row d2")
          case (Inl e)
          then show thesis using u caps Inr that(1) by auto
        next
          case i: (Inr d3)
          have "0 \<le> shCents hold" "0 \<le> shTokens hold" using i by (auto simp: insert_reservation_def split: if_splits)
          moreover have "d3 = d2\<lparr>spend_reservation := spend_reservation d2 @ [?row]\<rparr>" by (rule insert_frames(6) [OF i])
          moreover have "r = Inr (NoAdmission\<lparr>adReservationID := uuid, adGranted := ?needs \<noteq> []\<rparr>)" "d' = d3"
            using u caps Inr i by auto
          ultimately show thesis using that(4) lk caps Inr by blast
        qed
      qed
    qed
  qed
qed

text \<open>The new hold counts at once, so an admission without a grant never lifts the commitment above the cap by more than its own hold.\<close>

lemma AdmitSpend_hold_counts:
  assumes "AdmitSpend cn hold ms ttl now uuid d = (Inr a, d')" "adReservationID a \<noteq> []" "0 < ttl" "ms \<le> now"
  shows "committed_cents cn ms now d' = committed_cents cn ms now d + shCents hold \<and>
    committed_tokens cn ms now d' = committed_tokens cn ms now d + shTokens hold"
  using assms(1)
proof (cases rule: AdmitSpend_outcome)
  case (4 c d2)
  note f = cover_needs_frame [OF 4(4)]
  have "ledger_rows cn ms d' = ledger_rows cn ms d" using f 4(5) by (simp add: ledger_rows_def sweep_reservations_def)
  moreover have "open_holds cn ms now d' = open_holds cn ms now d @
      [\<lparr>srID = uuid, srCredentialName = cn, srHoldCents = shCents hold, srHoldTokens = shTokens hold,
          srCreatedAt = now, srExpiresAt = now + ttl\<rparr>]"
    using f 4(5) assms(3,4) open_holds_sweep [of cn ms now cn d] by (simp add: open_holds_def)
  ultimately show ?thesis by (simp add: committed_cents_def committed_tokens_def)
qed (use assms(2) in \<open>simp_all add: NoAdmission_def denied_admission_def\<close>)

lemma AdmitSpend_under_cap:
  assumes "AdmitSpend cn hold ms ttl now uuid d = (Inr a, d')" "\<not> adDenied a" "\<not> adGranted a"
    "lockCredential cn d = Inr c"
  shows "(\<forall>cap. crCapCents c = Some cap \<longrightarrow> committed_cents cn ms now d < cap) \<and>
    (\<forall>cap. crCapTokens c = Some cap \<longrightarrow> committed_tokens cn ms now d < cap)"
  using assms(1)
proof (cases rule: AdmitSpend_outcome)
  case (4 c' d2)
  then have "budget_needs c (committed_cents cn ms now d) (committed_tokens cn ms now d) = []"
    using assms(3,4) by (simp add: NoAdmission_def)
  then show ?thesis by (auto simp: budget_needs_def split: if_splits)
qed (use assms in \<open>simp_all add: NoAdmission_def denied_admission_def\<close>)

lemma AdmitSpend_denied_unchanged:
  "AdmitSpend cn hold ms ttl now uuid d = (Inr a, d') \<Longrightarrow> adDenied a \<Longrightarrow> d' = d"
  by (erule AdmitSpend_outcome) (auto simp: NoAdmission_def)

lemma AdmitSpend_error_unchanged: "AdmitSpend cn hold ms ttl now uuid d = (Inl e, d') \<Longrightarrow> d' = d"
  by (erule AdmitSpend_outcome) auto

end
