(* ===== verification/InboundStore.thy ===== *)
theory InboundStore
  imports Approvals
begin

text \<open>
  Component \<^verbatim>\<open>plane/internal/store/inbound.go\<close>: the inbound audit trail and the one
  transaction that admits an event. The admitted row is inserted first, so a replay fails on
  the unique index before any use is burned; a missing grant rolls the row back.
\<close>

definition CredentialByName :: "string \<Rightarrow> db \<Rightarrow> store_error + Credential" where
  "CredentialByName name d = lockCredential name d"

definition RecordInboundAudit :: "InboundAuditEntry \<Rightarrow> int \<Rightarrow> string \<Rightarrow> db \<Rightarrow> (store_error + unit) \<times> db" where
  "RecordInboundAudit e now uuid d =
     (case insert_inbound_audit (e\<lparr>iaID := uuid, iaActedFor := actedFor (iaActedFor e), iaCreatedAt := now\<rparr>) d of
        Inl err \<Rightarrow> (Inl err, d)
      | Inr d' \<Rightarrow> (Inr (), d'))"

definition admitted_row :: "string \<Rightarrow> string \<Rightarrow> string \<Rightarrow> string \<Rightarrow> string \<Rightarrow> int \<Rightarrow> string \<Rightarrow> InboundAuditEntry" where
  "admitted_row hook credential delivery agent actor now uuid =
     \<lparr>iaID = uuid, iaHook = hook, iaCredentialName = credential, iaDeliveryID = delivery,
      iaDecision = ''admitted'', iaStatus = 202, iaDetail = [], iaAgent = agent, iaInputTokens = 0,
      iaOutputTokens = 0, iaActedFor = actedFor actor, iaCreatedAt = now\<rparr>"

definition AdmitInboundEvent ::
  "string \<Rightarrow> string \<Rightarrow> string \<Rightarrow> string \<Rightarrow> string \<Rightarrow> int \<Rightarrow> string \<Rightarrow> db \<Rightarrow> (store_error + (string \<times> string)) \<times> db" where
  "AdmitInboundEvent hook credential delivery agent actor now uuid d =
     (case insert_inbound_audit (admitted_row hook credential delivery agent actor now uuid) d of
        Inl e \<Rightarrow> (Inl (if e = ErrPg unique_violation then ErrReplay else e), d)
      | Inr d1 \<Rightarrow>
          (case lockCredential credential d1 of
             Inl e \<Rightarrow> (Inl e, d)
           | Inr _ \<Rightarrow>
               (case consumeGrantLocked credential ''inbound'' hook now d1 of
                  (Inl e, _) \<Rightarrow> (Inl e, d)
                | (Inr None, _) \<Rightarrow> (Inl ErrNoGrant, d)
                | (Inr (Some grantID), d2) \<Rightarrow>
                    (Inr (uuid, grantID), d2\<lparr>inbound_audit :=
                       update_first (\<lambda>e. iaID e = uuid) (\<lambda>e. e\<lparr>iaDetail := ''granted '' @ grantID\<rparr>)
                         (inbound_audit d2)\<rparr>))))"

definition InboundAudit :: "string \<Rightarrow> int \<Rightarrow> db \<Rightarrow> InboundAuditEntry list" where
  "InboundAudit hook limit d =
     newest iaCreatedAt limit (filter (\<lambda>e. hook = [] \<or> iaHook e = hook) (inbound_audit d))"

subsection \<open>One admission per delivery, and a use only with an admission\<close>

lemma AdmitInboundEvent_error_unchanged:
  "AdmitInboundEvent hook cn dl ag ac now uuid d = (Inl e, d') \<Longrightarrow> d' = d"
  by (auto simp: AdmitInboundEvent_def split: sum.splits prod.splits option.splits)

lemma AdmitInboundEvent_outcome:
  assumes "AdmitInboundEvent hook cn dl ag ac now uuid d = (Inr (ev, gid), d')"
  obtains g where "ev = uuid" "gid = grID g" "g \<in> set (permit_grant d)"
    "grant_matches cn ''inbound'' hook now g" "permit_grant d' = permit_grant (burn_use gid d)"
    "\<not> list_ex (\<lambda>q. iaDecision q = ''admitted'' \<and> iaHook q = hook \<and> iaDeliveryID q = dl) (inbound_audit d)"
    "inbound_audit d' = inbound_audit d @ [(admitted_row hook cn dl ag ac now uuid)\<lparr>iaDetail := ''granted '' @ gid\<rparr>]"
proof -
  let ?row = "admitted_row hook cn dl ag ac now uuid"
  obtain d1 where i: "insert_inbound_audit ?row d = Inr d1"
    using assms by (auto simp: AdmitInboundEvent_def split: sum.splits)
  note d1 = insert_frames(5) [OF i]
  have new: "\<not> list_ex (\<lambda>q. iaDecision q = ''admitted'' \<and> iaHook q = hook \<and> iaDeliveryID q = dl) (inbound_audit d)"
    "\<not> list_ex (\<lambda>q. iaID q = uuid) (inbound_audit d)"
    using i by (auto simp: insert_inbound_audit_def admitted_row_def list_ex_iff split: if_splits)
  obtain c d2 where c: "consumeGrantLocked cn ''inbound'' hook now d1 = (Inr (Some gid), d2)"
    and r: "ev = uuid" "d' = d2\<lparr>inbound_audit := update_first (\<lambda>e. iaID e = uuid)
        (\<lambda>e. e\<lparr>iaDetail := ''granted '' @ gid\<rparr>) (inbound_audit d2)\<rparr>"
    using assms i by (auto simp: AdmitInboundEvent_def split: sum.splits prod.splits option.splits)
  from c obtain g where g: "gid = grID g" "d2 = burn_use gid d1" "g \<in> set (permit_grant d1)"
      "grant_matches cn ''inbound'' hook now g"
    by (cases rule: consumeGrantLocked_outcome) auto
  have p1: "permit_grant d1 = permit_grant d" using d1 by (cases d) simp
  have a1: "inbound_audit d1 = inbound_audit d @ [?row]" using d1 by (cases d) simp
  have upd: "update_first p f (xs @ [x]) = xs @ [f x]" if "\<forall>y \<in> set xs. \<not> p y" "p x"
    for p :: "InboundAuditEntry \<Rightarrow> bool" and f xs x
    using that by (induction xs) auto
  have "inbound_audit d' = inbound_audit d @ [?row\<lparr>iaDetail := ''granted '' @ gid\<rparr>]"
    using r(2) g(2) a1 new(2) upd [of "inbound_audit d" "\<lambda>e. iaID e = uuid" ?row]
    by (simp add: frame_simps list_ex_iff admitted_row_def)
  moreover have "permit_grant d' = permit_grant (burn_use gid d)"
    using r(2) g(2) p1 by (simp add: burn_use_def)
  ultimately show thesis using that [OF r(1) g(1)] g p1 new(1) by simp
qed

lemma AdmitInboundEvent_replay:
  assumes "list_ex (\<lambda>q. iaDecision q = ''admitted'' \<and> iaHook q = hook \<and> iaDeliveryID q = dl) (inbound_audit d)"
  shows "\<exists>e. AdmitInboundEvent hook cn dl ag ac now uuid d = (Inl e, d)"
proof -
  have "\<exists>e. insert_inbound_audit (admitted_row hook cn dl ag ac now uuid) d = Inl e"
    using assms by (auto simp: insert_inbound_audit_def admitted_row_def)
  then show ?thesis by (auto simp: AdmitInboundEvent_def)
qed

end
