(* ===== verification/World.thy ===== *)
theory World
  imports Spend InboundStore
begin

text \<open>
  The plane's view of Postgres: a database, a clock, a supply of fresh uuids and a script
  of faults. A call that meets \<open>FFail\<close> fails before it starts; one that meets \<open>FLostAck\<close>
  commits and then loses the answer, so the caller sees an error although the change
  stands. The seams take the store as a record of operations over a state; \<open>pg_\<close> wraps the
  operations of the store theories into such records.
\<close>

datatype fault = FNone | FFail | FLostAck

record world =
  wdb :: db
  wnow :: int
  wuuid :: "nat \<Rightarrow> string"
  wnext :: nat
  wfaults :: "fault list"

definition next_fault :: "world \<Rightarrow> fault \<times> world" where
  "next_fault w = (case wfaults w of [] \<Rightarrow> (FNone, w) | f # fs \<Rightarrow> (f, w\<lparr>wfaults := fs\<rparr>))"

definition pg_write :: "(int \<Rightarrow> string \<Rightarrow> db \<Rightarrow> (store_error + 'a) \<times> db) \<Rightarrow> world \<Rightarrow> (store_error + 'a) \<times> world" where
  "pg_write f w =
     (case next_fault w of
        (FFail, w1) \<Rightarrow> (Inl ErrConn, w1)
      | (flt, w1) \<Rightarrow>
          (case f (wnow w1) (wuuid w1 (wnext w1)) (wdb w1) of
             (r, d) \<Rightarrow> ((if flt = FLostAck then Inl ErrConn else r),
                        w1\<lparr>wdb := d, wnext := Suc (wnext w1)\<rparr>)))"

definition pg_read :: "(int \<Rightarrow> db \<Rightarrow> store_error + 'a) \<Rightarrow> world \<Rightarrow> (store_error + 'a) \<times> world" where
  "pg_read f w =
     (case next_fault w of
        (FNone, w1) \<Rightarrow> (f (wnow w1) (wdb w1), w1)
      | (_, w1) \<Rightarrow> (Inl ErrConn, w1))"

lemma pg_write_Inr:
  assumes "pg_write f w = (Inr x, w')"
  shows "f (wnow w) (wuuid w (wnext w)) (wdb w) = (Inr x, wdb w')" "wnow w' = wnow w" "wuuid w' = wuuid w"
  using assms
  by (auto simp: pg_write_def next_fault_def split: list.splits fault.splits prod.splits if_splits)

lemma pg_write_Inl:
  assumes "pg_write f w = (Inl e, w')"
  shows "wdb w' = wdb w \<or> (\<exists>r. f (wnow w) (wuuid w (wnext w)) (wdb w) = (r, wdb w'))"
  using assms
  by (auto simp: pg_write_def next_fault_def split: list.splits fault.splits prod.splits if_splits)

lemma pg_write_cases:
  assumes "pg_write f w = (r, w')"
  shows "wnow w' = wnow w \<and> wuuid w' = wuuid w \<and>
    (wdb w' = wdb w \<or> (\<exists>r'. f (wnow w) (wuuid w (wnext w)) (wdb w) = (r', wdb w')))"
  using assms
  by (auto simp: pg_write_def next_fault_def split: list.splits fault.splits prod.splits if_splits)

lemma pg_read_frame: "pg_read f w = (r, w') \<Longrightarrow> wdb w' = wdb w \<and> wnow w' = wnow w \<and> wuuid w' = wuuid w"
  by (auto simp: pg_read_def next_fault_def split: list.splits fault.splits prod.splits)

lemma pg_read_Inr: "pg_read f w = (Inr x, w') \<Longrightarrow> f (wnow w) (wdb w) = Inr x"
  by (auto simp: pg_read_def next_fault_def split: list.splits fault.splits prod.splits)

end
