(* ===== verification/StoreSteps.thy ===== *)
theory StoreSteps
  imports World
begin

text \<open>
  The database as a state machine: one rule per writing operation of
  \<^verbatim>\<open>plane/internal/store\<close>, each one transaction at some time and with some fresh row id. The
  reachable databases are those a sequence of transactions leads to from the empty tables,
  in any interleaving of the callers.
\<close>

definition empty_db :: db where
  "empty_db = \<lparr>credentials = [], ledger_entry = [], tool_allowlist = [], tool_audit = [],
     approval_request = [], permit_grant = [], approval_audit = [], inbound_audit = [],
     spend_reservation = [], agent_run = []\<rparr>"

inductive store_step :: "db \<Rightarrow> db \<Rightarrow> bool" where
  step_create: "CreateCredential name h ex now d = (r, d') \<Longrightarrow> store_step d d'"
| step_budget: "SetBudget name cents tokens d = (r, d') \<Longrightarrow> store_step d d'"
| step_renew: "RenewCredential name ex d = (r, d') \<Longrightarrow> store_step d d'"
| step_ledger: "RecordLedger e res now d = (r, d') \<Longrightarrow> store_step d d'"
| step_allowlist: "SetToolAllowlist name tools d = (r, d') \<Longrightarrow> store_step d d'"
| step_tool_audit: "RecordToolAudit ta now d = (r, d') \<Longrightarrow> store_step d d'"
| step_file: "FileRequest f now uuid d = (rf, d') \<Longrightarrow> store_step d d'"
| step_approve: "ApproveRequest rid ex mu am decider now uuid d = (ra, d') \<Longrightarrow> store_step d d'"
| step_deny: "DenyApprovalRequest rid decider now d = (r, d') \<Longrightarrow> store_step d d'"
| step_consume: "ConsumeToolGrant cred tool dig now d = (rc, d') \<Longrightarrow> store_step d d'"
| step_admit: "AdmitSpend cred hold ms ttl now uuid d = (rs, d') \<Longrightarrow> store_step d d'"
| step_inbound_audit: "RecordInboundAudit ia now uuid d = (r, d') \<Longrightarrow> store_step d d'"
| step_inbound: "AdmitInboundEvent hook cred delivery agent actor now uuid d = (ri, d') \<Longrightarrow> store_step d d'"
| step_open_run: "OpenRun cred actor source delivery ev ttl now uuid d = (ru, d') \<Longrightarrow> store_step d d'"
| step_close_run: "CloseRun rid now d = (r, d') \<Longrightarrow> store_step d d'"

inductive store_reachable :: "db \<Rightarrow> bool" where
  reach_empty: "store_reachable empty_db"
| reach_step: "store_reachable d \<Longrightarrow> store_step d d' \<Longrightarrow> store_reachable d'"

subsection \<open>What a grant must have behind it\<close>

definition backs :: "ApprovalRequest \<Rightarrow> Grant \<Rightarrow> bool" where
  "backs r g \<longleftrightarrow> arID r = grRequestID g \<and> arStatus r = ''approved'' \<and> arDecidedBy r \<noteq> [] \<and>
     arCredentialName r = grCredentialName g \<and> arKind r = grKind g \<and> arSubject r = grSubject g \<and>
     grArgDigest g = (if arKind r = ''tool'' then Some (arArgDigest r) else None) \<and>
     (arKind r = ''tool'' \<longrightarrow> arArgDigest r \<noteq> [])"

definition approved_entry :: "db \<Rightarrow> Grant \<Rightarrow> bool" where
  "approved_entry d g \<longleftrightarrow> (\<exists>e \<in> set (approval_audit d). aaRequestID e = grRequestID g \<and> aaAction e = ''approved'' \<and>
     aaCredentialName e = grCredentialName g \<and> aaSubject e = grSubject g \<and> aaDecidedBy e \<noteq> [])"

definition grants_backed :: "db \<Rightarrow> bool" where
  "grants_backed d \<longleftrightarrow> approvals_wf d \<and> distinct (map grRequestID (permit_grant d)) \<and>
     (\<forall>g \<in> set (permit_grant d). (\<exists>r \<in> set (approval_request d). backs r g) \<and> approved_entry d g)"

lemma grants_backed_frame:
  "approval_request d' = approval_request d \<Longrightarrow> permit_grant d' = permit_grant d \<Longrightarrow>
     approval_audit d' = approval_audit d \<Longrightarrow> grants_backed d' = grants_backed d"
  by (simp add: grants_backed_def approved_entry_def approvals_wf_frame [of d' d])

lemma grants_backed_grow:
  assumes "grants_backed d" "approvals_wf d'" "permit_grant d' = permit_grant d"
    and "set (approval_audit d) \<subseteq> set (approval_audit d')"
    and "\<And>g. g \<in> set (permit_grant d) \<Longrightarrow> \<exists>r \<in> set (approval_request d'). backs r g"
  shows "grants_backed d'"
proof -
  have "approved_entry d' g" if "approved_entry d g" for g
    using that assms(4) by (auto simp: approved_entry_def)
  then show ?thesis using assms by (simp add: grants_backed_def)
qed

lemma grants_backed_burn:
  assumes "grants_backed d" "g \<in> set (permit_grant d)" "grantLive now g"
  shows "grants_backed (burn_use (grID g) d)"
proof -
  have w: "approvals_wf (burn_use (grID g) d)"
    using burn_use_wf assms by (auto simp: grants_backed_def)
  have "distinct (map grID (permit_grant d))" using assms(1) by (simp add: grants_backed_def approvals_wf_def)
  then obtain ys zs where s: "permit_grant d = ys @ g # zs"
    "permit_grant (burn_use (grID g) d) = ys @ g\<lparr>grUses := grUses g + 1\<rparr> # zs"
    using burn_split assms(2) by blast
  have b: "backs r (g\<lparr>grUses := grUses g + 1\<rparr>) = backs r g" for r by (simp add: backs_def)
  have e: "approved_entry (burn_use (grID g) d) h = approved_entry d h" for h
    by (simp add: approved_entry_def frame_simps)
  have e': "approved_entry d (g\<lparr>grUses := grUses g + 1\<rparr>) = approved_entry d g" by (simp add: approved_entry_def)
  show ?thesis using assms(1) w unfolding grants_backed_def s by (auto simp: b e e' frame_simps)
qed

lemma grants_backed_file:
  assumes "FileRequest f now uuid d = (r, d')" "grants_backed d"
  shows "grants_backed d'"
proof -
  have "approvals_wf d'" using FileRequest_wf assms by (auto simp: grants_backed_def)
  moreover have t: "permit_grant d' = permit_grant d \<and> set (approval_request d) \<subseteq> set (approval_request d') \<and>
      set (approval_audit d) \<subseteq> set (approval_audit d')"
    using assms(1) by (cases rule: FileRequest_outcome) auto
  moreover have "\<exists>r \<in> set (approval_request d'). backs r g" if "g \<in> set (permit_grant d)" for g
    using assms(2) t that unfolding grants_backed_def by blast
  ultimately show ?thesis using grants_backed_grow [OF assms(2)] by simp
qed

text \<open>A decision touches a pending request only, and a pending request backs no grant.\<close>

lemma decide_keeps_backing:
  assumes "pending_request rid d = Inr r" "grants_backed d" "g \<in> set (permit_grant d)"
  shows "\<exists>q \<in> set (approval_request (decide (arID r) st by now d)). backs q g"
    and "grRequestID g \<noteq> arID r"
proof -
  have dist: "distinct (map arID (approval_request d))" using assms(2) by (simp add: grants_backed_def approvals_wf_def)
  obtain ys zs where s: "approval_request d = ys @ r # zs" "arStatus r = ''pending''"
    "approval_request (decide (arID r) st by now d) = ys @ r\<lparr>arStatus := st, arDecidedAt := Some now, arDecidedBy := by\<rparr> # zs"
    by (rule decide_requests [OF assms(1) dist])
  obtain q where q: "q \<in> set (approval_request d)" "backs q g"
    using assms(2,3) by (auto simp: grants_backed_def)
  then have "q \<noteq> r" using s(2) by (auto simp: backs_def)
  then show "\<exists>q \<in> set (approval_request (decide (arID r) st by now d)). backs q g"
    using q s by auto
  have "arID q \<noteq> arID r" using q(1) \<open>q \<noteq> r\<close> dist unfolding s(1) by (auto simp: image_iff)
  then show "grRequestID g \<noteq> arID r" using q(2) by (simp add: backs_def)
qed

lemma grants_backed_deny:
  assumes "DenyApprovalRequest rid by now d = (res, d')" "grants_backed d"
  shows "grants_backed d'"
  using assms(1)
proof (cases rule: DenyApprovalRequest_outcome)
  case (2 r)
  have "approvals_wf d'" using DenyApprovalRequest_wf assms by (auto simp: grants_backed_def)
  moreover have "permit_grant d' = permit_grant d" "set (approval_audit d) \<subseteq> set (approval_audit d')"
    "approval_request d' = approval_request (decide (arID r) ''denied'' by now d)"
    using 2(4) by (auto simp: decide_def)
  ultimately show ?thesis using decide_keeps_backing(1) [OF 2(3) assms(2)] grants_backed_grow [OF assms(2)] by simp
qed (use assms(2) in simp)

lemma grants_backed_approve:
  assumes "ApproveRequest rid ex mu am by now uuid d = (res, d')" "grants_backed d"
  shows "grants_backed d'"
  using assms(1)
proof (cases rule: ApproveRequest_outcome)
  case (2 r)
  let ?g = "minted r ex mu am by now uuid"
  have dist: "distinct (map arID (approval_request d))" using assms(2) by (simp add: grants_backed_def approvals_wf_def)
  have w: "approvals_wf d'" using ApproveRequest_wf assms by (auto simp: grants_backed_def)
  have t: "permit_grant d' = permit_grant d @ [?g]"
    "approval_request d' = approval_request (decide (arID r) ''approved'' by now d)"
    "approval_audit d' = approval_audit d @ [decision_audit r ''approved'' (bounds_text ex mu am) by now]"
    using 2(9) by simp_all
  obtain ys zs where "approval_request (decide (arID r) ''approved'' by now d) =
      ys @ r\<lparr>arStatus := ''approved'', arDecidedAt := Some now, arDecidedBy := by\<rparr> # zs"
    by (rule decide_requests [OF 2(3) dist])
  then have "r\<lparr>arStatus := ''approved'', arDecidedAt := Some now, arDecidedBy := by\<rparr> \<in> set (approval_request d')"
    by (simp add: t(2))
  moreover have "backs (r\<lparr>arStatus := ''approved'', arDecidedAt := Some now, arDecidedBy := by\<rparr>) ?g"
    using 2(2,4) by (simp add: backs_def minted_def)
  ultimately have new: "\<exists>q \<in> set (approval_request d'). backs q ?g" by blast
  have entry: "approved_entry d' ?g"
    using 2(2) by (simp add: approved_entry_def t(3) decision_audit_def minted_def)
  have old: "(\<exists>q \<in> set (approval_request d'). backs q g) \<and> approved_entry d' g \<and> grRequestID g \<noteq> arID r"
    if "g \<in> set (permit_grant d)" for g
    using decide_keeps_backing [OF 2(3) assms(2) that] assms(2) that
    by (auto simp: t grants_backed_def approved_entry_def)
  have "grRequestID g \<noteq> arID r" if "g \<in> set (permit_grant d)" for g using old [OF that] by (elim conjE)
  then have fresh: "arID r \<notin> grRequestID ` set (permit_grant d)" by force
  have "distinct (map grRequestID (permit_grant d))" using assms(2) by (simp add: grants_backed_def)
  then have d1: "distinct (map grRequestID (permit_grant d'))" using fresh by (simp add: t(1) minted_def)
  have "(\<exists>q \<in> set (approval_request d'). backs q g) \<and> approved_entry d' g" if "g \<in> set (permit_grant d')" for g
  proof (cases "g = ?g")
    case True
    then show ?thesis using new entry by simp
  next
    case False
    then show ?thesis using old that by (simp add: t(1))
  qed
  then show ?thesis using w d1 unfolding grants_backed_def by blast
qed (use assms(2) in simp)

subsection \<open>Every transaction keeps it\<close>

lemma cover_needs_keeps:
  assumes "cover_needs cred now ns d = Inr d'" "P d"
    and "\<And>d g. P d \<Longrightarrow> g \<in> set (permit_grant d) \<Longrightarrow> grantLive now g \<Longrightarrow> P (burn_use (grID g) d)"
  shows "P d'"
  using assms(1,2)
proof (induction ns arbitrary: d)
  case (Cons n ns)
  from Cons.prems obtain gid d1 where c: "consumeGrantLocked cred ''budget'' (bnSubject n) now d = (Inr (Some gid), d1)"
    and r: "cover_needs cred now ns d1 = Inr d'"
    by (auto split: sum.splits if_splits prod.splits option.splits)
  from c have "P d1"
    by (cases rule: consumeGrantLocked_outcome) (use assms(3) Cons.prems(2) in \<open>auto simp: grant_matches_def\<close>)
  then show ?case using Cons.IH [OF r] by simp
qed simp

lemma admit_spend_backed:
  assumes "AdmitSpend cred hold ms ttl now uuid d = (r, d')" "grants_backed d"
  shows "grants_backed d'"
  using assms(1)
proof (cases rule: AdmitSpend_outcome)
  case (4 c d2)
  have "grants_backed (sweep_reservations cred now d)"
    using grants_backed_frame [of "sweep_reservations cred now d" d] assms(2) by (simp add: sweep_reservations_def)
  then have "grants_backed d2"
    by (rule cover_needs_keeps [OF 4(4)]) (rule grants_backed_burn)
  then show ?thesis using grants_backed_frame [of d' d2] by (simp add: 4(5))
qed (use assms(2) in simp_all)

lemma consume_backed:
  assumes "ConsumeToolGrant cred tool dig now d = (r, d')" "grants_backed d"
  shows "grants_backed d'"
proof (cases "lockCredential cred d")
  case (Inr c)
  then have "consumeToolGrantLocked cred tool dig now d = (r, d')" using assms(1) by (simp add: ConsumeToolGrant_def)
  then show ?thesis
    by (cases rule: consumeToolGrantLocked_outcome)
       (use assms(2) grants_backed_burn in \<open>auto simp: exact_match_def legacy_match_def grant_matches_def\<close>)
qed (use assms in \<open>simp add: ConsumeToolGrant_def\<close>)

lemma inbound_backed:
  assumes "AdmitInboundEvent hook cred dl ag ac now uuid d = (r, d')" "grants_backed d"
  shows "grants_backed d'"
proof (cases r)
  case (Inl e)
  then show ?thesis using AdmitInboundEvent_error_unchanged assms by blast
next
  case (Inr x)
  obtain ev gid where x: "x = (ev, gid)" by fastforce
  from assms(1) [unfolded Inr x]
  obtain g where g: "gid = grID g" "g \<in> set (permit_grant d)" "grantLive now g"
    "permit_grant d' = permit_grant (burn_use gid d)"
    by (cases rule: AdmitInboundEvent_outcome) (auto simp: grant_matches_def)
  have "approval_request d' = approval_request d \<and> approval_audit d' = approval_audit d"
    using assms(1) Inr
    by (auto simp: AdmitInboundEvent_def consumeGrantLocked_def frame_simps
        split: sum.splits prod.splits option.splits if_splits dest!: insert_frames(5) arg_cong [where f = approval_request] arg_cong [where f = approval_audit])
  then show ?thesis
    using grants_backed_burn [OF assms(2) g(2,3)] grants_backed_frame [of d' "burn_use gid d"] g
    by (simp add: frame_simps)
qed

text \<open>The transactions that leave the approval tables alone.\<close>

definition approvals_same :: "db \<Rightarrow> db \<Rightarrow> bool" where
  "approvals_same d d' \<longleftrightarrow> approval_request d' = approval_request d \<and> permit_grant d' = permit_grant d \<and>
     approval_audit d' = approval_audit d"

lemma approvals_same_backed: "approvals_same d d' \<Longrightarrow> grants_backed d \<Longrightarrow> grants_backed d'"
  using grants_backed_frame [of d' d] by (simp add: approvals_same_def)

lemma other_steps_same:
  "CreateCredential name h ex now d = (r1, d') \<Longrightarrow> approvals_same d d'"
  "SetBudget name cents tokens d = (r2, d') \<Longrightarrow> approvals_same d d'"
  "RenewCredential name ex d = (r3, d') \<Longrightarrow> approvals_same d d'"
  "RecordLedger e res now d = (r4, d') \<Longrightarrow> approvals_same d d'"
  "SetToolAllowlist name tools d = (r5, d') \<Longrightarrow> approvals_same d d'"
  "RecordToolAudit ta now d = (r6, d') \<Longrightarrow> approvals_same d d'"
  "RecordInboundAudit ia now uuid d = (r7, d') \<Longrightarrow> approvals_same d d'"
  "OpenRun cred actor source delivery ev ttl now uuid d = (r8, d') \<Longrightarrow> approvals_same d d'"
  "CloseRun rid now d = (r9, d') \<Longrightarrow> approvals_same d d'"
  by (auto simp: approvals_same_def CreateCredential_def insert_credential_def SetBudget_def RenewCredential_def
      RecordLedger_def insert_ledger_def SetToolAllowlist_def RecordToolAudit_def insert_tool_audit_def
      RecordInboundAudit_def insert_inbound_audit_def OpenRun_def insert_run_def CloseRun_def Let_def
      split: sum.splits if_splits option.splits)

lemma store_step_backed: "store_step d d' \<Longrightarrow> grants_backed d \<Longrightarrow> grants_backed d'"
  by (erule store_step.cases)
     (blast intro: other_steps_same [THEN approvals_same_backed] grants_backed_file grants_backed_approve
       grants_backed_deny consume_backed admit_spend_backed inbound_backed)+

lemma reachable_backed: "store_reachable d \<Longrightarrow> grants_backed d"
proof (induction rule: store_reachable.induct)
  case reach_empty
  then show ?case by (simp add: grants_backed_def approvals_wf_def empty_db_def)
next
  case (reach_step d d')
  then show ?case by (blast intro: store_step_backed)
qed

end
