(* ===== verification/StoreEval.thy ===== *)
theory StoreEval
  imports Digest StoreSteps
begin

text \<open>
  Evaluation of the store on concrete databases: identifiers and texts of a closed term, and
  a small database with one credential, one pending tool request and the grant its approval
  mints, for the witnesses of the properties.
\<close>

lemma uuid_digits_num:
  "uuid_digits (numeral k) (a # b # r) =
     (case (hex_value a, hex_value b) of
        (Some x, Some y) \<Rightarrow>
          (let n = pred_numeral k;
               r2 = (if n mod 2 = 0 \<and> n > 0 \<and> r \<noteq> [] \<and> hd r = CHR ''-'' then tl r else r)
           in case uuid_digits n r2 of
                None \<Rightarrow> None
              | Some (ds, rest) \<Rightarrow> Some (hex_digit x # hex_digit y # ds, rest))
      | _ \<Rightarrow> None)"
  by (simp only: numeral_eq_Suc uuid_digits.simps Let_def)

lemma ascii_text_ok: "list_all (\<lambda>c. 0 < code c \<and> code c < 128) s \<Longrightarrow> pg_text_ok s"
proof -
  assume a: "list_all (\<lambda>c. 0 < code c \<and> code c < 128) s"
  then have "utf8_valid s" by (intro utf8_valid_ascii) (simp add: list_all_iff)
  moreover have "CHR 0x00 \<notin> set s" using a by (auto simp: list_all_iff)
  ultimately show ?thesis by (simp add: pg_text_ok_def)
qed

definition demo_uuid :: string where
  "demo_uuid = ''11111111-1111-1111-1111-111111111111''"

lemma demo_uuid_ok: "pg_uuid demo_uuid = Some demo_uuid"
  by (simp add: demo_uuid_def pg_uuid_def uuid_print_def uuid_digits_num Let_def go_defs)

definition demo_cred :: CredentialRow where
  "demo_cred = \<lparr>crName = ''bot'', crCapCents = None, crCapTokens = Some 2, crExpiresAt = Some 100,
     crCreatedAt = 0, crTokenHash = ''h''\<rparr>"

definition demo_filing :: Filing where
  "demo_filing = \<lparr>fiCredential = ''bot'', fiKind = ''tool'', fiSubject = ''pay'', fiDetail = [],
     fiArgDigest = ''dd'', fiArgSummary = ''pay: amount 7''\<rparr>"

definition demo_request :: ApprovalRequest where
  "demo_request = request_of demo_filing 1 demo_uuid"

definition demo_grant :: Grant where
  "demo_grant = minted demo_request None (Some 1) None ''ana'' 2 demo_uuid"

text \<open>The credential exists and a request is pending; then it is approved for one use.\<close>

definition demo_pending :: db where
  "demo_pending = empty_db\<lparr>credentials := [demo_cred], approval_request := [demo_request],
     approval_audit := [requested_audit demo_filing 1 demo_uuid]\<rparr>"

definition demo_approved :: db where
  "demo_approved = (decide demo_uuid ''approved'' ''ana'' 2 demo_pending)\<lparr>permit_grant := [demo_grant],
     approval_audit := [requested_audit demo_filing 1 demo_uuid,
       decision_audit demo_request ''approved'' ''uses=1'' ''ana'' 2]\<rparr>"

lemmas demo_defs = demo_pending_def demo_approved_def demo_grant_def demo_request_def demo_filing_def demo_cred_def
  empty_db_def request_of_def minted_def requested_audit_def decision_audit_def decide_def

lemma texts_ok_ascii: "list_all (list_all (\<lambda>c. 0 < code c \<and> code c < 128)) ss \<Longrightarrow> texts_ok ss"
  unfolding texts_ok_def by (auto simp: list_all_iff intro!: ascii_text_ok)

lemma demo_files:
  "FileRequest demo_filing 1 demo_uuid (empty_db\<lparr>credentials := [demo_cred]\<rparr>) = (Inr (demo_uuid, True), demo_pending)"
  by (simp add: FileRequest_def insert_request_def insert_approval_audit_def kind_ok_def has_credential_def
      texts_ok_ascii demo_defs demo_uuid_def)

lemma bounds_uses_1: "bounds_text None (Some 1) None = ''uses=1''"
  by (simp add: bounds_text_def trim_space_def space_rune_def go_defs format_nat.simps)

lemma demo_approves:
  "ApproveRequest demo_uuid None (Some 1) None ''ana'' 2 demo_uuid demo_pending = (Inr demo_grant, demo_approved)"
  using demo_uuid_ok
  by (simp add: ApproveRequest_def pending_request_def Let_def insert_grant_def insert_approval_audit_def
      kind_ok_def has_credential_def texts_ok_ascii ascii_text_ok grant_row_ok_def bounds_uses_1 demo_defs demo_uuid_def)

lemma demo_creates:
  "CreateCredential ''bot'' ''h'' 100 0 empty_db = (Inr (), empty_db\<lparr>credentials := [demo_cred\<lparr>crCapTokens := None\<rparr>]\<rparr>)"
  "SetBudget ''bot'' None (Some 2) (empty_db\<lparr>credentials := [demo_cred\<lparr>crCapTokens := None\<rparr>]\<rparr>) =
     (Inr (), empty_db\<lparr>credentials := [demo_cred]\<rparr>)"
  by (simp_all add: CreateCredential_def insert_credential_def SetBudget_def has_credential_def cap_ok_def
      ascii_text_ok demo_defs)

lemma demo_reachable: "store_reachable demo_pending" "store_reachable demo_approved"
proof -
  have "store_reachable (empty_db\<lparr>credentials := [demo_cred]\<rparr>)"
    by (rule reach_step [OF reach_step [OF reach_empty step_create [OF demo_creates(1)]] step_budget [OF demo_creates(2)]])
  then show "store_reachable demo_pending" by (rule reach_step [OF _ step_file [OF demo_files]])
  then show "store_reachable demo_approved" by (rule reach_step [OF _ step_approve [OF demo_approves]])
qed

lemma demo_consumes:
  "ConsumeToolGrant ''bot'' ''pay'' ''dd'' 3 demo_approved =
     (Inr (Some demo_uuid), burn_use demo_uuid demo_approved)"
  by (simp add: ConsumeToolGrant_def consumeToolGrantLocked_def lockCredential_def texts_ok_ascii ascii_text_ok
      exact_match_def grant_matches_def grantLive_def oldest_def demo_defs)

end
