(* ===== verification/StoreProps.thy ===== *)
theory StoreProps
  imports StoreEval
begin

text \<open>
  What the store and the meter guarantee: every live permission has an approval behind it,
  counted grants admit exactly their uses, filing is idempotent, spend stays under its cap,
  a delivery is admitted once, and a call is attributed only when it can be.
\<close>

subsection \<open>Approvals\<close>

text \<open>
  C7: in every database a sequence of the store's transactions leads to, each grant was minted
  by its own approved request: same credential, kind and subject, a named decider, an entry in
  the approval audit, for a tool the exact argument digest of the reviewed call, and never more
  uses than the approval gave.
\<close>

theorem every_grant_has_its_approval:
  assumes "store_reachable d" "g \<in> set (permit_grant d)"
  shows "(\<exists>r \<in> set (approval_request d). backs r g) \<and> approved_entry d g \<and> uses_within g \<and>
    (\<forall>h \<in> set (permit_grant d). grRequestID h = grRequestID g \<longrightarrow> h = g)"
proof -
  have b: "grants_backed d" by (rule reachable_backed [OF assms(1)])
  then have "inj_on grRequestID (set (permit_grant d))" by (simp add: grants_backed_def distinct_map)
  then have "\<forall>h \<in> set (permit_grant d). grRequestID h = grRequestID g \<longrightarrow> h = g"
    using assms(2) by (auto simp: inj_on_def)
  then show ?thesis using b assms(2) by (simp add: grants_backed_def approvals_wf_def)
qed

theorem every_grant_has_its_approval_witness:
  "store_reachable demo_approved \<and> approved_entry demo_approved demo_grant \<and> grArgDigest demo_grant = Some ''dd''"
  using every_grant_has_its_approval [OF demo_reachable(2), of demo_grant] demo_reachable(2)
  by (simp add: demo_approved_def) (simp add: demo_defs)

text \<open>
  An approval that is accepted mints one grant for the request's own credential, kind and
  subject, with no use spent and a bound on it; a tool grant carries the digest of the reviewed
  call, which is never empty, so no approval opens a whole tool.
\<close>

theorem approval_mints_a_bounded_welded_grant:
  assumes "ApproveRequest rid ex mu am by now uuid d = (Inr g, d')"
  shows "\<exists>r. pending_request rid d = Inr r \<and> permit_grant d' = permit_grant d @ [g] \<and>
    grRequestID g = arID r \<and> grCredentialName g = arCredentialName r \<and> grKind g = arKind r \<and>
    grSubject g = arSubject r \<and> grUses g = 0 \<and> (grExpiresAt g \<noteq> None \<or> grMaxUses g \<noteq> None) \<and>
    (grKind g = ''budget'') = (grAmount g \<noteq> None) \<and> grDecidedBy g = by \<and> by \<noteq> [] \<and>
    (grKind g = ''tool'' \<longrightarrow> grArgDigest g = Some (arArgDigest r) \<and> arArgDigest r \<noteq> [])"
  using assms by (cases rule: ApproveRequest_outcome) (auto simp: minted_def)

theorem approval_mints_a_bounded_welded_grant_witness:
  "grArgDigest demo_grant = Some ''dd'' \<and> grMaxUses demo_grant = Some 1 \<and>
   ApproveRequest demo_uuid None (Some 1) None ''ana'' 2 demo_uuid demo_pending = (Inr demo_grant, demo_approved)"
  using approval_mints_a_bounded_welded_grant [OF demo_approves] demo_approves by (auto simp: demo_grant_def minted_def demo_request_def request_of_def demo_filing_def)

text \<open>
  Filing the same call again while its request is pending changes nothing and files
  nothing: one human sees one request, however often the agent retries.
\<close>

theorem refiling_is_idempotent:
  assumes "FileRequest f now uuid d = (Inr x, d1)"
  shows "FileRequest f now' uuid' d1 = (Inr ([], False), d1)"
proof -
  have t: "texts_ok [fiCredential f, fiKind f, fiSubject f, fiDetail f, fiArgDigest f, fiArgSummary f]" "kind_ok (fiKind f)"
    using assms by (auto simp: FileRequest_def insert_request_def request_of_def split: if_splits)
  have "list_ex (same_pending (request_of f now' uuid')) (approval_request d1)"
    using assms by (cases rule: FileRequest_outcome) (auto simp: list_ex_iff same_pending_def request_of_def)
  then show ?thesis using t by (simp add: FileRequest_def insert_request_def request_of_def)
qed

theorem refiling_is_idempotent_witness:
  "FileRequest demo_filing 5 ''other'' demo_pending = (Inr ([], False), demo_pending)"
  by (rule refiling_is_idempotent [OF demo_files])

text \<open>
  C8: of any number of attempts to use a tool call's grants, exactly as many succeed as there
  are uses left to the grants that cover the call, and what is left shrinks by exactly that.
\<close>

theorem tool_grant_admits_exactly_its_uses:
  assumes "tool_ready cred tool dig now d"
  shows "fst (attempts (grab_tool_use cred tool dig now) n d) =
      min n (uses_left (\<lambda>g. exact_match cred tool dig now g \<or> legacy_match cred tool now g) d) \<and>
    uses_left (\<lambda>g. exact_match cred tool dig now g \<or> legacy_match cred tool now g)
        (snd (attempts (grab_tool_use cred tool dig now) n d)) =
      uses_left (\<lambda>g. exact_match cred tool dig now g \<or> legacy_match cred tool now g) d - n"
  using tool_uses.attempts_exact [OF assms] by blast

theorem tool_grant_admits_exactly_its_uses_witness:
  "fst (attempts (grab_tool_use ''bot'' ''pay'' ''dd'' 3) 5 demo_approved) = 1"
proof -
  have "tool_ready ''bot'' ''pay'' ''dd'' 3 demo_approved"
    by (simp add: tool_ready_def bounded_pool_def texts_ok_ascii has_credential_def demo_defs)
  from tool_grant_admits_exactly_its_uses [OF this, of 5] show ?thesis
    by (simp add: uses_left_def exact_match_def grant_matches_def grantLive_def demo_defs)
qed

text \<open>
  A tool call consumes one use of one live grant of its credential for its tool: one welded
  to exactly this call when there is one, a legacy verb-level grant only when there is none;
  nothing else of the database changes, and no grant is used when none covers the call.
\<close>

theorem exact_grant_is_consumed_first:
  assumes "ConsumeToolGrant cred tool dig now d = (Inr r, d')"
  shows "case r of
      None \<Rightarrow> d' = d \<and> (\<forall>g \<in> set (permit_grant d). \<not> exact_match cred tool dig now g \<and> \<not> legacy_match cred tool now g)
    | Some gid \<Rightarrow> \<exists>g \<in> set (permit_grant d). gid = grID g \<and> d' = burn_use gid d \<and> grantLive now g \<and>
        (if \<exists>h \<in> set (permit_grant d). exact_match cred tool dig now h
         then grArgDigest g = Some dig else grArgDigest g = None)"
proof -
  have "consumeToolGrantLocked cred tool dig now d = (Inr r, d')"
    using assms by (auto simp: ConsumeToolGrant_def split: sum.splits)
  then show ?thesis
    by (cases rule: consumeToolGrantLocked_outcome)
       (auto simp: exact_match_def legacy_match_def grant_matches_def)
qed

theorem exact_grant_is_consumed_first_witness:
  "\<exists>g \<in> set (permit_grant demo_approved). grID g = demo_uuid \<and> grantLive 3 g"
  using exact_grant_is_consumed_first [OF demo_consumes] by (simp, metis)

subsection \<open>Inbound events, runs and the allowlist\<close>

text \<open>
  Once a delivery of a hook was admitted it is never admitted again: the second attempt,
  whoever makes it and whatever grants are live, is an error that burns no use and writes
  nothing.
\<close>

theorem a_delivery_is_admitted_once:
  assumes "AdmitInboundEvent hook cred delivery agent actor now uuid d = (Inr ev, d1)"
    and "set (inbound_audit d1) \<subseteq> set (inbound_audit d2)"
  shows "\<exists>e. AdmitInboundEvent hook cred' delivery agent' actor' now' uuid' d2 = (Inl e, d2)"
proof (rule AdmitInboundEvent_replay)
  obtain e gid where ev: "ev = (e, gid)" by fastforce
  let ?q = "(admitted_row hook cred delivery agent actor now uuid)\<lparr>iaDetail := ''granted '' @ gid\<rparr>"
  have "inbound_audit d1 = inbound_audit d @ [?q]"
    by (rule AdmitInboundEvent_outcome [OF assms(1) [unfolded ev]])
  then have "?q \<in> set (inbound_audit d2)" using assms(2) by auto
  moreover have "iaDecision ?q = ''admitted''" "iaHook ?q = hook" "iaDeliveryID ?q = delivery"
    by (simp_all add: admitted_row_def)
  ultimately show "list_ex (\<lambda>q. iaDecision q = ''admitted'' \<and> iaHook q = hook \<and> iaDeliveryID q = delivery) (inbound_audit d2)"
    unfolding list_ex_iff by blast
qed

definition demo_inbound :: db where
  "demo_inbound = empty_db\<lparr>credentials := [demo_cred], permit_grant := [demo_grant\<lparr>grKind := ''inbound'', grSubject := ''hook'', grArgDigest := None\<rparr>]\<rparr>"

theorem a_delivery_is_admitted_once_witness:
  "\<exists>d1 e. AdmitInboundEvent ''hook'' ''bot'' ''d1'' ''agent'' ''none'' 5 demo_uuid demo_inbound = (Inr (demo_uuid, demo_uuid), d1) \<and>
     AdmitInboundEvent ''hook'' ''bot'' ''d1'' ''agent'' ''none'' 6 ''u2'' d1 = (Inl e, d1)"
proof -
  have "\<exists>d1. AdmitInboundEvent ''hook'' ''bot'' ''d1'' ''agent'' ''none'' 5 demo_uuid demo_inbound = (Inr (demo_uuid, demo_uuid), d1)"
    by (simp add: AdmitInboundEvent_def insert_inbound_audit_def admitted_row_def inbound_row_ok_def acted_for_ok_def
        actedFor_def texts_ok_ascii lockCredential_def ascii_text_ok consumeGrantLocked_def grant_matches_def
        grantLive_def oldest_def demo_inbound_def demo_defs)
  then show ?thesis using a_delivery_is_admitted_once by blast
qed

text \<open>
  A call is attributed to a person only when exactly one run of its credential is open; with
  none open it is made for nobody, with several it is explicitly unknown, and a credential's read
  never fails on well-formed text.
\<close>

theorem attribution_needs_exactly_one_open_run:
  assumes "pg_text_ok cred"
  shows "ActorFor cred now d =
    Inr (case filter (run_open cred now) (agent_run d) of
       [] \<Rightarrow> Unattributed
     | [r] \<Rightarrow> \<lparr>atActedFor = ruActedFor r, atRunID = ruID r\<rparr>
     | _ \<Rightarrow> Lost)"
  unfolding ActorFor_cases [OF assms] by (simp split: list.splits)

theorem attribution_needs_exactly_one_open_run_witness:
  "ActorFor ''bot'' 5 empty_db = Inr Unattributed"
  using attribution_needs_exactly_one_open_run [of "''bot''" 5 empty_db] by (simp add: ascii_text_ok empty_db_def)

text \<open>
  An allowlist that was set is read back as exactly the tools it was set to, sorted and
  without duplicates added for other credentials: theirs are unchanged.
\<close>

theorem allowlist_reads_back:
  assumes "SetToolAllowlist cred tools d = (Inr (), d')"
  shows "(\<exists>ts. ToolAllowlist cred d' = Inr ts \<and> set ts = set tools \<and> sorted ts) \<and>
    (\<forall>c. c \<noteq> cred \<and> pg_text_ok c \<longrightarrow>
      (\<exists>ts ts'. ToolAllowlist c d = Inr ts \<and> ToolAllowlist c d' = Inr ts' \<and> set ts = set ts'))"
  using ToolAllowlist_set [OF assms] by blast

theorem allowlist_reads_back_witness:
  "\<exists>d' ts. SetToolAllowlist ''bot'' [''pay''] demo_approved = (Inr (), d') \<and> ToolAllowlist ''bot'' d' = Inr ts \<and> set ts = {''pay''}"
proof -
  have "\<exists>d'. SetToolAllowlist ''bot'' [''pay''] demo_approved = (Inr (), d')"
    by (simp add: SetToolAllowlist_def ascii_text_ok texts_ok_ascii has_credential_def demo_defs)
  then show ?thesis using allowlist_reads_back by fastforce
qed

end
