(* ===== verification/Meter.thy ===== *)
theory Meter
  imports World
begin

text \<open>
  Component \<^verbatim>\<open>plane/internal/meter/meter.go\<close>: budget admission before every upstream call.
  The store the meter needs is the record \<open>meter_store\<close> over a state; \<open>pg_meter_store\<close> is
  the Postgres one.
\<close>

record Denial =
  dnStatus :: int
  dnMsg :: string
  dnBudgetSubject :: string

record 's meter_store =
  msAdmitSpend :: "string \<Rightarrow> SpendHold \<Rightarrow> int \<Rightarrow> int \<Rightarrow> 's \<Rightarrow> (store_error + Admission) \<times> 's"
  msMonthCommitted :: "string \<Rightarrow> int \<Rightarrow> 's \<Rightarrow> (store_error + (int \<times> int)) \<times> 's"
  msLiveBudgetGrantSum :: "string \<Rightarrow> string \<Rightarrow> 's \<Rightarrow> (store_error + int) \<times> 's"

record Reservation =
  rsID :: string
  rsGranted :: bool

definition DefaultHoldTTL :: int where
  "DefaultHoldTTL = 10 * minute"

text \<open>The meter: its store, its clock's reading and its hold lifetime (zero is the default).\<close>

record 's Meter =
  mtStore :: "'s meter_store"
  mtNow :: int
  mtHoldTTL :: int

definition holdTTL :: "'s Meter \<Rightarrow> int" where
  "holdTTL m = (if mtHoldTTL m > 0 then mtHoldTTL m else DefaultHoldTTL)"

definition Hold :: "bool \<Rightarrow> SpendHold" where
  "Hold priced = \<lparr>shCents = (if priced then 1 else 0), shTokens = 1\<rparr>"

definition capDenial :: "string \<Rightarrow> Denial" where
  "capDenial subject =
     \<lparr>dnStatus = 429,
      dnMsg = (if subject = ''tokens'' then ''monthly token budget reached'' else ''monthly budget reached''),
      dnBudgetSubject = subject\<rparr>"

definition unavailable :: Denial where
  "unavailable = \<lparr>dnStatus = 403, dnMsg = ''metering unavailable'', dnBudgetSubject = []\<rparr>"

definition Reserve :: "'s Meter \<Rightarrow> Credential \<Rightarrow> bool \<Rightarrow> 's \<Rightarrow> (Denial + Reservation) \<times> 's" where
  "Reserve m cred priced s =
     (case msAdmitSpend (mtStore m) (crName cred) (Hold priced) (MonthStartUTC (mtNow m)) (holdTTL m) s of
        (Inl _, s') \<Rightarrow> (Inl unavailable, s')
      | (Inr a, s') \<Rightarrow>
          if adDenied a then (Inl (capDenial (adSubject a)), s')
          else (Inr \<lparr>rsID = adReservationID a, rsGranted = adGranted a\<rparr>, s'))"

fun preview_needs :: "'s meter_store \<Rightarrow> string \<Rightarrow> BudgetNeed list \<Rightarrow> 's \<Rightarrow> Denial option \<times> 's" where
  "preview_needs st name [] s = (None, s)"
| "preview_needs st name (n # ns) s =
     (case msLiveBudgetGrantSum st name (bnSubject n) s of
        (Inl _, s') \<Rightarrow> (Some unavailable, s')
      | (Inr extra, s') \<Rightarrow>
          if uncovered n extra then (Some (capDenial (bnSubject n)), s')
          else preview_needs st name ns s')"

definition Preview :: "'s Meter \<Rightarrow> Credential \<Rightarrow> 's \<Rightarrow> Denial option \<times> 's" where
  "Preview m cred s =
     (if crCapCents cred = None \<and> crCapTokens cred = None then (None, s)
      else case msMonthCommitted (mtStore m) (crName cred) (MonthStartUTC (mtNow m)) s of
             (Inl _, s') \<Rightarrow> (Some unavailable, s')
           | (Inr (cents, tokens), s') \<Rightarrow>
               preview_needs (mtStore m) (crName cred) (budget_needs cred cents tokens) s')"

definition pg_meter_store :: "world meter_store" where
  "pg_meter_store =
     \<lparr>msAdmitSpend = (\<lambda>c hold ms ttl. pg_write (\<lambda>now uuid d. AdmitSpend c hold ms ttl now uuid d)),
      msMonthCommitted = (\<lambda>c ms. pg_read (\<lambda>now d. MonthCommitted c ms now d)),
      msLiveBudgetGrantSum = (\<lambda>c subject. pg_read (\<lambda>now d. LiveBudgetGrantSum c subject now d))\<rparr>"

subsection \<open>The contract of the store, and what the meter makes of it\<close>

text \<open>
  What a budget store promises: a refusal changes nothing, a reservation that is handed out
  stands in the state and counts, and nothing is admitted over a cap without a grant.
\<close>

locale budget_store =
  fixes st :: "'s meter_store"
    and holds :: "string \<Rightarrow> int \<Rightarrow> 's \<Rightarrow> int"
    and under_cap :: "string \<Rightarrow> int \<Rightarrow> 's \<Rightarrow> bool"
    and now :: "'s \<Rightarrow> int"
  assumes admit_refused: "msAdmitSpend st c h ms ttl s = (Inr a, s') \<Longrightarrow> adDenied a \<Longrightarrow> holds c ms s' = holds c ms s"
    and admit_held: "msAdmitSpend st c h ms ttl s = (Inr a, s') \<Longrightarrow> \<not> adDenied a \<Longrightarrow> adReservationID a \<noteq> [] \<Longrightarrow>
      0 < ttl \<Longrightarrow> ms \<le> now s \<Longrightarrow> holds c ms s' = holds c ms s + shTokens h"
    and admit_under: "msAdmitSpend st c h ms ttl s = (Inr a, s') \<Longrightarrow> \<not> adDenied a \<Longrightarrow> \<not> adGranted a \<Longrightarrow>
      under_cap c ms s"
begin

lemma reserve_denied_holds_nothing:
  assumes "Reserve m cred priced s = (Inl dn, s')" "mtStore m = st" "dnBudgetSubject dn \<noteq> []"
  shows "holds (crName cred) (MonthStartUTC (mtNow m)) s' = holds (crName cred) (MonthStartUTC (mtNow m)) s"
  using assms admit_refused
  by (auto simp: Reserve_def unavailable_def split: prod.splits sum.splits if_splits)

lemma reserve_admitted:
  assumes "Reserve m cred priced s = (Inr r, s')" "mtStore m = st" "\<not> rsGranted r"
  shows "under_cap (crName cred) (MonthStartUTC (mtNow m)) s"
  using assms admit_under
  by (auto simp: Reserve_def split: prod.splits sum.splits if_splits)

lemma reserve_holds_one_token:
  assumes "Reserve m cred priced s = (Inr r, s')" "mtStore m = st" "rsID r \<noteq> []"
    and "MonthStartUTC (mtNow m) \<le> now s"
  shows "holds (crName cred) (MonthStartUTC (mtNow m)) s' = holds (crName cred) (MonthStartUTC (mtNow m)) s + 1"
proof -
  have "0 < holdTTL m" by (simp add: holdTTL_def DefaultHoldTTL_def duration_defs)
  moreover have "shTokens (Hold priced) = 1" by (simp add: Hold_def)
  ultimately show ?thesis using assms admit_held
    by (fastforce simp: Reserve_def split: prod.splits sum.splits if_splits)
qed

end

definition under_caps :: "string \<Rightarrow> int \<Rightarrow> world \<Rightarrow> bool" where
  "under_caps c ms w \<longleftrightarrow> (case lockCredential c (wdb w) of
     Inl _ \<Rightarrow> False
   | Inr cr \<Rightarrow> (case crCapCents cr of None \<Rightarrow> True | Some cap \<Rightarrow> committed_cents c ms (wnow w) (wdb w) < cap) \<and>
              (case crCapTokens cr of None \<Rightarrow> True | Some cap \<Rightarrow> committed_tokens c ms (wnow w) (wdb w) < cap))"

lemma pg_admit:
  assumes "msAdmitSpend pg_meter_store c h ms ttl w = (Inr a, w')"
  shows "AdmitSpend c h ms ttl (wnow w) (wuuid w (wnext w)) (wdb w) = (Inr a, wdb w')" "wnow w' = wnow w"
  using pg_write_Inr [of "\<lambda>now uuid d. AdmitSpend c h ms ttl now uuid d" w a w'] assms
  by (simp_all add: pg_meter_store_def)

interpretation pg_budget: budget_store pg_meter_store "\<lambda>c ms w. committed_tokens c ms (wnow w) (wdb w)" under_caps wnow
proof
  fix c h ms ttl w a w'
  assume "msAdmitSpend pg_meter_store c h ms ttl w = (Inr a, w')"
  note ad = pg_admit [OF this]
  {
    assume "adDenied a"
    then show "committed_tokens c ms (wnow w') (wdb w') = committed_tokens c ms (wnow w) (wdb w)"
      using AdmitSpend_denied_unchanged [OF ad(1)] ad(2) by simp
  next
    assume "adReservationID a \<noteq> []" "0 < ttl" "ms \<le> wnow w"
    then show "committed_tokens c ms (wnow w') (wdb w') = committed_tokens c ms (wnow w) (wdb w) + shTokens h"
      using AdmitSpend_hold_counts [OF ad(1)] ad(2) by simp
  next
    assume u: "\<not> adDenied a" "\<not> adGranted a"
    obtain cr where "lockCredential c (wdb w) = Inr cr"
      using ad(1) by (cases rule: AdmitSpend_outcome) auto
    then show "under_caps c ms w"
      using AdmitSpend_under_cap [OF ad(1) u] by (auto simp: under_caps_def split: option.splits)
  }
qed

end
