(* ===== verification/StoreMetrics.thy ===== *)
theory StoreMetrics
  imports Spend
begin

text \<open>
  Component \<^verbatim>\<open>plane/internal/store/metrics.go\<close>: what the metrics collector reads at scrape
  time. A deadline in seconds is kept as nanoseconds.
\<close>

record LedgerTotal =
  ltCredential :: string
  ltCents :: int
  ltTokens :: int

record CredentialDeadline =
  cdCredential :: string
  cdLegacy :: bool
  cdNanos :: int

fun ledger_totals :: "int \<Rightarrow> db \<Rightarrow> string list \<Rightarrow> store_error + LedgerTotal list" where
  "ledger_totals monthStart d [] = Inr []"
| "ledger_totals monthStart d (c # cs) =
     (let rows = ledger_rows c monthStart d in
      if \<not> list_all (\<lambda>e. int64_ok (row_tokens e)) rows then Inl (ErrPg out_of_range)
      else and_then (scan_int64 (sum_list (map leCostCents rows)))
        (\<lambda>cents. and_then (scan_int64 (sum_list (map row_tokens rows)))
          (\<lambda>tokens. and_then (ledger_totals monthStart d cs)
            (\<lambda>rest. Inr (\<lparr>ltCredential = c, ltCents = cents, ltTokens = tokens\<rparr> # rest)))))"

definition LedgerMonthTotals :: "int \<Rightarrow> db \<Rightarrow> store_error + LedgerTotal list" where
  "LedgerMonthTotals monthStart d = ledger_totals monthStart d
     (remdups (sort (map leCredentialName (filter (\<lambda>e. leCreatedAt e \<ge> monthStart) (ledger_entry d)))))"

definition LiveGrantCounts :: "int \<Rightarrow> db \<Rightarrow> int gomap" where
  "LiveGrantCounts now d = fold (\<lambda>g out. map_set (grKind g)
     ((case map_get out (grKind g) of None \<Rightarrow> 0 | Some n \<Rightarrow> n) + 1) out)
     (filter (grantLive now) (permit_grant d)) []"

definition CredentialDeadlines :: "int \<Rightarrow> db \<Rightarrow> CredentialDeadline list" where
  "CredentialDeadlines now d = map (\<lambda>c. \<lparr>cdCredential = crName c, cdLegacy = (crExpiresAt c = None),
       cdNanos = (case crExpiresAt c of None \<Rightarrow> 0 | Some e \<Rightarrow> e - now)\<rparr>)
     (sort_key crName (credentials d))"

end
