(* ===== verification/MeterProps.thy ===== *)
theory MeterProps
  imports StoreEval Meter StoreMetrics
begin

text \<open>
  Spend: the preview of a chat and the reservation of a call agree, admissions stay under the
  cap however they interleave, and a ledger row takes the place of its hold in one step.
\<close>

subsection \<open>Preview and reservation\<close>

lemma burn_other_subject:
  assumes "distinct (map grID (permit_grant d))" "g \<in> set (permit_grant d)" "grSubject g \<noteq> s"
  shows "LiveBudgetGrantSum c s now (burn_use (grID g) d) = LiveBudgetGrantSum c s now d"
proof -
  obtain ys zs where sp: "permit_grant d = ys @ g # zs"
    "permit_grant (burn_use (grID g) d) = ys @ g\<lparr>grUses := grUses g + 1\<rparr> # zs"
    by (rule burn_split [OF assms(1,2)])
  show ?thesis using assms(3) unfolding LiveBudgetGrantSum_def sp by (simp add: grant_matches_def)
qed

definition verdict_of_cover :: "(store_error + string) + db \<Rightarrow> Denial option" where
  "verdict_of_cover r = (case r of Inl (Inl e) \<Rightarrow> Some unavailable | Inl (Inr s) \<Rightarrow> Some (capDenial s) | Inr d \<Rightarrow> None)"

lemma covered_need_has_grant:
  assumes "LiveBudgetGrantSum c s now d = Inr extra" "0 < extra"
  shows "\<exists>gid g. consumeGrantLocked c ''budget'' s now d = (Inr (Some gid), burn_use gid d) \<and>
    gid = grID g \<and> g \<in> set (permit_grant d) \<and> grSubject g = s"
proof -
  have t: "texts_ok [c, ''budget'', s]"
    using assms(1) ascii_text_ok [of "''budget''"] by (simp add: LiveBudgetGrantSum_def texts_ok_def split: if_splits)
  have "filter (\<lambda>g. grant_matches c ''budget'' s now g \<and> grAmount g \<noteq> None) (permit_grant d) \<noteq> []"
    using assms by (auto simp: LiveBudgetGrantSum_def scan_int64_def split: if_splits)
  then have some: "\<exists>g \<in> set (permit_grant d). grant_matches c ''budget'' s now g" by (auto simp: filter_empty_conv)
  obtain r d' where c: "consumeGrantLocked c ''budget'' s now d = (r, d')" by fastforce
  then show ?thesis
  proof (cases rule: consumeGrantLocked_outcome)
    case (1 e)
    then show ?thesis using c t by (auto simp: consumeGrantLocked_def split: option.splits)
  next
    case 2
    then show ?thesis using some by blast
  next
    case (3 g)
    then show ?thesis using c by (auto simp: grant_matches_def)
  qed
qed

lemma preview_needs_pg:
  assumes "wfaults w = []" "distinct (map grID (permit_grant d))" "distinct (map bnSubject ns)"
    and "\<And>n. n \<in> set ns \<Longrightarrow>
      LiveBudgetGrantSum c (bnSubject n) (wnow w) d = LiveBudgetGrantSum c (bnSubject n) (wnow w) (wdb w)"
  shows "preview_needs pg_meter_store c ns w = (verdict_of_cover (cover_needs c (wnow w) ns d), w)"
  using assms(2-)
proof (induction ns arbitrary: d)
  case Nil
  then show ?case by (simp add: verdict_of_cover_def)
next
  case (Cons n ns)
  let ?L = "LiveBudgetGrantSum c (bnSubject n) (wnow w) (wdb w)"
  have L: "LiveBudgetGrantSum c (bnSubject n) (wnow w) d = ?L" using Cons.prems(3) by simp
  have read: "msLiveBudgetGrantSum pg_meter_store c (bnSubject n) w = (?L, w)"
    using assms(1) by (simp add: pg_meter_store_def pg_read_def next_fault_def)
  show ?case
  proof (cases ?L)
    case (Inl e)
    then show ?thesis using L read by (simp add: verdict_of_cover_def)
  next
    case (Inr extra)
    show ?thesis
    proof (cases "uncovered n extra")
      case True
      then show ?thesis using L read Inr by (simp add: verdict_of_cover_def)
    next
      case False
      then have "0 < extra" by (simp add: uncovered_def)
      then obtain gid g where g: "consumeGrantLocked c ''budget'' (bnSubject n) (wnow w) d = (Inr (Some gid), burn_use gid d)"
        "gid = grID g" "g \<in> set (permit_grant d)" "grSubject g = bnSubject n"
        using covered_need_has_grant L Inr by metis
      have ids: "distinct (map grID (permit_grant (burn_use gid d)))"
        using Cons.prems(1) by (simp add: burn_use_def map_update_first)
      have "preview_needs pg_meter_store c ns w = (verdict_of_cover (cover_needs c (wnow w) ns (burn_use gid d)), w)"
      proof (rule Cons.IH [OF ids])
        show "distinct (map bnSubject ns)" using Cons.prems(2) by simp
        fix m assume m: "m \<in> set ns"
        then have "grSubject g \<noteq> bnSubject m" using Cons.prems(2) g(4) by (auto simp: image_iff)
        then show "LiveBudgetGrantSum c (bnSubject m) (wnow w) (burn_use gid d) =
            LiveBudgetGrantSum c (bnSubject m) (wnow w) (wdb w)"
          using burn_other_subject [OF Cons.prems(1) g(3)] g(2) Cons.prems(3) m by simp
      qed
      then show ?thesis using L read Inr False g(1) by (simp add: verdict_of_cover_def)
    qed
  qed
qed

lemma budget_needs_distinct: "distinct (map bnSubject (budget_needs c ce to))"
  by (auto simp: budget_needs_def split: option.splits)

lemma lockCredential_facts:
  "lockCredential c d = Inr cred \<Longrightarrow> crName cred = c \<and> pg_text_ok c \<and> has_credential d c"
  by (auto simp: lockCredential_def has_credential_def list_ex_iff Credential.truncate_def find_Some_iff
      split: if_splits option.splits)

lemma preview_agrees:
  assumes m: "mtStore m = pg_meter_store" and f: "wfaults w = []"
    and lk: "lockCredential (crName cred) (wdb w) = Inr cred"
    and ids: "distinct (map grID (permit_grant (wdb w)))"
    and fresh: "\<not> list_ex (\<lambda>r. srID r = wuuid w (wnext w)) (spend_reservation (wdb w))"
  shows "Preview m cred w = (case fst (Reserve m cred priced w) of Inl dn \<Rightarrow> Some dn | Inr r \<Rightarrow> None, w)"
proof -
  let ?c = "crName cred" and ?ms = "MonthStartUTC (mtNow m)" and ?now = "wnow w"
  let ?d1 = "sweep_reservations ?c ?now (wdb w)"
  note lf = lockCredential_facts [OF lk]
  obtain r w' where res: "Reserve m cred priced w = (r, w')" by fastforce
  have adm: "msAdmitSpend pg_meter_store ?c (Hold priced) ?ms (holdTTL m) w =
      (case AdmitSpend ?c (Hold priced) ?ms (holdTTL m) ?now (wuuid w (wnext w)) (wdb w) of
        (r, d) \<Rightarrow> (r, w\<lparr>wdb := d, wnext := Suc (wnext w)\<rparr>))"
    using f by (simp add: pg_meter_store_def pg_write_def next_fault_def)
  have mc: "msMonthCommitted pg_meter_store ?c ?ms w = (monthCommitted ?c ?ms ?now (wdb w), w)"
    using f by (simp add: pg_meter_store_def pg_read_def next_fault_def MonthCommitted_def)
  show ?thesis
  proof (cases "crCapCents cred = None \<and> crCapTokens cred = None")
    case True
    then show ?thesis using adm lk m by (simp add: Preview_def Reserve_def AdmitSpend_def NoAdmission_def)
  next
    case caps: False
    show ?thesis
    proof (cases "monthCommitted ?c ?ms ?now (wdb w)")
      case (Inl e)
      then show ?thesis using adm lk m mc caps
        by (auto simp: Preview_def Reserve_def AdmitSpend_def monthCommitted_sweep Let_def)
    next
      case (Inr ct)
      obtain ce to where ct: "ct = (ce, to)" by fastforce
      let ?ns = "budget_needs cred ce to"
      have sums: "LiveBudgetGrantSum ?c s ?now ?d1 = LiveBudgetGrantSum ?c s ?now (wdb w)" for s
        by (simp add: LiveBudgetGrantSum_def frame_simps)
      have pv: "preview_needs pg_meter_store ?c ?ns w = (verdict_of_cover (cover_needs ?c ?now ?ns ?d1), w)"
        by (rule preview_needs_pg [OF f]) (use ids budget_needs_distinct sums in \<open>auto simp: frame_simps\<close>)
      have prev: "Preview m cred w = (verdict_of_cover (cover_needs ?c ?now ?ns ?d1), w)"
        using caps m mc Inr ct pv by (auto simp: Preview_def)
      show ?thesis
      proof (cases "cover_needs ?c ?now ?ns ?d1")
        case (Inl x)
        then show ?thesis using prev adm lk m caps Inr ct
          by (cases x) (auto simp: Reserve_def AdmitSpend_def monthCommitted_sweep Let_def verdict_of_cover_def
              denied_admission_def NoAdmission_def)
      next
        case cov: (Inr d2)
        note fr = cover_needs_frame [OF cov]
        let ?row = "\<lparr>srID = wuuid w (wnext w), srCredentialName = ?c, srHoldCents = shCents (Hold priced),
            srHoldTokens = shTokens (Hold priced), srCreatedAt = ?now, srExpiresAt = ?now + holdTTL m\<rparr>"
        have "insert_reservation ?row d2 = Inr (d2\<lparr>spend_reservation := spend_reservation d2 @ [?row]\<rparr>)"
          using fr fresh lf by (auto simp: insert_reservation_def Hold_def sweep_reservations_def list_ex_iff has_credential_def)
        then show ?thesis using prev adm lk m caps Inr ct cov
          by (auto simp: Reserve_def AdmitSpend_def monthCommitted_sweep Let_def verdict_of_cover_def NoAdmission_def)
      qed
    qed
  qed
qed

text \<open>
  With no fault in between, the read-only preview of the admin surface gives exactly the
  verdict the next reservation would give, down to the refusal, and writes nothing.
\<close>

theorem preview_agrees_with_reservation:
  assumes "mtStore m = pg_meter_store" "wfaults w = []"
    and "lockCredential (crName cred) (wdb w) = Inr cred" "store_reachable (wdb w)"
    and "\<not> list_ex (\<lambda>r. srID r = wuuid w (wnext w)) (spend_reservation (wdb w))"
  shows "Preview m cred w = (case fst (Reserve m cred priced w) of Inl dn \<Rightarrow> Some dn | Inr r \<Rightarrow> None, w)"
proof (rule preview_agrees [OF assms(1-3) _ assms(5)])
  show "distinct (map grID (permit_grant (wdb w)))"
    using reachable_backed [OF assms(4)] by (simp add: grants_backed_def approvals_wf_def)
qed

definition demo_world :: world where
  "demo_world = \<lparr>wdb = demo_approved, wnow = 50, wuuid = (\<lambda>n. demo_uuid), wnext = 0, wfaults = []\<rparr>"

lemma demo_lock: "lockCredential ''bot'' demo_approved = Inr (Credential.truncate demo_cred)"
  by (simp add: lockCredential_def ascii_text_ok demo_defs)

theorem preview_agrees_with_reservation_witness:
  "fst (Preview \<lparr>mtStore = pg_meter_store, mtNow = 50, mtHoldTTL = 0\<rparr> (Credential.truncate demo_cred) demo_world) =
     (case fst (Reserve \<lparr>mtStore = pg_meter_store, mtNow = 50, mtHoldTTL = 0\<rparr> (Credential.truncate demo_cred) True demo_world)
      of Inl dn \<Rightarrow> Some dn | Inr r \<Rightarrow> None)"
proof -
  have "lockCredential (crName (Credential.truncate demo_cred)) (wdb demo_world) = Inr (Credential.truncate demo_cred)"
    using demo_lock by (simp add: demo_world_def demo_cred_def Credential.truncate_def)
  moreover have "spend_reservation demo_approved = []" by (simp add: demo_defs)
  ultimately show ?thesis
    using preview_agrees_with_reservation [of "\<lparr>mtStore = pg_meter_store, mtNow = 50, mtHoldTTL = 0\<rparr>" demo_world
      "Credential.truncate demo_cred" True] demo_reachable(2)
    by (simp add: demo_world_def)
qed

subsection \<open>Admission\<close>

text \<open>
  Admissions one after another, each with its hold, its lifetime, its instant and its row id; the
  holds that were placed, each with the instant and the state it was admitted in.
\<close>

type_synonym admission_try = "SpendHold \<times> int \<times> int \<times> string"

fun admissions :: "string \<Rightarrow> int \<Rightarrow> admission_try list \<Rightarrow> db \<Rightarrow> (SpendHold \<times> int \<times> db) list \<times> db" where
  "admissions cn ms [] d = ([], d)"
| "admissions cn ms ((hold, ttl, t, u) # as) d =
     (case AdmitSpend cn hold ms ttl t u d of
        (r, d1) \<Rightarrow> (case admissions cn ms as d1 of
          (ps, d2) \<Rightarrow> (case r of Inr a \<Rightarrow> if adReservationID a \<noteq> [] then (hold, t, d) # ps else ps | Inl e \<Rightarrow> ps, d2)))"

definition no_budget_grant :: "string \<Rightarrow> int \<Rightarrow> db \<Rightarrow> bool" where
  "no_budget_grant cn now d \<longleftrightarrow> (\<forall>g \<in> set (permit_grant d). \<forall>s. \<not> grant_matches cn ''budget'' s now g)"

text \<open>What was used is under the cap, or under the cap with the live budget grants of its subject.\<close>

definition within_cap :: "string \<Rightarrow> string \<Rightarrow> int option \<Rightarrow> int \<Rightarrow> int \<Rightarrow> db \<Rightarrow> bool" where
  "within_cap cn subject cap used now d \<longleftrightarrow> (case cap of None \<Rightarrow> True | Some k \<Rightarrow> used < k \<or>
     (\<exists>extra. LiveBudgetGrantSum cn subject now d = Inr extra \<and> 0 < extra \<and> used < wrap64 (k + extra)))"

definition within_caps :: "Credential \<Rightarrow> string \<Rightarrow> int \<Rightarrow> int \<Rightarrow> db \<Rightarrow> bool" where
  "within_caps c cn ms now d \<longleftrightarrow> within_cap cn ''cents'' (crCapCents c) (committed_cents cn ms now d) now d \<and>
     within_cap cn ''tokens'' (crCapTokens c) (committed_tokens cn ms now d) now d"

lemma no_grant_within:
  assumes "within_cap cn subject (Some k) used now d" "no_budget_grant cn now d"
  shows "used < k"
proof -
  have "filter (\<lambda>g. grant_matches cn ''budget'' subject now g \<and> grAmount g \<noteq> None) (permit_grant d) = []"
    using assms(2) by (simp add: no_budget_grant_def filter_empty_conv)
  then have "LiveBudgetGrantSum cn subject now d \<noteq> Inr extra \<or> extra \<le> 0" for extra
    unfolding LiveBudgetGrantSum_def by (auto simp: scan_int64_def)
  then show ?thesis using assms(1) unfolding within_cap_def by fastforce
qed

lemma covered_each:
  assumes "cover_needs cn now ns d = Inr d'" "distinct (map grID (permit_grant d))" "distinct (map bnSubject ns)" "n \<in> set ns"
  shows "\<exists>extra. LiveBudgetGrantSum cn (bnSubject n) now d = Inr extra \<and> \<not> uncovered n extra"
  using assms
proof (induction ns arbitrary: d)
  case (Cons m ns)
  obtain extra gid d1 where m: "LiveBudgetGrantSum cn (bnSubject m) now d = Inr extra" "\<not> uncovered m extra"
    "consumeGrantLocked cn ''budget'' (bnSubject m) now d = (Inr (Some gid), d1)" "cover_needs cn now ns d1 = Inr d'"
    using Cons.prems(1) by (auto split: sum.splits if_splits prod.splits option.splits)
  obtain g where g: "d1 = burn_use (grID g) d" "g \<in> set (permit_grant d)" "grSubject g = bnSubject m"
    using covered_need_has_grant [OF m(1)] m(2,3) by (auto simp: uncovered_def)
  show ?case
  proof (cases "n = m")
    case False
    then have n: "n \<in> set ns" "bnSubject n \<noteq> bnSubject m" using Cons.prems(3,4) by (auto simp: image_iff)
    have "distinct (map grID (permit_grant d1))" using Cons.prems(2) g(1) by (simp add: burn_use_def map_update_first)
    then show ?thesis using Cons.IH [OF m(4) _ _ n(1)] Cons.prems(2,3) g n(2) burn_other_subject by fastforce
  qed (use m in blast)
qed simp

text \<open>One admission: what a hold that was placed found, and what it leaves.\<close>

lemma placed_within:
  assumes "AdmitSpend cn hold ms ttl t u d = (Inr a, d')" "adReservationID a \<noteq> []" "lockCredential cn d = Inr c"
    and "distinct (map grID (permit_grant d))"
  shows "within_caps c cn ms t d"
  using assms(1)
proof (cases rule: AdmitSpend_outcome)
  case (4 c' d2)
  let ?ns = "budget_needs c (committed_cents cn ms t d) (committed_tokens cn ms t d)"
  have "cover_needs cn t ?ns (sweep_reservations cn t d) = Inr d2" using 4(2,4) assms(3) by simp
  note each = covered_each [OF this _ budget_needs_distinct, simplified frame_simps, OF assms(4)]
  have sums: "LiveBudgetGrantSum cn s t (sweep_reservations cn t d) = LiveBudgetGrantSum cn s t d" for s
    by (simp add: LiveBudgetGrantSum_def frame_simps)
  have lifted: "\<lparr>bnSubject = s, bnUsed = used, bnCap = k\<rparr> \<notin> set ?ns \<or>
      (\<exists>extra. LiveBudgetGrantSum cn s t d = Inr extra \<and> 0 < extra \<and> used < wrap64 (k + extra))" for s used k
    using each [of "\<lparr>bnSubject = s, bnUsed = used, bnCap = k\<rparr>"] unfolding sums by (auto simp: uncovered_def)
  show ?thesis unfolding within_caps_def within_cap_def
    using lifted [of "''cents''" "committed_cents cn ms t d"] lifted [of "''tokens''" "committed_tokens cn ms t d"]
    by (fastforce simp: budget_needs_def split: option.splits)
qed (use assms(2) in \<open>simp_all add: NoAdmission_def denied_admission_def\<close>)

definition holds_ok :: "db \<Rightarrow> bool" where
  "holds_ok d \<longleftrightarrow> (\<forall>h \<in> set (spend_reservation d). 0 \<le> srHoldCents h \<and> 0 \<le> srHoldTokens h)"

lemma sum_filter_mono:
  assumes "\<And>x. P x \<Longrightarrow> Q x" "\<forall>x \<in> set xs. 0 \<le> (f x :: int)"
  shows "sum_list (map f (filter P xs)) \<le> sum_list (map f (filter Q xs))"
  using assms by (induction xs) auto

lemma committed_later:
  assumes "holds_ok d" "t \<le> T"
  shows "committed_cents cn ms T d \<le> committed_cents cn ms t d" "committed_tokens cn ms T d \<le> committed_tokens cn ms t d"
proof -
  have "sum_list (map f (open_holds cn ms T d)) \<le> sum_list (map f (open_holds cn ms t d))"
    if "\<forall>h \<in> set (spend_reservation d). 0 \<le> (f h :: int)" for f
    unfolding open_holds_def by (rule sum_filter_mono) (use that assms(2) in auto)
  from this [of srHoldCents] this [of srHoldTokens]
  show "committed_cents cn ms T d \<le> committed_cents cn ms t d" "committed_tokens cn ms T d \<le> committed_tokens cn ms t d"
    using assms(1) by (auto simp: holds_ok_def committed_cents_def committed_tokens_def)
qed

lemma later_holds_sweep: "t \<le> T \<Longrightarrow> open_holds cn ms T (sweep_reservations cn t d) = open_holds cn ms T d"
  by (auto simp: open_holds_def sweep_reservations_def intro!: filter_cong)

lemma cover_needs_ids: "cover_needs cn now ns d = Inr d' \<Longrightarrow> map grID (permit_grant d') = map grID (permit_grant d)"
proof (induction ns arbitrary: d)
  case (Cons n ns)
  from Cons.prems obtain g d1 where c: "consumeGrantLocked cn ''budget'' (bnSubject n) now d = (Inr (Some g), d1)"
    and r: "cover_needs cn now ns d1 = Inr d'"
    by (auto split: sum.splits if_splits prod.splits option.splits)
  from c have "\<exists>i. d1 = burn_use i d" by (cases rule: consumeGrantLocked_outcome) auto
  then show ?case using Cons.IH [OF r] by (auto simp: burn_use_def map_update_first)
qed simp

lemma admission_step:
  assumes "AdmitSpend cn hold ms ttl t u d = (r, d')" "t \<le> T" "T < t + ttl" "ms \<le> t" "u \<noteq> []"
  shows "(lockCredential cn d' = lockCredential cn d \<and> (holds_ok d \<longrightarrow> holds_ok d') \<and>
      map grID (permit_grant d') = map grID (permit_grant d)) \<and>
    (case r of Inr a \<Rightarrow> if adReservationID a \<noteq> [] then committed_cents cn ms T d' = committed_cents cn ms T d + shCents hold \<and>
        committed_tokens cn ms T d' = committed_tokens cn ms T d + shTokens hold else d' = d | Inl e \<Rightarrow> d' = d)"
  using assms(1)
proof (cases rule: AdmitSpend_outcome)
  case (4 c d2)
  note f = cover_needs_frame [OF 4(4)]
  have "ledger_rows cn ms d' = ledger_rows cn ms d" using f 4(5) by (simp add: ledger_rows_def sweep_reservations_def)
  moreover have "open_holds cn ms T d' = open_holds cn ms T d @
      [\<lparr>srID = u, srCredentialName = cn, srHoldCents = shCents hold, srHoldTokens = shTokens hold,
          srCreatedAt = t, srExpiresAt = t + ttl\<rparr>]"
    using f 4(5) assms(2-4) later_holds_sweep [OF assms(2), of cn ms d] by (simp add: open_holds_def)
  moreover have "lockCredential cn d' = lockCredential cn d" using f 4(5) by (simp add: lockCredential_def frame_simps)
  moreover have "holds_ok d \<longrightarrow> holds_ok d'" using f 4(5-7) by (auto simp: holds_ok_def sweep_reservations_def)
  moreover have "map grID (permit_grant d') = map grID (permit_grant d)" using cover_needs_ids [OF 4(4)] 4(5) by (simp add: frame_simps)
  ultimately show ?thesis using 4(1) assms(5) by (simp add: NoAdmission_def committed_cents_def committed_tokens_def)
qed (simp_all add: NoAdmission_def denied_admission_def)

lemma admissions_placed:
  assumes "lockCredential cn d = Inr c" "distinct (map grID (permit_grant d))" "holds_ok d"
    and "\<forall>(hold, ttl, t, u) \<in> set as. ms \<le> t \<and> t \<le> T \<and> T < t + ttl \<and> u \<noteq> []"
    and "admissions cn ms as d = (placed, d')"
  shows "(\<forall>(hold, t, d1) \<in> set placed. within_caps c cn ms t d1 \<and> holds_ok d1 \<and> t \<le> T) \<and>
    committed_cents cn ms T d' = committed_cents cn ms T d + (\<Sum>p \<leftarrow> placed. shCents (fst p)) \<and>
    committed_tokens cn ms T d' = committed_tokens cn ms T d + (\<Sum>p \<leftarrow> placed. shTokens (fst p)) \<and>
    (placed \<noteq> [] \<longrightarrow> (case last placed of (hold, t, d1) \<Rightarrow> committed_cents cn ms T d' = committed_cents cn ms T d1 + shCents hold \<and>
       committed_tokens cn ms T d' = committed_tokens cn ms T d1 + shTokens hold))"
  using assms
proof (induction as arbitrary: d placed)
  case (Cons x as)
  obtain hold ttl t u where x: "x = (hold, ttl, t, u)" by (metis prod_cases4)
  obtain r d1 where r: "AdmitSpend cn hold ms ttl t u d = (r, d1)" by fastforce
  obtain ps where ps: "admissions cn ms as d1 = (ps, d')"
    "placed = (case r of Inr a \<Rightarrow> if adReservationID a \<noteq> [] then (hold, t, d) # ps else ps | Inl e \<Rightarrow> ps)"
    using Cons.prems(5) x r by (auto split: prod.splits)
  have t: "t \<le> T" "T < t + ttl" "ms \<le> t" "u \<noteq> []" using Cons.prems(4) x by auto
  note step = admission_step [OF r t]
  note ih = Cons.IH [OF _ _ _ _ ps(1)]
  have rest: "(\<forall>(hold, t, d1) \<in> set ps. within_caps c cn ms t d1 \<and> holds_ok d1 \<and> t \<le> T) \<and>
    committed_cents cn ms T d' = committed_cents cn ms T d1 + (\<Sum>p \<leftarrow> ps. shCents (fst p)) \<and>
    committed_tokens cn ms T d' = committed_tokens cn ms T d1 + (\<Sum>p \<leftarrow> ps. shTokens (fst p)) \<and>
    (ps \<noteq> [] \<longrightarrow> (case last ps of (hold, t, d1) \<Rightarrow> committed_cents cn ms T d' = committed_cents cn ms T d1 + shCents hold \<and>
       committed_tokens cn ms T d' = committed_tokens cn ms T d1 + shTokens hold))"
    using step Cons.prems(1-4) by (intro ih) auto
  show ?case
  proof (cases "\<exists>a. r = Inr a \<and> adReservationID a \<noteq> []")
    case True
    then obtain a where a: "r = Inr a" "adReservationID a \<noteq> []" by blast
    have "within_caps c cn ms t d" by (rule placed_within [OF r [unfolded a(1)] a(2) Cons.prems(1,2)])
    then show ?thesis using step rest ps(2) a t(1) Cons.prems(3) by (cases "ps = []") auto
  next
    case False
    then have same: "placed = ps" "d1 = d" using step ps(2) by (auto split: sum.splits)
    show ?thesis using rest unfolding same .
  qed
qed simp

text \<open>
  C10: of any number of admissions of one credential in one month that are in flight at \<open>T\<close>, at
  whatever instants and with whatever holds: every one that was let in found what was committed
  before it, cents and tokens, under the cap, or under the cap with the live budget grants of that
  subject; all their holds count against both caps at \<open>T\<close>; and so what is committed at \<open>T\<close> is over
  what the last of them found by no more than its own hold, and under a cap without a budget grant
  less than that over the cap.
\<close>

theorem racing_admissions_stay_under_the_cap:
  assumes "lockCredential cn d = Inr c" "distinct (map grID (permit_grant d))" "holds_ok d"
    and "\<forall>(hold, ttl, t, u) \<in> set as. ms \<le> t \<and> t \<le> T \<and> T < t + ttl \<and> u \<noteq> []"
    and "admissions cn ms as d = (placed, d')"
  shows "(\<forall>(hold, t, d1) \<in> set placed. within_caps c cn ms t d1) \<and>
    committed_cents cn ms T d' = committed_cents cn ms T d + (\<Sum>p \<leftarrow> placed. shCents (fst p)) \<and>
    committed_tokens cn ms T d' = committed_tokens cn ms T d + (\<Sum>p \<leftarrow> placed. shTokens (fst p)) \<and>
    (placed \<noteq> [] \<longrightarrow> (case last placed of (hold, t, d1) \<Rightarrow>
       committed_cents cn ms T d' \<le> committed_cents cn ms t d1 + shCents hold \<and>
       committed_tokens cn ms T d' \<le> committed_tokens cn ms t d1 + shTokens hold \<and>
       (no_budget_grant cn t d1 \<longrightarrow>
         (\<forall>cap. crCapCents c = Some cap \<longrightarrow> committed_cents cn ms T d' < cap + shCents hold) \<and>
         (\<forall>cap. crCapTokens c = Some cap \<longrightarrow> committed_tokens cn ms T d' < cap + shTokens hold))))"
proof -
  note p = admissions_placed [OF assms]
  have "case last placed of (hold, t, d1) \<Rightarrow>
       committed_cents cn ms T d' \<le> committed_cents cn ms t d1 + shCents hold \<and>
       committed_tokens cn ms T d' \<le> committed_tokens cn ms t d1 + shTokens hold \<and>
       (no_budget_grant cn t d1 \<longrightarrow>
         (\<forall>cap. crCapCents c = Some cap \<longrightarrow> committed_cents cn ms T d' < cap + shCents hold) \<and>
         (\<forall>cap. crCapTokens c = Some cap \<longrightarrow> committed_tokens cn ms T d' < cap + shTokens hold))" if ne: "placed \<noteq> []"
  proof -
    obtain hold t d1 where l: "last placed = (hold, t, d1)" by (metis prod_cases3)
    then have mem: "(hold, t, d1) \<in> set placed" using ne last_in_set by metis
    then have w: "within_caps c cn ms t d1" "holds_ok d1" "t \<le> T" using p by auto
    have "committed_cents cn ms T d' = committed_cents cn ms T d1 + shCents hold"
      "committed_tokens cn ms T d' = committed_tokens cn ms T d1 + shTokens hold" using p ne l by auto
    then have le: "committed_cents cn ms T d' \<le> committed_cents cn ms t d1 + shCents hold"
      "committed_tokens cn ms T d' \<le> committed_tokens cn ms t d1 + shTokens hold"
      using committed_later [OF w(2,3), of cn ms] by linarith+
    have "committed_cents cn ms t d1 < cap" if "no_budget_grant cn t d1" "crCapCents c = Some cap" for cap
      using w(1) that no_grant_within unfolding within_caps_def by metis
    moreover have "committed_tokens cn ms t d1 < cap" if "no_budget_grant cn t d1" "crCapTokens c = Some cap" for cap
      using w(1) that no_grant_within unfolding within_caps_def by metis
    ultimately show ?thesis using le l by fastforce
  qed
  then show ?thesis using p by auto
qed

theorem racing_admissions_stay_under_the_cap_witness:
  "\<exists>placed d'. admissions ''bot'' 0 [(\<lparr>shCents = 0, shTokens = 1\<rparr>, 100, 50, ''a''), (\<lparr>shCents = 0, shTokens = 1\<rparr>, 100, 51, ''b'')]
     demo_approved = (placed, d') \<and>
   committed_tokens ''bot'' 0 60 d' = committed_tokens ''bot'' 0 60 demo_approved + (\<Sum>p \<leftarrow> placed. shTokens (fst p))"
proof -
  obtain placed d' where a: "admissions ''bot'' 0 [(\<lparr>shCents = 0, shTokens = 1\<rparr>, 100, 50, ''a''), (\<lparr>shCents = 0, shTokens = 1\<rparr>, 100, 51, ''b'')]
     demo_approved = (placed, d')" by fastforce
  have "holds_ok demo_approved" "distinct (map grID (permit_grant demo_approved))" by (simp_all add: holds_ok_def demo_defs)
  from racing_admissions_stay_under_the_cap [OF demo_lock this(2,1) _ a, of 60] show ?thesis using a by auto
qed

text \<open>
  C37: recording the outcome of a call replaces its hold by its ledger row in one step: the
  committed month moves from the hold to the actual usage, and no state counts both or neither.
\<close>

theorem ledger_row_replaces_its_hold:
  assumes "RecordLedger e (srID h) t d = (Inr (), d')"
    and "pg_uuid (srID h) = Some (srID h)" "srID h \<noteq> []" "spend_reservation d = xs @ h # ys"
    and "srID h \<notin> srID ` set (xs @ ys)"
    and "srCredentialName h = leCredentialName e" "ms \<le> srCreatedAt h" "now < srExpiresAt h" "ms \<le> t"
  shows "committed_cents (leCredentialName e) ms now d' =
      committed_cents (leCredentialName e) ms now d - srHoldCents h + leCostCents e \<and>
    committed_tokens (leCredentialName e) ms now d' =
      committed_tokens (leCredentialName e) ms now d - srHoldTokens h + (leInputTokens e + leOutputTokens e)"
proof -
  obtain row where row: "ledger_entry d' = ledger_entry d @ [row]" "leCostCents row = leCostCents e"
    "row_tokens row = row_tokens e" "leCredentialName row = leCredentialName e" "leCreatedAt row = t"
    using RecordLedger_appends(1) [OF assms(1)] by blast
  have keep: "filter (\<lambda>r. srID r \<noteq> srID h) zs = zs" if "srID h \<notin> srID ` set zs" for zs
    using that by (intro filter_True) (auto simp: image_iff)
  have "srID h \<notin> srID ` set xs" "srID h \<notin> srID ` set ys" using assms(5) by auto
  note keep = keep [OF this(1)] keep [OF this(2)]
  have "spend_reservation d' = xs @ ys"
    using RecordLedger_appends(2) [OF assms(1)] assms(2-4) keep by simp
  then show ?thesis using row assms(4,6-9)
    by (simp add: committed_cents_def committed_tokens_def ledger_rows_def open_holds_def row_tokens_def)
qed

theorem ledger_row_replaces_its_hold_witness:
  "\<exists>d'. RecordLedger \<lparr>leCredentialName = ''bot'', leUpstream = ''u'', leModel = ''m'', leInputTokens = 3,
      leOutputTokens = 4, leCostCents = 5, leCostSource = ''priced'', leStatus = 200, leActedFor = ''none'',
      leRunID = [], leCreatedAt = 0\<rparr> demo_uuid 51
     (demo_approved\<lparr>spend_reservation := [\<lparr>srID = demo_uuid, srCredentialName = ''bot'', srHoldCents = 1,
        srHoldTokens = 1, srCreatedAt = 50, srExpiresAt = 60\<rparr>]\<rparr>) = (Inr (), d') \<and>
   committed_tokens ''bot'' 0 52 d' = 7"
proof -
  let ?h = "\<lparr>srID = demo_uuid, srCredentialName = ''bot'', srHoldCents = 1, srHoldTokens = 1, srCreatedAt = 50, srExpiresAt = 60\<rparr>"
  let ?e = "\<lparr>leCredentialName = ''bot'', leUpstream = ''u'', leModel = ''m'', leInputTokens = 3,
      leOutputTokens = 4, leCostCents = 5, leCostSource = ''priced'', leStatus = 200, leActedFor = ''none'',
      leRunID = [], leCreatedAt = 0\<rparr>"
  let ?d = "demo_approved\<lparr>spend_reservation := [?h]\<rparr>"
  have "\<exists>d'. RecordLedger ?e (srID ?h) 51 ?d = (Inr (), d')"
    using demo_uuid_ok by (simp add: RecordLedger_def insert_ledger_def run_id_param_def ledger_row_ok_def acted_for_ok_def
        texts_ok_ascii actedFor_def demo_uuid_def)
  then obtain d' where r: "RecordLedger ?e (srID ?h) 51 ?d = (Inr (), d')" by blast
  have "committed_tokens ''bot'' 0 52 ?d = 1"
    by (simp add: committed_tokens_def ledger_rows_def open_holds_def) (simp add: demo_defs)
  then show ?thesis
    using ledger_row_replaces_its_hold [OF r, of "[]" "[]" 0 52] demo_uuid_ok r by (auto simp: demo_uuid_def)
qed

text \<open>
  The month a budget counts over starts at a midnight UTC not after the instant it is
  computed from and less than 31 days before it.
\<close>

theorem month_window:
  "MonthStartUTC now \<le> now \<and> now < MonthStartUTC now + 31 * day \<and> MonthStartUTC now mod day = 0"
  using MonthStartUTC_window [of now] by (simp add: MonthStartUTC_def Let_def)

end
