(* ===== verification/Egress.thy ===== *)
theory Egress
  imports GoNum Clock "HOL-Library.Word"
begin

text \<open>
  Component \<^verbatim>\<open>plane/internal/egress/egress.go\<close>: the one hardened dialer. Addresses are
  \<open>netip.Addr\<close> values, 32- and 128-bit words, the latter with a zone; parsing an address and
  resolving a name are parameters. A reader is a state with a read function; the bounded body
  wraps one.
\<close>

subsection \<open>Errors and bounds\<close>

definition DefaultConnectTimeout :: int where "DefaultConnectTimeout = 10 * second"
definition DefaultResponseHeaderTimeout :: int where "DefaultResponseHeaderTimeout = 60 * second"
definition DefaultBodyLifetime :: int where "DefaultBodyLifetime = 5 * minute"
definition DefaultMaxResponseBytes :: int where "DefaultMaxResponseBytes = 8388608"

datatype Addr = Addr4 "32 word" | Addr6 "128 word" string

datatype egress_error =
    ErrPrivateAddress string Addr string
  | ErrScheme string
  | ErrPort string
  | ErrUnknownHost string
  | ErrResponseTooLarge
  | ErrBodyLifetime
  | ErrNoClient
  | ErrResolve string
  | ErrNoAddresses string
  | ErrHostPort string
  | ErrConnecting string
  | ErrUpstream string

fun IsRefusal :: "egress_error \<Rightarrow> bool" where
  "IsRefusal (ErrPrivateAddress _ _ _) = True"
| "IsRefusal (ErrPort _) = True"
| "IsRefusal (ErrScheme _) = True"
| "IsRefusal (ErrUnknownHost _) = True"
| "IsRefusal ErrNoClient = True"
| "IsRefusal _ = False"

fun IsBodyCut :: "egress_error \<Rightarrow> bool" where
  "IsBodyCut ErrResponseTooLarge = True"
| "IsBodyCut ErrBodyLifetime = True"
| "IsBodyCut _ = False"

text \<open>The bounds of a policy; its resolver and its dial are arguments of the operations.\<close>

record EgressPolicy =
  epConnectTimeout :: int
  epResponseHeaderTimeout :: int
  epBodyLifetime :: int
  epMaxResponseBytes :: int

definition withDefaults :: "EgressPolicy \<Rightarrow> EgressPolicy" where
  "withDefaults p =
     \<lparr>epConnectTimeout = (if epConnectTimeout p \<le> 0 then DefaultConnectTimeout else epConnectTimeout p),
      epResponseHeaderTimeout = (if epResponseHeaderTimeout p \<le> 0 then DefaultResponseHeaderTimeout else epResponseHeaderTimeout p),
      epBodyLifetime = (if epBodyLifetime p \<le> 0 then DefaultBodyLifetime else epBodyLifetime p),
      epMaxResponseBytes = (if epMaxResponseBytes p \<le> 0 then DefaultMaxResponseBytes else epMaxResponseBytes p)\<rparr>"

subsection \<open>The refusal table\<close>

datatype prefix = Prefix4 "32 word" nat | Prefix6 "128 word" nat

definition v4 :: "nat \<Rightarrow> nat \<Rightarrow> nat \<Rightarrow> nat \<Rightarrow> 32 word" where
  "v4 a b c d = word_of_nat (((a * 256 + b) * 256 + c) * 256 + d)"

text \<open>A 128-bit address from its first two groups, the rest zero.\<close>

definition v6 :: "nat \<Rightarrow> nat \<Rightarrow> 128 word" where
  "v6 a b = push_bit 112 (word_of_nat a) + push_bit 96 (word_of_nat b)"

text \<open>A zoned address is in no prefix.\<close>

fun prefix_contains :: "prefix \<Rightarrow> Addr \<Rightarrow> bool" where
  "prefix_contains (Prefix4 p n) (Addr4 a) = (drop_bit (32 - n) a = drop_bit (32 - n) p)"
| "prefix_contains (Prefix6 p n) (Addr6 a z) = (z = [] \<and> drop_bit (128 - n) a = drop_bit (128 - n) p)"
| "prefix_contains _ _ = False"

definition refusedRanges :: "(prefix \<times> string) list" where
  "refusedRanges =
     [(Prefix4 (v4 169 254 169 254) 32, ''cloud metadata endpoint''),
      (Prefix4 (v4 169 254 0 0) 16, ''link-local''),
      (Prefix4 (v4 127 0 0 0) 8, ''loopback''),
      (Prefix4 (v4 10 0 0 0) 8, ''private (RFC 1918)''),
      (Prefix4 (v4 172 16 0 0) 12, ''private (RFC 1918)''),
      (Prefix4 (v4 192 168 0 0) 16, ''private (RFC 1918)''),
      (Prefix4 (v4 100 64 0 0) 10, ''carrier-grade NAT (RFC 6598)''),
      (Prefix4 (v4 0 0 0 0) 8, ''this network''),
      (Prefix4 (v4 192 0 0 0) 24, ''IETF protocol assignments''),
      (Prefix4 (v4 198 18 0 0) 15, ''benchmarking''),
      (Prefix4 (v4 224 0 0 0) 4, ''multicast''),
      (Prefix4 (v4 240 0 0 0) 4, ''reserved / broadcast''),
      (Prefix6 0 128, ''unspecified''),
      (Prefix6 1 128, ''loopback''),
      (Prefix6 (v6 0xfe80 0) 10, ''link-local''),
      (Prefix6 (v6 0xfc00 0) 7, ''unique-local (RFC 4193)''),
      (Prefix6 (v6 0xff00 0) 8, ''multicast''),
      (Prefix6 (v6 0x2002 0) 16, ''6to4 tunnel (embedded IPv4)''),
      (Prefix6 (v6 0x2001 0) 32, ''Teredo tunnel (embedded IPv4)'')]"

definition nat64 :: prefix where
  "nat64 = Prefix6 (v6 0x64 0xff9b) 96"

definition ipv4Compatible :: prefix where
  "ipv4Compatible = Prefix6 0 96"

definition is_4in6 :: "128 word \<Rightarrow> bool" where
  "is_4in6 a \<longleftrightarrow> drop_bit 32 a = 0xffff"

definition low4 :: "128 word \<Rightarrow> 32 word" where
  "low4 a = ucast a"

fun unmap :: "Addr \<Rightarrow> Addr" where
  "unmap (Addr6 a z) = (if is_4in6 a then Addr4 (low4 a) else Addr6 a z)"
| "unmap a = a"

definition refused_by :: "Addr \<Rightarrow> string" where
  "refused_by a = (case List.find (\<lambda>(p, why). prefix_contains p a) refusedRanges of
     None \<Rightarrow> [] | Some (p, why) \<Rightarrow> why)"

text \<open>The recursive call of the source is on an IPv4 address, which it looks up in the table.\<close>

definition Refused :: "Addr \<Rightarrow> string" where
  "Refused addr =
     (let a = unmap addr in
      case a of
        Addr6 w z \<Rightarrow>
          if prefix_contains nat64 a \<or> (prefix_contains ipv4Compatible a \<and> a \<noteq> Addr6 0 [] \<and> a \<noteq> Addr6 1 [])
          then refused_by (Addr4 (low4 w)) else refused_by a
      | _ \<Rightarrow> refused_by a)"

subsection \<open>Vetting and dialing\<close>

text \<open>
  \<open>parse\<close> is \<open>netip.ParseAddr\<close>, \<open>lookup\<close> the resolver (\<open>None\<close> a failure), \<open>connect\<close>
  whether the dial of an address succeeds.
\<close>

definition Vet :: "(string \<Rightarrow> Addr option) \<Rightarrow> (string \<Rightarrow> Addr list option) \<Rightarrow> string \<Rightarrow> egress_error + Addr list" where
  "Vet parse lookup host =
     and_then
       (case parse host of
          Some ip \<Rightarrow> Inr [ip]
        | None \<Rightarrow> (case lookup host of
                    None \<Rightarrow> Inl (ErrResolve host)
                  | Some answers \<Rightarrow> if length answers = 0 then Inl (ErrNoAddresses host) else Inr answers))
       (\<lambda>answers. case check_all (\<lambda>a. if Refused a \<noteq> [] then Some (ErrPrivateAddress host a (Refused a)) else None) answers of
          Some e \<Rightarrow> Inl e
        | None \<Rightarrow> Inr answers)"

text \<open>\<open>net.SplitHostPort\<close>.\<close>

definition last_colon :: "string \<Rightarrow> nat option" where
  "last_colon s = (if CHR '':'' \<in> set s then Some (length s - 1 - length (takeWhile (\<lambda>c. c \<noteq> CHR '':'') (rev s))) else None)"

definition split_host_port :: "string \<Rightarrow> (string \<times> string) option" where
  "split_host_port hp =
     (case last_colon hp of
        None \<Rightarrow> None
      | Some i \<Rightarrow>
          if hd hp = CHR ''['' then
            (let end = length (takeWhile (\<lambda>c. c \<noteq> CHR '']'') hp) in
             if CHR '']'' \<notin> set hp \<or> end + 1 \<noteq> i \<or> CHR ''['' \<in> set (drop 1 hp) \<or> CHR '']'' \<in> set (drop (end + 1) hp)
             then None else Some (take (end - 1) (drop 1 hp), drop (i + 1) hp))
          else if CHR '':'' \<in> set (take i hp) \<or> CHR ''['' \<in> set hp \<or> CHR '']'' \<in> set hp then None
          else Some (take i hp, drop (i + 1) hp))"

text \<open>The result, and the addresses a connection was tried to, in order, with the port.\<close>

fun dial_each :: "(Addr \<Rightarrow> bool) \<Rightarrow> string \<Rightarrow> Addr list \<Rightarrow> (egress_error + Addr) \<times> Addr list" where
  "dial_each connect host [] = (Inl (ErrConnecting host), [])"
| "dial_each connect host (a # as) =
     (if connect (unmap a) then (Inr (unmap a), [unmap a])
      else (case dial_each connect host as of (r, tried) \<Rightarrow> (r, unmap a # tried)))"

definition DialContext ::
  "(string \<Rightarrow> Addr option) \<Rightarrow> (string \<Rightarrow> Addr list option) \<Rightarrow> (Addr \<Rightarrow> bool) \<Rightarrow> string \<Rightarrow>
     (egress_error + Addr) \<times> (Addr \<times> string) list" where
  "DialContext parse lookup connect addr =
     (case split_host_port addr of
        None \<Rightarrow> (Inl (ErrHostPort addr), [])
      | Some (host, port) \<Rightarrow>
          if port \<noteq> ''443'' then (Inl (ErrPort addr), [])
          else (case Vet parse lookup host of
                  Inl e \<Rightarrow> (Inl e, [])
                | Inr answers \<Rightarrow>
                    (case dial_each connect host answers of (r, tried) \<Rightarrow> (r, map (\<lambda>a. (a, port)) tried))))"

subsection \<open>The client\<close>

record Host =
  hoName :: string
  hoCAFile :: string

datatype client_error = EmptyHost | DuplicateHost string | UnreadableCA string | NoPEM string string

text \<open>\<open>read_ca\<close> reads a bundle: \<open>None\<close> unreadable, else whether it holds a certificate. The
  client maps each host name to its trust anchor, the empty string for the system roots.\<close>

definition add_host :: "(string \<Rightarrow> bool option) \<Rightarrow> Host \<Rightarrow> string gomap \<Rightarrow> client_error + string gomap" where
  "add_host read_ca h byHost =
     (let name = to_lower (trim_suffix (hoName h) ''.'') in
      if name = [] then Inl EmptyHost
      else if map_has byHost name then Inl (DuplicateHost name)
      else if hoCAFile h \<noteq> [] then
        (case read_ca (hoCAFile h) of
           None \<Rightarrow> Inl (UnreadableCA name)
         | Some False \<Rightarrow> Inl (NoPEM name (hoCAFile h))
         | Some True \<Rightarrow> Inr (map_set name (hoCAFile h) byHost))
      else Inr (map_set name [] byHost))"

definition NewClient :: "(string \<Rightarrow> bool option) \<Rightarrow> Host list \<Rightarrow> client_error + string gomap" where
  "NewClient read_ca hosts = foldM (add_host read_ca) hosts []"

text \<open>What the code reads of a parsed URL.\<close>

record URL =
  urlScheme :: string
  urlHost :: string
  urlHostname :: string
  urlPort :: string
  urlUser :: bool

text \<open>
  The checks before any byte leaves; then the host's own transport, which \<open>inner\<close> stands for:
  it gets the trust anchor, and the body lifetime and size cap that bound the response.
\<close>

definition RoundTrip ::
  "EgressPolicy \<Rightarrow> string gomap \<Rightarrow> (string \<Rightarrow> int \<Rightarrow> 's \<Rightarrow> (egress_error + 'b) \<times> 's) \<Rightarrow> URL \<Rightarrow> 's \<Rightarrow>
     (egress_error + ('b \<times> int)) \<times> 's" where
  "RoundTrip p byHost inner url s =
     (if urlScheme url \<noteq> ''https'' then (Inl (ErrScheme (urlHostname url)), s)
      else if urlPort url \<noteq> [] \<and> urlPort url \<noteq> ''443'' then (Inl (ErrPort (urlHostname url)), s)
      else
        (let name = to_lower (trim_suffix (urlHostname url) ''.'') in
         case map_get byHost name of
           None \<Rightarrow> (Inl (ErrUnknownHost name), s)
         | Some ca \<Rightarrow>
             (case inner ca (epBodyLifetime p) s of
                (Inl e, s') \<Rightarrow> (Inl e, s')
              | (Inr body, s') \<Rightarrow> (Inr (body, epMaxResponseBytes p), s'))))"

subsection \<open>The bounded body\<close>

datatype read_error = EOF_read | Broken string

text \<open>
  A reader's \<open>Read\<close> on a buffer of \<open>n\<close> bytes: the bytes, the error if any, the next state.
  \<open>fired\<close> says whether the lifetime deadline has passed.
\<close>

type_synonym 'b reader = "nat \<Rightarrow> 'b \<Rightarrow> (string \<times> read_error option) \<times> 'b"

record 'b boundedBody =
  bbBody :: 'b
  bbLeft :: int
  bbDone :: bool

datatype body_error = BodyEOF | BodyCut egress_error | BodyBroken string

fun body_error_of :: "read_error \<Rightarrow> body_error" where
  "body_error_of EOF_read = BodyEOF"
| "body_error_of (Broken e) = BodyBroken e"

definition BodyRead :: "'b reader \<Rightarrow> ('b \<Rightarrow> bool) \<Rightarrow> nat \<Rightarrow> 'b boundedBody \<Rightarrow> (string \<times> body_error option) \<times> 'b boundedBody" where
  "BodyRead rd fired n b =
     (if bbDone b then (([], Some BodyEOF), b)
      else if bbLeft b \<le> 0 then (([], Some (BodyCut ErrResponseTooLarge)), b)
      else
        (let n1 = (if int n > bbLeft b then nat (bbLeft b) else n) in
         case rd n1 (bbBody b) of
           ((data, err), s1) \<Rightarrow>
             (let b1 = b\<lparr>bbBody := s1, bbLeft := bbLeft b - int (length data)\<rparr> in
              if err \<noteq> None \<and> fired s1 then ((data, Some (BodyCut ErrBodyLifetime)), b1)
              else if err = None \<and> bbLeft b1 \<le> 0 then
                (case rd 1 s1 of
                   ((one, perr), s2) \<Rightarrow>
                     (let b2 = b1\<lparr>bbBody := s2\<rparr> in
                      if length one > 0 then ((data, Some (BodyCut ErrResponseTooLarge)), b2)
                      else if perr \<noteq> None \<and> fired s2 then ((data, Some (BodyCut ErrBodyLifetime)), b2)
                      else if perr \<noteq> None \<and> perr \<noteq> Some EOF_read then ((data, map_option body_error_of perr), b2)
                      else if fired s2 then ((data, Some (BodyCut ErrBodyLifetime)), b2)
                      else ((data, Some BodyEOF), b2\<lparr>bbDone := True\<rparr>)))
              else if err = Some EOF_read then ((data, Some BodyEOF), b1\<lparr>bbDone := True\<rparr>)
              else ((data, map_option body_error_of err), b1))))"

text \<open>Reading with the given buffer sizes until an error: what was read, the error.\<close>

fun read_bytes :: "'b reader \<Rightarrow> ('b \<Rightarrow> bool) \<Rightarrow> nat list \<Rightarrow> 'b boundedBody \<Rightarrow> string \<times> body_error option" where
  "read_bytes rd fired [] b = ([], None)"
| "read_bytes rd fired (n # ns) b =
     (case BodyRead rd fired n b of
        ((data, Some e), b') \<Rightarrow> (data, Some e)
      | ((data, None), b') \<Rightarrow> (case read_bytes rd fired ns b' of (rest, e) \<Rightarrow> (data @ rest, e)))"

subsection \<open>What the table refuses\<close>

lemma same_prefix: "drop_bit k a = drop_bit k b \<longleftrightarrow> unat a div 2 ^ k = unat b div 2 ^ k" for a b :: "'a::len word"
  by (metis drop_bit_eq_div unat_drop_bit_eq word_unat_eq_iff)

lemma unat_v4: "a < 256 \<Longrightarrow> b < 256 \<Longrightarrow> c < 256 \<Longrightarrow> d < 256 \<Longrightarrow> unat (v4 a b c d) = ((a * 256 + b) * 256 + c) * 256 + d"
  unfolding v4_def unat_of_nat by (simp add: take_bit_eq_mod)

lemma find_reason:
  assumes "\<forall>(p, why) \<in> set rs. why \<noteq> []"
  shows "(case List.find (\<lambda>(p, why). prefix_contains p a) rs of None \<Rightarrow> [] | Some (p, why) \<Rightarrow> why) \<noteq> [] \<longleftrightarrow>
    list_ex (\<lambda>(p, why). prefix_contains p a) rs"
  using assms by (induction rs) auto

lemma refused_by_ex: "refused_by a \<noteq> [] \<longleftrightarrow> list_ex (\<lambda>(p, why). prefix_contains p a) refusedRanges"
  unfolding refused_by_def by (rule find_reason) (simp add: refusedRanges_def)

definition forbidden_v4 :: "(32 word \<times> 32 word) list" where
  "forbidden_v4 =
     [(v4 0 0 0 0, v4 0 255 255 255), (v4 10 0 0 0, v4 10 255 255 255), (v4 100 64 0 0, v4 100 127 255 255),
      (v4 127 0 0 0, v4 127 255 255 255), (v4 169 254 0 0, v4 169 254 255 255), (v4 172 16 0 0, v4 172 31 255 255),
      (v4 192 0 0 0, v4 192 0 0 255), (v4 192 168 0 0, v4 192 168 255 255), (v4 198 18 0 0, v4 198 19 255 255),
      (v4 224 0 0 0, v4 239 255 255 255),
      (v4 240 0 0 0, v4 255 255 255 255)]"

lemma div_range: "0 < k \<Longrightarrow> n div k = q \<longleftrightarrow> q * k \<le> n \<and> n \<le> q * k + (k - 1)" for n k q :: nat
proof -
  assume k: "0 < k"
  have "n div k = q \<longleftrightarrow> k * q \<le> n \<and> n < k * Suc q"
    using dividend_less_times_div [OF k, of n] times_div_less_eq_dividend [of k n] div_nat_eqI [of k q n] by auto
  then show ?thesis using k by (auto simp: mult.commute)
qed

lemma prefix4_range: "prefix_contains (Prefix4 p n) (Addr4 w) \<longleftrightarrow>
    unat p div 2 ^ (32 - n) * 2 ^ (32 - n) \<le> unat w \<and> unat w \<le> unat p div 2 ^ (32 - n) * 2 ^ (32 - n) + (2 ^ (32 - n) - 1)"
  by (simp add: same_prefix div_range del: div_mult_self1 div_mult_self2)

lemma refused_by_v4:
  "refused_by (Addr4 w) \<noteq> [] \<longleftrightarrow> list_ex (\<lambda>(lo, hi). unat lo \<le> unat w \<and> unat w \<le> unat hi) forbidden_v4"
proof -
  have w: "unat w \<le> 4294967295" using unsigned_less [of w, where ?'a = nat] by simp
  have m: "2852039166 \<le> unat w \<and> unat w \<le> 2852039166 \<longrightarrow> 2851995648 \<le> unat w \<and> unat w \<le> 2852061183" by simp
  show ?thesis
    unfolding refused_by_ex refusedRanges_def forbidden_v4_def
    using w by (simp add: prefix4_range unat_v4 del: prefix_contains.simps(1)) (use m in blast)
qed

lemma Refused_v4: "Refused (Addr4 w) = refused_by (Addr4 w)"
  by (simp add: Refused_def)

subsection \<open>IPv6 forms of an IPv4 address\<close>

text \<open>An address whose upper 96 bits are \<open>p\<close> and whose lower 32 are \<open>w\<close>.\<close>

definition embed4 :: "96 word \<Rightarrow> 32 word \<Rightarrow> 128 word" where
  "embed4 p w = push_bit 32 (ucast p) + ucast w"

lemma unat_embed4: "unat (embed4 p w) = unat p * 4294967296 + unat w"
proof -
  have p: "unat p < 2 ^ 96" and w: "unat w < 2 ^ 32" using unsigned_less [of p] unsigned_less [of w] by simp_all
  have eq: "embed4 p w = word_of_nat (unat p * 4294967296 + unat w)"
    by (simp add: embed4_def push_bit_eq_mult)
  have "unat p * 4294967296 + unat w < 2 ^ 128" using p w by simp
  then show ?thesis unfolding eq by (subst unat_of_nat) (simp add: take_bit_eq_mod)
qed

lemma embed4_high: "drop_bit 32 (embed4 p w) = ucast p"
proof (rule word_unat_eq_iff [THEN iffD2])
  have p: "unat p < 2 ^ 96" and w: "unat w < 4294967296" using unsigned_less [of p] unsigned_less [of w] by simp_all
  have "unat (drop_bit 32 (embed4 p w)) = (unat p * 4294967296 + unat w) div 4294967296"
    unfolding unat_drop_bit_eq unat_embed4 by (simp add: drop_bit_eq_div)
  also have "\<dots> = unat p" using w by simp
  also have "unat p = unat (ucast p :: 128 word)" using p by (simp add: unsigned_ucast_eq take_bit_eq_mod)
  finally show "unat (drop_bit 32 (embed4 p w)) = unat (ucast p :: 128 word)" .
qed

lemma low4_embed: "low4 (embed4 p w) = w"
proof (rule word_unat_eq_iff [THEN iffD2])
  have w: "unat w < 4294967296" using unsigned_less [of w, where ?'a = nat] by simp
  have "unat (low4 (embed4 p w)) = (unat p * 4294967296 + unat w) mod 4294967296"
    by (simp add: low4_def unsigned_ucast_eq take_bit_eq_mod unat_embed4)
  then show "unat (low4 (embed4 p w)) = unat w" using w by simp
qed

lemma prefix96: "prefix_contains (Prefix6 q 96) (Addr6 (embed4 p w) []) \<longleftrightarrow> ucast p = drop_bit 32 q"
  by (simp add: embed4_high)

text \<open>A v4-mapped, NAT64 or v4-compatible address gets the verdict of the address it embeds.\<close>

lemma Refused_mapped: "Refused (Addr6 (embed4 0xffff w) z) = Refused (Addr4 w)"
  by (simp add: Refused_def is_4in6_def embed4_high low4_embed)

lemma nat64_word: "drop_bit 32 (v6 0x64 0xff9b) = ucast (0x64ff9b0000000000000000 :: 96 word)"
  by (simp add: v6_def)

lemma Refused_nat64: "Refused (Addr6 (embed4 0x64ff9b0000000000000000 w) []) = Refused (Addr4 w)"
proof -
  have "\<not> is_4in6 (embed4 0x64ff9b0000000000000000 w)" by (simp add: is_4in6_def embed4_high)
  moreover have "prefix_contains nat64 (Addr6 (embed4 0x64ff9b0000000000000000 w) [])"
    unfolding nat64_def prefix96 by (simp add: v6_def)
  ultimately show ?thesis by (simp add: Refused_def low4_embed del: prefix_contains.simps)
qed

lemma embed4_0: "embed4 0 w = ucast w"
  by (simp add: embed4_def)

lemma Refused_compatible:
  assumes "w \<noteq> 0" "w \<noteq> 1"
  shows "Refused (Addr6 (embed4 0 w) []) = Refused (Addr4 w)"
proof -
  have "\<not> is_4in6 (embed4 0 w)" by (simp add: is_4in6_def embed4_high)
  moreover have "prefix_contains ipv4Compatible (Addr6 (embed4 0 w) [])"
    unfolding ipv4Compatible_def prefix96 by simp
  moreover have "embed4 0 w \<noteq> 0" "embed4 0 w \<noteq> 1"
    using assms low4_embed [of 0 w] by (auto simp: low4_def)
  ultimately show ?thesis by (simp add: Refused_def low4_embed del: prefix_contains.simps)
qed

lemma Refused_unspecified: "Refused (Addr6 0 []) = ''unspecified''"
  by (simp add: Refused_def is_4in6_def nat64_def v6_def refused_by_def refusedRanges_def)

lemma Refused_loopback6: "Refused (Addr6 1 []) = ''loopback''"
  by (simp add: Refused_def is_4in6_def nat64_def v6_def refused_by_def refusedRanges_def)

text \<open>A zoned address is in no prefix, so nothing of the table applies to it.\<close>

lemma Refused_zoned: "z \<noteq> [] \<Longrightarrow> \<not> is_4in6 w \<Longrightarrow> Refused (Addr6 w z) = []"
  by (simp add: Refused_def refused_by_def refusedRanges_def nat64_def ipv4Compatible_def)

subsection \<open>Only vetted addresses are dialed\<close>

lemma unmap_idem [simp]: "unmap (unmap a) = unmap a"
  by (cases a) simp_all

lemma Refused_unmap [simp]: "Refused (unmap a) = Refused a"
  by (simp add: Refused_def)

lemma Vet_Inr: "Vet parse lookup host = Inr answers \<Longrightarrow>
    answers \<noteq> [] \<and> (\<forall>a \<in> set answers. Refused a = []) \<and>
    (case parse host of Some ip \<Rightarrow> answers = [ip] | None \<Rightarrow> lookup host = Some answers)"
  by (auto simp: Vet_def check_all_None split: option.splits if_splits)

lemma Vet_refuses:
  "parse host = None \<Longrightarrow> lookup host = Some answers \<Longrightarrow> a \<in> set answers \<Longrightarrow> Refused a \<noteq> [] \<Longrightarrow>
    \<exists>b why. Vet parse lookup host = Inl (ErrPrivateAddress host b why) \<and> b \<in> set answers \<and> why = Refused b \<and> why \<noteq> []"
  by (auto simp: Vet_def check_all_def find_None_iff find_Some_iff split: option.splits if_splits)

lemma dial_each_tried:
  "dial_each connect host as = (r, tried) \<Longrightarrow>
     (\<exists>k. tried = map unmap (take k as)) \<and> (\<forall>a. r = Inr a \<longrightarrow> tried \<noteq> [] \<and> last tried = a \<and> connect a) \<and>
     (\<forall>e. r = Inl e \<longrightarrow> tried = map unmap as)"
proof (induction as arbitrary: r tried)
  case (Cons a as)
  show ?case
  proof (cases "connect (unmap a)")
    case True
    then show ?thesis using Cons.prems by (auto intro!: exI [of _ "1"])
  next
    case False
    then obtain t where t: "dial_each connect host as = (r, t)" "tried = unmap a # t"
      using Cons.prems by (auto split: prod.splits)
    then obtain k where "t = map unmap (take k as)" using Cons.IH by blast
    then have "\<exists>k. tried = map unmap (take k (a # as))" using t(2) by (intro exI [of _ "Suc k"]) simp
    then show ?thesis using Cons.IH [OF t(1)] t(2) by simp
  qed
qed simp

subsection \<open>The bounded body never ends early in silence\<close>

text \<open>
  What a reader promises: \<open>content\<close> is what it will still deliver, an EOF comes only at its
  end, and a read into a non-empty buffer that reports nothing at all does not happen.
\<close>

definition reader_law :: "'b reader \<Rightarrow> ('b \<Rightarrow> string) \<Rightarrow> bool" where
  "reader_law rd content \<longleftrightarrow> (\<forall>n b. case rd n b of ((data, e), b') \<Rightarrow>
     length data \<le> n \<and> content b = data @ content b' \<and> (e = Some EOF_read \<longrightarrow> content b' = []) \<and>
     (0 < n \<and> data = [] \<longrightarrow> e \<noteq> None))"

lemma reader_lawD:
  assumes "reader_law rd content" "rd n b = ((data, e), b')"
  shows "length data \<le> n" "content b = data @ content b'" "e = Some EOF_read \<Longrightarrow> content b' = []"
    "0 < n \<Longrightarrow> data = [] \<Longrightarrow> e \<noteq> None"
  using assms unfolding reader_law_def by (auto dest!: spec [of _ n] spec [of _ b])

lemma BodyRead_open:
  assumes "reader_law rd content" "BodyRead rd fired n b = ((data, e), b')" "\<not> bbDone b" "0 < bbLeft b"
  shows "(\<exists>s1. content (bbBody b) = data @ content s1 \<and> (e = Some BodyEOF \<longrightarrow> content s1 = [])) \<and>
    int (length data) \<le> bbLeft b \<and>
    (e = None \<longrightarrow> content (bbBody b) = data @ content (bbBody b') \<and> \<not> bbDone b' \<and>
      bbLeft b' = bbLeft b - int (length data) \<and> 0 < bbLeft b')"
proof -
  let ?n = "if int n > bbLeft b then nat (bbLeft b) else n"
  obtain d0 err s1 where r1: "rd ?n (bbBody b) = ((d0, err), s1)" by (metis prod.exhaust)
  note L1 = reader_lawD [OF assms(1) r1]
  have len: "int (length d0) \<le> bbLeft b" using L1(1) assms(4) by (auto split: if_splits)
  note u = assms(2) [unfolded BodyRead_def Let_def r1 prod.case]
  obtain one perr s2 where r2: "rd 1 s1 = ((one, perr), s2)" by (metis prod.exhaust)
  note L2 = reader_lawD [OF assms(1) r2]
  consider "err \<noteq> None" "fired s1" | "err = None" "bbLeft b - int (length d0) \<le> 0"
    | "err = Some EOF_read" "\<not> fired s1" | x where "err = Some (Broken x)" "\<not> fired s1"
    | "err = None" "0 < bbLeft b - int (length d0)"
    by (cases err; cases "the err"; cases "bbLeft b - int (length d0) \<le> 0") auto
  then show ?thesis
  proof cases
    case 2
    have "perr = Some EOF_read" if "one = []" "perr = None \<or> perr = Some EOF_read" using L2(4) that by auto
    then have "content s1 = []" if "one = []" "perr = None \<or> perr = Some EOF_read" using L2(2,3) that by auto
    then show ?thesis using u L1(2) len assms(3,4) 2 r2
      by (cases perr; cases "the perr") (auto split: if_splits)
  qed (use u L1(2,3) len assms(3,4) in \<open>auto split: if_splits\<close>)
qed

lemma read_bytes_complete:
  assumes "reader_law rd content" "\<not> bbDone b" "0 \<le> bbLeft b"
  shows "(\<exists>rest. content (bbBody b) = fst (read_bytes rd fired ns b) @ rest \<and>
      (snd (read_bytes rd fired ns b) = Some BodyEOF \<longrightarrow> rest = [])) \<and>
    int (length (fst (read_bytes rd fired ns b))) \<le> bbLeft b"
  using assms(2,3)
proof (induction ns arbitrary: b)
  case (Cons n ns)
  obtain data e b' where r: "BodyRead rd fired n b = ((data, e), b')" by (metis prod.exhaust)
  show ?case
  proof (cases "bbLeft b = 0")
    case True
    then show ?thesis using Cons.prems by (simp add: BodyRead_def)
  next
    case False
    then have "0 < bbLeft b" using Cons.prems(2) by simp
    note o = BodyRead_open [OF assms(1) r Cons.prems(1) this]
    show ?thesis
    proof (cases e)
      case (Some x)
      then show ?thesis using o r by auto
    next
      case None
      then have n: "content (bbBody b) = data @ content (bbBody b')" "\<not> bbDone b'"
        "bbLeft b' = bbLeft b - int (length data)" "0 \<le> bbLeft b'" using o by auto
      show ?thesis using Cons.IH [OF n(2,4)] n r None by (auto split: prod.splits)
    qed
  qed
qed simp

text \<open>Once the deadline has fired, no read ends the body cleanly.\<close>

definition fired_stays :: "'b reader \<Rightarrow> ('b \<Rightarrow> bool) \<Rightarrow> bool" where
  "fired_stays rd fired \<longleftrightarrow> (\<forall>n b. fired b \<longrightarrow> fired (snd (rd n b)))"

lemma BodyRead_fired:
  assumes "fired_stays rd fired" "fired (bbBody b)" "\<not> bbDone b" "BodyRead rd fired n b = ((data, e), b')"
  shows "e \<noteq> Some BodyEOF \<and> (e = None \<longrightarrow> fired (bbBody b') \<and> \<not> bbDone b')"
proof (cases "0 < bbLeft b")
  case True
  let ?n = "if int n > bbLeft b then nat (bbLeft b) else n"
  obtain d0 err s1 where r1: "rd ?n (bbBody b) = ((d0, err), s1)" by (metis prod.exhaust)
  obtain one perr s2 where r2: "rd 1 s1 = ((one, perr), s2)" by (metis prod.exhaust)
  have f: "fired s1" "fired s2" using assms(1,2) r1 r2 unfolding fired_stays_def by (metis snd_conv)+
  show ?thesis using assms(3,4) True f
    unfolding BodyRead_def Let_def r1 prod.case
    by (cases err; cases "bbLeft b - int (length d0) \<le> 0") (auto simp: r2 [simplified] split: if_splits)
qed (use assms(3,4) in \<open>auto simp: BodyRead_def\<close>)

lemma read_bytes_fired:
  assumes "fired_stays rd fired" "fired (bbBody b)" "\<not> bbDone b"
  shows "snd (read_bytes rd fired ns b) \<noteq> Some BodyEOF"
  using assms(2,3)
proof (induction ns arbitrary: b)
  case (Cons n ns)
  obtain data e b' where r: "BodyRead rd fired n b = ((data, e), b')" by (metis prod.exhaust)
  note f = BodyRead_fired [OF assms(1) Cons.prems r]
  show ?case
  proof (cases e)
    case None
    then show ?thesis using f r Cons.IH [of b'] by (auto split: prod.splits)
  qed (use f r in auto)
qed simp

end
