(* ===== verification/EgressProps.thy ===== *)
theory EgressProps
  imports Egress
begin

text \<open>
  What the hardened dialer guarantees: which addresses the refusal table lets through, that an
  embedded IPv4 address is judged like the plain one, that a connection is tried to vetted
  addresses on port 443 only, and that a body is never cut in silence.
\<close>

text \<open>
  The addresses of IPv4 the dialer may reach are exactly those outside the twelve
  forbidden ranges, first and last address included.
\<close>

theorem forbidden_ipv4_ranges:
  "Refused (Addr4 w) = [] \<longleftrightarrow>
     \<not> list_ex (\<lambda>(lo, hi). unat lo \<le> unat w \<and> unat w \<le> unat hi) forbidden_v4"
  unfolding Refused_v4 using refused_by_v4 [of w] by blast

text \<open>
  An IPv4 address cannot hide inside an IPv6 one: its v4-mapped form, with or without a
  zone, and its NAT64 form get exactly its verdict, its v4-compatible form is dialed only when
  it may be.
\<close>

theorem embedded_ipv4_is_judged_alike:
  "Refused (Addr6 (embed4 0xffff w) z) = Refused (Addr4 w) \<and>
   Refused (Addr6 (embed4 0x64ff9b0000000000000000 w) []) = Refused (Addr4 w) \<and>
   (Refused (Addr6 (embed4 0 w) []) = []) = (Refused (Addr4 w) = [])"
proof -
  have "(Refused (Addr6 (embed4 0 w) []) = []) = (Refused (Addr4 w) = [])"
  proof (cases "w = 0 \<or> w = 1")
    case True
    then have "unat w \<le> unat (v4 0 255 255 255)" by (auto simp: unat_v4)
    then have "Refused (Addr4 w) \<noteq> []"
      unfolding Refused_v4 refused_by_v4 forbidden_v4_def by (simp add: unat_v4)
    moreover have "Refused (Addr6 (embed4 0 w) []) \<noteq> []"
      using True Refused_unspecified Refused_loopback6 by (auto simp: embed4_0)
    ultimately show ?thesis by simp
  next
    case False
    then show ?thesis using Refused_compatible by simp
  qed
  then show ?thesis using Refused_mapped Refused_nat64 by blast
qed

text \<open>
  C15: every address a connection is tried to was among the vetted answers of this very call, is
  not refused, and is tried on port 443; one refused answer and no connection is tried at all.
\<close>

theorem only_vetted_addresses_are_dialed:
  assumes "DialContext parse lookup connect addr = (r, tried)" "(a, port) \<in> set tried"
  shows "port = ''443'' \<and> Refused a = [] \<and>
    (\<exists>host answers. split_host_port addr = Some (host, ''443'') \<and> Vet parse lookup host = Inr answers \<and>
       (\<forall>b \<in> set answers. Refused b = []) \<and> a \<in> unmap ` set answers)"
proof -
  obtain host where h: "split_host_port addr = Some (host, ''443'')"
    and d: "(case Vet parse lookup host of Inl e \<Rightarrow> (Inl e, [])
       | Inr answers \<Rightarrow> (case dial_each connect host answers of (r, tried) \<Rightarrow> (r, map (\<lambda>a. (a, ''443'')) tried))) = (r, tried)"
    using assms by (auto simp: DialContext_def split: option.splits if_splits)
  obtain answers where v: "Vet parse lookup host = Inr answers"
    using d assms(2) by (cases "Vet parse lookup host") auto
  obtain ts where t: "dial_each connect host answers = (r, ts)" "tried = map (\<lambda>a. (a, ''443'')) ts"
    using d v by (auto split: prod.splits)
  then obtain k where "ts = map unmap (take k answers)" using dial_each_tried by blast
  then have "port = ''443''" "a \<in> unmap ` set answers" using assms(2) t(2) by (auto dest: in_set_takeD)
  then show ?thesis using h v Vet_Inr [OF v] by auto
qed

theorem only_vetted_addresses_are_dialed_witness:
  "DialContext (\<lambda>s. None) (\<lambda>s. Some [Addr4 (v4 140 82 112 3)]) (\<lambda>a. True) ''h:443'' =
     (Inr (Addr4 (v4 140 82 112 3)), [(Addr4 (v4 140 82 112 3), ''443'')]) \<and> Refused (Addr4 (v4 140 82 112 3)) = []"
proof -
  have r: "Refused (Addr4 (v4 140 82 112 3)) = []"
    by (simp add: forbidden_ipv4_ranges forbidden_v4_def unat_v4)
  have d: "DialContext (\<lambda>s. None) (\<lambda>s. Some [Addr4 (v4 140 82 112 3)]) (\<lambda>a. True) ''h:443'' =
     (Inr (Addr4 (v4 140 82 112 3)), [(Addr4 (v4 140 82 112 3), ''443'')])"
    by (simp add: DialContext_def split_host_port_def last_colon_def Vet_def check_all_def r)
  show ?thesis using only_vetted_addresses_are_dialed [OF d] d by simp
qed

text \<open>
  An IPv6 address with a zone that is not v4-mapped is refused by no entry of the table:
  \<open>::1%lo\<close> and \<open>fe80::1%eth0\<close> pass as public addresses.
\<close>

theorem zoned_addresses_pass_the_table:
  assumes "z \<noteq> []" "\<not> is_4in6 w"
  shows "Refused (Addr6 w z) = []"
  using assms by (rule Refused_zoned)

theorem zoned_addresses_pass_the_table_witness:
  "Refused (Addr6 1 ''lo'') = [] \<and> Refused (Addr6 1 []) \<noteq> []"
proof -
  have "Refused (Addr6 1 []) \<noteq> []"
    by (simp add: Refused_loopback6)
  then show ?thesis using zoned_addresses_pass_the_table [of "''lo''" 1] by (simp add: is_4in6_def)
qed

text \<open>
  Whatever buffers a caller reads a hosted response with, it gets a prefix of the body and
  never more than the cap; if the read ends without an error the body is complete; and once the
  lifetime deadline has fired the read cannot end without an error.
\<close>

theorem a_body_is_complete_or_an_error:
  assumes "reader_law rd content" "0 \<le> cap"
    and "b = \<lparr>bbBody = s, bbLeft = cap, bbDone = False\<rparr>"
  shows "(\<exists>rest. content s = fst (read_bytes rd fired ns b) @ rest \<and>
      (snd (read_bytes rd fired ns b) = Some BodyEOF \<longrightarrow> rest = [])) \<and>
    int (length (fst (read_bytes rd fired ns b))) \<le> cap \<and>
    (fired_stays rd fired \<and> fired s \<longrightarrow> snd (read_bytes rd fired ns b) \<noteq> Some BodyEOF)"
  using read_bytes_complete [OF assms(1), of b] read_bytes_fired [of rd fired b] assms(2,3) by simp

text \<open>A reader over a byte string, for the witness.\<close>

definition string_reader :: "string reader" where
  "string_reader n s = ((take n s, if s = [] then Some EOF_read else None), drop n s)"

theorem a_body_is_complete_or_an_error_witness:
  "read_bytes string_reader (\<lambda>s. False) [2, 2, 2] \<lparr>bbBody = ''abc'', bbLeft = 3, bbDone = False\<rparr> = (''abc'', Some BodyEOF) \<and>
   snd (read_bytes string_reader (\<lambda>s. False) [2, 2, 2] \<lparr>bbBody = ''abcd'', bbLeft = 3, bbDone = False\<rparr>) =
     Some (BodyCut ErrResponseTooLarge) \<and>
   int (length (fst (read_bytes string_reader (\<lambda>s. False) [9] \<lparr>bbBody = ''abcd'', bbLeft = 3, bbDone = False\<rparr>))) \<le> 3"
proof -
  have "reader_law string_reader id" by (auto simp: reader_law_def string_reader_def)
  from a_body_is_complete_or_an_error [OF this _ refl, of 3 "''abcd''" "\<lambda>s. False" "[9]"]
  show ?thesis by (simp add: BodyRead_def string_reader_def Let_def)
qed

end
