(* ===== verification/Config.thy ===== *)
theory Config
  imports Policy Egress
begin

text \<open>
  Component \<^verbatim>\<open>plane/internal/config/config.go\<close>: the upstream table. The JSON decoding into
  the structs, \<open>url.Parse\<close> and \<open>netip.ParseAddr\<close> are parameters; every check \<open>Parse\<close>
  makes afterwards is here, in its order, the loops over Go maps in key order.
\<close>

subsection \<open>The table\<close>

definition ClassFree :: string where "ClassFree = ''free''"
definition ClassMetered :: string where "ClassMetered = ''metered''"

record Upstream =
  upBaseURL :: string
  upPath :: string
  upClassification :: string
  upCredentialFile :: string
  upCredentialHeader :: string
  upExtraHeaders :: "string gomap"
  upPrices :: "price gomap"
  upInternet :: bool
  upCAFile :: string

record ToolUpstream =
  tuURL :: string
  tuCredentialFile :: string
  tuCredentialHeader :: string
  tuInternet :: bool
  tuCAFile :: string
  tuExtraHeaders :: "string gomap"
  tuTools :: "ToolPolicy gomap"

definition AuthBearer :: string where "AuthBearer = ''bearer''"
definition AuthKaimahiHMAC :: string where "AuthKaimahiHMAC = ''kaimahi-hmac''"
definition AuthSlack :: string where "AuthSlack = ''slack''"

record InboundHook =
  ihCredential :: string
  ihAuth :: string
  ihSigningSecretFile :: string
  ihAgentNamespace :: string
  ihAgent :: string
  ihSlackChannelsFile :: string
  ihSlackApproversFile :: string
  ihSlackDefaultUses :: int
  ihSlackDefaultTTL :: string
  ihBudgetCredential :: string
  ihToolCredential :: string
  ihMaxBodyBytes :: int
  ihRatePerMinute :: int
  ihBurst :: int

definition DefaultInboundMaxBody :: int where "DefaultInboundMaxBody = 65536"
definition DefaultInboundRate :: int where "DefaultInboundRate = 60"
definition DefaultInboundBurst :: int where "DefaultInboundBurst = 10"
definition maxInboundBody :: int where "maxInboundBody = 4194304"
definition maxInboundRate :: int where "maxInboundRate = 100000"
definition DefaultSlackUses :: int where "DefaultSlackUses = 1"
definition DefaultSlackTTL :: string where "DefaultSlackTTL = ''15m''"
definition maxSlackUses :: int where "maxSlackUses = 1000000"

lemmas inbound_bounds = DefaultInboundMaxBody_def DefaultInboundRate_def DefaultInboundBurst_def
  maxInboundBody_def maxInboundRate_def DefaultSlackUses_def DefaultSlackTTL_def maxSlackUses_def

record ApprovalNotifier =
  anToolUpstream :: string
  anTool :: string
  anCredentialFile :: string
  anChannelFile :: string

record Config =
  cfUpstreams :: "Upstream gomap"
  cfToolUpstreams :: "ToolUpstream gomap"
  cfInboundHooks :: "InboundHook gomap"
  cfApprovalNotifier :: "ApprovalNotifier option"
  cfStandingConstraints :: "Constraint list gomap gomap"
  cfPolicy :: PolicySet

subsection \<open>Lifetimes and header names\<close>

datatype ttl_error = TTLEmpty | TTLSyntax | TTLRange

definition ttl_error_text :: "ttl_error \<Rightarrow> string" where
  "ttl_error_text e =
     (case e of TTLEmpty \<Rightarrow> ''empty ttl'' | TTLSyntax \<Rightarrow> ''want e.g. 90, 90s, 5m, 2h, 1d''
      | TTLRange \<Rightarrow> ''ttl out of range [1s, 30d]'')"

definition MaxTTL :: int where
  "MaxTTL = 30 * 24 * hour"

definition ttl_unit :: "string \<Rightarrow> int \<times> string" where
  "ttl_unit s =
     (if last s = CHR ''s'' then (second, butlast s)
      else if last s = CHR ''m'' then (minute, butlast s)
      else if last s = CHR ''h'' then (hour, butlast s)
      else if last s = CHR ''d'' then (24 * hour, butlast s)
      else (second, s))"

definition ParseTTL :: "string \<Rightarrow> ttl_error + int" where
  "ParseTTL s =
     (if s = [] then Inl TTLEmpty
      else case ttl_unit s of (unit, digits) \<Rightarrow>
        if digits = [] \<or> length digits > 9 then Inl TTLSyntax
        else if \<not> list_all is_digit digits then Inl TTLSyntax
        else case parse_int digits of
               None \<Rightarrow> Inl TTLSyntax
             | Some n \<Rightarrow>
                 if n < 1 \<or> n > go_div MaxTTL unit then Inl TTLRange else Inr (wrap64 (n * unit)))"

definition tchar :: "char \<Rightarrow> bool" where
  "tchar c \<longleftrightarrow> is_alnum c \<or> c \<in> set (''!#$%&*+-.^_`|~'' @ [CHR 0x27])"

definition validHeaderName :: "string \<Rightarrow> bool" where
  "validHeaderName name \<longleftrightarrow> name = [] \<or> list_all tchar name"

text \<open>Both names are ASCII where they are compared.\<close>

definition equal_fold :: "string \<Rightarrow> string \<Rightarrow> bool" where
  "equal_fold a b \<longleftrightarrow> to_lower a = to_lower b"

subsection \<open>Checks\<close>

datatype host_error = HNotHttps string | HPort string | HUserinfo | HRefused string string
  | HCAFile | HPublic string | HTwoLabelHttps string | HNotInCluster string

definition hostedShape :: "(string \<Rightarrow> Addr option) \<Rightarrow> URL \<Rightarrow> bool \<Rightarrow> string \<Rightarrow> host_error option" where
  "hostedShape parse_addr u internet caFile =
     (let host = urlHostname u in
      if internet then
        (if urlScheme u \<noteq> ''https'' then Some (HNotHttps (urlScheme u))
         else if urlPort u \<noteq> [] \<and> urlPort u \<noteq> ''443'' then Some (HPort (urlPort u))
         else if urlUser u then Some HUserinfo
         else case parse_addr host of
                Some ip \<Rightarrow> if Refused ip \<noteq> [] then Some (HRefused host (Refused ip)) else None
              | None \<Rightarrow> None)
      else if caFile \<noteq> [] then Some HCAFile
      else case parse_addr host of
             Some ip \<Rightarrow> if Refused ip = [] then Some (HPublic host) else None
           | None \<Rightarrow>
               (let h = trim_suffix (to_lower host) ''.'' in
                if has_suffix h ''.svc.cluster.local'' \<or> has_suffix h ''.svc'' \<or> CHR ''.'' \<notin> set h then None
                else if count_list h (CHR ''.'') = 1 then
                  (if urlScheme u = ''https'' then Some (HTwoLabelHttps host) else None)
                else Some (HNotInCluster host)))"

datatype config_error =
    CfDecode
  | CfNoUpstreams
  | CfBaseURL string string
  | CfUpstreamHost string host_error
  | CfPath string
  | CfFreePrices string
  | CfClassification string
  | CfPriceRange string string
  | CfToolURL string string
  | CfToolHost string host_error
  | CfHeaderWithoutFile string
  | CfCredentialHeader string string
  | CfExtraHeaderName string string
  | CfExtraHeaderDisplaces string string
  | CfHookName string
  | CfHookToolCredential string
  | CfHookCredential string
  | CfHookAgent string
  | CfHookSlackFields string
  | CfHookSlackUses string
  | CfHookSlackTTL string ttl_error
  | CfHookSecretMeaningless string
  | CfHookSecretRequired string
  | CfHookChannelsRequired string
  | CfHookApproversRequired string
  | CfHookAuth string
  | CfHookMaxBody string
  | CfHookRate string
  | CfNotifierUpstream string
  | CfNotifierTool string
  | CfNotifierFiles
  | CfPolicy policy_error

definition check_upstream :: "(string \<Rightarrow> URL option) \<Rightarrow> (string \<Rightarrow> Addr option) \<Rightarrow> string \<times> Upstream \<Rightarrow> config_error option" where
  "check_upstream parse_url parse_addr nu =
     (case nu of (name, u) \<Rightarrow>
        case parse_url (upBaseURL u) of
          None \<Rightarrow> Some (CfBaseURL name (upBaseURL u))
        | Some p \<Rightarrow>
            if urlScheme p = [] \<or> urlHost p = [] then Some (CfBaseURL name (upBaseURL u))
            else case hostedShape parse_addr p (upInternet u) (upCAFile u) of
                   Some e \<Rightarrow> Some (CfUpstreamHost name e)
                 | None \<Rightarrow>
                     if upPath u = [] \<or> has_prefix (upPath u) ''/'' then Some (CfPath name)
                     else if upClassification u = ClassFree \<and> 0 < length (upPrices u) then Some (CfFreePrices name)
                     else if upClassification u \<noteq> ClassFree \<and> upClassification u \<noteq> ClassMetered
                     then Some (CfClassification name)
                     else check_all (\<lambda>(model, pr). if \<not> price_in_range pr then Some (CfPriceRange name model) else None)
                            (upPrices u))"

definition check_tool_upstream :: "(string \<Rightarrow> URL option) \<Rightarrow> (string \<Rightarrow> Addr option) \<Rightarrow> string \<times> ToolUpstream \<Rightarrow> config_error option" where
  "check_tool_upstream parse_url parse_addr nt =
     (case nt of (name, t) \<Rightarrow>
        case parse_url (tuURL t) of
          None \<Rightarrow> Some (CfToolURL name (tuURL t))
        | Some p \<Rightarrow>
            if (urlScheme p \<noteq> ''http'' \<and> urlScheme p \<noteq> ''https'') \<or> urlHost p = [] then Some (CfToolURL name (tuURL t))
            else case hostedShape parse_addr p (tuInternet t) (tuCAFile t) of
                   Some e \<Rightarrow> Some (CfToolHost name e)
                 | None \<Rightarrow>
                     if tuCredentialHeader t \<noteq> [] \<and> tuCredentialFile t = [] then Some (CfHeaderWithoutFile name)
                     else if \<not> validHeaderName (tuCredentialHeader t) then Some (CfCredentialHeader name (tuCredentialHeader t))
                     else
                       (let credSlot = (if tuCredentialHeader t = [] then ''authorization'' else tuCredentialHeader t) in
                        check_all (\<lambda>(k, v).
                            if \<not> validHeaderName k \<or> k = [] then Some (CfExtraHeaderName name k)
                            else if equal_fold k credSlot \<or> equal_fold k ''authorization''
                            then Some (CfExtraHeaderDisplaces name k) else None)
                          (tuExtraHeaders t)))"

definition check_hook :: "string \<times> InboundHook \<Rightarrow> config_error option" where
  "check_hook nh =
     (case nh of (name, h) \<Rightarrow>
        if \<not> dnsLabel name then Some (CfHookName name)
        else if ihToolCredential h \<noteq> [] \<and> \<not> dnsLabel (ihToolCredential h) then Some (CfHookToolCredential name)
        else if \<not> dnsLabel (ihCredential h) \<or> \<not> dnsLabel (ihBudgetCredential h) then Some (CfHookCredential name)
        else if \<not> dnsLabel (ihAgent h) \<or> \<not> dnsLabel (ihAgentNamespace h) then Some (CfHookAgent name)
        else if ihAuth h \<noteq> AuthSlack \<and> (ihSlackChannelsFile h \<noteq> [] \<or> ihSlackApproversFile h \<noteq> [] \<or>
             ihSlackDefaultUses h \<noteq> 0 \<or> ihSlackDefaultTTL h \<noteq> []) then Some (CfHookSlackFields name)
        else if ihSlackDefaultUses h < 0 \<or> ihSlackDefaultUses h > maxSlackUses then Some (CfHookSlackUses name)
        else case (if ihSlackDefaultTTL h \<noteq> [] then ParseTTL (ihSlackDefaultTTL h) else Inr 0) of
               Inl e \<Rightarrow> Some (CfHookSlackTTL name e)
             | Inr _ \<Rightarrow>
                 if ihAuth h = AuthBearer \<and> ihSigningSecretFile h \<noteq> [] then Some (CfHookSecretMeaningless name)
                 else if (ihAuth h = AuthKaimahiHMAC \<or> ihAuth h = AuthSlack) \<and> ihSigningSecretFile h = []
                 then Some (CfHookSecretRequired name)
                 else if ihAuth h = AuthSlack \<and> ihSlackChannelsFile h = [] then Some (CfHookChannelsRequired name)
                 else if ihAuth h = AuthSlack \<and> ihSlackApproversFile h = [] then Some (CfHookApproversRequired name)
                 else if ihAuth h \<noteq> AuthBearer \<and> ihAuth h \<noteq> AuthKaimahiHMAC \<and> ihAuth h \<noteq> AuthSlack
                 then Some (CfHookAuth name)
                 else if ihMaxBodyBytes h < 0 \<or> ihMaxBodyBytes h > maxInboundBody then Some (CfHookMaxBody name)
                 else if ihRatePerMinute h < 0 \<or> ihRatePerMinute h > maxInboundRate \<or>
                   ihBurst h < 0 \<or> ihBurst h > maxInboundRate then Some (CfHookRate name)
                 else None)"

definition check_notifier :: "ToolUpstream gomap \<Rightarrow> ApprovalNotifier option \<Rightarrow> config_error option" where
  "check_notifier tools n =
     (case n of
        None \<Rightarrow> None
      | Some a \<Rightarrow>
          if \<not> map_has tools (anToolUpstream a) then Some (CfNotifierUpstream (anToolUpstream a))
          else if \<not> toolName (anTool a) then Some (CfNotifierTool (anTool a))
          else if anCredentialFile a = [] \<or> anChannelFile a = [] then Some CfNotifierFiles
          else None)"

fun first_error :: "'e option list \<Rightarrow> 'e option" where
  "first_error [] = None"
| "first_error (Some e # es) = Some e"
| "first_error (None # es) = first_error es"

definition Parse ::
  "(string \<Rightarrow> Config option) \<Rightarrow> (string \<Rightarrow> URL option) \<Rightarrow> (string \<Rightarrow> Addr option) \<Rightarrow> string \<Rightarrow> config_error + Config" where
  "Parse decode parse_url parse_addr raw =
     (case decode raw of
        None \<Rightarrow> Inl CfDecode
      | Some c \<Rightarrow>
          if length (cfUpstreams c) = 0 then Inl CfNoUpstreams
          else case first_error
              [check_all (check_upstream parse_url parse_addr) (cfUpstreams c),
               check_all (check_tool_upstream parse_url parse_addr) (cfToolUpstreams c),
               check_all check_hook (cfInboundHooks c),
               check_notifier (cfToolUpstreams c) (cfApprovalNotifier c)] of
            Some e \<Rightarrow> Inl e
          | None \<Rightarrow>
              (case buildPolicy (map (\<lambda>(n, t). (n, tuTools t)) (cfToolUpstreams c)) (cfStandingConstraints c) of
                 Inl e \<Rightarrow> Inl (CfPolicy e)
               | Inr p \<Rightarrow> Inr (c\<lparr>cfPolicy := p\<rparr>)))"

subsection \<open>What main reads of it\<close>

definition host_name :: "URL \<Rightarrow> string" where
  "host_name u = to_lower (trim_suffix (urlHostname u) ''.'')"

definition add_in_cluster :: "(string \<Rightarrow> URL option) \<Rightarrow> string \<Rightarrow> string list \<Rightarrow> string list" where
  "add_in_cluster parse_url raw out =
     (case parse_url raw of
        None \<Rightarrow> out
      | Some u \<Rightarrow> if host_name u = [] \<or> host_name u \<in> set out then out else out @ [host_name u])"

definition InClusterHosts :: "(string \<Rightarrow> URL option) \<Rightarrow> Config \<Rightarrow> string list" where
  "InClusterHosts parse_url c =
     fold (add_in_cluster parse_url)
       (map (\<lambda>(n, u). upBaseURL u) (filter (\<lambda>(n, u). \<not> upInternet u) (cfUpstreams c)) @
        map (\<lambda>(n, t). tuURL t) (filter (\<lambda>(n, t). \<not> tuInternet t) (cfToolUpstreams c))) []"

text \<open>The hosts so far, and for each name the anchor it was last added with.\<close>

definition add_internet :: "(string \<Rightarrow> URL option) \<Rightarrow> string \<times> string \<Rightarrow> Host list \<times> string gomap \<Rightarrow> Host list \<times> string gomap" where
  "add_internet parse_url rc acc =
     (case rc of (raw, caFile) \<Rightarrow> case acc of (out, seen) \<Rightarrow>
        case parse_url raw of
          None \<Rightarrow> (out, seen)
        | Some u \<Rightarrow>
            if map_get seen (host_name u) = Some caFile then (out, seen)
            else (out @ [\<lparr>hoName = host_name u, hoCAFile = caFile\<rparr>], map_set (host_name u) caFile seen))"

definition internet_urls :: "Config \<Rightarrow> (string \<times> string) list" where
  "internet_urls c =
     map (\<lambda>(n, u). (upBaseURL u, upCAFile u)) (filter (\<lambda>(n, u). upInternet u) (cfUpstreams c)) @
     map (\<lambda>(n, t). (tuURL t, tuCAFile t)) (filter (\<lambda>(n, t). tuInternet t) (cfToolUpstreams c))"

definition InternetHosts :: "(string \<Rightarrow> URL option) \<Rightarrow> Config \<Rightarrow> Host list" where
  "InternetHosts parse_url c = fst (fold (add_internet parse_url) (internet_urls c) ([], []))"

definition Bounded :: "InboundHook \<Rightarrow> InboundHook" where
  "Bounded h = h\<lparr>
     ihMaxBodyBytes := (if ihMaxBodyBytes h = 0 then DefaultInboundMaxBody else ihMaxBodyBytes h),
     ihRatePerMinute := (if ihRatePerMinute h = 0 then DefaultInboundRate else ihRatePerMinute h),
     ihBurst := (if ihBurst h = 0 then DefaultInboundBurst else ihBurst h),
     ihSlackDefaultUses := (if ihSlackDefaultUses h = 0 then DefaultSlackUses else ihSlackDefaultUses h),
     ihSlackDefaultTTL := (if ihSlackDefaultTTL h = [] then DefaultSlackTTL else ihSlackDefaultTTL h)\<rparr>"

end
