(* ===== verification/Http.thy ===== *)
theory Http
  imports Identity
begin

text \<open>
  The part of \<^verbatim>\<open>net/http\<close> and \<^verbatim>\<open>bufio\<close> the handlers use: header maps keyed by canonical
  names, the answer a handler writes, what a client sends upstream and gets back, the line
  scanner, and the two header filters every forwarded message passes.
\<close>

subsection \<open>Headers\<close>

type_synonym header = "string list gomap"

definition header_byte :: "char \<Rightarrow> bool" where
  "header_byte c \<longleftrightarrow> is_alnum c \<or> c \<in> set (''!#$%&*+-.^_`|~'' @ [CHR 0x27])"

fun canonical_chars :: "bool \<Rightarrow> string \<Rightarrow> string" where
  "canonical_chars up [] = []"
| "canonical_chars up (c # cs) =
     (if up \<and> is_lower c then char_of (code c - 32) else if \<not> up \<and> is_upper c then char_of (code c + 32) else c)
       # canonical_chars (c = CHR ''-'') cs"

text \<open>\<open>http.CanonicalHeaderKey\<close>: a name with a byte that is no header byte stays as it is.\<close>

definition canonical_key :: "string \<Rightarrow> string" where
  "canonical_key k = (if list_all header_byte k then canonical_chars True k else k)"

definition header_get :: "header \<Rightarrow> string \<Rightarrow> string" where
  "header_get h k = (case map_get h (canonical_key k) of Some (v # _) \<Rightarrow> v | _ \<Rightarrow> [])"

definition header_set :: "string \<Rightarrow> string \<Rightarrow> header \<Rightarrow> header" where
  "header_set k v h = map_set (canonical_key k) [v] h"

definition header_del :: "string \<Rightarrow> header \<Rightarrow> header" where
  "header_del k h = filter (\<lambda>(n, vs). n \<noteq> canonical_key k) h"

subsection \<open>Messages\<close>

record Request =
  rqName :: string
  rqHeader :: header
  rqBody :: string
  rqBroken :: bool

record Response =
  rpStatus :: int
  rpHeader :: header
  rpBody :: string

record Outbound =
  obURL :: string
  obMethod :: string
  obHeader :: header
  obBody :: string
  obHardened :: bool

text \<open>What \<open>http.Error\<close> writes.\<close>

definition http_error :: "string \<Rightarrow> int \<Rightarrow> Response" where
  "http_error msg status =
     \<lparr>rpStatus = status,
      rpHeader = header_set ''X-Content-Type-Options'' ''nosniff'' (header_set ''Content-Type'' ''text/plain; charset=utf-8'' []),
      rpBody = msg @ [CHR 0x0A]\<rparr>"

text \<open>\<open>io.ReadAll\<close> of a \<open>MaxBytesReader\<close>: nothing when the body breaks or is larger.\<close>

definition read_body :: "nat \<Rightarrow> Request \<Rightarrow> string option" where
  "read_body limit r = (if rqBroken r \<or> length (rqBody r) > limit then None else Some (rqBody r))"

subsection \<open>Header filters\<close>

definition hopByHop :: "string \<Rightarrow> bool" where
  "hopByHop k \<longleftrightarrow> k \<in> {''Connection'', ''Keep-Alive'', ''Proxy-Authenticate'', ''Proxy-Authorization'', ''Te'',
     ''Trailer'', ''Transfer-Encoding'', ''Upgrade''}"

definition withheld :: "string \<Rightarrow> bool" where
  "withheld ck \<longleftrightarrow> hopByHop ck \<or> ck = ''Authorization'' \<or> ck = ''X-Api-Key'' \<or> ck = ''Api-Key'' \<or>
     ck = ''Accept-Encoding'' \<or> ck = ''Content-Length'' \<or> ck = ''Host''"

definition copyRequestHeaders :: "header \<Rightarrow> header \<Rightarrow> header" where
  "copyRequestHeaders dst src =
     fold (\<lambda>(k, vs) d. if withheld (canonical_key k) then d else map_set (canonical_key k) vs d) src dst"

definition copyResponseHeaders :: "header \<Rightarrow> header \<Rightarrow> header" where
  "copyResponseHeaders dst src =
     fold (\<lambda>(k, vs) d. if hopByHop (canonical_key k) then d else map_set (canonical_key k) vs d) src dst"

lemma copyRequestHeaders_withheld:
  "withheld k \<Longrightarrow> map_get (copyRequestHeaders dst src) k = map_get dst k"
  unfolding copyRequestHeaders_def
  by (induction src arbitrary: dst) auto

subsection \<open>Lines\<close>

text \<open>
  \<open>bufio.Scanner\<close> with \<open>ScanLines\<close> and a buffer of \<open>limit\<close> bytes: the lines without their
  line ends, and whether it stopped at a line that does not fit.
\<close>

definition drop_cr :: "string \<Rightarrow> string" where
  "drop_cr s = (if s \<noteq> [] \<and> last s = CHR 0x0D then butlast s else s)"

function scan_lines :: "nat \<Rightarrow> string \<Rightarrow> string list \<times> bool" where
  "scan_lines limit s =
     (if s = [] then ([], False)
      else
        (let line = takeWhile (\<lambda>c. c \<noteq> CHR 0x0A) s in
         if length line \<ge> limit then ([], True)
         else (case scan_lines limit (drop (length line + 1) s) of (ls, e) \<Rightarrow> (drop_cr line # ls, e))))"
  by pat_completeness auto
termination by (relation "measure (\<lambda>(n, s). length s)") auto

declare scan_lines.simps [simp del]

lemma scan_lines_Nil [simp]: "scan_lines limit [] = ([], False)"
  by (simp add: scan_lines.simps)

end
