(* ===== verification/Gateway.thy ===== *)
theory Gateway
  imports Config Digest Http Store Approvals
begin

text \<open>
  Component \<^verbatim>\<open>plane/internal/gateway/gateway.go\<close>: the enforcing MCP gateway. The store is a
  record of operations over a state \<open>'s\<close>; the upstream tool servers, the mounted credential
  files, the clock, SHA-256, the Unicode tables and the struct decoding of \<^verbatim>\<open>encoding/json\<close>
  are fields of the dependencies. The handler's own state is the audit breaker; what it sent
  upstream and what it reported to the metrics are recorded beside it. Context deadlines,
  latencies and logs are left out.
\<close>

subsection \<open>Dependencies\<close>

definition maxRequestBody :: nat where "maxRequestBody = 4194304"
definition maxBufferedResp :: nat where "maxBufferedResp = 8388608"
definition maxStreamLine :: nat where "maxStreamLine = 4194304"

definition codeMethodNotAllowed :: string where "codeMethodNotAllowed = ''-32601''"
definition codeToolNotPermitted :: string where "codeToolNotPermitted = ''-32001''"

record 's gateway_store =
  gsCredentialByTokenHash :: "string \<Rightarrow> 's \<Rightarrow> (store_error + Credential) \<times> 's"
  gsToolAllowlist :: "string \<Rightarrow> 's \<Rightarrow> (store_error + string list) \<times> 's"
  gsRecordToolAudit :: "ToolAuditEntry \<Rightarrow> 's \<Rightarrow> (store_error + unit) \<times> 's"
  gsConsumeToolGrant :: "string \<Rightarrow> string \<Rightarrow> string \<Rightarrow> 's \<Rightarrow> (store_error + string option) \<times> 's"
  gsActorFor :: "string \<Rightarrow> 's \<Rightarrow> (store_error + Attribution) \<times> 's"
  gsLiveToolGrantSubjects :: "string \<Rightarrow> 's \<Rightarrow> (store_error + string list) \<times> 's"
  gsFileApprovalRequest :: "Filing \<Rightarrow> 's \<Rightarrow> (store_error + bool) \<times> 's"

text \<open>
  An error of a call upstream: what the egress policy says of it, and its text. A response
  body is the bytes and, when it is cut, the error it ends with.
\<close>

datatype send_error = SendError "egress_error option" string | CredentialUnavailable

record UpstreamResponse =
  urStatus :: int
  urHeader :: header
  urBody :: string
  urCut :: "(egress_error option \<times> string) option"

text \<open>The JSON-RPC struct of a listing: version, id, error, and the result's members, all raw.\<close>

record rpc =
  rpcVersion :: string
  rpcID :: json
  rpcErr :: "json option"
  rpcResult :: "json gomap option"

record codec =
  cdRPC :: "string \<Rightarrow> rpc option"
  cdTools :: "json \<Rightarrow> json list option"
  cdToolName :: "json \<Rightarrow> string option"

record 's Deps =
  dStore :: "'s gateway_store"
  dUpstreams :: "ToolUpstream gomap"
  dPolicy :: PolicySet
  dHasInternetClient :: bool
  dSend :: "Outbound \<Rightarrow> 's \<Rightarrow> (send_error + UpstreamResponse) \<times> 's"
  dBadURL :: "string \<Rightarrow> string option"
  dReadFile :: "string \<Rightarrow> 's \<Rightarrow> string option"
  dNow :: "'s \<Rightarrow> int"
  dSha :: "string \<Rightarrow> string"
  dUprint :: "nat \<Rightarrow> bool"
  dCodec :: codec

text \<open>Which client a call uses: \<open>True\<close> is the hardened one.\<close>

definition clientFor :: "'s Deps \<Rightarrow> ToolUpstream \<Rightarrow> send_error + bool" where
  "clientFor d up =
     (if tuInternet up then
        (if \<not> dHasInternetClient d
         then Inl (SendError (Some ErrNoClient) ''egress: no hardened client configured for a hosted upstream'')
         else Inr True)
      else Inr False)"

subsection \<open>The handler's state\<close>

datatype Decision = Denied | Allowed | Granted

datatype Reason = ReasonOK | ReasonBudget | ReasonAllowlist | ReasonGrant | ReasonUnauthorized
  | ReasonCredentialStore | ReasonRoute | ReasonBadRequest | ReasonUnpricedModel | ReasonAuditDegraded
  | ReasonMetering | ReasonUpstreamCredential | ReasonUpstreamError | ReasonUpstreamUnreachable
  | ReasonEgressRefused | ReasonMethod | ReasonGrantCheck | ReasonConstraint | ReasonRateLimit
  | ReasonTooLarge | ReasonReplay | ReasonQueueFull | ReasonHookConfig | ReasonAdmission
  | ReasonNotApprover | ReasonIgnored | ReasonChallenge | ReasonCredentialExpired | ReasonCommand | ReasonOther

record 's gw =
  gwStore :: 's
  gwDegraded :: bool
  gwSent :: "Outbound list"
  gwDecisions :: "(Decision \<times> Reason) list"

definition in_store :: "('s \<Rightarrow> 'a \<times> 's) \<Rightarrow> ('s, 'm) gw_scheme \<Rightarrow> 'a \<times> ('s, 'm) gw_scheme" where
  "in_store f g = (case f (gwStore g) of (r, s) \<Rightarrow> (r, g\<lparr>gwStore := s\<rparr>))"

definition Decide :: "Decision \<Rightarrow> Reason \<Rightarrow> ('s, 'm) gw_scheme \<Rightarrow> ('s, 'm) gw_scheme" where
  "Decide dec why g = g\<lparr>gwDecisions := gwDecisions g @ [(dec, why)]\<rparr>"

definition tool_entry :: "Credential \<Rightarrow> string \<Rightarrow> string \<Rightarrow> string \<Rightarrow> string \<Rightarrow> int \<Rightarrow> string \<Rightarrow> string \<Rightarrow> string \<Rightarrow> ToolAuditEntry" where
  "tool_entry cred upstream rpcMethod tool decision status detail argDigest argSummary =
     \<lparr>taCredentialName = crName cred, taUpstream = upstream, taMethod = rpcMethod, taTool = tool,
      taDecision = decision, taStatus = status, taDetail = detail, taArgDigest = argDigest,
      taArgSummary = argSummary, taActedFor = [], taRunID = [], taCreatedAt = 0\<rparr>"

text \<open>Every audit row is stamped with the attribution; a failed write trips the breaker, a success clears it.\<close>

definition audit :: "'s Deps \<Rightarrow> Attribution \<Rightarrow> ToolAuditEntry \<Rightarrow> 's gw \<Rightarrow> 's gw" where
  "audit d att e g =
     (case in_store (gsRecordToolAudit (dStore d) (e\<lparr>taActedFor := atActedFor att, taRunID := atRunID att\<rparr>)) g of
        (Inl _, g') \<Rightarrow> g'\<lparr>gwDegraded := True\<rparr>
      | (Inr _, g') \<Rightarrow> g'\<lparr>gwDegraded := False\<rparr>)"

definition reasonFor :: "int \<Rightarrow> string \<Rightarrow> Reason" where
  "reasonFor status msg =
     (if has_prefix msg ''unknown tool upstream'' then ReasonRoute
      else if has_prefix msg ''tool audit unavailable'' then ReasonAuditDegraded
      else if has_prefix msg ''request body'' \<or> has_prefix msg ''JSON-RPC batches'' \<or>
        has_prefix msg ''tools/call '' \<or> has_prefix msg ''upstream tool listing'' then ReasonBadRequest
      else if has_prefix msg ''grant check unavailable'' then ReasonGrantCheck
      else if has_prefix msg ''tool allowlist unavailable'' then ReasonCredentialStore
      else if has_prefix msg ''tool not permitted'' then ReasonAllowlist
      else if has_prefix msg ''tool call not permitted'' then ReasonConstraint
      else if has_prefix msg ''method not relayed'' then ReasonMethod
      else if has_prefix msg ExpiredPrefix then ReasonCredentialExpired
      else if status = 401 then ReasonUnauthorized
      else ReasonOther)"

subsection \<open>Answers\<close>

definition httpDeny ::
  "'s Deps \<Rightarrow> Attribution \<Rightarrow> Credential \<Rightarrow> string \<Rightarrow> string \<Rightarrow> string \<Rightarrow> int \<Rightarrow> string \<Rightarrow> 's gw \<Rightarrow> Response \<times> 's gw" where
  "httpDeny d att cred upstream rpcMethod tool status msg g =
     (http_error msg status,
      Decide Denied (reasonFor status msg)
        (audit d att (tool_entry cred upstream rpcMethod tool ''denied'' status msg [] []) g))"

text \<open>The encoder of an answer escapes the characters HTML would read, which in JSON text occur in strings only.\<close>

definition html_escape :: "string \<Rightarrow> string" where
  "html_escape s = concat (map (\<lambda>c.
     if c = CHR ''<'' then CHR 0x5C # ''u003c''
     else if c = CHR ''>'' then CHR 0x5C # ''u003e''
     else if c = CHR ''&'' then CHR 0x5C # ''u0026'' else [c]) s)"

definition writeRPC :: "int \<Rightarrow> header \<Rightarrow> json \<Rightarrow> Response" where
  "writeRPC status h msg =
     \<lparr>rpStatus = status, rpHeader = header_set ''Content-Type'' ''application/json'' h,
      rpBody = html_escape (render msg) @ [CHR 0x0A]\<rparr>"

definition rpc_error :: "json \<Rightarrow> string \<Rightarrow> string \<Rightarrow> json" where
  "rpc_error rpcId errCode msg =
     JObj [(''error'', JObj [(''code'', JNum errCode), (''message'', JStr msg)]), (''id'', rpcId), (''jsonrpc'', JStr ''2.0'')]"

definition accepted :: Response where
  "accepted = \<lparr>rpStatus = 202, rpHeader = [], rpBody = []\<rparr>"

definition rpcDenyCall ::
  "'s Deps \<Rightarrow> Attribution \<Rightarrow> Credential \<Rightarrow> string \<Rightarrow> string \<Rightarrow> string \<Rightarrow> string \<Rightarrow> string \<Rightarrow> json option \<Rightarrow> string \<Rightarrow> string \<Rightarrow>
     's gw \<Rightarrow> Response \<times> 's gw" where
  "rpcDenyCall d att cred upstream rpcMethod tool argDigest argSummary rpcId errCode msg g =
     ((case rpcId of None \<Rightarrow> accepted | Some i \<Rightarrow> writeRPC 200 [] (rpc_error i errCode msg)),
      Decide Denied (reasonFor 403 msg)
        (audit d att (tool_entry cred upstream rpcMethod tool ''denied'' 403 msg argDigest argSummary) g))"

definition rpcDeny ::
  "'s Deps \<Rightarrow> Attribution \<Rightarrow> Credential \<Rightarrow> string \<Rightarrow> string \<Rightarrow> string \<Rightarrow> json option \<Rightarrow> string \<Rightarrow> string \<Rightarrow>
     's gw \<Rightarrow> Response \<times> 's gw" where
  "rpcDeny d att cred upstream rpcMethod tool rpcId errCode msg g =
     rpcDenyCall d att cred upstream rpcMethod tool [] [] rpcId errCode msg g"

subsection \<open>Authentication\<close>

definition bearer :: "string \<Rightarrow> string" where
  "bearer token = fst (cut_prefix token ''Bearer '')"

definition authenticate :: "'s Deps \<Rightarrow> Request \<Rightarrow> 's gw \<Rightarrow> (Response + (Credential \<times> Attribution)) \<times> 's gw" where
  "authenticate d r g =
     (let token = bearer (header_get (rqHeader r) ''Authorization'') in
      if token = [] then (Inl (http_error ''unauthorized'' 401), Decide Denied ReasonUnauthorized g)
      else case in_store (gsCredentialByTokenHash (dStore d) (dSha d token)) g of
             (Inl e, g1) \<Rightarrow>
               if e = ErrNotFound then (Inl (http_error ''unauthorized'' 401), Decide Denied ReasonUnauthorized g1)
               else (Inl (http_error ''credential store unavailable'' 503), Decide Denied ReasonCredentialStore g1)
           | (Inr cred, g1) \<Rightarrow>
               (case in_store (gsActorFor (dStore d) (crName cred)) g1 of
                  (a, g2) \<Rightarrow>
                    (let att = actor_or_lost a in
                     if Expired cred (dNow d (gwStore g2)) then
                       (case httpDeny d att cred (rqName r) [] [] 403 (ExpiredMessage (dUprint d) cred) g2 of
                          (resp, g3) \<Rightarrow> (Inl resp, g3))
                     else (Inr (cred, att), g2))))"

subsection \<open>Forwarding\<close>

definition MsgUpstreamRefused :: string where
  "MsgUpstreamRefused = ''tool upstream refused by the egress policy''"

definition MsgUpstreamRedirected :: string where
  "MsgUpstreamRedirected = ''tool upstream redirected (refused)''"

definition injectCredential :: "'s Deps \<Rightarrow> ToolUpstream \<Rightarrow> 's \<Rightarrow> header \<Rightarrow> send_error + header" where
  "injectCredential d up s h =
     (if tuCredentialFile up = [] then Inr h
      else case dReadFile d (tuCredentialFile up) s of
             None \<Rightarrow> Inl CredentialUnavailable
           | Some raw \<Rightarrow>
               (let secret = trim_space raw in
                if secret = [] then Inl CredentialUnavailable
                else if tuCredentialHeader up = [] \<or> equal_fold (tuCredentialHeader up) ''authorization''
                then Inr (header_set ''Authorization'' (''Bearer '' @ secret) h)
                else Inr (header_set (tuCredentialHeader up) secret h)))"

text \<open>One request upstream: built, credentialed, sent by the client the upstream calls for.\<close>

definition send_outbound :: "'s Deps \<Rightarrow> Outbound \<Rightarrow> 's gw \<Rightarrow> (send_error + UpstreamResponse) \<times> 's gw" where
  "send_outbound d out g = in_store (dSend d out) (g\<lparr>gwSent := gwSent g @ [out]\<rparr>)"

definition do_request ::
  "'s Deps \<Rightarrow> string \<Rightarrow> header \<Rightarrow> string gomap \<Rightarrow> ToolUpstream \<Rightarrow> string \<Rightarrow> 's gw \<Rightarrow> (send_error + UpstreamResponse) \<times> 's gw" where
  "do_request d httpMethod hdr extra up body g =
     (case dBadURL d (tuURL up) of
        Some e \<Rightarrow> (Inl (SendError None e), g)
      | None \<Rightarrow>
          (let h = fold (\<lambda>(k, v) h. header_set k v h) extra (copyRequestHeaders [] hdr) in
           case injectCredential d up (gwStore g) h of
             Inl e \<Rightarrow> (Inl e, g)
           | Inr h2 \<Rightarrow>
               (case clientFor d up of
                  Inl e \<Rightarrow> (Inl e, g)
                | Inr hardened \<Rightarrow>
                    send_outbound d \<lparr>obURL = tuURL up, obMethod = httpMethod, obHeader = h2, obBody = body, obHardened = hardened\<rparr> g)))"

definition gw_do :: "'s Deps \<Rightarrow> Request \<Rightarrow> ToolUpstream \<Rightarrow> string \<Rightarrow> 's gw \<Rightarrow> (send_error + UpstreamResponse) \<times> 's gw" where
  "gw_do d r up body g = do_request d ''POST'' (rqHeader r) (tuExtraHeaders up) up body g"

record outcome =
  ocStatus :: int
  ocNote :: string
  ocRefused :: bool

definition is_event_stream :: "UpstreamResponse \<Rightarrow> bool" where
  "is_event_stream u \<longleftrightarrow> has_prefix (header_get (urHeader u) ''Content-Type'') ''text/event-stream''"

text \<open>\<open>io.ReadAll\<close> of the first \<open>maxBufferedResp + 1\<close> bytes, and the size check.\<close>

definition read_buffered :: "UpstreamResponse \<Rightarrow> (egress_error option \<times> string) + string" where
  "read_buffered u =
     (if length (urBody u) > maxBufferedResp
      then Inl (Some ErrResponseTooLarge, ''egress: upstream response exceeds the size cap'')
      else case urCut u of Some e \<Rightarrow> Inl e | None \<Rightarrow> Inr (urBody u))"

definition too_long_text :: string where
  "too_long_text = ''bufio.Scanner: token too long''"

text \<open>The lines as they went to the client, and the error that ended the stream early.\<close>

definition relayStream :: "UpstreamResponse \<Rightarrow> string \<times> string option" where
  "relayStream u =
     (case scan_lines maxStreamLine (urBody u) of
        (ls, tooLong) \<Rightarrow>
          (concat (map (\<lambda>l. l @ [CHR 0x0A]) ls),
           (if tooLong then Some too_long_text else map_option snd (urCut u))))"

definition relay_headers :: "UpstreamResponse \<Rightarrow> header" where
  "relay_headers u = copyResponseHeaders [] (urHeader u)"

definition redirected :: "UpstreamResponse \<Rightarrow> bool" where
  "redirected u \<longleftrightarrow> 300 \<le> urStatus u \<and> urStatus u < 400"

definition bad_gateway :: "string \<Rightarrow> string \<Rightarrow> bool \<Rightarrow> Response \<times> outcome" where
  "bad_gateway msg note refused = (http_error msg 502, \<lparr>ocStatus = 502, ocNote = note, ocRefused = refused\<rparr>)"

definition answer_of :: "(send_error + UpstreamResponse) \<Rightarrow> Response \<times> outcome" where
  "answer_of res =
     (case res of
        Inl CredentialUnavailable \<Rightarrow>
          (http_error ''tool upstream credential unavailable'' 503, \<lparr>ocStatus = 503, ocNote = [], ocRefused = False\<rparr>)
      | Inl (SendError e txt) \<Rightarrow>
          if (case e of Some x \<Rightarrow> IsRefusal x | None \<Rightarrow> False)
          then bad_gateway MsgUpstreamRefused (''egress refused: '' @ txt) True
          else bad_gateway ''tool upstream unreachable'' (''upstream unreachable: '' @ txt) False
      | Inr u \<Rightarrow>
          if redirected u then bad_gateway MsgUpstreamRedirected MsgUpstreamRedirected False
          else if is_event_stream u then
            (case relayStream u of
               (text, e) \<Rightarrow>
                 (\<lparr>rpStatus = urStatus u, rpHeader = relay_headers u, rpBody = text\<rparr>,
                  \<lparr>ocStatus = urStatus u, ocNote = (case e of None \<Rightarrow> [] | Some m \<Rightarrow> ''upstream stream cut: '' @ m),
                   ocRefused = False\<rparr>))
          else
            (case read_buffered u of
               Inl (e, txt) \<Rightarrow>
                 bad_gateway (if (case e of Some x \<Rightarrow> IsBodyCut x | None \<Rightarrow> False)
                              then ''tool upstream response cut by the egress policy'' else ''tool upstream response cut'')
                   (''upstream body cut: '' @ txt) False
             | Inr raw \<Rightarrow>
                 (\<lparr>rpStatus = urStatus u, rpHeader = header_del ''Content-Length'' (relay_headers u), rpBody = raw\<rparr>,
                  \<lparr>ocStatus = urStatus u, ocNote = [], ocRefused = False\<rparr>)))"

definition forward :: "'s Deps \<Rightarrow> Request \<Rightarrow> ToolUpstream \<Rightarrow> string \<Rightarrow> 's gw \<Rightarrow> (Response \<times> outcome) \<times> 's gw" where
  "forward d r up body g = (case gw_do d r up body g of (res, g') \<Rightarrow> (answer_of res, g'))"

subsection \<open>The projected listing\<close>

text \<open>The data of the events of an SSE body, the last one that is not empty: \<open>current\<close> is \<open>None\<close> until a data line.\<close>

fun sse_events :: "string list \<Rightarrow> string option \<Rightarrow> string \<Rightarrow> string" where
  "sse_events [] current prev =
     (case current of Some c \<Rightarrow> if c \<noteq> [] then c else prev | None \<Rightarrow> prev)"
| "sse_events (line # ls) current prev =
     (if line = [] then
        (case current of
           Some c \<Rightarrow> if c \<noteq> [] then sse_events ls None c else sse_events ls current prev
         | None \<Rightarrow> sse_events ls None prev)
      else if \<not> has_prefix line ''data:'' then sse_events ls current prev
      else
        (let payload = trim_prefix (drop 5 line) '' '';
             joined = (case current of Some c \<Rightarrow> c @ [CHR 0x0A] | None \<Rightarrow> []) @ payload
         in sse_events ls (if joined = [] then None else Some joined) prev))"

definition lastSSEData :: "string \<Rightarrow> string" where
  "lastSSEData raw = sse_events (fst (scan_lines maxBufferedResp raw)) None []"

definition keep_tools :: "codec \<Rightarrow> string list \<Rightarrow> json list \<Rightarrow> json list" where
  "keep_tools c allowed tools = filter (\<lambda>t. case cdToolName c t of Some n \<Rightarrow> n \<in> set allowed | None \<Rightarrow> False) tools"

text \<open>The result member with its listing cut to the allowed tools; \<open>None\<close> when it is no list.\<close>

definition project_result :: "codec \<Rightarrow> string list \<Rightarrow> json gomap \<Rightarrow> json gomap option" where
  "project_result c allowed result =
     (case (case map_get result ''tools'' of None \<Rightarrow> Some [] | Some raw \<Rightarrow> cdTools c raw) of
        None \<Rightarrow> None
      | Some tools \<Rightarrow> Some (map_set ''tools'' (JArr (keep_tools c allowed tools)) result))"

definition unprojectable :: Response where
  "unprojectable = http_error ''unprojectable tool-server response'' 502"

definition project_listing :: "'s Deps \<Rightarrow> string list \<Rightarrow> UpstreamResponse \<Rightarrow> string \<Rightarrow> Response" where
  "project_listing d allowed u raw =
     (let payload = (if is_event_stream u then lastSSEData raw else raw);
          hdr = header_del ''Content-Length'' (relay_headers u)
      in case cdRPC (dCodec d) payload of
           None \<Rightarrow> unprojectable
         | Some m \<Rightarrow>
             if rpcVersion m = [] then unprojectable
             else
               (case (case rpcResult m of None \<Rightarrow> Some JNull
                      | Some result \<Rightarrow> map_option JObj (project_result (dCodec d) allowed result)) of
                  None \<Rightarrow> unprojectable
                | Some result \<Rightarrow>
                    writeRPC 200 hdr
                      (case rpcErr m of
                         Some e \<Rightarrow> JObj [(''error'', e), (''id'', rpcID m), (''jsonrpc'', JStr (rpcVersion m))]
                       | None \<Rightarrow> JObj [(''id'', rpcID m), (''jsonrpc'', JStr (rpcVersion m)), (''result'', result)])))"

definition projected_answer :: "'s Deps \<Rightarrow> string list \<Rightarrow> send_error + UpstreamResponse \<Rightarrow> Response" where
  "projected_answer d allowed res =
     (case res of
        Inl CredentialUnavailable \<Rightarrow> http_error ''tool upstream credential unavailable'' 503
      | Inl (SendError e txt) \<Rightarrow>
          http_error (if (case e of Some x \<Rightarrow> IsRefusal x | None \<Rightarrow> False) then MsgUpstreamRefused
                      else ''tool upstream unreachable'') 502
      | Inr u \<Rightarrow>
          (case read_buffered u of
             Inl _ \<Rightarrow> http_error ''tool upstream response unreadable'' 502
           | Inr raw \<Rightarrow>
               if redirected u then http_error MsgUpstreamRedirected 502
               else if urStatus u < 200 \<or> urStatus u > 299
               then \<lparr>rpStatus = urStatus u, rpHeader = relay_headers u, rpBody = raw\<rparr>
               else project_listing d allowed u raw))"

definition forwardProjected :: "'s Deps \<Rightarrow> Request \<Rightarrow> ToolUpstream \<Rightarrow> string \<Rightarrow> string list \<Rightarrow> 's gw \<Rightarrow> Response \<times> 's gw" where
  "forwardProjected d r up body allowed g =
     (case gw_do d r up body g of (res, g') \<Rightarrow> (projected_answer d allowed res, g'))"

subsection \<open>The relay\<close>

definition rawID :: "json gomap \<Rightarrow> json option" where
  "rawID msg = (case map_get msg ''id'' of Some JNull \<Rightarrow> None | Some v \<Rightarrow> Some v | None \<Rightarrow> None)"

definition canonRefusal :: "canon_error \<Rightarrow> string" where
  "canonRefusal e =
     (case e of
        ErrDuplicateKey _ \<Rightarrow> ''request body carries a duplicate JSON key''
      | ErrTooDeep \<Rightarrow> ''request body is nested too deeply or too complex to canonicalize''
      | ErrTooLarge \<Rightarrow> ''request body is nested too deeply or too complex to canonicalize''
      | _ \<Rightarrow> ''request body is not a JSON-RPC message'')"

definition allowlist ::
  "'s Deps \<Rightarrow> Attribution \<Rightarrow> Credential \<Rightarrow> string \<Rightarrow> string \<Rightarrow> 's gw \<Rightarrow> (Response + string list) \<times> 's gw" where
  "allowlist d att cred upstream rpcMethod g =
     (case in_store (gsToolAllowlist (dStore d) (crName cred)) g of
        (Inl _, g1) \<Rightarrow>
          (case httpDeny d att cred upstream rpcMethod [] 503 ''tool allowlist unavailable'' g1 of (resp, g2) \<Rightarrow> (Inl resp, g2))
      | (Inr allowed, g1) \<Rightarrow> (Inr allowed, g1))"

fun add_missing :: "string list \<Rightarrow> string list \<Rightarrow> string list" where
  "add_missing allowed [] = allowed"
| "add_missing allowed (t # ts) = add_missing (if t \<in> set allowed then allowed else allowed @ [t]) ts"

definition projectable ::
  "'s Deps \<Rightarrow> Attribution \<Rightarrow> Credential \<Rightarrow> string \<Rightarrow> string \<Rightarrow> string list \<Rightarrow> 's gw \<Rightarrow> (Response + string list) \<times> 's gw" where
  "projectable d att cred upstream rpcMethod allowed g =
     (case in_store (gsLiveToolGrantSubjects (dStore d) (crName cred)) g of
        (Inl _, g1) \<Rightarrow>
          (case httpDeny d att cred upstream rpcMethod [] 503 ''tool allowlist unavailable'' g1 of (resp, g2) \<Rightarrow> (Inl resp, g2))
      | (Inr grantedTools, g1) \<Rightarrow>
          (Inr (add_missing (add_missing allowed grantedTools) (ConstrainedTools (dPolicy d) (crName cred))), g1))"

definition fileRequest :: "'s Deps \<Rightarrow> Filing \<Rightarrow> 's gw \<Rightarrow> bool \<times> 's gw" where
  "fileRequest d f g =
     (case in_store (gsFileApprovalRequest (dStore d) f) g of
        (Inl _, g1) \<Rightarrow> (False, g1)
      | (Inr _, g1) \<Rightarrow> (True, g1))"

text \<open>How a call is admitted before any grant: \<open>Some detail\<close>, or the standing rule it is outside of.\<close>

datatype admission = Admitted string | NotAdmitted string | AdmissionPanics

definition standing_admission :: "PolicySet \<Rightarrow> string \<Rightarrow> string \<Rightarrow> json gomap \<Rightarrow> string list \<Rightarrow> admission" where
  "standing_admission p credName tool args allowed =
     (case Constraints p credName tool of
        (cs, True) \<Rightarrow>
          (case Satisfied cs args of
             None \<Rightarrow> AdmissionPanics
           | Some (True, _) \<Rightarrow> Admitted ''within standing constraint''
           | Some (False, why) \<Rightarrow> NotAdmitted why)
      | (_, False) \<Rightarrow> if tool \<in> set allowed then Admitted [] else NotAdmitted [])"

definition deny_message :: "string \<Rightarrow> string" where
  "deny_message outside =
     (if outside \<noteq> [] then ''tool call not permitted: outside the standing constraint ('' @ outside @ '')''
      else ''tool not permitted by the Kaimahi allowlist for this call'')"

definition filed_note :: string where
  "filed_note = ''; approval request filed '' @ [char_of (226::nat), char_of (128::nat), char_of (148::nat)] @
     '' run '' @ [CHR 0x27] @ ''make approvals'' @ [CHR 0x27]"

definition call_decision :: "string \<Rightarrow> outcome \<Rightarrow> Decision \<times> Reason" where
  "call_decision detail out =
     (if has_prefix detail ''granted '' then (Granted, ReasonGrant)
      else if detail \<noteq> [] then (Allowed, ReasonConstraint)
      else if ocRefused out then (Allowed, ReasonEgressRefused)
      else if 200 \<le> ocStatus out \<and> ocStatus out < 300 then (Allowed, ReasonAllowlist)
      else if ocStatus out = 502 then (Allowed, ReasonUpstreamUnreachable)
      else (Allowed, ReasonUpstreamError))"

text \<open>An admitted call: forwarded, counted and audited with how it was admitted and what became of it.\<close>

definition call_admitted ::
  "'s Deps \<Rightarrow> Request \<Rightarrow> Attribution \<Rightarrow> Credential \<Rightarrow> ToolUpstream \<Rightarrow> string \<Rightarrow> string \<Rightarrow> CallBinding \<Rightarrow> string \<Rightarrow>
     's gw \<Rightarrow> Response \<times> 's gw" where
  "call_admitted d r att cred up body tool b detail g =
     (case forward d r up body g of
        ((resp, out), g1) \<Rightarrow>
          (let dr = call_decision detail out;
               detail2 = (if ocNote out \<noteq> [] then (if detail \<noteq> [] then detail @ ''; '' else detail) @ ocNote out else detail)
           in (resp, audit d att (tool_entry cred (rqName r) ''tools/call'' tool ''allowed'' (ocStatus out) detail2
                 (cbDigest b) (cbSummary b)) (Decide (fst dr) (snd dr) g1))))"

definition deny_and_pend ::
  "'s Deps \<Rightarrow> Request \<Rightarrow> Attribution \<Rightarrow> Credential \<Rightarrow> string \<Rightarrow> CallBinding \<Rightarrow> json option \<Rightarrow> string \<Rightarrow> 's gw \<Rightarrow> Response \<times> 's gw" where
  "deny_and_pend d r att cred tool b rpcId outside g =
     (case fileRequest d \<lparr>fiCredential = crName cred, fiKind = ''tool'', fiSubject = tool,
             fiDetail = ''denied tools/call via upstream '' @ rqName r, fiArgDigest = cbDigest b,
             fiArgSummary = cbSummary b\<rparr> g of
        (filed, g1) \<Rightarrow>
          rpcDenyCall d att cred (rqName r) ''tools/call'' tool (cbDigest b) (cbSummary b) rpcId codeToolNotPermitted
            (deny_message outside @ (if filed then filed_note else [])) g1)"

definition aborted :: Response where
  "aborted = \<lparr>rpStatus = 0, rpHeader = [], rpBody = []\<rparr>"

definition tools_call ::
  "'s Deps \<Rightarrow> Request \<Rightarrow> Attribution \<Rightarrow> Credential \<Rightarrow> ToolUpstream \<Rightarrow> string \<Rightarrow> json gomap \<Rightarrow> 's gw \<Rightarrow> Response \<times> 's gw" where
  "tools_call d r att cred up body msg g =
     (let tool = toolNameOf msg in
      if tool = [] then httpDeny d att cred (rqName r) ''tools/call'' [] 400 ''tools/call params carry no tool name'' g
      else case argumentsOf msg of
             None \<Rightarrow> httpDeny d att cred (rqName r) ''tools/call'' tool 400 ''tools/call arguments must be a JSON object'' g
           | Some args \<Rightarrow>
               (let (fs, isDeclared) = Declared (dPolicy d) tool;
                    b = Bind (dSha d) (dUprint d) tool args fs isDeclared
                in case allowlist d att cred (rqName r) ''tools/call'' g of
                     (Inl resp, g1) \<Rightarrow> (resp, g1)
                   | (Inr allowed, g1) \<Rightarrow>
                       (case standing_admission (dPolicy d) (crName cred) tool args allowed of
                          AdmissionPanics \<Rightarrow> (aborted, g1)
                        | Admitted detail \<Rightarrow> call_admitted d r att cred up body tool b detail g1
                        | NotAdmitted outside \<Rightarrow>
                            (case in_store (gsConsumeToolGrant (dStore d) (crName cred) tool (cbDigest b)) g1 of
                               (Inl _, g2) \<Rightarrow>
                                 httpDeny d att cred (rqName r) ''tools/call'' tool 503 ''grant check unavailable'' g2
                             | (Inr None, g2) \<Rightarrow> deny_and_pend d r att cred tool b (rawID msg) outside g2
                             | (Inr (Some gid), g2) \<Rightarrow>
                                 call_admitted d r att cred up body tool b (''granted '' @ gid) g2))))"

definition rpc_method :: "json gomap \<Rightarrow> string" where
  "rpc_method msg = (case map_get msg ''method'' of Some (JStr m) \<Rightarrow> m | _ \<Rightarrow> [])"

definition dispatch ::
  "'s Deps \<Rightarrow> Request \<Rightarrow> Attribution \<Rightarrow> Credential \<Rightarrow> ToolUpstream \<Rightarrow> string \<Rightarrow> json gomap \<Rightarrow> 's gw \<Rightarrow> Response \<times> 's gw" where
  "dispatch d r att cred up body msg g =
     (let m = rpc_method msg in
      if m = ''initialize'' \<or> m = ''notifications/initialized'' then
        (case forward d r up body g of ((resp, _), g1) \<Rightarrow> (resp, g1))
      else if m = ''ping'' then
        ((case rawID msg of
            None \<Rightarrow> accepted
          | Some i \<Rightarrow> writeRPC 200 [] (JObj [(''id'', i), (''jsonrpc'', JStr ''2.0''), (''result'', JObj [])])), g)
      else if m = ''tools/list'' then
        (case allowlist d att cred (rqName r) m g of
           (Inl resp, g1) \<Rightarrow> (resp, g1)
         | (Inr allowed, g1) \<Rightarrow>
             (case projectable d att cred (rqName r) m allowed g1 of
                (Inl resp, g2) \<Rightarrow> (resp, g2)
              | (Inr visible, g2) \<Rightarrow> forwardProjected d r up body visible g2))
      else if m = ''tools/call'' then tools_call d r att cred up body msg g
      else rpcDeny d att cred (rqName r) m [] (rawID msg) codeMethodNotAllowed
             ''method not relayed by the Kaimahi gateway (tools only)'' g)"

definition relay :: "'s Deps \<Rightarrow> Request \<Rightarrow> 's gw \<Rightarrow> Response \<times> 's gw" where
  "relay d r g =
     (case authenticate d r g of
        (Inl resp, g1) \<Rightarrow> (resp, g1)
      | (Inr (cred, att), g1) \<Rightarrow>
          (case map_get (dUpstreams d) (rqName r) of
             None \<Rightarrow> httpDeny d att cred (rqName r) [] [] 403 ''unknown tool upstream'' g1
           | Some up \<Rightarrow>
               if gwDegraded g1 then httpDeny d att cred (rqName r) [] [] 503 ''tool audit unavailable'' g1
               else case read_body maxRequestBody r of
                      None \<Rightarrow> httpDeny d att cred (rqName r) [] [] 400 ''request body unreadable or too large'' g1
                    | Some raw \<Rightarrow>
                        if trim_space raw \<noteq> [] \<and> hd (trim_space raw) = CHR ''[''
                        then httpDeny d att cred (rqName r) [] [] 400 ''JSON-RPC batches are not relayed'' g1
                        else (case canonicalize raw of
                                Inl e \<Rightarrow> httpDeny d att cred (rqName r) [] [] 400 (canonRefusal e) g1
                              | Inr (body, msg) \<Rightarrow> dispatch d r att cred up body msg g1)))"

definition terminate :: "'s Deps \<Rightarrow> Request \<Rightarrow> 's gw \<Rightarrow> Response \<times> 's gw" where
  "terminate d r g =
     (case authenticate d r g of
        (Inl resp, g1) \<Rightarrow> (resp, g1)
      | (Inr (cred, att), g1) \<Rightarrow>
          (case map_get (dUpstreams d) (rqName r) of
             None \<Rightarrow> httpDeny d att cred (rqName r) [] [] 403 ''unknown tool upstream'' g1
           | Some up \<Rightarrow>
               if dBadURL d (tuURL up) \<noteq> None then (http_error ''upstream request build failed'' 502, g1)
               else (case do_request d ''DELETE'' (rqHeader r) [] up [] g1 of
                       (Inl CredentialUnavailable, g2) \<Rightarrow> (http_error ''tool upstream credential unavailable'' 503, g2)
                     | (Inl (SendError e txt), g2) \<Rightarrow>
                         (http_error (if (case e of Some x \<Rightarrow> IsRefusal x | None \<Rightarrow> False) then MsgUpstreamRefused
                                      else ''tool upstream unreachable'') 502, g2)
                     | (Inr u, g2) \<Rightarrow>
                         if redirected u then (http_error MsgUpstreamRedirected 502, g2)
                         else (\<lparr>rpStatus = urStatus u, rpHeader = relay_headers u, rpBody = urBody u\<rparr>, g2))))"

end
