(* ===== verification/ConfigProps.thy ===== *)
theory ConfigProps
  imports Gateway
begin

text \<open>
  What an accepted configuration guarantees: bounded lifetimes, a policy that always decides,
  prices that cannot overflow, and hosted upstreams that reach their own transport.
\<close>

subsection \<open>Lifetimes\<close>

lemma ttl_unit_pos: "s \<noteq> [] \<Longrightarrow> second \<le> fst (ttl_unit s) \<and> fst (ttl_unit s) \<le> 24 * hour"
  by (simp add: ttl_unit_def duration_defs)

lemma ParseTTL_outcome:
  assumes "ParseTTL s = Inr n"
  obtains unit digits k where "ttl_unit s = (unit, digits)" "parse_int digits = Some k" "1 \<le> k" "n = k * unit" "n \<le> MaxTTL"
    "second \<le> unit"
proof -
  have ne: "s \<noteq> []" using assms by (auto simp: ParseTTL_def)
  obtain unit digits where u: "ttl_unit s = (unit, digits)" by fastforce
  obtain k where k: "parse_int digits = Some k" "\<not> (k < 1 \<or> k > go_div MaxTTL unit)" "n = wrap64 (k * unit)"
    using assms ne u by (auto simp: ParseTTL_def split: if_splits option.splits)
  have up: "second \<le> unit" "0 < unit" using ttl_unit_pos [OF ne] u by (auto simp: duration_defs)
  have "go_div MaxTTL unit = MaxTTL div unit" using up by (simp add: go_div_def MaxTTL_def duration_defs)
  then have "k * unit \<le> MaxTTL div unit * unit" using k(2) up by (intro mult_right_mono) auto
  also have "\<dots> \<le> MaxTTL" using up by (simp add: MaxTTL_def duration_defs minus_mod_eq_div_mult [symmetric])
  finally have le: "k * unit \<le> MaxTTL" .
  moreover have "0 \<le> k * unit" using k(2) up by simp
  ultimately have "wrap64 (k * unit) = k * unit" by (intro wrap64_id) (simp add: int64_ok_def MaxTTL_def duration_defs)
  then show thesis using that [OF u k(1)] k(2,3) le up by simp
qed

lemma format_nat_length: "n < 10 ^ Suc j \<Longrightarrow> length (format_nat n) \<le> Suc j"
proof (induction j arbitrary: n)
  case 0
  then show ?case by (simp add: format_nat.simps)
next
  case (Suc j)
  show ?case
  proof (cases "n < 10")
    case True
    then show ?thesis by (simp add: format_nat.simps)
  next
    case False
    have "n div 10 < 10 ^ Suc j" using Suc.prems by simp
    from Suc.IH [OF this] show ?thesis using False by (simp add: format_nat.simps [of n])
  qed
qed

lemma ParseTTL_format:
  assumes "(c, unit) \<in> {(CHR ''s'', second), (CHR ''m'', minute), (CHR ''h'', hour), (CHR ''d'', 24 * hour)}"
    and "0 < k" "int k * unit \<le> MaxTTL"
  shows "ParseTTL (format_nat k @ [c]) = Inr (int k * unit)"
proof -
  have u: "ttl_unit (format_nat k @ [c]) = (unit, format_nat k)" using assms(1) by (auto simp: ttl_unit_def)
  have up: "second \<le> unit" "0 < unit" using assms(1) by (auto simp: duration_defs)
  have k: "int k \<le> MaxTTL div unit" using zdiv_mono1 [OF assms(3) up(2)] up by simp
  have "int k * second \<le> MaxTTL" using assms(3) up by (smt (verit) mult_left_mono of_nat_0_le_iff)
  then have small: "int k < 1000000000" by (simp add: MaxTTL_def duration_defs)
  have "parse_int (format_int (int k)) = Some (int k)" by (rule parse_int_format) (use small in \<open>simp add: int64_ok_def\<close>)
  then have p: "parse_int (format_nat k) = Some (int k)" by (simp add: format_int_def)
  have "length (format_nat k) \<le> 9" using format_nat_length [of k 8] small by simp
  moreover have "0 \<le> int k * unit" using up by simp
  then have w: "wrap64 (int k * unit) = int k * unit" using assms(3)
    by (intro wrap64_id) (simp add: int64_ok_def MaxTTL_def duration_defs)
  moreover have "go_div MaxTTL unit = MaxTTL div unit" using up by (simp add: go_div_def MaxTTL_def duration_defs)
  ultimately show ?thesis using u p w k assms(2) format_nat_nonempty [of k] format_nat_digits [of k]
    by (simp add: ParseTTL_def)
qed

text \<open>
  A lifetime the parser accepts is at least a second and at most 30 days, the product of
  count and unit never wraps; every whole number of seconds, minutes, hours or days up to
  30 days, written in decimal with its unit, parses to itself.
\<close>

theorem an_accepted_lifetime_is_bounded:
  "(case ParseTTL s of Inl _ \<Rightarrow> True | Inr n \<Rightarrow> second \<le> n \<and> n \<le> MaxTTL) \<and>
   (\<forall>(c, unit) \<in> {(CHR ''s'', second), (CHR ''m'', minute), (CHR ''h'', hour), (CHR ''d'', 24 * hour)}.
      0 < k \<and> int k * unit \<le> MaxTTL \<longrightarrow> ParseTTL (format_nat k @ [c]) = Inr (int k * unit))"
proof -
  have "second \<le> n \<and> n \<le> MaxTTL" if "ParseTTL s = Inr n" for n
    using that
  proof (cases rule: ParseTTL_outcome)
    case (1 unit digits k)
    have "1 * second \<le> k * unit" using 1(3,6) by (intro mult_mono) (auto simp: duration_defs)
    then show ?thesis using 1 by simp
  qed
  then show ?thesis using ParseTTL_format [of _ _ k] by (auto split: sum.splits)
qed

theorem an_accepted_lifetime_is_bounded_witness:
  "ParseTTL ''15m'' = Inr (15 * minute)"
  using an_accepted_lifetime_is_bounded [of "[]" 15] by (simp add: MaxTTL_def duration_defs format_nat.simps go_defs)

subsection \<open>Hosted upstreams\<close>

lemma first_error_None: "first_error es = None \<longleftrightarrow> (\<forall>e \<in> set es. e = None)"
  by (induction es rule: first_error.induct) auto

lemma Parse_checks:
  assumes "Parse decode pu pa raw = Inr c"
  shows "\<forall>nu \<in> set (cfUpstreams c). check_upstream pu pa nu = None"
    "\<forall>nt \<in> set (cfToolUpstreams c). check_tool_upstream pu pa nt = None"
    "\<forall>nh \<in> set (cfInboundHooks c). check_hook nh = None"
    "check_notifier (cfToolUpstreams c) (cfApprovalNotifier c) = None"
    "buildPolicy (map (\<lambda>(n, t). (n, tuTools t)) (cfToolUpstreams c)) (cfStandingConstraints c) = Inr (cfPolicy c)"
  using assms by (auto simp: Parse_def first_error_None check_all_None split: option.splits if_splits sum.splits)

lemma hostedShape_internet:
  "hostedShape pa u True ca = None \<Longrightarrow> urlScheme u = ''https'' \<and> (urlPort u = [] \<or> urlPort u = ''443'')"
  by (auto simp: hostedShape_def Let_def split: if_splits)

lemma internet_url_shape:
  assumes "Parse decode pu pa raw = Inr c" "(url, ca) \<in> set (internet_urls c)" "pu url = Some u"
  shows "urlScheme u = ''https'' \<and> (urlPort u = [] \<or> urlPort u = ''443'')"
proof -
  have "hostedShape pa u True ca = None"
    using assms(2,3) Parse_checks(1,2) [OF assms(1)]
    by (fastforce simp: internet_urls_def check_upstream_def check_tool_upstream_def split: option.splits if_splits)
  then show ?thesis by (rule hostedShape_internet)
qed

lemma add_internet_all:
  assumes "fold (add_internet pu) rcs (out, seen) = (out', seen')"
    and "\<forall>n ca. map_get seen n = Some ca \<longrightarrow> \<lparr>hoName = n, hoCAFile = ca\<rparr> \<in> set out"
  shows "set out \<subseteq> set out' \<and> (\<forall>(url, ca) \<in> set rcs. \<forall>u. pu url = Some u \<longrightarrow> \<lparr>hoName = host_name u, hoCAFile = ca\<rparr> \<in> set out')"
  using assms
proof (induction rcs arbitrary: out seen)
  case (Cons rc rcs)
  obtain url ca where rc: "rc = (url, ca)" by fastforce
  obtain out1 seen1 where st: "add_internet pu rc (out, seen) = (out1, seen1)" by fastforce
  have s: "set out \<subseteq> set out1 \<and> (\<forall>n ca. map_get seen1 n = Some ca \<longrightarrow> \<lparr>hoName = n, hoCAFile = ca\<rparr> \<in> set out1) \<and>
      (\<forall>u. pu url = Some u \<longrightarrow> \<lparr>hoName = host_name u, hoCAFile = ca\<rparr> \<in> set out1)"
    using st Cons.prems(2) by (auto simp: rc add_internet_def split: option.splits if_splits)
  then show ?case using Cons.IH [of out1 seen1] Cons.prems(1) st by (auto simp: rc)
qed simp

lemma add_host_Inr:
  assumes "add_host read_ca h m = Inr m'"
  shows "map_get m' (to_lower (trim_suffix (hoName h) ''.'')) = Some (hoCAFile h)"
    "map_get m k = Some v \<Longrightarrow> map_get m' k = Some v"
  using assms by (auto simp: add_host_def Let_def map_has_get split: if_splits option.splits bool.splits)

lemma NewClient_all:
  assumes "foldM (add_host read_ca) hs m = Inr m'"
  shows "(\<forall>k v. map_get m k = Some v \<longrightarrow> map_get m' k = Some v) \<and>
    (\<forall>h \<in> set hs. map_get m' (to_lower (trim_suffix (hoName h) ''.'')) = Some (hoCAFile h))"
  using assms
proof (induction hs arbitrary: m)
  case (Cons h hs)
  then obtain m1 where m1: "add_host read_ca h m = Inr m1" "foldM (add_host read_ca) hs m1 = Inr m'"
    by (auto split: sum.splits)
  then show ?case using Cons.IH [OF m1(2)] add_host_Inr [OF m1(1)] by auto
qed simp

lemma to_lower_idem: "to_lower (to_lower s) = to_lower s"
proof -
  have "lower_char (lower_char c) = lower_char c" for c
    by (cases "is_upper c") (auto simp: lower_char_def is_upper_def)
  then show ?thesis by (simp add: to_lower_def)
qed

text \<open>
  With the hardened client built from an accepted configuration, a request to any hosted
  upstream of it passes every check before the dial (https, port 443, a known host) and goes
  through the transport of that upstream's own trust anchor, bounded by the body lifetime and
  the size cap; a host name that still ends in a dot after one is trimmed is excepted.
\<close>

theorem a_hosted_upstream_gets_its_own_transport:
  assumes "Parse decode pu pa raw = Inr c" "NewClient read_ca (InternetHosts pu c) = Inr byHost"
    and "(url, ca) \<in> set (internet_urls c)" "pu url = Some u" "\<not> has_suffix (host_name u) ''.''"
  shows "RoundTrip p byHost inner u s =
    (case inner ca (epBodyLifetime p) s of
       (Inl e, s') \<Rightarrow> (Inl e, s')
     | (Inr body, s') \<Rightarrow> (Inr (body, epMaxResponseBytes p), s'))"
proof -
  obtain out seen where f: "fold (add_internet pu) (internet_urls c) ([], []) = (out, seen)" by fastforce
  have "\<lparr>hoName = host_name u, hoCAFile = ca\<rparr> \<in> set out"
    using add_internet_all [OF f] assms(3,4) by fastforce
  then have "map_get byHost (to_lower (trim_suffix (host_name u) ''.'')) = Some ca"
    using NewClient_all [of read_ca "InternetHosts pu c" "[]" byHost] assms(2) f
    by (auto simp: NewClient_def InternetHosts_def)
  then have "map_get byHost (host_name u) = Some ca"
    using assms(5) by (simp add: trim_suffix_def) (simp add: host_name_def to_lower_idem)
  then show ?thesis using internet_url_shape [OF assms(1,3,4)]
    by (auto simp: RoundTrip_def Let_def host_name_def)
qed

definition demo_hook :: InboundHook where
  "demo_hook = \<lparr>ihCredential = ''bot'', ihAuth = ''kaimahi-hmac'', ihSigningSecretFile = ''/s'', ihAgentNamespace = ''ns'',
     ihAgent = ''ag'', ihSlackChannelsFile = [], ihSlackApproversFile = [], ihSlackDefaultUses = 0, ihSlackDefaultTTL = [],
     ihBudgetCredential = ''bot'', ihToolCredential = [], ihMaxBodyBytes = 0, ihRatePerMinute = 0, ihBurst = 0\<rparr>"

definition demo_config :: Config where
  "demo_config = \<lparr>cfUpstreams = [(''llm'', \<lparr>upBaseURL = ''u'', upPath = ''v1'', upClassification = ''metered'', upCredentialFile = [],
       upCredentialHeader = [], upExtraHeaders = [], upPrices = [(''m'', \<lparr>InCentsPer1M = 300, OutCentsPer1M = 1500\<rparr>)],
       upInternet = True, upCAFile = []\<rparr>)], cfToolUpstreams = [], cfInboundHooks = [(''gh'', demo_hook)], cfApprovalNotifier = None,
     cfStandingConstraints = [], cfPolicy = \<lparr>declared = [], constraints = []\<rparr>\<rparr>"

definition demo_url :: URL where
  "demo_url = \<lparr>urlScheme = ''https'', urlHost = ''api'', urlHostname = ''api'', urlPort = [], urlUser = False\<rparr>"

lemma demo_parses: "Parse (\<lambda>b. Some demo_config) (\<lambda>r. Some demo_url) (\<lambda>h. None) [] = Inr demo_config"
  by (simp add: Parse_def demo_config_def demo_url_def check_all_def check_upstream_def hostedShape_def ClassFree_def ClassMetered_def
      price_in_range_def check_notifier_def buildPolicy_def check_hook_def demo_hook_def dnsLabel_def dns_char_def
      AuthBearer_def AuthKaimahiHMAC_def AuthSlack_def inbound_bounds go_defs)

theorem a_hosted_upstream_gets_its_own_transport_witness:
  "RoundTrip (withDefaults \<lparr>epConnectTimeout = 1, epResponseHeaderTimeout = 1, epBodyLifetime = 1, epMaxResponseBytes = 9\<rparr>) [(''api'', [])] (\<lambda>ca t s. (Inr ca, s)) demo_url () = (Inr ([], 9), ())"
proof -
  have n: "NewClient (\<lambda>f. None) (InternetHosts (\<lambda>r. Some demo_url) demo_config) = Inr [(''api'', [])]"
    by (simp add: NewClient_def InternetHosts_def internet_urls_def demo_config_def demo_url_def add_internet_def add_host_def
        host_name_def map_get_def map_has_def go_defs)
  have "([], []) \<in> set (internet_urls demo_config) \<or> (''u'', []) \<in> set (internet_urls demo_config)"
    by (simp add: internet_urls_def demo_config_def)
  then have m: "(''u'', []) \<in> set (internet_urls demo_config)" by (simp add: internet_urls_def demo_config_def)
  have "\<not> has_suffix (host_name demo_url) ''.''" by (simp add: host_name_def demo_url_def go_defs)
  from a_hosted_upstream_gets_its_own_transport [OF demo_parses n m refl this,
      where p = "(withDefaults \<lparr>epConnectTimeout = 1, epResponseHeaderTimeout = 1, epBodyLifetime = 1, epMaxResponseBytes = 9\<rparr>)" and inner = "\<lambda>ca t s. (Inr ca, s)"]
  show ?thesis by (simp add: withDefaults_def)
qed

subsection \<open>Policy, prices and hooks\<close>

lemma buildPolicy_decides:
  assumes "buildPolicy ups standing = Inr p" "Constraints p credential tool = (cs, True)"
  shows "Satisfied cs args \<noteq> None"
proof -
  obtain byTool where "map_get (constraints p) credential = Some byTool" "map_get byTool tool = Some cs"
    using assms(2) by (auto simp: Constraints_def split: option.splits)
  then have "\<forall>c \<in> set cs. rule_ok c"
    using buildPolicy_wf [OF assms(1)] unfolding policy_wf_def by blast
  then show ?thesis using Satisfied_total [of cs args] by auto
qed

lemma checked_price:
  assumes "check_upstream pu pa (n, up) = None" "(m, pr) \<in> set (upPrices up)"
  shows "price_in_range pr"
  using assms by (fastforce simp: check_upstream_def check_all_None split: option.splits if_splits)

text \<open>
  With an accepted configuration the gateway reaches a verdict on every call: no rule of
  the policy dereferences a value that is not there; and the recorded cost of any token counts
  at any configured price is the exact floor, non-negative and at most 2 * 10^12 cents.
\<close>

theorem an_accepted_config_always_decides:
  assumes "Parse decode pu pa raw = Inr c"
  shows "standing_admission (cfPolicy c) cred tool args allowed \<noteq> AdmissionPanics \<and>
    (\<forall>(n, up) \<in> set (cfUpstreams c). \<forall>(m, pr) \<in> set (upPrices up).
       CostCents pr i out = (clampTokens i * InCentsPer1M pr + clampTokens out * OutCentsPer1M pr) div 1000000 \<and>
       0 \<le> CostCents pr i out \<and> CostCents pr i out \<le> 2000000000000)"
proof -
  have "Satisfied cs args \<noteq> None" if "Constraints (cfPolicy c) cred tool = (cs, True)" for cs
    by (rule buildPolicy_decides [OF Parse_checks(5) [OF assms] that])
  then have "standing_admission (cfPolicy c) cred tool args allowed \<noteq> AdmissionPanics"
    by (cases "snd (Constraints (cfPolicy c) cred tool)"; cases "Constraints (cfPolicy c) cred tool")
       (auto simp: standing_admission_def split: option.splits bool.splits)
  moreover have "price_in_range pr" if "(n, up) \<in> set (cfUpstreams c)" "(m, pr) \<in> set (upPrices up)" for n up m pr
    using checked_price Parse_checks(1) [OF assms] that by fastforce
  ultimately show ?thesis using CostCents_exact CostCents_nonneg CostCents_le by blast
qed

theorem an_accepted_config_always_decides_witness:
  "CostCents \<lparr>InCentsPer1M = 300, OutCentsPer1M = 1500\<rparr> 2000 1000 = 2"
  using an_accepted_config_always_decides [OF demo_parses, of _ _ _ _ 2000 1000]
  by (simp add: demo_config_def clampTokens_def MaxTokens_def)

text \<open>
  A hook of an accepted configuration that verifies signatures names a secret to verify
  them with, a Slack hook names its channels and approvers, and the limits the receiver reads
  are all positive and bounded, with a default lifetime that parses.
\<close>

theorem an_accepted_hook_is_bounded:
  assumes "Parse decode pu pa raw = Inr c" "(name, h) \<in> set (cfInboundHooks c)"
  shows "(ihAuth h = AuthBearer \<or> (ihAuth h = AuthKaimahiHMAC \<or> ihAuth h = AuthSlack) \<and> ihSigningSecretFile h \<noteq> []) \<and>
    (ihAuth h = AuthSlack \<longrightarrow> ihSlackChannelsFile h \<noteq> [] \<and> ihSlackApproversFile h \<noteq> []) \<and>
    0 < ihMaxBodyBytes (Bounded h) \<and> ihMaxBodyBytes (Bounded h) \<le> maxInboundBody \<and>
    0 < ihRatePerMinute (Bounded h) \<and> ihRatePerMinute (Bounded h) \<le> maxInboundRate \<and>
    0 < ihBurst (Bounded h) \<and> ihBurst (Bounded h) \<le> maxInboundRate \<and>
    0 < ihSlackDefaultUses (Bounded h) \<and> ihSlackDefaultUses (Bounded h) \<le> maxSlackUses \<and>
    (\<exists>ttl. ParseTTL (ihSlackDefaultTTL (Bounded h)) = Inr ttl)"
proof -
  have ch: "check_hook (name, h) = None" using Parse_checks(3) [OF assms(1)] assms(2) by blast
  have dflt: "ParseTTL DefaultSlackTTL = Inr (15 * minute)"
    using ParseTTL_format [of "CHR ''m''" minute 15]
    by (simp add: DefaultSlackTTL_def MaxTTL_def duration_defs format_nat.simps go_defs)
  have ttl: "\<exists>ttl. ParseTTL (ihSlackDefaultTTL (Bounded h)) = Inr ttl"
    using ch dflt unfolding check_hook_def by (auto simp: Bounded_def split: if_splits sum.splits)
  show ?thesis using ch ttl unfolding check_hook_def
    by (auto simp: Bounded_def inbound_bounds split: if_splits sum.splits)
qed

theorem an_accepted_hook_is_bounded_witness:
  "ihMaxBodyBytes (Bounded demo_hook) = 65536 \<and> (\<exists>ttl. ParseTTL (ihSlackDefaultTTL (Bounded demo_hook)) = Inr ttl)"
proof -
  have "(''gh'', demo_hook) \<in> set (cfInboundHooks demo_config)" by (simp add: demo_config_def)
  from an_accepted_hook_is_bounded [OF demo_parses this] show ?thesis
    by (simp add: Bounded_def demo_hook_def inbound_bounds)
qed

end
