(* ===== verification/GatewayFlow.thy ===== *)
theory GatewayFlow
  imports Gateway World
begin

text \<open>
  What one request of the gateway can do: how many messages leave, which path of \<open>relay\<close>
  led there, the contract of the store the gateway relies on, and its Postgres instance.
\<close>

subsection \<open>What is sent upstream\<close>

lemma in_store_sent [simp]:
  "in_store f g = (r, g') \<Longrightarrow> gwSent g' = gwSent g \<and> gwDegraded g' = gwDegraded g"
  by (auto simp: in_store_def split: prod.splits)

lemma in_store_fst: "in_store f g = (r, g') \<Longrightarrow> f (gwStore g) = (r, gwStore g')"
  by (auto simp: in_store_def split: prod.splits)

lemma audit_sent [simp]: "gwSent (audit d att e g) = gwSent g"
  by (auto simp: audit_def in_store_def split: prod.splits sum.splits)

lemma Decide_sent [simp]: "gwSent (Decide dec why g) = gwSent g" "gwDegraded (Decide dec why g) = gwDegraded g"
  "gwStore (Decide dec why g) = gwStore g"
  by (simp_all add: Decide_def)

lemma httpDeny_sent [simp]: "gwSent (snd (httpDeny d att cred up m tool status msg g)) = gwSent g"
  by (simp add: httpDeny_def)

lemma rpcDenyCall_sent [simp]: "gwSent (snd (rpcDenyCall d att cred up m tool dg sm i c msg g)) = gwSent g"
  by (simp add: rpcDenyCall_def)

lemma deny_sent:
  "httpDeny d att cred up m tool status msg g = (resp, g') \<Longrightarrow> gwSent g' = gwSent g"
  "rpcDenyCall d att cred up m tool dg sm i c msg g = (resp, g') \<Longrightarrow> gwSent g' = gwSent g"
  "rpcDeny d att cred up m tool i c msg g = (resp, g') \<Longrightarrow> gwSent g' = gwSent g"
  by (metis httpDeny_sent snd_conv, metis rpcDenyCall_sent snd_conv, metis rpcDeny_def rpcDenyCall_sent snd_conv)

text \<open>At most one message, and exactly the one built from the request.\<close>

definition sends :: "string \<Rightarrow> ToolUpstream \<Rightarrow> string \<Rightarrow> 's gw \<Rightarrow> 's gw \<Rightarrow> bool" where
  "sends httpMethod up body g g' \<longleftrightarrow> gwSent g' = gwSent g \<or>
     (\<exists>out. gwSent g' = gwSent g @ [out] \<and> obURL out = tuURL up \<and> obMethod out = httpMethod \<and> obBody out = body \<and>
        obHardened out = tuInternet up)"

lemma sends_same: "gwSent g' = gwSent g \<Longrightarrow> sends m up body g g'"
  by (simp add: sends_def)

lemma do_request_sends: "do_request d m hdr extra up body g = (res, g') \<Longrightarrow> sends m up body g g'"
  unfolding do_request_def sends_def clientFor_def send_outbound_def
  by (auto simp: Let_def in_store_def split: option.splits sum.splits prod.splits if_splits)

lemma forward_sends: "forward d r up body g = (res, g') \<Longrightarrow> sends ''POST'' up body g g'"
  unfolding forward_def gw_do_def by (auto dest: do_request_sends split: prod.splits)

lemma forwardProjected_sends: "forwardProjected d r up body allowed g = (res, g') \<Longrightarrow> sends ''POST'' up body g g'"
  unfolding forwardProjected_def gw_do_def by (auto dest: do_request_sends split: prod.splits)

lemma call_admitted_sends: "call_admitted d r att cred up body tool b detail g = (resp, g') \<Longrightarrow> sends ''POST'' up body g g'"
  unfolding call_admitted_def by (auto simp: Let_def sends_def split: prod.splits dest!: forward_sends)

lemma allowlist_sent: "allowlist d att cred up m g = (res, g') \<Longrightarrow> gwSent g' = gwSent g"
  by (auto simp: allowlist_def split: prod.splits sum.splits dest: in_store_sent deny_sent)

lemma projectable_sent: "projectable d att cred up m al g = (res, g') \<Longrightarrow> gwSent g' = gwSent g"
  by (auto simp: projectable_def split: prod.splits sum.splits dest: in_store_sent deny_sent)

lemma deny_and_pend_sent: "deny_and_pend d r att cred tool b i outside g = (resp, g') \<Longrightarrow> gwSent g' = gwSent g"
  by (auto simp: deny_and_pend_def fileRequest_def split: prod.splits sum.splits dest: in_store_sent deny_sent)

lemma authenticate_sent: "authenticate d r g = (res, g') \<Longrightarrow> gwSent g' = gwSent g"
  by (auto simp: authenticate_def Let_def split: prod.splits sum.splits if_splits dest: in_store_sent deny_sent)

text \<open>The binding of a call, and the two ways it is let through.\<close>

definition call_binding :: "'s Deps \<Rightarrow> json gomap \<Rightarrow> json gomap \<Rightarrow> CallBinding" where
  "call_binding d msg args = (case Declared (dPolicy d) (toolNameOf msg) of
     (fs, isDeclared) \<Rightarrow> Bind (dSha d) (dUprint d) (toolNameOf msg) args fs isDeclared)"

lemma tools_call_outcome:
  assumes "tools_call d r att cred up body msg g = (resp, g')"
  obtains "gwSent g' = gwSent g"
  | args allowed g1 detail where "argumentsOf msg = Some args" "toolNameOf msg \<noteq> []"
      "in_store (gsToolAllowlist (dStore d) (crName cred)) g = (Inr allowed, g1)"
      "standing_admission (dPolicy d) (crName cred) (toolNameOf msg) args allowed = Admitted detail"
      "call_admitted d r att cred up body (toolNameOf msg) (call_binding d msg args) detail g1 = (resp, g')"
  | args allowed g1 outside gid g2 where "argumentsOf msg = Some args" "toolNameOf msg \<noteq> []"
      "in_store (gsToolAllowlist (dStore d) (crName cred)) g = (Inr allowed, g1)"
      "standing_admission (dPolicy d) (crName cred) (toolNameOf msg) args allowed = NotAdmitted outside"
      "in_store (gsConsumeToolGrant (dStore d) (crName cred) (toolNameOf msg) (cbDigest (call_binding d msg args))) g1 =
         (Inr (Some gid), g2)"
      "call_admitted d r att cred up body (toolNameOf msg) (call_binding d msg args) (''granted '' @ gid) g2 = (resp, g')"
proof (cases "toolNameOf msg = [] \<or> argumentsOf msg = None")
  case True
  then have "gwSent g' = gwSent g"
    using assms by (auto simp: tools_call_def Let_def split: if_splits dest: deny_sent)
  then show thesis by (rule that(1))
next
  case False
  then obtain args where a: "argumentsOf msg = Some args" "toolNameOf msg \<noteq> []" by auto
  obtain fs isd where decl: "Declared (dPolicy d) (toolNameOf msg) = (fs, isd)" by fastforce
  have b: "Bind (dSha d) (dUprint d) (toolNameOf msg) args fs isd = call_binding d msg args"
    by (simp add: call_binding_def decl)
  obtain ra g1 where al: "allowlist d att cred (rqName r) ''tools/call'' g = (ra, g1)" by fastforce
  note s1 = allowlist_sent [OF al]
  note u = assms [unfolded tools_call_def Let_def decl, simplified, unfolded a b, simplified a(2) al]
  show thesis
  proof (cases ra)
    case (Inl x)
    then have "gwSent g' = gwSent g" using u s1 a(2) al by (simp add: Inl)
    then show thesis by (rule that(1))
  next
    case (Inr allowed)
    have st: "in_store (gsToolAllowlist (dStore d) (crName cred)) g = (Inr allowed, g1)"
      using al Inr by (auto simp: allowlist_def split: prod.splits sum.splits)
    show thesis
    proof (cases "standing_admission (dPolicy d) (crName cred) (toolNameOf msg) args allowed")
      case (Admitted detail)
      then show thesis using that(2) [OF a st] u Inr a(2) al by (simp add: b)
    next
      case AdmissionPanics
      then have "gwSent g' = gwSent g" using u s1 Inr a(2) al by simp
      then show thesis by (rule that(1))
    next
      case (NotAdmitted outside)
      obtain rc g2 where c: "in_store (gsConsumeToolGrant (dStore d) (crName cred) (toolNameOf msg)
          (cbDigest (call_binding d msg args))) g1 = (rc, g2)" by fastforce
      have s2: "gwSent g2 = gwSent g" using in_store_sent [OF c] s1 by simp
      note c' = c [folded b]
      show thesis
      proof (cases rc)
        case Inl2: (Inl e)
        then have "gwSent g' = gwSent g" using u s2 Inr NotAdmitted c' a(2) al by (auto dest: deny_sent)
        then show thesis by (rule that(1))
      next
        case Inr2: (Inr og)
        show thesis
        proof (cases og)
          case None
          then have "gwSent g' = gwSent g" using u s2 Inr NotAdmitted c' Inr2 a(2) al by (auto dest: deny_and_pend_sent)
          then show thesis by (rule that(1))
        next
          case (Some gid)
          then show thesis using that(3) [OF a st NotAdmitted] u Inr NotAdmitted c c' Inr2 a(2) al by (simp add: b)
        qed
      qed
    qed
  qed
qed

text \<open>What relay does before it dispatches: nothing is sent unless all of it passed.\<close>

lemma relay_outcome:
  assumes "relay d r g = (resp, g')"
  obtains "gwSent g' = gwSent g"
  | cred att g1 up raw body msg where "authenticate d r g = (Inr (cred, att), g1)" "gwSent g1 = gwSent g"
      "map_get (dUpstreams d) (rqName r) = Some up" "\<not> gwDegraded g1" "read_body maxRequestBody r = Some raw"
      "canonicalize raw = Inr (body, msg)" "dispatch d r att cred up body msg g1 = (resp, g')"
proof (cases "authenticate d r g")
  case (Pair ra g1)
  note s1 = authenticate_sent [OF Pair]
  show thesis
  proof (cases ra)
    case (Inl x)
    then show thesis using assms Pair s1 by (intro that(1)) (simp add: relay_def)
  next
    case (Inr ca)
    obtain cred att where ca: "ca = (cred, att)" by fastforce
    note u = assms [unfolded relay_def Pair Inr ca]
    show thesis
    proof (cases "map_get (dUpstreams d) (rqName r)")
      case None
      then have "gwSent g' = gwSent g" using u s1 by (auto dest: deny_sent)
      then show thesis by (rule that(1))
    next
      case (Some up)
      note up = this
      show thesis
      proof (cases "gwDegraded g1 \<or> read_body maxRequestBody r = None")
        case True
        then have "gwSent g' = gwSent g" using u up s1 by (auto split: if_splits option.splits dest: deny_sent)
        then show thesis by (rule that(1))
      next
        case False
        then obtain raw where raw: "\<not> gwDegraded g1" "read_body maxRequestBody r = Some raw" by auto
        show thesis
        proof (cases "canonicalize raw")
          case (Inl e)
          then have "gwSent g' = gwSent g" using u up s1 raw by (auto split: if_splits dest: deny_sent)
          then show thesis by (rule that(1))
        next
          case Can: (Inr bm)
          obtain body msg where bm: "bm = (body, msg)" by fastforce
          show thesis
          proof (cases "trim_space raw \<noteq> [] \<and> hd (trim_space raw) = CHR ''[''")
            case True
            then have "gwSent g' = gwSent g" using u up s1 raw by (auto split: if_splits dest: deny_sent)
            then show thesis by (rule that(1))
          next
            case False
            have "dispatch d r att cred up body msg g1 = (resp, g')" using u up raw Can bm False by (simp split: if_splits)
            then show thesis using that(2) [of cred att g1 up raw body msg] Pair Inr ca s1 up raw Can bm by simp
          qed
        qed
      qed
    qed
  qed
qed

lemma dispatch_outcome:
  assumes "dispatch d r att cred up body msg g = (resp, g')"
  shows "sends ''POST'' up body g g'" and "gwSent g' \<noteq> gwSent g \<Longrightarrow>
    rpc_method msg \<in> {''initialize'', ''notifications/initialized'', ''tools/list'', ''tools/call''} \<and>
    (rpc_method msg = ''tools/call'' \<longrightarrow> tools_call d r att cred up body msg g = (resp, g'))"
proof -
  have tl: "sends ''POST'' up body g g'" if "allowlist d att cred (rqName r) m g = (Inr al, g1)"
    "projectable d att cred (rqName r) m al g1 = (Inr vis, g2)" "forwardProjected d r up body vis g2 = (resp, g')"
    for m al g1 vis g2
    using forwardProjected_sends [OF that(3)] allowlist_sent [OF that(1)] projectable_sent [OF that(2)]
    by (simp add: sends_def)
  have pl: "sends ''POST'' up body g g'" if "allowlist d att cred (rqName r) m g = (Inr al, g1)"
    "projectable d att cred (rqName r) m al g1 = (Inl x, g')" for m al g1 x
    using allowlist_sent [OF that(1)] projectable_sent [OF that(2)] by (simp add: sends_def)
  have tc: "sends ''POST'' up body g g'" if t: "tools_call d r att cred up body msg g = (resp, g')"
    using t
  proof (cases rule: tools_call_outcome)
    case 1
    then show ?thesis by (rule sends_same)
  next
    case (2 args allowed g1 detail)
    then show ?thesis using call_admitted_sends [OF 2(5)] in_store_sent [OF 2(3)] by (simp add: sends_def)
  next
    case (3 args allowed g1 outside gid g2)
    then show ?thesis using call_admitted_sends [OF 3(6)] in_store_sent [OF 3(3)] in_store_sent [OF 3(5)] by (simp add: sends_def)
  qed
  show "sends ''POST'' up body g g'"
    using assms unfolding dispatch_def Let_def
    by (auto split: if_splits prod.splits sum.splits option.splits
        dest: deny_sent allowlist_sent projectable_sent forward_sends intro: sends_same tl tc pl)
  show "rpc_method msg \<in> {''initialize'', ''notifications/initialized'', ''tools/list'', ''tools/call''} \<and>
    (rpc_method msg = ''tools/call'' \<longrightarrow> tools_call d r att cred up body msg g = (resp, g'))" if "gwSent g' \<noteq> gwSent g"
    using assms that unfolding dispatch_def Let_def by (auto split: if_splits dest: deny_sent)
qed

subsection \<open>The contract of the store\<close>

text \<open>
  How a call is let through: inside a standing constraint, on the allowlist where there is no
  constraint, or under a grant.
\<close>

definition admissible_call :: "PolicySet \<Rightarrow> string \<Rightarrow> string \<Rightarrow> json gomap \<Rightarrow> bool \<Rightarrow> bool \<Rightarrow> bool" where
  "admissible_call p cred tool args on_list granted \<longleftrightarrow> granted \<or>
     (case Constraints p cred tool of
        (cs, True) \<Rightarrow> (\<exists>why. Satisfied cs args = Some (True, why))
      | (_, False) \<Rightarrow> on_list)"

lemma standing_admission_admissible:
  "standing_admission p cred tool args allowed = Admitted detail \<Longrightarrow>
     admissible_call p cred tool args (tool \<in> set allowed) granted"
  by (auto simp: standing_admission_def admissible_call_def split: prod.splits bool.splits option.splits if_splits)

lemma admissible_call_mono:
  "admissible_call p cred tool args l gr \<Longrightarrow> (l \<Longrightarrow> l') \<Longrightarrow> (gr \<Longrightarrow> gr') \<Longrightarrow> admissible_call p cred tool args l' gr'"
  by (auto simp: admissible_call_def split: prod.splits bool.splits)

text \<open>
  What every seam relies on at its door: \<open>view\<close> is what authorisation reads of the state, and
  reading keeps it; a token names a credential that is there.
\<close>

locale door =
  fixes lookup :: "string \<Rightarrow> 's \<Rightarrow> (store_error + Credential) \<times> 's"
    and actor :: "string \<Rightarrow> 's \<Rightarrow> (store_error + Attribution) \<times> 's"
    and view :: "'s \<Rightarrow> 'v"
    and holder :: "string \<Rightarrow> Credential \<Rightarrow> 'v \<Rightarrow> bool"
  assumes lookup_view: "lookup h s = (r, s') \<Longrightarrow> view s' = view s"
    and lookup_holder: "lookup h s = (Inr cr, s') \<Longrightarrow> holder h cr (view s)"
    and actor_view: "actor c s = (a, s') \<Longrightarrow> view s' = view s"
begin

lemma at_the_door:
  assumes "in_store (lookup h) g = (Inr cr, g1)" "in_store (actor c) g1 = (a, g2)"
  shows "holder h cr (view (gwStore g))" "view (gwStore g2) = view (gwStore g)"
    "gwDegraded g2 = gwDegraded g" "gwSent g2 = gwSent g"
  using in_store_fst [OF assms(1)] in_store_fst [OF assms(2)] in_store_sent [OF assms(1)] in_store_sent [OF assms(2)]
    lookup_holder lookup_view actor_view assms
  by metis+

end

text \<open>
  The gateway reads an allowlist that stands, and is handed a use only when it was permitted
  for exactly this credential, tool and digest.
\<close>

locale gateway_contract = door "gsCredentialByTokenHash st" "gsActorFor st" view holder
  for st :: "'s gateway_store" and view :: "'s \<Rightarrow> 'v" and holder +
  fixes listed :: "string \<Rightarrow> string list \<Rightarrow> 'v \<Rightarrow> bool"
    and permitted :: "string \<Rightarrow> string \<Rightarrow> string \<Rightarrow> string \<Rightarrow> 'v \<Rightarrow> bool"
  assumes list_view: "gsToolAllowlist st c s = (l, s') \<Longrightarrow> view s' = view s"
    and list_listed: "gsToolAllowlist st c s = (Inr ts, s') \<Longrightarrow> listed c ts (view s)"
    and consume_permitted: "gsConsumeToolGrant st c t dig s = (Inr (Some gid), s') \<Longrightarrow> permitted c t dig gid (view s)"
begin

lemma authenticated:
  assumes "authenticate d r g = (Inr (cred, att), g1)" "dStore d = st"
  shows "bearer (header_get (rqHeader r) ''Authorization'') \<noteq> [] \<and>
    holder (dSha d (bearer (header_get (rqHeader r) ''Authorization''))) cred (view (gwStore g)) \<and>
    \<not> Expired cred (dNow d (gwStore g1)) \<and> view (gwStore g1) = view (gwStore g) \<and>
    gwDegraded g1 = gwDegraded g \<and> gwDecisions g1 = gwDecisions g"
  using assms(1) unfolding authenticate_def in_store_def assms(2)
  by (auto simp: Let_def split: prod.splits sum.splits if_splits
      dest: lookup_holder) (metis lookup_view actor_view)

text \<open>The call is admissible by what the view shows.\<close>

definition call_ok :: "PolicySet \<Rightarrow> string \<Rightarrow> string \<Rightarrow> json gomap \<Rightarrow> string \<Rightarrow> 'v \<Rightarrow> bool" where
  "call_ok p cred tool args dig v \<longleftrightarrow> admissible_call p cred tool args
     (\<exists>ts. listed cred ts v \<and> tool \<in> set ts) (\<exists>gid. permitted cred tool dig gid v)"

lemma call_sent_admissible:
  assumes "tools_call d r att cred up body msg g = (resp, g')" "dStore d = st" "gwSent g' \<noteq> gwSent g"
  shows "\<exists>args. argumentsOf msg = Some args \<and> toolNameOf msg \<noteq> [] \<and>
    call_ok (dPolicy d) (crName cred) (toolNameOf msg) args (cbDigest (call_binding d msg args)) (view (gwStore g))"
  using assms(1)
proof (cases rule: tools_call_outcome)
  case 1
  then show ?thesis using assms(3) by simp
next
  case (2 args allowed g1 detail)
  have "listed (crName cred) allowed (view (gwStore g))"
    using list_listed in_store_fst [OF 2(3)] assms(2) by metis
  then have "call_ok (dPolicy d) (crName cred) (toolNameOf msg) args dig (view (gwStore g))" for dig
    unfolding call_ok_def by (intro admissible_call_mono [OF standing_admission_admissible [OF 2(4), of False]]) auto
  then show ?thesis using 2(1,2) by blast
next
  case (3 args allowed g1 outside gid g2)
  have "view (gwStore g1) = view (gwStore g)" using list_view in_store_fst [OF 3(3)] assms(2) by metis
  moreover have "permitted (crName cred) (toolNameOf msg) (cbDigest (call_binding d msg args)) gid (view (gwStore g1))"
    using consume_permitted in_store_fst [OF 3(5)] assms(2) by metis
  ultimately have "call_ok (dPolicy d) (crName cred) (toolNameOf msg) args (cbDigest (call_binding d msg args)) (view (gwStore g))"
    by (auto simp: call_ok_def admissible_call_def)
  then show ?thesis using 3(1,2) by blast
qed

lemma sent_is_authorised:
  assumes "relay d r g = (resp, g')" "dStore d = st" "gwSent g' \<noteq> gwSent g"
  obtains cred up raw body msg s1 where
    "holder (dSha d (bearer (header_get (rqHeader r) ''Authorization''))) cred (view (gwStore g))"
    "view s1 = view (gwStore g)" "\<not> Expired cred (dNow d s1)" "\<not> gwDegraded g"
    "map_get (dUpstreams d) (rqName r) = Some up" "read_body maxRequestBody r = Some raw" "canonicalize raw = Inr (body, msg)"
    "sends ''POST'' up body g g'"
    "rpc_method msg \<in> {''initialize'', ''notifications/initialized'', ''tools/list'', ''tools/call''}"
    "rpc_method msg = ''tools/call'' \<Longrightarrow> \<exists>args. argumentsOf msg = Some args \<and> toolNameOf msg \<noteq> [] \<and>
       call_ok (dPolicy d) (crName cred) (toolNameOf msg) args (cbDigest (call_binding d msg args)) (view (gwStore g))"
  using assms(1)
proof (cases rule: relay_outcome)
  case 1
  then show thesis using assms(3) by simp
next
  case (2 cred att g1 up raw body msg)
  note a = authenticated [OF 2(1) assms(2)]
  have n: "gwSent g' \<noteq> gwSent g1" using assms(3) 2(2) by simp
  have "sends ''POST'' up body g g'" using dispatch_outcome(1) [OF 2(7)] 2(2) by (simp add: sends_def)
  moreover note dispatch_outcome(2) [OF 2(7) n]
  moreover from this have "rpc_method msg = ''tools/call'' \<Longrightarrow> \<exists>args. argumentsOf msg = Some args \<and> toolNameOf msg \<noteq> [] \<and>
       call_ok (dPolicy d) (crName cred) (toolNameOf msg) args (cbDigest (call_binding d msg args)) (view (gwStore g))"
    using call_sent_admissible [OF _ assms(2) n] a by metis
  ultimately show thesis using that a 2 by blast
qed

end

subsection \<open>The Postgres store\<close>

definition pg_gateway_store :: "world gateway_store" where
  "pg_gateway_store =
     \<lparr>gsCredentialByTokenHash = (\<lambda>h. pg_read (\<lambda>now d. CredentialByTokenHash h d)),
      gsToolAllowlist = (\<lambda>c. pg_read (\<lambda>now d. ToolAllowlist c d)),
      gsRecordToolAudit = (\<lambda>e. pg_write (\<lambda>now uuid d. RecordToolAudit e now d)),
      gsConsumeToolGrant = (\<lambda>c t dig. pg_write (\<lambda>now uuid d. ConsumeToolGrant c t dig now d)),
      gsActorFor = (\<lambda>c. pg_read (\<lambda>now d. ActorFor c now d)),
      gsLiveToolGrantSubjects = (\<lambda>c. pg_read (\<lambda>now d. LiveToolGrantSubjects c now d)),
      gsFileApprovalRequest = (\<lambda>f. pg_write (\<lambda>now uuid d. FileApprovalRequest f now uuid d))\<rparr>"

text \<open>All of the world but the faults to come: a read changes nothing else.\<close>

definition pg_view :: "world \<Rightarrow> world" where
  "pg_view w = w\<lparr>wfaults := []\<rparr>"

lemma pg_view_sel [simp]: "wdb (pg_view w) = wdb w" "wnow (pg_view w) = wnow w"
  by (simp_all add: pg_view_def)

lemma pg_viewD:
  assumes "pg_view w' = pg_view w"
  shows "w' = w\<lparr>wfaults := wfaults w'\<rparr>" "wdb w' = wdb w" "wnow w' = wnow w"
  using assms by (cases w; cases w'; simp add: pg_view_def)+

definition pg_holder :: "string \<Rightarrow> Credential \<Rightarrow> world \<Rightarrow> bool" where
  "pg_holder h c v \<longleftrightarrow> (\<exists>row \<in> set (credentials (wdb v)). crTokenHash row = h \<and> Credential.truncate row = c)"

definition pg_listed :: "string \<Rightarrow> string list \<Rightarrow> world \<Rightarrow> bool" where
  "pg_listed c ts v \<longleftrightarrow> (\<forall>t. t \<in> set ts \<longleftrightarrow> (c, t) \<in> set (tool_allowlist (wdb v)))"

definition pg_permitted :: "string \<Rightarrow> string \<Rightarrow> string \<Rightarrow> string \<Rightarrow> world \<Rightarrow> bool" where
  "pg_permitted c t dig gid v \<longleftrightarrow> (\<exists>gr \<in> set (permit_grant (wdb v)). grID gr = gid \<and>
     (exact_match c t dig (wnow v) gr \<or> legacy_match c t (wnow v) gr))"

lemma ConsumeToolGrant_permitted:
  "ConsumeToolGrant c t dig now d = (Inr (Some gid), d') \<Longrightarrow> wdb v = d \<Longrightarrow> wnow v = now \<Longrightarrow> pg_permitted c t dig gid (pg_view v)"
  by (auto simp: ConsumeToolGrant_def pg_permitted_def split: sum.splits
      elim!: consumeToolGrantLocked_outcome)

text \<open>What a lookup by token hash returns is a row of the view; no read changes the view.\<close>

lemma pg_read_view: "pg_read f s = (x, s') \<Longrightarrow> pg_view s' = pg_view s"
  by (auto simp: pg_read_def next_fault_def pg_view_def split: list.splits fault.splits prod.splits)

lemma pg_lookup_holder:
  assumes "pg_read (\<lambda>now d. CredentialByTokenHash h d) s = (Inr c, s')"
  shows "pg_holder h c (pg_view s)"
  using pg_read_Inr [OF assms]
  by (auto simp: CredentialByTokenHash_def pg_holder_def find_Some_iff split: option.splits)

interpretation pg_gateway: gateway_contract pg_gateway_store pg_view pg_holder pg_listed pg_permitted
proof
  fix h c t dig gid s s' and r :: "store_error + Credential" and a :: "store_error + Attribution" and l :: "store_error + string list" and ts
  show "gsCredentialByTokenHash pg_gateway_store h s = (r, s') \<Longrightarrow> pg_view s' = pg_view s"
    by (simp add: pg_gateway_store_def pg_read_view)
  show "gsActorFor pg_gateway_store c s = (a, s') \<Longrightarrow> pg_view s' = pg_view s"
    by (simp add: pg_gateway_store_def pg_read_view)
  show "gsToolAllowlist pg_gateway_store c s = (l, s') \<Longrightarrow> pg_view s' = pg_view s"
    by (simp add: pg_gateway_store_def pg_read_view)
  show "gsToolAllowlist pg_gateway_store c s = (Inr ts, s') \<Longrightarrow> pg_listed c ts (pg_view s)"
    by (auto simp: pg_gateway_store_def pg_listed_def ToolAllowlist_def image_iff split: if_splits dest!: pg_read_Inr)
  show "gsConsumeToolGrant pg_gateway_store c t dig s = (Inr (Some gid), s') \<Longrightarrow> pg_permitted c t dig gid (pg_view s)"
    by (auto simp: pg_gateway_store_def dest!: pg_write_Inr(1) ConsumeToolGrant_permitted)
next
  fix h c s s'
  show "gsCredentialByTokenHash pg_gateway_store h s = (Inr c, s') \<Longrightarrow> pg_holder h c (pg_view s)"
    by (simp add: pg_gateway_store_def pg_lookup_holder)
qed

end
