(* ===== verification/GatewayEval.thy ===== *)
theory GatewayEval
  imports GatewayFlow StoreEval
begin

text \<open>
  Evaluation of the gateway on a concrete request: one upstream, the small database of
  \<open>StoreEval\<close>, and a \<open>tools/call\<close> for the tool its grant is for.
\<close>

definition gw_up :: ToolUpstream where
  "gw_up = \<lparr>tuURL = ''http://erp'', tuCredentialFile = [], tuCredentialHeader = [], tuInternet = False,
     tuCAFile = [], tuExtraHeaders = [], tuTools = []\<rparr>"

definition gw_deps :: "PolicySet \<Rightarrow> world Deps" where
  "gw_deps p = \<lparr>dStore = pg_gateway_store, dUpstreams = [(''erp'', gw_up)], dPolicy = p, dHasInternetClient = False,
     dSend = (\<lambda>out w. (Inr \<lparr>urStatus = 200, urHeader = [], urBody = ''ok'', urCut = None\<rparr>, w)),
     dBadURL = (\<lambda>u. None), dReadFile = (\<lambda>f w. None), dNow = wnow,
     dSha = (\<lambda>s. if s = ''tok'' then ''h'' else [CHR 0xDD]), dUprint = (\<lambda>c. True),
     dCodec = \<lparr>cdRPC = (\<lambda>s. None), cdTools = (\<lambda>j. None), cdToolName = (\<lambda>j. None)\<rparr>\<rparr>"

lemma gw_deps_sel [simp]:
  "dStore (gw_deps p) = pg_gateway_store" "dPolicy (gw_deps p) = p" "dUpstreams (gw_deps p) = [(''erp'', gw_up)]"
  by (simp_all add: gw_deps_def)

definition gw_start :: "db \<Rightarrow> world gw" where
  "gw_start d = \<lparr>gwStore = \<lparr>wdb = d, wnow = 3, wuuid = (\<lambda>i. demo_uuid), wnext = 0, wfaults = []\<rparr>,
     gwDegraded = False, gwSent = [], gwDecisions = []\<rparr>"

definition gw_request :: "string \<Rightarrow> Request" where
  "gw_request body = \<lparr>rqName = ''erp'', rqHeader = [(''Authorization'', [''Bearer tok''])], rqBody = body, rqBroken = False\<rparr>"

definition pay_body :: string where
  "pay_body = ''{\"id\":1,\"method\":\"tools/call\",\"params\":{\"arguments\":{\"amount\":7},\"name\":\"pay\"}}''"

definition pay_msg :: "json gomap" where
  "pay_msg = [(''id'', JNum ''1''), (''method'', JStr ''tools/call''),
     (''params'', JObj [(''arguments'', JObj [(''amount'', JNum ''7'')]), (''name'', JStr ''pay'')])]"

lemma pay_canonical: "canonicalize pay_body = Inr (pay_body, pay_msg)"
  unfolding pay_body_def
  by (rule canonicalize_run [where ms = pay_msg])
     (simp_all add: pay_msg_def lex_eval render_eval Canon.admissible_def maxCanonDepth_def maxCanonNodes_def)

definition no_policy :: PolicySet where
  "no_policy = \<lparr>declared = [], constraints = []\<rparr>"

lemma gw_auth:
  assumes "crTokenHash c = ''h''" "credentials d = [c]" "crExpiresAt c = Some 100" "agent_run d = []" "pg_text_ok (crName c)"
  shows "authenticate (gw_deps p) (gw_request body) (gw_start d) = (Inr (Credential.truncate c, Unattributed), gw_start d)"
  using assms
  by (simp add: authenticate_def gw_deps_def gw_request_def gw_start_def bearer_def header_get_def canonical_key_def
     header_byte_def map_get_def cut_prefix_def in_store_def pg_gateway_store_def pg_read_def next_fault_def
     CredentialByTokenHash_def ActorFor_def actor_or_lost_def Expired_def go_defs Credential.truncate_def)

lemma pay_eval:
  "toolNameOf pay_msg = ''pay''" "argumentsOf pay_msg = Some [(''amount'', JNum ''7'')]" "rpc_method pay_msg = ''tools/call''"
  "rawID pay_msg = Some (JNum ''1'')"
  by (simp_all add: pay_msg_def toolNameOf_def argumentsOf_def rpc_method_def rawID_def map_get_def)

lemma pay_binding:
  "cbDigest (Bind (dSha (gw_deps no_policy)) (dUprint (gw_deps no_policy)) ''pay'' [(''amount'', JNum ''7'')] [] False) = ''dd''"
  by (simp add: Bind_def gw_deps_def bind_payload_def bound_args_def marshalCanonical_def hex_encode_def hex_byte_def hex_digit_def char_of_def bit_0)

lemma pay_call_binding:
  "cbDigest (call_binding (gw_deps no_policy) pay_msg [(''amount'', JNum ''7'')]) = ''dd''"
proof -
  have "Declared (dPolicy (gw_deps no_policy)) ''pay'' = ([], False)"
    by (simp add: Declared_def gw_deps_def no_policy_def map_get_def)
  then show ?thesis by (simp add: call_binding_def pay_eval pay_binding)
qed

lemma forward_ok:
  "forward (gw_deps p) (gw_request body) gw_up b g =
    ((\<lparr>rpStatus = 200, rpHeader = [], rpBody = ''ok''\<rparr>, \<lparr>ocStatus = 200, ocNote = [], ocRefused = False\<rparr>),
     g\<lparr>gwSent := gwSent g @ [\<lparr>obURL = ''http://erp'', obMethod = ''POST'', obHeader = [], obBody = b, obHardened = False\<rparr>]\<rparr>)"
  by (simp add: forward_def gw_do_def do_request_def gw_deps_def gw_request_def gw_up_def injectCredential_def clientFor_def
      send_outbound_def in_store_def copyRequestHeaders_def canonical_key_def header_byte_def withheld_def answer_of_def redirected_def
      is_event_stream_def header_get_def map_get_def read_buffered_def maxBufferedResp_def relay_headers_def
      copyResponseHeaders_def header_del_def go_defs)

lemma gw_start_sel [simp]:
  "gwSent (gw_start d) = []" "gwDegraded (gw_start d) = False" "gwDecisions (gw_start d) = []"
  "wdb (gwStore (gw_start d)) = d" "wnow (gwStore (gw_start d)) = 3" "wfaults (gwStore (gw_start d)) = []"
  "wuuid (gwStore (gw_start d)) = (\<lambda>i. demo_uuid)" "wnext (gwStore (gw_start d)) = 0"
  by (simp_all add: gw_start_def)

lemma demo_name: "crName (Credential.truncate demo_cred) = ''bot''"
  by (simp add: demo_cred_def Credential.truncate_def)

lemma pay_call_sent:
  "gwSent (snd (tools_call (gw_deps no_policy) (gw_request pay_body) Unattributed (Credential.truncate demo_cred) gw_up
      pay_body pay_msg (gw_start demo_approved))) =
     [\<lparr>obURL = ''http://erp'', obMethod = ''POST'', obHeader = [], obBody = pay_body, obHardened = False\<rparr>]"
proof -
  have al: "in_store (gsToolAllowlist pg_gateway_store ''bot'') (gw_start demo_approved) = (Inr [], gw_start demo_approved)"
    by (simp add: in_store_def gw_deps_def pg_gateway_store_def pg_read_def next_fault_def gw_start_def ToolAllowlist_def
        ascii_text_ok demo_defs)
  have cons: "in_store (gsConsumeToolGrant pg_gateway_store ''bot'' ''pay'' ''dd'') (gw_start demo_approved) =
      (Inr (Some demo_uuid), (gw_start demo_approved)\<lparr>gwStore := (gwStore (gw_start demo_approved))\<lparr>wdb := burn_use demo_uuid demo_approved, wnext := 1\<rparr>\<rparr>)"
    by (simp add: in_store_def gw_deps_def pg_gateway_store_def pg_write_def next_fault_def gw_start_def demo_consumes)
  have sa: "standing_admission no_policy ''bot'' ''pay'' args [] = NotAdmitted []" for args
    by (simp add: standing_admission_def gw_deps_def no_policy_def Constraints_def map_get_def)
  have de: "Declared no_policy ''pay'' = ([], False)"
    by (simp add: Declared_def gw_deps_def no_policy_def map_get_def)
  show ?thesis
    by (simp add: pay_eval tools_call_def Let_def de allowlist_def al demo_name sa pay_binding cons call_admitted_def forward_ok)
qed

lemma gw_reaches_dispatch:
  assumes "canonicalize body = Inr (body, msg)" "length body < 4194304" "hd (trim_space body) = CHR ''{''"
  shows "relay (gw_deps p) (gw_request body) (gw_start demo_approved) =
    dispatch (gw_deps p) (gw_request body) Unattributed (Credential.truncate demo_cred) gw_up body msg (gw_start demo_approved)"
proof -
  have a: "authenticate (gw_deps p) (gw_request body) (gw_start demo_approved) =
      (Inr (Credential.truncate demo_cred, Unattributed), gw_start demo_approved)"
    by (rule gw_auth) (simp_all add: demo_defs ascii_text_ok)
  have "map_get (dUpstreams (gw_deps p)) (rqName (gw_request body)) = Some gw_up"
    by (simp add: gw_deps_def gw_request_def map_get_def)
  moreover have "read_body maxRequestBody (gw_request body) = Some body"
    using assms(2) by (simp add: read_body_def gw_request_def maxRequestBody_def)
  ultimately show ?thesis using assms(1,3) by (simp add: relay_def a)
qed

lemma pay_sent:
  "gwSent (snd (relay (gw_deps no_policy) (gw_request pay_body) (gw_start demo_approved))) =
     [\<lparr>obURL = ''http://erp'', obMethod = ''POST'', obHeader = [], obBody = pay_body, obHardened = False\<rparr>]"
proof -
  have "length pay_body < 4194304" "hd (trim_space pay_body) = CHR ''{''"
    by (simp_all add: pay_body_def trim_space_def space_rune_def go_defs)
  then show ?thesis
    by (simp add: gw_reaches_dispatch [OF pay_canonical] dispatch_def pay_eval pay_call_sent)
qed

lemma char_of_zero: "char_of (0::nat) = CHR 0x00"
  by (simp add: char_of_def)

end
