(* ===== verification/GatewayProps.thy ===== *)
theory GatewayProps
  imports GatewayEval
begin

text \<open>
  What the enforcing gateway guarantees: nothing leaves unauthorised, a constraint bounds the
  allowlist, a forwarded call leaves its audit row and a denied one its filing, the breaker
  follows the last write, the upstream sees the plane's credential only, listings are cut to
  what is callable, and an answer is never truncated silently.
\<close>

definition pg_admissible :: "PolicySet \<Rightarrow> string \<Rightarrow> string \<Rightarrow> json gomap \<Rightarrow> string \<Rightarrow> world \<Rightarrow> bool" where
  "pg_admissible p cred tool args dig w \<longleftrightarrow> admissible_call p cred tool args
     ((cred, tool) \<in> set (tool_allowlist (wdb w)))
     (\<exists>gr \<in> set (permit_grant (wdb w)). exact_match cred tool dig (wnow w) gr \<or> legacy_match cred tool (wnow w) gr)"

lemma pg_call_ok:
  "pg_gateway.call_ok p cred tool args dig (pg_view w) \<Longrightarrow> pg_admissible p cred tool args dig w"
  unfolding pg_gateway.call_ok_def pg_admissible_def
  by (erule admissible_call_mono) (auto simp: pg_listed_def pg_permitted_def)

text \<open>
  C1: whatever leaves the gateway on a POST is one message, the canonical bytes of the request,
  to the upstream the table holds under the request's name, with the client the table asks for,
  for a credential whose token hash is the one presented and that is not expired by the clock of
  the request (read in the same world, but for the faults of the connection met by then), while the
  audit breaker is closed; and when it is a tools/call, the call is inside a standing constraint, or on the
  allowlist of a tool without one, or covered by a live grant for exactly its digest.
\<close>

theorem every_forwarded_message_is_authorised:
  assumes "relay d r g = (resp, g')" "dStore d = pg_gateway_store" "gwSent g' \<noteq> gwSent g"
  shows "\<exists>row cred fs up body msg out. row \<in> set (credentials (wdb (gwStore g))) \<and>
    crTokenHash row = dSha d (bearer (header_get (rqHeader r) ''Authorization'')) \<and> cred = Credential.truncate row \<and>
    \<not> Expired cred (dNow d ((gwStore g)\<lparr>wfaults := fs\<rparr>)) \<and> \<not> gwDegraded g \<and>
    map_get (dUpstreams d) (rqName r) = Some up \<and> canonicalize (rqBody r) = Inr (body, msg) \<and>
    gwSent g' = gwSent g @ [out] \<and> obURL out = tuURL up \<and> obBody out = body \<and> obHardened out = tuInternet up \<and>
    rpc_method msg \<in> {''initialize'', ''notifications/initialized'', ''tools/list'', ''tools/call''} \<and>
    (rpc_method msg = ''tools/call'' \<longrightarrow> (\<exists>args. argumentsOf msg = Some args \<and> toolNameOf msg \<noteq> [] \<and>
       pg_admissible (dPolicy d) (crName cred) (toolNameOf msg) args (cbDigest (call_binding d msg args)) (gwStore g)))"
  using assms
proof (cases rule: pg_gateway.sent_is_authorised)
  case (1 cred up raw body msg s1)
  obtain row where row: "row \<in> set (credentials (wdb (gwStore g)))"
    "crTokenHash row = dSha d (bearer (header_get (rqHeader r) ''Authorization''))" "Credential.truncate row = cred"
    using 1(1) by (auto simp: pg_holder_def)
  have raw: "raw = rqBody r" using 1(6) by (auto simp: read_body_def split: if_splits)
  obtain out where out: "gwSent g' = gwSent g @ [out]" "obURL out = tuURL up" "obBody out = body" "obHardened out = tuInternet up"
    using 1(8) assms(3) by (auto simp: sends_def)
  have "rpc_method msg = ''tools/call'' \<longrightarrow> (\<exists>args. argumentsOf msg = Some args \<and> toolNameOf msg \<noteq> [] \<and>
       pg_admissible (dPolicy d) (crName cred) (toolNameOf msg) args (cbDigest (call_binding d msg args)) (gwStore g))"
    using 1(10) pg_call_ok by blast
  moreover have "\<not> Expired cred (dNow d ((gwStore g)\<lparr>wfaults := wfaults s1\<rparr>))"
    using 1(3) by (subst pg_viewD(1) [OF 1(2), symmetric])
  ultimately show ?thesis using 1(4,5,7,9) row raw out by blast
qed

theorem every_forwarded_message_is_authorised_witness:
  "pg_admissible no_policy ''bot'' ''pay'' [(''amount'', JNum ''7'')] ''dd'' (gwStore (gw_start demo_approved))"
proof -
  obtain resp g' where r: "relay (gw_deps no_policy) (gw_request pay_body) (gw_start demo_approved) = (resp, g')" by fastforce
  have "gwSent g' \<noteq> gwSent (gw_start demo_approved)" using pay_sent unfolding r by simp
  from every_forwarded_message_is_authorised [OF r _ this]
  obtain row args where "row \<in> set (credentials demo_approved)" "argumentsOf pay_msg = Some args"
    "pg_admissible (dPolicy (gw_deps no_policy)) (crName (Credential.truncate row)) (toolNameOf pay_msg) args
       (cbDigest (call_binding (gw_deps no_policy) pay_msg args)) (gwStore (gw_start demo_approved))"
    by (auto simp: pay_canonical pay_eval gw_request_def gw_deps_def)
  moreover have "crName (Credential.truncate row) = ''bot''" if "row \<in> set (credentials demo_approved)" for row
    using that by (simp add: demo_defs Credential.truncate_def)
  moreover have "dPolicy (gw_deps no_policy) = no_policy" by (simp add: gw_deps_def)
  ultimately show ?thesis using pay_eval pay_call_binding by auto
qed

subsection \<open>The audit trail\<close>

definition row_of :: "ToolAuditEntry \<Rightarrow> Attribution \<Rightarrow> ToolAuditEntry \<Rightarrow> bool" where
  "row_of e att row \<longleftrightarrow> taCredentialName row = taCredentialName e \<and> taUpstream row = taUpstream e \<and>
     taMethod row = taMethod e \<and> taTool row = taTool e \<and> taDecision row = taDecision e \<and>
     taStatus row = taStatus e \<and> taDetail row = taDetail e \<and> taArgDigest row = taArgDigest e \<and>
     taArgSummary row = taArgSummary e \<and> taActedFor row = actedFor (atActedFor att)"

lemma RecordToolAudit_row:
  assumes "RecordToolAudit (e\<lparr>taActedFor := atActedFor att, taRunID := atRunID att\<rparr>) now d = (Inr u, d')"
  obtains row where "row_of e att row" "d' = d\<lparr>tool_audit := tool_audit d @ [row]\<rparr>"
proof -
  obtain run where "d' = d\<lparr>tool_audit := tool_audit d @
      [e\<lparr>taActedFor := actedFor (atActedFor att), taCreatedAt := now, taRunID := run\<rparr>]\<rparr>"
    using assms by (auto simp: RecordToolAudit_def insert_tool_audit_def split: if_splits option.splits sum.splits)
  then show thesis by (intro that [of "e\<lparr>taActedFor := actedFor (atActedFor att), taCreatedAt := now, taRunID := run\<rparr>"])
      (simp_all add: row_of_def)
qed

lemma pg_audit:
  assumes "dStore d = pg_gateway_store"
  obtains "gwDegraded (audit d att e g)"
  | row where "row_of e att row" "\<not> gwDegraded (audit d att e g)"
      "wdb (gwStore (audit d att e g)) = (wdb (gwStore g))\<lparr>tool_audit := tool_audit (wdb (gwStore g)) @ [row]\<rparr>"
proof -
  obtain res w where w: "pg_write (\<lambda>now uuid. RecordToolAudit (e\<lparr>taActedFor := atActedFor att, taRunID := atRunID att\<rparr>) now) (gwStore g) = (res, w)"
    by fastforce
  have a: "audit d att e g = g\<lparr>gwStore := w, gwDegraded := (\<exists>x. res = Inl x)\<rparr>"
    using w assms by (auto simp: audit_def in_store_def pg_gateway_store_def split: sum.splits)
  show thesis
  proof (cases res)
    case (Inl x)
    then show thesis using that(1) a by simp
  next
    case (Inr u)
    from pg_write_Inr(1) [OF w [unfolded this]] obtain row where "row_of e att row"
      "wdb w = (wdb (gwStore g))\<lparr>tool_audit := tool_audit (wdb (gwStore g)) @ [row]\<rparr>"
      by (rule RecordToolAudit_row)
    then show thesis using that(2) a Inr by simp
  qed
qed

lemma pg_audit_requests:
  assumes "dStore d = pg_gateway_store"
  shows "approval_request (wdb (gwStore (audit d att e g))) = approval_request (wdb (gwStore g))"
proof -
  let ?e = "e\<lparr>taActedFor := atActedFor att, taRunID := atRunID att\<rparr>"
  obtain res w where w: "pg_write (\<lambda>now uuid. RecordToolAudit ?e now) (gwStore g) = (res, w)"
    by fastforce
  have "approval_request d' = approval_request db" if "RecordToolAudit ?e now db = (x, d')" for x d' now db
    using that by (auto simp: RecordToolAudit_def insert_tool_audit_def split: sum.splits if_splits option.splits)
  then have "approval_request (wdb w) = approval_request (wdb (gwStore g))" using pg_write_cases [OF w] by auto
  then show ?thesis using w assms
    by (auto simp: audit_def in_store_def pg_gateway_store_def split: sum.splits)
qed

lemma nul_row_trips:
  assumes "dStore d = pg_gateway_store" "CHR 0x00 \<in> set (taMethod e) \<or> CHR 0x00 \<in> set (taTool e)"
  shows "gwDegraded (audit d att e g)"
  using assms(1)
proof (cases rule: pg_audit [of d att e g])
  case (2 row)
  have "\<not> texts_ok [taCredentialName e, taUpstream e, taMethod e, taTool e, taDecision e, taDetail e,
          taArgDigest e, taArgSummary e, x]" for x
    using assms(2) by (auto simp: texts_ok_def pg_text_ok_def)
  then have "RecordToolAudit (e\<lparr>taActedFor := atActedFor att, taRunID := atRunID att\<rparr>) now db = (Inl (ErrPg bad_text), db)" for now db
    by (simp add: RecordToolAudit_def insert_tool_audit_def)
  then have "gwDegraded (audit d att e g)"
    using assms(1) by (auto simp: audit_def in_store_def pg_gateway_store_def pg_write_def next_fault_def
        split: sum.splits list.splits fault.splits prod.splits)
  then show ?thesis .
qed simp

text \<open>
  C24: every tools/call that left the gateway has an audit row saying so, with the credential,
  the upstream, the tool, whom the call was made for and the digest and summary that were
  decided on; otherwise the breaker is open.
\<close>

theorem a_forwarded_call_leaves_its_row:
  assumes "tools_call d r att cred up body msg g = (resp, g')" "dStore d = pg_gateway_store" "gwSent g' \<noteq> gwSent g"
  shows "gwDegraded g' \<or> (\<exists>args. argumentsOf msg = Some args \<and>
    (\<exists>row \<in> set (tool_audit (wdb (gwStore g'))). taCredentialName row = crName cred \<and> taUpstream row = rqName r \<and>
       taMethod row = ''tools/call'' \<and> taTool row = toolNameOf msg \<and> taDecision row = ''allowed'' \<and>
       taArgDigest row = cbDigest (call_binding d msg args) \<and> taArgSummary row = cbSummary (call_binding d msg args) \<and>
       taActedFor row = actedFor (atActedFor att)))"
proof -
  have fin: ?thesis if c: "call_admitted d r att cred up body (toolNameOf msg) (call_binding d msg args) detail h = (resp, g')"
    and a: "argumentsOf msg = Some args" for args detail h
  proof -
    obtain status detail2 g1 where g': "g' = audit d att (tool_entry cred (rqName r) ''tools/call'' (toolNameOf msg) ''allowed''
        status detail2 (cbDigest (call_binding d msg args)) (cbSummary (call_binding d msg args))) g1"
      using c by (auto simp: call_admitted_def Let_def split: prod.splits)
    let ?e = "tool_entry cred (rqName r) ''tools/call'' (toolNameOf msg) ''allowed''
        status detail2 (cbDigest (call_binding d msg args)) (cbSummary (call_binding d msg args))"
    show ?thesis
      using assms(2)
    proof (cases rule: pg_audit [of d att ?e g1])
      case 1
      then show ?thesis by (simp add: g')
    next
      case (2 row)
      then show ?thesis unfolding g' using a by (intro disjI2 exI [of _ args] conjI bexI [of _ row]) (simp_all add: row_of_def tool_entry_def)
    qed
  qed
  from assms(1) show ?thesis
    by (cases rule: tools_call_outcome) (use assms(3) fin in \<open>auto\<close>)
qed

theorem a_forwarded_call_leaves_its_row_witness:
  "\<exists>resp g'. tools_call (gw_deps no_policy) (gw_request pay_body) Unattributed (Credential.truncate demo_cred) gw_up
      pay_body pay_msg (gw_start demo_approved) = (resp, g') \<and>
    (gwDegraded g' \<or> (\<exists>row \<in> set (tool_audit (wdb (gwStore g'))). taTool row = ''pay'' \<and> taArgDigest row = ''dd''))"
proof -
  obtain resp g' where r: "tools_call (gw_deps no_policy) (gw_request pay_body) Unattributed (Credential.truncate demo_cred) gw_up
      pay_body pay_msg (gw_start demo_approved) = (resp, g')" by fastforce
  have "gwSent g' \<noteq> gwSent (gw_start demo_approved)" using pay_call_sent unfolding r by simp
  from a_forwarded_call_leaves_its_row [OF r _ this]
  have "gwDegraded g' \<or> (\<exists>row \<in> set (tool_audit (wdb (gwStore g'))). taTool row = ''pay'' \<and> taArgDigest row = ''dd'')"
    by (auto simp: pay_eval pay_call_binding)
  then show ?thesis using r by blast
qed

subsection \<open>Denied calls\<close>

lemma pg_filing:
  assumes "fileRequest d f g = (True, g')" "dStore d = pg_gateway_store"
  shows "\<exists>q \<in> set (approval_request (wdb (gwStore g'))). arStatus q = ''pending'' \<and> arCredentialName q = fiCredential f \<and>
    arKind q = fiKind f \<and> arSubject q = fiSubject f \<and> arArgDigest q = fiArgDigest f"
proof -
  obtain b w where "pg_write (\<lambda>now uuid. FileApprovalRequest f now uuid) (gwStore g) = (Inr b, w)" "g' = g\<lparr>gwStore := w\<rparr>"
    using assms by (auto simp: fileRequest_def in_store_def pg_gateway_store_def split: prod.splits sum.splits)
  moreover from pg_write_Inr(1) [OF this(1)] obtain x where
    "FileRequest f (wnow (gwStore g)) (wuuid (gwStore g) (wnext (gwStore g))) (wdb (gwStore g)) = (Inr x, wdb w)"
    by (auto simp: FileApprovalRequest_def split: prod.splits sum.splits)
  ultimately show ?thesis
    by (auto elim!: FileRequest_outcome simp: list_ex_iff same_pending_def request_of_def)
qed

text \<open>
  C9: a tools/call outside its standing constraint, or off the allowlist, for which no live
  grant of its digest or verb-level grant is there is not sent. It is answered with the error,
  or with an empty 202 when it carries no id; the error promises a filed request only when a
  pending request with the credential, the tool and the digest of this very call is in the
  database, and the audit row has the same text and digest unless the breaker is open.
\<close>

theorem a_denied_call_is_filed_as_it_was_denied:
  assumes "tools_call d r att cred up body msg g = (resp, g')" "dStore d = pg_gateway_store"
    and "argumentsOf msg = Some args" "toolNameOf msg \<noteq> []"
    and "in_store (gsToolAllowlist (dStore d) (crName cred)) g = (Inr allowed, g1)"
    and "standing_admission (dPolicy d) (crName cred) (toolNameOf msg) args allowed = NotAdmitted outside"
    and "in_store (gsConsumeToolGrant (dStore d) (crName cred) (toolNameOf msg) (cbDigest (call_binding d msg args))) g1 = (Inr None, g2)"
  shows "gwSent g' = gwSent g \<and> (\<exists>filed. let said = deny_message outside @ (if filed then filed_note else []) in
    resp = (case rawID msg of None \<Rightarrow> accepted | Some i \<Rightarrow> writeRPC 200 [] (rpc_error i codeToolNotPermitted said)) \<and>
    (filed \<longrightarrow> (\<exists>q \<in> set (approval_request (wdb (gwStore g'))). arStatus q = ''pending'' \<and>
       arCredentialName q = crName cred \<and> arKind q = ''tool'' \<and> arSubject q = toolNameOf msg \<and>
       arArgDigest q = cbDigest (call_binding d msg args))) \<and>
    (gwDegraded g' \<or> (\<exists>row \<in> set (tool_audit (wdb (gwStore g'))). taCredentialName row = crName cred \<and>
       taTool row = toolNameOf msg \<and> taDecision row = ''denied'' \<and> taDetail row = said \<and>
       taArgDigest row = cbDigest (call_binding d msg args))))"
proof -
  let ?b = "call_binding d msg args"
  obtain fs isd where decl: "Declared (dPolicy d) (toolNameOf msg) = (fs, isd)" by fastforce
  have b: "Bind (dSha d) (dUprint d) (toolNameOf msg) args fs isd = ?b" by (simp add: call_binding_def decl)
  have "deny_and_pend d r att cred (toolNameOf msg) ?b (rawID msg) outside g2 = (resp, g')"
    using assms(1,3-7) by (simp add: tools_call_def Let_def decl b allowlist_def)
  then obtain filed g3 where f: "fileRequest d \<lparr>fiCredential = crName cred, fiKind = ''tool'', fiSubject = toolNameOf msg,
        fiDetail = ''denied tools/call via upstream '' @ rqName r, fiArgDigest = cbDigest ?b, fiArgSummary = cbSummary ?b\<rparr> g2 = (filed, g3)"
    and o: "rpcDenyCall d att cred (rqName r) ''tools/call'' (toolNameOf msg) (cbDigest ?b) (cbSummary ?b) (rawID msg)
        codeToolNotPermitted (deny_message outside @ (if filed then filed_note else [])) g3 = (resp, g')"
    by (auto simp: deny_and_pend_def split: prod.splits)
  let ?said = "deny_message outside @ (if filed then filed_note else [])"
  let ?e = "tool_entry cred (rqName r) ''tools/call'' (toolNameOf msg) ''denied'' 403 ?said (cbDigest ?b) (cbSummary ?b)"
  have g': "g' = Decide Denied (reasonFor 403 ?said) (audit d att ?e g3)"
    and resp: "resp = (case rawID msg of None \<Rightarrow> accepted | Some i \<Rightarrow> writeRPC 200 [] (rpc_error i codeToolNotPermitted ?said))"
    using o by (auto simp: rpcDenyCall_def)
  have q: "\<exists>q \<in> set (approval_request (wdb (gwStore g'))). arStatus q = ''pending'' \<and>
       arCredentialName q = crName cred \<and> arKind q = ''tool'' \<and> arSubject q = toolNameOf msg \<and>
       arArgDigest q = cbDigest ?b" if "filed"
  proof -
    have "approval_request (wdb (gwStore g')) = approval_request (wdb (gwStore g3))"
      using pg_audit_requests [OF assms(2)] by (simp add: g')
    then show ?thesis using pg_filing [OF _ assms(2)] f that by fastforce
  qed
  have sent: "gwSent g' = gwSent g"
    using f in_store_sent [OF assms(5)] in_store_sent [OF assms(7)]
    by (auto simp: g' fileRequest_def split: prod.splits sum.splits dest: in_store_sent)
  have row: "gwDegraded g' \<or> (\<exists>row \<in> set (tool_audit (wdb (gwStore g'))). taCredentialName row = crName cred \<and>
       taTool row = toolNameOf msg \<and> taDecision row = ''denied'' \<and> taDetail row = ?said \<and> taArgDigest row = cbDigest ?b)"
    using assms(2) by (cases rule: pg_audit [of d att ?e g3]) (auto simp: g' row_of_def tool_entry_def)
  show ?thesis using sent resp q row unfolding Let_def by blast
qed

theorem a_denied_call_is_filed_as_it_was_denied_witness:
  "\<exists>resp g'. tools_call (gw_deps no_policy) (gw_request pay_body) Unattributed (Credential.truncate demo_cred) gw_up
      pay_body pay_msg (gw_start demo_pending) = (resp, g') \<and> gwSent g' = []"
proof -
  obtain resp g' where r: "tools_call (gw_deps no_policy) (gw_request pay_body) Unattributed (Credential.truncate demo_cred) gw_up
      pay_body pay_msg (gw_start demo_pending) = (resp, g')" by fastforce
  have al: "in_store (gsToolAllowlist pg_gateway_store ''bot'') (gw_start demo_pending) = (Inr [], gw_start demo_pending)"
    by (simp add: in_store_def pg_gateway_store_def pg_read_def next_fault_def gw_start_def ToolAllowlist_def
        ascii_text_ok demo_defs)
  have "ConsumeToolGrant ''bot'' ''pay'' ''dd'' 3 demo_pending = (Inr None, demo_pending)"
    by (simp add: ConsumeToolGrant_def consumeToolGrantLocked_def lockCredential_def texts_ok_ascii ascii_text_ok
        oldest_def demo_defs)
  then obtain g2 where co: "in_store (gsConsumeToolGrant pg_gateway_store ''bot'' ''pay'' ''dd'') (gw_start demo_pending) = (Inr None, g2)"
    by (simp add: in_store_def pg_gateway_store_def pg_write_def next_fault_def gw_start_def)
  have sa: "standing_admission no_policy ''bot'' ''pay'' args [] = NotAdmitted []" for args
    by (simp add: standing_admission_def no_policy_def Constraints_def map_get_def)
  have "gwSent g' = gwSent (gw_start demo_pending)"
    using a_denied_call_is_filed_as_it_was_denied [OF r _ pay_eval(2)] al co sa
    by (simp add: pay_eval demo_name pay_call_binding)
  then show ?thesis using r by simp
qed

subsection \<open>The breaker\<close>

text \<open>
  A message whose method is not relayed and holds a NUL, which JSON text can carry and a
  Postgres text cannot, makes the audit row of its own denial fail: it opens the breaker, and
  the next message of every other credential is refused and not sent, whatever it is.
\<close>

theorem a_nul_method_denies_the_next_caller:
  assumes "relay d r g = (resp, g')" "dStore d = pg_gateway_store"
    and "authenticate d r g = (Inr (cred, att), g1)" "map_get (dUpstreams d) (rqName r) = Some up" "\<not> gwDegraded g"
    and "read_body maxRequestBody r = Some raw" "canonicalize raw = Inr (body, msg)"
    and "hd (trim_space raw) \<noteq> CHR ''[''" "CHR 0x00 \<in> set (rpc_method msg)"
    and "relay d r2 g' = (resp2, g2)"
  shows "gwDegraded g' \<and> gwSent g' = gwSent g \<and> gwSent g2 = gwSent g"
proof -
  have "\<not> gwDegraded g1" using pg_gateway.authenticated [OF assms(3,2)] assms(5) by simp
  then have "dispatch d r att cred up body msg g1 = (resp, g')"
    using assms(1,3,4,6-8) by (simp add: relay_def)
  moreover have "rpc_method msg \<notin> {''initialize'', ''notifications/initialized'', ''ping'', ''tools/list'', ''tools/call''}"
    using assms(9) by auto
  ultimately have deny: "rpcDeny d att cred (rqName r) (rpc_method msg) [] (rawID msg) codeMethodNotAllowed
      ''method not relayed by the Kaimahi gateway (tools only)'' g1 = (resp, g')"
    by (simp add: dispatch_def Let_def)
  have deg: "gwDegraded g'" using deny nul_row_trips [OF assms(2)] assms(9)
    by (auto simp: rpcDeny_def rpcDenyCall_def tool_entry_def)
  have "gwSent g' = gwSent g"
    using deny_sent(3) [OF deny] authenticate_sent [OF assms(3)] by simp
  moreover have "gwSent g2 = gwSent g'"
  proof (rule ccontr)
    assume "gwSent g2 \<noteq> gwSent g'"
    with assms(10,2) show False by (rule pg_gateway.sent_is_authorised) (use deg in simp)
  qed
  ultimately show ?thesis using deg by simp
qed

definition nul_body :: string where
  "nul_body = ''{\"id\":1,\"method\":\"'' @ [CHR 0x5C] @ ''u0000\"}''"

lemma nul_canonical:
  "canonicalize nul_body = Inr (nul_body, [(''id'', JNum ''1''), (''method'', JStr [CHR 0x00])])"
  unfolding nul_body_def
  by (rule canonicalize_run [where ms = "[(''id'', JNum ''1''), (''method'', JStr [CHR 0x00])]"])
     (simp_all add: lex_eval char_of_zero escape_rune_def encode_rune_def is_surrogate_def render_eval Canon.admissible_def maxCanonDepth_def maxCanonNodes_def)

theorem a_nul_method_denies_the_next_caller_witness:
  "gwDegraded (snd (relay (gw_deps no_policy) (gw_request nul_body) (gw_start demo_approved))) \<and>
   gwSent (snd (relay (gw_deps no_policy) (gw_request pay_body)
     (snd (relay (gw_deps no_policy) (gw_request nul_body) (gw_start demo_approved))))) = []"
proof -
  obtain resp g' where r: "relay (gw_deps no_policy) (gw_request nul_body) (gw_start demo_approved) = (resp, g')" by fastforce
  obtain resp2 g2 where r2: "relay (gw_deps no_policy) (gw_request pay_body) g' = (resp2, g2)" by fastforce
  have a: "authenticate (gw_deps no_policy) (gw_request nul_body) (gw_start demo_approved) =
      (Inr (Credential.truncate demo_cred, Unattributed), gw_start demo_approved)"
    by (rule gw_auth) (simp_all add: demo_defs ascii_text_ok)
  have u: "map_get (dUpstreams (gw_deps no_policy)) (rqName (gw_request nul_body)) = Some gw_up"
    by (simp add: gw_request_def map_get_def)
  have b: "read_body maxRequestBody (gw_request nul_body) = Some nul_body" "hd (trim_space nul_body) \<noteq> CHR ''[''"
    by (simp_all add: read_body_def gw_request_def maxRequestBody_def nul_body_def trim_space_def space_rune_def go_defs)
  from a_nul_method_denies_the_next_caller [OF r _ a u _ b(1) nul_canonical b(2) _ r2]
  show ?thesis using r r2 by (simp add: rpc_method_def map_get_def)
qed

subsection \<open>Credentials\<close>

lemma to_lower_canonical_chars: "to_lower (canonical_chars up k) = to_lower k"
  by (induction k arbitrary: up) (auto simp: to_lower_def lower_char_def is_lower_def is_upper_def)

lemma to_lower_canonical_key: "to_lower (canonical_key k) = to_lower k"
  by (simp add: canonical_key_def to_lower_canonical_chars)

lemma canonical_authorization: "canonical_key ''Authorization'' = ''Authorization''"
  by (simp add: canonical_key_def header_byte_def go_defs)

lemma not_authorization:
  "\<not> equal_fold k ''authorization'' \<Longrightarrow> canonical_key k \<noteq> ''Authorization''"
proof
  assume "\<not> equal_fold k ''authorization''" "canonical_key k = ''Authorization''"
  moreover from this(2) have "to_lower k = to_lower ''Authorization''" using to_lower_canonical_key [of k] by simp
  ultimately show False by (simp add: equal_fold_def to_lower_def lower_char_def go_defs char_of_def bit_0)
qed

lemma header_get_set_same: "header_get (header_set k v h) k = v"
  by (simp add: header_get_def header_set_def)

lemma extras_keep:
  "\<forall>(k, v) \<in> set extra. canonical_key k \<noteq> n \<Longrightarrow>
     map_get (fold (\<lambda>(k, v) h. header_set k v h) extra h) n = map_get h n"
  by (induction extra arbitrary: h) (auto simp: header_set_def)

lemma checked_extras:
  assumes "check_tool_upstream pu pa (name, up) = None" "(k, v) \<in> set (tuExtraHeaders up)"
  shows "canonical_key k \<noteq> ''Authorization''"
proof -
  have "check_all (\<lambda>(k, v). if \<not> validHeaderName k \<or> k = [] then Some (CfExtraHeaderName name k)
      else if equal_fold k (if tuCredentialHeader up = [] then ''authorization'' else tuCredentialHeader up) \<or>
        equal_fold k ''authorization'' then Some (CfExtraHeaderDisplaces name k) else None) (tuExtraHeaders up) = None"
    using assms(1) by (simp add: check_tool_upstream_def Let_def split: option.splits if_splits)
  then have "\<not> equal_fold k ''authorization''" using assms(2) by (auto simp: check_all_None split: if_splits)
  then show ?thesis by (rule not_authorization)
qed

text \<open>
  C21: to an upstream the configuration accepted, the message that leaves never carries the
  client's own Authorization. With no credential file it carries none; with one, its slot holds
  the non-empty trimmed content of the file as it is read for this request, and a slot other
  than Authorization leaves Authorization empty. No committed extra header can displace it, and
  without a readable credential nothing is sent.
\<close>

theorem the_upstream_sees_the_planes_credential_only:
  assumes "check_tool_upstream pu pa (name, up) = None" "gw_do d r up body g = (res, g')" "gwSent g' = gwSent g @ [out]"
  shows "if tuCredentialFile up = [] then map_get (obHeader out) ''Authorization'' = None
    else (\<exists>raw. dReadFile d (tuCredentialFile up) (gwStore g) = Some raw \<and> trim_space raw \<noteq> [] \<and>
      (if tuCredentialHeader up = [] \<or> equal_fold (tuCredentialHeader up) ''authorization''
       then header_get (obHeader out) ''Authorization'' = ''Bearer '' @ trim_space raw
       else header_get (obHeader out) (tuCredentialHeader up) = trim_space raw \<and>
         map_get (obHeader out) ''Authorization'' = None))"
proof -
  let ?h = "fold (\<lambda>(k, v) h. header_set k v h) (tuExtraHeaders up) (copyRequestHeaders [] (rqHeader r))"
  have none: "map_get ?h ''Authorization'' = None"
    using checked_extras [OF assms(1)] copyRequestHeaders_withheld [of "''Authorization''" "[]" "rqHeader r"]
    by (subst extras_keep) (auto simp: withheld_def)
  have ex: "\<exists>h2. injectCredential d up (gwStore g) ?h = Inr h2 \<and> obHeader out = h2"
    using assms(2,3) unfolding gw_do_def do_request_def Let_def
    by (auto simp: send_outbound_def split: option.splits sum.splits prod.splits dest!: in_store_sent)
  then have inj: "injectCredential d up (gwStore g) ?h = Inr (obHeader out)" by blast
  show ?thesis
  proof (cases "tuCredentialFile up = []")
    case True
    then have "obHeader out = ?h" using inj by (simp add: injectCredential_def)
    then show ?thesis using True none by simp
  next
    case False
    obtain raw where raw: "dReadFile d (tuCredentialFile up) (gwStore g) = Some raw" "trim_space raw \<noteq> []"
      and o: "obHeader out = (if tuCredentialHeader up = [] \<or> equal_fold (tuCredentialHeader up) ''authorization''
        then header_set ''Authorization'' (''Bearer '' @ trim_space raw) ?h else header_set (tuCredentialHeader up) (trim_space raw) ?h)"
      using inj False unfolding injectCredential_def Let_def by (auto split: option.splits if_splits)
    have "map_get (header_set k v ?h) ''Authorization'' = None" if "\<not> equal_fold k ''authorization''" for k v
      using none not_authorization [OF that] by (simp add: header_set_def)
    then show ?thesis using False raw o by (simp add: header_get_set_same)
  qed
qed

theorem the_upstream_sees_the_planes_credential_only_witness:
  "\<exists>out. gwSent (snd (gw_do ((gw_deps no_policy)\<lparr>dReadFile := (\<lambda>f w. Some '' s3 '')\<rparr>) (gw_request pay_body)
      (gw_up\<lparr>tuCredentialFile := ''key''\<rparr>) pay_body (gw_start demo_approved))) = [out] \<and>
    header_get (obHeader out) ''Authorization'' = ''Bearer s3''"
proof -
  let ?d = "(gw_deps no_policy)\<lparr>dReadFile := (\<lambda>f w. Some '' s3 '')\<rparr>"
  let ?up = "gw_up\<lparr>tuCredentialFile := ''key''\<rparr>"
  let ?out = "\<lparr>obURL = ''http://erp'', obMethod = ''POST'', obHeader = [(''Authorization'', [''Bearer s3''])], obBody = pay_body, obHardened = False\<rparr>"
  have t: "trim_space '' s3 '' = ''s3''" by (simp add: trim_space_def space_rune_def go_defs)
  obtain res g' where r: "gw_do ?d (gw_request pay_body) ?up pay_body (gw_start demo_approved) = (res, g')" by fastforce
  have s: "gwSent g' = gwSent (gw_start demo_approved) @ [?out]"
    using r t
    by (auto simp: gw_do_def do_request_def gw_deps_def gw_request_def gw_up_def injectCredential_def clientFor_def
      send_outbound_def in_store_def copyRequestHeaders_def canonical_key_def header_byte_def withheld_def Let_def
      header_set_def go_defs)
  have "check_tool_upstream (\<lambda>u. Some \<lparr>urlScheme = ''http'', urlHost = ''erp'', urlHostname = ''erp'', urlPort = [], urlUser = False\<rparr>)
      (\<lambda>h. None) (''erp'', ?up) = None"
    by (simp add: check_tool_upstream_def gw_up_def hostedShape_def validHeaderName_def check_all_def go_defs)
  from the_upstream_sees_the_planes_credential_only [OF this r s] r s t
  show ?thesis by (auto simp: gw_up_def)
qed

subsection \<open>Listings\<close>

text \<open>What a credential can call right now, for some arguments.\<close>

definition callable :: "PolicySet \<Rightarrow> string \<Rightarrow> world \<Rightarrow> string \<Rightarrow> bool" where
  "callable p cred w tool \<longleftrightarrow> (cred, tool) \<in> set (tool_allowlist (wdb w)) \<or>
     (\<exists>gr \<in> set (permit_grant (wdb w)). grCredentialName gr = cred \<and> grKind gr = ''tool'' \<and> grSubject gr = tool \<and>
        grantLive (wnow w) gr) \<or>
     tool \<in> set (ConstrainedTools p cred)"

lemma set_add_missing: "set (add_missing xs ys) = set xs \<union> set ys"
  by (induction ys arbitrary: xs) auto

lemma projectable_callable:
  assumes "allowlist d att cred up m g = (Inr allowed, g1)" "projectable d att cred up m allowed g1 = (Inr vis, g2)"
    "dStore d = pg_gateway_store"
  shows "t \<in> set vis \<longleftrightarrow> callable (dPolicy d) (crName cred) (gwStore g) t"
proof -
  obtain w1 where a: "pg_read (\<lambda>now d. ToolAllowlist (crName cred) d) (gwStore g) = (Inr allowed, w1)" "g1 = g\<lparr>gwStore := w1\<rparr>"
    using assms(1,3) by (auto simp: allowlist_def in_store_def pg_gateway_store_def split: prod.splits sum.splits)
  obtain ls w2 where b: "pg_read (\<lambda>now d. LiveToolGrantSubjects (crName cred) now d) w1 = (Inr ls, w2)"
    "vis = add_missing (add_missing allowed ls) (ConstrainedTools (dPolicy d) (crName cred))"
    using assms(2,3) a(2) by (auto simp: projectable_def in_store_def pg_gateway_store_def split: prod.splits sum.splits)
  have "ToolAllowlist (crName cred) (wdb (gwStore g)) = Inr allowed" "LiveToolGrantSubjects (crName cred) (wnow w1) (wdb w1) = Inr ls"
    using pg_read_Inr [OF a(1)] pg_read_Inr [OF b(1)] by simp_all
  then show ?thesis using pg_read_frame [OF a(1)] b(2)
    by (auto simp: ToolAllowlist_def LiveToolGrantSubjects_def callable_def set_add_missing image_iff split: if_splits)
qed

lemma project_listing_shape:
  assumes "project_listing d vis u raw = resp" "resp \<noteq> unprojectable"
  obtains m where "cdRPC (dCodec d) (if is_event_stream u then lastSSEData raw else raw) = Some m"
    "rpcErr m \<noteq> None \<or> rpcResult m = None"
    "resp = writeRPC 200 (header_del ''Content-Length'' (relay_headers u))
       (case rpcErr m of Some e \<Rightarrow> JObj [(''error'', e), (''id'', rpcID m), (''jsonrpc'', JStr (rpcVersion m))]
        | None \<Rightarrow> JObj [(''id'', rpcID m), (''jsonrpc'', JStr (rpcVersion m)), (''result'', JNull)])"
  | m result result' where "cdRPC (dCodec d) (if is_event_stream u then lastSSEData raw else raw) = Some m"
    "rpcResult m = Some result" "project_result (dCodec d) vis result = Some result'"
    "resp = writeRPC 200 (header_del ''Content-Length'' (relay_headers u))
       (JObj [(''id'', rpcID m), (''jsonrpc'', JStr (rpcVersion m)), (''result'', JObj result')])"
proof -
  obtain m where m: "cdRPC (dCodec d) (if is_event_stream u then lastSSEData raw else raw) = Some m"
    using assms unfolding project_listing_def Let_def by (auto split: option.splits)
  show thesis
  proof (cases "rpcErr m")
    case (Some e)
    then show thesis using assms m unfolding project_listing_def Let_def
      by (intro that(1) [OF m]) (auto split: if_splits option.splits)
  next
    case None
    show thesis
    proof (cases "rpcResult m")
      case None
      then show thesis using assms m \<open>rpcErr m = None\<close> unfolding project_listing_def Let_def
        by (intro that(1) [OF m]) (auto split: if_splits)
    next
      case (Some result)
      then show thesis using assms m \<open>rpcErr m = None\<close> that(2) [OF m Some] unfolding project_listing_def Let_def
        by (auto split: if_splits option.splits)
    qed
  qed
qed

text \<open>
  C25: a listing that reaches the client as a success holds, of the tools the upstream offered
  and in their order, exactly those whose name the credential can call right now: on its
  allowlist, under a live grant, or under a standing constraint. The other members of the
  result are as the upstream sent them; an answer that cannot be cut is a 502.
\<close>

theorem a_listing_shows_what_is_callable:
  assumes "allowlist d att cred up m g = (Inr allowed, g1)" "projectable d att cred up m allowed g1 = (Inr vis, g2)"
    and "dStore d = pg_gateway_store" "project_listing d vis u raw = resp" "resp \<noteq> unprojectable"
  shows "\<exists>a. cdRPC (dCodec d) (if is_event_stream u then lastSSEData raw else raw) = Some a \<and>
    (rpcErr a \<noteq> None \<or> rpcResult a = None \<or>
     (\<exists>result result' tools. rpcResult a = Some result \<and>
        resp = writeRPC 200 (header_del ''Content-Length'' (relay_headers u))
          (JObj [(''id'', rpcID a), (''jsonrpc'', JStr (rpcVersion a)), (''result'', JObj result')]) \<and>
        (case map_get result ''tools'' of None \<Rightarrow> Some [] | Some j \<Rightarrow> cdTools (dCodec d) j) = Some tools \<and>
        map_get result' ''tools'' = Some (JArr (filter (\<lambda>t. case cdToolName (dCodec d) t of None \<Rightarrow> False
          | Some n \<Rightarrow> callable (dPolicy d) (crName cred) (gwStore g) n) tools)) \<and>
        (\<forall>k. k \<noteq> ''tools'' \<longrightarrow> map_get result' k = map_get result k)))"
  using assms(4,5)
proof (cases rule: project_listing_shape)
  case (1 a)
  then show ?thesis by blast
next
  case (2 a result result')
  have "keep_tools (dCodec d) vis tools = filter (\<lambda>t. case cdToolName (dCodec d) t of None \<Rightarrow> False
      | Some n \<Rightarrow> callable (dPolicy d) (crName cred) (gwStore g) n) tools" for tools
    unfolding keep_tools_def using projectable_callable [OF assms(1-3)]
    by (intro filter_cong) (auto split: option.splits)
  then show ?thesis using 2 by (auto simp: project_result_def split: option.splits)
qed

definition list_codec :: codec where
  "list_codec = \<lparr>cdRPC = (\<lambda>s. Some \<lparr>rpcVersion = ''2.0'', rpcID = JNum ''1'', rpcErr = None,
       rpcResult = Some [(''tools'', JArr [JStr ''pay'', JStr ''wire''])]\<rparr>),
     cdTools = (\<lambda>j. case j of JArr ts \<Rightarrow> Some ts | _ \<Rightarrow> None),
     cdToolName = (\<lambda>j. case j of JStr n \<Rightarrow> Some n | _ \<Rightarrow> None)\<rparr>"

theorem a_listing_shows_what_is_callable_witness:
  "\<exists>result' resp. project_listing ((gw_deps no_policy)\<lparr>dCodec := list_codec\<rparr>) [''pay'']
      \<lparr>urStatus = 200, urHeader = [], urBody = ''x'', urCut = None\<rparr> ''x'' = resp \<and>
    resp = writeRPC 200 [] (JObj [(''id'', JNum ''1''), (''jsonrpc'', JStr ''2.0''), (''result'', JObj result')]) \<and>
    (\<exists>ts. map_get result' ''tools'' = Some (JArr ts) \<and> JStr ''wire'' \<notin> set ts)"
proof -
  let ?d = "(gw_deps no_policy)\<lparr>dCodec := list_codec\<rparr>"
  let ?u = "\<lparr>urStatus = 200, urHeader = [], urBody = ''x'', urCut = None\<rparr>"
  have al: "allowlist ?d Unattributed (Credential.truncate demo_cred) ''erp'' ''tools/list'' (gw_start demo_approved) =
      (Inr [], gw_start demo_approved)"
    by (simp add: allowlist_def in_store_def pg_gateway_store_def pg_read_def next_fault_def gw_start_def ToolAllowlist_def
        ascii_text_ok demo_defs Credential.truncate_def)
  have pr: "projectable ?d Unattributed (Credential.truncate demo_cred) ''erp'' ''tools/list'' [] (gw_start demo_approved) =
      (Inr [''pay''], gw_start demo_approved)"
    by (simp add: projectable_def in_store_def pg_gateway_store_def pg_read_def next_fault_def gw_start_def
        LiveToolGrantSubjects_def grantLive_def ConstrainedTools_def no_policy_def map_get_def
        ascii_text_ok demo_defs Credential.truncate_def)
  have ev: "relay_headers ?u = []" "\<not> is_event_stream ?u" "header_del k [] = []" for k
    by (simp_all add: relay_headers_def copyResponseHeaders_def is_event_stream_def header_get_def map_get_def header_del_def go_defs)
  obtain resp where r: "project_listing ?d [''pay''] ?u ''x'' = resp" by blast
  have "resp \<noteq> unprojectable"
    using r by (auto simp: project_listing_def list_codec_def project_result_def map_get_def unprojectable_def http_error_def writeRPC_def)
  have sel: "dCodec ?d = list_codec" "dPolicy ?d = no_policy" "dStore ?d = pg_gateway_store" by simp_all
  from a_listing_shows_what_is_callable [OF al pr sel(3) r \<open>resp \<noteq> unprojectable\<close>, unfolded sel]
  obtain result' tools where o: "resp = writeRPC 200 [] (JObj [(''id'', JNum ''1''), (''jsonrpc'', JStr ''2.0''), (''result'', JObj result')])"
    and t: "map_get result' ''tools'' = Some (JArr (filter (\<lambda>t. case cdToolName list_codec t of None \<Rightarrow> False
          | Some n \<Rightarrow> callable no_policy (crName (Credential.truncate demo_cred)) (gwStore (gw_start demo_approved)) n) tools))"
    by (force simp: list_codec_def ev)
  have "\<not> callable no_policy (crName (Credential.truncate demo_cred)) (gwStore (gw_start demo_approved)) ''wire''"
    by (simp add: callable_def ConstrainedTools_def no_policy_def map_get_def demo_defs)
  then show ?thesis using o t r by (auto simp: list_codec_def)
qed

subsection \<open>Answers\<close>

text \<open>
  An answer the client gets with an upstream status is the upstream's own and no redirect;
  one that is no event stream is the whole body, uncut and within the size cap. Anything else
  is a 502 or 503 of the gateway, and a stream that was cut has a note in the audit row.
\<close>

theorem an_answer_is_whole_or_an_error:
  "case answer_of res of (resp, out) \<Rightarrow> ocStatus out = rpStatus resp \<and>
    (rpStatus resp \<in> {502, 503} \<or> (\<exists>u. res = Inr u \<and> rpStatus resp = urStatus u \<and> \<not> (300 \<le> urStatus u \<and> urStatus u < 400) \<and>
      (\<not> is_event_stream u \<longrightarrow> rpBody resp = urBody u \<and> urCut u = None \<and> length (urBody u) \<le> maxBufferedResp) \<and>
      (is_event_stream u \<longrightarrow> ocNote out = [] \<longrightarrow> urCut u = None \<and>
         rpBody resp = concat (map (\<lambda>l. l @ [CHR 0x0A]) (fst (scan_lines maxStreamLine (urBody u)))) \<and>
         \<not> snd (scan_lines maxStreamLine (urBody u)))))"
  by (auto simp: answer_of_def bad_gateway_def http_error_def redirected_def relayStream_def read_buffered_def too_long_text_def
      split: sum.splits send_error.splits prod.splits option.splits if_splits)

theorem an_answer_is_whole_or_an_error_witness:
  "case answer_of (Inr \<lparr>urStatus = 200, urHeader = [], urBody = ''ok'', urCut = None\<rparr>) of (resp, out) \<Rightarrow>
     rpStatus resp = 200 \<and> rpBody resp = ''ok''"
proof -
  let ?u = "\<lparr>urStatus = 200, urHeader = [], urBody = ''ok'', urCut = None\<rparr>"
  have e: "\<not> is_event_stream ?u" by (simp add: is_event_stream_def header_get_def map_get_def go_defs)
  have "rpStatus (fst (answer_of (Inr ?u))) = 200"
    using e by (simp add: answer_of_def redirected_def read_buffered_def maxBufferedResp_def)
  then show ?thesis using an_answer_is_whole_or_an_error [of "Inr ?u"] e by (auto split: prod.splits)
qed

end
