(* ===== verification/Unmarshal.thy ===== *)
theory Unmarshal
  imports JsonRoundtrip
begin

text \<open>
  \<open>json.Unmarshal\<close> as far as the handlers use it: a whole text is checked before anything is
  stored, at most 10000 levels deep; an object keeps its members in order, duplicates included;
  a member is stored in the struct field whose name it folds to, so a later duplicate or a
  variant in another case overwrites; a value of the wrong type leaves the field and fails the
  call at the end; \<open>null\<close> leaves it.
\<close>

subsection \<open>Documents\<close>

definition maxNestingDepth :: nat where
  "maxNestingDepth = 10000"

text \<open>One value at nesting \<open>depth\<close>, and the lexemes after it.\<close>

fun parse_value :: "nat \<Rightarrow> nat \<Rightarrow> lexeme list \<Rightarrow> (json \<times> lexeme list) option"
and parse_elems :: "nat \<Rightarrow> nat \<Rightarrow> lexeme list \<Rightarrow> (json list \<times> lexeme list) option"
and parse_members :: "nat \<Rightarrow> nat \<Rightarrow> lexeme list \<Rightarrow> ((string \<times> json) list \<times> lexeme list) option"
where
  "parse_value 0 depth ls = None"
| "parse_value (Suc f) depth ls =
     (case ls of
        [] \<Rightarrow> None
      | l # r \<Rightarrow>
          if l = LBrack then
            (if depth \<ge> maxNestingDepth then None
             else if r \<noteq> [] \<and> hd r = RBrack then Some (JArr [], tl r)
             else map_option (apfst JArr) (parse_elems f (Suc depth) r))
          else if l = LBrace then
            (if depth \<ge> maxNestingDepth then None
             else if r \<noteq> [] \<and> hd r = RBrace then Some (JObj [], tl r)
             else map_option (apfst JObj) (parse_members f (Suc depth) r))
          else map_option (\<lambda>v. (v, r)) (scalar_of l))"
| "parse_elems 0 depth ls = None"
| "parse_elems (Suc f) depth ls =
     (case parse_value f depth ls of
        Some (v, l # r) \<Rightarrow>
          if l = Comma then map_option (apfst ((#) v)) (parse_elems f depth r)
          else if l = RBrack then Some ([v], r) else None
      | _ \<Rightarrow> None)"
| "parse_members 0 depth ls = None"
| "parse_members (Suc f) depth ls =
     (case ls of
        LStr k # Colon # r0 \<Rightarrow>
          (case parse_value f depth r0 of
             Some (v, l # r) \<Rightarrow>
               if l = Comma then map_option (apfst ((#) (k, v))) (parse_members f depth r)
               else if l = RBrace then Some ([(k, v)], r) else None
           | _ \<Rightarrow> None)
      | _ \<Rightarrow> None)"

definition parse_json :: "string \<Rightarrow> json option" where
  "parse_json body =
     (let ls = lex body in
      case parse_value (2 * length ls + 1) 0 ls of
        Some (v, []) \<Rightarrow> Some v
      | _ \<Rightarrow> None)"

subsection \<open>Fields\<close>

text \<open>Key folding: ASCII case, and the two runes outside ASCII that fold to a letter.\<close>

fun fold_runes :: "string \<Rightarrow> string" where
  "fold_runes (a # b # c # r) =
     (if code a = 226 \<and> code b = 132 \<and> code c = 170 then CHR ''k'' # fold_runes r
      else if code a = 197 \<and> code b = 191 then CHR ''s'' # fold_runes (c # r)
      else lower_char a # fold_runes (b # c # r))"
| "fold_runes [a, b] = (if code a = 197 \<and> code b = 191 then [CHR ''s''] else [lower_char a, lower_char b])"
| "fold_runes [a] = [lower_char a]"
| "fold_runes [] = []"

definition names_field :: "string \<Rightarrow> string \<Rightarrow> bool" where
  "names_field field key \<longleftrightarrow> fold_runes key = field"

text \<open>A target and whether a type error was met.\<close>

definition set_string :: "json \<Rightarrow> string \<times> bool \<Rightarrow> string \<times> bool" where
  "set_string v t = (case v of JStr s \<Rightarrow> (s, snd t) | JNull \<Rightarrow> t | _ \<Rightarrow> (fst t, True))"

definition set_bool :: "json \<Rightarrow> bool \<times> bool \<Rightarrow> bool \<times> bool" where
  "set_bool v t = (case v of JBool b \<Rightarrow> (b, snd t) | JNull \<Rightarrow> t | _ \<Rightarrow> (fst t, True))"

definition set_int64 :: "json \<Rightarrow> int \<times> bool \<Rightarrow> int \<times> bool" where
  "set_int64 v t =
     (case v of
        JNum n \<Rightarrow> (case parse_int n of Some i \<Rightarrow> (i, snd t) | None \<Rightarrow> (fst t, True))
      | JNull \<Rightarrow> t
      | _ \<Rightarrow> (fst t, True))"

text \<open>A struct: each member in order; a value that is no object is a type error, \<open>null\<close> nothing.\<close>

definition set_struct :: "(string \<times> json \<Rightarrow> 'a \<times> bool \<Rightarrow> 'a \<times> bool) \<Rightarrow> json \<Rightarrow> 'a \<times> bool \<Rightarrow> 'a \<times> bool" where
  "set_struct member v t =
     (case v of JObj ms \<Rightarrow> fold member ms t | JNull \<Rightarrow> t | _ \<Rightarrow> (fst t, True))"

text \<open>One field of a struct, and a struct by its fields; a pointer; a slice, kept with what is behind its length.\<close>

definition set_field ::
  "(json \<Rightarrow> 'f \<times> bool \<Rightarrow> 'f \<times> bool) \<Rightarrow> ('a \<Rightarrow> 'f) \<Rightarrow> ('f \<Rightarrow> 'a \<Rightarrow> 'a) \<Rightarrow> json \<Rightarrow> 'a \<times> bool \<Rightarrow> 'a \<times> bool" where
  "set_field setter get put v t = (case setter v (get (fst t), snd t) of (x, e) \<Rightarrow> (put x (fst t), e))"

definition set_fields ::
  "(string \<times> (json \<Rightarrow> 'a \<times> bool \<Rightarrow> 'a \<times> bool)) list \<Rightarrow> string \<times> json \<Rightarrow> 'a \<times> bool \<Rightarrow> 'a \<times> bool" where
  "set_fields fs kv t =
     (case List.find (\<lambda>f. names_field (fst f) (fst kv)) fs of None \<Rightarrow> t | Some f \<Rightarrow> snd f (snd kv) t)"

definition set_pointer :: "(json \<Rightarrow> 'a \<times> bool \<Rightarrow> 'a \<times> bool) \<Rightarrow> 'a \<Rightarrow> json \<Rightarrow> 'a option \<times> bool \<Rightarrow> 'a option \<times> bool" where
  "set_pointer setter zero v t =
     (if v = JNull then (None, snd t)
      else (case setter v (case fst t of None \<Rightarrow> zero | Some x \<Rightarrow> x, snd t) of (x, e) \<Rightarrow> (Some x, e)))"

type_synonym 'a slice = "'a list \<times> nat"

fun set_elems :: "(json \<Rightarrow> 'a \<times> bool \<Rightarrow> 'a \<times> bool) \<Rightarrow> 'a \<Rightarrow> json list \<Rightarrow> 'a list \<Rightarrow> bool \<Rightarrow> 'a list \<times> bool" where
  "set_elems setter zero [] old e = (old, e)"
| "set_elems setter zero (v # vs) old e =
     (case setter v (case old of [] \<Rightarrow> zero | x # _ \<Rightarrow> x, e) of
        (y, e1) \<Rightarrow> (case set_elems setter zero vs (tl old) e1 of (ys, e2) \<Rightarrow> (y # ys, e2)))"

definition set_slice :: "(json \<Rightarrow> 'a \<times> bool \<Rightarrow> 'a \<times> bool) \<Rightarrow> 'a \<Rightarrow> json \<Rightarrow> 'a slice \<times> bool \<Rightarrow> 'a slice \<times> bool" where
  "set_slice setter zero v t =
     (case v of
        JArr [] \<Rightarrow> (([], 0), snd t)
      | JArr vs \<Rightarrow> (case set_elems setter zero vs (fst (fst t)) (snd t) of (xs, e) \<Rightarrow> ((xs, length vs), e))
      | JNull \<Rightarrow> (([], 0), snd t)
      | _ \<Rightarrow> (fst t, True))"

definition slice_elems :: "'a slice \<Rightarrow> 'a list" where
  "slice_elems s = take (snd s) (fst s)"

text \<open>The whole call: what is in the target afterwards, and whether an error came back.\<close>

definition unmarshal :: "(json \<Rightarrow> 'a \<times> bool \<Rightarrow> 'a \<times> bool) \<Rightarrow> string \<Rightarrow> 'a \<Rightarrow> 'a \<times> bool" where
  "unmarshal setter body t =
     (case parse_json body of None \<Rightarrow> (t, True) | Some v \<Rightarrow> setter v (t, False))"

text \<open>
  A \<open>map[string]json.RawMessage\<close>. The text of an object is cut at its top-level colons and
  commas, white space outside strings dropped as \<open>compact\<close> drops it: \<open>q\<close> is inside a string,
  \<open>d\<close> the nesting. The last member of a name counts.
\<close>

fun raw_split :: "bool \<Rightarrow> nat \<Rightarrow> string \<Rightarrow> string list" where
  "raw_split q d [] = [[]]"
| "raw_split True d (c # cs) =
     (if c = CHR 0x5C then
        (case cs of [] \<Rightarrow> [[c]] | e # r \<Rightarrow> (case raw_split True d r of t # ts \<Rightarrow> (c # e # t) # ts | [] \<Rightarrow> []))
      else (case raw_split (c \<noteq> CHR 0x22) d cs of t # ts \<Rightarrow> (c # t) # ts | [] \<Rightarrow> []))"
| "raw_split False d (c # cs) =
     (if json_space c then raw_split False d cs
      else if d = 1 \<and> (c = CHR '','' \<or> c = CHR '':'') then [] # raw_split False d cs
      else if d = 0 \<and> c = CHR ''{'' then raw_split False 1 cs
      else if d = 1 \<and> c = CHR ''}'' then raw_split False 0 cs
      else (case raw_split (c = CHR 0x22)
                  (if c = CHR ''{'' \<or> c = CHR ''['' then Suc d else if c = CHR ''}'' \<or> c = CHR '']'' then d - 1 else d) cs of
              t # ts \<Rightarrow> (c # t) # ts | [] \<Rightarrow> []))"

fun raw_pairs :: "string list \<Rightarrow> (string \<times> string) list" where
  "raw_pairs (k # v # r) = ((case lex k of [LStr s] \<Rightarrow> s | _ \<Rightarrow> []), v) # raw_pairs r"
| "raw_pairs r = []"

definition raw_object :: "string \<Rightarrow> string gomap" where
  "raw_object text = fold (\<lambda>(k, v) m. map_set k v m) (raw_pairs (raw_split False 0 text)) []"

subsection \<open>Reading back\<close>

fun nesting :: "json \<Rightarrow> nat" where
  "nesting (JArr vs) = Suc (foldr max (map nesting vs) 0)"
| "nesting (JObj ms) = Suc (foldr max (map (\<lambda>kv. nesting (snd kv)) ms) 0)"
| "nesting v = 0"

lemma elem_lexemes_sep: "elem_lexemes True (v # vs) = Comma # elem_lexemes False (v # vs)"
  by simp

lemma member_lexemes_sep: "member_lexemes True (kv # ms) = Comma # member_lexemes False (kv # ms)"
  by (cases kv) simp

lemma parse_elems_lexemes:
  assumes "\<And>v f r. v \<in> set vs \<Longrightarrow> 2 * length (doc_lexemes v) \<le> f \<Longrightarrow> parse_value f depth (doc_lexemes v @ r) = Some (v, r)"
    and "vs \<noteq> []" "2 * length (elem_lexemes False vs) < f"
  shows "parse_elems f depth (elem_lexemes False vs @ RBrack # r) = Some (vs, r)"
  using assms
proof (induction vs arbitrary: f)
  case (Cons v vs)
  obtain g where f: "f = Suc g" using Cons.prems(3) by (cases f) auto
  show ?case
  proof (cases vs)
    case Nil
    then show ?thesis using Cons.prems(1) [of v g "RBrack # r"] Cons.prems(3) f by simp
  next
    case (Cons w ws)
    have "parse_value g depth (doc_lexemes v @ Comma # elem_lexemes False vs @ RBrack # r) =
        Some (v, Comma # elem_lexemes False vs @ RBrack # r)"
      using Cons.prems(1) [of v g] Cons.prems(3) f by simp
    moreover have "parse_elems g depth (elem_lexemes False vs @ RBrack # r) = Some (vs, r)"
      using Cons.IH [of g] Cons.prems(1,3) f Cons doc_lexemes_head [of v] by auto
    ultimately show ?thesis using f Cons by simp
  qed
qed simp

lemma parse_members_lexemes:
  assumes "\<And>k v f r. (k, v) \<in> set ms \<Longrightarrow> 2 * length (doc_lexemes v) \<le> f \<Longrightarrow> parse_value f depth (doc_lexemes v @ r) = Some (v, r)"
    and "ms \<noteq> []" "2 * length (member_lexemes False ms) < f"
  shows "parse_members f depth (member_lexemes False ms @ RBrace # r) = Some (ms, r)"
  using assms
proof (induction ms arbitrary: f)
  case (Cons kv ms)
  obtain k v where kv: "kv = (k, v)" by fastforce
  obtain g where f: "f = Suc g" using Cons.prems(3) by (cases f) auto
  show ?case
  proof (cases ms)
    case Nil
    then show ?thesis using Cons.prems(1) [of k v g "RBrace # r"] Cons.prems(3) f by (simp add: kv)
  next
    case (Cons w ws)
    have "parse_value g depth (doc_lexemes v @ Comma # member_lexemes False ms @ RBrace # r) =
        Some (v, Comma # member_lexemes False ms @ RBrace # r)"
      using Cons.prems(1) [of k v g] Cons.prems(3) f by (simp add: kv)
    moreover have "parse_members g depth (member_lexemes False ms @ RBrace # r) = Some (ms, r)"
      using Cons.IH [of g] Cons.prems(1,3) f Cons by (auto simp: kv member_lexemes_sep)
    ultimately show ?thesis using f Cons by (cases w) (simp add: kv)
  qed
qed simp

lemma foldr_max_le: "foldr max xs (0::nat) \<le> n \<longleftrightarrow> (\<forall>x \<in> set xs. x \<le> n)"
  by (induction xs) auto

lemma foldr_max_depth:
  "depth < n \<Longrightarrow> (\<And>x. x \<in> set xs \<Longrightarrow> Suc (depth + x) \<le> n) \<Longrightarrow> Suc (depth + foldr max xs (0::nat)) \<le> n"
  using foldr_max_le [of xs "n - Suc depth"] by fastforce

lemma parse_scalar: "scalar_of l = Some v \<Longrightarrow> 2 \<le> f \<Longrightarrow> parse_value f depth (l # r) = Some (v, r)"
  by (cases f) (auto simp del: scalar_of.simps split: if_splits, auto)

lemma parse_value_doc:
  "depth + nesting v \<le> maxNestingDepth \<Longrightarrow> 2 * length (doc_lexemes v) \<le> f \<Longrightarrow> parse_value f depth (doc_lexemes v @ r) = Some (v, r)"
proof (induction v arbitrary: f depth r)
  case (JArr vs)
  obtain g where f: "f = Suc g" using JArr.prems(2) by (cases f) auto
  have d: "depth < maxNestingDepth" using JArr.prems(1) by simp
  show ?case
  proof (cases "vs = []")
    case False
    have n: "foldr max (map nesting vs) 0 \<le> maxNestingDepth - Suc depth" using JArr.prems(1) by simp
    have "parse_elems g (Suc depth) (elem_lexemes False vs @ RBrack # r) = Some (vs, r)"
    proof (rule parse_elems_lexemes [OF _ False])
      fix v f r assume v: "v \<in> set vs" "2 * length (doc_lexemes v) \<le> f"
      have "nesting v \<le> maxNestingDepth - Suc depth" using n v(1) by (simp add: foldr_max_le)
      then show "parse_value f (Suc depth) (doc_lexemes v @ r) = Some (v, r)" using JArr.IH [OF v(1) _ v(2)] d by simp
    qed (use JArr.prems(2) f in simp)
    moreover have "hd (elem_lexemes False vs @ RBrack # r) \<noteq> RBrack"
      using False doc_lexemes_head [of "hd vs"] by (cases vs) auto
    ultimately show ?thesis using f d by simp
  qed (use f d in simp)
next
  case (JObj ms)
  obtain g where f: "f = Suc g" using JObj.prems(2) by (cases f) auto
  have d: "depth < maxNestingDepth" using JObj.prems(1) by simp
  show ?case
  proof (cases "ms = []")
    case False
    have n: "foldr max (map (\<lambda>kv. nesting (snd kv)) ms) 0 \<le> maxNestingDepth - Suc depth" using JObj.prems(1) by simp
    have "parse_members g (Suc depth) (member_lexemes False ms @ RBrace # r) = Some (ms, r)"
    proof (rule parse_members_lexemes [OF _ False])
      fix k v f r assume v: "(k, v) \<in> set ms" "2 * length (doc_lexemes v) \<le> f"
      have "nesting v \<le> maxNestingDepth - Suc depth" using n v(1) by (force simp: foldr_max_le)
      then show "parse_value f (Suc depth) (doc_lexemes v @ r) = Some (v, r)"
        using JObj.IH [OF v(1) _ _ v(2)] d by simp
    qed (use JObj.prems(2) f in simp)
    moreover have "hd (member_lexemes False ms @ RBrace # r) \<noteq> RBrace"
      using False by (cases ms; cases "hd ms") auto
    ultimately show ?thesis using f d by simp
  qed (use f d in simp)
qed (auto simp: parse_scalar)

lemma parse_json_run:
  assumes "lex body = doc_lexemes v" "nesting v \<le> maxNestingDepth"
  shows "parse_json body = Some v"
  using parse_value_doc [of 0 v "2 * length (lex body) + 1" "[]"] assms by (simp add: parse_json_def Let_def)

lemma parse_value_sound:
  "parse_value f depth ls = Some (v, r) \<Longrightarrow> ls = doc_lexemes v @ r \<and> (depth \<le> maxNestingDepth \<longrightarrow> depth + nesting v \<le> maxNestingDepth)"
  "parse_elems f depth ls = Some (vs, r) \<Longrightarrow> vs \<noteq> [] \<and> ls = elem_lexemes False vs @ RBrack # r \<and>
     (depth \<le> maxNestingDepth \<longrightarrow> (\<forall>v \<in> set vs. depth + nesting v \<le> maxNestingDepth))"
  "parse_members f depth ls = Some (ms, r) \<Longrightarrow> ms \<noteq> [] \<and> ls = member_lexemes False ms @ RBrace # r \<and>
     (depth \<le> maxNestingDepth \<longrightarrow> (\<forall>(k, v) \<in> set ms. depth + nesting v \<le> maxNestingDepth))"
proof (induction f depth ls and f depth ls and f depth ls arbitrary: v r and vs r and ms r
    rule: parse_value_parse_elems_parse_members.induct)
  case (2 f depth ls)
  obtain l r0 where ls: "ls = l # r0" using "2.prems" by (cases ls) auto
  consider "l = LBrack" | "l = LBrace" | "l \<noteq> LBrack" "l \<noteq> LBrace" by blast
  then show ?case
  proof cases
    case 1
    then have d: "depth < maxNestingDepth" using "2.prems" ls by (auto split: if_splits)
    show ?thesis
    proof (cases "r0 \<noteq> [] \<and> hd r0 = RBrack")
      case True
      then show ?thesis using "2.prems" ls 1 d by (cases r0) auto
    next
      case False
      then obtain vs where v: "v = JArr vs" and p: "parse_elems f (Suc depth) r0 = Some (vs, r)"
        using "2.prems" ls 1 d by (auto simp: apfst_def map_prod_def split: if_splits)
      show ?thesis using "2.IH"(1) [OF ls 1 _ False p] d ls 1 by (auto simp: v intro!: foldr_max_depth)
    qed
  next
    case 2
    then have d: "depth < maxNestingDepth" using "2.prems" ls by (auto split: if_splits)
    show ?thesis
    proof (cases "r0 \<noteq> [] \<and> hd r0 = RBrace")
      case True
      then show ?thesis using "2.prems" ls 2 d by (cases r0) auto
    next
      case False
      then obtain ms where v: "v = JObj ms" and p: "parse_members f (Suc depth) r0 = Some (ms, r)"
        using "2.prems" ls 2 d by (auto simp: apfst_def map_prod_def split: if_splits)
      have "l \<noteq> LBrack" using 2 by simp
      from "2.IH"(2) [OF ls this 2 _ False p] show ?thesis using d ls 2 by (fastforce simp: v intro!: foldr_max_depth)
    qed
  next
    case 3
    then have "scalar_of l = Some v" "r = r0" using "2.prems" ls by auto
    then show ?thesis using ls by (cases l) auto
  qed
next
  case (4 f depth ls)
  obtain v l r1 where v: "parse_value f depth ls = Some (v, l # r1)"
    using "4.prems" by (auto split: option.splits list.splits)
  show ?case
  proof (cases "l = Comma")
    case True
    then obtain vs' where p: "parse_elems f depth r1 = Some (vs', r)" and vs: "vs = v # vs'"
      using "4.prems" v by (auto simp: apfst_def map_prod_def)
    note e = "4.IH"(2) [OF v refl refl True p]
    then obtain w ws where w: "vs' = w # ws" by (cases vs') auto
    then show ?thesis using "4.IH"(1) [OF v] e vs True by auto
  next
    case False
    then show ?thesis using "4.prems" v "4.IH"(1) [OF v] by (auto split: if_splits)
  qed
next
  case (6 f depth ls)
  obtain k r0 where ls: "ls = LStr k # Colon # r0" using "6.prems" by (auto split: list.splits lexeme.splits)
  obtain v l r1 where v: "parse_value f depth r0 = Some (v, l # r1)"
    using "6.prems" ls by (auto split: option.splits list.splits)
  show ?case
  proof (cases "l = Comma")
    case True
    then obtain ms' where p: "parse_members f depth r1 = Some (ms', r)" and ms: "ms = (k, v) # ms'"
      using "6.prems" v ls by (auto simp: apfst_def map_prod_def)
    note e = "6.IH"(2) [OF ls refl refl refl v refl refl True p]
    then obtain w ws where w: "ms' = w # ws" by (cases ms') auto
    then show ?thesis using "6.IH"(1) [OF ls refl refl refl v] e ms True ls by (cases w) auto
  next
    case False
    then show ?thesis using "6.prems" v "6.IH"(1) [OF ls refl refl refl v] ls by (auto split: if_splits)
  qed
qed simp_all

text \<open>A text is read exactly when its lexemes are those of a document, not nested too deeply.\<close>

lemma parse_json_iff:
  "parse_json body = Some v \<longleftrightarrow> lex body = doc_lexemes v \<and> nesting v \<le> maxNestingDepth"
proof
  assume "parse_json body = Some v"
  then have "parse_value (2 * length (lex body) + 1) 0 (lex body) = Some (v, [])"
    by (auto simp: parse_json_def Let_def split: option.splits list.splits)
  then show "lex body = doc_lexemes v \<and> nesting v \<le> maxNestingDepth" using parse_value_sound(1) by fastforce
qed (auto intro: parse_json_run)

end
