(* ===== verification/Proxy.thy ===== *)
theory Proxy
  imports Gateway Meter Unmarshal
begin

text \<open>
  Component \<^verbatim>\<open>plane/internal/proxy/handler.go\<close> with the client choice of \<^verbatim>\<open>proxy.go\<close>: the metered
  path of model calls. The handler's state has the shape of the gateway's: the store, the ledger
  breaker, what was sent, the decisions counted. A panic of the handler is the answer \<open>aborted\<close>,
  with the state as it stood.
\<close>

definition px_maxRequestBody :: nat where "px_maxRequestBody = 10485760"
definition px_maxBufferedResp :: nat where "px_maxBufferedResp = 52428800"

record 's proxy_store =
  psCredentialByTokenHash :: "string \<Rightarrow> 's \<Rightarrow> (store_error + Credential) \<times> 's"
  psActorFor :: "string \<Rightarrow> 's \<Rightarrow> (store_error + Attribution) \<times> 's"
  psRecordLedger :: "LedgerEntry \<Rightarrow> string \<Rightarrow> 's \<Rightarrow> (store_error + unit) \<times> 's"
  psFileApprovalRequest :: "Filing \<Rightarrow> 's \<Rightarrow> (store_error + bool) \<times> 's"

record 's ProxyDeps =
  pdStore :: "'s proxy_store"
  pdMeter :: "'s Meter"
  pdUpstreams :: "Upstream gomap"
  pdHasInternetClient :: bool
  pdSend :: "Outbound \<Rightarrow> 's \<Rightarrow> (send_error + UpstreamResponse) \<times> 's"
  pdBadURL :: "string \<Rightarrow> bool"
  pdReadFile :: "string \<Rightarrow> 's \<Rightarrow> string option"
  pdNow :: "'s \<Rightarrow> int"
  pdSha :: "string \<Rightarrow> string"
  pdUprint :: "nat \<Rightarrow> bool"

definition px_clientFor :: "'s ProxyDeps \<Rightarrow> Upstream \<Rightarrow> send_error + bool" where
  "px_clientFor d up =
     (if upInternet up then
        (if \<not> pdHasInternetClient d
         then Inl (SendError (Some ErrNoClient) ''egress: no hardened client configured for a hosted upstream'')
         else Inr True)
      else Inr False)"

subsection \<open>Bodies\<close>

text \<open>\<open>model\<close> and \<open>stream\<close> of a request body; \<open>None\<close> when decoding fails.\<close>

definition chat_member :: "string \<times> json \<Rightarrow> (string \<times> bool) \<times> bool \<Rightarrow> (string \<times> bool) \<times> bool" where
  "chat_member kv t =
     (case kv of (k, v) \<Rightarrow> case t of ((m, st), e) \<Rightarrow>
        if names_field ''model'' k then (case set_string v (m, e) of (m', e') \<Rightarrow> ((m', st), e'))
        else if names_field ''stream'' k then (case set_bool v (st, e) of (st', e') \<Rightarrow> ((m, st'), e'))
        else t)"

definition chat_request :: "string \<Rightarrow> (string \<times> bool) option" where
  "chat_request body =
     (case unmarshal (set_struct chat_member) body ([], False) of (t, e) \<Rightarrow> if e then None else Some t)"

type_synonym usage = "int \<times> int"

definition usage_member :: "string \<times> json \<Rightarrow> usage \<times> bool \<Rightarrow> usage \<times> bool" where
  "usage_member kv t =
     (case kv of (k, v) \<Rightarrow> case t of ((p, c), e) \<Rightarrow>
        if names_field ''prompt_tokens'' k then (case set_int64 v (p, e) of (p', e') \<Rightarrow> ((p', c), e'))
        else if names_field ''completion_tokens'' k then (case set_int64 v (c, e) of (c', e') \<Rightarrow> ((p, c'), e'))
        else t)"

definition envelope_member :: "string \<times> json \<Rightarrow> usage \<times> bool \<Rightarrow> usage \<times> bool" where
  "envelope_member kv t =
     (case kv of (k, v) \<Rightarrow> if names_field ''usage'' k then set_struct usage_member v t else t)"

text \<open>Errors are ignored: what was stored before them stays.\<close>

definition relayBuffered :: "string \<Rightarrow> usage" where
  "relayBuffered raw = fst (unmarshal (set_struct envelope_member) raw (0, 0))"

definition chunk_member :: "string \<times> json \<Rightarrow> usage option \<times> bool \<Rightarrow> usage option \<times> bool" where
  "chunk_member kv t =
     (case kv of (k, v) \<Rightarrow>
        if names_field ''usage'' k then
          (if v = JNull then (None, snd t)
           else (case set_struct usage_member v (case fst t of None \<Rightarrow> (0, 0) | Some u \<Rightarrow> u, snd t) of
                   (u, e) \<Rightarrow> (Some u, e)))
        else t)"

definition chunk_usage :: "string \<Rightarrow> usage option" where
  "chunk_usage payload =
     (case unmarshal (set_struct chunk_member) payload None of (u, e) \<Rightarrow> if e then None else u)"

definition line_usage :: "string \<Rightarrow> usage \<Rightarrow> usage" where
  "line_usage line u =
     (case cut_prefix line ''data: '' of
        (payload, ok) \<Rightarrow>
          if \<not> ok \<or> payload = ''[DONE]'' then u
          else (case chunk_usage payload of Some u' \<Rightarrow> u' | None \<Rightarrow> u))"

text \<open>The stream as it goes to the client, and the last usage in it.\<close>

definition px_relayStream :: "UpstreamResponse \<Rightarrow> string \<times> usage" where
  "px_relayStream r =
     (let ls = fst (scan_lines maxStreamLine (urBody r)) in
      (concat (map (\<lambda>l. l @ [CHR 0x0A]) ls), fold line_usage ls (0, 0)))"

definition readBounded :: "UpstreamResponse \<Rightarrow> string option" where
  "readBounded u =
     (if length (urBody u) > px_maxBufferedResp then None
      else case urCut u of Some _ \<Rightarrow> None | None \<Rightarrow> Some (urBody u))"

text \<open>
  \<open>json.Marshal\<close> of such a map: keys in order, values as they are but for the HTML escapes.
\<close>

fun compact_escape :: "string \<Rightarrow> string" where
  "compact_escape (a # b # c # r) =
     (if code a = 226 \<and> code b = 128 \<and> code c = 168 then CHR 0x5C # ''u2028'' @ compact_escape r
      else if code a = 226 \<and> code b = 128 \<and> code c = 169 then CHR 0x5C # ''u2029'' @ compact_escape r
      else html_escape [a] @ compact_escape (b # c # r))"
| "compact_escape r = html_escape r"

definition marshal_raw :: "string gomap \<Rightarrow> string" where
  "marshal_raw m =
     CHR ''{'' # concat (map (\<lambda>(i, k, v). (if i = (0::nat) then [] else '','') @ html_escape (quote_json k) @ '':'' @ compact_escape v)
       (zip [0..<length m] m)) @ ''}''"

text \<open>
  \<open>withIncludeUsage\<close>: writing into the nil map a \<open>null\<close> leaves is a panic.
\<close>

datatype include_result = Included string | NotAnObject | IncludePanics

definition raw_json :: "string \<Rightarrow> string gomap option option" where
  "raw_json text =
     (case parse_json text of Some (JObj _) \<Rightarrow> Some (Some (raw_object text)) | Some JNull \<Rightarrow> Some None | _ \<Rightarrow> None)"

definition withIncludeUsage :: "string \<Rightarrow> include_result" where
  "withIncludeUsage body =
     (case raw_json body of
        None \<Rightarrow> NotAnObject
      | Some m \<Rightarrow>
          (case (case (case m of None \<Rightarrow> None | Some ms \<Rightarrow> map_get ms ''stream_options'') of
                   None \<Rightarrow> Some (Some []) | Some raw \<Rightarrow> raw_json raw) of
             None \<Rightarrow> NotAnObject
           | Some None \<Rightarrow> IncludePanics
           | Some (Some opts) \<Rightarrow>
               (case m of
                  None \<Rightarrow> IncludePanics
                | Some ms \<Rightarrow> Included (marshal_raw (map_set ''stream_options''
                    (marshal_raw (map_set ''include_usage'' ''true'' opts)) ms)))))"

subsection \<open>The ledger\<close>

definition px_record :: "'s ProxyDeps \<Rightarrow> LedgerEntry \<Rightarrow> string \<Rightarrow> 's gw \<Rightarrow> 's gw" where
  "px_record d e reservation g =
     (case in_store (psRecordLedger (pdStore d) e reservation) g of
        (Inl _, g') \<Rightarrow> g'\<lparr>gwDegraded := True\<rparr>
      | (Inr _, g') \<Rightarrow> g'\<lparr>gwDegraded := False\<rparr>)"

definition px_reasonFor :: "int \<Rightarrow> string \<Rightarrow> Reason" where
  "px_reasonFor status msg =
     (if has_prefix msg ''unknown upstream'' \<or> has_prefix msg ''path not allowed'' then ReasonRoute
      else if has_prefix msg ''request body'' then ReasonBadRequest
      else if has_prefix msg ''model has no configured price'' then ReasonUnpricedModel
      else if has_prefix msg ''spend ledger unavailable'' then ReasonAuditDegraded
      else if has_prefix msg ''monthly'' then ReasonBudget
      else if has_prefix msg ''metering unavailable'' then ReasonMetering
      else if has_prefix msg ''upstream credential unavailable'' then ReasonUpstreamCredential
      else if has_prefix msg ''upstream request build failed'' then ReasonUpstreamUnreachable
      else if has_prefix msg ExpiredPrefix then ReasonCredentialExpired
      else if status = 401 then ReasonUnauthorized
      else if status = 429 then ReasonBudget
      else ReasonOther)"

definition denied_entry :: "Credential \<Rightarrow> Attribution \<Rightarrow> string \<Rightarrow> string \<Rightarrow> int \<Rightarrow> LedgerEntry" where
  "denied_entry cred att upstream model status =
     \<lparr>leCredentialName = crName cred, leUpstream = upstream, leModel = model, leInputTokens = 0,
      leOutputTokens = 0, leCostCents = 0, leCostSource = ''denied'', leStatus = status,
      leActedFor = atActedFor att, leRunID = atRunID att, leCreatedAt = 0\<rparr>"

definition px_deny ::
  "'s ProxyDeps \<Rightarrow> Credential \<Rightarrow> Attribution \<Rightarrow> string \<Rightarrow> string \<Rightarrow> int \<Rightarrow> string \<Rightarrow> string \<Rightarrow> 's gw \<Rightarrow> Response \<times> 's gw" where
  "px_deny d cred att upstream model status msg reservation g =
     (http_error msg status,
      Decide Denied (px_reasonFor status msg) (px_record d (denied_entry cred att upstream model status) reservation g))"

definition ledgerFor ::
  "Credential \<Rightarrow> Attribution \<Rightarrow> string \<Rightarrow> string \<Rightarrow> Upstream \<Rightarrow> price option \<Rightarrow> usage \<Rightarrow> int \<Rightarrow> LedgerEntry" where
  "ledgerFor cred att upstream model up price u status =
     (let i = clampTokens (fst u); out = clampTokens (snd u);
          e = \<lparr>leCredentialName = crName cred, leUpstream = upstream, leModel = model, leInputTokens = i,
               leOutputTokens = out, leCostCents = 0, leCostSource = [], leStatus = status,
               leActedFor = atActedFor att, leRunID = atRunID att, leCreatedAt = 0\<rparr>
      in if upClassification up = ClassFree then e\<lparr>leCostSource := ''free''\<rparr>
         else (case price of
                 Some p \<Rightarrow> e\<lparr>leCostSource := ''priced'', leCostCents := CostCents p i out\<rparr>
               | None \<Rightarrow> e\<lparr>leCostSource := ''unpriced''\<rparr>))"

subsection \<open>The call\<close>

text \<open>What became of the upstream call: counted, ledgered and answered.\<close>

definition px_finish ::
  "'s ProxyDeps \<Rightarrow> Credential \<Rightarrow> Attribution \<Rightarrow> Upstream \<Rightarrow> string \<Rightarrow> string \<Rightarrow> price option \<Rightarrow> Reservation \<Rightarrow>
     send_error + UpstreamResponse \<Rightarrow> 's gw \<Rightarrow> Response \<times> 's gw" where
  "px_finish d cred att up name model price res result g =
     (let (admitted, admittedBy) = (if rsGranted res then (Granted, ReasonBudget) else (Allowed, ReasonOK));
          settle = (\<lambda>why u status. px_record d (ledgerFor cred att name model up price u status) (rsID res) (Decide admitted why g))
      in case result of
           Inl e \<Rightarrow>
             (http_error ''upstream unreachable'' 502,
              settle (if (case e of SendError (Some x) _ \<Rightarrow> IsRefusal x | _ \<Rightarrow> False) then ReasonEgressRefused
                      else ReasonUpstreamUnreachable) (0, 0) 502)
         | Inr u \<Rightarrow>
             (let why = (if urStatus u < 300 then admittedBy else ReasonUpstreamError) in
              if is_event_stream u then
                (case px_relayStream u of
                   (text, used) \<Rightarrow>
                     (\<lparr>rpStatus = urStatus u, rpHeader = relay_headers u, rpBody = text\<rparr>, settle why used (urStatus u)))
              else
                (case readBounded u of
                   None \<Rightarrow> (http_error ''upstream response cut'' 502, settle ReasonUpstreamError (0, 0) 502)
                 | Some raw \<Rightarrow>
                     (\<lparr>rpStatus = urStatus u, rpHeader = header_del ''Content-Length'' (relay_headers u), rpBody = raw\<rparr>,
                      settle why (relayBuffered raw) (urStatus u)))))"

definition px_url :: "Upstream \<Rightarrow> string" where
  "px_url up = trim_suffix (upBaseURL up) ''/'' @ ''/'' @ upPath up"

definition px_headers :: "Upstream \<Rightarrow> string \<Rightarrow> header \<Rightarrow> header" where
  "px_headers up secret hdr =
     (let h = copyRequestHeaders [] hdr;
          h1 = (if upCredentialFile up = [] then h
                else if upCredentialHeader up = [] \<or> equal_fold (upCredentialHeader up) ''authorization''
                then header_set ''Authorization'' (''Bearer '' @ secret) h
                else header_set (upCredentialHeader up) secret h)
      in fold (\<lambda>(k, v) h. header_set k v h) (upExtraHeaders up) h1)"

definition px_secret :: "'s ProxyDeps \<Rightarrow> Upstream \<Rightarrow> 's \<Rightarrow> string option" where
  "px_secret d up s =
     (if upCredentialFile up = [] then Some []
      else case pdReadFile d (upCredentialFile up) s of
             None \<Rightarrow> None
           | Some raw \<Rightarrow> if trim_space raw = [] then None else Some (trim_space raw))"

text \<open>An admitted call: the credential, the body, the request, its outcome.\<close>

definition px_send ::
  "'s ProxyDeps \<Rightarrow> Request \<Rightarrow> Credential \<Rightarrow> Attribution \<Rightarrow> Upstream \<Rightarrow> string \<Rightarrow> string \<Rightarrow> bool \<Rightarrow> Reservation \<Rightarrow>
     's gw \<Rightarrow> Response \<times> 's gw" where
  "px_send d r cred att up body model stream res g =
     (let name = rqName r; price = map_get (upPrices up) model in
      case px_secret d up (gwStore g) of
        None \<Rightarrow> px_deny d cred att name model 503 ''upstream credential unavailable'' (rsID res) g
      | Some secret \<Rightarrow>
          (case (if stream then withIncludeUsage body else Included body) of
             NotAnObject \<Rightarrow> px_deny d cred att name model 400 ''request body is not a JSON object'' (rsID res) g
           | IncludePanics \<Rightarrow> (aborted, g)
           | Included outBody \<Rightarrow>
               if pdBadURL d (px_url up) then px_deny d cred att name model 502 ''upstream request build failed'' (rsID res) g
               else
                 (case px_clientFor d up of
                    Inl e \<Rightarrow> px_finish d cred att up name model price res (Inl e) g
                  | Inr hardened \<Rightarrow>
                      (let out = \<lparr>obURL = px_url up, obMethod = ''POST'', obHeader = px_headers up secret (rqHeader r),
                                  obBody = outBody, obHardened = hardened\<rparr>
                       in case in_store (pdSend d out) (g\<lparr>gwSent := gwSent g @ [out]\<rparr>) of
                            (result, g1) \<Rightarrow> px_finish d cred att up name model price res result g1))))"

text \<open>Admission: the price gate, the ledger breaker, the reservation.\<close>

definition px_admit ::
  "'s ProxyDeps \<Rightarrow> Request \<Rightarrow> Credential \<Rightarrow> Attribution \<Rightarrow> Upstream \<Rightarrow> string \<Rightarrow> string \<Rightarrow> bool \<Rightarrow> 's gw \<Rightarrow> Response \<times> 's gw" where
  "px_admit d r cred att up body model stream g =
     (let name = rqName r; priced = (map_get (upPrices up) model \<noteq> None); metered = (upClassification up = ClassMetered) in
      if metered \<and> crCapCents cred \<noteq> None \<and> \<not> priced
      then px_deny d cred att name model 403
             ''model has no configured price; a cents budget requires one (set a price or use a token budget)'' [] g
      else if gwDegraded g then px_deny d cred att name model 503 ''spend ledger unavailable'' [] g
      else case in_store (\<lambda>s. Reserve (pdMeter d\<lparr>mtNow := pdNow d s\<rparr>) cred (metered \<and> priced) s) g of
             (Inl dn, g1) \<Rightarrow>
               (let status = (if dnStatus dn = 403 \<or> dnStatus dn = 429 then dnStatus dn else 403);
                    (note, g2) =
                      (if dnBudgetSubject dn = [] then ([], g1)
                       else (case in_store (psFileApprovalRequest (pdStore d)
                                 \<lparr>fiCredential = crName cred, fiKind = ''budget'', fiSubject = dnBudgetSubject dn,
                                  fiDetail = ''denied '' @ model @ '' via upstream '' @ name, fiArgDigest = [], fiArgSummary = []\<rparr>) g1 of
                               (Inl _, g2) \<Rightarrow> ([], g2)
                             | (Inr _, g2) \<Rightarrow> (filed_note, g2)))
                in px_deny d cred att name model status (dnMsg dn @ note) [] g2)
           | (Inr res, g1) \<Rightarrow> px_send d r cred att up body model stream res g1)"

definition px_forward :: "'s ProxyDeps \<Rightarrow> string \<Rightarrow> Request \<Rightarrow> 's gw \<Rightarrow> Response \<times> 's gw" where
  "px_forward d path r g =
     (let token = bearer (header_get (rqHeader r) ''Authorization''); name = rqName r in
      if token = [] then (http_error ''unauthorized'' 401, Decide Denied ReasonUnauthorized g)
      else case in_store (psCredentialByTokenHash (pdStore d) (pdSha d token)) g of
             (Inl e, g1) \<Rightarrow>
               if e = ErrNotFound then (http_error ''unauthorized'' 401, Decide Denied ReasonUnauthorized g1)
               else (http_error ''credential store unavailable'' 503, Decide Denied ReasonCredentialStore g1)
           | (Inr cred, g1) \<Rightarrow>
               (case in_store (psActorFor (pdStore d) (crName cred)) g1 of
                  (a, g2) \<Rightarrow>
                    (let att = actor_or_lost a in
                     if Expired cred (pdNow d (gwStore g2))
                     then px_deny d cred att name [] 403 (ExpiredMessage (pdUprint d) cred) [] g2
                     else case map_get (pdUpstreams d) name of
                            None \<Rightarrow> px_deny d cred att name [] 403 ''unknown upstream'' [] g2
                          | Some up \<Rightarrow>
                              if path \<noteq> upPath up then px_deny d cred att name [] 403 ''path not allowed'' [] g2
                              else (case read_body px_maxRequestBody r of
                                      None \<Rightarrow> px_deny d cred att name [] 400 ''request body unreadable or too large'' [] g2
                                    | Some body \<Rightarrow>
                                        (case chat_request body of
                                           None \<Rightarrow> px_deny d cred att name [] 400 ''request body is not valid JSON'' [] g2
                                         | Some (model, stream) \<Rightarrow> px_admit d r cred att up body model stream g2)))))"

end
