(* ===== verification/ProxyFlow.thy ===== *)
theory ProxyFlow
  imports Proxy GatewayFlow
begin

text \<open>
  What one request of the metering proxy can do: the path that leads to a message upstream, the
  ledger write every such path ends in, the contract of the store behind it, and its Postgres
  instance.
\<close>

lemma px_record_sent [simp]: "gwSent (px_record d e res g) = gwSent g"
  by (auto simp: px_record_def in_store_def split: prod.splits sum.splits)

lemma px_deny_sent: "px_deny d cred att up m status msg res g = (resp, g') \<Longrightarrow> gwSent g' = gwSent g"
  by (auto simp: px_deny_def)

text \<open>
  What the upstream reported: the usage of its stream or its body, none when the call failed or the
  answer was cut, and the status.
\<close>

definition reported :: "send_error + UpstreamResponse \<Rightarrow> usage \<times> int" where
  "reported result = (case result of Inl _ \<Rightarrow> ((0, 0), 502)
     | Inr u \<Rightarrow> if is_event_stream u then (snd (px_relayStream u), urStatus u)
         else (case readBounded u of None \<Rightarrow> ((0, 0), 502) | Some raw \<Rightarrow> (relayBuffered raw, urStatus u)))"

text \<open>Whatever the upstream did, the call ends in one ledger write of that which settles its reservation.\<close>

lemma px_finish_settles:
  assumes "px_finish d cred att up name model price res result g = (resp, g')"
  obtains admitted why where "g' = px_record d (ledgerFor cred att name model up price (fst (reported result)) (snd (reported result)))
      (rsID res) (Decide admitted why g)"
proof -
  obtain admitted by_what where a: "(if rsGranted res then (Granted, ReasonBudget) else (Allowed, ReasonOK)) = (admitted, by_what)"
    by fastforce
  note u = assms [unfolded px_finish_def Let_def a]
  show thesis
  proof (cases result)
    case (Inl e)
    then show thesis using u by (auto simp: reported_def intro: that)
  next
    case (Inr v)
    obtain lines used where rs: "px_relayStream v = (lines, used)" by (meson surj_pair)
    show thesis
    proof (cases "is_event_stream v")
      case True
      then show thesis using u Inr rs by (auto simp: reported_def intro: that)
    next
      case False
      then show thesis using u Inr by (cases "readBounded v") (auto simp: reported_def intro: that)
    qed
  qed
qed

lemma px_send_outcome:
  assumes "px_send d r cred att up body model stream res g = (resp, g')"
  obtains "gwSent g' = gwSent g"
  | out secret g1 admitted why result where "px_secret d up (gwStore g) = Some secret"
      "(if stream then withIncludeUsage body else Included body) = Included (obBody out)"
      "obURL out = px_url up" "obMethod out = ''POST''" "obHeader out = px_headers up secret (rqHeader r)"
      "obHardened out = upInternet up"
      "in_store (pdSend d out) (g\<lparr>gwSent := gwSent g @ [out]\<rparr>) = (result, g1)"
      "g' = px_record d (ledgerFor cred att (rqName r) model up (map_get (upPrices up) model) (fst (reported result))
         (snd (reported result))) (rsID res) (Decide admitted why g1)"
      "gwSent g' = gwSent g @ [out]"
proof (cases "px_secret d up (gwStore g)")
  case None
  then show thesis using assms by (intro that(1)) (auto simp: px_send_def Let_def dest: px_deny_sent)
next
  case (Some secret)
  note sec = this
  show thesis
  proof (cases "if stream then withIncludeUsage body else Included body")
    case NotAnObject
    then show thesis using assms sec by (intro that(1)) (auto simp: px_send_def Let_def dest: px_deny_sent)
  next
    case IncludePanics
    then show thesis using assms sec by (intro that(1)) (auto simp: px_send_def Let_def)
  next
    case (Included outBody)
    note inc = this
    show thesis
    proof (cases "pdBadURL d (px_url up) \<or> px_clientFor d up \<noteq> Inr (upInternet up)")
      case True
      then have "gwSent g' = gwSent g"
        using assms sec inc unfolding px_send_def Let_def
        by (auto simp: px_clientFor_def split: if_splits dest: px_deny_sent elim!: px_finish_settles)
      then show thesis by (rule that(1))
    next
      case False
      let ?out = "\<lparr>obURL = px_url up, obMethod = ''POST'', obHeader = px_headers up secret (rqHeader r),
                   obBody = outBody, obHardened = upInternet up\<rparr>"
      obtain result g1 where s: "in_store (pdSend d ?out) (g\<lparr>gwSent := gwSent g @ [?out]\<rparr>) = (result, g1)" by fastforce
      have "px_finish d cred att up (rqName r) model (map_get (upPrices up) model) res result g1 = (resp, g')"
        using assms sec inc False s unfolding px_send_def Let_def by (auto split: if_splits)
      then obtain admitted why where g':
        "g' = px_record d (ledgerFor cred att (rqName r) model up (map_get (upPrices up) model) (fst (reported result))
           (snd (reported result))) (rsID res) (Decide admitted why g1)"
        by (rule px_finish_settles)
      have "gwSent g' = gwSent g @ [?out]" using g' in_store_sent [OF s] by simp
      then show thesis using that(2) [of secret ?out result g1] sec inc s g' by simp
    qed
  qed
qed

lemma px_admit_outcome:
  assumes "px_admit d r cred att up body model stream g = (resp, g')"
  obtains "gwSent g' = gwSent g"
  | res g1 where "\<not> gwDegraded g"
      "in_store (\<lambda>s. Reserve (pdMeter d\<lparr>mtNow := pdNow d s\<rparr>) cred
         (upClassification up = ClassMetered \<and> map_get (upPrices up) model \<noteq> None) s) g = (Inr res, g1)"
      "upClassification up = ClassMetered \<longrightarrow> crCapCents cred \<noteq> None \<longrightarrow> map_get (upPrices up) model \<noteq> None"
      "px_send d r cred att up body model stream res g1 = (resp, g')"
proof (cases "(upClassification up = ClassMetered \<and> crCapCents cred \<noteq> None \<and> map_get (upPrices up) model = None) \<or> gwDegraded g")
  case True
  then have "gwSent g' = gwSent g" using assms by (auto simp: px_admit_def Let_def split: if_splits dest: px_deny_sent)
  then show thesis by (rule that(1))
next
  case False
  obtain rr g1 where rv: "in_store (\<lambda>s. Reserve (pdMeter d\<lparr>mtNow := pdNow d s\<rparr>) cred
         (upClassification up = ClassMetered \<and> map_get (upPrices up) model \<noteq> None) s) g = (rr, g1)" by fastforce
  show thesis
  proof (cases rr)
    case (Inl dn)
    then have "gwSent g' = gwSent g" using assms False rv in_store_sent [OF rv] unfolding px_admit_def Let_def
      by (auto split: if_splits prod.splits sum.splits dest!: px_deny_sent in_store_sent)
    then show thesis by (rule that(1))
  next
    case (Inr res)
    then show thesis using that(2) [of res g1] assms False rv unfolding px_admit_def Let_def by (auto split: if_splits)
  qed
qed

lemma px_forward_outcome:
  assumes "px_forward d path r g = (resp, g')"
  obtains "gwSent g' = gwSent g"
  | cred att g1 g2 a up body model stream where "bearer (header_get (rqHeader r) ''Authorization'') \<noteq> []"
      "in_store (psCredentialByTokenHash (pdStore d) (pdSha d (bearer (header_get (rqHeader r) ''Authorization'')))) g = (Inr cred, g1)"
      "in_store (psActorFor (pdStore d) (crName cred)) g1 = (a, g2)" "att = actor_or_lost a"
      "\<not> Expired cred (pdNow d (gwStore g2))" "map_get (pdUpstreams d) (rqName r) = Some up" "path = upPath up"
      "read_body px_maxRequestBody r = Some body" "chat_request body = Some (model, stream)"
      "px_admit d r cred att up body model stream g2 = (resp, g')"
  using assms unfolding px_forward_def Let_def
  by (auto split: if_splits prod.splits sum.splits option.splits dest: px_deny_sent in_store_sent)

subsection \<open>The contract of the store\<close>

text \<open>A ledger write that is acknowledged stands, and the reservation it settles is gone.\<close>

locale proxy_contract = door "psCredentialByTokenHash st" "psActorFor st" view holder
  for st :: "'s proxy_store" and view :: "'s \<Rightarrow> 'v" and holder +
  fixes ledgered :: "LedgerEntry \<Rightarrow> string \<Rightarrow> 's \<Rightarrow> 's \<Rightarrow> bool"
  assumes record_ledgered: "psRecordLedger st e res s = (Inr u, s') \<Longrightarrow> ledgered e res s s'"
begin

lemma px_record_ledgers:
  assumes "pdStore d = st"
  shows "gwDegraded (px_record d e res g) \<or> ledgered e res (gwStore g) (gwStore (px_record d e res g))"
  using assms record_ledgered
  by (auto simp: px_record_def in_store_def split: prod.splits sum.splits)

lemma spent_is_admitted:
  assumes "px_forward d path r g = (resp, g')" "pdStore d = st" "gwSent g' \<noteq> gwSent g"
  obtains cred att up body model stream s2 res g1 where
    "holder (pdSha d (bearer (header_get (rqHeader r) ''Authorization''))) cred (view (gwStore g))"
    "view s2 = view (gwStore g)" "\<not> Expired cred (pdNow d s2)" "\<not> gwDegraded g"
    "map_get (pdUpstreams d) (rqName r) = Some up" "path = upPath up"
    "read_body px_maxRequestBody r = Some body" "chat_request body = Some (model, stream)"
    "upClassification up = ClassMetered \<longrightarrow> crCapCents cred \<noteq> None \<longrightarrow> map_get (upPrices up) model \<noteq> None"
    "Reserve (pdMeter d\<lparr>mtNow := pdNow d s2\<rparr>) cred
       (upClassification up = ClassMetered \<and> map_get (upPrices up) model \<noteq> None) s2 = (Inr res, gwStore g1)"
    "gwSent g1 = gwSent g" "px_send d r cred att up body model stream res g1 = (resp, g')"
  using assms(1)
proof (cases rule: px_forward_outcome)
  case 1
  then show thesis using assms(3) by simp
next
  case (2 cred att g1 g2 a up body model stream)
  note door = at_the_door [OF 2(2) [unfolded assms(2)] 2(3) [unfolded assms(2)]]
  from 2(10) show thesis
  proof (cases rule: px_admit_outcome)
    case 1
    then show thesis using assms(3) door(4) by simp
  next
    case B: (2 res h)
    have "Reserve (pdMeter d\<lparr>mtNow := pdNow d (gwStore g2)\<rparr>) cred
       (upClassification up = ClassMetered \<and> map_get (upPrices up) model \<noteq> None) (gwStore g2) = (Inr res, gwStore h)"
      using in_store_fst [OF B(2)] by simp
    then show thesis using that [of cred "gwStore g2" up body model stream res h att] 2 door B(1,3,4) in_store_sent [OF B(2)] by simp
  qed
qed

lemma spent_is_ledgered:
  assumes "px_send d r cred att up body model stream res g = (resp, g')" "pdStore d = st" "gwSent g' \<noteq> gwSent g"
  obtains out result s where "gwSent g' = gwSent g @ [out]" "obURL out = px_url up" "obHardened out = upInternet up"
    "(if stream then withIncludeUsage body else Included body) = Included (obBody out)"
    "pdSend d out (gwStore g) = (result, s)"
    "gwDegraded g' \<or> ledgered (ledgerFor cred att (rqName r) model up (map_get (upPrices up) model) (fst (reported result))
       (snd (reported result))) (rsID res) s (gwStore g')"
  using assms(1)
proof (cases rule: px_send_outcome)
  case 1
  then show thesis using assms(3) by simp
next
  case (2 out secret g1 admitted why result)
  have "gwStore (Decide admitted why g1) = gwStore g1" by simp
  then show thesis using that [OF 2(9,3,6,2)] in_store_fst [OF 2(7)] 2(8) px_record_ledgers [OF assms(2)] by (metis gw.simps(8) gw.surjective gw.update_convs(3) gw.select_convs(1))
qed

end

subsection \<open>The Postgres store\<close>

definition pg_proxy_store :: "world proxy_store" where
  "pg_proxy_store =
     \<lparr>psCredentialByTokenHash = (\<lambda>h. pg_read (\<lambda>now d. CredentialByTokenHash h d)),
      psActorFor = (\<lambda>c. pg_read (\<lambda>now d. ActorFor c now d)),
      psRecordLedger = (\<lambda>e res. pg_write (\<lambda>now uuid d. RecordLedger e res now d)),
      psFileApprovalRequest = (\<lambda>f. pg_write (\<lambda>now uuid d. FileApprovalRequest f now uuid d))\<rparr>"

definition pg_ledgered :: "LedgerEntry \<Rightarrow> string \<Rightarrow> world \<Rightarrow> world \<Rightarrow> bool" where
  "pg_ledgered e res w w' \<longleftrightarrow> (\<exists>row. ledger_entry (wdb w') = ledger_entry (wdb w) @ [row] \<and>
     leCredentialName row = leCredentialName e \<and> leUpstream row = leUpstream e \<and> leModel row = leModel e \<and>
     leStatus row = leStatus e \<and> leCostCents row = leCostCents e \<and> row_tokens row = row_tokens e \<and>
     leCostSource row = leCostSource e) \<and>
     (res \<noteq> [] \<longrightarrow> (\<forall>h \<in> set (spend_reservation (wdb w')). srID h \<noteq> the (pg_uuid res)))"

lemma pg_ledgered_row:
  "pg_ledgered (ledgerFor cred att name model up price u status) res w w' \<Longrightarrow>
    \<exists>e \<in> set (ledger_entry (wdb w')). leCredentialName e = crName cred"
  by (auto simp: pg_ledgered_def ledgerFor_def Let_def split: option.splits if_splits)

lemma RecordLedger_row:
  assumes "RecordLedger e res now d = (Inr (), d')"
  shows "\<exists>row. ledger_entry d' = ledger_entry d @ [row] \<and> leCredentialName row = leCredentialName e \<and>
    leUpstream row = leUpstream e \<and> leModel row = leModel e \<and> leStatus row = leStatus e \<and> leCostCents row = leCostCents e \<and>
    row_tokens row = row_tokens e \<and> leCostSource row = leCostSource e"
  using assms by (auto simp: RecordLedger_def insert_ledger_def row_tokens_def split: sum.splits if_splits option.splits)

interpretation pg_proxy: proxy_contract pg_proxy_store pg_view pg_holder pg_ledgered
proof
  fix h c s s' and r :: "store_error + Credential" and a :: "store_error + Attribution" and e res u
  show "psCredentialByTokenHash pg_proxy_store h s = (r, s') \<Longrightarrow> pg_view s' = pg_view s"
    by (simp add: pg_proxy_store_def pg_read_view)
  show "psActorFor pg_proxy_store c s = (a, s') \<Longrightarrow> pg_view s' = pg_view s"
    by (simp add: pg_proxy_store_def pg_read_view)
  assume "psRecordLedger pg_proxy_store e res s = (Inr u, s')"
  then have r: "RecordLedger e res (wnow s) (wdb s) = (Inr (), wdb s')"
    by (auto simp: pg_proxy_store_def dest!: pg_write_Inr(1))
  show "pg_ledgered e res s s'"
    using RecordLedger_row [OF r] RecordLedger_appends(2) [OF r] by (auto simp: pg_ledgered_def)
next
  fix h c s s'
  show "psCredentialByTokenHash pg_proxy_store h s = (Inr c, s') \<Longrightarrow> pg_holder h c (pg_view s)"
    by (simp add: pg_proxy_store_def pg_lookup_holder)
qed

end
