(* ===== verification/ProxyEval.thy ===== *)
theory ProxyEval
  imports ProxyFlow MeterProps GatewayEval
begin

text \<open>
  Evaluation of the metering proxy on the small database of \<open>StoreEval\<close>: one free upstream, and
  a credential whose token cap makes every call take a reservation.
\<close>

lemma demo_admits:
  assumes "0 \<le> shCents hold" "0 \<le> shTokens hold"
  shows "AdmitSpend ''bot'' hold ms ttl 3 demo_uuid demo_approved =
      (Inr (NoAdmission\<lparr>adReservationID := demo_uuid, adGranted := False\<rparr>),
       demo_approved\<lparr>spend_reservation := [\<lparr>srID = demo_uuid, srCredentialName = ''bot'', srHoldCents = shCents hold,
         srHoldTokens = shTokens hold, srCreatedAt = 3, srExpiresAt = 3 + ttl\<rparr>]\<rparr>)"
proof -
  have e: "spend_reservation demo_approved = []" "ledger_entry demo_approved = []" "has_credential demo_approved ''bot''"
    by (simp_all add: demo_defs has_credential_def)
  have s: "sweep_reservations ''bot'' 3 demo_approved = demo_approved" using e by (simp add: sweep_reservations_def)
  have m: "monthCommitted ''bot'' ms 3 demo_approved = Inr (0, 0)"
    using e by (simp add: monthCommitted_def ledger_rows_def open_holds_def scan_int64_def int64_ok_def ascii_text_ok)
  have b: "budget_needs (Credential.truncate demo_cred) 0 0 = []" "crCapTokens (Credential.truncate demo_cred) = Some 2"
    by (simp_all add: budget_needs_def demo_cred_def Credential.truncate_def)
  show ?thesis using demo_lock e s m b assms
    by (simp add: AdmitSpend_def insert_reservation_def ascii_text_ok)
qed

definition px_up :: Upstream where
  "px_up = \<lparr>upBaseURL = ''http://llm/'', upPath = ''v1'', upClassification = ''free'', upCredentialFile = [],
     upCredentialHeader = [], upExtraHeaders = [], upPrices = [], upInternet = False, upCAFile = []\<rparr>"

definition px_deps :: "world ProxyDeps" where
  "px_deps = \<lparr>pdStore = pg_proxy_store, pdMeter = \<lparr>mtStore = pg_meter_store, mtNow = 0, mtHoldTTL = 0\<rparr>,
     pdUpstreams = [(''llm'', px_up)], pdHasInternetClient = False,
     pdSend = (\<lambda>out w. (Inr \<lparr>urStatus = 200, urHeader = [], urBody = ''ok'', urCut = None\<rparr>, w)),
     pdBadURL = (\<lambda>u. False), pdReadFile = (\<lambda>f w. None), pdNow = wnow,
     pdSha = (\<lambda>s. if s = ''tok'' then ''h'' else []), pdUprint = (\<lambda>c. True)\<rparr>"

definition px_request :: "string \<Rightarrow> Request" where
  "px_request body = \<lparr>rqName = ''llm'', rqHeader = [(''Authorization'', [''Bearer tok''])], rqBody = body, rqBroken = False\<rparr>"

lemma px_deps_sel [simp]:
  "pdStore px_deps = pg_proxy_store" "pdMeter px_deps = \<lparr>mtStore = pg_meter_store, mtNow = 0, mtHoldTTL = 0\<rparr>"
  "pdUpstreams px_deps = [(''llm'', px_up)]" "pdNow px_deps = wnow" "pdBadURL px_deps u = False"
  by (simp_all add: px_deps_def)

definition px_held :: "world gw" where
  "px_held = (gw_start demo_approved)\<lparr>gwStore := (gwStore (gw_start demo_approved))\<lparr>wnext := 1, wdb :=
     demo_approved\<lparr>spend_reservation := [\<lparr>srID = demo_uuid, srCredentialName = ''bot'', srHoldCents = 0,
         srHoldTokens = 1, srCreatedAt = 3, srExpiresAt = 3 + DefaultHoldTTL\<rparr>]\<rparr>\<rparr>\<rparr>"

lemma px_reserves:
  "in_store (\<lambda>s. Reserve (\<lparr>mtStore = pg_meter_store, mtNow = 0, mtHoldTTL = 0\<rparr>\<lparr>mtNow := wnow s\<rparr>)
       (Credential.truncate demo_cred) False s) (gw_start demo_approved) = (Inr \<lparr>rsID = demo_uuid, rsGranted = False\<rparr>, px_held)"
  using demo_admits [of "Hold False" "MonthStartUTC 3" DefaultHoldTTL]
  by (simp add: in_store_def Reserve_def pg_meter_store_def pg_write_def next_fault_def gw_start_def demo_name holdTTL_def
        NoAdmission_def px_held_def Hold_def)

lemma px_reaches_send:
  assumes "chat_request body = Some (model, stream)" "length body < 10485760"
  shows "px_forward px_deps ''v1'' (px_request body) (gw_start demo_approved) =
    px_send px_deps (px_request body) (Credential.truncate demo_cred) Unattributed px_up body model stream
      \<lparr>rsID = demo_uuid, rsGranted = False\<rparr> px_held"
proof -
  have b: "bearer (header_get (rqHeader (px_request body)) ''Authorization'') = ''tok''"
    by (simp add: px_request_def bearer_def header_get_def canonical_key_def header_byte_def map_get_def cut_prefix_def go_defs)
  have l: "in_store (psCredentialByTokenHash pg_proxy_store (pdSha px_deps ''tok'')) (gw_start demo_approved) =
      (Inr (Credential.truncate demo_cred), gw_start demo_approved)"
    by (simp add: in_store_def px_deps_def pg_proxy_store_def pg_read_def next_fault_def gw_start_def CredentialByTokenHash_def demo_defs)
  have a: "in_store (psActorFor pg_proxy_store ''bot'') (gw_start demo_approved) = (Inr Unattributed, gw_start demo_approved)"
    by (simp add: in_store_def pg_proxy_store_def pg_read_def next_fault_def gw_start_def ActorFor_def ascii_text_ok demo_defs)
  have x: "\<not> Expired (Credential.truncate demo_cred) 3" by (simp add: Expired_def demo_cred_def Credential.truncate_def)
  have m: "upClassification px_up = ''free''" "upPath px_up = ''v1''" by (simp_all add: px_up_def)
  have n: "rqName (px_request body) = ''llm''" "map_get [(''llm'', px_up)] ''llm'' = Some px_up"
    by (simp_all add: px_request_def map_get_def)
  have rd: "read_body px_maxRequestBody (px_request body) = Some body"
    using assms(2) by (simp add: read_body_def px_request_def px_maxRequestBody_def)
  have "px_admit px_deps (px_request body) (Credential.truncate demo_cred) Unattributed px_up body model stream (gw_start demo_approved) =
    px_send px_deps (px_request body) (Credential.truncate demo_cred) Unattributed px_up body model stream
      \<lparr>rsID = demo_uuid, rsGranted = False\<rparr> px_held"
    using px_reserves by (simp add: px_admit_def Let_def m ClassMetered_def)
  then show ?thesis
    using l a x by (simp add: px_forward_def Let_def b n m rd assms(1) demo_name actor_or_lost_def)
qed

end
