(* ===== verification/ProxyProps.thy ===== *)
theory ProxyProps
  imports ProxyEval
begin

text \<open>
  The properties of the metering proxy: what leaves it is admitted and ledgered, what it reads of
  a body, which bodies leave a hold behind or a spend out of the ledger, and the rows it writes.
\<close>

subsection \<open>Admission\<close>

text \<open>
  C2: whatever leaves the proxy is one message, the body of the request (asking for the usage when it
  is a stream), to the one path of a named upstream with the client its entry asks for, while the
  ledger breaker is closed, for a credential whose token hash is the one presented and that is not
  expired by the clock of the request; under a cents budget the model has a price; it leaves from
  the state in which the meter's reservation for this call was made, and without a budget grant
  every cap had room left before that; and what the upstream reported is a new row of the ledger,
  under this credential, upstream, model, status and price, its hold gone, unless the breaker is now
  open.
\<close>

theorem spend_is_admitted_and_ledgered:
  assumes "px_forward d path r g = (resp, g')" "pdStore d = pg_proxy_store" "mtStore (pdMeter d) = pg_meter_store"
    and "gwSent g' \<noteq> gwSent g"
  shows "\<exists>row cred att fs now up model stream price (res :: Reservation) held out result s. row \<in> set (credentials (wdb (gwStore g))) \<and>
    crTokenHash row = pdSha d (bearer (header_get (rqHeader r) ''Authorization'')) \<and> cred = Credential.truncate row \<and>
    now = (gwStore g)\<lparr>wfaults := fs\<rparr> \<and> \<not> Expired cred (pdNow d now) \<and> \<not> gwDegraded g \<and>
    map_get (pdUpstreams d) (rqName r) = Some up \<and> path = upPath up \<and> chat_request (rqBody r) = Some (model, stream) \<and>
    price = map_get (upPrices up) model \<and> (upClassification up = ClassMetered \<and> crCapCents cred \<noteq> None \<longrightarrow> price \<noteq> None) \<and>
    Reserve (pdMeter d\<lparr>mtNow := pdNow d now\<rparr>) cred (upClassification up = ClassMetered \<and> price \<noteq> None) now = (Inr res, held) \<and>
    (\<not> rsGranted res \<longrightarrow> under_caps (crName cred) (MonthStartUTC (pdNow d now)) now) \<and>
    gwSent g' = gwSent g @ [out] \<and> obURL out = px_url up \<and> obHardened out = upInternet up \<and>
    (if stream then withIncludeUsage (rqBody r) else Included (rqBody r)) = Included (obBody out) \<and>
    pdSend d out held = (result, s) \<and>
    (gwDegraded g' \<or> pg_ledgered (ledgerFor cred att (rqName r) model up price (fst (reported result)) (snd (reported result)))
       (rsID res) s (gwStore g'))"
  using assms(1,2,4)
proof (cases rule: pg_proxy.spent_is_admitted)
  case (1 cred att up body model stream s2 res g1)
  have sent: "gwSent g' \<noteq> gwSent g1" using 1(11) assms(4) by simp
  obtain row where row: "row \<in> set (credentials (wdb (gwStore g)))" "Credential.truncate row = cred"
    "crTokenHash row = pdSha d (bearer (header_get (rqHeader r) ''Authorization''))"
    using 1(1) by (auto simp: pg_holder_def)
  have body: "body = rqBody r" using 1(7) by (auto simp: read_body_def split: if_splits)
  note w = pg_viewD(1) [OF 1(2)]
  have caps: "\<not> rsGranted res \<longrightarrow> under_caps (crName cred) (MonthStartUTC (pdNow d s2)) s2"
    using pg_budget.reserve_admitted [OF 1(10)] assms(3) by simp
  obtain out result s where out: "gwSent g' = gwSent g1 @ [out]" "obURL out = px_url up" "obHardened out = upInternet up"
    "(if stream then withIncludeUsage body else Included body) = Included (obBody out)" "pdSend d out (gwStore g1) = (result, s)"
    "gwDegraded g' \<or> pg_ledgered (ledgerFor cred att (rqName r) model up (map_get (upPrices up) model) (fst (reported result))
       (snd (reported result))) (rsID res) s (gwStore g')"
    by (rule pg_proxy.spent_is_ledgered [OF 1(12) assms(2) sent])
  have price: "upClassification up = ClassMetered \<and> crCapCents cred \<noteq> None \<longrightarrow> map_get (upPrices up) model \<noteq> None"
    using 1(9) by blast
  show ?thesis
    by (rule exI [of _ row], rule exI [of _ cred], rule exI [of _ att], rule exI [of _ "wfaults s2"], rule exI [of _ s2],
        rule exI [of _ up], rule exI [of _ model], rule exI [of _ stream], rule exI [of _ "map_get (upPrices up) model"],
        rule exI [of _ res], rule exI [of _ "gwStore g1"], rule exI [of _ out], rule exI [of _ result], rule exI [of _ s])
       (intro conjI row(1,3) row(2) [symmetric] w caps out [unfolded body 1(11)] 1(3-6,10) 1(8) [unfolded body] price refl)
qed

lemma chat_eval:
  assumes "lex body = doc_lexemes (JObj ms)" "nesting (JObj ms) \<le> maxNestingDepth"
  shows "chat_request body = (case fold chat_member ms (([], False), False) of (t, e) \<Rightarrow> if e then None else Some t)"
  using parse_json_run [OF assms] by (simp add: chat_request_def unmarshal_def set_struct_def)

definition plain_chat_body :: string where
  "plain_chat_body = ''{\"model\":\"m\"}''"

lemma plain_chat: "chat_request plain_chat_body = Some (''m'', False)" "length plain_chat_body < 10485760"
  unfolding plain_chat_body_def
  by (subst chat_eval [of _ "[(''model'', JStr ''m'')]"])
     (simp_all add: lex_eval render_eval maxNestingDepth_def chat_member_def names_field_def set_string_def)

lemma px_send_plain:
  "gwSent (snd (px_send px_deps (px_request body) (Credential.truncate demo_cred) Unattributed px_up body model False
      \<lparr>rsID = demo_uuid, rsGranted = False\<rparr> px_held)) =
    [\<lparr>obURL = ''http://llm/v1'', obMethod = ''POST'', obHeader = [], obBody = body, obHardened = False\<rparr>]"
proof -
  have h: "px_headers px_up [] (rqHeader (px_request body)) = []"
    by (simp add: px_headers_def px_up_def px_request_def copyRequestHeaders_def canonical_key_def header_byte_def withheld_def go_defs)
  have u: "px_url px_up = ''http://llm/v1''" "px_secret px_deps px_up s = Some []" "px_clientFor px_deps px_up = Inr False" for s
    by (simp_all add: px_url_def px_up_def px_secret_def px_clientFor_def go_defs)
  have p: "in_store (pdSend px_deps out) g = (Inr \<lparr>urStatus = 200, urHeader = [], urBody = ''ok'', urCut = None\<rparr>, g)" for out g
    by (simp add: px_deps_def in_store_def)
  have ev: "\<not> is_event_stream \<lparr>urStatus = 200, urHeader = [], urBody = ''ok'', urCut = None\<rparr>"
    by (simp add: is_event_stream_def header_get_def map_get_def go_defs)
  have sent: "gwSent px_held = []" by (simp add: px_held_def)
  show ?thesis
    by (simp add: px_send_def Let_def u h p px_finish_def ev readBounded_def px_maxBufferedResp_def Decide_def sent)
qed

theorem spend_is_admitted_and_ledgered_witness:
  "\<exists>resp g'. px_forward px_deps ''v1'' (px_request plain_chat_body) (gw_start demo_approved) = (resp, g') \<and>
    (gwDegraded g' \<or> (\<exists>e \<in> set (ledger_entry (wdb (gwStore g'))). leCredentialName e = ''bot''))"
proof -
  obtain resp g' where r: "px_forward px_deps ''v1'' (px_request plain_chat_body) (gw_start demo_approved) = (resp, g')" by fastforce
  have "gwSent g' \<noteq> gwSent (gw_start demo_approved)"
    using px_send_plain [of plain_chat_body "''m''"] unfolding px_reaches_send [OF plain_chat, symmetric] r by (simp add: gw_start_def)
  moreover have "pdStore px_deps = pg_proxy_store" "mtStore (pdMeter px_deps) = pg_meter_store" by simp_all
  ultimately obtain row att name model up price u status res w where row: "row \<in> set (credentials (wdb (gwStore (gw_start demo_approved))))"
    "gwDegraded g' \<or> pg_ledgered (ledgerFor (Credential.truncate row) att name model up price u status) res w (gwStore g')"
    using spend_is_admitted_and_ledgered [OF r] by blast
  then have "gwDegraded g' \<or> (\<exists>row \<in> set (credentials demo_approved). \<exists>e \<in> set (ledger_entry (wdb (gwStore g'))).
      leCredentialName e = crName (Credential.truncate row))"
    by (elim disjE) (auto simp: gw_start_def dest!: pg_ledgered_row)
  then have "gwDegraded g' \<or> (\<exists>e \<in> set (ledger_entry (wdb (gwStore g'))). leCredentialName e = ''bot'')"
    by (auto simp: demo_defs Credential.truncate_def)
  then show ?thesis using r by blast
qed

subsection \<open>What the proxy reads of a body\<close>

lemma fold_chat_stream:
  assumes "names_field ''stream'' k" "fold chat_member (ms @ [(k, JBool b)]) t = ((m, st), e)"
  shows "st = b"
proof -
  have "\<not> names_field ''model'' k" using assms(1) by (simp add: names_field_def)
  then show ?thesis using assms by (cases "fold chat_member ms t") (auto simp: chat_member_def set_bool_def)
qed

text \<open>
  The last member whose name folds to \<open>stream\<close> decides what the proxy believes, while the
  bytes that leave are the client's own. A body that says \<open>\"stream\":true\<close> and then
  \<open>\"Stream\":false\<close> is forwarded unchanged, without asking for the usage of the stream.
\<close>

theorem a_variant_key_hides_the_stream:
  assumes "parse_json body = Some (JObj (ms @ [(k, JBool False)]))" "names_field ''stream'' k"
    and "chat_request body = Some (model, stream)" "px_send d r cred att up body model stream res g = (resp, g')"
  shows "\<not> stream \<and> (gwSent g' = gwSent g \<or> (\<exists>out. gwSent g' = gwSent g @ [out] \<and> obBody out = body))"
proof -
  obtain t e where f: "fold chat_member (ms @ [(k, JBool False)]) (([], False), False) = (t, e)" by fastforce
  then have "t = (model, stream)" using assms(1,3) by (simp add: chat_request_def unmarshal_def set_struct_def split: if_splits)
  then have "\<not> stream" using fold_chat_stream [OF assms(2), of ms False] f by simp
  moreover from assms(4) have "gwSent g' = gwSent g \<or> (\<exists>out. gwSent g' = gwSent g @ [out] \<and> obBody out = body)"
    by (cases rule: px_send_outcome) (use \<open>\<not> stream\<close> in auto)
  ultimately show ?thesis by blast
qed

definition hidden_stream_body :: string where
  "hidden_stream_body = ''{\"model\":\"m\",\"stream\":true,\"Stream\":false}''"

lemma char_s: "char_of (115::nat) = CHR ''s''"
  by code_simp

lemma hidden_stream:
  "parse_json hidden_stream_body = Some (JObj ([(''model'', JStr ''m''), (''stream'', JBool True)] @ [(''Stream'', JBool False)]))"
  "chat_request hidden_stream_body = Some (''m'', False)" "length hidden_stream_body < 10485760"
  unfolding hidden_stream_body_def
    apply (rule parse_json_run; simp add: lex_eval render_eval maxNestingDepth_def)
   apply (subst chat_eval [of _ "[(''model'', JStr ''m''), (''stream'', JBool True), (''Stream'', JBool False)]"])
     apply (simp_all add: lex_eval render_eval maxNestingDepth_def chat_member_def names_field_def set_string_def set_bool_def char_s)
  done

theorem a_variant_key_hides_the_stream_witness:
  "\<exists>resp g'. px_send px_deps (px_request hidden_stream_body) (Credential.truncate demo_cred) Unattributed px_up hidden_stream_body ''m''
      False \<lparr>rsID = demo_uuid, rsGranted = False\<rparr> px_held = (resp, g') \<and>
    (gwSent g' = gwSent px_held \<or> (\<exists>out. gwSent g' = gwSent px_held @ [out] \<and> obBody out = hidden_stream_body))"
proof -
  have f: "names_field ''stream'' ''Stream''" by (simp add: names_field_def go_defs char_s)
  obtain resp g' where r: "px_send px_deps (px_request hidden_stream_body) (Credential.truncate demo_cred) Unattributed px_up
      hidden_stream_body ''m'' False \<lparr>rsID = demo_uuid, rsGranted = False\<rparr> px_held = (resp, g')" by fastforce
  show ?thesis using a_variant_key_hides_the_stream [OF hidden_stream(1) f hidden_stream(2) r] r by blast
qed

subsection \<open>A hold that nothing settles\<close>

lemma reserve_inserts:
  assumes "Reserve m cred priced s = (Inr res, s')" "mtStore m = pg_meter_store" "rsID res \<noteq> []"
  shows "\<exists>h \<in> set (spend_reservation (wdb s')). srID h = rsID res \<and> srCredentialName h = crName cred \<and>
    srExpiresAt h = wnow s + holdTTL m"
proof -
  obtain a where a: "msAdmitSpend pg_meter_store (crName cred) (Hold priced) (MonthStartUTC (mtNow m)) (holdTTL m) s = (Inr a, s')"
      "rsID res = adReservationID a"
    using assms(1,2) by (auto simp: Reserve_def split: prod.splits sum.splits if_splits)
  from pg_admit(1) [OF a(1)] show ?thesis
    by (cases rule: AdmitSpend_outcome) (use a(2) assms(3) in \<open>auto simp: NoAdmission_def denied_admission_def\<close>)
qed

lemma null_options_panic:
  assumes "parse_json body = Some (JObj ms)" "map_get (raw_object body) ''stream_options'' = Some raw" "parse_json raw = Some JNull"
  shows "withIncludeUsage body = IncludePanics"
  using assms by (simp add: withIncludeUsage_def raw_json_def)

text \<open>
  A streamed body whose \<open>stream_options\<close> is \<open>null\<close> panics after its admission: nothing is
  sent, nothing is written to the ledger, no decision is counted, and the hold it took stays open
  until it expires.
\<close>

theorem null_stream_options_leave_the_hold:
  assumes "parse_json body = Some (JObj ms)" "map_get (raw_object body) ''stream_options'' = Some raw" "parse_json raw = Some JNull"
    and "px_admit d r cred att up body model True g = (resp, g')" "mtStore (pdMeter d) = pg_meter_store"
    and "Reserve (pdMeter d\<lparr>mtNow := pdNow d (gwStore g)\<rparr>) cred
       (upClassification up = ClassMetered \<and> map_get (upPrices up) model \<noteq> None) (gwStore g) = (Inr res, s')"
    and "\<not> (upClassification up = ClassMetered \<and> crCapCents cred \<noteq> None \<and> map_get (upPrices up) model = None)" "\<not> gwDegraded g" "px_secret d up s' = Some secret"
  shows "resp = aborted \<and> gwSent g' = gwSent g \<and> gwDecisions g' = gwDecisions g \<and> gwStore g' = s' \<and>
    (rsID res \<noteq> [] \<longrightarrow> (\<exists>h \<in> set (spend_reservation (wdb (gwStore g'))). srID h = rsID res \<and>
       srCredentialName h = crName cred \<and> srExpiresAt h = wnow (gwStore g) + holdTTL (pdMeter d)))"
proof -
  have p: "withIncludeUsage body = IncludePanics" by (rule null_options_panic [OF assms(1-3)])
  have rv: "in_store (\<lambda>s. Reserve (pdMeter d\<lparr>mtNow := pdNow d s\<rparr>) cred
       (upClassification up = ClassMetered \<and> map_get (upPrices up) model \<noteq> None) s) g = (Inr res, g\<lparr>gwStore := s'\<rparr>)"
    using assms(6) by (simp add: in_store_def)
  have "px_send d r cred att up body model True res (g\<lparr>gwStore := s'\<rparr>) = (aborted, g\<lparr>gwStore := s'\<rparr>)"
    using assms(9) p by (simp add: px_send_def Let_def)
  then have g': "resp = aborted" "g' = g\<lparr>gwStore := s'\<rparr>"
    using assms(4,7,8) rv by (auto simp: px_admit_def Let_def)
  have "rsID res \<noteq> [] \<longrightarrow> (\<exists>h \<in> set (spend_reservation (wdb s')). srID h = rsID res \<and>
       srCredentialName h = crName cred \<and> srExpiresAt h = wnow (gwStore g) + holdTTL (pdMeter d))"
    using reserve_inserts [OF assms(6)] assms(5) by (auto simp: holdTTL_def)
  then show ?thesis using g' by simp
qed


definition null_options_body :: string where
  "null_options_body = ''{\"model\":\"m\",\"stream\":true,\"stream_options\":null}''"

lemma null_options:
  "parse_json null_options_body = Some (JObj [(''model'', JStr ''m''), (''stream'', JBool True), (''stream_options'', JNull)])"
  unfolding null_options_body_def by (rule parse_json_run; simp add: lex_eval render_eval maxNestingDepth_def)

lemma null_options_map: "map_get (raw_object null_options_body) ''stream_options'' = Some ''null''"
  by (simp add: raw_object_def null_options_body_def lex_eval render_eval map_get_def)

lemma null_json: "parse_json ''null'' = Some JNull"
  by (rule parse_json_run; simp add: lex_eval maxNestingDepth_def)

theorem null_stream_options_leave_the_hold_witness:
  "\<exists>resp g'. px_admit px_deps (px_request null_options_body) (Credential.truncate demo_cred) Unattributed px_up null_options_body
      ''m'' True (gw_start demo_approved) = (resp, g') \<and> resp = aborted \<and>
    (\<exists>h \<in> set (spend_reservation (wdb (gwStore g'))). srCredentialName h = ''bot'')"
proof -
  have rv: "Reserve (pdMeter px_deps\<lparr>mtNow := pdNow px_deps (gwStore (gw_start demo_approved))\<rparr>) (Credential.truncate demo_cred)
       (upClassification px_up = ClassMetered \<and> map_get (upPrices px_up) ''m'' \<noteq> None) (gwStore (gw_start demo_approved)) =
     (Inr \<lparr>rsID = demo_uuid, rsGranted = False\<rparr>, gwStore px_held)"
    using px_reserves by (fastforce simp: in_store_def px_up_def ClassMetered_def split: prod.splits dest: arg_cong [where f = gwStore])
  obtain resp g' where r: "px_admit px_deps (px_request null_options_body) (Credential.truncate demo_cred) Unattributed px_up
      null_options_body ''m'' True (gw_start demo_approved) = (resp, g')" by fastforce
  have sec: "px_secret px_deps px_up s = Some []" for s by (simp add: px_secret_def px_up_def)
  show ?thesis
    using null_stream_options_leave_the_hold [OF null_options null_options_map null_json r _ rv _ _ sec] r
    by (auto simp: gw_start_def demo_uuid_def px_up_def ClassMetered_def demo_name)
qed

subsection \<open>The rows of the ledger\<close>

lemma RecordLedger_writes:
  assumes "texts_ok [leCredentialName e, leUpstream e, leModel e, leCostSource e, actedFor (leActedFor e)]"
    and "ledger_row_ok (e\<lparr>leActedFor := actedFor (leActedFor e)\<rparr>)" "run_id_param (leRunID e) \<noteq> None"
    and "res = [] \<or> pg_uuid res \<noteq> None"
  shows "\<exists>d'. RecordLedger e res now d = (Inr (), d')"
  using assms by (auto simp: RecordLedger_def insert_ledger_def ledger_row_ok_def)

text \<open>
  C36: whatever counts an upstream reports, negative or beyond every price, the row of a call under
  an accepted price is one the database takes: its tokens are within bounds, its cost is neither
  negative nor wrapped, and its source agrees with the price.
\<close>

theorem any_reported_usage_can_be_ledgered:
  assumes e_def: "e = ledgerFor cred att name model up (map_get (upPrices up) model) used status"
    and "\<And>p. map_get (upPrices up) model = Some p \<Longrightarrow> price_in_range p"
    and "texts_ok [crName cred, name, model, actedFor (atActedFor att)]" "acted_for_ok (actedFor (atActedFor att))"
    and "run_id_param (atRunID att) \<noteq> None" "res = [] \<or> pg_uuid res \<noteq> None"
  shows "(\<exists>d'. RecordLedger e res now d = (Inr (), d')) \<and> row_tokens e \<le> 2000000000000 \<and>
    0 \<le> leCostCents e \<and> leCostCents e \<le> 2000000000000 \<and>
    (leCostSource e = ''priced'' \<longleftrightarrow> upClassification up \<noteq> ClassFree \<and> map_get (upPrices up) model \<noteq> None)"
proof -
  have src: "leCostSource e \<in> {''free'', ''priced'', ''unpriced''}" "texts_ok [leCostSource e]"
    by (auto simp: e_def ledgerFor_def Let_def texts_ok_ascii split: option.splits)
  have cost: "0 \<le> leCostCents e" "leCostCents e \<le> 2000000000000"
    using assms(2) by (auto simp: e_def ledgerFor_def Let_def CostCents_nonneg CostCents_le split: option.splits)
  have toks: "leInputTokens e = clampTokens (fst used)" "leOutputTokens e = clampTokens (snd used)"
    by (auto simp: e_def ledgerFor_def Let_def split: option.splits)
  have id: "leCredentialName e = crName cred" "leUpstream e = name" "leModel e = model" "leActedFor e = atActedFor att" "leRunID e = atRunID att"
    by (auto simp: e_def ledgerFor_def Let_def split: option.splits)
  have "\<exists>d'. RecordLedger e res now d = (Inr (), d')"
    using src cost toks clampTokens_bounds assms(3-6)
    by (intro RecordLedger_writes) (auto simp: id texts_ok_def ledger_row_ok_def)
  moreover have "row_tokens e \<le> 2000000000000"
    using clampTokens_bounds(2) [of "fst used"] clampTokens_bounds(2) [of "snd used"] by (simp add: row_tokens_def toks MaxTokens_def)
  moreover have "leCostSource e = ''priced'' \<longleftrightarrow> upClassification up \<noteq> ClassFree \<and> map_get (upPrices up) model \<noteq> None"
    by (auto simp: e_def ledgerFor_def Let_def split: option.splits)
  ultimately show ?thesis using cost by blast
qed

definition px_paid :: Upstream where
  "px_paid = px_up\<lparr>upClassification := ''metered'', upPrices := [(''m'', \<lparr>InCentsPer1M = 1000000, OutCentsPer1M = 3\<rparr>)]\<rparr>"

theorem any_reported_usage_can_be_ledgered_witness:
  "\<exists>d'. RecordLedger (ledgerFor (Credential.truncate demo_cred) Unattributed ''llm'' ''m'' px_paid (map_get (upPrices px_paid) ''m'')
      (9223372036854775807, - 5) 200) demo_uuid 3 demo_approved = (Inr (), d')"
proof -
  have p: "map_get (upPrices px_paid) ''m'' = Some \<lparr>InCentsPer1M = 1000000, OutCentsPer1M = 3\<rparr>" by (simp add: px_paid_def map_get_def)
  show ?thesis
    using any_reported_usage_can_be_ledgered [OF refl, where up = px_paid and model = "''m''" and name = "''llm''" and att = Unattributed
        and cred = "Credential.truncate demo_cred" and res = demo_uuid and used = "(9223372036854775807, - 5)" and status = 200
        and now = 3 and d = demo_approved] demo_uuid_ok
    by (auto simp: p price_in_range_def demo_name texts_ok_ascii Unattributed_def actedFor_def acted_for_ok_def ActedForNone_def run_id_param_def)
qed

lemma px_record_refused:
  assumes "pdStore d = pg_proxy_store" "\<not> pg_text_ok (leModel e)"
  shows "gwDegraded (px_record d e res g) \<and> wdb (gwStore (px_record d e res g)) = wdb (gwStore g)"
proof -
  have "\<And>now d. \<exists>x. RecordLedger e res now d = (Inl x, d)"
    using assms(2) by (auto simp: RecordLedger_def insert_ledger_def texts_ok_def)
  then have "\<exists>x s. psRecordLedger pg_proxy_store e res (gwStore g) = (Inl x, s) \<and> wdb s = wdb (gwStore g)"
    by (auto simp: pg_proxy_store_def pg_write_def next_fault_def split: list.splits fault.splits prod.splits if_splits)
      (metis prod.inject)+
  then show ?thesis using assms(1) by (auto simp: px_record_def in_store_def)
qed

text \<open>
  C35: the name of a model is the client's: when it holds a byte Postgres text does not take, the
  call goes out and its spend is in no row; the breaker that trips is the only trace.
\<close>

theorem a_nul_model_is_spent_unledgered:
  assumes "px_send d r cred att up body model stream res g = (resp, g')" "gwSent g' \<noteq> gwSent g"
    and "pdStore d = pg_proxy_store" "\<not> pg_text_ok model"
    and "\<And>out s. wdb (snd (pdSend d out s)) = wdb s"
  shows "gwDegraded g' \<and> ledger_entry (wdb (gwStore g')) = ledger_entry (wdb (gwStore g)) \<and>
    spend_reservation (wdb (gwStore g')) = spend_reservation (wdb (gwStore g))"
  using assms(1)
proof (cases rule: px_send_outcome)
  case 1
  then show ?thesis using assms(2) by simp
next
  case (2 out secret g1 admitted why result)
  have m: "leModel (ledgerFor cred att (rqName r) model up (map_get (upPrices up) model) used status) = model" for used status
    by (auto simp: ledgerFor_def Let_def split: option.splits)
  have "wdb (gwStore g1) = wdb (gwStore g)"
    using 2(7) assms(5) [of out "gwStore g"] by (auto simp: in_store_def split: prod.splits)
  then show ?thesis using px_record_refused [OF assms(3)] assms(4) 2(8) m by (simp add: Decide_def)
qed


lemma char_m: "char_of (109::nat) = CHR ''m''"
  by code_simp

definition nul_chat_body :: string where
  "nul_chat_body = ''{\"model\":\"m\",\"Model\":\"'' @ [CHR 0x5C] @ ''u0000\"}''"

lemma nul_chat: "chat_request nul_chat_body = Some ([CHR 0x00], False)" "length nul_chat_body < 10485760"
  unfolding nul_chat_body_def
  by (subst chat_eval [of _ "[(''model'', JStr ''m''), (''Model'', JStr [CHR 0x00])]"])
     (simp_all add: lex_eval char_of_zero escape_rune_def encode_rune_def is_surrogate_def render_eval maxNestingDepth_def
       chat_member_def names_field_def set_string_def char_m)

theorem a_nul_model_is_spent_unledgered_witness:
  "\<exists>resp g'. px_forward px_deps ''v1'' (px_request nul_chat_body) (gw_start demo_approved) = (resp, g') \<and>
    length (gwSent g') = 1 \<and> gwDegraded g' \<and> ledger_entry (wdb (gwStore g')) = []"
proof -
  obtain resp g' where r: "px_forward px_deps ''v1'' (px_request nul_chat_body) (gw_start demo_approved) = (resp, g')" by fastforce
  note s = px_reaches_send [OF nul_chat, unfolded r, symmetric]
  have n: "length (gwSent g') = 1" using px_send_plain [of nul_chat_body "[CHR 0x00]"] unfolding s by simp
  have "gwSent g' \<noteq> gwSent px_held" using n by (auto simp: px_held_def)
  from a_nul_model_is_spent_unledgered [OF s this]
  show ?thesis using r n by (auto simp: px_held_def px_deps_def pg_text_ok_def demo_defs)
qed

end
