(* ===== verification/Inbound.thy ===== *)
theory Inbound
  imports Gateway Meter Unmarshal InboundStore
begin

text \<open>
  Component \<^verbatim>\<open>plane/internal/inbound/verify.go\<close>: how a webhook proves that it is the hook's
  bound credential, and what the bridge reads of a verified body. HMAC-SHA256 and the Unicode
  tables are parameters.
\<close>

subsection \<open>The scheme\<close>

definition HeaderDelivery :: string where "HeaderDelivery = ''X-Kaimahi-Delivery''"
definition HeaderTimestamp :: string where "HeaderTimestamp = ''X-Kaimahi-Timestamp''"
definition HeaderSignature :: string where "HeaderSignature = ''X-Kaimahi-Signature''"
definition kaimahiVersion :: string where "kaimahiVersion = ''v1''"
definition slackTimestamp :: string where "slackTimestamp = ''X-Slack-Request-Timestamp''"
definition slackSignature :: string where "slackSignature = ''X-Slack-Signature''"
definition slackVersion :: string where "slackVersion = ''v0''"
definition replayWindow :: int where "replayWindow = 5 * minute"

definition deliveryRe :: "string \<Rightarrow> bool" where
  "deliveryRe = class_len (\<lambda>c. is_alnum c \<or> c \<in> set ''._:-'') 1 128"

definition slackIDRe :: "string \<Rightarrow> bool" where
  "slackIDRe = class_len (\<lambda>c. is_upper c \<or> is_digit c) 1 64"

definition slackTSRe :: "string \<Rightarrow> bool" where
  "slackTSRe s \<longleftrightarrow>
     (case cut_at CHR ''.'' s of (a, b, ok) \<Rightarrow> ok \<and> class_len is_digit 1 20 a \<and> class_len is_digit 1 10 b)"

text \<open>The files of a hook; \<open>None\<close> is a file that cannot be read.\<close>

definition readSecret :: "string option \<Rightarrow> string option" where
  "readSecret f =
     (case f of None \<Rightarrow> None | Some raw \<Rightarrow> if trim_space raw = [] then None else Some (trim_space raw))"

definition id_list :: "(string \<Rightarrow> bool) \<Rightarrow> string option \<Rightarrow> string list option" where
  "id_list ok f =
     (case f of
        None \<Rightarrow> None
      | Some raw \<Rightarrow>
          (let ids = fields_func (\<lambda>r. r = 44 \<or> r = 10 \<or> r = 13 \<or> r = 32) raw in
           if list_all ok ids \<and> ids \<noteq> [] then Some ids else None))"

definition readSlackChannels :: "string option \<Rightarrow> string list option" where
  "readSlackChannels = id_list slackIDRe"

definition verifySignature ::
  "(string \<Rightarrow> string \<Rightarrow> string) \<Rightarrow> string \<Rightarrow> string \<Rightarrow> string \<Rightarrow> string \<Rightarrow> bool" where
  "verifySignature hmac secret header version base \<longleftrightarrow>
     (case cut_prefix header (version @ ''='') of
        (sigHex, ok) \<Rightarrow> ok \<and> (case hex_decode sigHex of None \<Rightarrow> False | Some got \<Rightarrow> got = hmac secret base))"

definition freshTimestamp :: "string \<Rightarrow> int \<Rightarrow> bool" where
  "freshTimestamp ts now \<longleftrightarrow>
     (case parse_int ts of None \<Rightarrow> False
      | Some n \<Rightarrow> now - n * second \<le> replayWindow \<and> now - n * second \<ge> - replayWindow)"

definition kaimahiBase :: "string \<Rightarrow> string \<Rightarrow> string \<Rightarrow> string" where
  "kaimahiBase ts delivery body = kaimahiVersion @ '':'' @ ts @ '':'' @ delivery @ '':'' @ body"

definition slackBase :: "string \<Rightarrow> string \<Rightarrow> string" where
  "slackBase ts body = slackVersion @ '':'' @ ts @ '':'' @ body"

definition Sign :: "(string \<Rightarrow> string \<Rightarrow> string) \<Rightarrow> string \<Rightarrow> string \<Rightarrow> string \<Rightarrow> string \<Rightarrow> string" where
  "Sign hmac secret ts delivery body =
     kaimahiVersion @ ''='' @ hex_encode (hmac secret (kaimahiBase ts delivery body))"

subsection \<open>Events\<close>

record slackMention =
  smChannel :: string
  smUser :: string
  smThreadTS :: string
  smText :: string

record event =
  evText :: string
  evDelivery :: string
  evChallenge :: string
  evIgnored :: string
  evSlack :: slackMention

definition no_mention :: slackMention where
  "no_mention = \<lparr>smChannel = [], smUser = [], smThreadTS = [], smText = []\<rparr>"

definition no_event :: event where
  "no_event = \<lparr>evText = [], evDelivery = [], evChallenge = [], evIgnored = [], evSlack = no_mention\<rparr>"

definition genericEvent :: "string \<Rightarrow> event option" where
  "genericEvent body =
     (if \<not> utf8_valid body then None
      else
        (let fromText = (\<lambda>t. if t = [] then None else Some (no_event\<lparr>evText := t\<rparr>)) in
         case unmarshal (set_struct (set_fields [(''text'', set_pointer set_string [])])) body None of
           (Some t, False) \<Rightarrow> fromText t
         | _ \<Rightarrow> fromText (trim_space body)))"

record slack_inner =
  siType :: string
  siSubtype :: string
  siBotID :: string
  siUser :: string
  siText :: string
  siChannel :: string
  siTS :: string
  siThreadTS :: string

record slack_env =
  seType :: string
  seChallenge :: string
  seEventID :: string
  seEvent :: slack_inner

definition slack_zero :: slack_env where
  "slack_zero = \<lparr>seType = [], seChallenge = [], seEventID = [],
     seEvent = \<lparr>siType = [], siSubtype = [], siBotID = [], siUser = [], siText = [], siChannel = [], siTS = [], siThreadTS = []\<rparr>\<rparr>"

definition set_inner :: "json \<Rightarrow> slack_inner \<times> bool \<Rightarrow> slack_inner \<times> bool" where
  "set_inner = set_struct (set_fields
     [(''type'', set_field set_string siType (\<lambda>x r. r\<lparr>siType := x\<rparr>)),
      (''subtype'', set_field set_string siSubtype (\<lambda>x r. r\<lparr>siSubtype := x\<rparr>)),
      (''bot_id'', set_field set_string siBotID (\<lambda>x r. r\<lparr>siBotID := x\<rparr>)),
      (''user'', set_field set_string siUser (\<lambda>x r. r\<lparr>siUser := x\<rparr>)),
      (''text'', set_field set_string siText (\<lambda>x r. r\<lparr>siText := x\<rparr>)),
      (''channel'', set_field set_string siChannel (\<lambda>x r. r\<lparr>siChannel := x\<rparr>)),
      (''ts'', set_field set_string siTS (\<lambda>x r. r\<lparr>siTS := x\<rparr>)),
      (''thread_ts'', set_field set_string siThreadTS (\<lambda>x r. r\<lparr>siThreadTS := x\<rparr>))])"

definition set_envelope :: "json \<Rightarrow> slack_env \<times> bool \<Rightarrow> slack_env \<times> bool" where
  "set_envelope = set_struct (set_fields
     [(''type'', set_field set_string seType (\<lambda>x r. r\<lparr>seType := x\<rparr>)),
      (''challenge'', set_field set_string seChallenge (\<lambda>x r. r\<lparr>seChallenge := x\<rparr>)),
      (''event_id'', set_field set_string seEventID (\<lambda>x r. r\<lparr>seEventID := x\<rparr>)),
      (''event'', set_field set_inner seEvent (\<lambda>x r. r\<lparr>seEvent := x\<rparr>))])"

text \<open>The rest after \<open><@U123\<close> or \<open><@U123|name\<close> and its bracket.\<close>

definition mention_end :: "string \<Rightarrow> string option" where
  "mention_end s =
     (let idc = (\<lambda>c. is_upper c \<or> is_digit c); r = dropWhile idc s in
      if takeWhile idc s = [] then None
      else case r of
             [] \<Rightarrow> None
           | c # t \<Rightarrow>
               if c = CHR ''>'' then Some t
               else if c = CHR ''|'' then (case dropWhile (\<lambda>x. x \<noteq> CHR ''>'') t of [] \<Rightarrow> None | _ # u \<Rightarrow> Some u)
               else None)"

lemma mention_end_shorter: "mention_end s = Some t \<Longrightarrow> length t < length s"
proof -
  assume a: "mention_end s = Some t"
  have d: "length (dropWhile p x) \<le> length x" for p and x :: string by (rule length_dropWhile_le)
  obtain c r where r: "dropWhile (\<lambda>c. is_upper c \<or> is_digit c) s = c # r"
    using a by (auto simp: mention_end_def Let_def split: if_splits list.splits)
  have "length t \<le> length r"
    using a r d [of "\<lambda>x. x \<noteq> CHR ''>''" r] by (auto simp: mention_end_def Let_def split: if_splits list.splits)
  then show ?thesis using r d [of "\<lambda>c. is_upper c \<or> is_digit c" s] by simp
qed

function replace_mentions :: "string \<Rightarrow> string" where
  "replace_mentions [] = []"
| "replace_mentions (c # s) =
     (case (if c = CHR ''<'' \<and> s \<noteq> [] \<and> hd s = CHR ''@'' then mention_end (tl s) else None) of
        Some t \<Rightarrow> CHR '' '' # replace_mentions t
      | None \<Rightarrow> c # replace_mentions s)"
  by pat_completeness auto
termination
  by (relation "measure length") (auto split: if_splits dest!: mention_end_shorter simp: less_Suc_eq_le)

definition stripMentions :: "string \<Rightarrow> string" where
  "stripMentions s = join '' '' (GoText.fields (replace_mentions s))"

definition slackTask :: "(nat \<Rightarrow> bool) \<Rightarrow> string \<Rightarrow> slackMention \<Rightarrow> string" where
  "slackTask uprint words m =
     ''A Slack message from '' @ (if smUser m = [] then ''someone'' else ''user '' @ smUser m) @ '' in channel '' @
     smChannel m @ '' mentioned you. Their message was: '' @ quote uprint words @ [CHR 0x0A, CHR 0x0A] @
     ''Answer it in one short paragraph, then post that answer to Slack by calling '' @
     ''conversations_add_message with channel_id '' @ quote uprint (smChannel m) @
     '', thread_ts '' @ quote uprint (smThreadTS m) @ '', and your answer as the payload.''"

text \<open>A malformed envelope is refused; a well-formed one that is no trigger is ignored.\<close>

definition slack_mention_event :: "(nat \<Rightarrow> bool) \<Rightarrow> event \<Rightarrow> slack_inner \<Rightarrow> event option" where
  "slack_mention_event uprint ev e =
     (if \<not> slackIDRe (siChannel e) \<or> \<not> slackTSRe (siTS e) \<or> (siThreadTS e \<noteq> [] \<and> \<not> slackTSRe (siThreadTS e)) \<or>
         (siUser e \<noteq> [] \<and> \<not> slackIDRe (siUser e))
      then None
      else
        (let words = stripMentions (siText e);
             m = \<lparr>smChannel = siChannel e, smUser = siUser e,
                  smThreadTS = (if siThreadTS e = [] then siTS e else siThreadTS e), smText = words\<rparr>
         in if words = [] then Some (ev\<lparr>evIgnored := ''mention carries no text''\<rparr>)
            else Some (ev\<lparr>evSlack := m, evText := slackTask uprint words m\<rparr>)))"

definition slackEvent :: "(nat \<Rightarrow> bool) \<Rightarrow> string \<Rightarrow> event option" where
  "slackEvent uprint body =
     (case unmarshal set_envelope body slack_zero of
        (env, True) \<Rightarrow> None
      | (env, False) \<Rightarrow>
          if seType env = ''url_verification'' then
            (if seChallenge env = [] then None else Some (no_event\<lparr>evChallenge := seChallenge env\<rparr>))
          else if seType env = ''event_callback'' then
            (if \<not> deliveryRe (seEventID env) then None
             else
               (let ev = no_event\<lparr>evDelivery := seEventID env\<rparr>; e = seEvent env in
                if siType e \<noteq> ''app_mention''
                then Some (ev\<lparr>evIgnored := ''event type '' @ siType e @ '' is not a trigger (app_mention only)''\<rparr>)
                else if siBotID e \<noteq> [] \<or> siSubtype e = ''bot_message''
                then Some (ev\<lparr>evIgnored := ''bot-authored mention (loop guard)''\<rparr>)
                else slack_mention_event uprint ev e))
          else None)"

definition actorOf :: "InboundHook \<Rightarrow> event \<Rightarrow> string" where
  "actorOf h ev =
     (if ihAuth h = AuthSlack \<and> smUser (evSlack ev) \<noteq> [] then ''slack:'' @ smUser (evSlack ev) else ActedForNone)"

end
