(* ===== verification/InboundCommand.thy ===== *)
theory InboundCommand
  imports Inbound
begin

text \<open>
  The words of \<^verbatim>\<open>plane/internal/inbound/command.go\<close>: which mention is an approval command, with
  which bounds, and who may give one.
\<close>

record command =
  cmVerb :: string
  cmPrefix :: string
  cmUses :: "int option"
  cmTTL :: "int option"
  cmAmount :: "int option"
  cmErr :: "string option"

definition minPrefix :: nat where "minPrefix = 8"
definition maxUses :: int where "maxUses = 1000000"
definition maxAmount :: int where "maxAmount = 1000000000000"

definition prefixRe :: "string \<Rightarrow> bool" where
  "prefixRe = class_len (\<lambda>c. is_digit c \<or> (97 \<le> code c \<and> code c \<le> 102) \<or> c = CHR ''-'') 1 36"

definition approverIDRe :: "string \<Rightarrow> bool" where
  "approverIDRe s \<longleftrightarrow>
     (case s of [] \<Rightarrow> False
      | c # r \<Rightarrow> (c = CHR ''U'' \<or> c = CHR ''W'') \<and> class_len (\<lambda>c. is_upper c \<or> is_digit c) 1 63 r)"

definition readSlackApprovers :: "string option \<Rightarrow> string list option" where
  "readSlackApprovers = id_list approverIDRe"

text \<open>\<open>strings.ToLower\<close>: bytes when all are ASCII, else rune by rune.\<close>

definition ToLower :: "(nat \<Rightarrow> nat) \<Rightarrow> string \<Rightarrow> string" where
  "ToLower ulower s =
     (if list_all (\<lambda>c. code c < 128) s then to_lower s
      else of_runes (map (\<lambda>r. if r < 128 then (if 65 \<le> r \<and> r \<le> 90 then r + 32 else r) else ulower r) (runes s)))"

definition trim_chars :: "string \<Rightarrow> string \<Rightarrow> string" where
  "trim_chars cs s = rev (dropWhile (\<lambda>c. c \<in> set cs) (rev (dropWhile (\<lambda>c. c \<in> set cs) s)))"

definition usage_error :: "string \<Rightarrow> string" where
  "usage_error verb = ''usage: '' @ verb @ '' <request id> [uses=N] [ttl=15m] [amount=N]''"

definition prefix_error :: string where
  "prefix_error = ''request id must be at least the first 8 characters of the id shown in the notification or '' @
     [CHR 0x60] @ ''make approvals'' @ [CHR 0x60]"

definition argument_error :: "(nat \<Rightarrow> bool) \<Rightarrow> string \<Rightarrow> string" where
  "argument_error uprint f = ''unrecognised argument '' @ quote uprint f @ '' (want uses=N, ttl=D, amount=N)''"

text \<open>The arguments in order; the first bad one ends the reading.\<close>

fun command_args :: "(nat \<Rightarrow> bool) \<Rightarrow> (nat \<Rightarrow> nat) \<Rightarrow> command \<Rightarrow> string list \<Rightarrow> command" where
  "command_args uprint ulower c [] =
     (if cmVerb c = ''deny'' \<and> (cmUses c \<noteq> None \<or> cmTTL c \<noteq> None \<or> cmAmount c \<noteq> None)
      then c\<lparr>cmErr := Some ''deny takes no bounds''\<rparr> else c)"
| "command_args uprint ulower c (f # fs) =
     (case cut_at CHR ''='' (ToLower ulower f) of
        (k, v, found) \<Rightarrow>
          if \<not> found \<or> v = [] then c\<lparr>cmErr := Some (argument_error uprint f)\<rparr>
          else if k = ''uses'' then
            (case parse_int32 v of
               Some n \<Rightarrow> if n < 1 \<or> n > maxUses then c\<lparr>cmErr := Some ''uses must be an integer in [1, 1000000]''\<rparr>
                         else command_args uprint ulower (c\<lparr>cmUses := Some n\<rparr>) fs
             | None \<Rightarrow> c\<lparr>cmErr := Some ''uses must be an integer in [1, 1000000]''\<rparr>)
          else if k = ''ttl'' then
            (case ParseTTL v of
               Inr d \<Rightarrow> command_args uprint ulower (c\<lparr>cmTTL := Some d\<rparr>) fs
             | Inl e \<Rightarrow> c\<lparr>cmErr := Some (''ttl: '' @ ttl_error_text e)\<rparr>)
          else if k = ''amount'' then
            (case parse_int v of
               Some n \<Rightarrow> if n < 1 \<or> n > maxAmount then c\<lparr>cmErr := Some ''amount must be an integer in [1, 1000000000000]''\<rparr>
                         else command_args uprint ulower (c\<lparr>cmAmount := Some n\<rparr>) fs
             | None \<Rightarrow> c\<lparr>cmErr := Some ''amount must be an integer in [1, 1000000000000]''\<rparr>)
          else c\<lparr>cmErr := Some (argument_error uprint f)\<rparr>)"

definition parseCommand :: "(nat \<Rightarrow> bool) \<Rightarrow> (nat \<Rightarrow> nat) \<Rightarrow> string \<Rightarrow> command option" where
  "parseCommand uprint ulower words =
     (case GoText.fields words of
        [] \<Rightarrow> None
      | v # rest \<Rightarrow>
          (let verb = ToLower ulower v;
               c = \<lparr>cmVerb = verb, cmPrefix = [], cmUses = None, cmTTL = None, cmAmount = None, cmErr = None\<rparr>
           in if verb \<noteq> ''approve'' \<and> verb \<noteq> ''deny'' then None
              else case rest of
                     [] \<Rightarrow> Some (c\<lparr>cmErr := Some (usage_error verb)\<rparr>)
                   | p # args \<Rightarrow>
                       (let prefix = ToLower ulower (trim_chars [CHR 0x60, CHR ''<'', CHR ''>''] p); c1 = c\<lparr>cmPrefix := prefix\<rparr>
                        in if \<not> prefixRe prefix \<or> length (filter (\<lambda>x. x \<noteq> CHR ''-'') prefix) < minPrefix
                           then Some (c1\<lparr>cmErr := Some prefix_error\<rparr>)
                           else Some (command_args uprint ulower c1 args))))"

text \<open>A command that carries no error has its bounds in the ranges of the admin surface.\<close>

definition bounds_ok :: "command \<Rightarrow> bool" where
  "bounds_ok c \<longleftrightarrow> cmErr c = None \<and>
     (case cmUses c of None \<Rightarrow> True | Some n \<Rightarrow> 1 \<le> n \<and> n \<le> maxUses) \<and>
     (case cmAmount c of None \<Rightarrow> True | Some n \<Rightarrow> 1 \<le> n \<and> n \<le> maxAmount)"

lemma command_args_step:
  assumes "cmErr (command_args up ul c (f # fs)) = None" "bounds_ok c"
  obtains c' where "command_args up ul c (f # fs) = command_args up ul c' fs" "bounds_ok c'"
    "cmVerb c' = cmVerb c" "cmPrefix c' = cmPrefix c"
proof -
  obtain k v ok where kv: "cut_at CHR ''='' (ToLower ul f) = (k, v, ok)" by (metis prod_cases3)
  note step = assms(1) [unfolded command_args.simps kv prod.case]
  have v: "ok" "v \<noteq> []" using step by (auto split: if_splits)
  consider "k = ''uses''" | "k = ''ttl''" | "k = ''amount''" | "k \<noteq> ''uses''" "k \<noteq> ''ttl''" "k \<noteq> ''amount''" by blast
  then show thesis
  proof cases
    case 1
    then obtain n where "parse_int32 v = Some n" "1 \<le> n" "n \<le> maxUses" using step v by (auto split: if_splits option.splits)
    then show thesis using that [of "c\<lparr>cmUses := Some n\<rparr>"] 1 v kv assms(2) by (simp add: bounds_ok_def)
  next
    case 2
    then obtain d where "ParseTTL v = Inr d" using step v by (auto split: if_splits sum.splits)
    then show thesis using that [of "c\<lparr>cmTTL := Some d\<rparr>"] 2 v kv assms(2) by (simp add: bounds_ok_def)
  next
    case 3
    then obtain n where "parse_int v = Some n" "1 \<le> n" "n \<le> maxAmount" using step v by (auto split: if_splits option.splits)
    then show thesis using that [of "c\<lparr>cmAmount := Some n\<rparr>"] 3 v kv assms(2) by (simp add: bounds_ok_def)
  next
    case 4
    then show thesis using step v by simp
  qed
qed

lemma command_args_bounds:
  assumes "cmErr (command_args up ul c fs) = None" "bounds_ok c"
  shows "bounds_ok (command_args up ul c fs) \<and> cmVerb (command_args up ul c fs) = cmVerb c \<and>
    cmPrefix (command_args up ul c fs) = cmPrefix c \<and>
    (cmVerb c = ''deny'' \<longrightarrow> cmUses (command_args up ul c fs) = None \<and> cmTTL (command_args up ul c fs) = None \<and>
       cmAmount (command_args up ul c fs) = None)"
  using assms
proof (induction fs arbitrary: c)
  case Nil
  then show ?case by (auto split: if_splits)
next
  case (Cons f fs)
  from Cons.prems obtain c' where "command_args up ul c (f # fs) = command_args up ul c' fs" "bounds_ok c'"
    "cmVerb c' = cmVerb c" "cmPrefix c' = cmPrefix c" by (rule command_args_step)
  then show ?case using Cons.IH [of c'] Cons.prems(1) by (simp del: command_args.simps)
qed

end
