(* ===== verification/RateLimit.thy ===== *)
theory RateLimit
  imports Clock "HOL-Library.Log_Nat"
begin

text \<open>
  Component \<^verbatim>\<open>plane/internal/inbound/ratelimit.go\<close>: a token bucket per hook, in \<open>float64\<close>. A
  \<open>float64\<close> in the range of a bucket is a rational; every operation rounds its exact result to 53
  bits, ties to even, as IEEE 754 does without fused operations.
\<close>

subsection \<open>Rounding\<close>

definition round_even :: "rat \<Rightarrow> int" where
  "round_even q =
     (let f = \<lfloor>q\<rfloor>; r = q - of_int f in
      if r < 1 / 2 then f else if r > 1 / 2 then f + 1 else if even f then f else f + 1)"

text \<open>The binary exponent of a positive rational: \<open>2 powi binexp q \<le> q < 2 powi (binexp q + 1)\<close>.\<close>

definition binexp :: "rat \<Rightarrow> int" where
  "binexp q =
     (case quotient_of q of (n, d) \<Rightarrow>
        (let k = int (floorlog 2 (nat n)) - int (floorlog 2 (nat d)) in if q < 2 powi k then k - 1 else k))"

definition round64 :: "rat \<Rightarrow> rat" where
  "round64 q = (if q \<le> 0 then 0 else (let u = 2 powi (binexp q - 52) in of_int (round_even (q / u)) * u))"

lemma round_even_int: "round_even (of_int n) = n"
  by (simp add: round_even_def)

lemma round_even_mono: "x \<le> y \<Longrightarrow> round_even x \<le> round_even y"
proof -
  assume xy: "x \<le> y"
  have f: "\<lfloor>x\<rfloor> \<le> \<lfloor>y\<rfloor>" using xy by (rule floor_mono)
  have b: "\<lfloor>z\<rfloor> \<le> round_even z \<and> round_even z \<le> \<lfloor>z\<rfloor> + 1" for z by (simp add: round_even_def Let_def)
  show ?thesis
  proof (cases "\<lfloor>x\<rfloor> = \<lfloor>y\<rfloor>")
    case True
    then show ?thesis using xy by (auto simp: round_even_def Let_def)
  next
    case False
    then show ?thesis using f b [of x] b [of y] by linarith
  qed
qed

lemma floorlog_bounds_rat:
  assumes "0 < n"
  shows "(2::rat) powi (int (floorlog 2 (nat n)) - 1) \<le> of_int n" "of_int n < (2::rat) powi (int (floorlog 2 (nat n)))"
proof -
  let ?k = "floorlog 2 (nat n)"
  have k: "0 < ?k" using assms by (simp add: floorlog_def)
  have "2 ^ (?k - 1) \<le> nat n \<and> nat n < 2 ^ ?k" using floorlog_bounds [of "nat n" 2] assms by simp
  then have "(2::int) ^ (?k - 1) \<le> n \<and> n < 2 ^ ?k" using assms by (simp add: nat_less_iff le_nat_iff)
  then have "(2::rat) ^ (?k - 1) \<le> of_int n \<and> of_int n < (2::rat) ^ ?k"
    by (metis of_int_le_iff of_int_less_iff of_int_numeral of_int_power)
  moreover have "int ?k - 1 = int (?k - 1)" using k by simp
  ultimately show "(2::rat) powi (int ?k - 1) \<le> of_int n" "of_int n < (2::rat) powi (int ?k)"
    by (simp_all only: power_int_of_nat)
qed

lemma binexp_bounds:
  assumes "0 < q"
  shows "2 powi binexp q \<le> q" "q < 2 powi (binexp q + 1)"
proof -
  obtain n d where q: "quotient_of q = (n, d)" by fastforce
  have d: "0 < d" by (rule quotient_of_denom_pos [OF q])
  have v: "q = of_int n / of_int d" by (rule quotient_of_div [OF q])
  have n: "0 < n" using assms d v by (simp add: zero_less_divide_iff)
  let ?a = "int (floorlog 2 (nat n))" and ?b = "int (floorlog 2 (nat d))"
  note fn = floorlog_bounds_rat [OF n] and fd = floorlog_bounds_rat [OF d]
  have p: "(2::rat) powi (i - j) = 2 powi i / 2 powi j" for i j by (rule power_int_diff) simp
  have pos: "0 < (2::rat) powi i" for i by simp
  have up: "q < 2 powi (?a - ?b + 1)"
  proof -
    have "q < 2 powi ?a / of_int d" using fn(2) d by (simp add: v divide_strict_right_mono)
    also have "\<dots> \<le> 2 powi ?a / 2 powi (?b - 1)" using fd(1) pos d by (intro divide_left_mono) auto
    also have "\<dots> = 2 powi (?a - (?b - 1))" by (rule p [symmetric])
    finally show ?thesis by (simp only: diff_diff_eq2 diff_add_eq)
  qed
  have lo: "2 powi (?a - 1 - ?b) \<le> q"
  proof -
    have "(2::rat) powi (?a - 1 - ?b) = 2 powi (?a - 1) / 2 powi ?b" by (rule p)
    also have "\<dots> \<le> 2 powi (?a - 1) / of_int d" using fd(2) pos d by (intro divide_left_mono) auto
    also have "\<dots> \<le> q" using fn(1) d by (simp add: v divide_right_mono)
    finally show ?thesis .
  qed
  show "2 powi binexp q \<le> q" "q < 2 powi (binexp q + 1)"
    using up lo by (auto simp: binexp_def q Let_def diff_right_commute)
qed


lemma round64_scale:
  assumes "0 < q"
  defines "u \<equiv> 2 powi (binexp q - 52)"
  shows "round64 q = of_int (round_even (q / u)) * u" "2 ^ 52 \<le> round_even (q / u)" "round_even (q / u) \<le> 2 ^ 53"
proof -
  have u: "0 < u" by (simp add: u_def)
  show "round64 q = of_int (round_even (q / u)) * u" using assms(1) by (simp add: round64_def u_def Let_def)
  have e: "2 powi binexp q = 2 ^ 52 * u" "2 powi (binexp q + 1) = 2 ^ 53 * u"
    by (simp_all add: u_def power_int_diff power_int_add)
  have "of_int (2 ^ 52) \<le> q / u" "q / u \<le> of_int (2 ^ 53)"
    using binexp_bounds [OF assms(1)] u unfolding e by (simp_all add: field_simps)
  then show "2 ^ 52 \<le> round_even (q / u)" "round_even (q / u) \<le> 2 ^ 53"
    using round_even_mono round_even_int by metis+
qed

lemma round64_nonneg: "0 \<le> round64 q"
proof (cases "0 < q")
  case True
  have "0 \<le> round_even (q / 2 powi (binexp q - 52))" by (rule order_trans [OF _ round64_scale(2) [OF True]]) simp
  then show ?thesis unfolding round64_scale(1) [OF True] by simp
qed (simp add: round64_def)

lemma round64_mono:
  assumes "x \<le> y"
  shows "round64 x \<le> round64 y"
proof (cases "0 < x")
  case False
  then show ?thesis using round64_nonneg by (simp add: round64_def)
next
  case True
  then have y: "0 < y" using assms by simp
  let ?u = "\<lambda>q. 2 powi (binexp q - 52) :: rat"
  have "binexp x < binexp y + 1"
  proof (rule ccontr)
    assume "\<not> ?thesis"
    then have "(2::rat) powi (binexp y + 1) \<le> 2 powi binexp x" by (intro power_int_increasing) auto
    then show False using binexp_bounds(1) [OF True] binexp_bounds(2) [OF y] assms by linarith
  qed
  then consider "binexp x = binexp y" | "binexp x + 1 \<le> binexp y" by linarith
  then show ?thesis
  proof cases
    case 1
    have "round_even (x / ?u x) \<le> round_even (y / ?u x)" using assms by (intro round_even_mono divide_right_mono) auto
    then show ?thesis unfolding round64_scale(1) [OF True] round64_scale(1) [OF y] 1 by simp
  next
    case 2
    have "round64 x \<le> of_int (2 ^ 53) * ?u x"
      unfolding round64_scale(1) [OF True] using round64_scale(3) [OF True] by (intro mult_right_mono) auto
    also have "\<dots> = 2 powi (binexp x + 1)" by (simp add: power_int_diff power_int_add)
    also have "\<dots> \<le> 2 powi binexp y" using 2 by (intro power_int_increasing) auto
    also have "\<dots> = of_int (2 ^ 52) * ?u y" by (simp add: power_int_diff)
    also have "\<dots> \<le> round64 y"
      unfolding round64_scale(1) [OF y] using round64_scale(2) [OF y] by (intro mult_right_mono) auto
    finally show ?thesis .
  qed
qed

text \<open>Small integers are exact.\<close>

lemma round64_int:
  assumes "0 \<le> n" "n < 2 ^ 53"
  shows "round64 (of_int n) = of_int n"
proof (cases "n = 0")
  case False
  then have n: "0 < (of_int n :: rat)" using assms by simp
  let ?e = "binexp (of_int n)"
  have "(2::rat) powi ?e < 2 powi 53" using binexp_bounds(1) [OF n] assms(2)
    by (metis le_less_trans of_int_less_iff of_int_numeral of_int_power power_int_numeral)
  then have e: "?e \<le> 52" using power_int_increasing [of 53 ?e "2::rat"] by (cases "53 \<le> ?e") auto
  have "of_int n / 2 powi (?e - 52) = (of_int (n * 2 ^ nat (52 - ?e)) :: rat)"
  proof -
    have "(2::rat) powi (?e - 52) * 2 ^ nat (52 - ?e) = 2 powi (?e - 52) * 2 powi (52 - ?e)"
      using e by (simp add: power_int_def)
    also have "\<dots> = 1" by (simp flip: power_int_add)
    finally show ?thesis by (simp add: field_simps)
  qed
  then have "round64 (of_int n) = of_int (n * 2 ^ nat (52 - ?e)) * 2 powi (?e - 52)"
    unfolding round64_scale(1) [OF n] by (simp only: round_even_int)
  also have "\<dots> = of_int n / 2 powi (?e - 52) * 2 powi (?e - 52)" using \<open>of_int n / _ = _\<close> by simp
  finally show ?thesis by simp
qed (simp add: round64_def)


lemma round_even_near: "\<bar>of_int (round_even z) - z\<bar> \<le> 1 / 2"
proof -
  have "of_int \<lfloor>z\<rfloor> \<le> z" "z < of_int \<lfloor>z\<rfloor> + 1" by linarith+
  then show ?thesis unfolding round_even_def Let_def abs_le_iff
    by (cases "z - of_int \<lfloor>z\<rfloor> < 1 / 2"; cases "z - of_int \<lfloor>z\<rfloor> > 1 / 2"; cases "even \<lfloor>z\<rfloor>") (simp_all, linarith+)
qed

text \<open>The unit roundoff bounds the relative error.\<close>

lemma round64_above:
  assumes "0 \<le> q"
  shows "round64 q \<le> q + q / 2 ^ 53"
proof (cases "q = 0")
  case False
  then have q: "0 < q" using assms by simp
  let ?u = "2 powi (binexp q - 52) :: rat"
  have u: "0 < ?u" by simp
  have e: "2 ^ 52 * ?u \<le> q" using binexp_bounds(1) [OF q] by (simp add: power_int_diff)
  have "of_int (round_even (q / ?u)) \<le> q / ?u + 1 / 2" using round_even_near [of "q / ?u"] by linarith
  then have "round64 q \<le> (q / ?u + 1 / 2) * ?u"
    unfolding round64_scale(1) [OF q] using u by (intro mult_right_mono) auto
  also have "\<dots> = q + ?u / 2" using u by (simp add: field_simps)
  also have "\<dots> \<le> q + q / 2 ^ 53" using e by simp
  finally show ?thesis .
qed (simp add: round64_def)

subsection \<open>The bucket\<close>

record bucket =
  bkTokens :: rat
  bkLast :: int

text \<open>\<open>Duration.Minutes\<close> of a positive duration; of others only the sign is used.\<close>

definition Minutes :: "int \<Rightarrow> rat" where
  "Minutes d =
     (if d \<le> 0 then 0
      else round64 (of_int (d div minute) + round64 (of_int (d mod minute) / of_int minute)))"

definition allow :: "string \<Rightarrow> int \<Rightarrow> int \<Rightarrow> int \<Rightarrow> bucket gomap \<Rightarrow> bool \<times> bucket gomap" where
  "allow hook ratePerMinute burst now buckets =
     (let b = (case map_get buckets hook of None \<Rightarrow> \<lparr>bkTokens = of_int burst, bkLast = now\<rparr> | Some b \<Rightarrow> b);
          elapsed = Minutes (now - bkLast b);
          b1 = (if elapsed > 0
                then \<lparr>bkTokens = min (of_int burst) (round64 (bkTokens b + round64 (elapsed * of_int ratePerMinute))), bkLast = now\<rparr>
                else b)
      in if bkTokens b1 < 1 then (False, map_set hook b1 buckets)
         else (True, map_set hook (b1\<lparr>bkTokens := round64 (bkTokens b1 - 1)\<rparr>) buckets))"

lemma round64_pos: "0 < q \<Longrightarrow> 0 < round64 q"
  unfolding round64_scale(1) using round64_scale(2) [of q]
  by (simp add: order_less_le_trans [of _ "2 ^ 52"])

lemma Minutes_pos: "0 < Minutes d \<longleftrightarrow> 0 < d"
proof -
  have "0 < of_int (d div minute) + round64 (of_int (d mod minute) / of_int minute)" if "0 < d"
  proof (cases "d mod minute = 0")
    case True
    then have "minute * (d div minute) = d" using mult_div_mod_eq [of minute d] by simp
    moreover have "0 < minute" by (simp add: minute_def second_def)
    ultimately have "0 < d div minute" using that zero_less_mult_pos by metis
    then show ?thesis using round64_nonneg by (simp add: add_pos_nonneg)
  next
    case False
    have m: "0 < minute" by (simp add: minute_def second_def)
    have "0 < (of_int (d mod minute) :: rat)" using False m by (simp add: less_le)
    then have "0 < round64 (of_int (d mod minute) / of_int minute)" using m by (intro round64_pos) simp
    moreover have "0 \<le> (of_int (d div minute) :: rat)" using that m by (simp add: pos_imp_zdiv_nonneg_iff)
    ultimately show ?thesis by linarith
  qed
  then show ?thesis by (auto simp: Minutes_def round64_pos)
qed

lemma two_roundings:
  fixes i f r :: rat
  assumes "0 \<le> i" "0 \<le> f" "r \<le> f + f / 2 ^ 53"
  shows "(i + r) + (i + r) / 2 ^ 53 \<le> (i + f) * (1 + 1 / 2 ^ 51)"
  using assms by (simp add: field_simps)

text \<open>One refill: the tokens of the elapsed time, and an error far below one token.\<close>

lemma Minutes_above:
  assumes "0 < d"
  shows "Minutes d \<le> (of_int d / of_int minute) * (1 + 1 / 2 ^ 51)"
proof -
  have m: "0 < (of_int minute :: rat)" by (simp add: minute_def second_def)
  let ?i = "of_int (d div minute) :: rat" and ?f = "of_int (d mod minute) / of_int minute :: rat"
  have s: "?i + ?f = of_int d / of_int minute"
    using m by (simp add: field_simps) (metis mult_div_mod_eq of_int_add of_int_mult mult.commute add.commute)
  have i: "0 \<le> ?i" and f: "0 \<le> ?f" using assms m by (simp_all add: pos_imp_zdiv_nonneg_iff minute_def second_def)
  have a: "round64 ?f \<le> ?f + ?f / 2 ^ 53" by (rule round64_above [OF f])
  have "Minutes d = round64 (?i + round64 ?f)" using assms by (simp add: Minutes_def)
  also have "\<dots> \<le> (?i + round64 ?f) + (?i + round64 ?f) / 2 ^ 53"
    using i round64_nonneg by (intro round64_above add_nonneg_nonneg) auto
  also have "\<dots> \<le> (?i + ?f) * (1 + 1 / 2 ^ 51)" using i f a by (rule two_roundings)
  finally show ?thesis unfolding s .
qed

lemma refill_above:
  assumes "0 \<le> t" "t \<le> of_int burst" "0 \<le> rate" "burst \<le> 100000" "0 < d"
  shows "min (of_int burst) (round64 (t + round64 (Minutes d * of_int rate))) \<le>
    t + of_int d / of_int minute * of_int rate + 1 / 2 ^ 32"
proof (cases "of_int burst \<le> of_int d / of_int minute * (of_int rate :: rat)")
  case False
  let ?x = "of_int d / of_int minute * of_int rate :: rat" and ?y = "Minutes d * of_int rate"
  have b: "(of_int burst :: rat) \<le> 2 ^ 17" using assms(4) by simp
  have r: "0 \<le> (of_int rate :: rat)" using assms(3) by simp
  have "?y \<le> of_int d / of_int minute * (1 + 1 / 2 ^ 51) * of_int rate" using Minutes_above [OF assms(5)] r by (rule mult_right_mono)
  then have y: "?y \<le> ?x + ?x / 2 ^ 51" by (simp add: algebra_simps)
  have y0: "0 \<le> ?y" using r round64_nonneg by (simp add: Minutes_def)
  note r1 = round64_above [OF y0]
  have "0 \<le> t + round64 ?y" using assms(1) round64_nonneg by simp
  note r2 = round64_above [OF this]
  have x: "?x \<le> 2 ^ 17" using False b by linarith
  have "round64 (t + round64 ?y) \<le> t + ?x + 1 / 2 ^ 32"
    using y r1 r2 x b assms(2) by (simp add: field_simps)
  then show ?thesis by linarith
next
  case True
  have "min (of_int burst) z \<le> (of_int burst :: rat)" for z by simp
  then show ?thesis using True assms(1) by (smt (verit) add_increasing divide_nonneg_nonneg order_trans zero_le_one zero_le_power add_increasing2 zero_le_numeral)
qed

lemma allow_bucket:
  assumes "map_get buckets hook = Some b \<or> map_get buckets hook = None \<and> b = \<lparr>bkTokens = of_int burst, bkLast = now\<rparr>"
    and "0 \<le> bkTokens b" "bkTokens b \<le> of_int burst" "bkLast b \<le> now" "0 \<le> rate" "burst \<le> 100000" "0 \<le> burst"
  obtains b' where "snd (allow hook rate burst now buckets) = map_set hook b' buckets"
    "0 \<le> bkTokens b'" "bkTokens b' \<le> of_int burst" "bkLast b' = now"
    "of_bool (fst (allow hook rate burst now buckets)) + bkTokens b' \<le>
       bkTokens b + of_int (now - bkLast b) / of_int minute * of_int rate + 1 / 2 ^ 31"
proof -
  define t where "t = (if now - bkLast b > 0
     then min (of_int burst) (round64 (bkTokens b + round64 (Minutes (now - bkLast b) * of_int rate))) else bkTokens b)"
  let ?x = "of_int (now - bkLast b) / of_int minute * of_int rate :: rat"
  have t0: "0 \<le> t" and tb: "t \<le> of_int burst" using assms(2,3,7) round64_nonneg by (simp_all add: t_def)
  have tx: "t \<le> bkTokens b + ?x + 1 / 2 ^ 32"
    using refill_above [OF assms(2,3,5,6), of "now - bkLast b"] assms(4) by (auto simp: t_def)
  have a: "allow hook rate burst now buckets =
    (if t < 1 then (False, map_set hook \<lparr>bkTokens = t, bkLast = now\<rparr> buckets)
     else (True, map_set hook \<lparr>bkTokens = round64 (t - 1), bkLast = now\<rparr> buckets))"
    using assms(1,4) by (cases b) (auto simp: allow_def Let_def Minutes_pos t_def)
  show thesis
  proof (cases "t < 1")
    case True
    then show thesis using that [of "\<lparr>bkTokens = t, bkLast = now\<rparr>"] a t0 tb tx by simp
  next
    case False
    have "round64 (t - 1) \<le> t - 1 + (t - 1) / 2 ^ 53" using False by (intro round64_above) simp
    moreover have "t \<le> 131072"
    proof -
      have "(of_int burst :: rat) \<le> of_int 131072" using assms(6) by (simp only: of_int_le_iff)
      then show ?thesis using tb by simp
    qed
    ultimately have s: "round64 (t - 1) \<le> t - 1 + 1 / 2 ^ 32" by (simp add: field_simps)
    have "round64 (t - 1) \<le> of_int burst"
      using tb assms(7) round64_mono [of "t - 1" "of_int burst"] round64_int [of burst] assms(6) by simp
    then show thesis using that [of "\<lparr>bkTokens = round64 (t - 1), bkLast = now\<rparr>"] a False round64_nonneg s tx by simp
  qed
qed

text \<open>Calls of any hooks in the order of the clock, and how many of one hook pass.\<close>

fun let_through :: "(string \<Rightarrow> int \<times> int) \<Rightarrow> string \<Rightarrow> (string \<times> int) list \<Rightarrow> bucket gomap \<Rightarrow> nat" where
  "let_through limits hook [] buckets = 0"
| "let_through limits hook ((k, now) # calls) buckets =
     (case allow k (fst (limits k)) (snd (limits k)) now buckets of
        (ok, buckets') \<Rightarrow> of_bool (ok \<and> k = hook) + let_through limits hook calls buckets')"

lemma allow_other: "k \<noteq> hook \<Longrightarrow> map_get (snd (allow k rate burst now buckets)) hook = map_get buckets hook"
  by (simp add: allow_def Let_def)

lemma let_through_bound:
  assumes "map_get buckets hook = Some b" "0 \<le> bkTokens b" "bkTokens b \<le> of_int (snd (limits hook))"
    and "sorted (map snd calls)" "\<And>c. c \<in> set calls \<Longrightarrow> bkLast b \<le> snd c \<and> snd c \<le> until" "bkLast b \<le> until"
    and "0 \<le> fst (limits hook)" "0 \<le> snd (limits hook)" "snd (limits hook) \<le> 100000"
  shows "of_nat (let_through limits hook calls buckets) \<le>
    bkTokens b + of_int (until - bkLast b) / of_int minute * of_int (fst (limits hook)) + of_nat (length calls) / 2 ^ 31"
  using assms(1-6)
proof (induction calls arbitrary: buckets b)
  case Nil
  then show ?case using assms(7) by (simp add: minute_def second_def)
next
  case (Cons c calls)
  obtain k now where c: "c = (k, now)" by fastforce
  let ?m = "of_int minute :: rat" and ?r = "of_int (fst (limits hook)) :: rat"
  show ?case
  proof (cases "k = hook")
    case False
    have "map_get (snd (allow k (fst (limits k)) (snd (limits k)) now buckets)) hook = Some b"
      using Cons.prems(1) False by (simp add: allow_other)
    from Cons.IH [OF this Cons.prems(2,3)] Cons.prems(4-6) False show ?thesis
      by (auto simp: c add_divide_distrib split: prod.splits)
  next
    case True
    have l: "bkLast b \<le> now" "now \<le> until" using Cons.prems(5) [of c] by (simp_all add: c)
    have d: "map_get buckets hook = Some b \<or> map_get buckets hook = None \<and> b = \<lparr>bkTokens = of_int (snd (limits hook)), bkLast = now\<rparr>"
      using Cons.prems(1) by simp
    obtain b' where b': "snd (allow hook (fst (limits hook)) (snd (limits hook)) now buckets) = map_set hook b' buckets"
        "0 \<le> bkTokens b'" "bkTokens b' \<le> of_int (snd (limits hook))" "bkLast b' = now"
        "of_bool (fst (allow hook (fst (limits hook)) (snd (limits hook)) now buckets)) + bkTokens b' \<le>
           bkTokens b + of_int (now - bkLast b) / ?m * ?r + 1 / 2 ^ 31"
      by (rule allow_bucket [OF d Cons.prems(2,3) l(1) assms(7,9,8)])
    have "of_nat (let_through limits hook calls (map_set hook b' buckets)) \<le>
        bkTokens b' + of_int (until - now) / ?m * ?r + of_nat (length calls) / 2 ^ 31"
      using Cons.IH [of "map_set hook b' buckets" b'] b' Cons.prems(4,5) l by (auto simp: c)
    moreover have "of_int (now - bkLast b) / ?m * ?r + of_int (until - now) / ?m * ?r = of_int (until - bkLast b) / ?m * ?r"
      by (simp add: field_simps minute_def second_def)
    moreover obtain ok bs where a: "allow hook (fst (limits hook)) (snd (limits hook)) now buckets = (ok, bs)" by fastforce
    moreover from a b'(5) have "of_bool ok + bkTokens b' \<le> bkTokens b + of_int (now - bkLast b) / ?m * ?r + 1 / 2 ^ 31"
      by (simp only: fst_conv)
    moreover from a b'(1) True have "of_nat (let_through limits hook (c # calls) buckets) =
        (of_bool ok + of_nat (let_through limits hook calls (map_set hook b' buckets)) :: rat)" by (simp add: c)
    moreover have "(of_nat (length (c # calls)) / 2 ^ 31 :: rat) = of_nat (length calls) / 2 ^ 31 + 1 / 2 ^ 31"
      by (simp add: add_divide_distrib)
    ultimately show ?thesis by linarith
  qed
qed

end
