(* ===== verification/Bridge.thy ===== *)
theory Bridge
  imports InboundCommand RateLimit
begin

text \<open>
  Component \<^verbatim>\<open>plane/internal/inbound/inbound.go\<close> with the handlers of \<^verbatim>\<open>command.go\<close>: the inbound
  bridge. Its state extends the one of the gateway by the token buckets, the queue of admitted
  events, the slots taken and the replies posted. The agent controller, the files, the clock,
  SHA-256, HMAC-SHA256 and the Unicode tables are arguments; deadlines, logs and the queue gauge
  are left out.
\<close>

record 's inbound_store =
  isCredentialByTokenHash :: "string \<Rightarrow> 's \<Rightarrow> (store_error + Credential) \<times> 's"
  isCredentialByName :: "string \<Rightarrow> 's \<Rightarrow> (store_error + Credential) \<times> 's"
  isRecordInboundAudit :: "InboundAuditEntry \<Rightarrow> 's \<Rightarrow> (store_error + unit) \<times> 's"
  isAdmitInboundEvent :: "string \<Rightarrow> string \<Rightarrow> string \<Rightarrow> string \<Rightarrow> string \<Rightarrow> 's \<Rightarrow> (store_error + (string \<times> string)) \<times> 's"
  isOpenRun :: "string \<Rightarrow> string \<Rightarrow> string \<Rightarrow> string \<Rightarrow> string \<Rightarrow> int \<Rightarrow> 's \<Rightarrow> (store_error + string) \<times> 's"
  isCloseRun :: "string \<Rightarrow> 's \<Rightarrow> (store_error + unit) \<times> 's"
  isFileApprovalRequest :: "Filing \<Rightarrow> 's \<Rightarrow> (store_error + bool) \<times> 's"
  isRequestByPrefix :: "string \<Rightarrow> 's \<Rightarrow> (store_error + ApprovalRequest) \<times> 's"
  isApproveRequest :: "string \<Rightarrow> int option \<Rightarrow> int option \<Rightarrow> int option \<Rightarrow> string \<Rightarrow> 's \<Rightarrow> (store_error + Grant) \<times> 's"
  isDenyApprovalRequest :: "string \<Rightarrow> string \<Rightarrow> 's \<Rightarrow> (store_error + unit) \<times> 's"

record 's BridgeDeps =
  bdStore :: "'s inbound_store"
  bdMeter :: "'s Meter"
  bdHooks :: "InboundHook gomap"
  bdA2ABase :: string
  bdQueueSize :: int
  bdWorkers :: int
  bdInvokeTimeout :: int
  bdHasReplier :: bool
  bdSend :: "Outbound \<Rightarrow> 's \<Rightarrow> (send_error + UpstreamResponse) \<times> 's"
  bdBadURL :: "string \<Rightarrow> string option"
  bdReadFile :: "string \<Rightarrow> 's \<Rightarrow> string option"
  bdNow :: "'s \<Rightarrow> int"
  bdSha :: "string \<Rightarrow> string"
  bdHmac :: "string \<Rightarrow> string \<Rightarrow> string"
  bdUprint :: "nat \<Rightarrow> bool"
  bdUlower :: "nat \<Rightarrow> nat"

definition DefaultA2ABase :: string where
  "DefaultA2ABase = ''http://kagent-controller.kagent:8083''"

definition defaultQueueSize :: int where "defaultQueueSize = 16"
definition defaultWorkers :: int where "defaultWorkers = 2"
definition defaultInvokeTimeout :: int where "defaultInvokeTimeout = 5 * minute"
definition ib_maxBufferedResp :: nat where "ib_maxBufferedResp = 8388608"
definition userIDPrefix :: string where "userIDPrefix = ''kaimahi-inbound/''"

definition NewBridge :: "'s BridgeDeps \<Rightarrow> 's BridgeDeps" where
  "NewBridge d = d\<lparr>
     bdA2ABase := (if bdA2ABase d = [] then DefaultA2ABase else bdA2ABase d),
     bdQueueSize := (if bdQueueSize d \<le> 0 then defaultQueueSize else bdQueueSize d),
     bdWorkers := (if bdWorkers d \<le> 0 then defaultWorkers else bdWorkers d),
     bdInvokeTimeout := (if bdInvokeTimeout d \<le> 0 then defaultInvokeTimeout else bdInvokeTimeout d)\<rparr>"

record job =
  jbEventID :: string
  jbHook :: string
  jbH :: InboundHook
  jbDelivery :: string
  jbText :: string
  jbActedFor :: string

record 's bridge = "'s gw" +
  brBuckets :: "bucket gomap"
  brJobs :: "job list"
  brSlots :: int
  brReplies :: "(string \<times> string) list"

subsection \<open>Audit and refusal\<close>

definition agentRef :: "InboundHook \<Rightarrow> string" where
  "agentRef h = ihAgentNamespace h @ ''/'' @ ihAgent h"

definition inbound_entry :: "string \<Rightarrow> string \<Rightarrow> string \<Rightarrow> string \<Rightarrow> int \<Rightarrow> string \<Rightarrow> InboundHook \<Rightarrow> InboundAuditEntry" where
  "inbound_entry hook credential delivery decision status detail h =
     \<lparr>iaID = [], iaHook = hook, iaCredentialName = credential, iaDeliveryID = delivery, iaDecision = decision,
      iaStatus = status, iaDetail = detail, iaAgent = agentRef h, iaInputTokens = 0, iaOutputTokens = 0,
      iaActedFor = [], iaCreatedAt = 0\<rparr>"

text \<open>Whether the row was written; \<open>actor\<close> is what the context carries.\<close>

definition ib_audit :: "'s BridgeDeps \<Rightarrow> string \<Rightarrow> InboundAuditEntry \<Rightarrow> 's bridge \<Rightarrow> bool \<times> 's bridge" where
  "ib_audit d actor e b =
     (case in_store (isRecordInboundAudit (bdStore d) (if iaActedFor e = [] then e\<lparr>iaActedFor := actor\<rparr> else e)) b of
        (Inl _, b1) \<Rightarrow> (False, b1\<lparr>gwDegraded := True\<rparr>)
      | (Inr _, b1) \<Rightarrow>
          (True, (if iaDecision e = ''challenge'' then Decide Allowed ReasonChallenge
                  else if iaDecision e = ''ignored'' then Decide Allowed ReasonIgnored
                  else if iaDecision e = ''command'' then Decide Allowed ReasonCommand else id)
                 (b1\<lparr>gwDegraded := False\<rparr>)))"

definition ib_reasonFor :: "int \<Rightarrow> string \<Rightarrow> Reason" where
  "ib_reasonFor status msg =
     (if has_prefix msg ''target budget'' then ReasonBudget
      else if contains msg ''no live grant'' then ReasonGrant
      else if contains msg ''is not an approver'' then ReasonNotApprover
      else if has_prefix msg ''replay'' then ReasonReplay
      else if has_prefix msg ''inbound queue full'' then ReasonQueueFull
      else if has_prefix msg ''inbound audit unavailable'' then ReasonAuditDegraded
      else if has_prefix msg ''inbound admission unavailable'' then ReasonAdmission
      else if has_prefix msg ''credential store unavailable'' then ReasonCredentialStore
      else if has_prefix msg ExpiredPrefix \<or> has_prefix msg (''target '' @ ExpiredPrefix) then ReasonCredentialExpired
      else if has_prefix msg ''hook '' then ReasonHookConfig
      else if has_prefix msg ''unauthorized'' \<or> has_prefix msg ''credential is not bound'' \<or>
        contains msg ''not an allowed channel'' \<or> contains msg ''channel'' then ReasonUnauthorized
      else if status = 413 then ReasonTooLarge
      else if status = 400 then ReasonBadRequest
      else if status = 401 \<or> status = 403 then ReasonUnauthorized
      else ReasonOther)"

definition slackRetryPolicy :: "InboundHook \<Rightarrow> int \<Rightarrow> header \<Rightarrow> header" where
  "slackRetryPolicy h status hdr =
     (if ihAuth h = AuthSlack \<and> status \<ge> 400 \<and> status < 500 \<and> status \<noteq> 429
      then header_set ''X-Slack-No-Retry'' ''1'' hdr else hdr)"

definition refusal :: "InboundHook \<Rightarrow> int \<Rightarrow> string \<Rightarrow> Response" where
  "refusal h status msg = (let r = http_error msg status in r\<lparr>rpHeader := slackRetryPolicy h status (rpHeader r)\<rparr>)"

definition ib_deny ::
  "'s BridgeDeps \<Rightarrow> string \<Rightarrow> string \<Rightarrow> InboundHook \<Rightarrow> string \<Rightarrow> int \<Rightarrow> string \<Rightarrow> 's bridge \<Rightarrow> Response \<times> 's bridge" where
  "ib_deny d actor name h delivery status msg b =
     (refusal h status msg,
      Decide Denied (ib_reasonFor status msg)
        (snd (ib_audit d actor (inbound_entry name (ihCredential h) delivery ''denied'' status msg h) b)))"

definition answer_json :: "int \<Rightarrow> (string \<times> string) list \<Rightarrow> Response" where
  "answer_json status kvs =
     \<lparr>rpStatus = status, rpHeader = header_set ''Content-Type'' ''application/json'' [],
      rpBody = html_escape (render (JObj (map (\<lambda>(k, v). (k, JStr v)) kvs))) @ [CHR 0x0A]\<rparr>"

definition ib_fileRequest :: "'s BridgeDeps \<Rightarrow> string \<Rightarrow> string \<Rightarrow> string \<Rightarrow> string \<Rightarrow> 's bridge \<Rightarrow> bool \<times> 's bridge" where
  "ib_fileRequest d credential kind subject detail b =
     (case in_store (isFileApprovalRequest (bdStore d)
         \<lparr>fiCredential = credential, fiKind = kind, fiSubject = subject, fiDetail = detail, fiArgDigest = [], fiArgSummary = []\<rparr>) b of
        (Inl _, b1) \<Rightarrow> (False, b1)
      | (Inr _, b1) \<Rightarrow> (True, b1))"

subsection \<open>Authentication\<close>

definition auth_fail ::
  "'s BridgeDeps \<Rightarrow> string \<Rightarrow> InboundHook \<Rightarrow> string \<Rightarrow> int \<Rightarrow> string \<Rightarrow> 's bridge \<Rightarrow>
     (Response + (Credential \<times> string \<times> event)) \<times> 's bridge" where
  "auth_fail d name h delivery status msg b =
     (case ib_deny d ActedForUnknown name h delivery status msg b of (resp, b1) \<Rightarrow> (Inl resp, b1))"

definition auth_bearer ::
  "'s BridgeDeps \<Rightarrow> Request \<Rightarrow> string \<Rightarrow> InboundHook \<Rightarrow> string \<Rightarrow> 's bridge \<Rightarrow>
     (Response + (Credential \<times> string \<times> event)) \<times> 's bridge" where
  "auth_bearer d r name h body b =
     (let now = bdNow d (gwStore b); token = bearer (header_get (rqHeader r) ''Authorization'') in
      if token = [] then auth_fail d name h [] 401 ''unauthorized'' b
      else case in_store (isCredentialByTokenHash (bdStore d) (bdSha d token)) b of
             (Inl e, b1) \<Rightarrow>
               if e = ErrNotFound then auth_fail d name h [] 401 ''unauthorized'' b1
               else auth_fail d name h [] 503 ''credential store unavailable'' b1
           | (Inr cred, b1) \<Rightarrow>
               if crName cred \<noteq> ihCredential h then auth_fail d name h [] 403 ''credential is not bound to this hook'' b1
               else if Expired cred now then auth_fail d name h [] 403 (ExpiredMessage (bdUprint d) cred) b1
               else
                 (let delivery = header_get (rqHeader r) HeaderDelivery in
                  if \<not> deliveryRe delivery
                  then auth_fail d name h [] 400 (HeaderDelivery @ '' header required (a unique delivery id)'') b1
                  else case genericEvent body of
                         None \<Rightarrow> auth_fail d name h delivery 400 ''event carries no text'' b1
                       | Some ev \<Rightarrow> (Inr (cred, delivery, ev), b1)))"

text \<open>What a signature proves: a delivery id and an event, or the refusal with its delivery, status and message.\<close>

definition signed_event ::
  "'s BridgeDeps \<Rightarrow> Request \<Rightarrow> InboundHook \<Rightarrow> string \<Rightarrow> string \<Rightarrow> int \<Rightarrow> (string \<times> int \<times> string) + (string \<times> event)" where
  "signed_event d r h secret body now =
     (if ihAuth h = AuthKaimahiHMAC then
        (let ts = header_get (rqHeader r) HeaderTimestamp; delivery = header_get (rqHeader r) HeaderDelivery in
         if \<not> deliveryRe delivery \<or> \<not> freshTimestamp ts now \<or>
            \<not> verifySignature (bdHmac d) secret (header_get (rqHeader r) HeaderSignature) kaimahiVersion (kaimahiBase ts delivery body)
         then Inl ([], 401, ''unauthorized'')
         else case genericEvent body of
                None \<Rightarrow> Inl (delivery, 400, ''event carries no text'')
              | Some ev \<Rightarrow> Inr (delivery, ev))
      else
        (let ts = header_get (rqHeader r) slackTimestamp in
         if \<not> freshTimestamp ts now \<or>
            \<not> verifySignature (bdHmac d) secret (header_get (rqHeader r) slackSignature) slackVersion (slackBase ts body)
         then Inl ([], 401, ''unauthorized'')
         else case slackEvent (bdUprint d) body of
                None \<Rightarrow> Inl ([], 400, ''unrecognised Slack event envelope'')
              | Some ev \<Rightarrow>
                  if evChallenge ev = [] \<and> \<not> deliveryRe (evDelivery ev) then Inl ([], 400, ''event_id missing or malformed'')
                  else Inr (evDelivery ev, ev)))"

definition auth_signed ::
  "'s BridgeDeps \<Rightarrow> Request \<Rightarrow> string \<Rightarrow> InboundHook \<Rightarrow> string \<Rightarrow> 's bridge \<Rightarrow>
     (Response + (Credential \<times> string \<times> event)) \<times> 's bridge" where
  "auth_signed d r name h body b =
     (let now = bdNow d (gwStore b) in
      case readSecret (bdReadFile d (ihSigningSecretFile h) (gwStore b)) of
        None \<Rightarrow> auth_fail d name h [] 503 ''hook signing secret unavailable'' b
      | Some secret \<Rightarrow>
          (case signed_event d r h secret body now of
             Inl (delivery, status, msg) \<Rightarrow> auth_fail d name h delivery status msg b
           | Inr (delivery, ev) \<Rightarrow>
               (case in_store (isCredentialByName (bdStore d) (ihCredential h)) b of
                  (Inl e, b1) \<Rightarrow>
                    if e = ErrNotFound
                    then auth_fail d name h delivery 503
                           (''hook credential '' @ ihCredential h @ '' is not issued (run make inbound-credential)'') b1
                    else auth_fail d name h delivery 503 ''credential store unavailable'' b1
                | (Inr cred, b1) \<Rightarrow>
                    if Expired cred now then auth_fail d name h delivery 403 (ExpiredMessage (bdUprint d) cred) b1
                    else (Inr (cred, delivery, ev), b1))))"

definition ib_authenticate ::
  "'s BridgeDeps \<Rightarrow> Request \<Rightarrow> string \<Rightarrow> InboundHook \<Rightarrow> string \<Rightarrow> 's bridge \<Rightarrow>
     (Response + (Credential \<times> string \<times> event)) \<times> 's bridge" where
  "ib_authenticate d r name h body b =
     (if ihAuth h = AuthBearer then auth_bearer d r name h body b
      else if ihAuth h = AuthKaimahiHMAC \<or> ihAuth h = AuthSlack then auth_signed d r name h body b
      else auth_fail d name h [] 503 ''hook auth mode unsupported'' b)"

subsection \<open>Commands\<close>

definition alreadyDecided :: "ApprovalRequest \<Rightarrow> string" where
  "alreadyDecided req =
     (let when = (case arDecidedAt req of None \<Rightarrow> [] | Some t \<Rightarrow> '' at '' @ format_rfc3339 t);
          who = (if arDecidedBy req = [] then ''unknown'' else arDecidedBy req)
      in ''request '' @ arID req @ '' was already '' @ arStatus req @ '' by '' @ who @ when @ ''; a decided request is immutable'')"

definition raced :: "'s BridgeDeps \<Rightarrow> ApprovalRequest \<Rightarrow> 's bridge \<Rightarrow> string \<times> 's bridge" where
  "raced d req b =
     (case in_store (isRequestByPrefix (bdStore d) (arID req)) b of
        (Inr fresh, b1) \<Rightarrow> (alreadyDecided fresh, b1)
      | (Inl _, b1) \<Rightarrow> (''request '' @ arID req @ '' was already decided'', b1))"

definition request_label :: "ApprovalRequest \<Rightarrow> string" where
  "request_label req = '' ('' @ arCredentialName req @ '' '' @ arKind req @ ''/'' @ arSubject req @ '')''"

definition grant_bounds :: "Grant \<Rightarrow> string" where
  "grant_bounds g =
     (case grMaxUses g of None \<Rightarrow> [] | Some n \<Rightarrow> '' uses='' @ format_int n) @
     (case grExpiresAt g of None \<Rightarrow> [] | Some t \<Rightarrow> '' expires='' @ format_rfc3339 t) @
     (case grAmount g of None \<Rightarrow> [] | Some n \<Rightarrow> '' amount='' @ format_int n)"

text \<open>Explicit bounds win; without any, the hook's defaults apply, both.\<close>

definition command_bounds :: "InboundHook \<Rightarrow> command \<Rightarrow> (int option \<times> int option) option" where
  "command_bounds h c =
     (if cmUses c = None \<and> cmTTL c = None then
        (case ParseTTL (ihSlackDefaultTTL h) of
           Inl _ \<Rightarrow> None
         | Inr d \<Rightarrow> Some (Some (ihSlackDefaultUses h), Some d))
      else Some (cmUses c, cmTTL c))"

definition approve_request :: "'s BridgeDeps \<Rightarrow> InboundHook \<Rightarrow> command \<Rightarrow> string \<Rightarrow> ApprovalRequest \<Rightarrow> 's bridge \<Rightarrow> string \<times> 's bridge" where
  "approve_request d h c who req b =
     (case command_bounds h c of
        None \<Rightarrow> (''the hook'' @ [CHR 0x27] @ ''s default ttl is invalid; give ttl= explicitly'', b)
      | Some (uses, ttl) \<Rightarrow>
          if arKind req = ''budget'' \<and> cmAmount c = None
          then (''a budget request needs amount=<'' @ arSubject req @ ''> (how much to raise the cap by)'', b)
          else if arKind req \<noteq> ''budget'' \<and> cmAmount c \<noteq> None then (''amount= is for budget requests only'', b)
          else
            (case in_store (isApproveRequest (bdStore d) (arID req) (map_option (\<lambda>t. bdNow d (gwStore b) + t) ttl) uses (cmAmount c) who) b of
               (Inr g, b1) \<Rightarrow> (''approved request '' @ arID req @ request_label req @ '': grant '' @ grID g @ grant_bounds g, b1)
             | (Inl ErrNotPending, b1) \<Rightarrow> raced d req b1
             | (Inl (ErrBounds m), b1) \<Rightarrow> (''invalid bounds: store: invalid grant bounds: '' @ m, b1)
             | (Inl _, b1) \<Rightarrow> (''the plane could not record the approval; try again'', b1)))"

definition deny_request :: "'s BridgeDeps \<Rightarrow> string \<Rightarrow> ApprovalRequest \<Rightarrow> 's bridge \<Rightarrow> string \<times> 's bridge" where
  "deny_request d who req b =
     (case in_store (isDenyApprovalRequest (bdStore d) (arID req) who) b of
        (Inr _, b1) \<Rightarrow> (''denied request '' @ arID req @ request_label req, b1)
      | (Inl ErrNotPending, b1) \<Rightarrow> raced d req b1
      | (Inl _, b1) \<Rightarrow> (''the plane could not record the denial; try again'', b1))"

definition ib_decide :: "'s BridgeDeps \<Rightarrow> InboundHook \<Rightarrow> command \<Rightarrow> string \<Rightarrow> 's bridge \<Rightarrow> string \<times> 's bridge" where
  "ib_decide d h c who b =
     (case cmErr c of
        Some e \<Rightarrow> (''invalid: '' @ e, b)
      | None \<Rightarrow>
          (case in_store (isRequestByPrefix (bdStore d) (cmPrefix c)) b of
             (Inl ErrNotFound, b1) \<Rightarrow> (''no approval request starts with '' @ cmPrefix c, b1)
           | (Inl ErrAmbiguous, b1) \<Rightarrow> (''more than one request starts with '' @ cmPrefix c @ ''; use a longer prefix'', b1)
           | (Inl _, b1) \<Rightarrow> (''the plane could not look up the request; try again'', b1)
           | (Inr req, b1) \<Rightarrow>
               if arStatus req \<noteq> ''pending'' then (alreadyDecided req, b1)
               else if cmVerb c = ''deny'' then deny_request d who req b1
               else approve_request d h c who req b1))"

definition audit_unavailable :: Response where
  "audit_unavailable = http_error ''inbound audit unavailable'' 503"

definition handleCommand ::
  "'s BridgeDeps \<Rightarrow> string \<Rightarrow> InboundHook \<Rightarrow> string \<Rightarrow> Credential \<Rightarrow> string \<Rightarrow> event \<Rightarrow> command \<Rightarrow> 's bridge \<Rightarrow> Response \<times> 's bridge" where
  "handleCommand d name h delivery cred actor ev c b =
     (let user = smUser (evSlack ev) in
      case readSlackApprovers (bdReadFile d (ihSlackApproversFile h) (gwStore b)) of
        None \<Rightarrow> ib_deny d actor name h delivery 503 ''hook approver list unavailable'' b
      | Some approvers \<Rightarrow>
          if user = [] \<or> user \<notin> set approvers
          then ib_deny d actor name h delivery 403
                 (''user '' @ user @ '' is not an approver on this hook (command: '' @ cmVerb c @ '')'') b
          else
            (let who = ''slack:'' @ user in
             case ib_decide d h c who b of
               (result, b1) \<Rightarrow>
                 (let detail = cmVerb c @ '' '' @ cmPrefix c @ '' by '' @ who @ '': '' @ result in
                  case ib_audit d actor (inbound_entry name (crName cred) delivery ''command'' 200 detail h) b1 of
                    (False, b2) \<Rightarrow> (audit_unavailable, b2)
                  | (True, b2) \<Rightarrow>
                      (answer_json 200 [(''outcome'', result), (''status'', ''command'')],
                       if bdHasReplier d then b2\<lparr>brReplies := brReplies b2 @ [(result, smThreadTS (evSlack ev))]\<rparr> else b2))))"

subsection \<open>Admission\<close>

definition queue_full :: string where
  "queue_full = ''inbound queue full '' @ [char_of (226::nat), char_of (128::nat), char_of (148::nat)] @ '' retry later''"

definition admit_event ::
  "'s BridgeDeps \<Rightarrow> string \<Rightarrow> InboundHook \<Rightarrow> string \<Rightarrow> Credential \<Rightarrow> string \<Rightarrow> event \<Rightarrow> 's bridge \<Rightarrow> Response \<times> 's bridge" where
  "admit_event d name h delivery cred actor ev b =
     (if brSlots b \<ge> bdQueueSize d then ib_deny d actor name h delivery 503 queue_full b
      else
        (let b0 = b\<lparr>brSlots := brSlots b + 1\<rparr>; release = (\<lambda>b. b\<lparr>brSlots := brSlots b - 1\<rparr>) in
         case in_store (isAdmitInboundEvent (bdStore d) name (crName cred) delivery (agentRef h) actor) b0 of
           (Inl ErrReplay, b1) \<Rightarrow> ib_deny d actor name h delivery 409 ''replay: delivery already admitted'' (release b1)
         | (Inl ErrNoGrant, b1) \<Rightarrow>
             (case ib_fileRequest d (crName cred) ''inbound'' name (''denied inbound event on hook '' @ name) (release b1) of
                (filed, b2) \<Rightarrow>
                  ib_deny d actor name h delivery 403
                    (''inbound trigger not permitted: no live grant for hook '' @ name @ (if filed then filed_note else [])) b2)
         | (Inl _, b1) \<Rightarrow> ib_deny d actor name h delivery 503 ''inbound admission unavailable'' (release b1)
         | (Inr (eventID, grantID), b1) \<Rightarrow>
             (answer_json 202 [(''agent'', agentRef h), (''event_id'', eventID), (''grant'', grantID), (''hook'', name),
                (''status'', ''admitted'')],
              (Decide Granted ReasonGrant b1)\<lparr>brJobs := brJobs b1 @ [\<lparr>jbEventID = eventID, jbHook = name, jbH = h,
                 jbDelivery = delivery, jbText = evText ev, jbActedFor = actor\<rparr>]\<rparr>)))"

text \<open>The target agent must be governed, unexpired and inside its budget.\<close>

definition check_target ::
  "'s BridgeDeps \<Rightarrow> string \<Rightarrow> InboundHook \<Rightarrow> string \<Rightarrow> Credential \<Rightarrow> string \<Rightarrow> event \<Rightarrow> 's bridge \<Rightarrow> Response \<times> 's bridge" where
  "check_target d name h delivery cred actor ev b =
     (case in_store (isCredentialByName (bdStore d) (ihBudgetCredential h)) b of
        (Inl e, b1) \<Rightarrow>
          if e = ErrNotFound
          then ib_deny d actor name h delivery 403
                 (''target agent is not governed: budget credential '' @ ihBudgetCredential h @ '' is not issued'') b1
          else ib_deny d actor name h delivery 503 ''credential store unavailable'' b1
      | (Inr target, b1) \<Rightarrow>
          if Expired target (bdNow d (gwStore b1))
          then ib_deny d actor name h delivery 403 (''target '' @ ExpiredMessage (bdUprint d) target) b1
          else
            (case in_store (\<lambda>s. Preview (bdMeter d\<lparr>mtNow := bdNow d s\<rparr>) target s) b1 of
               (None, b2) \<Rightarrow> admit_event d name h delivery cred actor ev b2
             | (Some dn, b2) \<Rightarrow>
                 if dnBudgetSubject dn = []
                 then ib_deny d actor name h delivery 503 (''target budget: '' @ dnMsg dn) b2
                 else
                   (case ib_fileRequest d (crName target) ''budget'' (dnBudgetSubject dn) (''denied inbound event via hook '' @ name) b2 of
                      (filed, b3) \<Rightarrow>
                        ib_deny d actor name h delivery 429
                          (''target budget: '' @ dnMsg dn @ (if filed then filed_note else [])) b3)))"

text \<open>A verified event: a handshake, one to ignore, a command, or a trigger.\<close>

definition acknowledge :: "'s BridgeDeps \<Rightarrow> string \<Rightarrow> InboundAuditEntry \<Rightarrow> (string \<times> string) list \<Rightarrow> 's bridge \<Rightarrow> Response \<times> 's bridge" where
  "acknowledge d actor e kvs b =
     (case ib_audit d actor e b of (ok, b1) \<Rightarrow> (if ok then answer_json 200 kvs else audit_unavailable, b1))"

definition dispatch_event ::
  "'s BridgeDeps \<Rightarrow> string \<Rightarrow> InboundHook \<Rightarrow> string \<Rightarrow> Credential \<Rightarrow> string \<Rightarrow> event \<Rightarrow> 's bridge \<Rightarrow> Response \<times> 's bridge" where
  "dispatch_event d name h delivery cred actor ev b =
     (case (if ihAuth h = AuthSlack then parseCommand (bdUprint d) (bdUlower d) (smText (evSlack ev)) else None) of
        Some c \<Rightarrow> handleCommand d name h delivery cred actor ev c b
      | None \<Rightarrow> check_target d name h delivery cred actor ev b)"

definition on_event ::
  "'s BridgeDeps \<Rightarrow> string \<Rightarrow> InboundHook \<Rightarrow> string \<Rightarrow> Credential \<Rightarrow> event \<Rightarrow> 's bridge \<Rightarrow> Response \<times> 's bridge" where
  "on_event d name h delivery cred ev b =
     (let actor = actorOf h ev in
      if evChallenge ev \<noteq> []
      then acknowledge d actor (inbound_entry name (crName cred) [] ''challenge'' 200 [] h) [(''challenge'', evChallenge ev)] b
      else if evIgnored ev \<noteq> []
      then acknowledge d actor (inbound_entry name (crName cred) delivery ''ignored'' 200 (evIgnored ev) h)
             [(''reason'', evIgnored ev), (''status'', ''ignored'')] b
      else if ihSlackChannelsFile h \<noteq> [] then
        (case readSlackChannels (bdReadFile d (ihSlackChannelsFile h) (gwStore b)) of
           None \<Rightarrow> ib_deny d actor name h delivery 503 ''hook channel allowlist unavailable'' b
         | Some channels \<Rightarrow>
             if smChannel (evSlack ev) \<notin> set channels
             then ib_deny d actor name h delivery 403
                    (''channel '' @ smChannel (evSlack ev) @ '' is not one this hook is bound to'') b
             else dispatch_event d name h delivery cred actor ev b)
      else dispatch_event d name h delivery cred actor ev b)"

definition ib_receive :: "'s BridgeDeps \<Rightarrow> Request \<Rightarrow> 's bridge \<Rightarrow> Response \<times> 's bridge" where
  "ib_receive d r b =
     (let name = rqName r in
      case map_get (bdHooks d) name of
        None \<Rightarrow> (http_error ''unauthorized'' 401, b)
      | Some h0 \<Rightarrow>
          (let h = Bounded h0 in
           case allow name (ihRatePerMinute h) (ihBurst h) (bdNow d (gwStore b)) (brBuckets b) of
             (False, bs) \<Rightarrow> (refusal h 429 ''rate limit exceeded'', Decide Denied ReasonRateLimit (b\<lparr>brBuckets := bs\<rparr>))
           | (True, bs) \<Rightarrow>
               (let b1 = b\<lparr>brBuckets := bs\<rparr> in
                if gwDegraded b1 then ib_deny d ActedForUnknown name h [] 503 ''inbound audit unavailable'' b1
                else case read_body (nat (ihMaxBodyBytes h)) r of
                       None \<Rightarrow> ib_deny d ActedForUnknown name h [] 413 ''request body unreadable or too large'' b1
                     | Some body \<Rightarrow>
                         (case ib_authenticate d r name h body b1 of
                            (Inl resp, b2) \<Rightarrow> (resp, b2)
                          | (Inr (cred, delivery, ev), b2) \<Rightarrow> on_event d name h delivery cred ev b2))))"

end
