(* ===== verification/BridgeInvoke.thy ===== *)
theory BridgeInvoke
  imports Bridge
begin

text \<open>
  The worker side of \<^verbatim>\<open>plane/internal/inbound/inbound.go\<close>: the call of the agent, what is read of
  its answer, the runs opened around it and the outcome row; and the bridge as a whole, a step
  relation of requests, workers and whatever else changes the shared store.
\<close>
subsection \<open>Invoking the agent\<close>

record a2a_part =
  apKind :: string
  apText :: string

record a2a_turn =
  atRole :: string
  atUsage :: "(int \<times> int) option"

record a2a_result =
  arTaskID :: string
  arTaskKind :: string
  arState :: string
  arArtifacts :: "a2a_part slice slice"
  arHistory :: "a2a_turn slice"

record a2a_env =
  aeError :: "(int \<times> string) option"
  aeResult :: a2a_result

definition a2a_zero :: a2a_env where
  "a2a_zero = \<lparr>aeError = None,
     aeResult = \<lparr>arTaskID = [], arTaskKind = [], arState = [], arArtifacts = ([], 0), arHistory = ([], 0)\<rparr>\<rparr>"

definition set_rpc_error :: "json \<Rightarrow> (int \<times> string) \<times> bool \<Rightarrow> (int \<times> string) \<times> bool" where
  "set_rpc_error = set_struct (set_fields
     [(''code'', set_field set_int64 fst (\<lambda>x p. (x, snd p))), (''message'', set_field set_string snd (\<lambda>x p. (fst p, x)))])"

definition set_turn_usage :: "json \<Rightarrow> (int \<times> int) \<times> bool \<Rightarrow> (int \<times> int) \<times> bool" where
  "set_turn_usage = set_struct (set_fields
     [(''prompttokencount'', set_field set_int64 fst (\<lambda>x p. (x, snd p))),
      (''candidatestokencount'', set_field set_int64 snd (\<lambda>x p. (fst p, x)))])"

definition set_turn :: "json \<Rightarrow> a2a_turn \<times> bool \<Rightarrow> a2a_turn \<times> bool" where
  "set_turn = set_struct (set_fields
     [(''role'', set_field set_string atRole (\<lambda>x r. r\<lparr>atRole := x\<rparr>)),
      (''metadata'', set_field (set_struct (set_fields [(''kagent_usage_metadata'', set_pointer set_turn_usage (0, 0))]))
         atUsage (\<lambda>x r. r\<lparr>atUsage := x\<rparr>))])"

definition set_part :: "json \<Rightarrow> a2a_part \<times> bool \<Rightarrow> a2a_part \<times> bool" where
  "set_part = set_struct (set_fields
     [(''kind'', set_field set_string apKind (\<lambda>x r. r\<lparr>apKind := x\<rparr>)), (''text'', set_field set_string apText (\<lambda>x r. r\<lparr>apText := x\<rparr>))])"

definition set_artifact :: "json \<Rightarrow> a2a_part slice \<times> bool \<Rightarrow> a2a_part slice \<times> bool" where
  "set_artifact = set_struct (set_fields [(''parts'', set_slice set_part \<lparr>apKind = [], apText = []\<rparr>)])"

definition set_result :: "json \<Rightarrow> a2a_result \<times> bool \<Rightarrow> a2a_result \<times> bool" where
  "set_result = set_struct (set_fields
     [(''id'', set_field set_string arTaskID (\<lambda>x r. r\<lparr>arTaskID := x\<rparr>)),
      (''kind'', set_field set_string arTaskKind (\<lambda>x r. r\<lparr>arTaskKind := x\<rparr>)),
      (''status'', set_field (set_struct (set_fields [(''state'', set_string)])) arState (\<lambda>x r. r\<lparr>arState := x\<rparr>)),
      (''artifacts'', set_field (set_slice set_artifact ([], 0)) arArtifacts (\<lambda>x r. r\<lparr>arArtifacts := x\<rparr>)),
      (''history'', set_field (set_slice set_turn \<lparr>atRole = [], atUsage = None\<rparr>) arHistory (\<lambda>x r. r\<lparr>arHistory := x\<rparr>))])"

definition read_reply :: "string \<Rightarrow> a2a_env option" where
  "read_reply raw =
     (case unmarshal (set_struct (set_fields
         [(''error'', set_field (set_pointer set_rpc_error (0, [])) aeError (\<lambda>x r. r\<lparr>aeError := x\<rparr>)),
          (''result'', set_field set_result aeResult (\<lambda>x r. r\<lparr>aeResult := x\<rparr>))])) raw a2a_zero of
        (env, e) \<Rightarrow> if e then None else Some env)"

record a2a_outcome =
  aoStatus :: int
  aoTaskID :: string
  aoIn :: int
  aoOut :: int
  aoErr :: "string option"

text \<open>Tokens are summed over the agent's turns in \<open>int64\<close>.\<close>

definition add_turn :: "a2a_turn \<Rightarrow> int \<times> int \<Rightarrow> int \<times> int" where
  "add_turn m t =
     (case atUsage m of
        None \<Rightarrow> t
      | Some (p, c) \<Rightarrow> if atRole m = ''agent'' then (wrap64 (fst t + max p 0), wrap64 (snd t + max c 0)) else t)"

definition reply_text :: "a2a_result \<Rightarrow> string" where
  "reply_text res =
     concat (map (\<lambda>a. concat (map (\<lambda>p. if apKind p = ''text'' then apText p else []) (slice_elems a)))
       (slice_elems (arArtifacts res)))"

definition read_outcome :: "(nat \<Rightarrow> bool) \<Rightarrow> int \<Rightarrow> string \<Rightarrow> a2a_outcome" where
  "read_outcome uprint status raw =
     (let failed = (\<lambda>e. \<lparr>aoStatus = status, aoTaskID = [], aoIn = 0, aoOut = 0, aoErr = Some e\<rparr>) in
      if status \<noteq> 200 then failed (''agent endpoint answered HTTP '' @ format_int status)
      else case read_reply raw of
             None \<Rightarrow> failed ''agent response is not a JSON-RPC message''
           | Some env \<Rightarrow>
               (case aeError env of
                  Some (errCode, msg) \<Rightarrow> failed (''agent returned JSON-RPC error '' @ format_int errCode @ '': '' @ msg)
                | None \<Rightarrow>
                    (let res = aeResult env; used = fold add_turn (slice_elems (arHistory res)) (0, 0) in
                     \<lparr>aoStatus = status, aoTaskID = arTaskID res, aoIn = fst used, aoOut = snd used,
                      aoErr = (if arTaskKind res \<noteq> ''task'' \<or> arState res \<noteq> ''completed'' \<or> trim_space (reply_text res) = []
                        then Some (''task '' @ arTaskID res @ '' did not complete with a reply (state '' @ quote uprint (arState res) @ '')'')
                        else None)\<rparr>)))"

definition agent_read :: "UpstreamResponse \<Rightarrow> string + string" where
  "agent_read u =
     (if length (urBody u) \<ge> ib_maxBufferedResp then Inr (take ib_maxBufferedResp (urBody u))
      else case urCut u of Some (_, e) \<Rightarrow> Inl e | None \<Rightarrow> Inr (urBody u))"

definition invocation :: "'s BridgeDeps \<Rightarrow> job \<Rightarrow> Outbound" where
  "invocation d j =
     (let msgID = ''kaimahi-inbound-'' @ jbEventID j in
      \<lparr>obURL = trim_suffix (bdA2ABase d) ''/'' @ ''/api/a2a/'' @ ihAgentNamespace (jbH j) @ ''/'' @ ihAgent (jbH j) @ ''/'',
       obMethod = ''POST'',
       obHeader = header_set ''x-user-id'' (userIDPrefix @ jbHook j) (header_set ''Content-Type'' ''application/json'' []),
       obBody = html_escape (render (JObj
         [(''id'', JStr msgID), (''jsonrpc'', JStr ''2.0''), (''method'', JStr ''message/send''),
          (''params'', JObj [(''message'', JObj
             [(''kind'', JStr ''message''), (''messageId'', JStr msgID),
              (''parts'', JArr [JObj [(''kind'', JStr ''text''), (''text'', JStr (jbText j))]]),
              (''role'', JStr ''user'')])])])),
       obHardened = False\<rparr>)"

definition invoke :: "'s BridgeDeps \<Rightarrow> job \<Rightarrow> 's bridge \<Rightarrow> a2a_outcome \<times> 's bridge" where
  "invoke d j b =
     (let out = invocation d j; failed = (\<lambda>st e. \<lparr>aoStatus = st, aoTaskID = [], aoIn = 0, aoOut = 0, aoErr = Some e\<rparr>) in
      case bdBadURL d (obURL out) of
        Some e \<Rightarrow> (failed 0 e, b)
      | None \<Rightarrow>
          (case in_store (bdSend d out) (b\<lparr>gwSent := gwSent b @ [out]\<rparr>) of
             (Inl e, b1) \<Rightarrow>
               (failed 0 (''agent unreachable: '' @ (case e of SendError _ t \<Rightarrow> t | CredentialUnavailable \<Rightarrow> [])), b1)
           | (Inr u, b1) \<Rightarrow>
               ((case agent_read u of
                   Inl e \<Rightarrow> failed (urStatus u) (''reading agent response: '' @ e)
                 | Inr raw \<Rightarrow> read_outcome (bdUprint d) (urStatus u) raw), b1)))"

definition close_runs :: "'s BridgeDeps \<Rightarrow> string list \<Rightarrow> 's bridge \<Rightarrow> 's bridge" where
  "close_runs d ids b = fold (\<lambda>i b. snd (in_store (isCloseRun (bdStore d) i) b)) ids b"

text \<open>One run per distinct credential of the agent, all or none.\<close>

fun open_runs :: "'s BridgeDeps \<Rightarrow> job \<Rightarrow> string list \<Rightarrow> string list \<Rightarrow> 's bridge \<Rightarrow> string list option \<times> 's bridge" where
  "open_runs d j [] ids b = (Some ids, b)"
| "open_runs d j (c # cs) ids b =
     (case in_store (isOpenRun (bdStore d) c (jbActedFor j) (''inbound:'' @ jbHook j) (jbDelivery j) (jbEventID j)
         (bdInvokeTimeout d + minute)) b of
        (Inl _, b1) \<Rightarrow> (None, close_runs d ids b1)
      | (Inr i, b1) \<Rightarrow> open_runs d j cs (ids @ [i]) b1)"

definition run_credentials :: "InboundHook \<Rightarrow> string list" where
  "run_credentials h =
     ihBudgetCredential h # (if ihToolCredential h \<noteq> [] \<and> ihToolCredential h \<noteq> ihBudgetCredential h then [ihToolCredential h] else [])"

definition outcome_entry :: "job \<Rightarrow> string \<Rightarrow> int \<Rightarrow> string \<Rightarrow> int \<Rightarrow> int \<Rightarrow> InboundAuditEntry" where
  "outcome_entry j decision status detail tokensIn tokensOut =
     (inbound_entry (jbHook j) (ihCredential (jbH j)) (jbDelivery j) decision status detail (jbH j))
       \<lparr>iaInputTokens := tokensIn, iaOutputTokens := tokensOut, iaActedFor := jbActedFor j\<rparr>"

definition process :: "'s BridgeDeps \<Rightarrow> job \<Rightarrow> 's bridge \<Rightarrow> 's bridge" where
  "process d j b =
     (case open_runs d j (run_credentials (jbH j)) [] b of
        (None, b1) \<Rightarrow>
          snd (ib_audit d (jbActedFor j) (outcome_entry j ''failed'' 0 ''attribution unavailable: the agent run could not be opened'' 0 0) b1)
      | (Some ids, b1) \<Rightarrow>
          (case invoke d j b1 of
             (out, b2) \<Rightarrow>
               close_runs d ids (snd (ib_audit d (jbActedFor j)
                 (case aoErr out of
                    Some e \<Rightarrow> outcome_entry j ''failed'' (aoStatus out) e (aoIn out) (aoOut out)
                  | None \<Rightarrow> outcome_entry j ''completed'' (aoStatus out) (''task '' @ aoTaskID out) (aoIn out) (aoOut out)) b2))))"

text \<open>A worker that finished an event gives its slot back.\<close>

definition finish :: "'s BridgeDeps \<Rightarrow> job \<Rightarrow> 's bridge \<Rightarrow> 's bridge" where
  "finish d j b = (process d j b)\<lparr>brSlots := brSlots (process d j b) - 1\<rparr>"

subsection \<open>The bridge\<close>

text \<open>The state and the events the workers are on. The store may change under them at any time.\<close>

inductive worker_step :: "'s BridgeDeps \<Rightarrow> 's bridge \<times> job list \<Rightarrow> 's bridge \<times> job list \<Rightarrow> bool" for d where
  takes: "brJobs b = j # js \<Longrightarrow> int (length fl) < bdWorkers d \<Longrightarrow> worker_step d (b, fl) (b\<lparr>brJobs := js\<rparr>, fl @ [j])"
| finishes: "worker_step d (b, xs @ j # ys) (finish d j b, xs @ ys)"

inductive bridge_step :: "'s BridgeDeps \<Rightarrow> 's bridge \<times> job list \<Rightarrow> 's bridge \<times> job list \<Rightarrow> bool" for d where
  receives: "ib_receive d r b = (resp, b') \<Longrightarrow> bridge_step d (b, fl) (b', fl)"
| works: "worker_step d x y \<Longrightarrow> bridge_step d x y"
| elsewhere: "bridge_step d (b, fl) (b\<lparr>gwStore := s\<rparr>, fl)"

inductive_cases worker_stepE: "worker_step d (b, fl) (b', fl')"
inductive_cases bridge_stepE: "bridge_step d (b, fl) (b', fl')"

definition idle_bridge :: "'s \<Rightarrow> 's bridge" where
  "idle_bridge s = \<lparr>gwStore = s, gwDegraded = False, gwSent = [], gwDecisions = [], brBuckets = [], brJobs = [],
     brSlots = 0, brReplies = []\<rparr>"

definition bridge_reachable :: "'s BridgeDeps \<Rightarrow> 's bridge \<times> job list \<Rightarrow> bool" where
  "bridge_reachable d x \<longleftrightarrow> (\<exists>s. (bridge_step d)\<^sup>*\<^sup>* (idle_bridge s, []) x)"

end
