(* ===== verification/BridgeFlow.thy ===== *)
theory BridgeFlow
  imports BridgeInvoke GatewayFlow
begin

text \<open>
  What one request of the bridge and one event of a worker can do to the queue, the slots and the
  store; the contracts of the store behind it, and their Postgres instance.
\<close>

subsection \<open>What stays\<close>

text \<open>
  A relation that the calls of the store and the handler's own notes keep is kept by every part of
  the handler, but for the one call that approves a request.
\<close>

locale bridge_frame =
  fixes d :: "'s BridgeDeps" and Q :: "'s bridge \<Rightarrow> 's bridge \<Rightarrow> bool"
  assumes refl [simp]: "Q b b" and trans [trans]: "Q a b \<Longrightarrow> Q b c \<Longrightarrow> Q a c"
    and degraded: "Q b (b\<lparr>gwDegraded := x\<rparr>)" and decided: "Q b (Decide dec why b)" and replied: "Q b (b\<lparr>brReplies := rs\<rparr>)"
    and by_hash: "in_store (isCredentialByTokenHash (bdStore d) h) b = (cr, b') \<Longrightarrow> Q b b'"
    and by_name: "in_store (isCredentialByName (bdStore d) h) b = (cr, b') \<Longrightarrow> Q b b'"
    and recorded: "in_store (isRecordInboundAudit (bdStore d) e) b = (u, b') \<Longrightarrow> Q b b'"
    and filed: "in_store (isFileApprovalRequest (bdStore d) f) b = (new, b') \<Longrightarrow> Q b b'"
    and by_prefix: "in_store (isRequestByPrefix (bdStore d) h) b = (rq, b') \<Longrightarrow> Q b b'"
    and denied: "in_store (isDenyApprovalRequest (bdStore d) h h2) b = (u, b') \<Longrightarrow> Q b b'"
begin

lemma trans_degraded: "Q a b \<Longrightarrow> Q a (b\<lparr>gwDegraded := x\<rparr>)"
  using trans degraded by blast

lemma trans_decided: "Q a b \<Longrightarrow> Q a (Decide dec why b)"
  using trans decided by blast

lemma audit_frame: "ib_audit d actor e b = (ok, b') \<Longrightarrow> Q b b'"
  unfolding ib_audit_def by (auto split: prod.splits sum.splits if_splits dest!: recorded intro: trans_degraded trans_decided)

lemma audit_snd [simp]: "Q b (snd (ib_audit d actor e b))"
  by (metis audit_frame prod.collapse)

lemma deny_frame: "ib_deny d actor name h delivery status msg b = (resp, b') \<Longrightarrow> Q b b'"
  unfolding ib_deny_def by (auto intro: trans_decided)

lemma file_frame: "ib_fileRequest d c k s t b = (ok, b') \<Longrightarrow> Q b b'"
  unfolding ib_fileRequest_def by (auto split: prod.splits sum.splits dest: filed)

lemma auth_fail_frame: "auth_fail d name h delivery status msg b = (x, b') \<Longrightarrow> Q b b' \<and> (\<exists>resp. x = Inl resp)"
  unfolding auth_fail_def by (auto split: prod.splits dest: deny_frame)

lemma authenticate_frame:
  assumes "ib_authenticate d r name h body b = (x, b')"
  shows "Q b b'"
proof -
  have "Q b b'" if "auth_bearer d r name h body b = (x, b')"
    using that unfolding auth_bearer_def Let_def
    by (auto split: if_splits prod.splits sum.splits option.splits dest!: auth_fail_frame by_hash intro: trans)
  moreover have "Q b b'" if "auth_signed d r name h body b = (x, b')"
    using that unfolding auth_signed_def Let_def
    by (auto split: if_splits prod.splits sum.splits option.splits dest!: auth_fail_frame by_name intro: trans)
  ultimately show ?thesis using assms by (auto simp: ib_authenticate_def split: if_splits dest: auth_fail_frame)
qed

lemma raced_frame: "raced d req b = (s, b') \<Longrightarrow> Q b b'"
  unfolding raced_def by (auto split: prod.splits sum.splits dest: by_prefix)

lemma deny_request_frame: "deny_request d who req b = (s, b') \<Longrightarrow> Q b b'"
  unfolding deny_request_def
  by (auto split: prod.splits sum.splits store_error.splits dest!: denied raced_frame intro: trans)

text \<open>The approval a command leads to, if it leads to one: who asked for it, on what, with which bounds.\<close>

definition approves :: "InboundHook \<Rightarrow> command \<Rightarrow> string \<Rightarrow> 's bridge \<Rightarrow> 's bridge \<Rightarrow> bool" where
  "approves h c who b b' \<longleftrightarrow> (\<exists>(req :: ApprovalRequest) b1 b2 uses ttl res.
     in_store (isRequestByPrefix (bdStore d) (cmPrefix c)) b = (Inr req, b1) \<and> cmErr c = None \<and> cmVerb c \<noteq> ''deny'' \<and> arStatus req = ''pending'' \<and>
     command_bounds h c = Some (uses, ttl) \<and>
     in_store (isApproveRequest (bdStore d) (arID req) (map_option (\<lambda>t. bdNow d (gwStore b1) + t) ttl) uses (cmAmount c) who) b1 = (res, b2) \<and>
     Q b2 b')"

lemma approve_request_frame:
  assumes "approve_request d h c who req b1 = (s, b')" "in_store (isRequestByPrefix (bdStore d) (cmPrefix c)) b = (Inr req, b1)" "cmErr c = None" "cmVerb c \<noteq> ''deny''" "arStatus req = ''pending''"
  shows "Q b b' \<or> approves h c who b b'"
proof (cases "\<exists>uses ttl. command_bounds h c = Some (uses, ttl) \<and> (arKind req = ''budget'' \<longleftrightarrow> cmAmount c \<noteq> None)")
  case False
  then have "b' = b1" using assms(1) unfolding approve_request_def by (auto split: option.splits if_splits)
  then show ?thesis using by_prefix [OF assms(2)] by simp
next
  case True
  then obtain uses ttl where ut: "command_bounds h c = Some (uses, ttl)" "arKind req = ''budget'' \<longleftrightarrow> cmAmount c \<noteq> None" by blast
  obtain res b2 where ap: "in_store (isApproveRequest (bdStore d) (arID req) (map_option (\<lambda>t. bdNow d (gwStore b1) + t) ttl)
      uses (cmAmount c) who) b1 = (res, b2)" by fastforce
  have "Q b2 b'"
    using assms(1) ut ap unfolding approve_request_def
    by (auto split: sum.splits store_error.splits dest!: raced_frame)
  then show ?thesis using assms(2-5) ut ap unfolding approves_def by blast
qed

lemma decide_frame:
  assumes "ib_decide d h c who b = (s, b')"
  shows "Q b b' \<or> approves h c who b b'"
proof (cases "cmErr c")
  case None
  obtain res b1 where l: "in_store (isRequestByPrefix (bdStore d) (cmPrefix c)) b = (res, b1)" by fastforce
  note q = by_prefix [OF l]
  show ?thesis
  proof (cases res)
    case (Inl e)
    then show ?thesis using assms None l q by (cases e) (auto simp: ib_decide_def)
  next
    case (Inr req)
    show ?thesis
    proof (cases "arStatus req = ''pending'' \<and> cmVerb c \<noteq> ''deny''")
      case True
      then show ?thesis using assms None l q Inr approve_request_frame [of h c who req b1 s b' b] by (auto simp: ib_decide_def)
    next
      case False
      then show ?thesis using assms None l q Inr by (auto simp: ib_decide_def split: if_splits dest!: deny_request_frame intro: trans)
    qed
  qed
qed (use assms in \<open>auto simp: ib_decide_def\<close>)

lemma approves_trans: "approves h c who b b1 \<Longrightarrow> Q b1 b' \<Longrightarrow> approves h c who b b'"
  unfolding approves_def using trans by blast

lemma handleCommand_frame:
  assumes "handleCommand d name h delivery cred actor ev c b = (resp, b')"
  shows "Q b b' \<or> (\<exists>users. readSlackApprovers (bdReadFile d (ihSlackApproversFile h) (gwStore b)) = Some users \<and>
    smUser (evSlack ev) \<in> set users \<and> approves h c (''slack:'' @ smUser (evSlack ev)) b b')"
proof (cases "\<exists>users. readSlackApprovers (bdReadFile d (ihSlackApproversFile h) (gwStore b)) = Some users \<and>
    smUser (evSlack ev) \<noteq> [] \<and> smUser (evSlack ev) \<in> set users")
  case False
  then show ?thesis using assms by (auto simp: handleCommand_def Let_def split: option.splits if_splits dest!: deny_frame)
next
  case True
  obtain s b1 where dc: "ib_decide d h c (''slack:'' @ smUser (evSlack ev)) b = (s, b1)" by fastforce
  have "Q b1 b'" using assms True dc unfolding handleCommand_def Let_def
    by (auto split: prod.splits bool.splits if_splits dest!: audit_frame intro: trans replied)
  then show ?thesis using decide_frame [OF dc] True trans approves_trans by blast
qed

end

definition kept :: "'s bridge \<Rightarrow> 's bridge \<Rightarrow> bool" where
  "kept b b' \<longleftrightarrow> brJobs b' = brJobs b \<and> brSlots b' = brSlots b \<and> gwSent b' = gwSent b \<and> brBuckets b' = brBuckets b"

lemma kept_refl [simp]: "kept b b"
  by (simp add: kept_def)

lemma kept_trans [trans]: "kept a b \<Longrightarrow> kept b c \<Longrightarrow> kept a c"
  by (simp add: kept_def)

lemma in_store_kept: "in_store f b = (r, b') \<Longrightarrow> kept b b'"
  by (auto simp: in_store_def kept_def split: prod.splits)

interpretation kept: bridge_frame d kept for d :: "'s BridgeDeps"
  by unfold_locales (auto simp: in_store_kept intro: kept_trans, simp_all add: kept_def Decide_def)

lemma handleCommand_kept: "handleCommand d name h delivery cred actor ev c b = (resp, b') \<Longrightarrow> kept b b'"
proof -
  assume c: "handleCommand d name h delivery cred actor ev c b = (resp, b')"
  have "kept b b'" if "kept.approves d h c who b b'" for who
    using that kept_trans in_store_kept unfolding kept.approves_def by metis
  then show ?thesis using kept.handleCommand_frame [OF c] by blast
qed

subsection \<open>How an event is admitted\<close>

text \<open>Either nothing is queued and no slot is taken, or exactly one event is queued in a slot of its own.\<close>

lemma admit_event_outcome:
  assumes "admit_event d name h delivery cred actor ev b = (resp, b')"
  obtains "kept b b'"
  | b1 eventID grantID where "brSlots b < bdQueueSize d"
      "in_store (isAdmitInboundEvent (bdStore d) name (crName cred) delivery (agentRef h) actor) (b\<lparr>brSlots := brSlots b + 1\<rparr>) =
        (Inr (eventID, grantID), b1)"
      "b' = (Decide Granted ReasonGrant b1)\<lparr>brJobs := brJobs b @ [\<lparr>jbEventID = eventID, jbHook = name, jbH = h,
         jbDelivery = delivery, jbText = evText ev, jbActedFor = actor\<rparr>]\<rparr>"
      "brSlots b' = brSlots b + 1" "rpStatus resp = 202"
proof (cases "brSlots b \<ge> bdQueueSize d")
  case True
  then show thesis using assms by (intro that(1)) (auto simp: admit_event_def dest: kept.deny_frame)
next
  case False
  obtain res b1 where st: "in_store (isAdmitInboundEvent (bdStore d) name (crName cred) delivery (agentRef h) actor)
      (b\<lparr>brSlots := brSlots b + 1\<rparr>) = (res, b1)" by fastforce
  have freed: "kept b (b1\<lparr>brSlots := brSlots b1 - 1\<rparr>)" using in_store_kept [OF st] by (simp add: kept_def)
  show thesis
  proof (cases res)
    case (Inl e)
    have "kept b b'"
      using assms False st Inl freed unfolding admit_event_def Let_def
      by (cases e) (auto split: prod.splits dest!: kept.deny_frame kept.file_frame intro: kept_trans)
    then show thesis by (rule that(1))
  next
    case (Inr p)
    obtain ei gi where p: "p = (ei, gi)" by fastforce
    show thesis using assms False st Inr p in_store_kept [OF st] unfolding admit_event_def Let_def
      by (intro that(2) [of ei gi b1]) (auto simp: kept_def Decide_def answer_json_def)
  qed
qed

lemma check_target_outcome:
  assumes "check_target d name h delivery cred actor ev b = (resp, b')"
  obtains "kept b b'"
  | target b1 b2 where "in_store (isCredentialByName (bdStore d) (ihBudgetCredential h)) b = (Inr target, b1)"
      "\<not> Expired target (bdNow d (gwStore b1))"
      "in_store (\<lambda>s. Preview (bdMeter d\<lparr>mtNow := bdNow d s\<rparr>) target s) b1 = (None, b2)"
      "admit_event d name h delivery cred actor ev b2 = (resp, b')"
  using assms unfolding check_target_def
  by (auto split: prod.splits sum.splits if_splits option.splits dest!: kept.deny_frame in_store_kept kept.file_frame)
    (blast intro: kept_trans)+

lemma on_event_outcome:
  assumes "on_event d name h delivery cred ev b = (resp, b')"
  obtains "kept b b'"
  | "evChallenge ev = []" "evIgnored ev = []"
      "ihSlackChannelsFile h \<noteq> [] \<Longrightarrow> \<exists>cs. readSlackChannels (bdReadFile d (ihSlackChannelsFile h) (gwStore b)) = Some cs \<and>
         smChannel (evSlack ev) \<in> set cs"
      "ihAuth h = AuthSlack \<Longrightarrow> parseCommand (bdUprint d) (bdUlower d) (smText (evSlack ev)) = None"
      "check_target d name h delivery cred (actorOf h ev) ev b = (resp, b')"
  using assms unfolding on_event_def dispatch_event_def acknowledge_def Let_def
  by (auto split: prod.splits if_splits option.splits dest!: kept.deny_frame kept.audit_frame handleCommand_kept)

lemma ib_receive_outcome:
  assumes "ib_receive d r b = (resp, b')"
  obtains "brJobs b' = brJobs b" "brSlots b' = brSlots b" "gwSent b' = gwSent b"
  | h0 h bs body cred delivery ev b2 where "map_get (bdHooks d) (rqName r) = Some h0" "h = Bounded h0"
      "allow (rqName r) (ihRatePerMinute h) (ihBurst h) (bdNow d (gwStore b)) (brBuckets b) = (True, bs)" "\<not> gwDegraded b"
      "read_body (nat (ihMaxBodyBytes h)) r = Some body"
      "ib_authenticate d r (rqName r) h body (b\<lparr>brBuckets := bs\<rparr>) = (Inr (cred, delivery, ev), b2)"
      "on_event d (rqName r) h delivery cred ev b2 = (resp, b')"
proof (cases "map_get (bdHooks d) (rqName r)")
  case None
  then show thesis using assms by (intro that(1)) (auto simp: ib_receive_def)
next
  case (Some h0)
  obtain ok bs where al: "allow (rqName r) (ihRatePerMinute (Bounded h0)) (ihBurst (Bounded h0)) (bdNow d (gwStore b))
      (brBuckets b) = (ok, bs)" by fastforce
  note u = assms [unfolded ib_receive_def Let_def Some option.case al prod.case]
  show thesis
  proof (cases "\<not> ok \<or> gwDegraded b \<or> read_body (nat (ihMaxBodyBytes (Bounded h0))) r = None")
    case True
    then show thesis using u by (intro that(1)) (auto simp: kept_def Decide_def split: if_splits bool.splits dest!: kept.deny_frame)
  next
    case False
    then obtain body where body: "read_body (nat (ihMaxBodyBytes (Bounded h0))) r = Some body" by auto
    obtain x b2 where au: "ib_authenticate d r (rqName r) (Bounded h0) body (b\<lparr>brBuckets := bs\<rparr>) = (x, b2)" by fastforce
    show thesis
    proof (cases x)
      case (Inl resp')
      then show thesis using u False body au kept.authenticate_frame [OF au] by (intro that(1)) (auto simp: kept_def)
    next
      case (Inr y)
      obtain cred delivery ev where y: "y = (cred, delivery, ev)" by (metis prod_cases3)
      then show thesis using u False body au Inr al Some by (intro that(2) [of h0 "Bounded h0" bs body cred delivery ev b2]) auto
    qed
  qed
qed

subsection \<open>The queue and its slots\<close>

lemma close_runs_kept: "kept b (close_runs d ids b)"
proof -
  have "kept b c \<Longrightarrow> kept b (fold (\<lambda>i b. snd (in_store (isCloseRun (bdStore d) i) b)) ids c)" for c
  proof (induction ids arbitrary: c)
    case (Cons i ids)
    have "kept b (snd (in_store (isCloseRun (bdStore d) i) c))" using Cons.prems kept_trans in_store_kept by (metis prod.collapse)
    then show ?case using Cons.IH by simp
  qed simp
  then show ?thesis by (simp add: close_runs_def)
qed

lemma open_runs_kept: "open_runs d j cs ids b = (x, b') \<Longrightarrow> kept b b'"
proof (induction d j cs ids b rule: open_runs.induct)
  case (2 d j c cs ids b)
  obtain res b1 where st: "in_store (isOpenRun (bdStore d) c (jbActedFor j) (''inbound:'' @ jbHook j) (jbDelivery j) (jbEventID j)
         (bdInvokeTimeout d + minute)) b = (res, b1)" by fastforce
  show ?case
  proof (cases res)
    case (Inl e)
    then show ?thesis using 2(2) st in_store_kept [OF st] close_runs_kept kept_trans by (fastforce split: sum.splits)
  next
    case (Inr i)
    then show ?thesis using 2 st in_store_kept [OF st] kept_trans by fastforce
  qed
qed simp

lemma process_queue: "brJobs (process d j b) = brJobs b" "brSlots (process d j b) = brSlots b"
proof -
  obtain x b1 where o: "open_runs d j (run_credentials (jbH j)) [] b = (x, b1)" by fastforce
  obtain out b2 where i: "invoke d j b1 = (out, b2)" by fastforce
  have k: "brJobs b2 = brJobs b1 \<and> brSlots b2 = brSlots b1"
    using i unfolding invoke_def Let_def
    by (auto split: option.splits prod.splits sum.splits dest!: in_store_kept simp: kept_def)
  have "kept b2 (close_runs d ids (snd (ib_audit d a e b2)))" for ids a e
    using close_runs_kept kept_trans kept.audit_snd by blast
  then show "brJobs (process d j b) = brJobs b" "brSlots (process d j b) = brSlots b"
    using open_runs_kept [OF o] k kept.audit_snd [of b1 d]
    by (auto simp: process_def o i kept_def split: option.splits)
qed

lemma ib_receive_queue:
  assumes "ib_receive d r b = (resp, b')"
  shows "brJobs b' = brJobs b \<and> brSlots b' = brSlots b \<or>
    (\<exists>j. brJobs b' = brJobs b @ [j]) \<and> brSlots b' = brSlots b + 1 \<and> brSlots b < bdQueueSize d \<and> rpStatus resp = 202"
  using assms
proof (cases rule: ib_receive_outcome)
  case (2 h0 h bs body cred delivery ev b2)
  have k: "brJobs b2 = brJobs b" "brSlots b2 = brSlots b" using kept.authenticate_frame [OF 2(6)] by (simp_all add: kept_def)
  from 2(7) show ?thesis
  proof (cases rule: on_event_outcome)
    case 1
    then show ?thesis using k by (simp add: kept_def)
  next
    case C: 2
    from C(5) show ?thesis
    proof (cases rule: check_target_outcome)
      case 1
      then show ?thesis using k by (simp add: kept_def)
    next
      case T: (2 target b3 b4)
      have k4: "brJobs b4 = brJobs b" "brSlots b4 = brSlots b"
        using in_store_kept [OF T(1)] in_store_kept [OF T(3)] k by (simp_all add: kept_def)
      from T(4) show ?thesis
        by (cases rule: admit_event_outcome) (use k4 in \<open>auto simp: kept_def\<close>)
    qed
  qed
qed simp

definition slots_ok :: "'s BridgeDeps \<Rightarrow> 's bridge \<times> job list \<Rightarrow> bool" where
  "slots_ok d x \<longleftrightarrow> (case x of (b, fl) \<Rightarrow> brSlots b = int (length (brJobs b)) + int (length fl) \<and>
     brSlots b \<le> bdQueueSize d \<and> int (length fl) \<le> bdWorkers d)"

lemma worker_step_slots: "worker_step d x y \<Longrightarrow> slots_ok d x \<Longrightarrow> slots_ok d y"
  by (induction rule: worker_step.induct) (auto simp: slots_ok_def finish_def process_queue)

lemma bridge_step_slots: "bridge_step d x y \<Longrightarrow> slots_ok d x \<Longrightarrow> slots_ok d y"
proof (induction rule: bridge_step.induct)
  case (receives r b resp b' fl)
  then show ?case using ib_receive_queue [OF receives(1)] by (auto simp: slots_ok_def)
next
  case (works x y)
  then show ?case by (rule worker_step_slots)
qed (simp add: slots_ok_def)

lemma reachable_slots:
  assumes "bridge_reachable d x" "0 \<le> bdQueueSize d" "0 \<le> bdWorkers d"
  shows "slots_ok d x"
proof -
  have "slots_ok d (idle_bridge s, [])" for s using assms(2,3) by (simp add: slots_ok_def idle_bridge_def)
  moreover have "(bridge_step d)\<^sup>*\<^sup>* y x \<Longrightarrow> slots_ok d y \<Longrightarrow> slots_ok d x" for y
    by (induction rule: rtranclp_induct) (auto intro: bridge_step_slots)
  ultimately show ?thesis using assms(1) by (auto simp: bridge_reachable_def)
qed

text \<open>A worker step brings the queue one step nearer to empty, and there is one while it is not.\<close>

definition work_left :: "'s bridge \<times> job list \<Rightarrow> nat" where
  "work_left x = (case x of (b, fl) \<Rightarrow> 2 * length (brJobs b) + length fl)"

lemma worker_step_work: "worker_step d x y \<Longrightarrow> work_left x = Suc (work_left y)"
  by (induction rule: worker_step.induct) (auto simp: work_left_def finish_def process_queue)

lemma worker_step_progress:
  assumes "0 < bdWorkers d" "0 < work_left x"
  obtains y where "worker_step d x y"
proof -
  obtain b fl where x: "x = (b, fl)" by fastforce
  show thesis
  proof (cases fl)
    case Nil
    then obtain j js where "brJobs b = j # js" using assms(2) by (cases "brJobs b") (auto simp: x work_left_def)
    then show thesis using that worker_step.takes [of b j js fl d] assms(1) Nil x by simp
  next
    case (Cons j js)
    then show thesis using that worker_step.finishes [of d b "[]" j js] x by simp
  qed
qed

subsection \<open>What authentication proves\<close>

text \<open>A bearer hook shows its token; the others a signature under the secret of the hook.\<close>

definition proved :: "'s BridgeDeps \<Rightarrow> Request \<Rightarrow> InboundHook \<Rightarrow> string \<Rightarrow> 's \<Rightarrow> string \<Rightarrow> event \<Rightarrow> bool" where
  "proved d r h body s delivery ev \<longleftrightarrow>
     (if ihAuth h = AuthBearer
      then delivery = header_get (rqHeader r) HeaderDelivery \<and> deliveryRe delivery \<and> genericEvent body = Some ev
      else (ihAuth h = AuthKaimahiHMAC \<or> ihAuth h = AuthSlack) \<and>
        (\<exists>secret. readSecret (bdReadFile d (ihSigningSecretFile h) s) = Some secret \<and>
           signed_event d r h secret body (bdNow d s) = Inr (delivery, ev)))"

text \<open>The credential a verified call is charged to, by token hash or by name.\<close>

locale caller_store =
  fixes st :: "'s inbound_store" and view :: "'s \<Rightarrow> 'v" and holder :: "string \<Rightarrow> Credential \<Rightarrow> 'v \<Rightarrow> bool"
    and named :: "string \<Rightarrow> Credential \<Rightarrow> 'v \<Rightarrow> bool"
  assumes hash_view: "isCredentialByTokenHash st h s = (x, s') \<Longrightarrow> view s' = view s"
    and hash_holder: "isCredentialByTokenHash st h s = (Inr c, s') \<Longrightarrow> holder h c (view s)"
    and name_view: "isCredentialByName st n s = (x, s') \<Longrightarrow> view s' = view s"
    and name_named: "isCredentialByName st n s = (Inr c, s') \<Longrightarrow> named n c (view s)"
begin

definition bound_to :: "'s BridgeDeps \<Rightarrow> Request \<Rightarrow> InboundHook \<Rightarrow> Credential \<Rightarrow> 'v \<Rightarrow> bool" where
  "bound_to d r h cred v \<longleftrightarrow>
     (if ihAuth h = AuthBearer
      then crName cred = ihCredential h \<and> holder (bdSha d (bearer (header_get (rqHeader r) ''Authorization''))) cred v
      else named (ihCredential h) cred v)"

lemma authenticated_bearer:
  assumes "auth_bearer d r name h body b = (Inr (cred, delivery, ev), b')" "bdStore d = st" "ihAuth h = AuthBearer"
  shows "bound_to d r h cred (view (gwStore b)) \<and> \<not> Expired cred (bdNow d (gwStore b)) \<and>
    proved d r h body (gwStore b) delivery ev \<and> view (gwStore b') = view (gwStore b)"
  using assms(1,3) unfolding auth_bearer_def Let_def bound_to_def proved_def assms(2)
  by (auto split: if_splits prod.splits sum.splits option.splits dest!: kept.auth_fail_frame in_store_fst
      dest: hash_holder hash_view)

lemma authenticated_signed:
  assumes "auth_signed d r name h body b = (Inr (cred, delivery, ev), b')" "bdStore d = st"
    and "ihAuth h = AuthKaimahiHMAC \<or> ihAuth h = AuthSlack"
  shows "bound_to d r h cred (view (gwStore b)) \<and> \<not> Expired cred (bdNow d (gwStore b)) \<and>
    proved d r h body (gwStore b) delivery ev \<and> view (gwStore b') = view (gwStore b)"
proof -
  have nb: "ihAuth h \<noteq> AuthBearer" using assms(3) by (auto simp: AuthBearer_def AuthKaimahiHMAC_def AuthSlack_def)
  show ?thesis
    using assms(1,3) nb unfolding auth_signed_def Let_def bound_to_def proved_def assms(2)
    by (auto split: if_splits prod.splits sum.splits option.splits dest!: kept.auth_fail_frame in_store_fst
      dest: name_named name_view)
qed

lemma authenticated:
  assumes "ib_authenticate d r name h body b = (Inr (cred, delivery, ev), b')" "bdStore d = st"
  shows "bound_to d r h cred (view (gwStore b)) \<and> \<not> Expired cred (bdNow d (gwStore b)) \<and>
    proved d r h body (gwStore b) delivery ev \<and> view (gwStore b') = view (gwStore b)"
  using assms authenticated_bearer [of d r name h body b cred delivery ev b']
    authenticated_signed [of d r name h body b cred delivery ev b']
  unfolding ib_authenticate_def by (auto split: if_splits dest: kept.auth_fail_frame)

end

text \<open>What an acknowledged admission means, and a target that may spend.\<close>

locale admission_store = caller_store st view holder named
  for st :: "'s inbound_store" and view :: "'s \<Rightarrow> 'v" and holder named +
  fixes mst :: "'s meter_store" and admits :: "string \<Rightarrow> string \<Rightarrow> string \<Rightarrow> string \<Rightarrow> string \<Rightarrow> string \<Rightarrow> 'v \<Rightarrow> 'v \<Rightarrow> bool"
  assumes preview_view: "Preview m c s = (x, s') \<Longrightarrow> mtStore m = mst \<Longrightarrow> view s' = view s"
    and admit_admits: "isAdmitInboundEvent st hook cn dl ag ac s = (Inr (ei, gi), s') \<Longrightarrow> admits hook cn dl ag ac ei (view s) (view s')"
begin

lemma queued_is_admitted:
  assumes "ib_receive d r b = (resp, b')" "bdStore d = st" "mtStore (bdMeter d) = mst" "brJobs b' \<noteq> brJobs b"
  obtains h0 h body cred delivery ev s1 target s2 ei where
    "map_get (bdHooks d) (rqName r) = Some h0" "h = Bounded h0" "\<not> gwDegraded b" "read_body (nat (ihMaxBodyBytes h)) r = Some body"
    "bound_to d r h cred (view (gwStore b))" "\<not> Expired cred (bdNow d (gwStore b))" "proved d r h body (gwStore b) delivery ev"
    "named (ihBudgetCredential h) target (view (gwStore b))" "view s1 = view (gwStore b)" "\<not> Expired target (bdNow d s1)"
    "Preview (bdMeter d\<lparr>mtNow := bdNow d s1\<rparr>) target s1 = (None, s2)"
    "brSlots b < bdQueueSize d" "admits (rqName r) (crName cred) delivery (agentRef h) (actorOf h ev) ei (view (gwStore b)) (view (gwStore b'))"
    "brJobs b' = brJobs b @ [\<lparr>jbEventID = ei, jbHook = rqName r, jbH = h, jbDelivery = delivery, jbText = evText ev,
       jbActedFor = actorOf h ev\<rparr>]"
    "ihSlackChannelsFile h \<noteq> [] \<Longrightarrow> \<exists>s cs. view s = view (gwStore b) \<and>
       readSlackChannels (bdReadFile d (ihSlackChannelsFile h) s) = Some cs \<and> smChannel (evSlack ev) \<in> set cs"
  using assms(1)
proof (cases rule: ib_receive_outcome)
  case 1
  then show thesis using assms(4) by simp
next
  case (2 h0 h bs body cred delivery ev b2)
  have k: "brJobs b2 = brJobs b" "brSlots b2 = brSlots b" using kept.authenticate_frame [OF 2(6)] by (simp_all add: kept_def)
  note a = authenticated [OF 2(6) assms(2), simplified]
  from 2(7) show thesis
  proof (cases rule: on_event_outcome)
    case 1
    then show thesis using k assms(4) by (simp add: kept_def)
  next
    case C: 2
    from C(5) show thesis
    proof (cases rule: check_target_outcome)
      case 1
      then show thesis using k assms(4) by (simp add: kept_def)
    next
      case T: (2 target b3 b4)
      have k4: "brJobs b4 = brJobs b" "brSlots b4 = brSlots b"
        using in_store_kept [OF T(1)] in_store_kept [OF T(3)] k by (simp_all add: kept_def)
      have n: "named (ihBudgetCredential h) target (view (gwStore b2))" "view (gwStore b3) = view (gwStore b2)"
        using in_store_fst [OF T(1)] assms(2) name_named name_view by metis+
      have p: "Preview (bdMeter d\<lparr>mtNow := bdNow d (gwStore b3)\<rparr>) target (gwStore b3) = (None, gwStore b4)"
        using in_store_fst [OF T(3)] by simp
      have v4: "view (gwStore b4) = view (gwStore b)" using preview_view [OF p] assms(3) n(2) a by simp
      from T(4) show thesis
      proof (cases rule: admit_event_outcome)
        case 1
        then show thesis using k4 assms(4) by (simp add: kept_def)
      next
        case A: (2 b5 ei gi)
        have "admits (rqName r) (crName cred) delivery (agentRef h) (actorOf h ev) ei (view (gwStore b)) (view (gwStore b'))"
          using admit_admits in_store_fst [OF A(2)] assms(2) A(3) v4 by (fastforce simp: Decide_def)
        moreover have "brJobs b' = brJobs b @ [\<lparr>jbEventID = ei, jbHook = rqName r, jbH = h, jbDelivery = delivery, jbText = evText ev,
            jbActedFor = actorOf h ev\<rparr>]" using A(3) k4 by simp
        moreover have "brSlots b < bdQueueSize d" using A(1) k4 by simp
        moreover have "ihSlackChannelsFile h \<noteq> [] \<Longrightarrow> \<exists>s cs. view s = view (gwStore b) \<and>
            readSlackChannels (bdReadFile d (ihSlackChannelsFile h) s) = Some cs \<and> smChannel (evSlack ev) \<in> set cs"
          using C(3) a by (intro exI [of _ "gwStore b2"]) auto
        ultimately show thesis
          using that [of h0 h body cred delivery ev target "gwStore b3" "gwStore b4" ei] 2(1,2,4,5) a n T(2) p by simp
      qed
    qed
  qed
qed

end

subsection \<open>The Postgres store\<close>

definition pg_inbound_store :: "world inbound_store" where
  "pg_inbound_store =
     \<lparr>isCredentialByTokenHash = (\<lambda>h. pg_read (\<lambda>now d. CredentialByTokenHash h d)),
      isCredentialByName = (\<lambda>n. pg_read (\<lambda>now d. CredentialByName n d)),
      isRecordInboundAudit = (\<lambda>e. pg_write (\<lambda>now uuid d. RecordInboundAudit e now uuid d)),
      isAdmitInboundEvent = (\<lambda>hook c dl ag ac. pg_write (\<lambda>now uuid d. AdmitInboundEvent hook c dl ag ac now uuid d)),
      isOpenRun = (\<lambda>c ac src dl ev ttl. pg_write (\<lambda>now uuid d. OpenRun c ac src dl ev ttl now uuid d)),
      isCloseRun = (\<lambda>i. pg_write (\<lambda>now uuid d. CloseRun i now d)),
      isFileApprovalRequest = (\<lambda>f. pg_write (\<lambda>now uuid d. FileApprovalRequest f now uuid d)),
      isRequestByPrefix = (\<lambda>p. pg_read (\<lambda>now d. RequestByPrefix p d)),
      isApproveRequest = (\<lambda>i ex mu am who. pg_write (\<lambda>now uuid d. ApproveRequest i ex mu am who now uuid d)),
      isDenyApprovalRequest = (\<lambda>i who. pg_write (\<lambda>now uuid d. DenyApprovalRequest i who now d))\<rparr>"

definition pg_named :: "string \<Rightarrow> Credential \<Rightarrow> world \<Rightarrow> bool" where
  "pg_named n c v \<longleftrightarrow> lockCredential n (wdb v) = Inr c"

text \<open>One live grant lost one use, and the delivery, never admitted before, has its row.\<close>

definition pg_admits :: "string \<Rightarrow> string \<Rightarrow> string \<Rightarrow> string \<Rightarrow> string \<Rightarrow> string \<Rightarrow> world \<Rightarrow> world \<Rightarrow> bool" where
  "pg_admits hook cn dl ag ac ei v v' \<longleftrightarrow>
     (\<exists>g \<in> set (permit_grant (wdb v)). grant_matches cn ''inbound'' hook (wnow v) g \<and>
        permit_grant (wdb v') = permit_grant (burn_use (grID g) (wdb v))) \<and>
     \<not> (\<exists>q \<in> set (inbound_audit (wdb v)). iaDecision q = ''admitted'' \<and> iaHook q = hook \<and> iaDeliveryID q = dl) \<and>
     (\<exists>row. inbound_audit (wdb v') = inbound_audit (wdb v) @ [row] \<and> iaID row = ei \<and> iaDecision row = ''admitted'' \<and>
        iaHook row = hook \<and> iaDeliveryID row = dl \<and> iaCredentialName row = cn \<and> iaAgent row = ag \<and> iaActedFor row = actedFor ac)"

lemma preview_needs_view: "preview_needs pg_meter_store n ns s = (x, s') \<Longrightarrow> pg_view s' = pg_view s"
proof (induction ns arbitrary: s)
  case (Cons b ns)
  then show ?case by (auto simp: pg_meter_store_def split: prod.splits sum.splits if_splits dest!: pg_read_view)
qed simp

lemma Preview_view: "Preview m c s = (x, s') \<Longrightarrow> mtStore m = pg_meter_store \<Longrightarrow> pg_view s' = pg_view s"
  unfolding Preview_def
  by (auto split: if_splits prod.splits sum.splits dest!: preview_needs_view)
     (auto simp: pg_meter_store_def dest!: pg_read_view)

interpretation pg_inbound: admission_store pg_inbound_store pg_view pg_holder pg_named pg_meter_store pg_admits
proof
  fix h n c s s' and x :: "store_error + Credential"
  show "isCredentialByTokenHash pg_inbound_store h s = (x, s') \<Longrightarrow> pg_view s' = pg_view s"
    by (simp add: pg_inbound_store_def pg_read_view)
  show "isCredentialByTokenHash pg_inbound_store h s = (Inr c, s') \<Longrightarrow> pg_holder h c (pg_view s)"
    by (simp add: pg_inbound_store_def pg_lookup_holder)
  show "isCredentialByName pg_inbound_store n s = (x, s') \<Longrightarrow> pg_view s' = pg_view s"
    by (simp add: pg_inbound_store_def pg_read_view)
  show "isCredentialByName pg_inbound_store n s = (Inr c, s') \<Longrightarrow> pg_named n c (pg_view s)"
    by (auto simp: pg_inbound_store_def CredentialByName_def pg_named_def dest!: pg_read_Inr)
next
  fix m c s x s'
  show "Preview m c s = (x, s') \<Longrightarrow> mtStore m = pg_meter_store \<Longrightarrow> pg_view s' = pg_view s" by (rule Preview_view)
next
  fix hook cn dl ag ac s ei gi s'
  assume "isAdmitInboundEvent pg_inbound_store hook cn dl ag ac s = (Inr (ei, gi), s')"
  then have "AdmitInboundEvent hook cn dl ag ac (wnow s) (wuuid s (wnext s)) (wdb s) = (Inr (ei, gi), wdb s')"
    by (auto simp: pg_inbound_store_def dest!: pg_write_Inr(1))
  then show "pg_admits hook cn dl ag ac ei (pg_view s) (pg_view s')"
    by (cases rule: AdmitInboundEvent_outcome)
       (auto simp: pg_admits_def list_ex_iff admitted_row_def)
qed

subsection \<open>What a request can change in the store\<close>

locale store_frame = bridge_frame d Q for d :: "'s BridgeDeps" and Q +
  assumes noted: "Q b (b\<lparr>brBuckets := bs\<rparr>)" "Q b (b\<lparr>brSlots := n\<rparr>)" "Q b (b\<lparr>brJobs := js\<rparr>)"
    and admitted: "in_store (isAdmitInboundEvent (bdStore d) a1 a2 a3 a4 a5) b = (adm, b') \<Longrightarrow> Q b b'"
    and previewed: "in_store (\<lambda>s. Preview (bdMeter d\<lparr>mtNow := bdNow d s\<rparr>) cr s) b = (dn, b') \<Longrightarrow> Q b b'"
begin

lemma noted_trans: "Q a b \<Longrightarrow> Q a (b\<lparr>brBuckets := bs\<rparr>)" "Q a b \<Longrightarrow> Q a (b\<lparr>brSlots := n\<rparr>)" "Q a b \<Longrightarrow> Q a (b\<lparr>brJobs := js\<rparr>)"
  using trans noted by blast+

lemma admit_event_frame:
  assumes "admit_event d name h delivery cred actor ev b = (resp, b')"
  shows "Q b b'"
proof (cases "brSlots b \<ge> bdQueueSize d")
  case True
  then show ?thesis using assms by (auto simp: admit_event_def dest: deny_frame)
next
  case False
  obtain res b1 where st: "in_store (isAdmitInboundEvent (bdStore d) name (crName cred) delivery (agentRef h) actor)
      (b\<lparr>brSlots := brSlots b + 1\<rparr>) = (res, b1)" by fastforce
  have q: "Q b b1" using trans noted(2) admitted [OF st] by blast
  show ?thesis
  proof (cases res)
    case (Inl e)
    then show ?thesis
      using assms False st noted_trans(2) [OF q] unfolding admit_event_def Let_def
      by (cases e) (auto split: prod.splits dest!: deny_frame file_frame intro: trans)
  next
    case (Inr p)
    then show ?thesis using assms False st q unfolding admit_event_def Let_def
      by (cases p) (auto intro: noted_trans trans_decided)
  qed
qed

lemma check_target_frame:
  assumes "check_target d name h delivery cred actor ev b = (resp, b')"
  shows "Q b b'"
  using assms unfolding check_target_def
  by (auto split: prod.splits sum.splits if_splits option.splits dest!: deny_frame by_name file_frame previewed admit_event_frame)
    (blast intro: trans)+

text \<open>A request whose effect is an approval: a Slack hook, a verified signature, the channel and the approver lists.\<close>

definition commanded :: "Request \<Rightarrow> 's bridge \<Rightarrow> 's bridge \<Rightarrow> bool" where
  "commanded r b b' \<longleftrightarrow> (\<exists>h body cred delivery ev c b1 b2 users.
     (\<exists>h0. map_get (bdHooks d) (rqName r) = Some h0 \<and> h = Bounded h0) \<and> read_body (nat (ihMaxBodyBytes h)) r = Some body \<and> Q b b1 \<and> gwStore b1 = gwStore b \<and>
     ib_authenticate d r (rqName r) h body b1 = (Inr (cred, delivery, ev), b2) \<and> ihAuth h = AuthSlack \<and>
     parseCommand (bdUprint d) (bdUlower d) (smText (evSlack ev)) = Some c \<and>
     (ihSlackChannelsFile h \<noteq> [] \<longrightarrow> (\<exists>cs. readSlackChannels (bdReadFile d (ihSlackChannelsFile h) (gwStore b2)) = Some cs \<and>
        smChannel (evSlack ev) \<in> set cs)) \<and>
     readSlackApprovers (bdReadFile d (ihSlackApproversFile h) (gwStore b2)) = Some users \<and>
     smUser (evSlack ev) \<in> set users \<and> approves h c (''slack:'' @ smUser (evSlack ev)) b2 b')"

lemma on_event_frame:
  assumes "on_event d name h delivery cred ev b = (resp, b')"
  obtains "Q b b'"
  | c users where "ihAuth h = AuthSlack" "parseCommand (bdUprint d) (bdUlower d) (smText (evSlack ev)) = Some c"
      "ihSlackChannelsFile h \<noteq> [] \<longrightarrow> (\<exists>cs. readSlackChannels (bdReadFile d (ihSlackChannelsFile h) (gwStore b)) = Some cs \<and>
        smChannel (evSlack ev) \<in> set cs)"
      "readSlackApprovers (bdReadFile d (ihSlackApproversFile h) (gwStore b)) = Some users"
      "smUser (evSlack ev) \<in> set users" "approves h c (''slack:'' @ smUser (evSlack ev)) b b'"
proof (cases "ihAuth h = AuthSlack \<and> (\<exists>c. parseCommand (bdUprint d) (bdUlower d) (smText (evSlack ev)) = Some c) \<and>
    (ihSlackChannelsFile h \<noteq> [] \<longrightarrow> (\<exists>cs. readSlackChannels (bdReadFile d (ihSlackChannelsFile h) (gwStore b)) = Some cs \<and>
        smChannel (evSlack ev) \<in> set cs)) \<and> evChallenge ev = [] \<and> evIgnored ev = []")
  case True
  then obtain c where c: "parseCommand (bdUprint d) (bdUlower d) (smText (evSlack ev)) = Some c" by blast
  have "handleCommand d name h delivery cred (actorOf h ev) ev c b = (resp, b')"
    using assms True c unfolding on_event_def dispatch_event_def Let_def by (auto split: if_splits)
  from handleCommand_frame [OF this] show thesis using that True c by blast
next
  case False
  then have "Q b b'" using assms unfolding on_event_def dispatch_event_def acknowledge_def Let_def
    by (auto split: prod.splits if_splits option.splits dest!: deny_frame audit_frame check_target_frame)
  then show thesis by (rule that(1))
qed

lemma receive_frame:
  assumes "ib_receive d r b = (resp, b')"
  shows "Q b b' \<or> commanded r b b'"
proof (cases "map_get (bdHooks d) (rqName r)")
  case None
  then show ?thesis using assms by (auto simp: ib_receive_def)
next
  case (Some h0)
  let ?h = "Bounded h0"
  obtain ok bs where al: "allow (rqName r) (ihRatePerMinute ?h) (ihBurst ?h) (bdNow d (gwStore b)) (brBuckets b) = (ok, bs)" by fastforce
  let ?b1 = "b\<lparr>brBuckets := bs\<rparr>"
  note u = assms [unfolded ib_receive_def Let_def Some option.case al prod.case]
  have q1: "Q b ?b1" by (rule noted(1))
  show ?thesis
  proof (cases "\<not> ok \<or> gwDegraded b \<or> read_body (nat (ihMaxBodyBytes ?h)) r = None")
    case True
    then show ?thesis using u q1 by (auto split: if_splits bool.splits dest!: deny_frame intro: trans_decided trans)
  next
    case False
    then obtain body where body: "read_body (nat (ihMaxBodyBytes ?h)) r = Some body" by auto
    obtain x b2 where au: "ib_authenticate d r (rqName r) ?h body ?b1 = (x, b2)" by fastforce
    have q2: "Q b b2" using trans [OF q1 authenticate_frame [OF au]] .
    show ?thesis
    proof (cases x)
      case (Inl resp')
      then show ?thesis using u False body au q2 by auto
    next
      case (Inr y)
      obtain cred delivery ev where y: "y = (cred, delivery, ev)" by (metis prod_cases3)
      have "on_event d (rqName r) ?h delivery cred ev b2 = (resp, b')" using u False body au Inr y by auto
      then show ?thesis
      proof (cases rule: on_event_frame)
        case 1
        then show ?thesis using trans q2 by blast
      next
        case (2 c users)
        then have "commanded r b b'" unfolding commanded_def
          using Some q1 body au Inr y by (intro exI [of _ ?h] exI [of _ body] exI [of _ cred] exI [of _ delivery] exI [of _ ev] exI [of _ c]
            exI [of _ ?b1] exI [of _ b2] exI [of _ users]) auto
        then show ?thesis by blast
      qed
    qed
  qed
qed

end

end
