(* ===== verification/BridgeEval.thy ===== *)
theory BridgeEval
  imports BridgeFlow ConfigProps MeterProps GatewayEval StoreProps
begin

text \<open>
  Evaluation of the inbound bridge on the small database of \<open>StoreEval\<close>: one hook, called with a
  bearer token, with a signature, or from Slack.
\<close>

definition br_files :: "string \<Rightarrow> string option" where
  "br_files f = (if f = ''/s'' then Some ''k'' else if f = ''/c'' then Some ''C1'' else if f = ''/a'' then Some ''U1'' else None)"

definition br_deps :: "InboundHook \<Rightarrow> world BridgeDeps" where
  "br_deps h = \<lparr>bdStore = pg_inbound_store, bdMeter = \<lparr>mtStore = pg_meter_store, mtNow = 0, mtHoldTTL = 0\<rparr>,
     bdHooks = [(''hook'', h)], bdA2ABase = ''http://a'', bdQueueSize = 1, bdWorkers = 1, bdInvokeTimeout = 5 * minute,
     bdHasReplier = False, bdSend = (\<lambda>out w. (Inr \<lparr>urStatus = 200, urHeader = [], urBody = ''ok'', urCut = None\<rparr>, w)),
     bdBadURL = (\<lambda>u. None), bdReadFile = (\<lambda>f w. br_files f), bdNow = wnow,
     bdSha = (\<lambda>s. if s = ''tok'' then ''h'' else []), bdHmac = (\<lambda>k m. [CHR 0xDD]), bdUprint = (\<lambda>c. True), bdUlower = id\<rparr>"

lemma br_deps_sel [simp]:
  "bdStore (br_deps h) = pg_inbound_store" "bdMeter (br_deps h) = \<lparr>mtStore = pg_meter_store, mtNow = 0, mtHoldTTL = 0\<rparr>"
  "bdHooks (br_deps h) = [(''hook'', h)]" "bdQueueSize (br_deps h) = 1" "bdWorkers (br_deps h) = 1" "bdNow (br_deps h) = wnow"
  "bdReadFile (br_deps h) f w = br_files f"
  by (simp_all add: br_deps_def)

definition br_start :: "db \<Rightarrow> world bridge" where
  "br_start d = idle_bridge \<lparr>wdb = d, wnow = 3, wuuid = (\<lambda>i. demo_uuid), wnext = 0, wfaults = []\<rparr>"

lemma br_start_sel [simp]:
  "wdb (gwStore (br_start d)) = d" "wnow (gwStore (br_start d)) = 3" "brJobs (br_start d) = []" "brSlots (br_start d) = 0"
  "brBuckets (br_start d) = []" "gwDegraded (br_start d) = False"
  by (simp_all add: br_start_def idle_bridge_def)

definition br_hook :: InboundHook where
  "br_hook = demo_hook\<lparr>ihAuth := AuthBearer\<rparr>"

definition br_post :: "(string \<times> string) list \<Rightarrow> string \<Rightarrow> Request" where
  "br_post hs body = \<lparr>rqName = ''hook'', rqHeader = map (\<lambda>(k, v). (k, [v])) hs, rqBody = body, rqBroken = False\<rparr>"

definition bearer_post :: Request where
  "bearer_post = br_post [(''Authorization'', ''Bearer tok''), (''X-Kaimahi-Delivery'', ''d1'')] ''hi''"

lemma first_call_allowed:
  "allow hook rate 10 now [] = (True, [(hook, \<lparr>bkTokens = 9, bkLast = now\<rparr>)])"
  using round64_int [of 9] by (simp add: allow_def Minutes_def map_get_def)

lemma bounded_demo: "Bounded (demo_hook\<lparr>ihAuth := a\<rparr>) = demo_hook\<lparr>ihAuth := a, ihSlackDefaultUses := 1, ihSlackDefaultTTL := ''15m'',
    ihMaxBodyBytes := 65536, ihRatePerMinute := 60, ihBurst := 10\<rparr>"
  by (simp add: Bounded_def demo_hook_def inbound_bounds DefaultSlackUses_def DefaultSlackTTL_def)

lemma generic_hi: "genericEvent ''hi'' = Some (no_event\<lparr>evText := ''hi''\<rparr>)"
  by (simp add: genericEvent_def unmarshal_def parse_json_def lex_eval go_defs trim_space_def space_rune_def utf8_valid_ascii)

lemma bearer_auth:
  assumes "wdb (gwStore b) = demo_inbound" "wnow (gwStore b) = 3" "wfaults (gwStore b) = []"
  shows "ib_authenticate (br_deps h) bearer_post ''hook'' (demo_hook\<lparr>ihAuth := AuthBearer, ihSlackDefaultUses := 1,
      ihSlackDefaultTTL := ''15m'', ihMaxBodyBytes := 65536, ihRatePerMinute := 60, ihBurst := 10\<rparr>) ''hi'' b =
    (Inr (Credential.truncate demo_cred, ''d1'', no_event\<lparr>evText := ''hi''\<rparr>), b)"
proof -
  have g: "pg_read f (gwStore b) = (f 3 demo_inbound, gwStore b)" for f :: "int \<Rightarrow> db \<Rightarrow> store_error + Credential"
    using assms by (simp add: pg_read_def next_fault_def)
  have dl: "deliveryRe ''d1''" by (simp add: deliveryRe_def class_len_def go_defs)
  have dc: "CredentialByTokenHash ''h'' demo_inbound = Inr (Credential.truncate demo_cred)"
    by (simp add: CredentialByTokenHash_def demo_inbound_def demo_defs)
  have h: "header_get (rqHeader bearer_post) HeaderDelivery = ''d1''" "bearer (header_get (rqHeader bearer_post) ''Authorization'') = ''tok''"
    by (simp_all add: bearer_post_def br_post_def HeaderDelivery_def bearer_def header_get_def canonical_key_def header_byte_def map_get_def
        cut_prefix_def go_defs)
  have sh: "bdSha (br_deps h) ''tok'' = ''h''" by (simp add: br_deps_def)
  show ?thesis
    using assms
    by (simp add: ib_authenticate_def auth_bearer_def Let_def h sh in_store_def g pg_inbound_store_def dc dl generic_hi
        Expired_def demo_name demo_hook_def) (simp add: demo_cred_def Credential.truncate_def)
qed

lemma demo_inbound_preview:
  assumes "wdb w = demo_inbound" "wnow w = 3" "wfaults w = []"
  shows "Preview \<lparr>mtStore = pg_meter_store, mtNow = 3, mtHoldTTL = 0\<rparr> (Credential.truncate demo_cred) w = (None, w)"
proof -
  have r: "pg_read f w = (f 3 demo_inbound, w)" for f :: "int \<Rightarrow> db \<Rightarrow> store_error + (int \<times> int)"
    using assms by (simp add: pg_read_def next_fault_def)
  have m: "MonthCommitted ''bot'' ms 3 demo_inbound = Inr (0, 0)" for ms
    by (simp add: MonthCommitted_def monthCommitted_def ledger_rows_def open_holds_def scan_int64_def int64_ok_def ascii_text_ok
        demo_inbound_def demo_defs)
  have b: "budget_needs (Credential.truncate demo_cred) 0 0 = []"
    by (simp add: budget_needs_def demo_cred_def Credential.truncate_def)
  show ?thesis by (simp add: Preview_def pg_meter_store_def demo_name r m b)
qed

lemma bearer_admits:
  "\<exists>b' j. ib_receive (br_deps br_hook) bearer_post (br_start demo_inbound) =
    (answer_json 202 [(''agent'', ''ns/ag''), (''event_id'', demo_uuid), (''grant'', demo_uuid), (''hook'', ''hook''),
      (''status'', ''admitted'')], b') \<and> brJobs b' = [j]"
proof -
  let ?h = "demo_hook\<lparr>ihAuth := AuthBearer, ihSlackDefaultUses := 1, ihSlackDefaultTTL := ''15m'', ihMaxBodyBytes := 65536,
      ihRatePerMinute := 60, ihBurst := 10\<rparr>"
  let ?b = "(br_start demo_inbound)\<lparr>brBuckets := [(''hook'', \<lparr>bkTokens = 9, bkLast = 3\<rparr>)]\<rparr>"
  have bh: "Bounded br_hook = ?h" by (simp add: br_hook_def bounded_demo)
  have rb: "read_body 65536 bearer_post = Some ''hi''" by (simp add: read_body_def bearer_post_def br_post_def)
  have au: "ib_authenticate (br_deps br_hook) bearer_post ''hook'' ?h ''hi'' ?b = (Inr (Credential.truncate demo_cred, ''d1'', no_event\<lparr>evText := ''hi''\<rparr>), ?b)"
    by (rule bearer_auth) (simp_all add: br_start_def idle_bridge_def)
  have g: "pg_read f (gwStore ?b) = (f 3 demo_inbound, gwStore ?b)" for f :: "int \<Rightarrow> db \<Rightarrow> store_error + Credential"
    by (simp add: pg_read_def next_fault_def br_start_def idle_bridge_def)
  have cn: "CredentialByName ''bot'' demo_inbound = Inr (Credential.truncate demo_cred)"
    by (simp add: CredentialByName_def lockCredential_def ascii_text_ok demo_inbound_def demo_defs)
  have pv: "in_store (\<lambda>s. Preview (bdMeter (br_deps br_hook)\<lparr>mtNow := wnow s\<rparr>) (Credential.truncate demo_cred) s) ?b = (None, ?b)"
    using demo_inbound_preview [of "gwStore ?b"] by (simp add: in_store_def br_start_def idle_bridge_def)
  have cb: "in_store (isCredentialByName pg_inbound_store ''bot'') ?b = (Inr (Credential.truncate demo_cred), ?b)"
    using g [of "\<lambda>now. CredentialByName ''bot''"] by (simp add: in_store_def pg_inbound_store_def cn br_start_def idle_bridge_def)
  have "\<exists>d1. AdmitInboundEvent ''hook'' ''bot'' ''d1'' ''ns/ag'' ''none'' 3 demo_uuid demo_inbound = (Inr (demo_uuid, demo_uuid), d1)"
    by (simp add: AdmitInboundEvent_def insert_inbound_audit_def admitted_row_def inbound_row_ok_def acted_for_ok_def
        actedFor_def texts_ok_ascii lockCredential_def ascii_text_ok consumeGrantLocked_def grant_matches_def
        grantLive_def oldest_def demo_inbound_def demo_defs)
  then obtain d1 where ad: "AdmitInboundEvent ''hook'' ''bot'' ''d1'' ''ns/ag'' ''none'' 3 demo_uuid demo_inbound = (Inr (demo_uuid, demo_uuid), d1)" ..
  have tx: "\<not> Expired (Credential.truncate demo_cred) 3" by (simp add: Expired_def demo_cred_def Credential.truncate_def)
  have ch: "check_target (br_deps br_hook) ''hook'' ?h ''d1'' (Credential.truncate demo_cred) ''none'' (no_event\<lparr>evText := ''hi''\<rparr>) ?b =
      admit_event (br_deps br_hook) ''hook'' ?h ''d1'' (Credential.truncate demo_cred) ''none'' (no_event\<lparr>evText := ''hi''\<rparr>) ?b"
    using pv cb tx by (simp add: check_target_def demo_hook_def)
  have ev: "on_event (br_deps br_hook) ''hook'' ?h ''d1'' (Credential.truncate demo_cred) (no_event\<lparr>evText := ''hi''\<rparr>) ?b =
      admit_event (br_deps br_hook) ''hook'' ?h ''d1'' (Credential.truncate demo_cred) ''none'' (no_event\<lparr>evText := ''hi''\<rparr>) ?b"
    using ch by (simp add: on_event_def dispatch_event_def actorOf_def ActedForNone_def no_event_def demo_hook_def AuthBearer_def AuthSlack_def)
  have "\<exists>b' j. admit_event (br_deps br_hook) ''hook'' ?h ''d1'' (Credential.truncate demo_cred) ''none'' (no_event\<lparr>evText := ''hi''\<rparr>) ?b =
      (answer_json 202 [(''agent'', ''ns/ag''), (''event_id'', demo_uuid), (''grant'', demo_uuid), (''hook'', ''hook''),
        (''status'', ''admitted'')], b') \<and> brJobs b' = [j]"
    by (simp add: admit_event_def Let_def in_store_def pg_inbound_store_def demo_name agentRef_def pg_write_def next_fault_def
          br_start_def idle_bridge_def ad demo_hook_def Decide_def)
  then show ?thesis
    by (simp add: ib_receive_def Let_def bearer_post_def br_post_def map_get_def bh first_call_allowed)
       (simp add: bearer_post_def [unfolded br_post_def, simplified, symmetric] rb au ev)
qed

subsection \<open>A command from Slack\<close>

definition slack_hook :: InboundHook where
  "slack_hook = demo_hook\<lparr>ihAuth := AuthSlack, ihSlackChannelsFile := ''/c'', ihSlackApproversFile := ''/a'',
     ihMaxBodyBytes := 65536, ihRatePerMinute := 60, ihBurst := 10, ihSlackDefaultUses := 1, ihSlackDefaultTTL := ''15m''\<rparr>"

definition approve_body :: string where
  "approve_body = ''{\"event\":{\"channel\":\"C1\",\"text\":\"<@U9> approve 11111111 uses=1\",\"ts\":\"1.1\",\"type\":\"app_mention\",\"user\":\"U1\"},\"event_id\":\"e1\",\"type\":\"event_callback\"}''"

definition approve_json :: json where
  "approve_json = JObj [(''event'', JObj [(''channel'', JStr ''C1''), (''text'', JStr ''<@U9> approve 11111111 uses=1''), (''ts'', JStr ''1.1''),
     (''type'', JStr ''app_mention''), (''user'', JStr ''U1'')]), (''event_id'', JStr ''e1''), (''type'', JStr ''event_callback'')]"

lemma approve_parses: "parse_json approve_body = Some approve_json"
  unfolding approve_body_def approve_json_def
  by (rule parse_json_run) (simp_all add: lex_eval render_eval maxNestingDepth_def)

definition approve_env :: slack_env where
  "approve_env = \<lparr>seType = ''event_callback'', seChallenge = [], seEventID = ''e1'',
     seEvent = \<lparr>siType = ''app_mention'', siSubtype = [], siBotID = [], siUser = ''U1'', siText = ''<@U9> approve 11111111 uses=1'',
       siChannel = ''C1'', siTS = ''1.1'', siThreadTS = []\<rparr>\<rparr>"

lemma fold_names: "fold_runes ''channel'' = ''channel''" "fold_runes ''text'' = ''text''" "fold_runes ''ts'' = ''ts''" "fold_runes ''type'' = ''type''"
  "fold_runes ''user'' = ''user''" "fold_runes ''event'' = ''event''" "fold_runes ''event_id'' = ''event_id''"
  by code_simp+

lemma approve_inner: "set_inner (JObj [(''channel'', JStr ''C1''), (''text'', JStr ''<@U9> approve 11111111 uses=1''), (''ts'', JStr ''1.1''),
     (''type'', JStr ''app_mention''), (''user'', JStr ''U1'')]) (seEvent slack_zero, False) = (seEvent approve_env, False)"
  by (simp add: set_inner_def set_struct_def set_fields_def names_field_def fold_names set_field_def set_string_def slack_zero_def approve_env_def
      del: fold_runes.simps)

lemma approve_reads: "unmarshal set_envelope approve_body slack_zero = (approve_env, False)"
proof -
  have z: "seEvent (slack_zero\<lparr>seEventID := x\<rparr>) = seEvent slack_zero" for x by simp
  have "set_envelope approve_json (slack_zero, False) = (approve_env, False)"
    unfolding approve_json_def set_envelope_def
    by (simp add: set_struct_def set_fields_def names_field_def fold_names set_field_def approve_inner set_string_def
          del: fold_runes.simps)
       (simp add: slack_zero_def approve_env_def)
  then show ?thesis by (simp add: unmarshal_def approve_parses)
qed

lemma words_of_mention: "stripMentions ''<@U9> approve 11111111 uses=1'' = ''approve 11111111 uses=1''"
  by (simp add: stripMentions_def mention_end_def go_defs)

definition approve_slack :: slackMention where
  "approve_slack = \<lparr>smChannel = ''C1'', smUser = ''U1'', smThreadTS = ''1.1'', smText = ''approve 11111111 uses=1''\<rparr>"

lemma approve_event: "slackEvent (\<lambda>c. True) approve_body = Some (no_event\<lparr>evDelivery := ''e1'', evSlack := approve_slack,
    evText := slackTask (\<lambda>c. True) ''approve 11111111 uses=1'' approve_slack\<rparr>)"
  by (simp add: slackEvent_def approve_reads) (simp add: approve_env_def slack_mention_event_def words_of_mention deliveryRe_def
      slackIDRe_def slackTSRe_def class_len_def approve_slack_def Let_def go_defs)

lemma approve_command: "parseCommand up id ''approve 11111111 uses=1'' =
    Some \<lparr>cmVerb = ''approve'', cmPrefix = ''11111111'', cmUses = Some 1, cmTTL = None, cmAmount = None, cmErr = None\<rparr>"
  by (simp add: parseCommand_def ToLower_def trim_chars_def prefixRe_def class_len_def minPrefix_def maxUses_def go_defs)

definition approve_cmd :: command where
  "approve_cmd = \<lparr>cmVerb = ''approve'', cmPrefix = ''11111111'', cmUses = Some 1, cmTTL = None, cmAmount = None, cmErr = None\<rparr>"

definition slack_post :: Request where
  "slack_post = br_post [(''X-Slack-Request-Timestamp'', ''0''), (''X-Slack-Signature'', ''v0=dd'')] approve_body"

definition approve_ev :: event where
  "approve_ev = no_event\<lparr>evDelivery := ''e1'', evSlack := approve_slack,
     evText := slackTask (\<lambda>c. True) ''approve 11111111 uses=1'' approve_slack\<rparr>"

lemma slack_hmac: "hex_decode ''dd'' = Some [CHR 0xDD]"
  by code_simp

lemma slack_signed: "signed_event (br_deps slack_hook) slack_post slack_hook ''k'' approve_body 3 = Inr (''e1'', approve_ev)"
proof -
  have h: "header_get (rqHeader slack_post) slackTimestamp = ''0''" "header_get (rqHeader slack_post) slackSignature = ''v0=dd''"
    by (simp_all add: slack_post_def br_post_def slackTimestamp_def slackSignature_def header_get_def canonical_key_def header_byte_def map_get_def go_defs)
  have f: "freshTimestamp ''0'' 3" by (simp add: freshTimestamp_def replayWindow_def minute_def second_def go_defs)
  have v: "verifySignature (bdHmac (br_deps slack_hook)) ''k'' ''v0=dd'' slackVersion base" for base
    by (simp add: verifySignature_def slackVersion_def cut_prefix_def has_prefix_def slack_hmac br_deps_def del: hex_decode.simps)
  have u: "bdUprint (br_deps slack_hook) = (\<lambda>c. True)" by (simp add: br_deps_def)
  have d: "deliveryRe ''e1''" by (simp add: deliveryRe_def class_len_def go_defs)
  show ?thesis
    by (simp add: signed_event_def h f v u approve_event approve_ev_def [symmetric])
       (simp add: approve_ev_def no_event_def d slack_hook_def AuthSlack_def AuthKaimahiHMAC_def)
qed

lemma slack_auth:
  assumes "wdb (gwStore b) = demo_pending" "wnow (gwStore b) = 3" "wfaults (gwStore b) = []"
  shows "ib_authenticate (br_deps slack_hook) slack_post ''hook'' slack_hook approve_body b =
    (Inr (Credential.truncate demo_cred, ''e1'', approve_ev), b)"
proof -
  have g: "pg_read f (gwStore b) = (f 3 demo_pending, gwStore b)" for f :: "int \<Rightarrow> db \<Rightarrow> store_error + Credential"
    using assms by (simp add: pg_read_def next_fault_def)
  have cn: "CredentialByName ''bot'' demo_pending = Inr (Credential.truncate demo_cred)"
    by (simp add: CredentialByName_def lockCredential_def ascii_text_ok demo_defs)
  have s: "readSecret (br_files (ihSigningSecretFile slack_hook)) = Some ''k''"
    by (simp add: readSecret_def br_files_def slack_hook_def demo_hook_def trim_space_def space_rune_def go_defs)
  have tx: "\<not> Expired (Credential.truncate demo_cred) 3" by (simp add: Expired_def demo_cred_def Credential.truncate_def)
  have c: "ihCredential slack_hook = ''bot''" "ihAuth slack_hook = AuthSlack" by (simp_all add: slack_hook_def demo_hook_def)
  show ?thesis
    using assms by (simp add: ib_authenticate_def auth_signed_def Let_def c s slack_signed in_store_def pg_inbound_store_def g cn tx)
      (simp add: AuthSlack_def AuthBearer_def)
qed

lemma slack_approves:
  assumes "wdb (gwStore b) = demo_pending" "wnow (gwStore b) = 3" "wfaults (gwStore b) = []" "wuuid (gwStore b) (wnext (gwStore b)) = demo_uuid"
  shows "\<exists>s b1. ib_decide (br_deps slack_hook) slack_hook approve_cmd ''slack:U1'' b = (s, b1) \<and>
    permit_grant (wdb (gwStore b1)) = [minted demo_request None (Some 1) None ''slack:U1'' 3 demo_uuid]"
proof -
  have g: "pg_read f (gwStore b) = (f 3 demo_pending, gwStore b)" for f :: "int \<Rightarrow> db \<Rightarrow> store_error + ApprovalRequest"
    using assms by (simp add: pg_read_def next_fault_def)
  have p: "RequestByPrefix ''11111111'' demo_pending = Inr demo_request"
    by (simp add: RequestByPrefix_def demo_defs demo_uuid_def has_prefix_def)
  have "\<exists>d1. ApproveRequest demo_uuid None (Some 1) None ''slack:U1'' 3 demo_uuid demo_pending =
      (Inr (minted demo_request None (Some 1) None ''slack:U1'' 3 demo_uuid), d1) \<and>
      permit_grant d1 = [minted demo_request None (Some 1) None ''slack:U1'' 3 demo_uuid]"
    using demo_uuid_ok
    by (simp add: ApproveRequest_def pending_request_def Let_def insert_grant_def insert_approval_audit_def
      kind_ok_def has_credential_def texts_ok_ascii ascii_text_ok grant_row_ok_def bounds_uses_1 demo_defs demo_uuid_def)
  then obtain d1 where a: "ApproveRequest demo_uuid None (Some 1) None ''slack:U1'' 3 demo_uuid demo_pending =
      (Inr (minted demo_request None (Some 1) None ''slack:U1'' 3 demo_uuid), d1)"
      "permit_grant d1 = [minted demo_request None (Some 1) None ''slack:U1'' 3 demo_uuid]" by blast
  have k: "arKind demo_request = ''tool''" "arStatus demo_request = ''pending''" "arID demo_request = demo_uuid" by (simp_all add: demo_defs)
  show ?thesis using assms
    by (simp add: ib_decide_def approve_cmd_def in_store_def pg_inbound_store_def g p k approve_request_def command_bounds_def
        pg_write_def next_fault_def a)
qed

end
