(* ===== verification/BridgeProps.thy ===== *)
theory BridgeProps
  imports BridgeFlow BridgeEval
begin

text \<open>
  Properties of the inbound bridge: what a queued event and a grant from chat presuppose, what a
  signature covers, and how the queue, its slots and the rate limit behave.
\<close>

subsection \<open>Admission\<close>

text \<open>
  C3: an event is queued only for a configured hook while the audit trail can be written, from a
  caller that proved it is the hook's credential (its token, or a fresh signature under the hook's
  secret), unexpired, for an agent whose budget credential is issued, and unexpired and inside its
  budget by the database and the clock of the request (the same world, but for the faults of the
  connection met by then); one live grant for exactly this hook loses one use, the delivery was never admitted
  before and has its row now; and what is queued is the text that was verified.
\<close>

theorem every_queued_event_was_admitted:
  assumes "ib_receive d r b = (resp, b')" "brJobs b' \<noteq> brJobs b"
    and "bdStore d = pg_inbound_store" "mtStore (bdMeter d) = pg_meter_store"
  shows "\<exists>h0 h body cred delivery ev target fs s1 s2 gr row j. map_get (bdHooks d) (rqName r) = Some h0 \<and> h = Bounded h0 \<and>
    \<not> gwDegraded b \<and> read_body (nat (ihMaxBodyBytes h)) r = Some body \<and> proved d r h body (gwStore b) delivery ev \<and>
    (if ihAuth h = AuthBearer then crName cred = ihCredential h \<and>
       (\<exists>c \<in> set (credentials (wdb (gwStore b))). crTokenHash c = bdSha d (bearer (header_get (rqHeader r) ''Authorization'')) \<and>
          Credential.truncate c = cred)
     else lockCredential (ihCredential h) (wdb (gwStore b)) = Inr cred) \<and> \<not> Expired cred (bdNow d (gwStore b)) \<and>
    lockCredential (ihBudgetCredential h) (wdb (gwStore b)) = Inr target \<and> \<not> Expired target (bdNow d s1) \<and>
    s1 = (gwStore b)\<lparr>wfaults := fs\<rparr> \<and> Preview (bdMeter d\<lparr>mtNow := bdNow d s1\<rparr>) target s1 = (None, s2) \<and> brSlots b < bdQueueSize d \<and>
    gr \<in> set (permit_grant (wdb (gwStore b))) \<and> grant_matches (crName cred) ''inbound'' (rqName r) (wnow (gwStore b)) gr \<and>
    permit_grant (wdb (gwStore b')) = permit_grant (burn_use (grID gr) (wdb (gwStore b))) \<and>
    \<not> (\<exists>q \<in> set (inbound_audit (wdb (gwStore b))). iaDecision q = ''admitted'' \<and> iaHook q = rqName r \<and> iaDeliveryID q = delivery) \<and>
    inbound_audit (wdb (gwStore b')) = inbound_audit (wdb (gwStore b)) @ [row] \<and> iaDecision row = ''admitted'' \<and>
    iaHook row = rqName r \<and> iaDeliveryID row = delivery \<and>
    brJobs b' = brJobs b @ [j] \<and> jbEventID j = iaID row \<and> jbText j = evText ev \<and> jbH j = h"
  using assms(1,3,4,2)
proof (cases rule: pg_inbound.queued_is_admitted)
  case (1 h0 h body cred delivery ev s1 target s2 ei)
  obtain gr row where ad: "gr \<in> set (permit_grant (wdb (gwStore b)))"
      "grant_matches (crName cred) ''inbound'' (rqName r) (wnow (gwStore b)) gr"
      "permit_grant (wdb (gwStore b')) = permit_grant (burn_use (grID gr) (wdb (gwStore b)))"
      "\<not> (\<exists>q \<in> set (inbound_audit (wdb (gwStore b))). iaDecision q = ''admitted'' \<and> iaHook q = rqName r \<and> iaDeliveryID q = delivery)"
      "inbound_audit (wdb (gwStore b')) = inbound_audit (wdb (gwStore b)) @ [row]" "iaDecision row = ''admitted''"
      "iaHook row = rqName r" "iaDeliveryID row = delivery" "iaID row = ei"
    using 1(13) by (auto simp: pg_admits_def)
  have w: "s1 = (gwStore b)\<lparr>wfaults := wfaults s1\<rparr>" by (rule pg_viewD(1) [OF 1(9)])
  have bound: "if ihAuth h = AuthBearer then crName cred = ihCredential h \<and>
       (\<exists>c \<in> set (credentials (wdb (gwStore b))). crTokenHash c = bdSha d (bearer (header_get (rqHeader r) ''Authorization'')) \<and>
          Credential.truncate c = cred)
     else lockCredential (ihCredential h) (wdb (gwStore b)) = Inr cred"
    using 1(5) by (auto simp: pg_inbound.bound_to_def pg_holder_def pg_named_def split: if_splits)
  have named: "lockCredential (ihBudgetCredential h) (wdb (gwStore b)) = Inr target" using 1(8) by (simp add: pg_named_def)
  show ?thesis
    by (rule exI [of _ h0], rule exI [of _ h], rule exI [of _ body], rule exI [of _ cred], rule exI [of _ delivery],
        rule exI [of _ ev], rule exI [of _ target], rule exI [of _ "wfaults s1"], rule exI [of _ s1], rule exI [of _ s2], rule exI [of _ gr], rule exI [of _ row],
        rule exI [of _ "\<lparr>jbEventID = ei, jbHook = rqName r, jbH = h, jbDelivery = delivery, jbText = evText ev, jbActedFor = actorOf h ev\<rparr>"])
       (intro conjI 1(1-4,6,7,10-12,14) ad(1-8) w bound named, simp_all add: ad(9))
qed

theorem every_queued_event_was_admitted_witness:
  "\<exists>resp b' gr. ib_receive (br_deps br_hook) bearer_post (br_start demo_inbound) = (resp, b') \<and>
     gr \<in> set (permit_grant demo_inbound) \<and> permit_grant (wdb (gwStore b')) = permit_grant (burn_use (grID gr) demo_inbound)"
proof -
  obtain resp b' j where r: "ib_receive (br_deps br_hook) bearer_post (br_start demo_inbound) = (resp, b')" "brJobs b' = [j]"
    using bearer_admits by blast
  have "brJobs b' \<noteq> brJobs (br_start demo_inbound)" using r(2) by simp
  from every_queued_event_was_admitted [OF r(1) this] show ?thesis using r(1) by (simp, blast)
qed

subsection \<open>Approval from chat\<close>

text \<open>The same grants, but for the uses they have left.\<close>

definition same_but_uses :: "Grant list \<Rightarrow> Grant list \<Rightarrow> bool" where
  "same_but_uses gs gs' \<longleftrightarrow> map (\<lambda>g. g\<lparr>grUses := 0\<rparr>) gs' = map (\<lambda>g. g\<lparr>grUses := 0\<rparr>) gs"

lemma same_but_uses_member:
  assumes "same_but_uses gs gs'" "g' \<in> set gs'"
  obtains g where "g \<in> set gs" "grID g' = grID g" "grRequestID g' = grRequestID g" "grMaxUses g' = grMaxUses g"
    "grExpiresAt g' = grExpiresAt g" "grAmount g' = grAmount g" "grDecidedBy g' = grDecidedBy g" "g'\<lparr>grUses := 0\<rparr> = g\<lparr>grUses := 0\<rparr>"
proof -
  have "g'\<lparr>grUses := 0\<rparr> \<in> set (map (\<lambda>g. g\<lparr>grUses := 0\<rparr>) gs)" using assms unfolding same_but_uses_def by (metis image_eqI list.set_map)
  then obtain g where g: "g \<in> set gs" "g'\<lparr>grUses := 0\<rparr> = g\<lparr>grUses := 0\<rparr>" by auto
  show thesis by (rule that [OF g(1) _ _ _ _ _ _ g(2)]) (use arg_cong [OF g(2), of grID] arg_cong [OF g(2), of grRequestID]
    arg_cong [OF g(2), of grMaxUses] arg_cong [OF g(2), of grExpiresAt] arg_cong [OF g(2), of grAmount] arg_cong [OF g(2), of grDecidedBy] in simp_all)
qed

definition same_grants :: "world \<Rightarrow> world \<Rightarrow> bool" where
  "same_grants w w' \<longleftrightarrow> same_but_uses (permit_grant (wdb w)) (permit_grant (wdb w'))"

lemma same_grants_view: "pg_view w' = pg_view w \<Longrightarrow> same_grants w w'"
  by (drule pg_viewD(2)) (simp add: same_grants_def same_but_uses_def)

lemma pg_write_grants:
  assumes "pg_write f w = (x, w')"
    and "\<And>now uuid d r d'. f now uuid d = (r, d') \<Longrightarrow> map (\<lambda>g. g\<lparr>grUses := 0\<rparr>) (permit_grant d') = map (\<lambda>g. g\<lparr>grUses := 0\<rparr>) (permit_grant d)"
  shows "same_grants w w'"
  using pg_write_cases [OF assms(1)] assms(2) unfolding same_grants_def same_but_uses_def by metis

lemma burn_use_erased: "map (\<lambda>g. g\<lparr>grUses := 0\<rparr>) (permit_grant (burn_use gid d)) = map (\<lambda>g. g\<lparr>grUses := 0\<rparr>) (permit_grant d)"
proof -
  have "map (\<lambda>g. g\<lparr>grUses := 0\<rparr>) (update_first p (\<lambda>g. g\<lparr>grUses := grUses g + 1\<rparr>) gs) = map (\<lambda>g. g\<lparr>grUses := 0\<rparr>) gs"
    for p and gs :: "Grant list" by (induction gs) auto
  then show ?thesis by (simp add: burn_use_def)
qed

lemma admit_grants:
  assumes "AdmitInboundEvent a1 a2 a3 a4 a5 now uuid d = (r, d')"
  shows "map (\<lambda>g. g\<lparr>grUses := 0\<rparr>) (permit_grant d') = map (\<lambda>g. g\<lparr>grUses := 0\<rparr>) (permit_grant d)"
proof (cases r)
  case (Inl e)
  then show ?thesis using AdmitInboundEvent_error_unchanged assms by fastforce
next
  case (Inr p)
  then obtain ei gi where "AdmitInboundEvent a1 a2 a3 a4 a5 now uuid d = (Inr (ei, gi), d')" using assms by (cases p) auto
  then show ?thesis by (cases rule: AdmitInboundEvent_outcome) (simp add: burn_use_erased)
qed

lemma grants_frame:
  assumes "bdStore d = pg_inbound_store" "mtStore (bdMeter d) = pg_meter_store"
  shows "store_frame d (\<lambda>b b'. same_grants (gwStore b) (gwStore b'))"
proof
  fix a b c b' :: "world bridge" and h h2 e f cr u new rq a1 a2 a3 a4 a5 adm dn target
  show "same_grants (gwStore b) (gwStore b)" by (simp add: same_grants_def same_but_uses_def)
  show "same_grants (gwStore a) (gwStore b) \<Longrightarrow> same_grants (gwStore b) (gwStore c) \<Longrightarrow> same_grants (gwStore a) (gwStore c)"
    by (simp add: same_grants_def same_but_uses_def)
  show "in_store (isCredentialByTokenHash (bdStore d) h) b = (cr, b') \<Longrightarrow> same_grants (gwStore b) (gwStore b')"
    and "in_store (isCredentialByName (bdStore d) h) b = (cr, b') \<Longrightarrow> same_grants (gwStore b) (gwStore b')"
    and "in_store (isRequestByPrefix (bdStore d) h) b = (rq, b') \<Longrightarrow> same_grants (gwStore b) (gwStore b')"
    using assms(1) by (auto simp: pg_inbound_store_def dest!: in_store_fst pg_read_view same_grants_view)
  show "in_store (isRecordInboundAudit (bdStore d) e) b = (u, b') \<Longrightarrow> same_grants (gwStore b) (gwStore b')"
    using assms(1) by (auto simp: pg_inbound_store_def RecordInboundAudit_def split: sum.splits
        dest!: in_store_fst insert_frames(5) elim!: pg_write_grants)
  show "in_store (isFileApprovalRequest (bdStore d) f) b = (new, b') \<Longrightarrow> same_grants (gwStore b) (gwStore b')"
    using assms(1) by (auto simp: pg_inbound_store_def FileApprovalRequest_def split: sum.splits prod.splits
        dest!: in_store_fst elim!: pg_write_grants FileRequest_outcome)
  show "in_store (isDenyApprovalRequest (bdStore d) h h2) b = (u, b') \<Longrightarrow> same_grants (gwStore b) (gwStore b')"
    using assms(1) by (auto simp: pg_inbound_store_def decide_def dest!: in_store_fst elim!: pg_write_grants DenyApprovalRequest_outcome)
  show "in_store (isAdmitInboundEvent (bdStore d) a1 a2 a3 a4 a5) b = (adm, b') \<Longrightarrow> same_grants (gwStore b) (gwStore b')"
    using assms(1) by (auto simp: pg_inbound_store_def dest!: in_store_fst elim!: pg_write_grants admit_grants)
  show "in_store (\<lambda>s. Preview (bdMeter d\<lparr>mtNow := bdNow d s\<rparr>) target s) b = (dn, b') \<Longrightarrow> same_grants (gwStore b) (gwStore b')"
    using assms(2) by (auto dest!: in_store_fst Preview_view intro: same_grants_view)
qed (simp_all add: Decide_def same_grants_def same_but_uses_def)


lemma RequestByPrefix_once:
  assumes "RequestByPrefix p d = Inr r"
  shows "filter (\<lambda>q. has_prefix (arID q) p) (approval_request d) = [r]"
proof -
  let ?f = "filter (\<lambda>q. has_prefix (arID q) p) (approval_request d)"
  obtain xs where xs: "sort_key arCreatedAt ?f = xs" by simp
  have "xs = [r]" using assms unfolding RequestByPrefix_def xs
    by (cases xs; cases "tl xs") (simp_all add: numeral_2_eq_2)
  then have "sort_key arCreatedAt ?f = [r]" using xs by simp
  then have "length ?f = 1" "set ?f = {r}" by (metis length_sort list.size(3,4) One_nat_def add.commute plus_1_eq_Suc, metis set_sort list.simps(15) empty_set)
  then show ?thesis by (cases ?f) auto
qed

lemma approve_grants:
  assumes "isApproveRequest pg_inbound_store rid ex mu am who w = (res, w')"
  obtains "same_grants w w'"
  | m where "permit_grant (wdb w') = permit_grant (wdb w) @ [m]" "pg_uuid rid = Some (grRequestID m)" "grMaxUses m = mu"
      "grExpiresAt m = ex" "ex \<noteq> None \<or> mu \<noteq> None" "grAmount m = am" "grDecidedBy m = who"
proof -
  have pw: "pg_write (\<lambda>now uuid d. ApproveRequest rid ex mu am who now uuid d) w = (res, w')"
    using assms by (simp add: pg_inbound_store_def)
  consider "wdb w' = wdb w" | x where "ApproveRequest rid ex mu am who (wnow w) (wuuid w (wnext w)) (wdb w) = (x, wdb w')"
    using pg_write_cases [OF pw] by blast
  then show thesis
  proof cases
    case 1
    then show thesis by (intro that(1)) (simp add: same_grants_def same_but_uses_def)
  next
    case 2
    then show thesis
    proof (cases rule: ApproveRequest_outcome)
      case (1 e)
      then show thesis by (intro that(1)) (simp add: same_grants_def same_but_uses_def)
    next
      case (2 r)
      have "pg_uuid rid = Some (arID r)" using 2(3)
        by (auto simp: pending_request_def List.find_Some_iff split: option.splits if_splits)
      then show thesis using 2(5,9)
        by (intro that(2) [of "minted r ex mu am who (wnow w) (wuuid w (wnext w))"]) (simp_all add: minted_def)
    qed
  qed
qed

text \<open>
  C4: a grant that one inbound request brought into being was asked for over Slack: the request
  carries a fresh signature under the hook's secret, its channel is listed, its command parsed
  without error as an approval, its user is in the approver file, the prefix it names picks out one
  request, which is pending, and the grant carries that user as its decider and the command's
  bounds (or the hook's defaults). Of the other grants nothing changes but their uses.
\<close>

theorem a_grant_from_chat_has_its_approver:
  assumes "ib_receive d r b = (resp, b')" "bdStore d = pg_inbound_store" "mtStore (bdMeter d) = pg_meter_store"
    and "g \<in> set (permit_grant (wdb (gwStore b')))" "grID g \<notin> grID ` set (permit_grant (wdb (gwStore b)))"
  shows "\<exists>h0 h body secret delivery ev c users s s' req ttl. map_get (bdHooks d) (rqName r) = Some h0 \<and> h = Bounded h0 \<and>
    ihAuth h = AuthSlack \<and> read_body (nat (ihMaxBodyBytes h)) r = Some body \<and>
    readSecret (bdReadFile d (ihSigningSecretFile h) (gwStore b)) = Some secret \<and>
    signed_event d r h secret body (bdNow d (gwStore b)) = Inr (delivery, ev) \<and>
    pg_view s = pg_view (gwStore b) \<and> pg_view s' = pg_view (gwStore b) \<and>
    (ihSlackChannelsFile h \<noteq> [] \<longrightarrow> (\<exists>cs. readSlackChannels (bdReadFile d (ihSlackChannelsFile h) s) = Some cs \<and>
       smChannel (evSlack ev) \<in> set cs)) \<and>
    parseCommand (bdUprint d) (bdUlower d) (smText (evSlack ev)) = Some c \<and> cmErr c = None \<and> cmVerb c \<noteq> ''deny'' \<and>
    readSlackApprovers (bdReadFile d (ihSlackApproversFile h) s) = Some users \<and> smUser (evSlack ev) \<in> set users \<and>
    filter (\<lambda>q. has_prefix (arID q) (cmPrefix c)) (approval_request (wdb (gwStore b))) = [req] \<and> arStatus req = ''pending'' \<and>
    pg_uuid (arID req) = Some (grRequestID g) \<and> command_bounds h c = Some (grMaxUses g, ttl) \<and> grExpiresAt g = map_option (\<lambda>t. bdNow d s' + t) ttl \<and>
    (grMaxUses g \<noteq> None \<or> ttl \<noteq> None) \<and> grAmount g = cmAmount c \<and> grDecidedBy g = ''slack:'' @ smUser (evSlack ev) \<and>
    same_but_uses (permit_grant (wdb (gwStore b)) @ [g]) (permit_grant (wdb (gwStore b')))"
proof -
  note f = grants_frame [OF assms(2,3)]
  have new: "\<not> same_grants (gwStore b) (gwStore b')"
  proof
    assume "same_grants (gwStore b) (gwStore b')"
    from same_but_uses_member [OF this [unfolded same_grants_def] assms(4)] assms(5) show False by (metis image_eqI)
  qed
  obtain h body cred delivery ev c b1 b2 users h0 where cm: "map_get (bdHooks d) (rqName r) = Some h0" "h = Bounded h0"
      "read_body (nat (ihMaxBodyBytes h)) r = Some body" "gwStore b1 = gwStore b"
      "ib_authenticate d r (rqName r) h body b1 = (Inr (cred, delivery, ev), b2)" "ihAuth h = AuthSlack"
      "parseCommand (bdUprint d) (bdUlower d) (smText (evSlack ev)) = Some c"
      "ihSlackChannelsFile h \<noteq> [] \<longrightarrow> (\<exists>cs. readSlackChannels (bdReadFile d (ihSlackChannelsFile h) (gwStore b2)) = Some cs \<and>
        smChannel (evSlack ev) \<in> set cs)"
      "readSlackApprovers (bdReadFile d (ihSlackApproversFile h) (gwStore b2)) = Some users" "smUser (evSlack ev) \<in> set users"
      "bridge_frame.approves d (\<lambda>b b'. same_grants (gwStore b) (gwStore b')) h c (''slack:'' @ smUser (evSlack ev)) b2 b'"
    using store_frame.receive_frame [OF f assms(1)] new unfolding store_frame.commanded_def [OF f] by blast
  note a = pg_inbound.authenticated [OF cm(5) assms(2)]
  have sg: "\<exists>secret. readSecret (bdReadFile d (ihSigningSecretFile h) (gwStore b)) = Some secret \<and>
      signed_event d r h secret body (bdNow d (gwStore b)) = Inr (delivery, ev)"
    using a cm(4,6) by (auto simp: proved_def AuthSlack_def AuthBearer_def)
  obtain req b3 b4 uses ttl res where ap: "in_store (isRequestByPrefix (bdStore d) (cmPrefix c)) b2 = (Inr req, b3)"
      "cmErr c = None" "cmVerb c \<noteq> ''deny''" "arStatus req = ''pending''" "command_bounds h c = Some (uses, ttl)"
      "in_store (isApproveRequest (bdStore d) (arID req) (map_option (\<lambda>t. bdNow d (gwStore b3) + t) ttl) uses (cmAmount c)
         (''slack:'' @ smUser (evSlack ev))) b3 = (res, b4)" "same_grants (gwStore b4) (gwStore b')"
    using cm(11) unfolding bridge_frame.approves_def [OF store_frame.axioms(1) [OF f]] by blast
  have rd: "pg_read (\<lambda>now d. RequestByPrefix (cmPrefix c) d) (gwStore b2) = (Inr req, gwStore b3)"
    using in_store_fst [OF ap(1)] unfolding assms(2) by (simp add: pg_inbound_store_def)
  have v2: "pg_view (gwStore b2) = pg_view (gwStore b)" using a cm(4) by simp
  have pre: "filter (\<lambda>q. has_prefix (arID q) (cmPrefix c)) (approval_request (wdb (gwStore b))) = [req]"
      "pg_view (gwStore b3) = pg_view (gwStore b)"
    using RequestByPrefix_once pg_read_Inr [OF rd] pg_read_view [OF rd] v2 pg_viewD(2) [OF v2] by auto
  have base: "permit_grant (wdb (gwStore b3)) = permit_grant (wdb (gwStore b))" using pg_viewD(2) [OF pre(2)] by simp
  from in_store_fst [OF ap(6), unfolded assms(2)] show ?thesis
  proof (cases rule: approve_grants)
    case 1
    then show ?thesis using new ap(7) base by (simp add: same_grants_def same_but_uses_def)
  next
    case (2 m)
    have same: "same_but_uses (permit_grant (wdb (gwStore b)) @ [m]) (permit_grant (wdb (gwStore b')))"
      using ap(7) 2(1) base by (simp add: same_grants_def)
    obtain m' where m': "m' \<in> set (permit_grant (wdb (gwStore b)) @ [m])" "grID g = grID m'" "grRequestID g = grRequestID m'"
        "grMaxUses g = grMaxUses m'" "grExpiresAt g = grExpiresAt m'" "grAmount g = grAmount m'" "grDecidedBy g = grDecidedBy m'"
        "g\<lparr>grUses := 0\<rparr> = m'\<lparr>grUses := 0\<rparr>" using same_but_uses_member [OF same assms(4)] .
    then have mm: "m' = m" using assms(5) by auto
    have "same_but_uses (permit_grant (wdb (gwStore b)) @ [g]) (permit_grant (wdb (gwStore b')))"
      using same m'(8) mm by (simp add: same_but_uses_def)
    moreover have "pg_uuid (arID req) = Some (grRequestID g)" "command_bounds h c = Some (grMaxUses g, ttl)"
        "grExpiresAt g = map_option (\<lambda>t. bdNow d (gwStore b3) + t) ttl" "grMaxUses g \<noteq> None \<or> ttl \<noteq> None"
        "grAmount g = cmAmount c" "grDecidedBy g = ''slack:'' @ smUser (evSlack ev)"
      using 2(2-7) m'(3-7) ap(5) unfolding mm by auto
    moreover obtain secret where "readSecret (bdReadFile d (ihSigningSecretFile h) (gwStore b)) = Some secret"
        "signed_event d r h secret body (bdNow d (gwStore b)) = Inr (delivery, ev)" using sg by blast
    ultimately show ?thesis using cm(1-3,6-10) v2 pre ap(2-4)
      by (intro exI [of _ h0] exI [of _ h] exI [of _ body] exI [of _ secret] exI [of _ delivery] exI [of _ ev] exI [of _ c]
            exI [of _ users] exI [of _ "gwStore b2"] exI [of _ "gwStore b3"] exI [of _ req] exI [of _ ttl]) simp
  qed
qed
theorem a_grant_from_chat_has_its_approver_witness:
  "\<exists>resp b' g. ib_receive (br_deps slack_hook) slack_post (br_start demo_pending) = (resp, b') \<and>
     g \<in> set (permit_grant (wdb (gwStore b'))) \<and> grDecidedBy g = ''slack:U1''"
proof -
  let ?d = "br_deps slack_hook" and ?b = "(br_start demo_pending)\<lparr>brBuckets := [(''hook'', \<lparr>bkTokens = 9, bkLast = 3\<rparr>)]\<rparr>"
  obtain resp b' where r: "ib_receive ?d slack_post (br_start demo_pending) = (resp, b')" by fastforce
  have bh: "Bounded slack_hook = slack_hook" by (simp add: Bounded_def slack_hook_def)
  have rb: "read_body (nat (ihMaxBodyBytes slack_hook)) slack_post = Some approve_body"
    by (simp add: read_body_def slack_post_def br_post_def slack_hook_def approve_body_def)
  have au: "ib_authenticate ?d slack_post ''hook'' slack_hook approve_body ?b = (Inr (Credential.truncate demo_cred, ''e1'', approve_ev), ?b)"
    by (rule slack_auth) (simp_all add: br_start_def idle_bridge_def)
  have al: "allow ''hook'' (ihRatePerMinute slack_hook) (ihBurst slack_hook) 3 [] = (True, [(''hook'', \<lparr>bkTokens = 9, bkLast = 3\<rparr>)])"
    by (simp add: slack_hook_def first_call_allowed)
  have nm: "rqName slack_post = ''hook''" by (simp add: slack_post_def br_post_def)
  have ex: "evChallenge approve_ev = []" "evIgnored approve_ev = []" "evSlack approve_ev = approve_slack"
    by (simp_all add: approve_ev_def no_event_def)
  have fl: "readSlackChannels (br_files ''/c'') = Some [''C1'']" "readSlackApprovers (br_files ''/a'') = Some [''U1'']"
    by (simp_all add: readSlackChannels_def readSlackApprovers_def id_list_def br_files_def slackIDRe_def approverIDRe_def class_len_def go_defs)
  have hk: "ihAuth slack_hook = AuthSlack" "ihSlackChannelsFile slack_hook = ''/c''" "ihSlackApproversFile slack_hook = ''/a''"
    by (simp_all add: slack_hook_def)
  have pc: "parseCommand (bdUprint ?d) (bdUlower ?d) (smText approve_slack) = Some approve_cmd"
    using approve_command by (simp add: approve_slack_def approve_cmd_def br_deps_def)
  have ac: "actorOf slack_hook approve_ev = ''slack:U1''" by (simp add: actorOf_def hk ex approve_slack_def)
  have oe: "ib_receive ?d slack_post (br_start demo_pending) =
      handleCommand ?d ''hook'' slack_hook ''e1'' (Credential.truncate demo_cred) ''slack:U1'' approve_ev approve_cmd ?b"
    by (simp add: ib_receive_def Let_def nm map_get_def bh al rb au on_event_def ex hk fl dispatch_event_def pc ac)
       (simp add: approve_slack_def)
  obtain s b1 where dc: "ib_decide ?d slack_hook approve_cmd ''slack:U1'' ?b = (s, b1)"
      "permit_grant (wdb (gwStore b1)) = [minted demo_request None (Some 1) None ''slack:U1'' 3 demo_uuid]"
    using slack_approves [of ?b] by (auto simp: br_start_def idle_bridge_def)
  obtain e ok b2 where ad: "ib_audit ?d ''slack:U1'' e b1 = (ok, b2)" "b' = b2"
    using r dc(1) unfolding oe handleCommand_def by (auto simp: ex hk fl approve_slack_def br_deps_def split: prod.splits bool.splits)
  have f: "store_frame ?d (\<lambda>b b'. same_grants (gwStore b) (gwStore b'))" by (rule grants_frame) simp_all
  have "same_grants (gwStore b1) (gwStore b')"
    using bridge_frame.audit_frame [OF store_frame.axioms(1) [OF f] ad(1)] ad(2) by simp
  then obtain g where g: "g \<in> set (permit_grant (wdb (gwStore b')))"
    using dc(2) by (cases "permit_grant (wdb (gwStore b'))") (auto simp: same_grants_def same_but_uses_def)
  have "permit_grant (wdb (gwStore (br_start demo_pending))) = []" by (simp add: demo_defs)
  then have "grID g \<notin> grID ` set (permit_grant (wdb (gwStore (br_start demo_pending))))" by simp
  from a_grant_from_chat_has_its_approver [OF r _ _ g this]
  have "grDecidedBy g = ''slack:U1''" by (auto simp: nm map_get_def bh hk fl)
  then show ?thesis using r g by auto
qed

subsection \<open>What a signature covers\<close>

lemma chunks_ascii_append: "list_all (\<lambda>c. code c < 128) a \<Longrightarrow> chunks (a @ s) = map (\<lambda>c. (code c, [c])) a @ chunks s"
proof (induction a)
  case (Cons c a)
  then show ?case using chunks_good_append [OF good_chunk_ascii [of c], of "a @ s"] by simp
qed simp

lemma dropWhile_keeps: "x \<in> set xs \<Longrightarrow> \<not> P x \<Longrightarrow> x \<in> set (dropWhile P xs)"
  by (induction xs) auto

lemma trim_space_keeps:
  assumes "(n, b) \<in> set (chunks s)" "\<not> space_rune n" "b \<noteq> []"
  shows "trim_space s \<noteq> []"
proof -
  let ?P = "\<lambda>(r, _::string). space_rune r"
  have "(n, b) \<in> set (dropWhile ?P (rev (dropWhile ?P (chunks s))))"
    using assms by (intro dropWhile_keeps) (simp_all add: dropWhile_keeps)
  then show ?thesis using assms(3) by (fastforce simp: trim_space_def)
qed

definition delivery_char :: "char \<Rightarrow> bool" where
  "delivery_char c \<longleftrightarrow> is_alnum c \<or> c \<in> set ''._:-''"

lemma delivery_char_ascii: "delivery_char c \<Longrightarrow> code c < 128 \<and> \<not> json_space c \<and> c \<noteq> CHR ''{'' \<and> c \<noteq> CHR 0x22 \<and> c \<noteq> CHR ''[''"
  by (auto simp: delivery_char_def go_defs json_space_def)

lemma json_of_delivery:
  assumes "delivery_char c" "parse_json (c # s) = Some v"
  shows "\<not> (\<exists>ms. v = JObj ms)"
proof -
  have n: "c \<noteq> CHR ''{''" "\<not> json_space c" using delivery_char_ascii [OF assms(1)] by auto
  have l: "lex (c # s) \<noteq> LBrace # ls" for ls
    by (subst lex.simps(2)) (use n in \<open>simp split: option.split prod.split del: lex.simps\<close>)
  obtain f where "parse_value f 0 (lex (c # s)) = Some (v, [])"
    using assms(2) unfolding parse_json_def Let_def
    by (auto split: option.splits list.splits prod.splits simp del: lex.simps parse_value.simps)
  from parse_value_sound(1) [OF this] l show ?thesis by (cases v) (simp_all del: lex.simps)
qed

lemma generic_text:
  assumes "b = [] \<or> delivery_char (hd b)" "list_all delivery_char b" "genericEvent body \<noteq> None"
  shows "\<exists>ev. genericEvent (b @ '':'' @ body) = Some ev \<and> evText ev = trim_space (b @ '':'' @ body)"
proof -
  let ?s = "b @ '':'' @ body"
  have v: "utf8_valid body" using assms(3) by (auto simp: genericEvent_def split: if_splits)
  have a: "list_all (\<lambda>c. code c < 128) (b @ '':'')" using assms(2) delivery_char_ascii by (auto simp: list_all_iff)
  have "chunks ?s = map (\<lambda>c. (code c, [c])) (b @ '':'') @ chunks body" using chunks_ascii_append [OF a, of body] by simp
  then have ne: "trim_space ?s \<noteq> []" by (intro trim_space_keeps [of 58 "'':''"]) (simp_all add: space_rune_def)
  have "list_all (\<lambda>c. code c < 128) a \<Longrightarrow> utf8_valid (a @ body)" for a
    using v by (induction a) (simp_all add: utf8_valid_Cons_ascii)
  from this [OF a] have u: "utf8_valid ?s" by simp
  obtain c s where cs: "?s = c # s" "delivery_char c"
    using assms(1) by (cases b) (auto simp: delivery_char_def)
  have "\<exists>e. unmarshal (set_struct f) ?s None = (None, e)" for f :: "string \<times> json \<Rightarrow> string option \<times> bool \<Rightarrow> string option \<times> bool"
  proof (cases "parse_json ?s")
    case (Some v)
    then have "\<not> (\<exists>ms. v = JObj ms)" using json_of_delivery [OF cs(2)] cs(1) by simp
    then show ?thesis using Some by (cases v) (auto simp: unmarshal_def set_struct_def)
  qed (auto simp: unmarshal_def)
  then obtain e where "unmarshal (set_struct (set_fields [(''text'', set_pointer set_string [])])) ?s None = (None, e)" by blast
  then show ?thesis using u ne by (simp add: genericEvent_def Let_def)
qed

text \<open>
  What a signature covers does not fix the delivery id: if one request is verified with a
  delivery id that has a colon in it, the same signature and timestamp verify a second request
  under the part before the colon, whose text is the rest of the id, a colon and the first body. The
  replay index sees two deliveries.
\<close>

theorem a_signature_covers_two_deliveries:
  assumes "signed_event d r h secret body now = Inr (a @ '':'' @ b, ev)" "ihAuth h = AuthKaimahiHMAC" "a \<noteq> []"
    and "header_get (rqHeader r') HeaderDelivery = a" "\<forall>k \<in> {HeaderTimestamp, HeaderSignature}. header_get (rqHeader r') k = header_get (rqHeader r) k"
  shows "\<exists>ev'. signed_event d r' h secret (b @ '':'' @ body) now = Inr (a, ev') \<and> evText ev' = trim_space (b @ '':'' @ body)"
proof -
  let ?ts = "header_get (rqHeader r) HeaderTimestamp" and ?sg = "header_get (rqHeader r) HeaderSignature"
  have s: "header_get (rqHeader r) HeaderDelivery = a @ '':'' @ b" "deliveryRe (a @ '':'' @ b)" "freshTimestamp ?ts now"
    "verifySignature (bdHmac d) secret ?sg kaimahiVersion (kaimahiBase ?ts (a @ '':'' @ b) body)" "genericEvent body \<noteq> None"
    using assms(1,2) by (auto simp: signed_event_def Let_def split: if_splits option.splits)
  have da: "deliveryRe a" "list_all delivery_char b"
    using s(2) assms(3) by (auto simp: deliveryRe_def class_len_def delivery_char_def list_all_iff Suc_le_eq)
  have base: "kaimahiBase ?ts (a @ '':'' @ b) body = kaimahiBase ?ts a (b @ '':'' @ body)" by (simp add: kaimahiBase_def)
  obtain ev' where "genericEvent (b @ '':'' @ body) = Some ev'" "evText ev' = trim_space (b @ '':'' @ body)"
    using generic_text [of b body] da(2) s(5) by (cases b) auto
  then show ?thesis using assms(2,4,5) s(3,4) da(1) unfolding base by (auto simp: signed_event_def Let_def)
qed

definition signed_post :: "string \<Rightarrow> string \<Rightarrow> Request" where
  "signed_post delivery body = br_post [(''X-Kaimahi-Delivery'', delivery), (''X-Kaimahi-Timestamp'', ''0''),
     (''X-Kaimahi-Signature'', ''v1=dd'')] body"

lemma signed_headers: "header_get (rqHeader (signed_post delivery body)) HeaderDelivery = delivery"
  "header_get (rqHeader (signed_post delivery body)) HeaderTimestamp = ''0''"
  "header_get (rqHeader (signed_post delivery body)) HeaderSignature = ''v1=dd''"
  by (simp_all add: signed_post_def br_post_def HeaderDelivery_def HeaderTimestamp_def HeaderSignature_def header_get_def
      canonical_key_def header_byte_def map_get_def go_defs)

theorem a_signature_covers_two_deliveries_witness:
  "\<exists>ev ev'. signed_event (br_deps demo_hook) (signed_post ''d:1'' ''hi'') demo_hook ''k'' ''hi'' 3 = Inr (''d:1'', ev) \<and>
     signed_event (br_deps demo_hook) (signed_post ''d'' ''1:hi'') demo_hook ''k'' ''1:hi'' 3 = Inr (''d'', ev')"
proof -
  have a: "ihAuth demo_hook = AuthKaimahiHMAC" by (simp add: demo_hook_def AuthKaimahiHMAC_def)
  have f: "freshTimestamp ''0'' 3" by (simp add: freshTimestamp_def replayWindow_def minute_def second_def go_defs)
  have v: "verifySignature (bdHmac (br_deps demo_hook)) ''k'' ''v1=dd'' kaimahiVersion base" for base
    by (simp add: verifySignature_def kaimahiVersion_def cut_prefix_def has_prefix_def slack_hmac br_deps_def del: hex_decode.simps)
  have dl: "deliveryRe ''d:1''" by (simp add: deliveryRe_def class_len_def go_defs)
  obtain ev where ev: "signed_event (br_deps demo_hook) (signed_post (''d'' @ '':'' @ ''1'') ''hi'') demo_hook ''k'' ''hi'' 3 = Inr (''d'' @ '':'' @ ''1'', ev)"
    by (simp add: signed_event_def a signed_headers f v dl generic_hi)
  from a_signature_covers_two_deliveries [OF ev a, of "signed_post ''d'' ''1:hi''"] show ?thesis
    using ev by (auto simp: signed_headers)
qed

subsection \<open>The queue\<close>

text \<open>
  C27: in every reachable state of the bridge, whatever requests came, whatever the workers did and
  however the store changed, the slots taken are exactly the queued events and those being worked
  on; the queue never overflows and no more workers run than configured.
\<close>

theorem slots_account_for_every_event:
  assumes "bridge_reachable d (b, fl)" "0 \<le> bdQueueSize d" "0 \<le> bdWorkers d"
  shows "brSlots b = int (length (brJobs b)) + int (length fl) \<and> brSlots b \<le> bdQueueSize d \<and> int (length fl) \<le> bdWorkers d"
  using reachable_slots [OF assms] by (simp add: slots_ok_def)

theorem slots_account_for_every_event_witness:
  "\<exists>b' fl. bridge_reachable (br_deps br_hook) (b', fl) \<and> brSlots b' = 1 \<and> length fl = 1 \<and> brJobs b' = []"
proof -
  obtain resp b1 j where r: "ib_receive (br_deps br_hook) bearer_post (br_start demo_inbound) = (resp, b1)" "brJobs b1 = [j]"
    using bearer_admits by blast
  let ?b = "b1\<lparr>brJobs := []\<rparr>"
  have s0: "br_start demo_inbound = idle_bridge (gwStore (br_start demo_inbound))" by (simp add: br_start_def idle_bridge_def)
  have "bridge_step (br_deps br_hook) (br_start demo_inbound, []) (b1, [])" by (rule bridge_step.receives [OF r(1)])
  moreover have "worker_step (br_deps br_hook) (b1, []) (?b, [] @ [j])" by (rule worker_step.takes) (use r(2) in simp_all)
  then have "bridge_step (br_deps br_hook) (b1, []) (?b, [j])" using bridge_step.works by fastforce
  ultimately have "(bridge_step (br_deps br_hook))\<^sup>*\<^sup>* (br_start demo_inbound, []) (?b, [j])" by (meson converse_rtranclp_into_rtranclp rtranclp.rtrancl_refl)
  then have re: "bridge_reachable (br_deps br_hook) (?b, [j])" unfolding bridge_reachable_def using s0 by metis
  from slots_account_for_every_event [OF this] have "brSlots ?b = 1" by simp
  then show ?thesis using re by (intro exI [of _ ?b] exI [of _ "[j]"]) simp
qed

text \<open>
  C28: with a worker at all, and no new requests, the queue drains: a worker can always move while an
  event is queued or in work, no sequence of worker steps is longer than twice the queued events
  plus those in work, and where no step is left the queue is empty, nothing is in work and every
  slot is free.
\<close>

theorem queued_events_drain:
  assumes "bridge_reachable d (b, fl)" "0 \<le> bdQueueSize d" "0 < bdWorkers d" "(worker_step d ^^ n) (b, fl) (b', fl')"
  shows "n \<le> 2 * length (brJobs b) + length fl \<and>
    ((\<forall>y. \<not> worker_step d (b', fl') y) \<longleftrightarrow> brJobs b' = [] \<and> fl' = []) \<and> (brJobs b' = [] \<and> fl' = [] \<longrightarrow> brSlots b' = 0)"
proof -
  have n: "(worker_step d ^^ n) x y \<Longrightarrow> work_left x = n + work_left y" for n x y
    by (induction n arbitrary: y) (auto dest!: worker_step_work)
  have sl: "(worker_step d ^^ n) x y \<Longrightarrow> slots_ok d x \<Longrightarrow> slots_ok d y" for n x y
    by (induction n arbitrary: y) (auto intro: worker_step_slots)
  have st: "slots_ok d (b', fl')" using sl [OF assms(4)] reachable_slots [OF assms(1,2)] assms(3) by simp
  have "(\<forall>y. \<not> worker_step d (b', fl') y) \<longleftrightarrow> work_left (b', fl') = 0"
    using worker_step_progress [OF assms(3), of "(b', fl')"] worker_step_work [of d "(b', fl')"] by (metis neq0_conv nat.distinct(1))
  then show ?thesis using n [OF assms(4)] st by (auto simp: work_left_def slots_ok_def)
qed

theorem queued_events_drain_witness:
  "\<exists>b fl b'. bridge_reachable (br_deps br_hook) (b, fl) \<and> length (brJobs b) = 1 \<and> (worker_step (br_deps br_hook) ^^ 2) (b, fl) (b', []) \<and>
     brSlots b' = 0"
proof -
  let ?d = "br_deps br_hook"
  obtain resp b1 j where r: "ib_receive ?d bearer_post (br_start demo_inbound) = (resp, b1)" "brJobs b1 = [j]"
    using bearer_admits by blast
  let ?b = "b1\<lparr>brJobs := []\<rparr>"
  have s0: "br_start demo_inbound = idle_bridge (gwStore (br_start demo_inbound))" by (simp add: br_start_def idle_bridge_def)
  have "bridge_step ?d (br_start demo_inbound, []) (b1, [])" by (rule bridge_step.receives [OF r(1)])
  then have re: "bridge_reachable ?d (b1, [])" unfolding bridge_reachable_def using s0 by (metis r_into_rtranclp)
  have "worker_step ?d (b1, []) (?b, [] @ [j])" by (rule worker_step.takes) (use r(2) in simp_all)
  moreover have "worker_step ?d (?b, [] @ j # []) (finish ?d j ?b, [] @ [])" by (rule worker_step.finishes)
  ultimately have w: "(worker_step ?d ^^ 2) (b1, []) (finish ?d j ?b, [])" by (auto simp: numeral_2_eq_2 relcompp_apply)
  have "brSlots (finish ?d j ?b) = 0" using queued_events_drain [OF re _ _ w] by (simp add: finish_def process_queue)
  then show ?thesis using re w r(2) by (intro exI [of _ b1] exI [of _ "[]"] exI [of _ "finish ?d j ?b"]) simp
qed

subsection \<open>Floods\<close>

text \<open>The buckets after calls of any hooks, and what is known of the bucket of one from an instant on.\<close>

fun after_calls :: "(string \<Rightarrow> int \<times> int) \<Rightarrow> (string \<times> int) list \<Rightarrow> bucket gomap \<Rightarrow> bucket gomap" where
  "after_calls limits [] buckets = buckets"
| "after_calls limits ((k, now) # calls) buckets =
     after_calls limits calls (snd (allow k (fst (limits k)) (snd (limits k)) now buckets))"

definition bucket_ok :: "int \<Rightarrow> string \<Rightarrow> int \<Rightarrow> bucket gomap \<Rightarrow> bool" where
  "bucket_ok burst hook t buckets \<longleftrightarrow>
     (\<forall>b. map_get buckets hook = Some b \<longrightarrow> 0 \<le> bkTokens b \<and> bkTokens b \<le> of_int burst \<and> bkLast b \<le> t)"

text \<open>However long a bucket was idle, a call finds at most the burst in it.\<close>

lemma allow_full:
  assumes "bucket_ok burst hook now buckets" "0 \<le> rate" "burst \<le> 100000" "0 \<le> burst"
  obtains b' where "snd (allow hook rate burst now buckets) = map_set hook b' buckets"
    "0 \<le> bkTokens b'" "bkTokens b' \<le> of_int burst" "bkLast b' = now"
    "of_bool (fst (allow hook rate burst now buckets)) + bkTokens b' \<le> of_int burst + 1 / 2 ^ 31"
proof -
  define b where "b = (case map_get buckets hook of None \<Rightarrow> \<lparr>bkTokens = of_int burst, bkLast = now\<rparr> | Some b \<Rightarrow> b)"
  have d: "map_get buckets hook = Some b \<or> map_get buckets hook = None \<and> b = \<lparr>bkTokens = of_int burst, bkLast = now\<rparr>"
    by (simp add: b_def split: option.split)
  then have b: "0 \<le> bkTokens b" "bkTokens b \<le> of_int burst" "bkLast b \<le> now" using assms(1,4) by (auto simp: bucket_ok_def)
  obtain b' where b': "snd (allow hook rate burst now buckets) = map_set hook b' buckets"
      "0 \<le> bkTokens b'" "bkTokens b' \<le> of_int burst" "bkLast b' = now"
    by (rule allow_bucket [OF d b assms(2,3,4)])
  define t where "t = (if Minutes (now - bkLast b) > 0
     then min (of_int burst) (round64 (bkTokens b + round64 (Minutes (now - bkLast b) * of_int rate))) else bkTokens b)"
  have t: "t \<le> of_int burst" using b(2) by (simp add: t_def)
  have a: "fst (allow hook rate burst now buckets) = (\<not> t < 1)"
      "map_get (snd (allow hook rate burst now buckets)) hook = Some b' \<Longrightarrow> bkTokens b' = (if t < 1 then t else round64 (t - 1))"
    by (simp_all add: allow_def Let_def b_def [symmetric] t_def split: if_splits) (auto split: if_splits)
  have "of_bool (\<not> t < 1) + (if t < 1 then t else round64 (t - 1)) \<le> of_int burst + 1 / (2 ^ 31 :: rat)"
  proof (cases "t < 1")
    case False
    have "round64 (t - 1) \<le> t - 1 + (t - 1) / 2 ^ 53" using False by (intro round64_above) simp
    moreover have "(of_int burst :: rat) \<le> of_int 131072" using assms(3) by (simp only: of_int_le_iff)
    ultimately show ?thesis using False t by (simp add: field_simps)
  qed (use t in simp)
  then show thesis using that [OF b'] a b'(1) by simp
qed

lemma allow_keeps_ok:
  assumes "bucket_ok (snd (limits hook)) hook t buckets" "t \<le> now"
    and "0 \<le> fst (limits hook)" "0 \<le> snd (limits hook)" "snd (limits hook) \<le> 100000"
  shows "bucket_ok (snd (limits hook)) hook now (snd (allow k (fst (limits k)) (snd (limits k)) now buckets))"
proof (cases "k = hook")
  case True
  have "bucket_ok (snd (limits hook)) hook now buckets" using assms(1,2) by (fastforce simp: bucket_ok_def)
  from allow_full [OF this assms(3,5,4)] show ?thesis using True by (metis bucket_ok_def map_get_set option.inject order_refl)
next
  case False
  then show ?thesis using assms(1,2) by (fastforce simp: bucket_ok_def allow_other)
qed

lemma after_calls_ok:
  assumes "bucket_ok (snd (limits hook)) hook t buckets" "sorted (map snd calls)" "\<And>c. c \<in> set calls \<Longrightarrow> t \<le> snd c \<and> snd c \<le> later" "t \<le> later"
    and "0 \<le> fst (limits hook)" "0 \<le> snd (limits hook)" "snd (limits hook) \<le> 100000"
  shows "bucket_ok (snd (limits hook)) hook later (after_calls limits calls buckets)"
  using assms(1-4)
proof (induction calls arbitrary: buckets t)
  case Nil
  then show ?case by (fastforce simp: bucket_ok_def)
next
  case (Cons c calls)
  obtain k now where c: "c = (k, now)" by fastforce
  have l: "t \<le> now" "now \<le> later" using Cons.prems(3) [of c] by (simp_all add: c)
  from Cons.IH [OF allow_keeps_ok [where limits = limits and k = k, OF Cons.prems(1) l(1) assms(5-7)]] Cons.prems(2,3) l(2) show ?case
    by (auto simp: c)
qed

lemma let_through_span:
  assumes "\<And>c. c \<in> set calls \<Longrightarrow> bucket_ok (snd (limits hook)) hook (snd c) buckets" "sorted (map snd calls)"
    "\<And>c. c \<in> set calls \<Longrightarrow> start \<le> snd c \<and> snd c \<le> until" "start \<le> until"
    and "0 \<le> fst (limits hook)" "0 \<le> snd (limits hook)" "snd (limits hook) \<le> 100000"
  shows "of_nat (let_through limits hook calls buckets) \<le>
    of_int (snd (limits hook)) + of_int (until - start) / of_int minute * of_int (fst (limits hook)) + of_nat (length calls) / (2 ^ 31 :: rat)"
  using assms(1-3)
proof (induction calls arbitrary: buckets)
  case Nil
  then show ?case using assms(4-6) by (simp add: minute_def second_def)
next
  case (Cons c calls)
  obtain k now where c: "c = (k, now)" by fastforce
  let ?m = "of_int minute :: rat" and ?r = "of_int (fst (limits hook)) :: rat" and ?bu = "of_int (snd (limits hook)) :: rat"
  show ?case
  proof (cases "k = hook")
    case False
    have same: "map_get (snd (allow k (fst (limits k)) (snd (limits k)) now buckets)) hook = map_get buckets hook"
      using False by (simp add: allow_other)
    have "bucket_ok (snd (limits hook)) hook (snd q) (snd (allow k (fst (limits k)) (snd (limits k)) now buckets))" if "q \<in> set calls" for q
      using Cons.prems(1) [of q] that by (simp add: bucket_ok_def same)
    from Cons.IH [OF this] Cons.prems(2,3) False show ?thesis
      by (auto simp: c add_divide_distrib split: prod.splits)
  next
    case True
    have l: "start \<le> now" "now \<le> until" using Cons.prems(3) [of c] by (simp_all add: c)
    have ok: "bucket_ok (snd (limits hook)) hook now buckets" using Cons.prems(1) [of c] by (simp add: c)
    obtain b' where b': "snd (allow hook (fst (limits hook)) (snd (limits hook)) now buckets) = map_set hook b' buckets"
        "0 \<le> bkTokens b'" "bkTokens b' \<le> ?bu" "bkLast b' = now"
        "of_bool (fst (allow hook (fst (limits hook)) (snd (limits hook)) now buckets)) + bkTokens b' \<le> ?bu + 1 / 2 ^ 31"
      by (rule allow_full [OF ok assms(5,7,6)])
    have "of_nat (let_through limits hook calls (map_set hook b' buckets)) \<le>
        bkTokens b' + of_int (until - now) / ?m * ?r + of_nat (length calls) / 2 ^ 31"
      using let_through_bound [of "map_set hook b' buckets" hook b' limits calls until] b' Cons.prems(2,3) l assms(5-7) by (auto simp: c)
    moreover have "of_int (until - now) / ?m * ?r \<le> of_int (until - start) / ?m * ?r"
      using l(1) assms(5) by (intro mult_right_mono divide_right_mono) (simp_all add: minute_def second_def)
    moreover obtain ok bs where a: "allow hook (fst (limits hook)) (snd (limits hook)) now buckets = (ok, bs)" by fastforce
    moreover from a b'(5) have "of_bool ok + bkTokens b' \<le> ?bu + 1 / 2 ^ 31" by (simp only: fst_conv)
    moreover from a b'(1) True have "of_nat (let_through limits hook (c # calls) buckets) =
        (of_bool ok + of_nat (let_through limits hook calls (map_set hook b' buckets)) :: rat)" by (simp add: c)
    moreover have "(of_nat (length (c # calls)) / 2 ^ 31 :: rat) = of_nat (length calls) / 2 ^ 31 + 1 / 2 ^ 31"
      by (simp add: add_divide_distrib)
    ultimately show ?thesis by linarith
  qed
qed

text \<open>
  C29: a flood of one hook of an accepted configuration is bounded over every span of time in the life
  of the bridge: whatever calls of any hooks came before, of fewer than 2^31 calls in the order of
  the clock the calls of this hook that are let through between two instants number at most its
  burst, plus its rate for each minute between them, plus less than one for all the rounding of the
  bucket's floating-point tokens.
\<close>

theorem a_flood_is_bounded:
  assumes "Parse decode pu pa raw = Inr c" "(name, h) \<in> set (cfInboundHooks c)"
    and "limits name = (ihRatePerMinute (Bounded h), ihBurst (Bounded h))"
    and "sorted (map snd (earlier @ calls))" "\<forall>call \<in> set calls. start \<le> snd call \<and> snd call \<le> until" "start \<le> until" "length calls < 2 ^ 31"
  shows "of_nat (let_through limits name calls (after_calls limits earlier [])) <
    (of_int (ihBurst (Bounded h)) + of_int (ihRatePerMinute (Bounded h)) * of_int (until - start) / of_int minute + 1 :: rat)"
proof -
  have ch: "check_hook (name, h) = None" using Parse_checks(3) [OF assms(1)] assms(2) by blast
  have b: "0 < ihRatePerMinute (Bounded h)" "0 < ihBurst (Bounded h)" "ihBurst (Bounded h) \<le> 100000"
    using ch unfolding check_hook_def by (auto simp: Bounded_def inbound_bounds split: if_splits sum.splits)
  have lim: "0 \<le> fst (limits name)" "0 \<le> snd (limits name)" "snd (limits name) \<le> 100000" using b assms(3) by auto
  have ok: "bucket_ok (snd (limits name)) name (snd q) (after_calls limits earlier [])" if q: "q \<in> set calls" for q
  proof (cases earlier)
    case (Cons e es)
    have "\<forall>c \<in> set earlier. snd e \<le> snd c \<and> snd c \<le> snd q" "snd e \<le> snd q" using assms(4) q by (auto simp: sorted_append Cons)
    then show ?thesis using assms(4)
      by (intro after_calls_ok [where t = "snd e"] lim) (auto simp: sorted_append bucket_ok_def map_get_def)
  qed (simp add: bucket_ok_def map_get_def)
  have "of_nat (length calls) / 2 ^ 31 < (1 :: rat)" using assms(7) by (simp add: divide_less_eq)
  moreover have "of_nat (let_through limits name calls (after_calls limits earlier [])) \<le> of_int (snd (limits name)) +
      of_int (until - start) / of_int minute * of_int (fst (limits name)) + of_nat (length calls) / (2 ^ 31 :: rat)"
    by (rule let_through_span) (use ok assms(4-6) lim in \<open>auto simp: sorted_append\<close>)
  ultimately show ?thesis using assms(3) by (simp add: mult.commute)
qed

theorem a_flood_is_bounded_witness:
  "let_through (\<lambda>k. (60, 10)) ''gh'' (replicate 100 (''gh'', 7)) (after_calls (\<lambda>k. (60, 10)) (replicate 5 (''gh'', 3)) []) \<le> 10"
proof -
  have "(''gh'', demo_hook) \<in> set (cfInboundHooks demo_config)" by (simp add: demo_config_def)
  from a_flood_is_bounded [OF demo_parses this, of "\<lambda>k. (60, 10)" "replicate 5 (''gh'', 3)" "replicate 100 (''gh'', 7)" 7 7]
  have "of_nat (let_through (\<lambda>k. (60, 10)) ''gh'' (replicate 100 (''gh'', 7)) (after_calls (\<lambda>k. (60, 10)) (replicate 5 (''gh'', 3)) [])) < (11 :: rat)"
    by (simp add: Bounded_def demo_hook_def inbound_bounds sorted_append del: after_calls.simps let_through.simps replicate.simps)
  then show ?thesis by simp
qed

subsection \<open>An outcome that cannot be recorded\<close>

lemma CloseRun_trail: "CloseRun i now d = (x, d') \<Longrightarrow> inbound_audit d' = inbound_audit d"
  by (auto simp: CloseRun_def split: option.splits)

lemma close_run_keeps:
  "in_store (isCloseRun pg_inbound_store i) b = (r, b') \<Longrightarrow>
     inbound_audit (wdb (gwStore b')) = inbound_audit (wdb (gwStore b)) \<and> gwDegraded b' = gwDegraded b"
proof -
  assume a: "in_store (isCloseRun pg_inbound_store i) b = (r, b')"
  have "pg_write (\<lambda>now uuid d. CloseRun i now d) (gwStore b) = (r, gwStore b')" using in_store_fst [OF a] by (simp add: pg_inbound_store_def)
  then have "inbound_audit (wdb (gwStore b')) = inbound_audit (wdb (gwStore b))"
    using pg_write_cases [of "\<lambda>now uuid d. CloseRun i now d"] CloseRun_trail by metis
  then show ?thesis using a by (auto simp: in_store_def split: prod.splits)
qed

lemma close_runs_keep:
  assumes "bdStore d = pg_inbound_store"
  shows "inbound_audit (wdb (gwStore (close_runs d ids b))) = inbound_audit (wdb (gwStore b)) \<and> gwDegraded (close_runs d ids b) = gwDegraded b"
proof (induction ids arbitrary: b)
  case (Cons i ids)
  obtain r c where c: "in_store (isCloseRun pg_inbound_store i) b = (r, c)" by fastforce
  show ?case using Cons.IH [of c] close_run_keeps [OF c] c by (simp add: close_runs_def assms)
qed (simp add: close_runs_def)

lemma unrecordable:
  assumes "bdStore d = pg_inbound_store" "iaInputTokens e < 0 \<or> iaOutputTokens e < 0 \<or> CHR 0x00 \<in> set (iaDetail e)"
    and "ib_audit d actor e b = (ok, b')"
  shows "inbound_audit (wdb (gwStore b')) = inbound_audit (wdb (gwStore b)) \<and> gwDegraded b'"
proof -
  let ?e = "if iaActedFor e = [] then e\<lparr>iaActedFor := actor\<rparr> else e"
  obtain r b1 where st: "in_store (isRecordInboundAudit (bdStore d) ?e) b = (r, b1)" by fastforce
  have pw: "pg_write (\<lambda>now uuid d. RecordInboundAudit ?e now uuid d) (gwStore b) = (r, gwStore b1)"
    using in_store_fst [OF st] by (simp add: assms(1) pg_inbound_store_def)
  have f: "\<exists>err. RecordInboundAudit ?e now uuid x = (Inl err, x)" for now uuid x
    using assms(2) by (auto simp: RecordInboundAudit_def insert_inbound_audit_def inbound_row_ok_def texts_ok_def pg_text_ok_def)
  have "\<exists>err. r = Inl err" 
  proof (cases r)
    case (Inr u)
    show ?thesis using pg_write_Inr(1) [OF pw [unfolded Inr]] f by (metis Inl_Inr_False prod.inject)
  qed simp
  moreover have "wdb (gwStore b1) = wdb (gwStore b)" using pg_write_cases [OF pw] f by (metis prod.inject)
  ultimately show ?thesis using assms(3) st by (auto simp: ib_audit_def)
qed

text \<open>What the agent's own turns report, summed without a bound; the bridge keeps the sums as \<open>int64\<close>.\<close>

definition reported_tokens :: "(int \<times> int \<Rightarrow> int) \<Rightarrow> a2a_turn list \<Rightarrow> int" where
  "reported_tokens part ms = sum_list (map (\<lambda>m. case atUsage m of None \<Rightarrow> 0
     | Some u \<Rightarrow> if atRole m = ''agent'' then max (part u) 0 else 0) ms)"

lemma wrap64_add: "wrap64 (wrap64 a + b) = wrap64 (a + b)"
proof -
  have "(a + 9223372036854775808) mod 18446744073709551616 - 9223372036854775808 + b + 9223372036854775808 =
      (a + 9223372036854775808) mod 18446744073709551616 + b" by simp
  then show ?thesis by (simp add: wrap64_def mod_simps algebra_simps)
qed

lemma turns_summed:
  "fold add_turn ms (wrap64 x, wrap64 y) = (wrap64 (x + reported_tokens fst ms), wrap64 (y + reported_tokens snd ms))"
proof (induction ms arbitrary: x y)
  case (Cons m ms)
  have "add_turn m (wrap64 x, wrap64 y) = (wrap64 (x + reported_tokens fst [m]), wrap64 (y + reported_tokens snd [m]))"
    by (simp add: add_turn_def reported_tokens_def wrap64_add split: option.split prod.split)
  then show ?case using Cons.IH by (simp add: reported_tokens_def add.assoc)
qed (simp add: reported_tokens_def)

lemma wrap64_negative: "wrap64 i < 0 \<longleftrightarrow> 2 ^ 63 \<le> i mod 2 ^ 64"
proof -
  have "(i + 9223372036854775808) mod 18446744073709551616 = (i mod 18446744073709551616 + 9223372036854775808) mod 18446744073709551616"
    by (simp add: mod_simps)
  moreover have "(r + 9223372036854775808) mod 18446744073709551616 - 9223372036854775808 < 0 \<longleftrightarrow> 9223372036854775808 \<le> r"
    if "0 \<le> r" "r < 18446744073709551616" for r :: int
  proof (cases "r < 9223372036854775808")
    case False
    have "(r + 9223372036854775808) mod 18446744073709551616 = (r - 9223372036854775808) mod 18446744073709551616"
      using mod_add_self2 [of "r - 9223372036854775808" "18446744073709551616"] by (simp add: algebra_simps)
    then show ?thesis using False that by simp
  qed (use that in simp)
  from this [of "i mod 18446744073709551616"] have
    "(i mod 18446744073709551616 + 9223372036854775808) mod 18446744073709551616 - 9223372036854775808 < 0 \<longleftrightarrow>
      9223372036854775808 \<le> i mod 18446744073709551616" by simp
  ultimately show ?thesis unfolding wrap64_def by simp
qed

text \<open>
  C30: Let the agent answer an invocation with status 200 and a reply that is no JSON-RPC error. The bridge adds what its own turns report in
  \<open>int64\<close>; if one of the two totals wraps to a negative number (the sum has a
  remainder of 2^63 or more by 2^64; a larger sum may wrap to a count the table takes),
  or if the task id holds a NUL, the row of the outcome is refused by the database: nothing is added
  to the trail the agent left, and the bridge refuses events until a write succeeds.
\<close>

theorem an_unrecordable_outcome_is_lost:
  assumes "bdStore d = pg_inbound_store" "open_runs d j (run_credentials (jbH j)) [] b = (Some ids, b1)"
    and "bdBadURL d (obURL (invocation d j)) = None" "bdSend d (invocation d j) (gwStore b1) = (Inr u, w)"
    and "urStatus u = 200" "agent_read u = Inr raw" "read_reply raw = Some env" "aeError env = None"
    and "2 ^ 63 \<le> reported_tokens fst (slice_elems (arHistory (aeResult env))) mod 2 ^ 64 \<or>
      2 ^ 63 \<le> reported_tokens snd (slice_elems (arHistory (aeResult env))) mod 2 ^ 64 \<or> CHR 0x00 \<in> set (arTaskID (aeResult env))"
  shows "inbound_audit (wdb (gwStore (process d j b))) = inbound_audit (wdb w) \<and> gwDegraded (process d j b)"
proof -
  let ?ms = "slice_elems (arHistory (aeResult env))"
  obtain out b2 where i: "invoke d j b1 = (out, b2)" by fastforce
  have o: "out = read_outcome (bdUprint d) 200 raw" "gwStore b2 = w"
    using i assms(3-6) by (auto simp: invoke_def Let_def in_store_def)
  have sums: "aoIn out = wrap64 (reported_tokens fst ?ms)" "aoOut out = wrap64 (reported_tokens snd ?ms)" "aoTaskID out = arTaskID (aeResult env)"
    "\<And>e. aoErr out = Some e \<Longrightarrow> set (arTaskID (aeResult env)) \<subseteq> set e"
    using turns_summed [of ?ms 0 0] assms(7,8) unfolding o(1) by (auto simp: read_outcome_def Let_def wrap64_def split: if_splits)
  let ?e = "case aoErr out of Some e \<Rightarrow> outcome_entry j ''failed'' (aoStatus out) e (aoIn out) (aoOut out)
     | None \<Rightarrow> outcome_entry j ''completed'' (aoStatus out) (''task '' @ aoTaskID out) (aoIn out) (aoOut out)"
  obtain ok b3 where ad: "ib_audit d (jbActedFor j) ?e b2 = (ok, b3)" by fastforce
  have "iaInputTokens ?e < 0 \<or> iaOutputTokens ?e < 0 \<or> CHR 0x00 \<in> set (iaDetail ?e)"
    using assms(9) sums unfolding wrap64_negative [symmetric] by (auto simp: outcome_entry_def inbound_entry_def split: option.split)
  from unrecordable [OF assms(1) this ad] show ?thesis
    using assms(2) i ad o(2) close_runs_keep [OF assms(1)] by (simp add: process_def)
qed

definition wrap_reply :: string where
  "wrap_reply = ''{\"result\":{\"history\":[{\"metadata\":{\"kagent_usage_metadata\":{\"promptTokenCount\":9223372036854775807}},\"role\":\"agent\"},{\"metadata\":{\"kagent_usage_metadata\":{\"promptTokenCount\":1}},\"role\":\"agent\"}]}}''"

definition wrap_turn :: "string \<Rightarrow> json" where
  "wrap_turn n = JObj [(''metadata'', JObj [(''kagent_usage_metadata'', JObj [(''promptTokenCount'', JNum n)])]), (''role'', JStr ''agent'')]"

lemma wrap_parses: "parse_json wrap_reply =
    Some (JObj [(''result'', JObj [(''history'', JArr [wrap_turn ''9223372036854775807'', wrap_turn ''1''])])])"
  unfolding wrap_reply_def wrap_turn_def by (rule parse_json_run) (simp_all add: lex_eval render_eval maxNestingDepth_def)

definition wrap_deps :: "world BridgeDeps" where
  "wrap_deps = (br_deps br_hook)\<lparr>bdSend := (\<lambda>out w. (Inr \<lparr>urStatus = 200, urHeader = [], urBody = wrap_reply, urCut = None\<rparr>, w))\<rparr>"

definition wrap_job :: job where
  "wrap_job = \<lparr>jbEventID = demo_uuid, jbHook = ''hook'', jbH = br_hook, jbDelivery = ''d1'', jbText = ''hi'', jbActedFor = ''none''\<rparr>"

lemma wrap_fold_names: "fold_runes ''metadata'' = ''metadata''" "fold_runes ''kagent_usage_metadata'' = ''kagent_usage_metadata''"
  "fold_runes ''promptTokenCount'' = ''prompttokencount''" "fold_runes ''role'' = ''role''" "fold_runes ''history'' = ''history''"
  "fold_runes ''result'' = ''result''"
  by code_simp+

lemma wrap_usage_read: "parse_int n = Some i \<Longrightarrow> set_turn_usage (JObj [(''promptTokenCount'', JNum n)]) ((0, 0), False) = ((i, 0), False)"
  by (simp add: set_turn_usage_def set_struct_def set_fields_def names_field_def wrap_fold_names set_field_def set_int64_def
      del: fold_runes.simps)

lemma wrap_turn_read:
  assumes "parse_int n = Some i"
  shows "set_turn (wrap_turn n) (\<lparr>atRole = [], atUsage = None\<rparr>, False) = (\<lparr>atRole = ''agent'', atUsage = Some (i, 0)\<rparr>, False)"
  using wrap_usage_read [OF assms] unfolding set_turn_def wrap_turn_def
  by (simp add: set_struct_def set_fields_def names_field_def wrap_fold_names set_field_def set_pointer_def set_string_def
      del: fold_runes.simps)

lemma wrap_ints: "parse_int ''9223372036854775807'' = Some 9223372036854775807" "parse_int ''1'' = Some 1"
  by (simp_all add: go_defs)

lemma wrap_reply_read: "read_reply wrap_reply = Some (a2a_zero\<lparr>aeResult := (aeResult a2a_zero)\<lparr>arHistory :=
    ([\<lparr>atRole = ''agent'', atUsage = Some (9223372036854775807, 0)\<rparr>, \<lparr>atRole = ''agent'', atUsage = Some (1, 0)\<rparr>], 2)\<rparr>\<rparr>)"
proof -
  let ?t = "\<lambda>n. \<lparr>atRole = ''agent'', atUsage = Some (n, 0)\<rparr>"
  have h: "set_slice set_turn \<lparr>atRole = [], atUsage = None\<rparr> (JArr [wrap_turn ''9223372036854775807'', wrap_turn ''1'']) (([], 0), False) =
      (([?t 9223372036854775807, ?t 1], 2), False)"
    by (simp add: set_slice_def wrap_turn_read wrap_ints)
  show ?thesis
    unfolding read_reply_def unmarshal_def wrap_parses set_result_def
    by (simp add: set_struct_def set_fields_def names_field_def wrap_fold_names set_field_def a2a_zero_def h del: fold_runes.simps)
qed

theorem an_unrecordable_outcome_is_lost_witness:
  "\<exists>ids b1. open_runs wrap_deps wrap_job (run_credentials (jbH wrap_job)) [] (br_start demo_inbound) = (Some ids, b1) \<and>
     inbound_audit (wdb (gwStore (process wrap_deps wrap_job (br_start demo_inbound)))) = inbound_audit (wdb (gwStore b1)) \<and>
     gwDegraded (process wrap_deps wrap_job (br_start demo_inbound))"
proof -
  have rc: "run_credentials (jbH wrap_job) = [''bot'']" by (simp add: run_credentials_def wrap_job_def br_hook_def demo_hook_def)
  have st: "bdStore wrap_deps = pg_inbound_store" by (simp add: wrap_deps_def)
  have "\<exists>ids b1. open_runs wrap_deps wrap_job [''bot''] [] (br_start demo_inbound) = (Some ids, b1)"
    using demo_uuid_ok
    by (simp add: in_store_def st pg_inbound_store_def pg_write_def next_fault_def br_start_def idle_bridge_def OpenRun_def insert_run_def
        wrap_job_def texts_ok_ascii run_actor_ok_def demo_inbound_def demo_defs)
  then obtain ids b1 where o: "open_runs wrap_deps wrap_job (run_credentials (jbH wrap_job)) [] (br_start demo_inbound) = (Some ids, b1)"
    unfolding rc by blast
  let ?u = "\<lparr>urStatus = 200, urHeader = [], urBody = wrap_reply, urCut = None\<rparr>"
  have bu: "bdBadURL wrap_deps (obURL (invocation wrap_deps wrap_job)) = None"
      "bdSend wrap_deps (invocation wrap_deps wrap_job) (gwStore b1) = (Inr ?u, gwStore b1)"
    by (simp_all add: wrap_deps_def br_deps_def)
  have rd: "agent_read ?u = Inr wrap_reply" by (simp add: agent_read_def ib_maxBufferedResp_def wrap_reply_def)
  from an_unrecordable_outcome_is_lost [OF st o bu _ rd wrap_reply_read] o show ?thesis
    by (auto simp: a2a_zero_def slice_elems_def reported_tokens_def numeral_2_eq_2)
qed

end
