(* ===== verification/Notify.thy ===== *)
theory Notify
  imports Gateway Unmarshal
begin

text \<open>
  Component \<^verbatim>\<open>plane/internal/notify/notify.go\<close> and \<^verbatim>\<open>poster.go\<close>: what a fresh filing posts, the
  queue of posts, the bounded retry of one post through the plane's own gateway, and how an
  attempt is judged. The gateway behind the loopback address, the files, the clock and net/url
  are arguments; logs, the queue gauge and the texts of the errors that are only logged are left
  out.
\<close>

record Post =
  poText :: string
  poThreadTS :: string

text \<open>What a failed call says: the address could not be dialled, or anything later.\<close>

datatype post_error = DialError | LateError

record 's NotifyDeps =
  ndGatewayURL :: string
  ndUpstream :: string
  ndTool :: string
  ndCredentialFile :: string
  ndChannelFile :: string
  ndCallTimeout :: int
  ndBackoff :: "int list"
  ndQueueSize :: int
  ndSend :: "Outbound \<Rightarrow> 's \<Rightarrow> (post_error + UpstreamResponse) \<times> 's"
  ndBadURL :: "string \<Rightarrow> bool"
  ndReadFile :: "string \<Rightarrow> 's \<Rightarrow> string option"
  ndExpired :: "'s \<Rightarrow> 's \<Rightarrow> bool"
  ndSleep :: "int \<Rightarrow> 's \<Rightarrow> 's"
  ndStopping :: "'s \<Rightarrow> bool"

text \<open>
  \<open>ndExpired s0 s\<close>: the context of an attempt begun in \<open>s0\<close> is done in \<open>s\<close>, by its timeout or by
  the shutdown; \<open>ndStopping s\<close>: the context of \<open>Run\<close> is.
\<close>

definition nd_defaultCallTimeout :: int where "nd_defaultCallTimeout = 30 * second"
definition nd_defaultQueueSize :: int where "nd_defaultQueueSize = 32"
definition nd_maxBufferedResp :: nat where "nd_maxBufferedResp = 1048576"

definition NewPoster :: "int list option \<Rightarrow> 's NotifyDeps \<Rightarrow> 's NotifyDeps" where
  "NewPoster backoff d = d\<lparr>
     ndCallTimeout := (if ndCallTimeout d \<le> 0 then nd_defaultCallTimeout else ndCallTimeout d),
     ndBackoff := (case backoff of None \<Rightarrow> [2 * second, 5 * second] | Some b \<Rightarrow> b),
     ndQueueSize := (if ndQueueSize d \<le> 0 then nd_defaultQueueSize else ndQueueSize d)\<rparr>"

subsection \<open>One attempt\<close>

datatype post_outcome = Posted | PostRefused | Ambiguous

definition readFile :: "string option \<Rightarrow> string option" where
  "readFile f = (case f of None \<Rightarrow> None | Some raw \<Rightarrow> if trim_space raw = [] then None else Some (trim_space raw))"

text \<open>The state of the poster: the store and the world behind it, what it sent, and the queue.\<close>

record 's poster =
  psStore :: 's
  psSent :: "Outbound list"
  psJobs :: "Post list"
  psHeld :: "Post option"
  psInflight :: bool

definition post_message :: "'s NotifyDeps \<Rightarrow> string \<Rightarrow> string \<Rightarrow> json \<Rightarrow> Outbound" where
  "post_message d token session msg =
     (let h = header_set ''Accept'' ''application/json, text/event-stream''
                (header_set ''Content-Type'' ''application/json'' (header_set ''Authorization'' (''Bearer '' @ token) []))
      in \<lparr>obURL = trim_suffix (ndGatewayURL d) ''/'' @ ''/upstream/'' @ ndUpstream d @ ''/mcp'', obMethod = ''POST'',
          obHeader = (if session = [] then h else header_set ''Mcp-Session-Id'' session h),
          obBody = html_escape (render msg), obHardened = False\<rparr>)"

definition post_call ::
  "'s NotifyDeps \<Rightarrow> string \<Rightarrow> string \<Rightarrow> json \<Rightarrow> 's poster \<Rightarrow> (post_error + (int \<times> header \<times> string)) \<times> 's poster" where
  "post_call d token session msg p =
     (let out = post_message d token session msg in
      if ndBadURL d (obURL out) then (Inl LateError, p)
      else (case ndSend d out (psStore p) of
              (res, s) \<Rightarrow>
                ((case res of
                    Inl e \<Rightarrow> Inl e
                  | Inr u \<Rightarrow>
                      if length (urBody u) \<ge> nd_maxBufferedResp
                      then Inr (urStatus u, urHeader u, take nd_maxBufferedResp (urBody u))
                      else (case urCut u of
                              Some _ \<Rightarrow> Inl LateError
                            | None \<Rightarrow> Inr (urStatus u, urHeader u, urBody u))),
                 p\<lparr>psStore := s, psSent := psSent p @ [out]\<rparr>)))"

definition classifyErr :: "post_error \<Rightarrow> post_outcome" where
  "classifyErr e = (case e of DialError \<Rightarrow> PostRefused | LateError \<Rightarrow> Ambiguous)"

text \<open>The data event that answers request \<open>n\<close>.\<close>

definition frame_id :: "string \<Rightarrow> int option" where
  "frame_id payload =
     (case unmarshal (set_struct (set_fields [(''id'', set_pointer set_int64 0)])) payload None of
        (i, False) \<Rightarrow> i
      | _ \<Rightarrow> None)"

definition responseFrame :: "string \<Rightarrow> int \<Rightarrow> string" where
  "responseFrame raw n =
     (case List.find (\<lambda>line. case cut_prefix line ''data:'' of (payload, ok) \<Rightarrow> ok \<and> frame_id (trim_prefix payload '' '') = Some n)
         (fst (scan_lines nd_maxBufferedResp raw)) of
        None \<Rightarrow> []
      | Some line \<Rightarrow> trim_prefix (fst (cut_prefix line ''data:'')) '' '')"

text \<open>The answer of a call: its error, if any, and its result's \<open>isError\<close>; the texts of both are only logged.\<close>

record post_answer =
  paError :: "string option"
  paResult :: "(bool \<times> string slice) option"

definition set_post_result :: "json \<Rightarrow> (bool \<times> string slice) \<times> bool \<Rightarrow> (bool \<times> string slice) \<times> bool" where
  "set_post_result = set_struct (set_fields
     [(''iserror'', set_field set_bool fst (\<lambda>x r. (x, snd r))),
      (''content'', set_field (set_slice (set_struct (set_fields [(''text'', set_string)])) []) snd (\<lambda>x r. (fst r, x)))])"

definition set_answer :: "json \<Rightarrow> post_answer \<times> bool \<Rightarrow> post_answer \<times> bool" where
  "set_answer = set_struct (set_fields
     [(''id'', \<lambda>v t. t),
      (''error'', set_field (set_pointer (set_struct (set_fields [(''message'', set_string)])) []) paError (\<lambda>x r. r\<lparr>paError := x\<rparr>)),
      (''result'', set_field (set_pointer set_post_result (False, ([], 0))) paResult (\<lambda>x r. r\<lparr>paResult := x\<rparr>))])"

definition classifyResponse :: "int \<Rightarrow> string \<Rightarrow> string \<Rightarrow> post_outcome" where
  "classifyResponse status contentType body =
     (if status \<noteq> 200 then
        (if status \<ge> 400 \<and> status < 500 \<or> status = 503 \<or> (status = 502 \<and> trim_space body = MsgUpstreamRedirected)
         then PostRefused else Ambiguous)
      else
        (let payload = (if has_prefix contentType ''text/event-stream'' then responseFrame body 2 else body) in
         case unmarshal set_answer payload \<lparr>paError = None, paResult = None\<rparr> of
           (a, bad) \<Rightarrow>
             if bad \<or> (paError a = None \<and> paResult a = None) then Ambiguous
             else if paError a \<noteq> None then PostRefused
             else if fst (the (paResult a)) then PostRefused
             else Posted))"

definition initialize_message :: json where
  "initialize_message = JObj [(''id'', JNum ''1''), (''jsonrpc'', JStr ''2.0''), (''method'', JStr ''initialize''),
     (''params'', JObj [(''capabilities'', JObj []),
        (''clientInfo'', JObj [(''name'', JStr ''kaimahi-plane''), (''version'', JStr ''p8b'')]),
        (''protocolVersion'', JStr ''2025-03-26'')])]"

definition initialized_message :: json where
  "initialized_message = JObj [(''jsonrpc'', JStr ''2.0''), (''method'', JStr ''notifications/initialized'')]"

definition call_message :: "string \<Rightarrow> string \<Rightarrow> Post \<Rightarrow> json" where
  "call_message tool channel post = JObj [(''id'', JNum ''2''), (''jsonrpc'', JStr ''2.0''), (''method'', JStr ''tools/call''),
     (''params'', JObj [(''arguments'', JObj ([(''channel_id'', JStr channel), (''payload'', JStr (poText post))] @
          (if poThreadTS post = [] then [] else [(''thread_ts'', JStr (poThreadTS post))]))),
        (''name'', JStr tool)])]"

text \<open>The handshake: the session it gives, and the state after it.\<close>

definition handshake :: "'s NotifyDeps \<Rightarrow> string \<Rightarrow> 's poster \<Rightarrow> string \<times> 's poster" where
  "handshake d token p =
     (case post_call d token [] initialize_message p of
        (Inr (status, hdr, _), p1) \<Rightarrow>
          if status = 200 then
            (let session = header_get hdr ''Mcp-Session-Id'' in
             (session, snd (post_call d token session initialized_message p1)))
          else ([], p1)
      | (Inl _, p1) \<Rightarrow> ([], p1))"

definition one_channel :: "string \<Rightarrow> bool" where
  "one_channel channel \<longleftrightarrow>
     \<not> list_ex (\<lambda>c. c = CHR '','' \<or> c = CHR '' '' \<or> c = CHR 0x0A) channel \<and> channel \<noteq> ''true'' \<and> \<not> has_prefix channel ''!''"

definition attempt :: "'s NotifyDeps \<Rightarrow> Post \<Rightarrow> 's poster \<Rightarrow> post_outcome \<times> 's poster" where
  "attempt d post p =
     (case (readFile (ndReadFile d (ndCredentialFile d) (psStore p)), readFile (ndReadFile d (ndChannelFile d) (psStore p))) of
        (Some token, Some channel) \<Rightarrow>
          if \<not> one_channel channel then (PostRefused, p)
          else
            (case handshake d token p of
               (session, p1) \<Rightarrow>
                 if ndExpired d (psStore p) (psStore p1) then (PostRefused, p1)
                 else (case post_call d token session (call_message (ndTool d) channel post) p1 of
                         (Inl e, p2) \<Rightarrow> (classifyErr e, p2)
                       | (Inr (status, hdr, body), p2) \<Rightarrow> (classifyResponse status (header_get hdr ''Content-Type'') body, p2)))
      | _ \<Rightarrow> (PostRefused, p))"

text \<open>The retries, and how each attempt of them ended: \<open>waits\<close> is what is left of the backoff.\<close>

fun send_attempts :: "'s NotifyDeps \<Rightarrow> Post \<Rightarrow> int list \<Rightarrow> 's poster \<Rightarrow> post_outcome list \<times> 's poster" where
  "send_attempts d post waits p =
     (case attempt d post p of
        (out, p1) \<Rightarrow>
          if out = Posted \<or> out = Ambiguous then ([out], p1)
          else (case waits of
                  [] \<Rightarrow> ([out], p1)
                | t # ts \<Rightarrow>
                    (let p2 = p1\<lparr>psStore := ndSleep d t (psStore p1)\<rparr> in
                     if ndStopping d (psStore p2) then ([out], p2)
                     else (case send_attempts d post ts p2 of (outs, p3) \<Rightarrow> (out # outs, p3)))))"

declare send_attempts.simps [simp del]

definition send_post :: "'s NotifyDeps \<Rightarrow> Post \<Rightarrow> 's poster \<Rightarrow> post_outcome list \<times> 's poster" where
  "send_post d post p = send_attempts d post (ndBackoff d) p"

subsection \<open>The queue\<close>

definition Enqueue :: "'s NotifyDeps \<Rightarrow> Post \<Rightarrow> 's poster \<Rightarrow> bool \<times> 's poster" where
  "Enqueue d post p =
     (if int (length (psJobs p)) < ndQueueSize d then (True, p\<lparr>psJobs := psJobs p @ [post]\<rparr>) else (False, p))"

text \<open>
  \<open>Run\<close>: the one worker receives a post, marks itself busy, sends, and marks itself idle. Other
  parts of the plane enqueue and change the store at any time. Each mark is a step of its own: other
  goroutines run in between. A step shows what it did: the post a caller got into the queue or was
  refused, and the post that was sent with the messages that left for it.
\<close>

datatype poster_event = Took Post | Dropped Post | SentPost Post "Outbound list" | Silent

inductive poster_step :: "'s NotifyDeps \<Rightarrow> 's poster \<Rightarrow> poster_event \<Rightarrow> 's poster \<Rightarrow> bool" for d where
  enqueues: "Enqueue d post p = (ok, p') \<Longrightarrow> poster_step d p (if ok then Took post else Dropped post) p'"
| receives: "psHeld p = None \<Longrightarrow> psJobs p = post # js \<Longrightarrow> \<not> psInflight p \<Longrightarrow>
     poster_step d p Silent (p\<lparr>psJobs := js, psHeld := Some post\<rparr>)"
| marks: "psHeld p = Some post \<Longrightarrow> \<not> psInflight p \<Longrightarrow> poster_step d p Silent (p\<lparr>psInflight := True\<rparr>)"
| sends: "psHeld p = Some post \<Longrightarrow> psInflight p \<Longrightarrow> send_post d post p = (outs, p') \<Longrightarrow>
     poster_step d p (SentPost post (drop (length (psSent p)) (psSent p'))) (p'\<lparr>psHeld := None\<rparr>)"
| unmarks: "psHeld p = None \<Longrightarrow> psInflight p \<Longrightarrow> poster_step d p Silent (p\<lparr>psInflight := False\<rparr>)"
| elsewhere: "poster_step d p Silent (p\<lparr>psStore := s\<rparr>)"

definition idle_poster :: "'s \<Rightarrow> 's poster" where
  "idle_poster s = \<lparr>psStore = s, psSent = [], psJobs = [], psHeld = None, psInflight = False\<rparr>"

text \<open>A run of the notifier from its start, with what its steps showed, in order.\<close>

inductive poster_run :: "'s NotifyDeps \<Rightarrow> poster_event list \<Rightarrow> 's poster \<Rightarrow> bool" for d where
  starts: "poster_run d [] (idle_poster s)"
| goes_on: "poster_run d evs p \<Longrightarrow> poster_step d p ev p' \<Longrightarrow> poster_run d (evs @ [ev]) p'"

text \<open>What \<open>Drain\<close> waits for; it returns 0 when it sees this, and what is queued when it gives up.\<close>

definition Drained :: "'s poster \<Rightarrow> bool" where
  "Drained p \<longleftrightarrow> psJobs p = [] \<and> \<not> psInflight p"

definition Drain :: "'s poster \<Rightarrow> nat" where
  "Drain p = (if Drained p then 0 else length (psJobs p))"

subsection \<open>Filings\<close>

record notify_filing =
  nfID :: string
  nfCredential :: string
  nfKind :: string
  nfSubject :: string
  nfDetail :: string
  nfSummary :: string

definition tick :: "string \<Rightarrow> string" where
  "tick s = [CHR 0x60] @ s @ [CHR 0x60]"

definition Message :: "notify_filing \<Rightarrow> string" where
  "Message f =
     (let amount = (if nfKind f = ''budget'' then '' amount=<'' @ nfSubject f @ ''>'' else []);
          what = (if nfSummary f \<noteq> [] then tick (nfSummary f) else tick (nfSubject f))
      in ''Kaimahi approval request '' @ tick (nfID f) @ '': credential '' @ tick (nfCredential f) @ '' was denied '' @ nfKind f @ '' '' @
         what @ '' ('' @ nfDetail f @ '').'' @ [CHR 0x0A] @ ''To decide, mention the bot: '' @
         tick (''@kaimahi approve '' @ nfID f @ '' [uses=N] [ttl=15m]'' @ amount) @ '' or '' @ tick (''@kaimahi deny '' @ nfID f) @
         ''. Or run '' @ tick ''make approvals'' @ ''.'')"

definition Notify :: "'s NotifyDeps \<Rightarrow> notify_filing \<Rightarrow> 's poster \<Rightarrow> bool \<times> 's poster" where
  "Notify d f p = Enqueue d \<lparr>poText = Message f, poThreadTS = []\<rparr> p"

definition Reply :: "'s NotifyDeps \<Rightarrow> string \<Rightarrow> string \<Rightarrow> 's poster \<Rightarrow> bool \<times> 's poster" where
  "Reply d outcome threadTS p = Enqueue d \<lparr>poText = outcome, poThreadTS = threadTS\<rparr> p"

text \<open>Filing through the notifier: \<open>hasN\<close> when one is configured.\<close>

definition notify_FileApprovalRequest ::
  "('s \<Rightarrow> (store_error + (string \<times> bool)) \<times> 's) \<Rightarrow> bool \<Rightarrow> 's NotifyDeps \<Rightarrow> Filing \<Rightarrow> 's poster \<Rightarrow> (store_error + bool) \<times> 's poster" where
  "notify_FileApprovalRequest filer hasN d f p =
     (case filer (psStore p) of
        (Inl e, s) \<Rightarrow> (Inl e, p\<lparr>psStore := s\<rparr>)
      | (Inr (rid, filed), s) \<Rightarrow>
          if \<not> filed then (Inr False, p\<lparr>psStore := s\<rparr>)
          else (Inr True,
                (if hasN
                 then snd (Notify d \<lparr>nfID = rid, nfCredential = fiCredential f, nfKind = fiKind f, nfSubject = fiSubject f,
                        nfDetail = fiDetail f, nfSummary = fiArgSummary f\<rparr> (p\<lparr>psStore := s\<rparr>))
                 else p\<lparr>psStore := s\<rparr>)))"

end
