(* ===== verification/NotifyProps.thy ===== *)
theory NotifyProps
  imports Notify World GatewayEval
begin

text \<open>
  Properties of the notifier: what a filing posts, that a post is repeated only when the earlier
  attempt was judged refused, what that judgement misses, and what becomes of the queue.
\<close>

subsection \<open>Filings\<close>

lemma Enqueue_outcome: "Enqueue d post p = (ok, p') \<Longrightarrow>
    ok = (int (length (psJobs p)) < ndQueueSize d) \<and> p' = p\<lparr>psJobs := psJobs p @ (if ok then [post] else [])\<rparr>"
  by (auto simp: Enqueue_def split: if_splits)

definition pg_filer :: "Filing \<Rightarrow> world \<Rightarrow> (store_error + (string \<times> bool)) \<times> world" where
  "pg_filer f = pg_write (\<lambda>now uuid d. FileRequest f now uuid d)"

text \<open>
  Filing through the notifier announces a request exactly when it is new: an error and a
  duplicate post nothing, a fresh filing enqueues one message, if the queue has room, that names
  the id of the pending row it added; the answer is the store's own.
\<close>

theorem a_fresh_filing_is_announced_once:
  assumes "notify_FileApprovalRequest (pg_filer f) True d f p = (res, p')"
  shows "psSent p' = psSent p \<and> pg_filer f (psStore p) = (map_sum id (\<lambda>filed. (if filed then wuuid (psStore p) (wnext (psStore p)) else [], filed)) res, psStore p') \<and>
    (res \<noteq> Inr True \<longrightarrow> psJobs p' = psJobs p) \<and>
    (res = Inr True \<longrightarrow> (\<exists>r. approval_request (wdb (psStore p')) = approval_request (wdb (psStore p)) @ [r] \<and> arStatus r = ''pending'' \<and>
       arCredentialName r = fiCredential f \<and> arKind r = fiKind f \<and> arSubject r = fiSubject f \<and> arArgDigest r = fiArgDigest f \<and>
       psJobs p' = psJobs p @ (if int (length (psJobs p)) < ndQueueSize d
         then [\<lparr>poText = Message \<lparr>nfID = arID r, nfCredential = fiCredential f, nfKind = fiKind f, nfSubject = fiSubject f,
                  nfDetail = fiDetail f, nfSummary = fiArgSummary f\<rparr>, poThreadTS = []\<rparr>]
         else [])))"
proof -
  let ?w = "psStore p"
  obtain x w' where fl: "pg_filer f ?w = (x, w')" by fastforce
  show ?thesis
  proof (cases x)
    case (Inl e)
    then show ?thesis using assms fl by (auto simp: notify_FileApprovalRequest_def)
  next
    case (Inr y)
    obtain rid filed where y: "y = (rid, filed)" by fastforce
    have "FileRequest f (wnow ?w) (wuuid ?w (wnext ?w)) (wdb ?w) = (Inr (rid, filed), wdb w')"
      using pg_write_Inr(1) fl Inr y unfolding pg_filer_def by fastforce
    then show ?thesis
      using assms fl Inr y
      by (cases rule: FileRequest_outcome)
         (auto simp: notify_FileApprovalRequest_def Notify_def Enqueue_def request_of_def)
  qed
qed

subsection \<open>Retries\<close>

text \<open>A message that asks for the tool: the other two of an attempt have other beginnings.\<close>

definition is_call :: "Outbound \<Rightarrow> bool" where
  "is_call out \<longleftrightarrow> has_prefix (obBody out) ''{\"id\":2,''"

lemma messages_told_apart:
  "\<not> is_call (post_message d token session initialize_message)" "\<not> is_call (post_message d token session initialized_message)"
  "is_call (post_message d token session (call_message tool channel post))"
  by (simp_all add: is_call_def post_message_def Let_def initialize_message_def initialized_message_def call_message_def has_prefix_def
      html_escape_def render_eval go_defs)

definition same_queue :: "'s poster \<Rightarrow> 's poster \<Rightarrow> bool" where
  "same_queue p p' \<longleftrightarrow> psJobs p' = psJobs p \<and> psHeld p' = psHeld p \<and> psInflight p' = psInflight p"

text \<open>A message that asks the tool for this very post.\<close>

definition asks_for :: "'s NotifyDeps \<Rightarrow> Post \<Rightarrow> Outbound \<Rightarrow> bool" where
  "asks_for d post out \<longleftrightarrow> (\<exists>token session channel. out = post_message d token session (call_message (ndTool d) channel post))"

lemma post_call_sends:
  assumes "post_call d token session msg p = (res, p')"
  shows "same_queue p p' \<and> (psSent p' = psSent p \<and> res = Inl LateError \<or> psSent p' = psSent p @ [post_message d token session msg])"
  using assms by (auto simp: post_call_def Let_def same_queue_def split: if_splits prod.splits)

lemma handshake_sends:
  assumes "handshake d token p = (session, p')"
  shows "same_queue p p' \<and> (\<exists>new. psSent p' = psSent p @ new \<and> length new \<le> 2 \<and> filter is_call new = [])"
proof -
  obtain res p1 where a: "post_call d token [] initialize_message p = (res, p1)" by fastforce
  note s1 = post_call_sends [OF a]
  show ?thesis
  proof (cases "\<exists>hd body. res = Inr (200, hd, body)")
    case False
    then have "p' = p1" using assms a by (auto simp: handshake_def split: sum.splits prod.splits if_splits)
    then show ?thesis using s1 by (auto simp: messages_told_apart)
  next
    case True
    then obtain hd body where r: "res = Inr (200, hd, body)" by blast
    obtain x p2 where b: "post_call d token (header_get hd ''Mcp-Session-Id'') initialized_message p1 = (x, p2)" by fastforce
    have "p' = p2" using assms a b r by (simp add: handshake_def Let_def)
    then show ?thesis using s1 post_call_sends [OF b] by (auto simp: same_queue_def messages_told_apart)
  qed
qed

text \<open>An attempt: at most one message that asks for the tool; without one it counts as refused or as unknown.\<close>

lemma attempt_sends:
  assumes "attempt d post p = (out, p')"
  obtains new where "same_queue p p'" "psSent p' = psSent p @ new" "length new \<le> 3" "length (filter is_call new) \<le> 1"
    "out = Posted \<longrightarrow> filter is_call new \<noteq> []" "list_all (asks_for d post) (filter is_call new)"
proof -
  consider token channel where "readFile (ndReadFile d (ndCredentialFile d) (psStore p)) = Some token"
      "readFile (ndReadFile d (ndChannelFile d) (psStore p)) = Some channel" "one_channel channel"
    | "out = PostRefused" "p' = p"
    using assms by (auto simp: attempt_def split: option.splits if_splits)
  then show thesis
  proof cases
    case 2
    then show thesis using that [of "[]"] by (simp add: same_queue_def)
  next
    case 1
    obtain session p1 where h: "handshake d token p = (session, p1)" by fastforce
    from handshake_sends [OF h] obtain n1 where n1: "same_queue p p1" "psSent p1 = psSent p @ n1" "length n1 \<le> 2" "filter is_call n1 = []"
      by blast
    let ?msg = "call_message (ndTool d) channel post"
    obtain res p2 where c: "post_call d token session ?msg p1 = (res, p2)" by fastforce
    note n2 = post_call_sends [OF c]
    show thesis
    proof (cases "ndExpired d (psStore p) (psStore p1)")
      case True
      then show thesis using assms 1 h n1 that [of n1] by (simp add: attempt_def)
    next
      case False
      then have o: "p' = p2" "out = (case res of Inl e \<Rightarrow> classifyErr e | Inr (st, hdr, b) \<Rightarrow> classifyResponse st (header_get hdr ''Content-Type'') b)"
        using assms 1 h c by (auto simp: attempt_def split: sum.splits prod.splits)
      from n2 show thesis
      proof (elim conjE disjE)
        assume "psSent p2 = psSent p1" "res = Inl LateError" "same_queue p1 p2"
        then show thesis using that [of n1] n1 o by (simp add: same_queue_def classifyErr_def)
      next
        assume "psSent p2 = psSent p1 @ [post_message d token session ?msg]" "same_queue p1 p2"
        then show thesis using that [of "n1 @ [post_message d token session ?msg]"] n1 o(1)
          by (auto simp: same_queue_def messages_told_apart asks_for_def)
      qed
    qed
  qed
qed

lemma send_attempts_trace:
  assumes "send_attempts d post waits p = (outs, p')"
  obtains new where "same_queue p p'" "psSent p' = psSent p @ new" "outs \<noteq> []" "length outs \<le> Suc (length waits)"
    "\<forall>out \<in> set (butlast outs). out = PostRefused" "length new \<le> 3 * length outs" "length (filter is_call new) \<le> length outs"
    "last outs = Posted \<longrightarrow> filter is_call new \<noteq> []" "list_all (asks_for d post) (filter is_call new)"
  using assms
proof (induction waits arbitrary: p outs p' thesis)
  case Nil
  obtain out p1 where a: "attempt d post p = (out, p1)" by fastforce
  from a obtain new where "same_queue p p1" "psSent p1 = psSent p @ new" "length new \<le> 3" "length (filter is_call new) \<le> 1"
    "out = Posted \<longrightarrow> filter is_call new \<noteq> []" "list_all (asks_for d post) (filter is_call new)" by (rule attempt_sends)
  then show ?case using Nil a by (auto simp: send_attempts.simps split: if_splits)
next
  case (Cons t ts)
  obtain out p1 where a: "attempt d post p = (out, p1)" by fastforce
  from a obtain n1 where n1: "same_queue p p1" "psSent p1 = psSent p @ n1" "length n1 \<le> 3" "length (filter is_call n1) \<le> 1"
    "out = Posted \<longrightarrow> filter is_call n1 \<noteq> []" "list_all (asks_for d post) (filter is_call n1)" by (rule attempt_sends)
  let ?p2 = "p1\<lparr>psStore := ndSleep d t (psStore p1)\<rparr>"
  show ?case
  proof (cases "out = PostRefused \<and> \<not> ndStopping d (psStore ?p2)")
    case False
    then have "outs = [out]" "psSent p' = psSent p1" "same_queue p1 p'"
      using Cons.prems(2) a by (auto simp: send_attempts.simps Let_def same_queue_def split: if_splits) (cases out; auto)+
    then show ?thesis using Cons.prems(1) [of n1] n1 by (simp add: same_queue_def)
  next
    case True
    obtain os p3 where r: "send_attempts d post ts ?p2 = (os, p3)" by fastforce
    then have o: "outs = out # os" "p' = p3"
      using Cons.prems(2) a True by (auto simp: send_attempts.simps [of d post "t # ts"] Let_def)
    obtain n2 where n2: "same_queue ?p2 p3" "psSent p3 = psSent ?p2 @ n2" "os \<noteq> []" "length os \<le> Suc (length ts)"
        "\<forall>out \<in> set (butlast os). out = PostRefused" "length n2 \<le> 3 * length os" "length (filter is_call n2) \<le> length os"
        "last os = Posted \<longrightarrow> filter is_call n2 \<noteq> []" "list_all (asks_for d post) (filter is_call n2)"
      using Cons.IH [OF _ r] by blast
    show ?thesis using Cons.prems(1) [of "n1 @ n2"] n1 n2 o True by (auto simp: same_queue_def)
  qed
qed

text \<open>
  C31: a post is attempted at most once more than there are waits, and again only after an attempt that was
  judged refused: an attempt that may have gone through, or did, is the last. Each attempt asks for
  the tool at most once, and a post counted as posted was asked for.
\<close>

theorem a_post_is_repeated_only_after_a_refusal:
  assumes "send_post d post p = (outs, p')"
  shows "\<exists>new. psSent p' = psSent p @ new \<and> outs \<noteq> [] \<and> length outs \<le> length (ndBackoff d) + 1 \<and>
    (\<forall>i < length outs - 1. outs ! i = PostRefused) \<and> length (filter is_call new) \<le> length outs \<and>
    (last outs = Posted \<longrightarrow> filter is_call new \<noteq> []) \<and> psJobs p' = psJobs p"
proof -
  from assms obtain new where "same_queue p p'" "psSent p' = psSent p @ new" "outs \<noteq> []" "length outs \<le> Suc (length (ndBackoff d))"
    "\<forall>out \<in> set (butlast outs). out = PostRefused" "length new \<le> 3 * length outs" "length (filter is_call new) \<le> length outs"
    "last outs = Posted \<longrightarrow> filter is_call new \<noteq> []" "list_all (asks_for d post) (filter is_call new)"
    unfolding send_post_def by (rule send_attempts_trace)
  moreover have "outs ! i = PostRefused" if "i < length outs - 1" for i
    using calculation(5) that by (metis length_butlast nth_butlast nth_mem)
  ultimately show ?thesis by (auto simp: same_queue_def)
qed

text \<open>
  An answer that the tool server itself gives with status 503 or any 4xx is relayed by the
  gateway after the message has left it, and the notifier judges it refused, so it posts again.
\<close>

theorem a_refusal_of_the_server_is_retried:
  assumes "gw_do g r up body g0 = (Inr u, g1)" "urStatus u = 503 \<or> 400 \<le> urStatus u \<and> urStatus u < 500"
    and "urCut u = None" "length (urBody u) \<le> maxBufferedResp" "\<not> is_event_stream u"
  shows "\<exists>resp out. fst (fst (forward g r up body g0)) = resp \<and> snd (forward g r up body g0) = g1 \<and> gwSent g1 = gwSent g0 @ [out] \<and>
    obBody out = body \<and> rpStatus resp = urStatus u \<and> rpBody resp = urBody u \<and>
    (\<forall>contentType. classifyResponse (rpStatus resp) contentType (rpBody resp) = PostRefused)"
proof -
  have "\<exists>out. gwSent g1 = gwSent g0 @ [out] \<and> obBody out = body"
    using assms(1) by (auto simp: gw_do_def do_request_def Let_def send_outbound_def in_store_def split: option.splits sum.splits prod.splits if_splits)
  then show ?thesis using assms
    by (auto simp: forward_def answer_of_def redirected_def read_buffered_def classifyResponse_def)
qed

subsection \<open>The queue\<close>

text \<open>The posts the callers of \<open>Enqueue\<close> were told are taken, and the posts that were sent with what left for each.\<close>

definition taken :: "poster_event list \<Rightarrow> Post list" where
  "taken evs = List.map_filter (\<lambda>ev. case ev of Took post \<Rightarrow> Some post | _ \<Rightarrow> None) evs"

definition sent_posts :: "poster_event list \<Rightarrow> (Post \<times> Outbound list) list" where
  "sent_posts evs = List.map_filter (\<lambda>ev. case ev of SentPost post msgs \<Rightarrow> Some (post, msgs) | _ \<Rightarrow> None) evs"

lemma events_simps [simp]:
  "taken [] = []" "taken (evs @ [ev]) = taken evs @ (case ev of Took post \<Rightarrow> [post] | _ \<Rightarrow> [])"
  "sent_posts [] = []" "sent_posts (evs @ [ev]) = sent_posts evs @ (case ev of SentPost post msgs \<Rightarrow> [(post, msgs)] | _ \<Rightarrow> [])"
  by (simp_all add: taken_def sent_posts_def List.map_filter_def split: poster_event.split)

definition sent_well :: "'s NotifyDeps \<Rightarrow> Post \<times> Outbound list \<Rightarrow> bool" where
  "sent_well d pm \<longleftrightarrow> length (filter is_call (snd pm)) \<le> length (ndBackoff d) + 1 \<and> list_all (asks_for d (fst pm)) (filter is_call (snd pm))"

lemma poster_run_queue:
  assumes "poster_run d evs p" "0 \<le> ndQueueSize d"
  shows "taken evs = map fst (sent_posts evs) @ (case psHeld p of None \<Rightarrow> [] | Some post \<Rightarrow> [post]) @ psJobs p \<and>
    int (length (psJobs p)) \<le> ndQueueSize d \<and> psSent p = concat (map snd (sent_posts evs)) \<and> list_all (sent_well d) (sent_posts evs)"
  using assms(1)
proof (induction rule: poster_run.induct)
  case (starts s)
  then show ?case using assms(2) by (simp add: idle_poster_def)
next
  case (goes_on evs p ev p')
  from goes_on.hyps(2) show ?case
  proof (cases rule: poster_step.cases)
    case (enqueues post ok)
    then show ?thesis using Enqueue_outcome [OF enqueues(2)] goes_on.IH by (auto split: option.splits)
  next
    case (sends post outs p1)
    from sends(5) obtain new where "same_queue p p1" "psSent p1 = psSent p @ new" "length outs \<le> Suc (length (ndBackoff d))"
      "length (filter is_call new) \<le> length outs" "list_all (asks_for d post) (filter is_call new)"
      unfolding send_post_def by (rule send_attempts_trace)
    then show ?thesis using sends goes_on.IH by (simp add: same_queue_def sent_well_def)
  qed (use goes_on.IH in auto)
qed

text \<open>
  C32: In every run of the notifier from its start, whatever callers enqueue and whatever happens to the
  store in between, the posts that were sent are, in order and each once, the first of those
  \<open>Enqueue\<close> answered that it took; at most the size of the queue and one more are still to be sent;
  and what left the notifier is what left for these posts, in this order: for each at most one call
  of the tool more than there are waits, every one with the text and the thread of the post.
\<close>

theorem accepted_posts_go_out_in_order:
  assumes "poster_run d evs p" "0 \<le> ndQueueSize d"
  shows "\<exists>waiting. taken evs = map fst (sent_posts evs) @ waiting \<and> int (length waiting) \<le> ndQueueSize d + 1 \<and>
    psSent p = concat (map snd (sent_posts evs)) \<and> list_all (sent_well d) (sent_posts evs)"
  using poster_run_queue [OF assms] by (auto split: option.splits)

text \<open>
  A shutdown can miss a post: between taking a post from the queue and marking itself busy the
  worker leaves the queue empty and itself idle, which is what Drain waits for; it then answers
  that nothing is left while an accepted post is unsent.
\<close>

theorem a_drain_can_miss_a_post:
  assumes "0 < ndQueueSize (d :: 's NotifyDeps)"
  shows "\<exists>evs p. poster_run d evs p \<and> Drained p \<and> Drain p = 0 \<and> taken evs = [post] \<and> sent_posts evs = [] \<and> psSent p = []"
proof -
  fix s :: 's
  let ?p0 = "idle_poster s"
  let ?p1 = "?p0\<lparr>psJobs := [post]\<rparr>" and ?p2 = "?p0\<lparr>psHeld := Some post\<rparr>"
  have "Enqueue d post ?p0 = (True, ?p1)" using assms by (simp add: Enqueue_def idle_poster_def)
  then have "poster_step d ?p0 (Took post) ?p1" using poster_step.enqueues by fastforce
  then have "poster_run d ([] @ [Took post]) ?p1" by (rule poster_run.goes_on [OF poster_run.starts])
  moreover have "poster_step d ?p1 Silent (?p1\<lparr>psJobs := [], psHeld := Some post\<rparr>)" by (rule poster_step.receives) (simp_all add: idle_poster_def)
  ultimately have "poster_run d (([] @ [Took post]) @ [Silent]) (?p1\<lparr>psJobs := [], psHeld := Some post\<rparr>)" by (rule poster_run.goes_on)
  then show ?thesis
    by (intro exI [of _ "([] @ [Took post]) @ [Silent]"] exI [of _ "?p1\<lparr>psJobs := [], psHeld := Some post\<rparr>"])
       (simp only: events_simps, simp add: Drained_def Drain_def idle_poster_def)
qed

subsection \<open>Witnesses\<close>

definition nt_deps :: "world NotifyDeps" where
  "nt_deps = \<lparr>ndGatewayURL = ''http://g'', ndUpstream = ''slack'', ndTool = ''post'', ndCredentialFile = ''/t'', ndChannelFile = ''/c'',
     ndCallTimeout = 30 * second, ndBackoff = [2 * second], ndQueueSize = 1,
     ndSend = (\<lambda>out w. (Inr \<lparr>urStatus = 503, urHeader = [], urBody = ''no'', urCut = None\<rparr>, w)),
     ndBadURL = (\<lambda>u. False), ndReadFile = (\<lambda>f w. Some ''C1''), ndExpired = (\<lambda>s0 s. False), ndSleep = (\<lambda>t w. w),
     ndStopping = (\<lambda>w. False)\<rparr>"

definition nt_start :: "db \<Rightarrow> world poster" where
  "nt_start d = idle_poster \<lparr>wdb = d, wnow = 1, wuuid = (\<lambda>i. demo_uuid), wnext = 0, wfaults = []\<rparr>"

theorem a_fresh_filing_is_announced_once_witness:
  "\<exists>p' post. notify_FileApprovalRequest (pg_filer demo_filing) True nt_deps demo_filing (nt_start (empty_db\<lparr>credentials := [demo_cred]\<rparr>)) =
     (Inr True, p') \<and> psJobs p' = [post] \<and> psSent p' = []"
proof -
  let ?p = "nt_start (empty_db\<lparr>credentials := [demo_cred]\<rparr>)"
  have "pg_filer demo_filing (psStore ?p) = (Inr (demo_uuid, True), (psStore ?p)\<lparr>wdb := demo_pending, wnext := 1\<rparr>)"
    using demo_files by (simp add: pg_filer_def pg_write_def next_fault_def nt_start_def idle_poster_def)
  then obtain p' where r: "notify_FileApprovalRequest (pg_filer demo_filing) True nt_deps demo_filing ?p = (Inr True, p')"
    by (simp add: notify_FileApprovalRequest_def)
  from a_fresh_filing_is_announced_once [OF r] show ?thesis
    using r by (auto simp: nt_start_def idle_poster_def nt_deps_def)
qed

theorem a_post_is_repeated_only_after_a_refusal_witness:
  "\<exists>outs p'. send_post nt_deps \<lparr>poText = ''hi'', poThreadTS = []\<rparr> (nt_start empty_db) = (outs, p') \<and> length outs \<le> 2 \<and>
     outs ! 0 = PostRefused"
proof -
  obtain outs p' where r: "send_post nt_deps \<lparr>poText = ''hi'', poThreadTS = []\<rparr> (nt_start empty_db) = (outs, p')" by fastforce
  have o: "length outs = 2"
    using r by (auto simp: send_post_def nt_deps_def send_attempts.simps attempt_def readFile_def one_channel_def trim_space_def space_rune_def
        handshake_def post_call_def Let_def classifyResponse_def nd_maxBufferedResp_def go_defs split: prod.splits)
  from a_post_is_repeated_only_after_a_refusal [OF r] have "\<forall>i < length outs - 1. outs ! i = PostRefused" by blast
  then show ?thesis using r o by simp
qed

theorem a_refusal_of_the_server_is_retried_witness:
  "\<exists>resp g1. forward ((gw_deps no_policy)\<lparr>dSend := (\<lambda>out w. (Inr \<lparr>urStatus = 503, urHeader = [], urBody = ''no'', urCut = None\<rparr>, w))\<rparr>)
      (gw_request pay_body) gw_up pay_body (gw_start demo_approved) = (resp, g1) \<and> gwSent g1 \<noteq> [] \<and>
      classifyResponse (rpStatus (fst resp)) [] (rpBody (fst resp)) = PostRefused"
proof -
  let ?u = "\<lparr>urStatus = 503, urHeader = [], urBody = ''no'', urCut = None\<rparr>"
  let ?d = "(gw_deps no_policy)\<lparr>dSend := (\<lambda>out w. (Inr ?u, w))\<rparr>"
  obtain g1 where s: "gw_do ?d (gw_request pay_body) gw_up pay_body (gw_start demo_approved) = (Inr ?u, g1)"
    by (simp add: gw_do_def do_request_def gw_deps_def gw_request_def gw_up_def injectCredential_def clientFor_def
      send_outbound_def in_store_def copyRequestHeaders_def canonical_key_def header_byte_def withheld_def go_defs)
  have "\<not> is_event_stream ?u" by (simp add: is_event_stream_def header_get_def map_get_def go_defs canonical_key_def header_byte_def)
  from a_refusal_of_the_server_is_retried [OF s _ _ _ this] obtain resp out where
    "fst (fst (forward ?d (gw_request pay_body) gw_up pay_body (gw_start demo_approved))) = resp"
    "snd (forward ?d (gw_request pay_body) gw_up pay_body (gw_start demo_approved)) = g1" "gwSent g1 = gwSent (gw_start demo_approved) @ [out]"
    "classifyResponse (rpStatus resp) [] (rpBody resp) = PostRefused"
    by (auto simp: maxBufferedResp_def)
  then show ?thesis by (intro exI [of _ "fst (forward ?d (gw_request pay_body) gw_up pay_body (gw_start demo_approved))"] exI [of _ g1]) auto
qed

definition nt_busy :: "world poster" where
  "nt_busy = (nt_start empty_db)\<lparr>psHeld := Some \<lparr>poText = ''hi'', poThreadTS = []\<rparr>, psInflight := True\<rparr>"

lemma nt_run: "poster_run nt_deps ([Took \<lparr>poText = ''hi'', poThreadTS = []\<rparr>, Silent, Silent]) nt_busy"
proof -
  let ?post = "\<lparr>poText = ''hi'', poThreadTS = []\<rparr>" and ?p0 = "nt_start empty_db"
  have "Enqueue nt_deps ?post ?p0 = (True, ?p0\<lparr>psJobs := [?post]\<rparr>)" by (simp add: Enqueue_def nt_deps_def nt_start_def idle_poster_def)
  then have "poster_step nt_deps ?p0 (Took ?post) (?p0\<lparr>psJobs := [?post]\<rparr>)" using poster_step.enqueues by fastforce
  then have "poster_run nt_deps ([] @ [Took ?post]) (?p0\<lparr>psJobs := [?post]\<rparr>)"
    unfolding nt_start_def by (rule poster_run.goes_on [OF poster_run.starts])
  moreover have "poster_step nt_deps (?p0\<lparr>psJobs := [?post]\<rparr>) Silent (?p0\<lparr>psJobs := [?post]\<rparr>\<lparr>psJobs := [], psHeld := Some ?post\<rparr>)"
    by (rule poster_step.receives) (simp_all add: nt_start_def idle_poster_def)
  ultimately have "poster_run nt_deps (([] @ [Took ?post]) @ [Silent]) (?p0\<lparr>psJobs := [?post]\<rparr>\<lparr>psJobs := [], psHeld := Some ?post\<rparr>)"
    by (rule poster_run.goes_on)
  moreover have "poster_step nt_deps (?p0\<lparr>psJobs := [?post]\<rparr>\<lparr>psJobs := [], psHeld := Some ?post\<rparr>) Silent
      (?p0\<lparr>psJobs := [?post]\<rparr>\<lparr>psJobs := [], psHeld := Some ?post\<rparr>\<lparr>psInflight := True\<rparr>)"
    by (rule poster_step.marks) (simp_all add: nt_start_def idle_poster_def)
  ultimately have "poster_run nt_deps ((([] @ [Took ?post]) @ [Silent]) @ [Silent])
      (?p0\<lparr>psJobs := [?post]\<rparr>\<lparr>psJobs := [], psHeld := Some ?post\<rparr>\<lparr>psInflight := True\<rparr>)"
    by (rule poster_run.goes_on)
  then show ?thesis by (simp add: nt_busy_def nt_start_def idle_poster_def)
qed

theorem accepted_posts_go_out_in_order_witness:
  "\<exists>evs p msgs. poster_run nt_deps evs p \<and> taken evs = [\<lparr>poText = ''hi'', poThreadTS = []\<rparr>] \<and>
     sent_posts evs = [(\<lparr>poText = ''hi'', poThreadTS = []\<rparr>, msgs)] \<and> psSent p = msgs \<and> length (filter is_call msgs) \<le> 2"
proof -
  let ?post = "\<lparr>poText = ''hi'', poThreadTS = []\<rparr>"
  let ?before = "[Took ?post, Silent, Silent]"
  obtain outs p' where r: "send_post nt_deps ?post nt_busy = (outs, p')" by fastforce
  let ?ev = "SentPost ?post (drop (length (psSent nt_busy)) (psSent p'))" and ?p = "p'\<lparr>psHeld := None\<rparr>"
  have "poster_step nt_deps nt_busy ?ev ?p" by (rule poster_step.sends [OF _ _ r]) (simp_all add: nt_busy_def)
  from poster_run.goes_on [OF nt_run this] have run: "poster_run nt_deps (?before @ [?ev]) ?p" .
  have "0 \<le> ndQueueSize nt_deps" by (simp add: nt_deps_def)
  from accepted_posts_go_out_in_order [OF run this] show ?thesis
    using run by (intro exI [of _ "?before @ [?ev]"] exI [of _ ?p])
      (auto simp: sent_well_def nt_deps_def taken_def sent_posts_def List.map_filter_def)
qed

theorem a_drain_can_miss_a_post_witness:
  "\<exists>evs p. poster_run nt_deps evs p \<and> Drain p = 0 \<and> taken evs = [\<lparr>poText = ''hi'', poThreadTS = []\<rparr>] \<and> sent_posts evs = []"
proof -
  have "0 < ndQueueSize nt_deps" by (simp add: nt_deps_def)
  from a_drain_can_miss_a_post [OF this, of "\<lparr>poText = ''hi'', poThreadTS = []\<rparr>"] show ?thesis by blast
qed

end
