(* ===== verification/ConfigDecode.thy ===== *)
theory ConfigDecode
  imports Unmarshal Config
begin

text \<open>
  \<open>json.Decoder.Decode\<close> into the structs of \<^verbatim>\<open>config/config.go\<close> and \<^verbatim>\<open>config/policy.go\<close>: the first
  value of a text, and the table it holds. \<open>strict\<close> is \<open>DisallowUnknownFields\<close>: a member no field
  is named by is then an error, at any depth.
\<close>

subsection \<open>The first value of a text\<close>

definition first_value :: "string \<Rightarrow> json_error + (json \<times> lexeme list)" where
  "first_value body =
     (let ls = lex body in
      if ls = [] then Inl EOF
      else case parse_value (2 * length ls + 1) 0 ls of None \<Rightarrow> Inl Syntax | Some vr \<Rightarrow> Inr vr)"

lemma first_value_run:
  assumes "lex body = doc_lexemes v" "nesting v \<le> maxNestingDepth"
  shows "first_value body = Inr (v, [])"
proof -
  have "doc_lexemes v \<noteq> []" using doc_lexemes_head [of v] by auto
  then show ?thesis using parse_value_doc [of 0 v "2 * length (lex body) + 1" "[]"] assms by (simp add: first_value_def Let_def)
qed

text \<open>
  \<open>Decode\<close> over a \<open>MaxBytesReader\<close>: the value must end within the limit, and a scalar needs the
  byte after it.
\<close>

fun is_composite :: "json \<Rightarrow> bool" where
  "is_composite (JArr vs) = True"
| "is_composite (JObj ms) = True"
| "is_composite v = False"

definition bounded_value :: "nat \<Rightarrow> string \<Rightarrow> bool \<Rightarrow> json_error + json" where
  "bounded_value limit body broken =
     (let seen = take limit body; whole = (\<not> broken \<and> length body \<le> limit) in
      case first_value seen of
        Inl e \<Rightarrow> Inl (if whole then e else Syntax)
      | Inr (v, rest) \<Rightarrow>
          if whole \<or> is_composite v \<or> rest \<noteq> [] \<or> json_space (last seen) then Inr v else Inl Syntax)"

subsection \<open>Targets\<close>

definition set_members ::
  "bool \<Rightarrow> (string \<times> (json \<Rightarrow> 'a \<times> bool \<Rightarrow> 'a \<times> bool)) list \<Rightarrow> string \<times> json \<Rightarrow> 'a \<times> bool \<Rightarrow> 'a \<times> bool" where
  "set_members strict fs kv t =
     (case List.find (\<lambda>f. names_field (fst f) (fst kv)) fs of
        None \<Rightarrow> (fst t, snd t \<or> strict)
      | Some f \<Rightarrow> snd f (snd kv) t)"

text \<open>A map: every member is decoded into a fresh element; \<open>null\<close> empties it.\<close>

definition set_map :: "(json \<Rightarrow> 'a \<times> bool \<Rightarrow> 'a \<times> bool) \<Rightarrow> 'a \<Rightarrow> json \<Rightarrow> 'a gomap \<times> bool \<Rightarrow> 'a gomap \<times> bool" where
  "set_map setter zero v t =
     (case v of
        JObj ms \<Rightarrow> fold (\<lambda>(k, x) (m, e). case setter x (zero, e) of (y, e1) \<Rightarrow> (map_set k y m, e1)) ms t
      | JNull \<Rightarrow> ([], snd t)
      | _ \<Rightarrow> (fst t, True))"

definition set_int32 :: "json \<Rightarrow> int \<times> bool \<Rightarrow> int \<times> bool" where
  "set_int32 v t =
     (case set_int64 v t of
        (i, e) \<Rightarrow> if - 2147483648 \<le> i \<and> i \<le> 2147483647 then (i, e) else (fst t, True))"

definition set_raw :: "json \<Rightarrow> json option \<times> bool \<Rightarrow> json option \<times> bool" where
  "set_raw v t = (Some v, snd t)"

text \<open>\<open>Literal.UnmarshalJSON\<close>.\<close>

definition set_literal :: "json \<Rightarrow> Literal \<times> bool \<Rightarrow> Literal \<times> bool" where
  "set_literal v t =
     (case v of
        JStr s \<Rightarrow> ((fst t)\<lparr>LitStr := Some s\<rparr>, snd t)
      | JNum n \<Rightarrow> (case parse_int n of Some i \<Rightarrow> ((fst t)\<lparr>LitInt := Some i\<rparr>, snd t) | None \<Rightarrow> (fst t, True))
      | _ \<Rightarrow> (fst t, True))"

definition zero_literal :: Literal where "zero_literal = \<lparr>LitStr = None, LitInt = None\<rparr>"

text \<open>A rule is decoded once, from zero: its list is a slice while that lasts.\<close>

definition set_constraint :: "bool \<Rightarrow> json \<Rightarrow> Constraint \<times> bool \<Rightarrow> Constraint \<times> bool" where
  "set_constraint strict v t =
     (case set_struct (set_members strict
        [(''field'', set_field set_string (\<lambda>r. Field (fst r)) (\<lambda>x r. (fst r\<lparr>Field := x\<rparr>, snd r))),
         (''op'', set_field set_string (\<lambda>r. Op (fst r)) (\<lambda>x r. (fst r\<lparr>Op := x\<rparr>, snd r))),
         (''value'', set_field (set_pointer set_literal zero_literal) (\<lambda>r. Value (fst r)) (\<lambda>x r. (fst r\<lparr>Value := x\<rparr>, snd r))),
         (''values'', set_field (set_slice set_literal zero_literal) snd (\<lambda>x r. (fst r, x)))])
        v ((fst t, (Values (fst t), length (Values (fst t)))), snd t) of
        ((c, s), e) \<Rightarrow> (c\<lparr>Values := slice_elems s\<rparr>, e))"

definition set_list :: "(json \<Rightarrow> 'a \<times> bool \<Rightarrow> 'a \<times> bool) \<Rightarrow> 'a \<Rightarrow> json \<Rightarrow> 'a list \<times> bool \<Rightarrow> 'a list \<times> bool" where
  "set_list setter zero v t = (case set_slice setter zero v ((fst t, length (fst t)), snd t) of (s, e) \<Rightarrow> (slice_elems s, e))"

definition set_tool_policy :: "bool \<Rightarrow> json \<Rightarrow> ToolPolicy \<times> bool \<Rightarrow> ToolPolicy \<times> bool" where
  "set_tool_policy strict v t =
     (case set_struct (set_members strict [(''policy_fields'', set_pointer (set_slice set_string []) ([], 0))])
        v (map_option (\<lambda>fs. (fs, length fs)) (PolicyFields (fst t)), snd t) of
        (p, e) \<Rightarrow> ((fst t)\<lparr>PolicyFields := map_option slice_elems p\<rparr>, e))"

definition set_price :: "bool \<Rightarrow> json \<Rightarrow> price \<times> bool \<Rightarrow> price \<times> bool" where
  "set_price strict = set_struct (set_members strict
     [(''in_cents_per_1m'', set_field set_int64 InCentsPer1M (\<lambda>x r. r\<lparr>InCentsPer1M := x\<rparr>)),
      (''out_cents_per_1m'', set_field set_int64 OutCentsPer1M (\<lambda>x r. r\<lparr>OutCentsPer1M := x\<rparr>))])"

definition set_upstream :: "bool \<Rightarrow> json \<Rightarrow> Upstream \<times> bool \<Rightarrow> Upstream \<times> bool" where
  "set_upstream strict = set_struct (set_members strict
     [(''base_url'', set_field set_string upBaseURL (\<lambda>x r. r\<lparr>upBaseURL := x\<rparr>)),
      (''path'', set_field set_string upPath (\<lambda>x r. r\<lparr>upPath := x\<rparr>)),
      (''classification'', set_field set_string upClassification (\<lambda>x r. r\<lparr>upClassification := x\<rparr>)),
      (''credential_file'', set_field set_string upCredentialFile (\<lambda>x r. r\<lparr>upCredentialFile := x\<rparr>)),
      (''credential_header'', set_field set_string upCredentialHeader (\<lambda>x r. r\<lparr>upCredentialHeader := x\<rparr>)),
      (''extra_headers'', set_field (set_map set_string []) upExtraHeaders (\<lambda>x r. r\<lparr>upExtraHeaders := x\<rparr>)),
      (''prices'', set_field (set_map (set_price strict) \<lparr>InCentsPer1M = 0, OutCentsPer1M = 0\<rparr>) upPrices (\<lambda>x r. r\<lparr>upPrices := x\<rparr>)),
      (''internet'', set_field set_bool upInternet (\<lambda>x r. r\<lparr>upInternet := x\<rparr>)),
      (''ca_file'', set_field set_string upCAFile (\<lambda>x r. r\<lparr>upCAFile := x\<rparr>))])"

definition zero_upstream :: Upstream where
  "zero_upstream = \<lparr>upBaseURL = [], upPath = [], upClassification = [], upCredentialFile = [], upCredentialHeader = [],
     upExtraHeaders = [], upPrices = [], upInternet = False, upCAFile = []\<rparr>"

definition tool_upstream_fields :: "bool \<Rightarrow> (string \<times> (json \<Rightarrow> ToolUpstream \<times> bool \<Rightarrow> ToolUpstream \<times> bool)) list" where
  "tool_upstream_fields strict =
     [(''url'', set_field set_string tuURL (\<lambda>x r. r\<lparr>tuURL := x\<rparr>)),
      (''credential_file'', set_field set_string tuCredentialFile (\<lambda>x r. r\<lparr>tuCredentialFile := x\<rparr>)),
      (''credential_header'', set_field set_string tuCredentialHeader (\<lambda>x r. r\<lparr>tuCredentialHeader := x\<rparr>)),
      (''internet'', set_field set_bool tuInternet (\<lambda>x r. r\<lparr>tuInternet := x\<rparr>)),
      (''ca_file'', set_field set_string tuCAFile (\<lambda>x r. r\<lparr>tuCAFile := x\<rparr>)),
      (''extra_headers'', set_field (set_map set_string []) tuExtraHeaders (\<lambda>x r. r\<lparr>tuExtraHeaders := x\<rparr>)),
      (''tools'', set_field (set_map (set_tool_policy strict) \<lparr>PolicyFields = None\<rparr>) tuTools (\<lambda>x r. r\<lparr>tuTools := x\<rparr>))]"

definition set_tool_upstream :: "bool \<Rightarrow> json \<Rightarrow> ToolUpstream \<times> bool \<Rightarrow> ToolUpstream \<times> bool" where
  "set_tool_upstream strict = set_struct (set_members strict (tool_upstream_fields strict))"

definition zero_tool_upstream :: ToolUpstream where
  "zero_tool_upstream = \<lparr>tuURL = [], tuCredentialFile = [], tuCredentialHeader = [], tuInternet = False, tuCAFile = [],
     tuExtraHeaders = [], tuTools = []\<rparr>"

definition set_hook :: "bool \<Rightarrow> json \<Rightarrow> InboundHook \<times> bool \<Rightarrow> InboundHook \<times> bool" where
  "set_hook strict = set_struct (set_members strict
     [(''credential'', set_field set_string ihCredential (\<lambda>x r. r\<lparr>ihCredential := x\<rparr>)),
      (''auth'', set_field set_string ihAuth (\<lambda>x r. r\<lparr>ihAuth := x\<rparr>)),
      (''signing_secret_file'', set_field set_string ihSigningSecretFile (\<lambda>x r. r\<lparr>ihSigningSecretFile := x\<rparr>)),
      (''agent_namespace'', set_field set_string ihAgentNamespace (\<lambda>x r. r\<lparr>ihAgentNamespace := x\<rparr>)),
      (''agent'', set_field set_string ihAgent (\<lambda>x r. r\<lparr>ihAgent := x\<rparr>)),
      (''slack_channels_file'', set_field set_string ihSlackChannelsFile (\<lambda>x r. r\<lparr>ihSlackChannelsFile := x\<rparr>)),
      (''slack_approvers_file'', set_field set_string ihSlackApproversFile (\<lambda>x r. r\<lparr>ihSlackApproversFile := x\<rparr>)),
      (''slack_default_uses'', set_field set_int64 ihSlackDefaultUses (\<lambda>x r. r\<lparr>ihSlackDefaultUses := x\<rparr>)),
      (''slack_default_ttl'', set_field set_string ihSlackDefaultTTL (\<lambda>x r. r\<lparr>ihSlackDefaultTTL := x\<rparr>)),
      (''budget_credential'', set_field set_string ihBudgetCredential (\<lambda>x r. r\<lparr>ihBudgetCredential := x\<rparr>)),
      (''tool_credential'', set_field set_string ihToolCredential (\<lambda>x r. r\<lparr>ihToolCredential := x\<rparr>)),
      (''max_body_bytes'', set_field set_int64 ihMaxBodyBytes (\<lambda>x r. r\<lparr>ihMaxBodyBytes := x\<rparr>)),
      (''rate_per_minute'', set_field set_int64 ihRatePerMinute (\<lambda>x r. r\<lparr>ihRatePerMinute := x\<rparr>)),
      (''burst'', set_field set_int64 ihBurst (\<lambda>x r. r\<lparr>ihBurst := x\<rparr>))])"

definition zero_hook :: InboundHook where
  "zero_hook = \<lparr>ihCredential = [], ihAuth = [], ihSigningSecretFile = [], ihAgentNamespace = [], ihAgent = [],
     ihSlackChannelsFile = [], ihSlackApproversFile = [], ihSlackDefaultUses = 0, ihSlackDefaultTTL = [],
     ihBudgetCredential = [], ihToolCredential = [], ihMaxBodyBytes = 0, ihRatePerMinute = 0, ihBurst = 0\<rparr>"

definition set_notifier :: "bool \<Rightarrow> json \<Rightarrow> ApprovalNotifier \<times> bool \<Rightarrow> ApprovalNotifier \<times> bool" where
  "set_notifier strict = set_struct (set_members strict
     [(''tool_upstream'', set_field set_string anToolUpstream (\<lambda>x r. r\<lparr>anToolUpstream := x\<rparr>)),
      (''tool'', set_field set_string anTool (\<lambda>x r. r\<lparr>anTool := x\<rparr>)),
      (''credential_file'', set_field set_string anCredentialFile (\<lambda>x r. r\<lparr>anCredentialFile := x\<rparr>)),
      (''channel_file'', set_field set_string anChannelFile (\<lambda>x r. r\<lparr>anChannelFile := x\<rparr>))])"

definition zero_notifier :: ApprovalNotifier where
  "zero_notifier = \<lparr>anToolUpstream = [], anTool = [], anCredentialFile = [], anChannelFile = []\<rparr>"

definition config_fields :: "(string \<times> (json \<Rightarrow> Config \<times> bool \<Rightarrow> Config \<times> bool)) list" where
  "config_fields =
     [(''upstreams'', set_field (set_map (set_upstream True) zero_upstream) cfUpstreams (\<lambda>x r. r\<lparr>cfUpstreams := x\<rparr>)),
      (''tool_upstreams'', set_field (set_map (set_tool_upstream True) zero_tool_upstream) cfToolUpstreams (\<lambda>x r. r\<lparr>cfToolUpstreams := x\<rparr>)),
      (''inbound_hooks'', set_field (set_map (set_hook True) zero_hook) cfInboundHooks (\<lambda>x r. r\<lparr>cfInboundHooks := x\<rparr>)),
      (''approval_notifier'', set_field (set_pointer (set_notifier True) zero_notifier) cfApprovalNotifier (\<lambda>x r. r\<lparr>cfApprovalNotifier := x\<rparr>)),
      (''standing_constraints'', set_field (set_map (set_map (set_list (set_constraint True)
           \<lparr>Field = [], Op = [], Value = None, Values = []\<rparr>) []) [])
         cfStandingConstraints (\<lambda>x r. r\<lparr>cfStandingConstraints := x\<rparr>))]"

definition zero_config :: Config where
  "zero_config = \<lparr>cfUpstreams = [], cfToolUpstreams = [], cfInboundHooks = [], cfApprovalNotifier = None,
     cfStandingConstraints = [], cfPolicy = \<lparr>declared = [], constraints = []\<rparr>\<rparr>"

text \<open>What \<open>Parse\<close> decodes: the first value of the text, strictly.\<close>

definition config_of :: "json \<Rightarrow> Config option" where
  "config_of v =
     (case set_struct (set_members True config_fields) v (zero_config, False) of (c, bad) \<Rightarrow> if bad then None else Some c)"

definition decode_config :: "string \<Rightarrow> Config option" where
  "decode_config raw = (case first_value raw of Inl e \<Rightarrow> None | Inr (v, rest) \<Rightarrow> config_of v)"

end
