(* ===== verification/Overlay.thy ===== *)
theory Overlay
  imports ConfigDecode Canon
begin

text \<open>
  Component \<^verbatim>\<open>plane/internal/config/overlay.go\<close>: the operator's fragments, the walk that refuses a
  duplicated key, the custody fields an overlay may not set, and the merge. A \<open>RawMessage\<close> is the
  document it holds: its members in the order written, duplicates included. Where a map is ranged
  over, the first error in key order stands for whichever Go meets. The recursion of the walk is
  bounded by a fuel of two units per lexeme.
\<close>

definition mergeableBlocks :: "string list" where
  "mergeableBlocks = [''tool_upstreams'', ''standing_constraints'']"

definition custodyFields :: "string list" where
  "custodyFields = [''credential_file'', ''credential_header'', ''internet'', ''ca_file'', ''extra_headers'']"

record Fragment =
  fgName :: string
  fgRaw :: string

definition FragmentName :: "string \<Rightarrow> bool" where
  "FragmentName name \<longleftrightarrow> \<not> has_prefix name ''.'' \<and> has_suffix name ''.json''"

text \<open>A directory entry: its name, whether it is a directory, and its contents unless reading it fails.\<close>

record dir_entry =
  deName :: string
  deIsDir :: bool
  deRaw :: "string option"

datatype overlay_read_error = ReadBase | ReadDir | ReadFragment string

fun read_fragments :: "dir_entry list \<Rightarrow> overlay_read_error + Fragment list" where
  "read_fragments [] = Inr []"
| "read_fragments (e # es) =
     (if deIsDir e \<or> \<not> FragmentName (deName e) then read_fragments es
      else case deRaw e of
             None \<Rightarrow> Inl (ReadFragment (deName e))
           | Some raw \<Rightarrow>
               (case read_fragments es of Inl x \<Rightarrow> Inl x | Inr fs \<Rightarrow> Inr (\<lparr>fgName = deName e, fgRaw = raw\<rparr> # fs)))"

datatype listing = NotExist | ListFailed | Entries "dir_entry list"

definition Read :: "string option \<Rightarrow> string \<Rightarrow> listing \<Rightarrow> overlay_read_error + (string \<times> Fragment list)" where
  "Read basefile dir entries =
     (case basefile of
        None \<Rightarrow> Inl ReadBase
      | Some raw \<Rightarrow>
          if dir = [] then Inr (raw, [])
          else (case entries of
                  NotExist \<Rightarrow> Inr (raw, [])
                | ListFailed \<Rightarrow> Inl ReadDir
                | Entries es \<Rightarrow>
                    (case read_fragments es of Inl e \<Rightarrow> Inl e | Inr fs \<Rightarrow> Inr (raw, sort_key fgName fs))))"

subsection \<open>Duplicate keys\<close>

definition maxConfigDepth :: nat where "maxConfigDepth = 32"

datatype walk_error = WkDeep | WkToken json_error | WkKeyNotString | WkDuplicate string | WkTrailing | WkFuel

text \<open>The walk over one value, and the loops over the members of an object and the elements of an array.\<close>

fun walkDuplicates :: "nat \<Rightarrow> decoder \<Rightarrow> nat \<Rightarrow> walk_error + decoder"
and walk_members :: "nat \<Rightarrow> decoder \<Rightarrow> nat \<Rightarrow> string list \<Rightarrow> walk_error + decoder"
and walk_elems :: "nat \<Rightarrow> decoder \<Rightarrow> nat \<Rightarrow> walk_error + decoder"
where
  "walkDuplicates 0 d depth = Inl WkFuel"
| "walkDuplicates (Suc f) d depth =
     (if depth > maxConfigDepth then Inl WkDeep
      else case dec_token d of
             (Inl e, d1) \<Rightarrow> Inl (WkToken e)
           | (Inr (TScalar v), d1) \<Rightarrow> Inr d1
           | (Inr (TDelim l), d1) \<Rightarrow>
               (if l = LBrace then walk_members f d1 depth []
                else if l = LBrack then walk_elems f d1 depth
                else (case dec_token d1 of (Inl e, d2) \<Rightarrow> Inl (WkToken e) | (Inr t, d2) \<Rightarrow> Inr d2)))"
| "walk_members 0 d depth seen = Inl WkFuel"
| "walk_members (Suc f) d depth seen =
     (if dec_more d then
        (case dec_token d of
           (Inl e, d1) \<Rightarrow> Inl (WkToken e)
         | (Inr (TScalar (JStr key)), d1) \<Rightarrow>
             (if key \<in> set seen then Inl (WkDuplicate key)
              else case walkDuplicates f d1 (depth + 1) of
                     Inl e \<Rightarrow> Inl e
                   | Inr d2 \<Rightarrow> walk_members f d2 depth (key # seen))
         | (Inr t, d1) \<Rightarrow> Inl WkKeyNotString)
      else (case dec_token d of (Inl e, d1) \<Rightarrow> Inl (WkToken e) | (Inr t, d1) \<Rightarrow> Inr d1))"
| "walk_elems 0 d depth = Inl WkFuel"
| "walk_elems (Suc f) d depth =
     (if dec_more d then
        (case walkDuplicates f d (depth + 1) of Inl e \<Rightarrow> Inl e | Inr d2 \<Rightarrow> walk_elems f d2 depth)
      else (case dec_token d of (Inl e, d1) \<Rightarrow> Inl (WkToken e) | (Inr t, d1) \<Rightarrow> Inr d1))"

definition refuseDuplicateKeys :: "string \<Rightarrow> walk_error option" where
  "refuseDuplicateKeys raw =
     (let d = new_decoder raw in
      case walkDuplicates (2 * length (lexemes d) + 1) d 0 of
        Inl e \<Rightarrow> Some e
      | Inr d1 \<Rightarrow> (case dec_token d1 of (Inl EOF, _) \<Rightarrow> None | _ \<Rightarrow> Some WkTrailing))"

subsection \<open>The merge\<close>

definition firstBytes :: "string \<Rightarrow> string" where
  "firstBytes raw = (if length raw > 40 then take 40 raw @ encode_rune 8230 else raw)"

text \<open>A map of raw values: the last member of a name counts.\<close>

definition raw_map :: "(string \<times> json) list \<Rightarrow> json gomap" where
  "raw_map ms = fold (\<lambda>(k, v) m. map_set k v m) ms []"

text \<open>\<open>json.Unmarshal\<close> into a nil \<open>map[string]json.RawMessage\<close>: \<open>null\<close> leaves it nil.\<close>

definition unmarshal_raw_map :: "json \<Rightarrow> json gomap option option" where
  "unmarshal_raw_map v = (case v of JObj ms \<Rightarrow> Some (Some (raw_map ms)) | JNull \<Rightarrow> Some None | _ \<Rightarrow> None)"

definition nil_map :: "json gomap option \<Rightarrow> json gomap" where
  "nil_map m = (case m of None \<Rightarrow> [] | Some x \<Rightarrow> x)"

definition namesIn :: "json option \<Rightarrow> string + json gomap" where
  "namesIn raw =
     (case raw of
        None \<Rightarrow> Inr []
      | Some JNull \<Rightarrow> Inr []
      | Some (JObj ms) \<Rightarrow> Inr (raw_map ms)
      | Some v \<Rightarrow> Inl (firstBytes (render v)))"

datatype merge_error =
    MgWalk string walk_error
  | MgNotObject string
  | MgBlock string string string
  | MgNotMergeable string string
  | MgRedefined string string string string
  | MgCustody string string string
  | MgEntry string string string
  | MgEntryDecode string string
  | MgNilMap

definition mergeable :: "string \<Rightarrow> bool" where
  "mergeable key \<longleftrightarrow> list_ex (\<lambda>b. key = b) mergeableBlocks"

text \<open>\<open>strings.EqualFold\<close> with a custody field, whose letters are ASCII.\<close>

definition custody_key :: "string \<Rightarrow> bool" where
  "custody_key key \<longleftrightarrow> list_ex (\<lambda>field. names_field field key) custodyFields"

definition refuseCustodyFields :: "string \<Rightarrow> string \<Rightarrow> json \<Rightarrow> merge_error option" where
  "refuseCustodyFields fragment upstream raw =
     (case unmarshal_raw_map raw of
        None \<Rightarrow> Some (MgEntry fragment upstream (firstBytes (render raw)))
      | Some keys \<Rightarrow>
          (case List.find custody_key (map fst (nil_map keys)) of
             Some key \<Rightarrow> Some (MgCustody fragment upstream key)
           | None \<Rightarrow>
               (case set_tool_upstream False raw (zero_tool_upstream, False) of
                  (entry, bad) \<Rightarrow>
                    if bad then Some (MgEntryDecode fragment upstream)
                    else if tuCredentialFile entry \<noteq> [] then Some (MgCustody fragment upstream ''credential_file'')
                    else if tuCredentialHeader entry \<noteq> [] then Some (MgCustody fragment upstream ''credential_header'')
                    else if tuInternet entry then Some (MgCustody fragment upstream ''internet'')
                    else if tuCAFile entry \<noteq> [] then Some (MgCustody fragment upstream ''ca_file'')
                    else None)))"

text \<open>The merged table, nil or not, and where each name of each block came from.\<close>

record merging =
  mgTable :: "json gomap option"
  mgOrigin :: "string gomap gomap"

definition origin_of :: "string \<Rightarrow> merging \<Rightarrow> string gomap" where
  "origin_of block m = (case map_get (mgOrigin m) block of None \<Rightarrow> [] | Some names \<Rightarrow> names)"

definition add_entry :: "string \<Rightarrow> string \<Rightarrow> string \<times> json \<Rightarrow> json gomap \<times> string gomap \<Rightarrow> merge_error + (json gomap \<times> string gomap)" where
  "add_entry fragment block entry acc =
     (case entry of (name, raw) \<Rightarrow> case acc of (into, origin) \<Rightarrow>
        case (if block = ''tool_upstreams'' then refuseCustodyFields fragment name raw else None) of
          Some e \<Rightarrow> Inl e
        | None \<Rightarrow>
            (case map_get origin name of
               Some src \<Rightarrow> Inl (MgRedefined fragment (trim_suffix block ''s'') name src)
             | None \<Rightarrow> Inr (map_set name raw into, map_set name (''overlay '' @ fragment) origin)))"

definition merge_block :: "string \<Rightarrow> json gomap \<Rightarrow> string \<Rightarrow> merging \<Rightarrow> merge_error + merging" where
  "merge_block fragment frag block m =
     (case namesIn (map_get frag block) of
        Inl got \<Rightarrow> Inl (MgBlock fragment block got)
      | Inr add \<Rightarrow>
          if add = [] then Inr m
          else (case namesIn (map_get (nil_map (mgTable m)) block) of
                  Inl got \<Rightarrow> Inl (MgBlock [] block got)
                | Inr into \<Rightarrow>
                    (case foldM (add_entry fragment block) add (into, origin_of block m) of
                       Inl e \<Rightarrow> Inl e
                     | Inr (into', origin) \<Rightarrow>
                         (case mgTable m of
                            None \<Rightarrow> Inl MgNilMap
                          | Some t \<Rightarrow> Inr \<lparr>mgTable = Some (map_set block (JObj into') t),
                              mgOrigin = map_set block origin (mgOrigin m)\<rparr>))))"

definition merge_fragment :: "Fragment \<Rightarrow> merging \<Rightarrow> merge_error + merging" where
  "merge_fragment f m =
     (case refuseDuplicateKeys (fgRaw f) of
        Some e \<Rightarrow> Inl (MgWalk (''overlay '' @ fgName f) e)
      | None \<Rightarrow>
          (case map_option unmarshal_raw_map (parse_json (fgRaw f)) of
             Some (Some frag) \<Rightarrow>
               (case List.find (\<lambda>k. \<not> mergeable k) (map fst (nil_map frag)) of
                  Some key \<Rightarrow> Inl (MgNotMergeable (fgName f) key)
                | None \<Rightarrow> foldM (merge_block (fgName f) (nil_map frag)) mergeableBlocks m)
           | _ \<Rightarrow> Inl (MgNotObject (''overlay '' @ fgName f))))"

definition base_block :: "json gomap \<Rightarrow> string \<Rightarrow> string gomap gomap \<Rightarrow> merge_error + string gomap gomap" where
  "base_block table block origin =
     (case namesIn (map_get table block) of
        Inl got \<Rightarrow> Inl (MgBlock ''base table'' block got)
      | Inr names \<Rightarrow>
          Inr (map_set block (fold (\<lambda>name known. map_set name ''the committed table'' known) (map fst names) []) origin))"

text \<open>\<open>marshalSorted\<close>: the document of the bytes; a map of the model is sorted by key.\<close>

definition marshalSorted :: "json gomap \<Rightarrow> json" where
  "marshalSorted m = JObj m"

definition Merge :: "string \<Rightarrow> Fragment list \<Rightarrow> merge_error + json" where
  "Merge base frags =
     (case refuseDuplicateKeys base of
        Some e \<Rightarrow> Inl (MgWalk ''config'' e)
      | None \<Rightarrow>
          (case map_option unmarshal_raw_map (parse_json base) of
             Some (Some table) \<Rightarrow>
               (case foldM (base_block (nil_map table)) mergeableBlocks [] of
                  Inl e \<Rightarrow> Inl e
                | Inr origin \<Rightarrow>
                    (case foldM merge_fragment frags \<lparr>mgTable = table, mgOrigin = origin\<rparr> of
                       Inl e \<Rightarrow> Inl e
                     | Inr m \<Rightarrow> Inr (marshalSorted (nil_map (mgTable m)))))
           | _ \<Rightarrow> Inl (MgNotObject ''config'')))"

datatype load_error = LdRead overlay_read_error | LdMerge merge_error | LdParse config_error

text \<open>The bytes \<open>Parse\<close> reads are those of the merged document, up to white space.\<close>

definition LoadDir ::
  "(string \<Rightarrow> URL option) \<Rightarrow> (string \<Rightarrow> Addr option) \<Rightarrow> string option \<Rightarrow> string \<Rightarrow> listing \<Rightarrow> load_error + Config" where
  "LoadDir parse_url parse_addr basefile dir entries =
     (case Read basefile dir entries of
        Inl e \<Rightarrow> Inl (LdRead e)
      | Inr (base, frags) \<Rightarrow>
          (case Merge base frags of
             Inl e \<Rightarrow> Inl (LdMerge e)
           | Inr merged \<Rightarrow>
               (case Parse decode_config parse_url parse_addr (render merged) of
                  Inl e \<Rightarrow> Inl (LdParse e)
                | Inr c \<Rightarrow> Inr c)))"

end
