(* ===== verification/OverlayFlow.thy ===== *)
theory OverlayFlow
  imports Overlay Digest
begin

text \<open>
  Lemmas on the overlay: the walk over a text accepts exactly the documents without a duplicated
  key within the depth limit; what a merge keeps of the base and of the fragments; what the
  decoder makes of an entry without custody fields.
\<close>

subsection \<open>The walk\<close>

lemma walk_step:
  assumes "walkDuplicates (Suc f) d depth = r" "\<not> depth > maxConfigDepth"
  obtains e d1 where "dec_token d = (Inl e, d1)" "r = Inl (WkToken e)"
  | v d1 where "dec_token d = (Inr (TScalar v), d1)" "r = Inr d1"
  | d1 where "dec_token d = (Inr (TDelim LBrace), d1)" "r = walk_members f d1 depth []"
  | d1 where "dec_token d = (Inr (TDelim LBrack), d1)" "r = walk_elems f d1 depth"
  | l d1 where "dec_token d = (Inr (TDelim l), d1)" "l \<noteq> LBrace" "l \<noteq> LBrack"
      "r = (case dec_token d1 of (Inl e, d2) \<Rightarrow> Inl (WkToken e) | (Inr t, d2) \<Rightarrow> Inr d2)"
proof -
  obtain t d1 where t: "dec_token d = (t, d1)" by fastforce
  show thesis using assms t that by (cases t; cases "projr t") (auto split: if_splits)
qed

lemma walk_members_step:
  assumes "walk_members (Suc f) d depth seen = r"
  obtains e d1 where "dec_token d = (Inl e, d1)" "r = Inl (WkToken e)"
  | k where "r = Inl (WkDuplicate k)"
  | k d1 e where "dec_more d" "dec_token d = (Inr (TScalar (JStr k)), d1)" "walkDuplicates f d1 (Suc depth) = Inl e" "r = Inl e"
  | k d1 d2 where "dec_more d" "dec_token d = (Inr (TScalar (JStr k)), d1)" "k \<notin> set seen"
      "walkDuplicates f d1 (Suc depth) = Inr d2" "r = walk_members f d2 depth (k # seen)"
  | "r = Inl WkKeyNotString"
  | t d1 where "\<not> dec_more d" "dec_token d = (Inr t, d1)" "r = Inr d1"
proof -
  obtain t d1 where t: "dec_token d = (t, d1)" by fastforce
  show thesis
  proof (cases "dec_more d")
    case False
    then show thesis using assms t that by (cases t) auto
  next
    case True
    show thesis
    proof (cases "\<exists>k. t = Inr (TScalar (JStr k))")
      case T: True
      then obtain k where k: "t = Inr (TScalar (JStr k))" by blast
      then show thesis using assms t True that(2-4)
        by (cases "k \<in> set seen"; cases "walkDuplicates f d1 (Suc depth)") auto
    next
      case F: False
      then have "(\<exists>e. t = Inl e \<and> r = Inl (WkToken e)) \<or> r = Inl WkKeyNotString"
        using assms t True by (auto split: sum.splits tok.splits json.splits)
      then show thesis using that(1,5) t by blast
    qed
  qed
qed

lemma walk_elems_step:
  assumes "walk_elems (Suc f) d depth = r"
  obtains e d1 where "dec_token d = (Inl e, d1)" "r = Inl (WkToken e)"
  | e where "dec_more d" "walkDuplicates f d (Suc depth) = Inl e" "r = Inl e"
  | d2 where "dec_more d" "walkDuplicates f d (Suc depth) = Inr d2" "r = walk_elems f d2 depth"
  | t d1 where "\<not> dec_more d" "dec_token d = (Inr t, d1)" "r = Inr d1"
proof -
  obtain t d1 where t: "dec_token d = (t, d1)" by fastforce
  show thesis using assms t that by (cases "dec_more d"; cases t; cases "walkDuplicates f d (Suc depth)") auto
qed

lemma walk_bound: "walkDuplicates (Suc f) d depth = Inr d' \<Longrightarrow> \<not> depth > maxConfigDepth"
  by (auto split: if_splits)

lemma walk_shorter:
  "walkDuplicates f d depth = Inr d' \<Longrightarrow> length (lexemes d') < length (lexemes d)"
  "walk_members f d depth seen = Inr d' \<Longrightarrow> length (lexemes d') < length (lexemes d)"
  "walk_elems f d depth = Inr d' \<Longrightarrow> length (lexemes d') < length (lexemes d)"
proof (induction f arbitrary: d depth seen d')
  case (Suc f)
  note [simp del] = walkDuplicates.simps walk_members.simps walk_elems.simps
  {
    case 1
    from walk_step [OF 1 walk_bound [OF 1]] show ?case
    proof cases
      case (3 d1)
      then show ?thesis using dec_token_shorter [OF 3(1)] Suc.IH(2) [of d1 depth "[]" d'] by simp
    next
      case (4 d1)
      then show ?thesis using dec_token_shorter [OF 4(1)] Suc.IH(3) [of d1 depth d'] by simp
    next
      case (5 l d1)
      then show ?thesis using dec_token_shorter [OF 5(1)] dec_token_shorter [of d1]
        by (cases "dec_token d1"; cases "fst (dec_token d1)") fastforce+
    qed (auto dest: dec_token_shorter)
  next
    case 2
    from walk_members_step [OF 2] show ?case
    proof cases
      case (4 k d1 d2)
      then show ?thesis using dec_token_shorter [OF 4(2)] Suc.IH(1) [OF 4(4)] Suc.IH(2) [of d2 depth "k # seen" d'] by simp
    qed (auto dest: dec_token_shorter)
  next
    case 3
    from walk_elems_step [OF 3] show ?case
    proof cases
      case (3 d2)
      then show ?thesis using Suc.IH(1) [OF 3(2)] Suc.IH(3) [of d2 depth d'] by simp
    qed (auto dest: dec_token_shorter)
  }
qed simp_all

lemma walk_fuel:
  "2 * length (lexemes d) + 1 \<le> f \<Longrightarrow> walkDuplicates f d depth \<noteq> Inl WkFuel"
  "2 * length (lexemes d) + 2 \<le> f \<Longrightarrow> walk_members f d depth seen \<noteq> Inl WkFuel"
  "2 * length (lexemes d) + 2 \<le> f \<Longrightarrow> walk_elems f d depth \<noteq> Inl WkFuel"
proof (induction f arbitrary: d depth seen)
  case (Suc f)
  note [simp del] = walkDuplicates.simps walk_members.simps walk_elems.simps
  {
    case 1
    show ?case
    proof (cases "depth > maxConfigDepth")
      case True
      then show ?thesis by (simp add: walkDuplicates.simps)
    next
      case False
      from walk_step [OF refl False, where f = f and d = d] show ?thesis
      proof cases
        case (3 d1)
        then show ?thesis using Suc.IH(2) [of d1 depth "[]"] dec_token_shorter [OF 3(1)] 1 by simp
      next
        case (4 d1)
        then show ?thesis using Suc.IH(3) [of d1 depth] dec_token_shorter [OF 4(1)] 1 by simp
      qed (auto split: prod.splits sum.splits)
    qed
  next
    case 2
    from walk_members_step [OF refl, where f = f and d = d and depth = depth and seen = seen] show ?case
    proof cases
      case (3 k d1 e)
      then show ?thesis using Suc.IH(1) [of d1 "Suc depth"] dec_token_shorter [OF 3(2)] 2 by auto
    next
      case (4 k d1 d2)
      then show ?thesis using Suc.IH(2) [of d2 depth "k # seen"] dec_token_shorter [OF 4(2)] walk_shorter(1) [OF 4(4)] 2 by auto
    qed simp_all
  next
    case 3
    from walk_elems_step [OF refl, where f = f and d = d and depth = depth] show ?case
    proof cases
      case (2 e)
      then show ?thesis using Suc.IH(1) [of d "Suc depth"] 3 by auto
    next
      case (3 d2)
      then show ?thesis using Suc.IH(3) [of d2 depth] walk_shorter(1) [OF 3(2)] "3.prems" by auto
    qed simp_all
  }
qed simp_all

subsection \<open>The walk accepts the documents without a duplicated key\<close>

text \<open>What a successful walk says of the lexemes in front of the decoder.\<close>

definition doc_walked :: "lexeme list \<Rightarrow> tstate \<Rightarrow> tstate list \<Rightarrow> nat \<Rightarrow> decoder \<Rightarrow> bool" where
  "doc_walked ls st stk depth d' \<longleftrightarrow> (\<exists>v ls'. ls = doc_lexemes v @ ls' \<and> no_dup_keys v \<and>
     depth + doc_depth v \<le> Suc maxConfigDepth \<and> d' = \<lparr>lexemes = ls', tokenState = value_end st, tokenStack = stk\<rparr>)"

definition members_walked :: "lexeme list \<Rightarrow> tstate \<Rightarrow> tstate \<Rightarrow> tstate list \<Rightarrow> nat \<Rightarrow> string list \<Rightarrow> decoder \<Rightarrow> bool" where
  "members_walked ls st st0 stk depth seen d' \<longleftrightarrow> (\<exists>ms ls'.
     ls = member_lexemes (st = ObjectComma) ms @ RBrace # ls' \<and> distinct (map fst ms) \<and>
     (\<forall>(k, v) \<in> set ms. k \<notin> set seen \<and> no_dup_keys v \<and> depth + doc_depth v \<le> maxConfigDepth) \<and>
     d' = \<lparr>lexemes = ls', tokenState = value_end st0, tokenStack = stk\<rparr>)"

definition elems_walked :: "lexeme list \<Rightarrow> tstate \<Rightarrow> tstate \<Rightarrow> tstate list \<Rightarrow> nat \<Rightarrow> decoder \<Rightarrow> bool" where
  "elems_walked ls st st0 stk depth d' \<longleftrightarrow> (\<exists>vs ls'.
     ls = elem_lexemes (st = ArrayComma) vs @ RBrack # ls' \<and>
     (\<forall>v \<in> set vs. no_dup_keys v \<and> depth + doc_depth v \<le> maxConfigDepth) \<and>
     d' = \<lparr>lexemes = ls', tokenState = value_end st0, tokenStack = stk\<rparr>)"

lemma walk_token: "walkDuplicates f d depth = Inr d' \<Longrightarrow> \<exists>t d1. dec_token d = (Inr t, d1)"
  by (cases f; cases "dec_token d"; cases "fst (dec_token d)") (auto split: if_splits)

lemma token_delim:
  assumes "token_from ls st stk = (Inr (TDelim l), d1)" "value_allowed st" "l \<noteq> LBrace" "l \<noteq> LBrack"
  shows "st = ArrayStart \<and> l = RBrack"
  using assms by (cases ls; cases "hd ls") (auto simp: Let_def value_allowed_def split: if_splits list.splits)

lemma walk_sound:
  "walkDuplicates f d depth = Inr d' \<Longrightarrow> dec_token d = token_from ls st stk \<Longrightarrow>
     value_allowed st \<Longrightarrow> st = ArrayStart \<longrightarrow> dec_more \<lparr>lexemes = ls, tokenState = st, tokenStack = stk\<rparr> \<Longrightarrow>
     doc_walked ls st stk depth d'"
  "walk_members f \<lparr>lexemes = ls, tokenState = st, tokenStack = st0 # stk\<rparr> depth seen = Inr d' \<Longrightarrow>
     st = ObjectStart \<or> st = ObjectComma \<Longrightarrow> members_walked ls st st0 stk depth seen d'"
  "walk_elems f \<lparr>lexemes = ls, tokenState = st, tokenStack = st0 # stk\<rparr> depth = Inr d' \<Longrightarrow>
     st = ArrayStart \<or> st = ArrayComma \<Longrightarrow> elems_walked ls st st0 stk depth d'"
proof (induction f arbitrary: d ls st st0 stk depth seen d')
  case (Suc f)
  note [simp del] = walkDuplicates.simps walk_members.simps walk_elems.simps
  {
    case 1
    note b = walk_bound [OF 1(1)]
    from walk_step [OF 1(1) b] show ?case
    proof cases
      case (2 v d1)
      then obtain l ls1 where "ls = l # ls1" "scalar_of l = Some v"
        "d1 = \<lparr>lexemes = ls1, tokenState = value_end st, tokenStack = stk\<rparr>"
        using token_value(1) [of ls st stk "TScalar v" d1 v] 1 by auto
      then show ?thesis using 2(2) b scalar_doc [of l v] unfolding doc_walked_def
        by (intro exI [of _ v] exI [of _ ls1]) auto
    next
      case (3 d1)
      then obtain ls1 where ls: "ls = LBrace # ls1"
        and d1: "d1 = \<lparr>lexemes = ls1, tokenState = ObjectStart, tokenStack = st # stk\<rparr>"
        using token_value(3) [of ls st stk "TDelim LBrace" d1] 1 by auto
      have "members_walked ls1 ObjectStart st stk depth [] d'"
        using Suc.IH(2) [of ls1 ObjectStart st stk depth "[]" d'] 3 d1 by simp
      then obtain ms ls' where m: "ls1 = member_lexemes False ms @ RBrace # ls'" "distinct (map fst ms)"
        "\<forall>(k, v) \<in> set ms. no_dup_keys v \<and> depth + doc_depth v \<le> maxConfigDepth"
        "d' = \<lparr>lexemes = ls', tokenState = value_end st, tokenStack = stk\<rparr>"
        unfolding members_walked_def by (auto simp: case_prod_beta')
      have "fold max (map (\<lambda>(k, v). doc_depth v) ms) 0 \<le> maxConfigDepth - depth"
        using m(3) unfolding fold_max_le by fastforce
      then show ?thesis using ls m b unfolding doc_walked_def
        by (intro exI [of _ "JObj ms"] exI [of _ ls']) (auto simp: list_all_iff)
    next
      case (4 d1)
      then obtain ls1 where ls: "ls = LBrack # ls1"
        and d1: "d1 = \<lparr>lexemes = ls1, tokenState = ArrayStart, tokenStack = st # stk\<rparr>"
        using token_value(2) [of ls st stk "TDelim LBrack" d1] 1 by auto
      have "elems_walked ls1 ArrayStart st stk depth d'"
        using Suc.IH(3) [of ls1 ArrayStart st stk depth d'] 4 d1 by simp
      then obtain vs ls' where m: "ls1 = elem_lexemes False vs @ RBrack # ls'"
        "\<forall>v \<in> set vs. no_dup_keys v \<and> depth + doc_depth v \<le> maxConfigDepth"
        "d' = \<lparr>lexemes = ls', tokenState = value_end st, tokenStack = stk\<rparr>"
        unfolding elems_walked_def by auto
      have "fold max (map doc_depth vs) 0 \<le> maxConfigDepth - depth"
        using m(2) unfolding fold_max_le by fastforce
      then show ?thesis using ls m b unfolding doc_walked_def
        by (intro exI [of _ "JArr vs"] exI [of _ ls']) (auto simp: list_all_iff)
    next
      case (5 l d1)
      then have "token_from ls st stk = (Inr (TDelim l), d1)" using 1(2) by simp
      from token_delim [OF this 1(3) 5(2,3)] this 1(4) have False
        by (cases ls; cases "hd ls") (auto simp: Let_def value_allowed_def dec_more_def split: if_splits list.splits)
      then show ?thesis ..
    qed simp_all
  next
    case 2
    from walk_members_step [OF 2(1)] show ?case
    proof cases
      case (4 k d1 d2)
      then obtain ls1 where ls: "ls = (if st = ObjectComma then [Comma] else []) @ LStr k # ls1"
        and d1: "d1 = \<lparr>lexemes = ls1, tokenState = ObjectColon, tokenStack = st0 # stk\<rparr>"
        using token_key [of ls st "st0 # stk" k d1] 2(2) by (auto simp: dec_token_def)
      obtain t d3 where "token_from ls1 ObjectColon (st0 # stk) = (Inr t, d3)"
        using walk_token [OF 4(4)] d1 by (auto simp: dec_token_def)
      then obtain ls2 where ls1: "ls1 = Colon # ls2" using token_colon by blast
      have "dec_token d1 = token_from ls2 ObjectValue (st0 # stk)" using d1 ls1 by (simp add: dec_token_def Let_def)
      from Suc.IH(1) [OF 4(4) this] obtain w ls3 where
        w: "ls2 = doc_lexemes w @ ls3" "no_dup_keys w" "depth + doc_depth w \<le> maxConfigDepth"
        and d2: "d2 = \<lparr>lexemes = ls3, tokenState = ObjectComma, tokenStack = st0 # stk\<rparr>"
        unfolding doc_walked_def by (auto simp: value_allowed_def)
      have "members_walked ls3 ObjectComma st0 stk depth (k # seen) d'"
        using Suc.IH(2) [of ls3 ObjectComma st0 stk depth "k # seen" d'] 4(5) d2 by simp
      then obtain ms ls' where m: "ls3 = member_lexemes True ms @ RBrace # ls'" "distinct (map fst ms)"
        "\<forall>(k', x) \<in> set ms. k' \<notin> set (k # seen) \<and> no_dup_keys x \<and> depth + doc_depth x \<le> maxConfigDepth"
        "d' = \<lparr>lexemes = ls', tokenState = value_end st0, tokenStack = stk\<rparr>"
        unfolding members_walked_def by auto
      then show ?thesis using ls ls1 w m 4(3) unfolding members_walked_def
        by (intro exI [of _ "(k, w) # ms"] exI [of _ ls']) auto
    next
      case (6 t d1)
      then obtain ls1 where "ls = RBrace # ls1"
        "d1 = \<lparr>lexemes = ls1, tokenState = value_end st0, tokenStack = stk\<rparr>"
        using token_close(2) [of ls st st0 stk t d1] 2(2) by (auto simp: dec_token_def)
      then show ?thesis using 6(3) unfolding members_walked_def
        by (intro exI [of _ "[]"] exI [of _ ls1]) simp
    qed simp_all
  next
    case 3
    from walk_elems_step [OF 3(1)] show ?case
    proof cases
      case (3 d2)
      let ?d = "\<lparr>lexemes = ls, tokenState = st, tokenStack = st0 # stk\<rparr>"
      obtain t d1 where t: "token_from ls st (st0 # stk) = (Inr t, d1)"
        using walk_token [OF 3(2)] by (auto simp: dec_token_def)
      obtain ls1 st1 where ls: "ls = (if st = ArrayComma then [Comma] else []) @ ls1"
        and st1: "dec_token ?d = token_from ls1 st1 (st0 # stk)" "value_allowed st1" "value_end st1 = ArrayComma"
          "st1 = ArrayStart \<longrightarrow> dec_more \<lparr>lexemes = ls1, tokenState = st1, tokenStack = st0 # stk\<rparr>"
      proof (cases "st = ArrayComma")
        case True
        then obtain ls1 where "ls = Comma # ls1" using token_elem [of ls "st0 # stk" t d1] t 3(1)
          by (auto simp: dec_more_def)
        then show thesis using that [of ls1 ArrayValue] True by (simp add: dec_token_def Let_def value_allowed_def)
      next
        case False
        then show thesis using that [of ls ArrayStart] "3.prems"(2) 3(1) by (simp add: dec_token_def value_allowed_def)
      qed
      from Suc.IH(1) [OF 3(2) st1(1,2,4)] st1(3) obtain w ls3 where
        w: "ls1 = doc_lexemes w @ ls3" "no_dup_keys w" "depth + doc_depth w \<le> maxConfigDepth"
        and d2: "d2 = \<lparr>lexemes = ls3, tokenState = ArrayComma, tokenStack = st0 # stk\<rparr>"
        unfolding doc_walked_def by auto
      have "elems_walked ls3 ArrayComma st0 stk depth d'"
        using Suc.IH(3) [of ls3 ArrayComma st0 stk depth d'] 3(3) d2 by simp
      then obtain vs ls' where m: "ls3 = elem_lexemes True vs @ RBrack # ls'"
        "\<forall>x \<in> set vs. no_dup_keys x \<and> depth + doc_depth x \<le> maxConfigDepth"
        "d' = \<lparr>lexemes = ls', tokenState = value_end st0, tokenStack = stk\<rparr>"
        unfolding elems_walked_def by auto
      then show ?thesis using ls w unfolding elems_walked_def
        by (intro exI [of _ "w # vs"] exI [of _ ls']) auto
    next
      case (4 t d1)
      then obtain ls1 where "ls = RBrack # ls1"
        "d1 = \<lparr>lexemes = ls1, tokenState = value_end st0, tokenStack = stk\<rparr>"
        using token_close(1) [of ls st st0 stk t d1] "3.prems"(2) by (auto simp: dec_token_def)
      then show ?thesis using 4(3) unfolding elems_walked_def
        by (intro exI [of _ "[]"] exI [of _ ls1]) simp
    qed simp_all
  }
qed simp_all

definition walks_doc :: "json \<Rightarrow> nat \<Rightarrow> nat \<Rightarrow> bool" where
  "walks_doc v f n \<longleftrightarrow> (\<forall>d st stk ls. dec_token d = token_from (doc_lexemes v @ ls) st stk \<longrightarrow> value_allowed st \<longrightarrow>
      walkDuplicates f d n = Inr \<lparr>lexemes = ls, tokenState = value_end st, tokenStack = stk\<rparr>)"

lemma walk_doc_elems:
  assumes "\<And>v f. v \<in> set vs \<Longrightarrow> length (doc_lexemes v) \<le> f \<Longrightarrow> walks_doc v f (Suc depth)"
    and "length (elem_lexemes sep vs) < f"
  shows "walk_elems f \<lparr>lexemes = elem_lexemes sep vs @ RBrack # ls,
       tokenState = (if sep then ArrayComma else ArrayStart), tokenStack = st # stk\<rparr> depth =
     Inr \<lparr>lexemes = ls, tokenState = value_end st, tokenStack = stk\<rparr>"
  using assms
proof (induction vs arbitrary: sep f)
  case Nil
  then obtain g where f: "f = Suc g" by (cases f) auto
  show ?case unfolding f by (simp add: dec_more_def dec_token_def Let_def)
next
  case (Cons v vs)
  obtain g where f: "f = Suc g" using Cons.prems(2) by (cases f) auto
  let ?r = "elem_lexemes True vs @ RBrack # ls"
  let ?d = "\<lparr>lexemes = elem_lexemes sep (v # vs) @ RBrack # ls,
       tokenState = (if sep then ArrayComma else ArrayStart), tokenStack = st # stk\<rparr>"
  let ?st = "if sep then ArrayValue else ArrayStart"
  have more: "dec_more ?d" using doc_lexemes_head [of v] by (auto simp: dec_more_def)
  have t: "dec_token ?d = token_from (doc_lexemes v @ ?r) ?st (st # stk)"
    by (simp add: dec_token_def Let_def)
  have "length (doc_lexemes v) \<le> g" using Cons.prems(2) f by (cases sep) simp_all
  then have "walks_doc v g (Suc depth)" using Cons.prems(1) by simp
  then have v: "walkDuplicates g ?d (depth + 1) = Inr \<lparr>lexemes = ?r, tokenState = ArrayComma, tokenStack = st # stk\<rparr>"
    using t unfolding walks_doc_def by (auto simp: value_allowed_def)
  have "length (elem_lexemes True vs) < g"
    using Cons.prems(2) f doc_lexemes_head [of v] by (cases sep) auto
  then have "walk_elems g \<lparr>lexemes = ?r, tokenState = ArrayComma, tokenStack = st # stk\<rparr> depth =
     Inr \<lparr>lexemes = ls, tokenState = value_end st, tokenStack = stk\<rparr>"
    using Cons.IH [where sep = True and f = g] Cons.prems by simp
  then show ?case unfolding f using more v by simp
qed

lemma walk_doc_members:
  assumes "\<And>k v f. (k, v) \<in> set ms \<Longrightarrow> length (doc_lexemes v) \<le> f \<Longrightarrow> walks_doc v f (Suc depth)"
    and "distinct (map fst ms)" "\<And>k v. (k, v) \<in> set ms \<Longrightarrow> k \<notin> set seen"
    and "length (member_lexemes sep ms) < f"
  shows "walk_members f \<lparr>lexemes = member_lexemes sep ms @ RBrace # ls,
       tokenState = (if sep then ObjectComma else ObjectStart), tokenStack = st # stk\<rparr> depth seen =
     Inr \<lparr>lexemes = ls, tokenState = value_end st, tokenStack = stk\<rparr>"
  using assms
proof (induction ms arbitrary: sep f seen)
  case Nil
  then obtain g where f: "f = Suc g" by (cases f) auto
  show ?case unfolding f by (simp add: dec_more_def dec_token_def Let_def)
next
  case (Cons m ms)
  obtain k v where m: "m = (k, v)" by fastforce
  obtain g where f: "f = Suc g" using Cons.prems(4) by (cases f) auto
  let ?r = "member_lexemes True ms @ RBrace # ls"
  let ?d = "\<lparr>lexemes = member_lexemes sep (m # ms) @ RBrace # ls,
       tokenState = (if sep then ObjectComma else ObjectStart), tokenStack = st # stk\<rparr>"
  let ?d1 = "\<lparr>lexemes = Colon # doc_lexemes v @ ?r, tokenState = ObjectColon, tokenStack = st # stk\<rparr>"
  have more: "dec_more ?d" by (auto simp: dec_more_def m)
  have key: "dec_token ?d = (Inr (TScalar (JStr k)), ?d1)" by (simp add: dec_token_def m Let_def)
  have new: "k \<notin> set seen" using Cons.prems(3) [of k v] m by simp
  have t: "dec_token ?d1 = token_from (doc_lexemes v @ ?r) ObjectValue (st # stk)" by (simp add: dec_token_def Let_def)
  have "length (doc_lexemes v) \<le> g" using Cons.prems(4) f m by (cases sep) simp_all
  then have "walks_doc v g (Suc depth)" using Cons.prems(1) [of k v] m by simp
  then have v: "walkDuplicates g ?d1 (depth + 1) = Inr \<lparr>lexemes = ?r, tokenState = ObjectComma, tokenStack = st # stk\<rparr>"
    using t unfolding walks_doc_def by (auto simp: value_allowed_def)
  have fresh: "k' \<notin> set (k # seen)" if "(k', w) \<in> set ms" for k' w
    using Cons.prems(2) Cons.prems(3) [of k' w] that m by force
  have "length (member_lexemes True ms) < g" using Cons.prems(4) f m by (cases sep) auto
  moreover have "\<And>k v f. (k, v) \<in> set ms \<Longrightarrow> length (doc_lexemes v) \<le> f \<Longrightarrow> walks_doc v f (Suc depth)"
    using Cons.prems(1) m by (meson list.set_intros(2))
  ultimately have "walk_members g \<lparr>lexemes = ?r, tokenState = ObjectComma, tokenStack = st # stk\<rparr> depth (k # seen) =
     Inr \<lparr>lexemes = ls, tokenState = value_end st, tokenStack = stk\<rparr>"
    using Cons.IH [where sep = True and f = g and seen = "k # seen"] Cons.prems(2) fresh m by simp
  then show ?case unfolding f using more key new v by (simp add: m)
qed

lemma walks_scalar:
  assumes "doc_lexemes v = [l]" "scalar_of l = Some v" "n \<le> maxConfigDepth" "length (doc_lexemes v) \<le> f"
  shows "walks_doc v f n"
proof -
  obtain g where "f = Suc g" using assms by (cases f) auto
  then show ?thesis unfolding walks_doc_def using assms token_doc_scalar [OF _ assms(2)] by auto
qed

lemma walks_every_doc:
  "no_dup_keys v \<Longrightarrow> n + doc_depth v \<le> Suc maxConfigDepth \<Longrightarrow> length (doc_lexemes v) \<le> f \<Longrightarrow> walks_doc v f n"
proof (induction v arbitrary: n f rule: no_dup_keys.induct)
  case (1 vs)
  obtain g where f: "f = Suc g" using 1(4) by (cases f) auto
  have "walks_doc v h (Suc n)" if "v \<in> set vs" "length (doc_lexemes v) \<le> h" for v h
    using 1(1) [OF that(1) _ _ that(2), of "Suc n"] 1(2) doc_depth_elem [OF 1(3) that(1)] that(1) by (simp add: list_all_iff)
  from walk_doc_elems [where sep = False and f = g, OF this]
  have w: "walk_elems g \<lparr>lexemes = elem_lexemes False vs @ RBrack # ls, tokenState = ArrayStart, tokenStack = st # stk\<rparr> n =
     Inr \<lparr>lexemes = ls, tokenState = value_end st, tokenStack = stk\<rparr>" for ls st stk using 1(4) f by simp
  show ?case
    unfolding walks_doc_def f using 1(3) w token_open(1) by auto
next
  case (2 ms)
  obtain g where f: "f = Suc g" using 2(4) by (cases f) auto
  have "walks_doc v h (Suc n)" if "(k, v) \<in> set ms" "length (doc_lexemes v) \<le> h" for k v h
    using 2(1) [OF that(1) refl _ _ that(2), of "Suc n"] 2(2) doc_depth_member [OF 2(3) that(1)] that(1) by (auto simp: list_all_iff)
  note walk_doc_members [of ms n "[]" False g, OF this]
  then have w: "walk_members g \<lparr>lexemes = member_lexemes False ms @ RBrace # ls, tokenState = ObjectStart, tokenStack = st # stk\<rparr> n [] =
     Inr \<lparr>lexemes = ls, tokenState = value_end st, tokenStack = stk\<rparr>" for ls st stk using 2(2,4) f by simp
  show ?case
    unfolding walks_doc_def f using 2(3) w token_open(2) by auto
qed (auto intro!: walks_scalar)

lemma refuseDuplicateKeys_iff:
  "refuseDuplicateKeys raw = None \<longleftrightarrow> (\<exists>v. lex raw = doc_lexemes v \<and> no_dup_keys v \<and> doc_depth v \<le> Suc maxConfigDepth)"
proof
  let ?d = "new_decoder raw"
  assume "refuseDuplicateKeys raw = None"
  then obtain d1 d2 where w: "walkDuplicates (2 * length (lexemes ?d) + 1) ?d 0 = Inr d1" and e: "dec_token d1 = (Inl EOF, d2)"
    by (auto simp: refuseDuplicateKeys_def Let_def split: sum.splits prod.splits json_error.splits)
  have "doc_walked (lex raw) TopValue [] 0 d1"
    by (rule walk_sound(1) [OF w]) (simp_all add: new_decoder_def dec_token_def value_allowed_def)
  then show "\<exists>v. lex raw = doc_lexemes v \<and> no_dup_keys v \<and> doc_depth v \<le> Suc maxConfigDepth"
    using e unfolding doc_walked_def by (auto simp: dec_token_def token_eof)
next
  assume "\<exists>v. lex raw = doc_lexemes v \<and> no_dup_keys v \<and> doc_depth v \<le> Suc maxConfigDepth"
  then obtain v where v: "lex raw = doc_lexemes v" "no_dup_keys v" "doc_depth v \<le> Suc maxConfigDepth" by blast
  have "walks_doc v (2 * length (lex raw) + 1) 0" by (rule walks_every_doc) (use v in simp_all)
  then have w: "walkDuplicates (2 * length (lex raw) + 1) (new_decoder raw) 0 =
      Inr \<lparr>lexemes = [], tokenState = TopValue, tokenStack = []\<rparr>"
    unfolding walks_doc_def using v(1)
    by (metis append_Nil2 dec_token_def decoder.select_convs new_decoder_def value_allowed_def value_end.simps(4))
  have "lexemes (new_decoder raw) = lex raw" by (simp add: new_decoder_def)
  then show "refuseDuplicateKeys raw = None"
    unfolding refuseDuplicateKeys_def Let_def by (simp only: w) (simp add: dec_token_def)
qed

subsection \<open>Raw maps\<close>

lemma raw_map_add: "map_get (fold (\<lambda>(k, v) m. map_set k v m) ms m) k = (case map_of (rev ms) k of None \<Rightarrow> map_get m k | r \<Rightarrow> r)"
  by (induction ms arbitrary: m) (auto simp: map_add_def split: option.splits)

lemma map_get_raw_map: "map_get (raw_map ms) k = map_of (rev ms) k"
  by (simp add: raw_map_def raw_map_add split: option.splits)

lemma raw_map_wf: "map_wf (raw_map ms)"
proof -
  have "map_wf m \<Longrightarrow> map_wf (fold (\<lambda>(k, v) m. map_set k v m) ms m)" for m :: "json gomap"
    by (induction ms arbitrary: m) (auto simp: map_wf_set)
  then show ?thesis by (simp add: raw_map_def)
qed

lemma raw_map_sorted: "map_wf m \<Longrightarrow> raw_map m = m"
  using sort_map_sorted [of "[]" m] by (simp add: raw_map_def)

lemma raw_map_ok:
  assumes "json_ok (JObj ms)"
  shows "json_ok (JObj (raw_map ms))"
proof -
  have "json_ok (JObj m) \<Longrightarrow> json_ok (JObj (fold (\<lambda>(k, v) m. map_set k v m) ms m))" for m
    using assms
  proof (induction ms arbitrary: m)
    case (Cons x ms)
    then show ?case by (cases x) (auto simp del: map_set.simps json_ok.simps(4) intro!: Cons.IH json_ok_map_set, auto)
  qed simp
  then show ?thesis by (simp add: raw_map_def)
qed

text \<open>The table a text holds, and the entry a block of it has under a name.\<close>

definition table_of :: "string \<Rightarrow> json gomap" where
  "table_of raw = (case parse_json raw of Some (JObj ms) \<Rightarrow> raw_map ms | _ \<Rightarrow> [])"

definition entry_of :: "json gomap \<Rightarrow> string \<Rightarrow> string \<Rightarrow> json option" where
  "entry_of t b n = (case map_get t b of Some (JObj ms) \<Rightarrow> map_get (raw_map ms) n | _ \<Rightarrow> None)"

lemma namesIn_entry:
  assumes "namesIn (map_get t b) = Inr names"
  shows "map_get names n = entry_of t b n" "map_wf names" "json_ok (JObj t) \<Longrightarrow> json_ok (JObj names)"
proof -
  have "names = [] \<and> (\<forall>ms. map_get t b \<noteq> Some (JObj ms)) \<or> (\<exists>ms. map_get t b = Some (JObj ms) \<and> names = raw_map ms)"
    using assms by (auto simp: namesIn_def split: option.splits json.splits)
  then show "map_get names n = entry_of t b n" "map_wf names" "json_ok (JObj t) \<Longrightarrow> json_ok (JObj names)"
    by (auto simp: entry_of_def raw_map_wf raw_map_ok dest: json_ok_map_get split: option.splits json.splits simp del: json_ok.simps(4))
      simp
qed

lemma parsed_table: "map_option unmarshal_raw_map (parse_json raw) = Some (Some t) \<Longrightarrow> table_of raw = nil_map t"
  by (cases "parse_json raw"; cases "the (parse_json raw)") (auto simp: table_of_def unmarshal_raw_map_def nil_map_def)

lemma parse_json_ok: "parse_json raw = Some v \<Longrightarrow> json_ok v"
  using lex_ok [of raw] by (auto simp: parse_json_iff intro: doc_lexemes_ok)

lemma table_ok: "map_wf (table_of raw)" "json_ok (JObj (table_of raw))"
  using parse_json_ok [of raw] by (auto simp: table_of_def raw_map_wf raw_map_ok split: option.splits json.splits simp del: json_ok.simps(4)) simp_all

subsection \<open>What a merge keeps\<close>

lemma add_entries:
  assumes "foldM (add_entry fragment block) add (into, origin) = Inr (into', origin')" "distinct (map fst add)" "map_wf into"
    "json_ok (JObj into)" "json_ok (JObj add)"
  shows "map_get into' n = (case map_of add n of Some v \<Rightarrow> Some v | None \<Rightarrow> map_get into n) \<and>
    (map_has origin' n \<longleftrightarrow> map_has origin n \<or> map_of add n \<noteq> None) \<and>
    (\<forall>v. map_of add n = Some v \<longrightarrow> \<not> map_has origin n \<and> (block = ''tool_upstreams'' \<longrightarrow> refuseCustodyFields fragment n v = None)) \<and>
    map_wf into' \<and> json_ok (JObj into')"
  using assms
proof (induction add arbitrary: into origin)
  case (Cons x add)
  obtain k v where x: "x = (k, v)" by fastforce
  let ?into = "map_set k v into" and ?origin = "map_set k (''overlay '' @ fragment) origin"
  obtain acc where acc: "add_entry fragment block x (into, origin) = Inr acc"
      "foldM (add_entry fragment block) add acc = Inr (into', origin')"
    using Cons.prems(1) by auto
  have st: "map_get origin k = None" "block = ''tool_upstreams'' \<longrightarrow> refuseCustodyFields fragment k v = None" "acc = (?into, ?origin)"
    using acc(1) by (auto simp: x add_entry_def split: option.splits if_splits)
  have "k \<notin> fst ` set add" "distinct (map fst add)" "utf8_valid k" "json_ok v" "json_ok (JObj add)"
    using Cons.prems(2,5) by (simp_all add: x)
  moreover have "map_of add k = None" using calculation(1) by (simp add: map_of_eq_None_iff)
  ultimately show ?case
    using Cons.IH [OF acc(2) [unfolded st(3)]] Cons.prems(3,4) st(1,2) json_ok_map_set [of into k v]
    by (auto simp: x map_wf_set map_has_get split: if_splits option.splits simp del: json_ok.simps(4))
qed simp

text \<open>The table of a merge is sorted, its texts are valid, and the names it knows are those it has.\<close>

definition merge_ok :: "merging \<Rightarrow> bool" where
  "merge_ok m \<longleftrightarrow> map_wf (nil_map (mgTable m)) \<and> json_ok (JObj (nil_map (mgTable m))) \<and>
     (\<forall>b \<in> set mergeableBlocks. \<forall>ms. map_get (nil_map (mgTable m)) b = Some (JObj ms) \<longrightarrow> distinct (map fst ms)) \<and>
     (\<forall>b \<in> set mergeableBlocks. \<forall>n. map_has (origin_of b m) n \<longleftrightarrow> entry_of (nil_map (mgTable m)) b n \<noteq> None)"

text \<open>From \<open>m\<close> to \<open>m'\<close> exactly the entries \<open>add\<close> were put in, none of them known before.\<close>

definition grows :: "string \<Rightarrow> (string \<Rightarrow> string \<Rightarrow> json option) \<Rightarrow> merging \<Rightarrow> merging \<Rightarrow> bool" where
  "grows fragment add m m' \<longleftrightarrow>
     (\<forall>k. k \<notin> set mergeableBlocks \<longrightarrow> map_get (nil_map (mgTable m')) k = map_get (nil_map (mgTable m)) k) \<and>
     (\<forall>b \<in> set mergeableBlocks. \<forall>n.
        entry_of (nil_map (mgTable m')) b n = (case add b n of Some v \<Rightarrow> Some v | None \<Rightarrow> entry_of (nil_map (mgTable m)) b n) \<and>
        (\<forall>v. add b n = Some v \<longrightarrow> entry_of (nil_map (mgTable m)) b n = None \<and>
           (b = ''tool_upstreams'' \<longrightarrow> refuseCustodyFields fragment n v = None)))"

lemma merge_block_grows:
  assumes "merge_block fragment frag block m = Inr m'" "merge_ok m" "block \<in> set mergeableBlocks" "json_ok (JObj frag)"
  shows "merge_ok m' \<and> grows fragment (\<lambda>b n. if b = block then entry_of frag b n else None) m m'"
proof -
  obtain add where add: "namesIn (map_get frag block) = Inr add"
    using assms(1) by (auto simp: merge_block_def split: sum.splits)
  note a = namesIn_entry [OF add]
  have ad: "map_of add n = entry_of frag block n" "distinct (map fst add)" for n
    using a(1) [of n] a(2) by (simp_all add: map_get_def map_wf_distinct)
  show ?thesis
  proof (cases "add = []")
    case True
    then have "m' = m" "entry_of frag block n = None" for n
      using assms(1) add ad(1) [of n] by (simp_all add: merge_block_def)
    then show ?thesis using assms(2) by (auto simp: grows_def)
  next
    case False
    obtain into where into: "namesIn (map_get (nil_map (mgTable m)) block) = Inr into"
      using assms(1) add False by (auto simp: merge_block_def split: sum.splits)
    obtain into' origin' t where f: "foldM (add_entry fragment block) add (into, origin_of block m) = Inr (into', origin')"
        and t: "mgTable m = Some t" and m': "m' = \<lparr>mgTable = Some (map_set block (JObj into') t), mgOrigin = map_set block origin' (mgOrigin m)\<rparr>"
      using assms(1) add into False by (auto simp: merge_block_def split: sum.splits option.splits)
    note i = namesIn_entry [OF into]
    have ok: "json_ok (JObj t)" "map_wf t" using assms(2) t by (simp_all add: merge_ok_def nil_map_def)
    note e = add_entries [OF f ad(2) i(2) i(3) a(3) [OF assms(4)]] 
    have "map_get into n = entry_of t block n" for n using i(1) [of n] t by (simp add: nil_map_def)
    then have e: "map_get into' n = (case entry_of frag block n of Some v \<Rightarrow> Some v | None \<Rightarrow> entry_of t block n)"
      "map_has origin' n \<longleftrightarrow> map_has (origin_of block m) n \<or> entry_of frag block n \<noteq> None"
      "entry_of frag block n = Some v \<Longrightarrow> \<not> map_has (origin_of block m) n \<and> (block = ''tool_upstreams'' \<longrightarrow> refuseCustodyFields fragment n v = None)"
      "map_wf into'" "json_ok (JObj into')" for n v
      using e [of n] ok(1) t by (simp_all add: ad(1) nil_map_def cong: option.case_cong del: json_ok.simps(4))
    have en: "entry_of (map_set block (JObj into') t) b n = (if b = block then map_get into' n else entry_of t b n)" for b n
      using e(4) by (simp add: entry_of_def raw_map_sorted)
    have known: "map_has (origin_of b m) n \<longleftrightarrow> entry_of t b n \<noteq> None" if "b \<in> set mergeableBlocks" for b n
      using assms(2) that t by (simp add: merge_ok_def nil_map_def)
    have "utf8_valid block" using assms(3) by (auto simp: mergeableBlocks_def intro!: utf8_valid_ascii)
    then have "json_ok (JObj (map_set block (JObj into') t))" using ok(1) e(5) by (intro json_ok_map_set)
    then have "merge_ok m'"
      using ok(2) known e(1,2) assms(2,3) map_wf_distinct [OF e(4)] t
      by (auto simp: merge_ok_def m' nil_map_def map_wf_set en origin_of_def split: option.splits simp del: json_ok.simps(4))
    moreover have "grows fragment (\<lambda>b n. if b = block then entry_of frag b n else None) m m'"
      using e(1,3) known assms(3) t by (auto simp: grows_def m' nil_map_def en split: option.splits)
    ultimately show ?thesis ..
  qed
qed

lemma merge_fragment_grows:
  assumes "merge_fragment f m = Inr m'" "merge_ok m"
  shows "merge_ok m' \<and> grows (fgName f) (entry_of (table_of (fgRaw f))) m m' \<and> refuseDuplicateKeys (fgRaw f) = None \<and>
    (\<forall>k \<in> fst ` set (table_of (fgRaw f)). k \<in> set mergeableBlocks)"
proof -
  obtain frag where fr: "map_option unmarshal_raw_map (parse_json (fgRaw f)) = Some (Some frag)"
      and keys: "List.find (\<lambda>k. \<not> mergeable k) (map fst (nil_map frag)) = None" and dup: "refuseDuplicateKeys (fgRaw f) = None"
      and bl: "foldM (merge_block (fgName f) (nil_map frag)) mergeableBlocks m = Inr m'"
    using assms(1) by (auto simp: merge_fragment_def split: option.splits)
  have tb: "table_of (fgRaw f) = nil_map frag" using parsed_table [OF fr] .
  obtain m1 where s: "merge_block (fgName f) (nil_map frag) ''tool_upstreams'' m = Inr m1"
      "merge_block (fgName f) (nil_map frag) ''standing_constraints'' m1 = Inr m'"
    using bl by (auto simp: mergeableBlocks_def)
  have ok: "json_ok (JObj (nil_map frag))" using table_ok(2) [of "fgRaw f"] tb by simp
  have g1: "merge_ok m1" "grows (fgName f) (\<lambda>b n. if b = ''tool_upstreams'' then entry_of (nil_map frag) b n else None) m m1"
    using merge_block_grows [OF s(1) assms(2) _ ok] by (simp_all add: mergeableBlocks_def)
  have g2: "merge_ok m'" "grows (fgName f) (\<lambda>b n. if b = ''standing_constraints'' then entry_of (nil_map frag) b n else None) m1 m'"
    using merge_block_grows [OF s(2) g1(1) _ ok] by (simp_all add: mergeableBlocks_def)
  have "grows (fgName f) (entry_of (nil_map frag)) m m'"
    using g1(2) g2(2) unfolding grows_def mergeableBlocks_def by (simp cong: option.case_cong)
  moreover have "\<forall>k \<in> fst ` set (nil_map frag). k \<in> set mergeableBlocks"
    using keys by (auto simp: find_None_iff mergeable_def list_ex_iff)
  ultimately show ?thesis using g2(1) dup by (simp add: tb)
qed

text \<open>The whole merge: every entry of the base and of a fragment is in it, no other, none defined twice.\<close>

definition merged_of :: "json gomap \<Rightarrow> Fragment list \<Rightarrow> json gomap \<Rightarrow> bool" where
  "merged_of t frags t' \<longleftrightarrow>
     (\<forall>k. k \<notin> set mergeableBlocks \<longrightarrow> map_get t' k = map_get t k) \<and>
     (\<forall>b \<in> set mergeableBlocks. \<forall>n v. entry_of t' b n = Some v \<longleftrightarrow>
        entry_of t b n = Some v \<or> (\<exists>f \<in> set frags. entry_of (table_of (fgRaw f)) b n = Some v)) \<and>
     (\<forall>b \<in> set mergeableBlocks. \<forall>n. \<forall>f \<in> set frags. entry_of (table_of (fgRaw f)) b n \<noteq> None \<longrightarrow> entry_of t b n = None) \<and>
     (\<forall>f \<in> set frags. \<forall>n v. entry_of (table_of (fgRaw f)) ''tool_upstreams'' n = Some v \<longrightarrow> refuseCustodyFields (fgName f) n v = None) \<and>
     (\<forall>f \<in> set frags. refuseDuplicateKeys (fgRaw f) = None \<and> (\<forall>k \<in> fst ` set (table_of (fgRaw f)). k \<in> set mergeableBlocks)) \<and>
     sorted_wrt (\<lambda>f g. \<forall>b \<in> set mergeableBlocks. \<forall>n. entry_of (table_of (fgRaw f)) b n = None \<or> entry_of (table_of (fgRaw g)) b n = None) frags"

lemmas merged_ofD =
  merged_of_def [THEN iffD1, THEN conjunct1]
  merged_of_def [THEN iffD1, THEN conjunct2, THEN conjunct1]
  merged_of_def [THEN iffD1, THEN conjunct2, THEN conjunct2, THEN conjunct1]
  merged_of_def [THEN iffD1, THEN conjunct2, THEN conjunct2, THEN conjunct2, THEN conjunct1]
  merged_of_def [THEN iffD1, THEN conjunct2, THEN conjunct2, THEN conjunct2, THEN conjunct2, THEN conjunct1]
  merged_of_def [THEN iffD1, THEN conjunct2, THEN conjunct2, THEN conjunct2, THEN conjunct2, THEN conjunct2]

lemma merged_Cons:
  assumes g: "grows (fgName f) (entry_of (table_of (fgRaw f))) m m1" and m: "merged_of (nil_map (mgTable m1)) fs t'"
    and f: "refuseDuplicateKeys (fgRaw f) = None" "\<forall>k \<in> fst ` set (table_of (fgRaw f)). k \<in> set mergeableBlocks"
  shows "merged_of (nil_map (mgTable m)) (f # fs) t'"
proof -
  define t t1 e where "t = entry_of (nil_map (mgTable m))" and "t1 = entry_of (nil_map (mgTable m1))"
    and "e = (\<lambda>f :: Fragment. entry_of (table_of (fgRaw f)))"
  have g1: "t1 b n = (case e f b n of Some v \<Rightarrow> Some v | None \<Rightarrow> t b n)" "e f b n \<noteq> None \<Longrightarrow> t b n = None"
    if "b \<in> set mergeableBlocks" for b n
    using g that unfolding grows_def t_def t1_def e_def by blast+
  have m1: "entry_of t' b n = Some v \<longleftrightarrow> t1 b n = Some v \<or> (\<exists>f \<in> set fs. e f b n = Some v)"
      "x \<in> set fs \<Longrightarrow> e x b n \<noteq> None \<Longrightarrow> t1 b n = None" if "b \<in> set mergeableBlocks" for b n v x
    using merged_ofD(2) [OF m] merged_ofD(3) [OF m] that unfolding t1_def e_def by blast+
  have none: "t b n = None" "e f b n = None" if "b \<in> set mergeableBlocks" "x \<in> set fs" "e x b n \<noteq> None" for b n x
    using m1(2) [OF that] g1(1) [OF that(1), of n] by (auto split: option.splits)
  have "\<forall>k. k \<notin> set mergeableBlocks \<longrightarrow> map_get t' k = map_get (nil_map (mgTable m)) k"
    using g merged_ofD(1) [OF m] unfolding grows_def by simp
  moreover have "entry_of t' b n = Some v \<longleftrightarrow> t b n = Some v \<or> (\<exists>f \<in> set (f # fs). e f b n = Some v)"
    if "b \<in> set mergeableBlocks" for b n v
    using m1(1) [OF that, of n v] g1 [OF that, of n] by (cases "e f b n") auto
  moreover have "t b n = None" if "b \<in> set mergeableBlocks" "x \<in> set (f # fs)" "e x b n \<noteq> None" for b n x
    using none(1) [OF that(1) _ that(3)] g1(2) [OF that(1), of n] that(2,3) by auto
  moreover have "refuseCustodyFields (fgName x) n v = None" if "x \<in> set (f # fs)" "e x ''tool_upstreams'' n = Some v" for x n v
    using g merged_ofD(4) [OF m] that unfolding grows_def e_def by (auto simp: mergeableBlocks_def)
  moreover have "\<forall>x \<in> set (f # fs). refuseDuplicateKeys (fgRaw x) = None \<and> (\<forall>k \<in> fst ` set (table_of (fgRaw x)). k \<in> set mergeableBlocks)"
    using merged_ofD(5) [OF m] f by simp
  moreover have "sorted_wrt (\<lambda>f g. \<forall>b \<in> set mergeableBlocks. \<forall>n. e f b n = None \<or> e g b n = None) (f # fs)"
  proof -
    have "\<forall>x \<in> set fs. \<forall>b \<in> set mergeableBlocks. \<forall>n. e f b n = None \<or> e x b n = None" using none(2) by blast
    then show ?thesis using merged_ofD(6) [OF m] by (simp add: e_def)
  qed
  ultimately show ?thesis unfolding merged_of_def t_def e_def by (intro conjI) blast+
qed

lemma merge_fragments:
  assumes "foldM merge_fragment frags m = Inr m'" "merge_ok m"
  shows "merge_ok m' \<and> merged_of (nil_map (mgTable m)) frags (nil_map (mgTable m'))"
  using assms
proof (induction frags arbitrary: m)
  case Nil
  then show ?case by (simp add: merged_of_def)
next
  case (Cons f fs)
  then obtain m1 where s: "merge_fragment f m = Inr m1" "foldM merge_fragment fs m1 = Inr m'" by auto
  note g = merge_fragment_grows [OF s(1) Cons.prems(2)]
  then show ?case using Cons.IH [OF s(2)] merged_Cons [of f m m1 fs] by blast
qed

lemma committed_names: "map_has (fold (\<lambda>name known. map_set name x known) names known) n \<longleftrightarrow> n \<in> set names \<or> map_has known n"
  by (induction names arbitrary: known) (auto simp: map_has_get)

lemma Merge_outcome:
  assumes "Merge base frags = Inr merged"
  obtains t where "merged = JObj t" "map_wf t" "json_ok merged" "refuseDuplicateKeys base = None" "merged_of (table_of base) frags t"
    "\<And>b ms. b \<in> set mergeableBlocks \<Longrightarrow> map_get t b = Some (JObj ms) \<Longrightarrow> distinct (map fst ms)"
proof -
  obtain table origin m where p: "map_option unmarshal_raw_map (parse_json base) = Some (Some table)"
      and o: "foldM (base_block (nil_map table)) mergeableBlocks [] = Inr origin" and d: "refuseDuplicateKeys base = None"
      and f: "foldM merge_fragment frags \<lparr>mgTable = table, mgOrigin = origin\<rparr> = Inr m"
      and merged: "merged = JObj (nil_map (mgTable m))"
    using assms by (auto simp: Merge_def marshalSorted_def split: option.splits sum.splits)
  let ?m = "\<lparr>mgTable = table, mgOrigin = origin\<rparr>"
  have tb: "table_of base = nil_map table" by (rule parsed_table [OF p])
  obtain n1 n2 where n: "namesIn (map_get (nil_map table) ''tool_upstreams'') = Inr n1"
      "namesIn (map_get (nil_map table) ''standing_constraints'') = Inr n2"
    using o by (auto simp: mergeableBlocks_def base_block_def split: sum.splits)
  let ?known = "\<lambda>names. fold (\<lambda>name known. map_set name ''the committed table'' known) (map fst names) []"
  have "origin = map_set ''standing_constraints'' (?known n2) (map_set ''tool_upstreams'' (?known n1) [])"
    using o n by (simp add: mergeableBlocks_def base_block_def del: map_set.simps)
  then have og: "origin_of b ?m = ?known (if b = ''tool_upstreams'' then n1 else n2)" if "b \<in> set mergeableBlocks" for b
    using that by (auto simp: mergeableBlocks_def origin_of_def simp del: map_set.simps)
  have "map_has (origin_of b ?m) n \<longleftrightarrow> entry_of (nil_map table) b n \<noteq> None" if "b \<in> set mergeableBlocks" for b n
  proof -
    have "map_has (origin_of b ?m) n \<longleftrightarrow> n \<in> set (map fst (if b = ''tool_upstreams'' then n1 else n2))"
      unfolding og [OF that] committed_names by (simp add: map_has_def)
    also have "\<dots> \<longleftrightarrow> entry_of (nil_map table) b n \<noteq> None"
      using that namesIn_entry(1) [OF n(1), of n] namesIn_entry(1) [OF n(2), of n] map_has_get [of n1 n] map_has_get [of n2 n]
      by (auto simp: mergeableBlocks_def map_has_def)
    finally show ?thesis .
  qed
  moreover have "distinct (map fst ms)" if got: "map_get (nil_map table) b = Some (JObj ms)" for b ms
  proof -
    obtain v where v: "parse_json base = Some v" "unmarshal_raw_map v = Some table" using p by auto
    then obtain mb where mb: "v = JObj mb" "table = Some (raw_map mb)"
      using got by (cases v) (auto simp: unmarshal_raw_map_def nil_map_def)
    obtain w where "lex base = doc_lexemes w" "no_dup_keys w" using d refuseDuplicateKeys_iff by blast
    moreover have "lex base = doc_lexemes v" using v(1) by (simp add: parse_json_iff)
    ultimately have "no_dup_keys v" using doc_lexemes_prefix [of v "[]" w "[]"] by simp
    moreover have "(b, JObj ms) \<in> set mb"
      using got mb by (auto simp: nil_map_def map_get_raw_map dest: map_of_SomeD)
    ultimately show ?thesis using mb(1) by (auto simp: list_all_iff)
  qed
  ultimately have "merge_ok ?m" using table_ok [of base] by (simp add: merge_ok_def tb)
  from merge_fragments [OF f this] show thesis
    using that [of "nil_map (mgTable m)"] merged d by (simp add: tb merge_ok_def del: json_ok.simps(4))
qed

end
