(* ===== verification/OverlayProps.thy ===== *)
theory OverlayProps
  imports OverlayFlow
begin

text \<open>
  Properties of the overlay: an entry it adds carries no custody, a merge adds and never changes,
  a key written twice is refused, and what that refusal does not see.
\<close>

subsection \<open>Entries without custody\<close>

definition no_custody :: "ToolUpstream \<Rightarrow> bool" where
  "no_custody t \<longleftrightarrow> tuCredentialFile t = [] \<and> tuCredentialHeader t = [] \<and> \<not> tuInternet t \<and> tuCAFile t = [] \<and> tuExtraHeaders t = []"

lemma member_without_custody:
  assumes "\<not> custody_key (fst kv)" "no_custody (fst t)"
  shows "no_custody (fst (set_members strict (tool_upstream_fields strict) kv t))"
  using assms
  by (auto simp: set_members_def tool_upstream_fields_def set_field_def no_custody_def custody_key_def custodyFields_def
      split: prod.splits)

lemma entry_without_custody:
  assumes "\<forall>k \<in> fst ` set ms. \<not> custody_key k" "no_custody (fst t)"
  shows "no_custody (fst (set_tool_upstream strict (JObj ms) t))"
proof -
  have "no_custody (fst (fold (set_members strict (tool_upstream_fields strict)) ms t))"
    using assms by (induction ms arbitrary: t) (simp_all add: member_without_custody)
  then show ?thesis by (simp add: set_tool_upstream_def set_struct_def)
qed

lemma vetted_entry:
  assumes "refuseCustodyFields fragment n raw = None"
  shows "no_custody (fst (set_tool_upstream strict raw (zero_tool_upstream, e)))"
proof -
  have z: "no_custody zero_tool_upstream" by (simp add: no_custody_def zero_tool_upstream_def)
  show ?thesis
  proof (cases raw)
    case (JObj ms)
    then have "\<not> custody_key k" if "k \<in> fst ` set (raw_map ms)" for k
      using assms that by (auto simp: refuseCustodyFields_def unmarshal_raw_map_def nil_map_def find_None_iff split: option.splits)
    moreover have "fst ` set (raw_map ms) = fst ` set ms"
    proof -
      have "fst ` set (fold (\<lambda>(k, v) m. map_set k v m) ms m) = fst ` set ms \<union> fst ` set m" for m :: "json gomap"
        by (induction ms arbitrary: m) (simp_all add: case_prod_beta keys_map_set [unfolded set_map])
      then show ?thesis by (simp add: raw_map_def)
    qed
    ultimately show ?thesis using entry_without_custody [of ms "(zero_tool_upstream, e)" strict] z JObj by simp
  qed (use z in \<open>simp_all add: set_tool_upstream_def set_struct_def\<close>)
qed

text \<open>
  Where the upstreams of a decoded table come from: members of a block whose name folds to
  \<open>tool_upstreams\<close>.
\<close>

lemma decoded_upstreams:
  assumes "config_of (JObj ms) = Some c" "(n, u) \<in> set (cfToolUpstreams c)"
  obtains k ms' raw e where "(k, JObj ms') \<in> set ms" "names_field ''tool_upstreams'' k" "(n, raw) \<in> set ms'"
    "u = fst (set_tool_upstream True raw (zero_tool_upstream, e))"
proof -
  define came where "came = (\<lambda>ms. \<exists>k ms' raw e. (k, JObj ms') \<in> set ms \<and> names_field ''tool_upstreams'' k \<and> (n, raw) \<in> set ms' \<and>
    u = fst (set_tool_upstream True raw (zero_tool_upstream, e)))"
  let ?set = "\<lambda>(k, x) (m, e). case set_tool_upstream True x (zero_tool_upstream, e) of (y, e1) \<Rightarrow> (map_set k y m, e1)"
  have inner: "(n, u) \<in> set (fst (fold ?set ms' t)) \<Longrightarrow> (n, u) \<in> set (fst t) \<or>
      (\<exists>raw e. (n, raw) \<in> set ms' \<and> u = fst (set_tool_upstream True raw (zero_tool_upstream, e)))" for ms' t
  proof (induction ms' arbitrary: t)
    case (Cons x ms')
    obtain k v m e where x: "x = (k, v)" "t = (m, e)" by (cases x; cases t)
    obtain y e1 where y: "set_tool_upstream True v (zero_tool_upstream, e) = (y, e1)" by fastforce
    have "set (map_set k y m) \<subseteq> insert (k, y) (set m)" by (induction k y m rule: map_set.induct) auto
    moreover have "(n, u) \<in> set (fst (fold ?set ms' (map_set k y m, e1)))" using Cons.prems by (simp add: x y)
    then have "(n, u) \<in> set (map_set k y m) \<or>
        (\<exists>raw e. (n, raw) \<in> set ms' \<and> u = fst (set_tool_upstream True raw (zero_tool_upstream, e)))"
      using Cons.IH [of "(map_set k y m, e1)"] by simp
    ultimately consider "(n, u) \<in> set m" | "n = k" "u = y"
      | raw e where "(n, raw) \<in> set ms'" "u = fst (set_tool_upstream True raw (zero_tool_upstream, e))" by blast
    then show ?case
    proof cases
      case 2
      then have "(n, v) \<in> set (x # ms') \<and> u = fst (set_tool_upstream True v (zero_tool_upstream, e))" using x y by simp
      then show ?thesis by blast
    next
      case (3 raw e)
      then have "(n, raw) \<in> set (x # ms')" by simp
      then show ?thesis using 3(2) by blast
    qed (simp add: x)
  qed simp
  have mono: "came xs \<Longrightarrow> set xs \<subseteq> set ys \<Longrightarrow> came ys" for xs ys unfolding came_def by blast
  have outer: "(n, u) \<in> set (cfToolUpstreams (fst (fold (set_members True config_fields) ms t))) \<Longrightarrow>
      (n, u) \<in> set (cfToolUpstreams (fst t)) \<or> came ms" for t
  proof (induction ms arbitrary: t)
    case (Cons kv ms)
    let ?t = "set_members True config_fields kv t"
    have "(n, u) \<in> set (cfToolUpstreams (fst ?t)) \<Longrightarrow> (n, u) \<in> set (cfToolUpstreams (fst t)) \<or> came [kv]"
    proof -
      assume a: "(n, u) \<in> set (cfToolUpstreams (fst ?t))"
      show ?thesis
      proof (cases "names_field ''tool_upstreams'' (fst kv) \<and> \<not> names_field ''upstreams'' (fst kv)")
        case False
        then have "cfToolUpstreams (fst ?t) = cfToolUpstreams (fst t)"
          by (auto simp: set_members_def config_fields_def set_field_def names_field_def split: prod.splits)
        then show ?thesis using a by simp
      next
        case True
        then have "cfToolUpstreams (fst ?t) = fst (set_map (set_tool_upstream True) zero_tool_upstream (snd kv) (cfToolUpstreams (fst t), snd t))"
          by (simp add: set_members_def config_fields_def set_field_def split: prod.splits)
        then show ?thesis using a True inner [of _ "(cfToolUpstreams (fst t), snd t)"]
          by (cases kv) (auto simp: set_map_def came_def split: json.splits)
      qed
    qed
    moreover have "(n, u) \<in> set (cfToolUpstreams (fst ?t)) \<or> came ms" using Cons.IH [of ?t] Cons.prems by simp
    ultimately show ?case using mono [of "[kv]" "kv # ms"] mono [of ms "kv # ms"] by auto
  qed simp
  have "\<exists>e. set_struct (set_members True config_fields) (JObj ms) (zero_config, False) = (c, e)"
    using assms(1) by (auto simp: config_of_def split: prod.splits if_splits)
  then have "c = fst (fold (set_members True config_fields) ms (zero_config, False))"
    by (auto simp: set_struct_def dest: arg_cong [of _ _ fst])
  then have "came ms" using outer [of "(zero_config, False)"] assms(2) by (simp add: zero_config_def)
  then show thesis using that unfolding came_def by blast
qed

text \<open>The names the committed table gives its tool upstreams, under any spelling of the block the decoder takes for it.\<close>

definition committed :: "string \<Rightarrow> string \<Rightarrow> bool" where
  "committed base n \<longleftrightarrow> (\<exists>ms k ms'. parse_json base = Some (JObj ms) \<and> (k, JObj ms') \<in> set ms \<and>
     names_field ''tool_upstreams'' k \<and> n \<in> fst ` set ms')"

text \<open>
  C16: a loaded table holds no custody that an overlay put there: every tool upstream whose name the
  committed table does not define has no credential file, no credential header, no internet mark, no
  trust anchor and no extra headers, whatever spelling the fragments used.
\<close>

theorem an_overlay_entry_carries_no_custody:
  assumes "LoadDir parse_url parse_addr (Some base) dir entries = Inr c" "map_get (cfToolUpstreams c) n = Some u"
  shows "committed base n \<or> no_custody u"
proof -
  obtain frags merged where r: "Read (Some base) dir entries = Inr (base, frags)" and m: "Merge base frags = Inr merged"
      and p: "Parse decode_config parse_url parse_addr (render merged) = Inr c"
    using assms(1) by (auto simp: LoadDir_def Read_def split: sum.splits prod.splits if_splits listing.splits)
  obtain t where t: "merged = JObj t" "map_wf t" "json_ok merged" "merged_of (table_of base) frags t"
      and dist: "\<And>b ms. b \<in> set mergeableBlocks \<Longrightarrow> map_get t b = Some (JObj ms) \<Longrightarrow> distinct (map fst ms)"
    using Merge_outcome [OF m] by metis
  obtain c0 where c0: "decode_config (render merged) = Some c0" "cfToolUpstreams c0 = cfToolUpstreams c"
    using p by (auto simp: Parse_def split: option.splits sum.splits if_splits)
  obtain v rest where v: "first_value (render merged) = Inr (v, rest)" "config_of v = Some c0"
    using c0(1) by (auto simp: decode_config_def split: sum.splits)
  have "doc_lexemes merged = doc_lexemes v @ rest"
    using v(1) parse_value_sound(1) [of _ 0 "lex (render merged)" v rest] lex_render [OF t(3)]
    by (auto simp: first_value_def Let_def simp del: parse_value.simps split: if_splits option.splits)
  then have "v = JObj t" using doc_lexemes_prefix [of merged "[]" v rest] t(1) by simp
  moreover have "(n, u) \<in> set (cfToolUpstreams c0)" using assms(2) c0(2) by (auto simp: map_get_def dest: map_of_SomeD)
  ultimately obtain k ms' raw e where k: "(k, JObj ms') \<in> set t" "names_field ''tool_upstreams'' k" "(n, raw) \<in> set ms'"
      "u = fst (set_tool_upstream True raw (zero_tool_upstream, e))"
    using decoded_upstreams v(2) by metis
  have kt: "map_get t k = Some (JObj ms')" using k(1) map_wf_distinct [OF t(2)] by (simp add: map_get_def)
  have base: "committed base n" if b: "map_get (table_of base) k = Some (JObj ms1)" "map_get (raw_map ms1) n \<noteq> None" for ms1
  proof -
    obtain ms where ms: "parse_json base = Some (JObj ms)" "table_of base = raw_map ms"
      using b(1) by (auto simp: table_of_def split: option.splits json.splits)
    have "(k, JObj ms1) \<in> set ms" using b(1) ms(2) by (auto simp: map_get_raw_map dest: map_of_SomeD)
    moreover have "n \<in> fst ` set ms1" using b(2) by (auto simp: map_get_raw_map map_of_eq_None_iff)
    ultimately show ?thesis using ms(1) k(2) unfolding committed_def by blast
  qed
  show ?thesis
  proof (cases "k \<in> set mergeableBlocks")
    case False
    then have "map_get (table_of base) k = Some (JObj ms')" using merged_ofD(1) [OF t(4)] kt by simp
    moreover have "map_get (raw_map ms') n \<noteq> None" using k(3) unfolding map_get_raw_map map_of_eq_None_iff by force
    ultimately show ?thesis using base by blast
  next
    case True
    then have kk: "k = ''tool_upstreams''" using k(2) by (auto simp: mergeableBlocks_def names_field_def go_defs lower_char_def is_upper_def)
    have "entry_of t k n = Some raw"
    proof -
      have "distinct (map fst (rev ms'))" using dist [OF True kt] by (simp add: rev_map [symmetric])
      then show ?thesis using kt k(3) by (simp add: entry_of_def map_get_raw_map map_of_eq_Some_iff)
    qed
    then consider "entry_of (table_of base) k n = Some raw" | f where "f \<in> set frags" "entry_of (table_of (fgRaw f)) k n = Some raw"
      using merged_ofD(2) [OF t(4)] True by blast
    then show ?thesis
    proof cases
      case 1
      then show ?thesis using base by (auto simp: entry_of_def split: option.splits json.splits)
    next
      case (2 f)
      then have "refuseCustodyFields (fgName f) n raw = None" using merged_ofD(4) [OF t(4)] kk by blast
      then show ?thesis using vetted_entry k(4) by blast
    qed
  qed
qed

subsection \<open>What a merge changes\<close>

text \<open>
  C33: a merge only adds: every block a fragment may not carry is the committed table's, a block it
  may carry holds exactly the entries of the committed table and of the fragments, as they were
  written, and no name is defined by two of them.
\<close>

theorem a_merge_only_adds:
  assumes "Merge base frags = Inr merged"
  shows "\<exists>t. merged = JObj t \<and> (\<forall>k. \<not> mergeable k \<longrightarrow> map_get t k = map_get (table_of base) k) \<and>
    (\<forall>b \<in> set mergeableBlocks. \<forall>n v. entry_of t b n = Some v \<longleftrightarrow>
       entry_of (table_of base) b n = Some v \<or> (\<exists>f \<in> set frags. entry_of (table_of (fgRaw f)) b n = Some v)) \<and>
    (\<forall>b \<in> set mergeableBlocks. \<forall>n. \<forall>f \<in> set frags. entry_of (table_of (fgRaw f)) b n \<noteq> None \<longrightarrow> entry_of (table_of base) b n = None) \<and>
    sorted_wrt (\<lambda>f g. \<forall>b \<in> set mergeableBlocks. \<forall>n.
       entry_of (table_of (fgRaw f)) b n = None \<or> entry_of (table_of (fgRaw g)) b n = None) frags \<and>
    (\<forall>f \<in> set frags. \<forall>k \<in> fst ` set (table_of (fgRaw f)). mergeable k)"
proof -
  have mg: "mergeable k \<longleftrightarrow> k \<in> set mergeableBlocks" for k by (auto simp: mergeable_def list_ex_iff)
  obtain t where "merged = JObj t" and m: "merged_of (table_of base) frags t" using Merge_outcome [OF assms] by metis
  then show ?thesis
    unfolding mg using merged_ofD(1) [OF m] merged_ofD(2) [OF m] merged_ofD(3) [OF m] merged_ofD(5) [OF m] merged_ofD(6) [OF m]
    by (intro exI [of _ t] conjI) (assumption | blast)+
qed

text \<open>
  C34: the walk refuses a text exactly when it is not one document in which no object, at any depth, writes a
  key twice and no value is nested deeper than the limit; it never runs out of fuel. An accepted
  merge had such a base and such fragments.
\<close>

theorem duplicated_keys_are_refused:
  "(refuseDuplicateKeys raw = None \<longleftrightarrow> (\<exists>v. lex raw = doc_lexemes v \<and> no_dup_keys v \<and> doc_depth v \<le> maxConfigDepth + 1)) \<and>
   refuseDuplicateKeys raw \<noteq> Some WkFuel \<and>
   (Merge raw frags = Inr merged \<longrightarrow> refuseDuplicateKeys raw = None \<and> (\<forall>f \<in> set frags. refuseDuplicateKeys (fgRaw f) = None))"
proof (intro conjI impI)
  show "refuseDuplicateKeys raw \<noteq> Some WkFuel"
  proof -
    obtain r where r: "walkDuplicates (2 * length (lexemes (new_decoder raw)) + 1) (new_decoder raw) 0 = r" by blast
    then have "r \<noteq> Inl WkFuel" using walk_fuel(1) by blast
    then show ?thesis unfolding refuseDuplicateKeys_def Let_def r by (auto split: sum.splits prod.splits json_error.splits)
  qed
next
  assume "Merge raw frags = Inr merged"
  then obtain t where "refuseDuplicateKeys raw = None" and m: "merged_of (table_of raw) frags t" using Merge_outcome by metis
  then show "refuseDuplicateKeys raw = None" "\<forall>f \<in> set frags. refuseDuplicateKeys (fgRaw f) = None"
    using merged_ofD(5) [OF m] by simp_all
qed (simp add: refuseDuplicateKeys_iff)

text \<open>
  Two spellings of one field are not a duplicated key to the walk, and the decoder lets the
  later one win: an overlay entry whose url a reviewer reads first may be another than the one
  that is loaded.
\<close>

theorem a_variant_spelling_is_not_a_duplicate:
  "no_dup_keys (JObj [(''url'', JStr a), (''URL'', JStr b)]) \<and>
   refuseCustodyFields f n (JObj [(''url'', JStr a), (''URL'', JStr b)]) = None \<and>
   set_tool_upstream True (JObj [(''url'', JStr a), (''URL'', JStr b)]) (zero_tool_upstream, False) = (zero_tool_upstream\<lparr>tuURL := b\<rparr>, False)"
proof -
  have names: "names_field x ''url'' \<longleftrightarrow> x = ''url''" "names_field x ''URL'' \<longleftrightarrow> x = ''url''" for x
  proof -
    have "fold_runes ''url'' = ''url''" "fold_runes ''URL'' = ''url''" by code_simp+
    then show "names_field x ''url'' \<longleftrightarrow> x = ''url''" "names_field x ''URL'' \<longleftrightarrow> x = ''url''" by (auto simp: names_field_def)
  qed
  have up: "set_tool_upstream s (JObj [(''url'', JStr a), (''URL'', JStr b)]) (zero_tool_upstream, False) = (zero_tool_upstream\<lparr>tuURL := b\<rparr>, False)" for s
    by (simp add: set_tool_upstream_def set_struct_def set_members_def tool_upstream_fields_def names set_field_def set_string_def zero_tool_upstream_def)
  have "\<not> custody_key ''url''" "\<not> custody_key ''URL''" by (simp_all add: custody_key_def custodyFields_def names)
  then show ?thesis
    using up by (auto simp: refuseCustodyFields_def unmarshal_raw_map_def nil_map_def raw_map_def zero_tool_upstream_def
        find_None_iff split: option.splits dest!: find_Some_in)
qed

subsection \<open>Witnesses\<close>

definition ov_base :: json where
  "ov_base = JObj [(''upstreams'', JObj [(''llm'', JObj [(''base_url'', JStr ''u''), (''classification'', JStr ''free''), (''path'', JStr ''v1'')])])]"

definition ov_frag :: json where
  "ov_frag = JObj [(''tool_upstreams'', JObj [(''t'', JObj [(''url'', JStr ''u'')])])]"

definition ov_merged :: json where
  "ov_merged = JObj [(''tool_upstreams'', JObj [(''t'', JObj [(''url'', JStr ''u'')])]),
     (''upstreams'', JObj [(''llm'', JObj [(''base_url'', JStr ''u''), (''classification'', JStr ''free''), (''path'', JStr ''v1'')])])]"

lemma ov_texts:
  "parse_json (render ov_base) = Some ov_base" "parse_json (render ov_frag) = Some ov_frag"
  "refuseDuplicateKeys (render ov_base) = None" "refuseDuplicateKeys (render ov_frag) = None"
  "first_value (render ov_merged) = Inr (ov_merged, [])"
proof -
  have ok: "json_ok ov_base" "json_ok ov_frag" "json_ok ov_merged"
    unfolding ov_base_def ov_frag_def ov_merged_def by (auto intro!: utf8_valid_ascii)
  note lx = ok [THEN lex_render]
  show "parse_json (render ov_base) = Some ov_base" "parse_json (render ov_frag) = Some ov_frag"
    unfolding parse_json_iff lx by (simp_all add: ov_base_def ov_frag_def maxNestingDepth_def)
  show "refuseDuplicateKeys (render ov_base) = None"
    unfolding refuseDuplicateKeys_iff lx by (intro exI [of _ ov_base]) (simp add: ov_base_def maxConfigDepth_def)
  show "refuseDuplicateKeys (render ov_frag) = None"
    unfolding refuseDuplicateKeys_iff lx by (intro exI [of _ ov_frag]) (simp add: ov_frag_def maxConfigDepth_def)
  show "first_value (render ov_merged) = Inr (ov_merged, [])"
    using lx(3) by (rule first_value_run) (simp add: ov_merged_def maxNestingDepth_def)
qed

lemma ov_names:
  "names_field x ''url'' \<longleftrightarrow> x = ''url''" "names_field x ''upstreams'' \<longleftrightarrow> x = ''upstreams''"
  "names_field x ''tool_upstreams'' \<longleftrightarrow> x = ''tool_upstreams''" "names_field x ''base_url'' \<longleftrightarrow> x = ''base_url''"
  "names_field x ''classification'' \<longleftrightarrow> x = ''classification''" "names_field x ''path'' \<longleftrightarrow> x = ''path''"
proof -
  have "fold_runes ''url'' = ''url''" "fold_runes ''upstreams'' = ''upstreams''" "fold_runes ''tool_upstreams'' = ''tool_upstreams''"
    "fold_runes ''base_url'' = ''base_url''" "fold_runes ''classification'' = ''classification''" "fold_runes ''path'' = ''path''" by code_simp+
  then show "names_field x ''url'' \<longleftrightarrow> x = ''url''" "names_field x ''upstreams'' \<longleftrightarrow> x = ''upstreams''"
    "names_field x ''tool_upstreams'' \<longleftrightarrow> x = ''tool_upstreams''" "names_field x ''base_url'' \<longleftrightarrow> x = ''base_url''"
    "names_field x ''classification'' \<longleftrightarrow> x = ''classification''" "names_field x ''path'' \<longleftrightarrow> x = ''path''" by (auto simp: names_field_def)
qed

definition ov_fragment :: Fragment where "ov_fragment = \<lparr>fgName = ''a.json'', fgRaw = render ov_frag\<rparr>"

lemma ov_frag_tables:
  "unmarshal_raw_map ov_base = Some (Some [(''upstreams'', JObj [(''llm'', JObj [(''base_url'', JStr ''u''), (''classification'', JStr ''free''), (''path'', JStr ''v1'')])])])"
  "unmarshal_raw_map ov_frag = Some (Some [(''tool_upstreams'', JObj [(''t'', JObj [(''url'', JStr ''u'')])])])"
  by (simp_all add: ov_base_def ov_frag_def unmarshal_raw_map_def raw_map_def)

lemma ov_vetted: "refuseCustodyFields f n (JObj [(''url'', JStr ''u'')]) = None"
proof -
  have "\<not> custody_key ''url''" by (simp add: custody_key_def custodyFields_def ov_names)
  then show ?thesis by (simp add: refuseCustodyFields_def unmarshal_raw_map_def raw_map_def nil_map_def set_tool_upstream_def
        set_struct_def set_members_def tool_upstream_fields_def ov_names set_field_def set_string_def zero_tool_upstream_def)
qed

lemma ov_merges: "Merge (render ov_base) [ov_fragment] = Inr ov_merged"
proof -
  have "merge_fragment ov_fragment \<lparr>mgTable = Some [(''upstreams'', x)], mgOrigin = o1\<rparr> =
      Inr \<lparr>mgTable = Some [(''tool_upstreams'', JObj [(''t'', JObj [(''url'', JStr ''u'')])]), (''upstreams'', x)],
        mgOrigin = map_set ''tool_upstreams'' [(''t'', ''overlay a.json'')] o1\<rparr>"
    if "map_get o1 ''tool_upstreams'' = Some []" for x o1
    using that
    by (simp add: merge_fragment_def ov_fragment_def ov_texts ov_frag_tables nil_map_def mergeable_def mergeableBlocks_def merge_block_def
        namesIn_def map_get_def raw_map_def add_entry_def ov_vetted origin_of_def)
  then show ?thesis
    by (simp add: Merge_def ov_texts ov_frag_tables nil_map_def mergeableBlocks_def base_block_def namesIn_def map_get_def
        marshalSorted_def ov_merged_def)
qed

definition ov_url :: URL where
  "ov_url = \<lparr>urlScheme = ''http'', urlHost = ''api'', urlHostname = ''api'', urlPort = [], urlUser = False\<rparr>"

definition ov_tool :: ToolUpstream where "ov_tool = zero_tool_upstream\<lparr>tuURL := ''u''\<rparr>"

lemma ov_decodes: "\<exists>c. decode_config (render ov_merged) = Some c \<and> cfToolUpstreams c = [(''t'', ov_tool)] \<and>
    cfUpstreams c = [(''llm'', zero_upstream\<lparr>upBaseURL := ''u'', upClassification := ''free'', upPath := ''v1''\<rparr>)] \<and>
    cfInboundHooks c = [] \<and> cfApprovalNotifier c = None \<and> cfStandingConstraints c = []"
  unfolding decode_config_def ov_texts sum.case prod.case
  by (simp add: config_of_def ov_merged_def set_struct_def set_members_def config_fields_def ov_names
      set_field_def set_map_def set_tool_upstream_def tool_upstream_fields_def set_upstream_def set_string_def zero_config_def
      zero_upstream_def zero_tool_upstream_def ov_tool_def)

lemma ov_loads:
  "\<exists>c. LoadDir (\<lambda>r. Some ov_url) (\<lambda>h. None) (Some (render ov_base)) ''/d'' (Entries [\<lparr>deName = ''a.json'', deIsDir = False, deRaw = Some (render ov_frag)\<rparr>]) = Inr c \<and>
     map_get (cfToolUpstreams c) ''t'' = Some ov_tool"
proof -
  obtain c where c: "decode_config (render ov_merged) = Some c" "cfToolUpstreams c = [(''t'', ov_tool)]"
    "cfUpstreams c = [(''llm'', zero_upstream\<lparr>upBaseURL := ''u'', upClassification := ''free'', upPath := ''v1''\<rparr>)]"
    "cfInboundHooks c = []" "cfApprovalNotifier c = None" "cfStandingConstraints c = []" using ov_decodes by blast
  have "FragmentName ''a.json''" by (simp add: FragmentName_def has_prefix_def has_suffix_def)
  then have r: "Read (Some (render ov_base)) ''/d'' (Entries [\<lparr>deName = ''a.json'', deIsDir = False, deRaw = Some (render ov_frag)\<rparr>]) =
      Inr (render ov_base, [ov_fragment])"
    by (simp add: Read_def ov_fragment_def)
  have "\<exists>p. Parse decode_config (\<lambda>r. Some ov_url) (\<lambda>h. None) (render ov_merged) = Inr (c\<lparr>cfPolicy := p\<rparr>)"
    by (intro exI [of _ "\<lparr>declared = [], constraints = []\<rparr>"]) (simp add: Parse_def c check_all_def check_upstream_def check_tool_upstream_def zero_upstream_def zero_tool_upstream_def ov_tool_def ov_url_def
        hostedShape_def ClassFree_def ClassMetered_def check_notifier_def buildPolicy_def validHeaderName_def go_defs)
  then show ?thesis by (auto simp: LoadDir_def r ov_merges c(2) map_get_def)
qed

theorem an_overlay_entry_carries_no_custody_witness: "no_custody ov_tool \<and> \<not> committed (render ov_base) ''t''"
proof -
  have "\<not> committed (render ov_base) ''t''" unfolding committed_def ov_texts by (auto simp: ov_base_def ov_names)
  then show ?thesis using ov_loads an_overlay_entry_carries_no_custody by blast
qed

theorem a_merge_only_adds_witness:
  "\<exists>t. ov_merged = JObj t \<and> map_get t ''upstreams'' = map_get (table_of (render ov_base)) ''upstreams'' \<and>
     entry_of t ''tool_upstreams'' ''t'' = Some (JObj [(''url'', JStr ''u'')])"
proof -
  have "\<not> mergeable ''upstreams''" by (simp add: mergeable_def mergeableBlocks_def)
  then show ?thesis using a_merge_only_adds [OF ov_merges] by (auto simp: ov_merged_def entry_of_def raw_map_def map_get_def)
qed

theorem duplicated_keys_are_refused_witness: "refuseDuplicateKeys (render ov_base) = None \<and> refuseDuplicateKeys (fgRaw ov_fragment) = None"
  using duplicated_keys_are_refused [of "render ov_base" "[ov_fragment]" ov_merged] ov_merges by simp

end
