(* ===== verification/Admin.thy ===== *)
theory Admin
  imports Overlay Digest Http Clock Store Approvals InboundStore
begin

text \<open>
  Component \<^verbatim>\<open>plane/internal/proxy/admin.go\<close>, \<^verbatim>\<open>admin_approvals.go\<close> and \<^verbatim>\<open>validate.go\<close>: the control
  surface. The store is a record of operations over a state \<open>'s\<close>; the token file, the clock, the
  entropy, SHA-256 and url.Parse are fields of the dependencies. A view is what the handler
  encodes, before the encoding of its rows as JSON; routing is the type of the routes, and logs
  and the texts of library errors inside a message are left out.
\<close>

subsection \<open>Dependencies\<close>

record 's admin_store =
  asCreateCredential :: "string \<Rightarrow> string \<Rightarrow> int \<Rightarrow> 's \<Rightarrow> (store_error + unit) \<times> 's"
  asRenewCredential :: "string \<Rightarrow> int \<Rightarrow> 's \<Rightarrow> (store_error + unit) \<times> 's"
  asListCredentials :: "'s \<Rightarrow> (store_error + Credential list) \<times> 's"
  asSetBudget :: "string \<Rightarrow> int option \<Rightarrow> int option \<Rightarrow> 's \<Rightarrow> (store_error + unit) \<times> 's"
  asLedger :: "string \<Rightarrow> int \<Rightarrow> 's \<Rightarrow> (store_error + LedgerEntry list) \<times> 's"
  asMonthUsage :: "string \<Rightarrow> int \<Rightarrow> 's \<Rightarrow> (store_error + (int \<times> int)) \<times> 's"
  asSetToolAllowlist :: "string \<Rightarrow> string list \<Rightarrow> 's \<Rightarrow> (store_error + unit) \<times> 's"
  asToolAllowlist :: "string \<Rightarrow> 's \<Rightarrow> (store_error + string list) \<times> 's"
  asToolAudit :: "string \<Rightarrow> int \<Rightarrow> 's \<Rightarrow> (store_error + ToolAuditEntry list) \<times> 's"
  asCredentialsAllowlisting :: "string list \<Rightarrow> 's \<Rightarrow> (store_error + string list gomap) \<times> 's"
  asFileApprovalRequest :: "Filing \<Rightarrow> 's \<Rightarrow> (store_error + bool) \<times> 's"
  asPendingApprovals :: "'s \<Rightarrow> (store_error + ApprovalRequest list) \<times> 's"
  asApproveRequest :: "string \<Rightarrow> int option \<Rightarrow> int option \<Rightarrow> int option \<Rightarrow> string \<Rightarrow> 's \<Rightarrow> (store_error + Grant) \<times> 's"
  asDenyApprovalRequest :: "string \<Rightarrow> string \<Rightarrow> 's \<Rightarrow> (store_error + unit) \<times> 's"
  asGrants :: "string \<Rightarrow> int \<Rightarrow> 's \<Rightarrow> (store_error + (Grant \<times> bool) list) \<times> 's"
  asApprovalAudit :: "string \<Rightarrow> int \<Rightarrow> 's \<Rightarrow> (store_error + ApprovalAuditEntry list) \<times> 's"
  asInboundAudit :: "string \<Rightarrow> int \<Rightarrow> 's \<Rightarrow> (store_error + InboundAuditEntry list) \<times> 's"

record 's AdminDeps =
  adStore :: "'s admin_store"
  adConfig :: Config
  adConfigBase :: string
  adTokenFile :: string
  adReadFile :: "string \<Rightarrow> 's \<Rightarrow> string option"
  adNow :: "'s \<Rightarrow> int"
  adRandom :: "'s \<Rightarrow> string option"
  adSha :: "string \<Rightarrow> string"
  adUprint :: "nat \<Rightarrow> bool"
  adParseURL :: "string \<Rightarrow> URL option"
  adParseAddr :: "string \<Rightarrow> Addr option"

record AdminRequest = Request +
  aqQuery :: "string gomap"

definition query_get :: "AdminRequest \<Rightarrow> string \<Rightarrow> string" where
  "query_get r k = (case map_get (aqQuery r) k of None \<Rightarrow> [] | Some v \<Rightarrow> v)"

subsection \<open>Answers\<close>

record credentialView =
  cvName :: string
  cvCapCents :: "int option"
  cvCapTokens :: "int option"
  cvExpiresAt :: "int option"
  cvExpired :: bool
  cvExpiringSoon :: bool
  cvCreatedAt :: int

record grant_row =
  rowGrant :: Grant
  rowLive :: bool
  rowCredentialExpiresAt :: "int option"

datatype validate_error = VeMalformed | VeIgnoredKey string | VeMerge merge_error | VeParse config_error | VeStore store_error

record validateResponse =
  vrOK :: bool
  vrError :: "validate_error option"
  vrToolUpstreams :: "string list"
  vrDeclared :: "string list gomap"
  vrTableDeclared :: "string list gomap"
  vrAlreadyAllowlisted :: "string list gomap"

datatype admin_view =
    AvError string
  | AvEmpty
  | AvCredentials "credentialView list"
  | AvRenewed string string
  | AvCreated string string string
  | AvTools string "string list"
  | AvToolAudit "ToolAuditEntry list"
  | AvInboundAudit "InboundAuditEntry list"
  | AvLedger "LedgerEntry list" "(int \<times> int) option"
  | AvFiled bool bool
  | AvPending "ApprovalRequest list"
  | AvGrant Grant
  | AvGrants "grant_row list"
  | AvApprovalAudit "ApprovalAuditEntry list"
  | AvValidated validateResponse
  | AvOk

type_synonym admin_answer = "int \<times> admin_view"

definition store_failed :: admin_answer where "store_failed = (500, AvError ''store error'')"

subsection \<open>Bodies\<close>

text \<open>\<open>json.NewDecoder(http.MaxBytesReader(w, r.Body, limit)).Decode(&req)\<close>.\<close>

definition decode_request :: "nat \<Rightarrow> (json \<Rightarrow> 'a \<times> bool \<Rightarrow> 'a \<times> bool) \<Rightarrow> 'a \<Rightarrow> 'x Request_scheme \<Rightarrow> json_error + 'a" where
  "decode_request limit setter zero r =
     (case bounded_value limit (rqBody r) (rqBroken r) of
        Inl e \<Rightarrow> Inl e
      | Inr v \<Rightarrow> (case setter v (zero, False) of (x, bad) \<Rightarrow> if bad then Inl Syntax else Inr x))"

datatype strict_error = TooLarge | InvalidBody | TrailingData

definition decodeStrict :: "(json \<Rightarrow> 'a \<times> bool \<Rightarrow> 'a \<times> bool) \<Rightarrow> 'a \<Rightarrow> 'x Request_scheme \<Rightarrow> strict_error + 'a" where
  "decodeStrict setter zero r =
     (if rqBroken r \<or> length (rqBody r) > 65536 then Inl TooLarge
      else case first_value (rqBody r) of
             Inl e \<Rightarrow> Inl InvalidBody
           | Inr (v, rest) \<Rightarrow>
               (case setter v (zero, False) of
                  (x, bad) \<Rightarrow> if bad then Inl InvalidBody else if rest \<noteq> [] then Inl TrailingData else Inr x))"

definition strict_answer :: "strict_error \<Rightarrow> admin_answer" where
  "strict_answer e = (400, AvError (case e of TooLarge \<Rightarrow> ''body unreadable or too large''
     | InvalidBody \<Rightarrow> ''invalid body'' | TrailingData \<Rightarrow> ''trailing data after document''))"

definition set_opt_int64 :: "json \<Rightarrow> int option \<times> bool \<Rightarrow> int option \<times> bool" where
  "set_opt_int64 = set_pointer set_int64 0"

text \<open>\<open>limit, _ := strconv.Atoi(s)\<close>: out of range gives the nearest bound, not a number gives 0.\<close>

definition atoi :: "string \<Rightarrow> int" where
  "atoi s =
     (case s of
        [] \<Rightarrow> 0
      | c # cs \<Rightarrow>
          (let body = (if c = CHR ''-'' \<or> c = CHR ''+'' then cs else s) in
           case parse_uint body of
             None \<Rightarrow> 0
           | Some n \<Rightarrow> max (- 9223372036854775808) (min 9223372036854775807 (if c = CHR ''-'' then - int n else int n))))"

subsection \<open>Credentials and budgets\<close>

definition credentialName :: "string \<Rightarrow> bool" where
  "credentialName s \<longleftrightarrow> (case s of [] \<Rightarrow> False
     | c # cs \<Rightarrow> dns_char c \<and> class_len (\<lambda>x. dns_char x \<or> x = CHR ''-'') 0 62 cs)"

definition defaultCredentialTTL :: int where "defaultCredentialTTL = 30 * 24 * hour"
definition minCredentialTTL :: int where "minCredentialTTL = minute"
definition maxCredentialTTL :: int where "maxCredentialTTL = 365 * 24 * hour"

definition credentialTTL :: "int option \<Rightarrow> int option" where
  "credentialTTL ttlSeconds =
     (case ttlSeconds of
        None \<Rightarrow> Some defaultCredentialTTL
      | Some n \<Rightarrow>
          (let d = wrap64 (n * second) in if d < minCredentialTTL \<or> d > maxCredentialTTL then None else Some d))"

definition ttlRefusal :: string where
  "ttlRefusal = ''ttl_seconds must be between 60 and 31536000 (a credential with no expiry cannot be issued)''"

definition view_credential :: "int \<Rightarrow> Credential \<Rightarrow> credentialView" where
  "view_credential now c = \<lparr>cvName = crName c, cvCapCents = crCapCents c, cvCapTokens = crCapTokens c,
     cvExpiresAt = crExpiresAt c, cvExpired = Expired c now, cvExpiringSoon = ExpiringSoon c now ExpiryWarning,
     cvCreatedAt = crCreatedAt c\<rparr>"

definition listCredentials :: "'s AdminDeps \<Rightarrow> 's \<Rightarrow> admin_answer \<times> 's" where
  "listCredentials d s =
     (case asListCredentials (adStore d) s of
        (Inl e, s1) \<Rightarrow> (store_failed, s1)
      | (Inr creds, s1) \<Rightarrow> ((200, AvCredentials (map (view_credential (adNow d s1)) creds)), s1))"

definition set_renew :: "json \<Rightarrow> int option \<times> bool \<Rightarrow> int option \<times> bool" where
  "set_renew = set_struct (set_members False [(''ttl_seconds'', set_opt_int64)])"

definition renewCredential :: "'s AdminDeps \<Rightarrow> string \<Rightarrow> AdminRequest \<Rightarrow> 's \<Rightarrow> admin_answer \<times> 's" where
  "renewCredential d name r s =
     (if \<not> credentialName name then ((400, AvError ''credential must be a lowercase DNS label''), s)
      else case decode_request 4096 set_renew None r of
             Inl Syntax \<Rightarrow> ((400, AvError ''body must be {\"ttl_seconds\": n} or empty''), s)
           | req \<Rightarrow>
               (case credentialTTL (case req of Inr t \<Rightarrow> t | Inl _ \<Rightarrow> None) of
                  None \<Rightarrow> ((400, AvError ttlRefusal), s)
                | Some ttl \<Rightarrow>
                    (let expires = adNow d s + ttl in
                     case asRenewCredential (adStore d) name expires s of
                       (Inl e, s1) \<Rightarrow> ((if e = ErrNotFound then (404, AvError ''no such credential'') else store_failed), s1)
                     | (Inr _, s1) \<Rightarrow> ((200, AvRenewed name (format_rfc3339 expires)), s1))))"

definition set_create :: "json \<Rightarrow> (string \<times> int option) \<times> bool \<Rightarrow> (string \<times> int option) \<times> bool" where
  "set_create = set_struct (set_members False
     [(''name'', set_field set_string fst (\<lambda>x t. (x, snd t))), (''ttl_seconds'', set_field set_opt_int64 snd (\<lambda>x t. (fst t, x)))])"

definition createCredential :: "'s AdminDeps \<Rightarrow> AdminRequest \<Rightarrow> 's \<Rightarrow> admin_answer \<times> 's" where
  "createCredential d r s =
     (let bad = ((400, AvError ''body must be {\"name\": \"<lowercase-dns-label>\", \"ttl_seconds\": n}''), s) in
      case decode_request 4096 set_create ([], None) r of
        Inl e \<Rightarrow> bad
      | Inr (name, ttlSeconds) \<Rightarrow>
          if \<not> credentialName name then bad
          else case credentialTTL ttlSeconds of
                 None \<Rightarrow> ((400, AvError ttlRefusal), s)
               | Some ttl \<Rightarrow>
                   (let expires = adNow d s + ttl in
                    case adRandom d s of
                      None \<Rightarrow> ((500, AvError ''entropy unavailable''), s)
                    | Some buf \<Rightarrow>
                        (let token = ''kmh_'' @ hex_encode buf in
                         case asCreateCredential (adStore d) name (adSha d token) expires s of
                           (Inl e, s1) \<Rightarrow> ((if e = ErrExists then (409, AvError ''credential name already exists'') else store_failed), s1)
                         | (Inr _, s1) \<Rightarrow> ((201, AvCreated name token (format_rfc3339 expires)), s1))))"

record budget_request =
  bqCredential :: string
  bqCapCents :: "int option"
  bqCapTokens :: "int option"

definition set_budget_request :: "json \<Rightarrow> budget_request \<times> bool \<Rightarrow> budget_request \<times> bool" where
  "set_budget_request = set_struct (set_members False
     [(''credential'', set_field set_string bqCredential (\<lambda>x t. t\<lparr>bqCredential := x\<rparr>)),
      (''cap_cents'', set_field set_opt_int64 bqCapCents (\<lambda>x t. t\<lparr>bqCapCents := x\<rparr>)),
      (''cap_tokens'', set_field set_opt_int64 bqCapTokens (\<lambda>x t. t\<lparr>bqCapTokens := x\<rparr>))])"

definition setBudget :: "'s AdminDeps \<Rightarrow> AdminRequest \<Rightarrow> 's \<Rightarrow> admin_answer \<times> 's" where
  "setBudget d r s =
     (let bad = ((400, AvError ''body must be {\"credential\": ..., \"cap_cents\": n|null, \"cap_tokens\": n|null}''), s) in
      case decode_request 4096 set_budget_request \<lparr>bqCredential = [], bqCapCents = None, bqCapTokens = None\<rparr> r of
        Inl e \<Rightarrow> bad
      | Inr req \<Rightarrow>
          if bqCredential req = [] \<or> (case bqCapCents req of None \<Rightarrow> False | Some n \<Rightarrow> n < 0) \<or>
             (case bqCapTokens req of None \<Rightarrow> False | Some n \<Rightarrow> n < 0) then bad
          else case asSetBudget (adStore d) (bqCredential req) (bqCapCents req) (bqCapTokens req) s of
                 (Inl e, s1) \<Rightarrow> ((if e = ErrNotFound then (404, AvError ''no such credential'') else store_failed), s1)
               | (Inr _, s1) \<Rightarrow> ((204, AvEmpty), s1))"

subsection \<open>Allowlists, audits, the ledger\<close>

definition set_allow_request :: "json \<Rightarrow> (string \<times> string slice option) \<times> bool \<Rightarrow> (string \<times> string slice option) \<times> bool" where
  "set_allow_request = set_struct (set_members False
     [(''credential'', set_field set_string fst (\<lambda>x t. (x, snd t))),
      (''tools'', set_field (set_pointer (set_slice set_string []) ([], 0)) snd (\<lambda>x t. (fst t, x)))])"

definition setToolAllowlist :: "'s AdminDeps \<Rightarrow> AdminRequest \<Rightarrow> 's \<Rightarrow> admin_answer \<times> 's" where
  "setToolAllowlist d r s =
     (let bad = ((400, AvError ''body must be {\"credential\": ..., \"tools\": [...]} (tools required; [] clears)''), s) in
      case decode_request 65536 set_allow_request ([], None) r of
        Inl e \<Rightarrow> bad
      | Inr (credential, tools) \<Rightarrow>
          (case tools of
             None \<Rightarrow> bad
           | Some sl \<Rightarrow>
               if \<not> credentialName credential then bad
               else case List.find (\<lambda>t. \<not> toolName t) (slice_elems sl) of
                      Some t \<Rightarrow> ((400, AvError (''invalid tool name '' @ quote (adUprint d) t)), s)
                    | None \<Rightarrow>
                        (case asSetToolAllowlist (adStore d) credential (slice_elems sl) s of
                           (Inl e, s1) \<Rightarrow> ((if e = ErrNotFound then (404, AvError ''no such credential'') else store_failed), s1)
                         | (Inr _, s1) \<Rightarrow> ((204, AvEmpty), s1))))"

definition toolAllowlist :: "'s AdminDeps \<Rightarrow> AdminRequest \<Rightarrow> 's \<Rightarrow> admin_answer \<times> 's" where
  "toolAllowlist d r s =
     (let name = query_get r ''credential'' in
      if \<not> credentialName name then ((400, AvError ''credential query parameter required''), s)
      else case asToolAllowlist (adStore d) name s of
             (Inl e, s1) \<Rightarrow> (store_failed, s1)
           | (Inr tools, s1) \<Rightarrow> ((200, AvTools name tools), s1))"

definition toolAudit :: "'s AdminDeps \<Rightarrow> AdminRequest \<Rightarrow> 's \<Rightarrow> admin_answer \<times> 's" where
  "toolAudit d r s =
     (case asToolAudit (adStore d) (query_get r ''credential'') (atoi (query_get r ''limit'')) s of
        (Inl e, s1) \<Rightarrow> (store_failed, s1)
      | (Inr entries, s1) \<Rightarrow> ((200, AvToolAudit entries), s1))"

definition inboundAudit :: "'s AdminDeps \<Rightarrow> AdminRequest \<Rightarrow> 's \<Rightarrow> admin_answer \<times> 's" where
  "inboundAudit d r s =
     (let hook = query_get r ''hook'' in
      if hook \<noteq> [] \<and> \<not> credentialName hook then ((400, AvError ''hook must be a lowercase DNS label''), s)
      else case asInboundAudit (adStore d) hook (atoi (query_get r ''limit'')) s of
             (Inl e, s1) \<Rightarrow> (store_failed, s1)
           | (Inr entries, s1) \<Rightarrow> ((200, AvInboundAudit entries), s1))"

definition ledger :: "'s AdminDeps \<Rightarrow> AdminRequest \<Rightarrow> 's \<Rightarrow> admin_answer \<times> 's" where
  "ledger d r s =
     (let name = query_get r ''credential'' in
      case asLedger (adStore d) name (atoi (query_get r ''limit'')) s of
        (Inl e, s1) \<Rightarrow> (store_failed, s1)
      | (Inr entries, s1) \<Rightarrow>
          if name = [] then ((200, AvLedger entries None), s1)
          else (case asMonthUsage (adStore d) name (MonthStartUTC (adNow d s1)) s1 of
                  (Inl e, s2) \<Rightarrow> (store_failed, s2)
                | (Inr usage, s2) \<Rightarrow> ((200, AvLedger entries (Some usage)), s2)))"

subsection \<open>Approvals\<close>

definition uuidRe :: "string \<Rightarrow> bool" where
  "uuidRe s \<longleftrightarrow> length s = 36 \<and>
     list_all (\<lambda>i. if i \<in> {8, 13, 18, 23} then s ! i = CHR ''-'' else is_digit (s ! i) \<or> (97 \<le> code (s ! i) \<and> code (s ! i) \<le> 102)) [0..<36]"

definition subjectRe :: "string \<Rightarrow> bool" where
  "subjectRe s \<longleftrightarrow> class_len (\<lambda>c. is_alnum c \<or> c = CHR ''.'' \<or> c = CHR ''_'' \<or> c = CHR ''-'') 1 128 s"

definition maxTTLSeconds :: int where "maxTTLSeconds = 30 * 24 * 60 * 60"
definition maxUsesLimit :: int where "maxUsesLimit = 1000000"
definition admin_maxAmount :: int where "admin_maxAmount = 1000000000000"

record file_request =
  fqCredential :: string
  fqKind :: string
  fqSubject :: string
  fqArguments :: "json option"

definition set_file_request :: "json \<Rightarrow> file_request \<times> bool \<Rightarrow> file_request \<times> bool" where
  "set_file_request = set_struct (set_members True
     [(''credential'', set_field set_string fqCredential (\<lambda>x t. t\<lparr>fqCredential := x\<rparr>)),
      (''kind'', set_field set_string fqKind (\<lambda>x t. t\<lparr>fqKind := x\<rparr>)),
      (''subject'', set_field set_string fqSubject (\<lambda>x t. t\<lparr>fqSubject := x\<rparr>)),
      (''arguments'', set_field set_raw fqArguments (\<lambda>x t. t\<lparr>fqArguments := x\<rparr>))])"

text \<open>The call the filing is welded to: the gateway's own binding of the arguments' text.\<close>

definition file_binding :: "'s AdminDeps \<Rightarrow> file_request \<Rightarrow> bind_error + CallBinding" where
  "file_binding d req =
     (case Declared (cfPolicy (adConfig d)) (fqSubject req) of
        (fs, isDeclared) \<Rightarrow>
          BindArguments (adSha d) (adUprint d) (fqSubject req) (case fqArguments req of None \<Rightarrow> [] | Some v \<Rightarrow> render v) fs isDeclared)"

definition file_filing :: "'s AdminDeps \<Rightarrow> file_request \<Rightarrow> bind_error + Filing" where
  "file_filing d req =
     (let filing = \<lparr>fiCredential = fqCredential req, fiKind = fqKind req, fiSubject = fqSubject req,
            fiDetail = ''filed explicitly via admin'', fiArgDigest = [], fiArgSummary = []\<rparr> in
      if fqKind req = ''tool'' then
        (case file_binding d req of
           Inl e \<Rightarrow> Inl e
         | Inr b \<Rightarrow> Inr (filing\<lparr>fiArgDigest := cbDigest b, fiArgSummary := cbSummary b\<rparr>))
      else Inr filing)"

definition admin_fileRequest :: "'s AdminDeps \<Rightarrow> AdminRequest \<Rightarrow> 's \<Rightarrow> admin_answer \<times> 's" where
  "admin_fileRequest d r s =
     (case decodeStrict set_file_request \<lparr>fqCredential = [], fqKind = [], fqSubject = [], fqArguments = None\<rparr> r of
        Inl e \<Rightarrow> (strict_answer e, s)
      | Inr req \<Rightarrow>
          if \<not> credentialName (fqCredential req) \<or>
             (fqKind req \<noteq> ''tool'' \<and> fqKind req \<noteq> ''budget'' \<and> fqKind req \<noteq> ''inbound'') \<or>
             \<not> subjectRe (fqSubject req) \<or>
             (fqKind req = ''budget'' \<and> fqSubject req \<noteq> ''tokens'' \<and> fqSubject req \<noteq> ''cents'') \<or>
             (fqKind req = ''inbound'' \<and> \<not> credentialName (fqSubject req))
          then ((400, AvError ''body must be {\"credential\": ..., \"kind\": \"tool\"|\"budget\"|\"inbound\", \"subject\": ...} (budget subjects: tokens|cents; inbound subject: hook name)''), s)
          else if fqKind req \<noteq> ''tool'' \<and> fqArguments req \<noteq> None
          then ((400, AvError ''arguments are meaningful only on tool requests''), s)
          else case file_filing d req of
                 Inl e \<Rightarrow> ((400, AvError ''invalid tool arguments''), s)
               | Inr filing \<Rightarrow>
                   (case asFileApprovalRequest (adStore d) filing s of
                      (Inl e, s1) \<Rightarrow> ((if e = ErrNotFound then (404, AvError ''no such credential'') else store_failed), s1)
                    | (Inr filed, s1) \<Rightarrow> ((201, AvFiled filed (\<not> filed)), s1)))"

definition listApprovals :: "'s AdminDeps \<Rightarrow> 's \<Rightarrow> admin_answer \<times> 's" where
  "listApprovals d s =
     (case asPendingApprovals (adStore d) s of
        (Inl e, s1) \<Rightarrow> (store_failed, s1)
      | (Inr pending, s1) \<Rightarrow> ((200, AvPending pending), s1))"

record approval_bounds =
  abTTLSeconds :: "int option"
  abMaxUses :: "int option"
  abAmount :: "int option"

definition set_approval_bounds :: "json \<Rightarrow> approval_bounds \<times> bool \<Rightarrow> approval_bounds \<times> bool" where
  "set_approval_bounds = set_struct (set_members True
     [(''ttl_seconds'', set_field set_opt_int64 abTTLSeconds (\<lambda>x t. t\<lparr>abTTLSeconds := x\<rparr>)),
      (''max_uses'', set_field (set_pointer set_int32 0) abMaxUses (\<lambda>x t. t\<lparr>abMaxUses := x\<rparr>)),
      (''amount'', set_field set_opt_int64 abAmount (\<lambda>x t. t\<lparr>abAmount := x\<rparr>))])"

definition out_of_bounds :: "int option \<Rightarrow> int \<Rightarrow> bool" where
  "out_of_bounds x limit \<longleftrightarrow> (case x of None \<Rightarrow> False | Some n \<Rightarrow> n < 1 \<or> n > limit)"

definition approve :: "'s AdminDeps \<Rightarrow> string \<Rightarrow> AdminRequest \<Rightarrow> 's \<Rightarrow> admin_answer \<times> 's" where
  "approve d rid r s =
     (if \<not> uuidRe rid then ((400, AvError ''request id must be a UUID (see /admin/approvals)''), s)
      else case decodeStrict set_approval_bounds \<lparr>abTTLSeconds = None, abMaxUses = None, abAmount = None\<rparr> r of
             Inl e \<Rightarrow> (strict_answer e, s)
           | Inr req \<Rightarrow>
               if abTTLSeconds req = None \<and> abMaxUses req = None
               then ((400, AvError (''an unbounded grant is a config change, not an approval '' @ [CHR 0xE2, CHR 0x80, CHR 0x94] @ '' set ttl_seconds and/or max_uses'')), s)
               else if out_of_bounds (abTTLSeconds req) maxTTLSeconds \<or> out_of_bounds (abMaxUses req) maxUsesLimit \<or>
                       out_of_bounds (abAmount req) admin_maxAmount
               then ((400, AvError ''bounds out of range''), s)
               else
                 (case asApproveRequest (adStore d) rid (map_option (\<lambda>n. adNow d s + wrap64 (n * second)) (abTTLSeconds req))
                         (abMaxUses req) (abAmount req) DecidedByAdmin s of
                    (Inl e, s1) \<Rightarrow>
                      ((case e of
                          ErrNotFound \<Rightarrow> (404, AvError ''no such request'')
                        | ErrNotPending \<Rightarrow> (409, AvError ''request already decided'')
                        | ErrBounds why \<Rightarrow> (400, AvError why)
                        | _ \<Rightarrow> store_failed), s1)
                  | (Inr g, s1) \<Rightarrow> ((201, AvGrant g), s1)))"

definition denyRequest :: "'s AdminDeps \<Rightarrow> string \<Rightarrow> 's \<Rightarrow> admin_answer \<times> 's" where
  "denyRequest d rid s =
     (if \<not> uuidRe rid then ((400, AvError ''request id must be a UUID (see /admin/approvals)''), s)
      else case asDenyApprovalRequest (adStore d) rid DecidedByAdmin s of
             (Inl e, s1) \<Rightarrow>
               ((case e of
                   ErrNotFound \<Rightarrow> (404, AvError ''no such request'')
                 | ErrNotPending \<Rightarrow> (409, AvError ''request already decided'')
                 | _ \<Rightarrow> store_failed), s1)
           | (Inr _, s1) \<Rightarrow> ((204, AvEmpty), s1))"

definition listGrants :: "'s AdminDeps \<Rightarrow> AdminRequest \<Rightarrow> 's \<Rightarrow> admin_answer \<times> 's" where
  "listGrants d r s =
     (case asGrants (adStore d) (query_get r ''credential'') (atoi (query_get r ''limit'')) s of
        (Inl e, s1) \<Rightarrow> (store_failed, s1)
      | (Inr grants, s1) \<Rightarrow>
          (case asListCredentials (adStore d) s1 of
             (creds, s2) \<Rightarrow>
               (let deadlines = fold (\<lambda>c m. map_set (crName c) (crExpiresAt c) m) (case creds of Inl e \<Rightarrow> [] | Inr cs \<Rightarrow> cs) [];
                    deadline = (\<lambda>n. case map_get deadlines n of None \<Rightarrow> None | Some e \<Rightarrow> e)
                in ((200, AvGrants (map (\<lambda>(g, live). \<lparr>rowGrant = g, rowLive = live, rowCredentialExpiresAt = deadline (grCredentialName g)\<rparr>) grants)), s2))))"

definition approvalAudit :: "'s AdminDeps \<Rightarrow> AdminRequest \<Rightarrow> 's \<Rightarrow> admin_answer \<times> 's" where
  "approvalAudit d r s =
     (case asApprovalAudit (adStore d) (query_get r ''credential'') (atoi (query_get r ''limit'')) s of
        (Inl e, s1) \<Rightarrow> (store_failed, s1)
      | (Inr entries, s1) \<Rightarrow> ((200, AvApprovalAudit entries), s1))"

subsection \<open>Validating an overlay\<close>

definition maxOverlayBytes :: nat where "maxOverlayBytes = 262144"

definition set_validate :: "json \<Rightarrow> json option gomap \<times> bool \<Rightarrow> json option gomap \<times> bool" where
  "set_validate = set_struct (set_members True [(''fragments'', set_map set_raw None)])"

definition validate_fragments :: "json option gomap \<Rightarrow> Fragment list" where
  "validate_fragments fragments = map (\<lambda>(n, v). \<lparr>fgName = n, fgRaw = (case v of None \<Rightarrow> [] | Some x \<Rightarrow> render x)\<rparr>) fragments"

text \<open>The tools a fragment declares, by upstream: none when it does not decode.\<close>

definition fragment_tools :: "string \<Rightarrow> json option gomap gomap" where
  "fragment_tools raw =
     (case unmarshal (set_struct (set_members False
             [(''tool_upstreams'', set_map (set_struct (set_members False [(''tools'', set_map set_raw None)])) [])])) raw [] of
        (ups, bad) \<Rightarrow> if bad then [] else ups)"

definition overlay_declared :: "PolicySet \<Rightarrow> Fragment list \<Rightarrow> string list gomap" where
  "overlay_declared p frags =
     fold (\<lambda>tool out. case Declared p tool of (fs, ok) \<Rightarrow> if ok then map_set tool fs out else out)
       (concat (map (\<lambda>f. concat (map (\<lambda>(n, tools). map fst tools) (fragment_tools (fgRaw f)))) frags)) []"

definition invalid :: "validate_error \<Rightarrow> admin_view" where
  "invalid e = AvValidated \<lparr>vrOK = False, vrError = Some e, vrToolUpstreams = [], vrDeclared = [], vrTableDeclared = [],
     vrAlreadyAllowlisted = []\<rparr>"

definition validateConfig :: "'s AdminDeps \<Rightarrow> AdminRequest \<Rightarrow> 's \<Rightarrow> admin_answer \<times> 's" where
  "validateConfig d r s =
     (case decode_request maxOverlayBytes set_validate [] r of
        Inl e \<Rightarrow> ((400, invalid VeMalformed), s)
      | Inr fragments \<Rightarrow>
          (case List.find (\<lambda>n. \<not> FragmentName n) (map fst fragments) of
             Some n \<Rightarrow> ((400, invalid (VeIgnoredKey n)), s)
           | None \<Rightarrow>
               (case Merge (adConfigBase d) (validate_fragments fragments) of
                  Inl e \<Rightarrow> ((400, invalid (VeMerge e)), s)
                | Inr merged \<Rightarrow>
                    (case Parse decode_config (adParseURL d) (adParseAddr d) (render merged) of
                       Inl e \<Rightarrow> ((400, invalid (VeParse e)), s)
                     | Inr cfg \<Rightarrow>
                         (let dcl = overlay_declared (cfPolicy cfg) (validate_fragments fragments) in
                          case asCredentialsAllowlisting (adStore d) (map fst dcl) s of
                            (Inl e, s1) \<Rightarrow> ((503, invalid (VeStore e)), s1)
                          | (Inr existing, s1) \<Rightarrow>
                              ((200, AvValidated \<lparr>vrOK = True, vrError = None, vrToolUpstreams = map fst (cfToolUpstreams cfg),
                                 vrDeclared = dcl, vrTableDeclared = AllDeclared (cfPolicy cfg), vrAlreadyAllowlisted = existing\<rparr>), s1))))))"

subsection \<open>The surface\<close>

datatype admin_route =
    RtCreateCredential | RtListCredentials | RtRenew string | RtSetBudget | RtLedger | RtSetToolAllowlist | RtToolAllowlist
  | RtToolAudit | RtFileRequest | RtListApprovals | RtApprove string | RtDeny string | RtGrants | RtApprovalAudit
  | RtInboundAudit | RtValidate | RtHealthz

definition admin_auth :: "'s AdminDeps \<Rightarrow> AdminRequest \<Rightarrow> ('s \<Rightarrow> admin_answer \<times> 's) \<Rightarrow> 's \<Rightarrow> admin_answer \<times> 's" where
  "admin_auth d r handler s =
     (let raw = adReadFile d (adTokenFile d) s; want = trim_space (case raw of None \<Rightarrow> [] | Some x \<Rightarrow> x) in
      if raw = None \<or> want = [] then ((503, AvError ''admin auth unavailable''), s)
      else
        (let got = fst (cut_prefix (header_get (rqHeader r) ''Authorization'') ''Bearer '') in
         if got = [] \<or> adSha d want \<noteq> adSha d got then ((401, AvError ''unauthorized''), s)
         else handler s))"

definition admin_handler :: "'s AdminDeps \<Rightarrow> admin_route \<Rightarrow> AdminRequest \<Rightarrow> 's \<Rightarrow> admin_answer \<times> 's" where
  "admin_handler d route r =
     (case route of
        RtCreateCredential \<Rightarrow> createCredential d r
      | RtListCredentials \<Rightarrow> listCredentials d
      | RtRenew name \<Rightarrow> renewCredential d name r
      | RtSetBudget \<Rightarrow> setBudget d r
      | RtLedger \<Rightarrow> ledger d r
      | RtSetToolAllowlist \<Rightarrow> setToolAllowlist d r
      | RtToolAllowlist \<Rightarrow> toolAllowlist d r
      | RtToolAudit \<Rightarrow> toolAudit d r
      | RtFileRequest \<Rightarrow> admin_fileRequest d r
      | RtListApprovals \<Rightarrow> listApprovals d
      | RtApprove rid \<Rightarrow> approve d rid r
      | RtDeny rid \<Rightarrow> denyRequest d rid
      | RtGrants \<Rightarrow> listGrants d r
      | RtApprovalAudit \<Rightarrow> approvalAudit d r
      | RtInboundAudit \<Rightarrow> inboundAudit d r
      | RtValidate \<Rightarrow> validateConfig d r
      | RtHealthz \<Rightarrow> (\<lambda>s. ((200, AvOk), s)))"

definition admin_serve :: "'s AdminDeps \<Rightarrow> admin_route \<Rightarrow> AdminRequest \<Rightarrow> 's \<Rightarrow> admin_answer \<times> 's" where
  "admin_serve d route r s = (if route = RtHealthz then admin_handler d route r s else admin_auth d r (admin_handler d route r) s)"

end
