(* ===== verification/AdminFlow.thy ===== *)
theory AdminFlow
  imports Admin World
begin

text \<open>
  What the admin surface needs of its store. \<open>admin_rows\<close>: a relation on states that every
  operation keeps, creation and renewal only for a deadline in range; then every request keeps
  it. Interpreted on \<open>pg_admin_store\<close>, the operations of the store theories, for the relation
  \<open>pg_deadlines\<close> between the credentials before and after.
\<close>

subsection \<open>The frame\<close>

lemma credentialTTL_bounds:
  "credentialTTL t = Some d \<Longrightarrow> minCredentialTTL \<le> d \<and> d \<le> maxCredentialTTL"
  by (auto simp: credentialTTL_def Let_def minCredentialTTL_def maxCredentialTTL_def defaultCredentialTTL_def hour_def minute_def second_def
      split: option.splits if_splits)

locale admin_rows =
  fixes st :: "'s admin_store" and now :: "'s \<Rightarrow> int" and R :: "'s \<Rightarrow> 's \<Rightarrow> bool"
  assumes refl: "R s s" and trans: "R s s1 \<Longrightarrow> R s1 s2 \<Longrightarrow> R s s2"
    and creates: "asCreateCredential st n h e s = (cx, s') \<Longrightarrow> credentialName n \<Longrightarrow>
      now s + minCredentialTTL \<le> e \<Longrightarrow> e \<le> now s + maxCredentialTTL \<Longrightarrow> R s s'"
    and renews: "asRenewCredential st n e s = (rx, s') \<Longrightarrow>
      now s + minCredentialTTL \<le> e \<Longrightarrow> e \<le> now s + maxCredentialTTL \<Longrightarrow> R s s'"
    and budgets: "asSetBudget st n cc ct s = (bx, s') \<Longrightarrow> R s s'"
    and allows: "asSetToolAllowlist st n ts s = (ax, s') \<Longrightarrow> R s s'"
    and files: "asFileApprovalRequest st f s = (fx, s') \<Longrightarrow> R s s'"
    and approves: "asApproveRequest st i ex mu am who s = (gx, s') \<Longrightarrow> R s s'"
    and denies: "asDenyApprovalRequest st i who s = (dx, s') \<Longrightarrow> R s s'"
    and reads: "asListCredentials st s = (r1, s') \<Longrightarrow> R s s'" "asLedger st n lim s = (r2, s') \<Longrightarrow> R s s'"
      "asMonthUsage st n ms s = (r3, s') \<Longrightarrow> R s s'" "asToolAllowlist st n s = (r4, s') \<Longrightarrow> R s s'"
      "asToolAudit st n lim s = (r5, s') \<Longrightarrow> R s s'" "asCredentialsAllowlisting st ts s = (r6, s') \<Longrightarrow> R s s'"
      "asPendingApprovals st s = (r7, s') \<Longrightarrow> R s s'" "asGrants st n lim s = (r8, s') \<Longrightarrow> R s s'"
      "asApprovalAudit st n lim s = (r9, s') \<Longrightarrow> R s s'" "asInboundAudit st n lim s = (r10, s') \<Longrightarrow> R s s'"
begin

lemmas rows = refl budgets allows files approves denies reads

lemma create_rows:
  assumes "createCredential d r s = (a, s')" "adStore d = st" "adNow d = now"
  shows "R s s'"
  using assms(1) unfolding createCredential_def Let_def assms(2,3)
  by (auto split: sum.splits prod.splits if_splits option.splits intro: refl dest!: credentialTTL_bounds dest: creates)

lemma renew_rows:
  assumes "renewCredential d n r s = (a, s')" "adStore d = st" "adNow d = now"
  shows "R s s'"
  using assms(1) unfolding renewCredential_def Let_def assms(2,3)
  by (auto split: sum.splits prod.splits if_splits option.splits json_error.splits intro: refl
      dest!: credentialTTL_bounds dest: renews)

lemma handler_rows:
  assumes h: "admin_handler d rt r s = (a, s')" and st: "adStore d = st" "adNow d = now"
  shows "R s s'"
proof (cases rt)
  case RtCreateCredential
  then show ?thesis using h by (simp add: admin_handler_def create_rows [OF _ st])
next
  case (RtRenew n)
  then show ?thesis using h by (simp add: admin_handler_def renew_rows [OF _ st])
next
  case RtLedger
  then show ?thesis using h
    by (auto simp: admin_handler_def ledger_def Let_def st split: sum.splits prod.splits if_splits intro: rows trans [OF reads(2) reads(3)])
next
  case RtGrants
  then show ?thesis using h
    by (auto simp: admin_handler_def listGrants_def Let_def st split: sum.splits prod.splits if_splits intro: rows trans [OF reads(8) reads(1)])
next
  case RtFileRequest
  then show ?thesis using h unfolding admin_handler_def admin_fileRequest_def st
    by (auto split: sum.splits prod.splits if_splits intro: rows)
next
  case (RtApprove i)
  then show ?thesis using h unfolding admin_handler_def approve_def st
    by (auto split: sum.splits prod.splits if_splits store_error.splits intro: rows)
next
  case (RtDeny i)
  then show ?thesis using h unfolding admin_handler_def denyRequest_def st
    by (auto split: sum.splits prod.splits if_splits store_error.splits intro: rows)
next
  case RtValidate
  then show ?thesis using h unfolding admin_handler_def validateConfig_def Let_def st
    by (auto split: sum.splits prod.splits option.splits intro: rows)
qed (use h in \<open>auto simp: admin_handler_def listCredentials_def setBudget_def setToolAllowlist_def toolAllowlist_def
    toolAudit_def listApprovals_def approvalAudit_def inboundAudit_def Let_def st
    split: sum.splits prod.splits if_splits option.splits intro: rows\<close>)

lemma serve_rows:
  assumes "admin_serve d rt r s = (a, s')" "adStore d = st" "adNow d = now"
  shows "R s s'"
  using assms(1) handler_rows [OF _ assms(2,3)] refl
  unfolding admin_serve_def admin_auth_def Let_def by (auto split: if_splits)

end

subsection \<open>The store of the plane\<close>

definition pg_admin_store :: "world admin_store" where
  "pg_admin_store =
     \<lparr>asCreateCredential = (\<lambda>n h e. pg_write (\<lambda>now uuid d. CreateCredential n h e now d)),
      asRenewCredential = (\<lambda>n e. pg_write (\<lambda>now uuid d. RenewCredential n e d)),
      asListCredentials = pg_read (\<lambda>now d. Inr (ListCredentials d)),
      asSetBudget = (\<lambda>n cc ct. pg_write (\<lambda>now uuid d. SetBudget n cc ct d)),
      asLedger = (\<lambda>n lim. pg_read (\<lambda>now d. if pg_text_ok n then Inr (Ledger n lim d) else Inl (ErrPg bad_text))),
      asMonthUsage = (\<lambda>n ms. pg_read (\<lambda>now d. MonthUsage n ms d)),
      asSetToolAllowlist = (\<lambda>n ts. pg_write (\<lambda>now uuid d. SetToolAllowlist n ts d)),
      asToolAllowlist = (\<lambda>n. pg_read (\<lambda>now d. ToolAllowlist n d)),
      asToolAudit = (\<lambda>n lim. pg_read (\<lambda>now d. if pg_text_ok n then Inr (ToolAudit n lim d) else Inl (ErrPg bad_text))),
      asCredentialsAllowlisting = (\<lambda>ts. pg_read (\<lambda>now d.
        if texts_ok ts then Inr (CredentialsAllowlisting ts d) else Inl (ErrPg bad_text))),
      asFileApprovalRequest = (\<lambda>f. pg_write (\<lambda>now uuid d. FileApprovalRequest f now uuid d)),
      asPendingApprovals = pg_read (\<lambda>now d. Inr (PendingApprovals d)),
      asApproveRequest = (\<lambda>i ex mu am who. pg_write (\<lambda>now uuid d. ApproveRequest i ex mu am who now uuid d)),
      asDenyApprovalRequest = (\<lambda>i who. pg_write (\<lambda>now uuid d. DenyApprovalRequest i who now d)),
      asGrants = (\<lambda>n lim. pg_read (\<lambda>now d. if pg_text_ok n then Inr (Grants n lim now d) else Inl (ErrPg bad_text))),
      asApprovalAudit = (\<lambda>n lim. pg_read (\<lambda>now d. if pg_text_ok n then Inr (ApprovalAudit n lim d) else Inl (ErrPg bad_text))),
      asInboundAudit = (\<lambda>n lim. pg_read (\<lambda>now d. if pg_text_ok n then Inr (InboundAudit n lim d) else Inl (ErrPg bad_text)))\<rparr>"

text \<open>A credential after a request: one from before, with its token and the same or a new deadline
  in range, or a new one, under a name that was free, with a deadline in range.\<close>

definition credential_row_ok :: "int \<Rightarrow> CredentialRow list \<Rightarrow> CredentialRow \<Rightarrow> bool" where
  "credential_row_ok t rows c' \<longleftrightarrow>
     (let dated = (\<exists>e. crExpiresAt c' = Some e \<and> t + minCredentialTTL \<le> e \<and> e \<le> t + maxCredentialTTL) in
      (\<exists>c \<in> set rows. crName c' = crName c \<and> crTokenHash c' = crTokenHash c \<and> (crExpiresAt c' = crExpiresAt c \<or> dated)) \<or>
      credentialName (crName c') \<and> crName c' \<notin> crName ` set rows \<and> dated)"

definition pg_deadlines :: "world \<Rightarrow> world \<Rightarrow> bool" where
  "pg_deadlines w w' \<longleftrightarrow> wnow w' = wnow w \<and> crName ` set (credentials (wdb w)) \<subseteq> crName ` set (credentials (wdb w')) \<and>
     (\<forall>c' \<in> set (credentials (wdb w')). credential_row_ok (wnow w) (credentials (wdb w)) c')"

definition row_copy :: "CredentialRow \<Rightarrow> CredentialRow \<Rightarrow> bool" where
  "row_copy c c' \<longleftrightarrow> crName c' = crName c \<and> crTokenHash c' = crTokenHash c \<and> crExpiresAt c' = crExpiresAt c"

lemma pg_deadlinesI:
  assumes "list_all2 row_copy (credentials (wdb w)) (credentials (wdb w'))" "wnow w' = wnow w"
  shows "pg_deadlines w w'"
  using assms unfolding pg_deadlines_def credential_row_ok_def Let_def list_all2_conv_all_nth row_copy_def
  by (auto simp: set_conv_nth image_iff) metis+

lemma pg_deadlines_same:
  "credentials (wdb w') = credentials (wdb w) \<Longrightarrow> wnow w' = wnow w \<Longrightarrow> pg_deadlines w w'"
  by (rule pg_deadlinesI) (simp_all add: list_all2_same row_copy_def)

lemma pg_deadlines_trans:
  assumes "pg_deadlines w w1" "pg_deadlines w1 w2"
  shows "pg_deadlines w w2"
proof -
  have "credential_row_ok (wnow w) (credentials (wdb w)) c" if c: "c \<in> set (credentials (wdb w2))" for c
  proof -
    have "credential_row_ok (wnow w) (credentials (wdb w1)) c"
      using assms c by (auto simp: pg_deadlines_def)
    moreover have "credential_row_ok (wnow w) (credentials (wdb w)) c1" if "c1 \<in> set (credentials (wdb w1))" for c1
      using assms(1) that by (auto simp: pg_deadlines_def)
    moreover have "crName ` set (credentials (wdb w)) \<subseteq> crName ` set (credentials (wdb w1))"
      using assms(1) by (auto simp: pg_deadlines_def)
    ultimately show ?thesis
      unfolding credential_row_ok_def Let_def
      by (smt (verit, ccfv_threshold) image_eqI subsetD)
  qed
  moreover have "crName ` set (credentials (wdb w)) \<subseteq> crName ` set (credentials (wdb w2))"
    using assms unfolding pg_deadlines_def by (meson order_trans)
  ultimately show ?thesis using assms by (simp add: pg_deadlines_def)
qed

lemma update_first_copies: "(\<And>c. row_copy c (f c)) \<Longrightarrow> list_all2 row_copy cs (update_first p f cs)"
  by (induction cs) (auto simp: row_copy_def list_all2_same)

lemma pg_write_deadlines:
  assumes "pg_write f w = (x, w')" "\<And>r db'. f (wnow w) (wuuid w (wnext w)) (wdb w) = (r, db') \<Longrightarrow>
    list_all2 row_copy (credentials (wdb w)) (credentials db')"
  shows "pg_deadlines w w'"
proof -
  have "wnow w' = wnow w" and "wdb w' = wdb w \<or> (\<exists>r'. f (wnow w) (wuuid w (wnext w)) (wdb w) = (r', wdb w'))"
    using pg_write_cases [OF assms(1)] by auto
  then show ?thesis using assms(2) by (auto intro!: pg_deadlinesI simp: list_all2_same row_copy_def)
qed

lemma pg_read_deadlines: "pg_read f w = (x, w') \<Longrightarrow> pg_deadlines w w'"
  by (rule pg_deadlines_same) (auto dest: pg_read_frame)

lemma credentials_kept:
  "SetToolAllowlist n ts d = (x0, d') \<Longrightarrow> credentials d' = credentials d"
  "FileApprovalRequest f now uuid d = (x1, d') \<Longrightarrow> credentials d' = credentials d"
  "ApproveRequest i ex mu am who now uuid d = (x2, d') \<Longrightarrow> credentials d' = credentials d"
  "DenyApprovalRequest i who now d = (x3, d') \<Longrightarrow> credentials d' = credentials d"
  by (auto simp: SetToolAllowlist_def FileApprovalRequest_def FileRequest_def ApproveRequest_def DenyApprovalRequest_def Let_def decide_def
      split: sum.splits prod.splits option.splits if_splits dest!: insert_frames)

lemma created_row:
  "CreateCredential n h e now d = (x, d') \<Longrightarrow> credentials d' \<noteq> credentials d \<Longrightarrow>
    \<exists>row. credentials d' = credentials d @ [row] \<and> crName row = n \<and> crExpiresAt row = Some e \<and>
      n \<notin> crName ` set (credentials d)"
  by (auto simp: CreateCredential_def insert_credential_def list_ex_iff split: if_splits)

lemma renewed_row:
  "RenewCredential n e d = (x, d') \<Longrightarrow> credentials d' \<noteq> credentials d \<Longrightarrow>
    credentials d' = update_first (\<lambda>c. crName c = n) (\<lambda>c. c\<lparr>crExpiresAt := Some e\<rparr>) (credentials d)"
  by (auto simp: RenewCredential_def split: if_splits)

lemma find_update_first: "List.find p xs = Some x \<Longrightarrow> p (f x) \<Longrightarrow> List.find p (update_first p f xs) = Some (f x)"
  by (induction xs) (auto split: if_splits)

lemma has_credential_find:
  "has_credential d n \<Longrightarrow> \<exists>c. List.find (\<lambda>c. crName c = n) (credentials d) = Some c \<and> crName c = n"
  unfolding has_credential_def list_ex_iff by (metis (mono_tags, lifting) find_None_iff find_Some_in option.exhaust)

lemma credentialName_text: "credentialName n \<Longrightarrow> pg_text_ok n"
proof -
  assume n: "credentialName n"
  have ascii: "0 < code c \<and> code c < 128" if "dns_char c \<or> c = CHR ''-''" for c
    using that by (auto simp: dns_char_def go_defs)
  have "list_all (\<lambda>c. dns_char c \<or> c = CHR ''-'') n"
    using n by (auto simp: credentialName_def class_len_def list_all_iff split: list.splits)
  then have l: "list_all (\<lambda>c. 0 < code c \<and> code c < 128) n" using ascii by (simp add: list_all_iff)
  then have "utf8_valid n" by (intro utf8_valid_ascii) (simp add: list_all_iff)
  moreover have "CHR 0x00 \<notin> set n" using l by (auto simp: list_all_iff)
  ultimately show ?thesis by (simp add: pg_text_ok_def)
qed

lemma pg_write_now: "wfaults w = [] \<Longrightarrow> f (wnow w) (wuuid w (wnext w)) (wdb w) = (r, d) \<Longrightarrow>
    pg_write f w = (r, w\<lparr>wdb := d, wnext := Suc (wnext w)\<rparr>)"
  by (simp add: pg_write_def next_fault_def)

lemma pg_create_deadlines:
  assumes "pg_write (\<lambda>now uuid d. CreateCredential n h e now d) w = (x, w')" "credentialName n"
    "wnow w + minCredentialTTL \<le> e" "e \<le> wnow w + maxCredentialTTL"
  shows "pg_deadlines w w'"
proof -
  have t: "wnow w' = wnow w" and d: "wdb w' = wdb w \<or> (\<exists>r'. CreateCredential n h e (wnow w) (wdb w) = (r', wdb w'))"
    using pg_write_cases [OF assms(1)] by auto
  show ?thesis
  proof (cases "credentials (wdb w') = credentials (wdb w)")
    case True
    then show ?thesis using t by (simp add: pg_deadlines_same)
  next
    case False
    then obtain row where row: "credentials (wdb w') = credentials (wdb w) @ [row]" "crName row = n" "crExpiresAt row = Some e"
      and free: "n \<notin> crName ` set (credentials (wdb w))"
      using d created_row by metis
    have "credential_row_ok (wnow w) (credentials (wdb w)) row"
      using row free assms(2,3,4) by (simp add: credential_row_ok_def)
    moreover have "credential_row_ok (wnow w) (credentials (wdb w)) c" if "c \<in> set (credentials (wdb w))" for c
      using that by (auto simp: credential_row_ok_def)
    ultimately show ?thesis using row(1) t by (auto simp: pg_deadlines_def)
  qed
qed

lemma pg_renew_deadlines:
  assumes "pg_write (\<lambda>now uuid d. RenewCredential n e d) w = (x, w')"
    "wnow w + minCredentialTTL \<le> e" "e \<le> wnow w + maxCredentialTTL"
  shows "pg_deadlines w w'"
proof -
  let ?f = "\<lambda>c. c\<lparr>crExpiresAt := Some e\<rparr>"
  have t: "wnow w' = wnow w" and d: "wdb w' = wdb w \<or> (\<exists>r'. RenewCredential n e (wdb w) = (r', wdb w'))"
    using pg_write_cases [OF assms(1)] by auto
  show ?thesis
  proof (cases "credentials (wdb w') = credentials (wdb w)")
    case True
    then show ?thesis using t by (simp add: pg_deadlines_same)
  next
    case False
    then have up: "credentials (wdb w') = update_first (\<lambda>c. crName c = n) ?f (credentials (wdb w))"
      using d renewed_row by metis
    have names: "map crName (credentials (wdb w')) = map crName (credentials (wdb w))"
      unfolding up by (rule map_update_first) simp
    have "credential_row_ok (wnow w) (credentials (wdb w)) c" if "c \<in> set (credentials (wdb w'))" for c
    proof -
      have "c \<in> set (credentials (wdb w)) \<or> (\<exists>c0 \<in> set (credentials (wdb w)). c = ?f c0)"
        using that set_update_first_subset [of "\<lambda>c. crName c = n" ?f "credentials (wdb w)"] unfolding up by blast
      then show ?thesis using assms(2,3) by (auto simp: credential_row_ok_def)
    qed
    then show ?thesis using names t unfolding pg_deadlines_def by (metis equalityD2 set_map)
  qed
qed

lemma pg_budget_copies:
  "SetBudget n cc ct d = (x, d') \<Longrightarrow> list_all2 row_copy (credentials d) (credentials d')"
  by (auto simp: SetBudget_def list_all2_same row_copy_def split: if_splits intro!: update_first_copies)

interpretation pg_admin: admin_rows pg_admin_store wnow pg_deadlines
  by unfold_locales
     (auto simp: pg_admin_store_def list_all2_same row_copy_def credentials_kept
       intro: pg_deadlines_same pg_deadlines_trans pg_create_deadlines pg_renew_deadlines
       dest: pg_read_deadlines pg_budget_copies pg_write_deadlines)

end
