(* ===== verification/AdminProps.thy ===== *)
theory AdminProps
  imports "HOL-Library.Multiset" AdminFlow OverlayProps GatewayEval
begin

text \<open>
  Properties of the admin surface: what a request can do to the credentials, where lifetimes and
  budgets are read wrongly, the call an explicit filing is bound to, and what a validated overlay
  means for the boot.
\<close>

subsection \<open>Reading a body\<close>

lemma decode_request_doc:
  assumes "lex (rqBody r) = doc_lexemes v" "nesting v \<le> maxNestingDepth" "length (rqBody r) \<le> limit" "\<not> rqBroken r"
  shows "decode_request limit setter zero r = (case setter v (zero, False) of (x, bad) \<Rightarrow> if bad then Inl Syntax else Inr x)"
  using first_value_run [OF assms(1,2)] assms(3,4) by (simp add: decode_request_def bounded_value_def Let_def)

lemma admin_names:
  "names_field x ''credential'' \<longleftrightarrow> x = ''credential''" "names_field x ''ttl_seconds'' \<longleftrightarrow> x = ''ttl_seconds''"
  "names_field x ''fragments'' \<longleftrightarrow> x = ''fragments''"
proof -
  have "fold_runes ''credential'' = ''credential''" "fold_runes ''ttl_seconds'' = ''ttl_seconds''"
    "fold_runes ''fragments'' = ''fragments''" by code_simp+
  then show "names_field x ''credential'' \<longleftrightarrow> x = ''credential''" "names_field x ''ttl_seconds'' \<longleftrightarrow> x = ''ttl_seconds''"
    "names_field x ''fragments'' \<longleftrightarrow> x = ''fragments''" by (auto simp: names_field_def)
qed

subsection \<open>Credentials\<close>

text \<open>
  C23: whatever an admin request does, each credential afterwards is one from before with the same
  token, its deadline the same or renewed to between a minute and a year from now, or a new one
  under a free, well-formed name with such a deadline: no request makes a credential that does
  not expire, or gives a name another token.
\<close>

theorem no_request_leaves_a_credential_undated:
  assumes "admin_serve d route r w = (a, w')" "adStore d = pg_admin_store" "adNow d = wnow" "c' \<in> set (credentials (wdb w'))"
  shows "credential_row_ok (wnow w) (credentials (wdb w)) c'"
  using pg_admin.serve_rows [OF assms(1,2,3)] assms(4) by (simp add: pg_deadlines_def)

text \<open>
  Up to 292 years a lifetime in seconds is read exactly; beyond that the product with a
  second wraps around, and a body that asks for 585 years is accepted as one minute and a
  fraction, answered with success, the credential all but dead.
\<close>

definition absurd_ttl :: json where "absurd_ttl = JObj [(''ttl_seconds'', JNum ''18446744134'')]"

lemma absurd_ttl_body:
  assumes "rqBody r = render absurd_ttl" "\<not> rqBroken r"
  shows "decode_request 4096 set_renew None r = Inr (Some 18446744134)"
proof -
  have ok: "json_ok absurd_ttl" by (auto simp: absurd_ttl_def number_ok_def lex_eval intro!: utf8_valid_ascii)
  have "length (render absurd_ttl) \<le> 4096" by (simp add: absurd_ttl_def render_eval)
  then have "decode_request 4096 set_renew None r =
      (case set_renew absurd_ttl (None, False) of (x, bad) \<Rightarrow> if bad then Inl Syntax else Inr x)"
    by (intro decode_request_doc) (simp_all add: assms lex_render [OF ok], simp add: absurd_ttl_def maxNestingDepth_def)
  also have "set_renew absurd_ttl (None, False) = (Some 18446744134, False)"
    by (simp add: set_renew_def absurd_ttl_def set_struct_def set_members_def admin_names set_opt_int64_def set_pointer_def
        set_int64_def go_defs)
  finally show ?thesis by simp
qed

theorem an_absurd_lifetime_wraps:
  "(\<bar>n\<bar> \<le> 9223372036 \<longrightarrow> credentialTTL (Some n) = (if 60 \<le> n \<and> n \<le> 31536000 then Some (n * second) else None)) \<and>
   (rqBody r = render absurd_ttl \<and> \<not> rqBroken r \<and> credentialName name \<and> has_credential (wdb w) name \<and> wfaults w = [] \<and>
      adStore d = pg_admin_store \<and> adNow d = wnow \<longrightarrow>
    (\<exists>w'. renewCredential d name r w = ((200, AvRenewed name (format_rfc3339 (wnow w + 60290448384))), w') \<and>
       (\<exists>c. List.find (\<lambda>c. crName c = name) (credentials (wdb w')) = Some c \<and> crExpiresAt c = Some (wnow w + 60290448384))))"
proof (intro conjI impI)
  assume "\<bar>n\<bar> \<le> 9223372036"
  then have "wrap64 (n * second) = n * second" by (intro wrap64_id) (auto simp: int64_ok_def second_def)
  then show "credentialTTL (Some n) = (if 60 \<le> n \<and> n \<le> 31536000 then Some (n * second) else None)"
    by (simp add: credentialTTL_def minCredentialTTL_def maxCredentialTTL_def hour_def minute_def second_def)
next
  assume a: "rqBody r = render absurd_ttl \<and> \<not> rqBroken r \<and> credentialName name \<and> has_credential (wdb w) name \<and> wfaults w = [] \<and>
      adStore d = pg_admin_store \<and> adNow d = wnow"
  have t: "credentialTTL (Some 18446744134) = Some 60290448384"
    by (simp add: credentialTTL_def minCredentialTTL_def maxCredentialTTL_def hour_def minute_def second_def wrap64_def)
  let ?e = "wnow w + 60290448384"
  let ?db = "wdb w\<lparr>credentials := update_first (\<lambda>c. crName c = name) (\<lambda>c. c\<lparr>crExpiresAt := Some ?e\<rparr>) (credentials (wdb w))\<rparr>"
  have st: "asRenewCredential (adStore d) name ?e w = (Inr (), w\<lparr>wdb := ?db, wnext := Suc (wnext w)\<rparr>)"
    using a credentialName_text by (auto simp: pg_admin_store_def RenewCredential_def intro!: pg_write_now)
  obtain c where c: "List.find (\<lambda>c. crName c = name) (credentials (wdb w)) = Some c" "crName c = name"
    using a has_credential_find by blast
  have "renewCredential d name r w = ((200, AvRenewed name (format_rfc3339 ?e)), w\<lparr>wdb := ?db, wnext := Suc (wnext w)\<rparr>)"
    using a absurd_ttl_body [of r] st t by (simp add: renewCredential_def Let_def)
  moreover have "List.find (\<lambda>c. crName c = name) (credentials ?db) = Some (c\<lparr>crExpiresAt := Some ?e\<rparr>)"
    using find_update_first [OF c(1), of "\<lambda>c. c\<lparr>crExpiresAt := Some ?e\<rparr>"] c(2) by simp
  ultimately show "\<exists>w'. renewCredential d name r w = ((200, AvRenewed name (format_rfc3339 ?e)), w') \<and>
       (\<exists>c. List.find (\<lambda>c. crName c = name) (credentials (wdb w')) = Some c \<and> crExpiresAt c = Some ?e)"
    by simp
qed

subsection \<open>An explicit filing\<close>

lemma trim_space_brace: "trim_space (CHR ''{'' # s) \<noteq> []"
proof -
  have c: "chunks (CHR ''{'' # s) = (123, ''{'') # chunks s" by (simp add: decode_rune_def)
  have "\<not> space_rune 123" by (simp add: space_rune_def)
  then show ?thesis unfolding trim_space_def c by (simp add: dropWhile_append)
qed

lemma set_raw_ok: "json_ok x \<Longrightarrow> fst (set_raw x t) = Some v \<Longrightarrow> json_ok v"
  by (simp add: set_raw_def)

lemma file_request_args:
  assumes "json_ok (JObj ms)" "\<And>v. fqArguments (fst t) = Some v \<Longrightarrow> json_ok v"
    "fqArguments (fst (set_file_request (JObj ms) t)) = Some v"
  shows "json_ok v"
  using assms unfolding set_file_request_def set_struct_def json.case
proof (induction ms arbitrary: t)
  case (Cons kv ms)
  have "json_ok (JObj ms)" "json_ok (snd kv)" using Cons.prems(1) by auto
  then show ?case using Cons.prems(2,3)
    by (intro Cons.IH) (auto simp: set_members_def set_field_def set_raw_def split: if_splits prod.splits)
qed simp

lemma first_value_ok:
  assumes "first_value body = Inr (v, rest)"
  shows "json_ok v"
proof -
  have "parse_value (2 * length (lex body) + 1) 0 (lex body) = Some (v, rest)"
    using assms by (auto simp: first_value_def Let_def simp del: parse_value.simps split: if_splits option.splits)
  then have "lex body = doc_lexemes v @ rest" using parse_value_sound(1) by blast
  then have "list_all lexeme_ok (doc_lexemes v)" using lex_ok [of body] by simp
  then show ?thesis by (rule doc_lexemes_ok)
qed

lemma decoded_args_ok:
  assumes "decodeStrict set_file_request t r = Inr req" "fqArguments t = None" "fqArguments req = Some v"
  shows "json_ok v"
proof -
  obtain x rest where x: "first_value (rqBody r) = Inr (x, rest)" "set_file_request x (t, False) = (req, False)"
    using assms(1) by (auto simp: decodeStrict_def split: if_splits sum.splits prod.splits)
  show ?thesis
  proof (cases x)
    case (JObj ms)
    show ?thesis using file_request_args [of ms "(t, False)" v] first_value_ok [OF x(1)] x(2) assms(2,3) JObj by simp
  qed (use x(2) assms(2,3) in \<open>auto simp: set_file_request_def set_struct_def\<close>)
qed

definition same_arguments :: "json option \<Rightarrow> json gomap \<Rightarrow> bool" where
  "same_arguments v args \<longleftrightarrow> (case v of None \<Rightarrow> args = [] | Some x \<Rightarrow> no_dup_keys x \<and> canon x = JObj args)"

lemma wrapped_render: "''{\"params\":{\"arguments\":'' @ render v @ ''}}'' = render (JObj [(''params'', JObj [(''arguments'', v)])])"
  by (simp add: render_eval)

lemma member_measures:
  assumes "map_get ms k = Some v"
  shows "doc_depth v < doc_depth (JObj ms) \<and> doc_nodes v < doc_nodes (JObj ms)"
proof -
  have kv: "(k, v) \<in> set ms" using assms by (auto simp: map_get_def dest: map_of_SomeD)
  have "fold max (map (\<lambda>(k, v). doc_depth v) ms) 0 \<ge> doc_depth v"
    using fold_max_le [of "map (\<lambda>(k, v). doc_depth v) ms" 0 "fold max (map (\<lambda>(k, v). doc_depth v) ms) 0"] kv by force
  moreover have "doc_nodes v \<le> sum_list (map (\<lambda>(k, v). doc_nodes v) ms)"
    using member_le_sum_list [of "doc_nodes v" "map (\<lambda>(k, v). doc_nodes v) ms"] kv by force
  ultimately show ?thesis by simp
qed

lemma wrapped_canonicalises:
  assumes "canonicalize body = Inr (out, msg)" "argumentsOf msg = Some args" "json_ok v" "no_dup_keys v" "canon v = JObj args"
  shows "canonicalize (''{\"params\":{\"arguments\":'' @ render v @ ''}}'') = Inr (render (JObj [(''params'', JObj [(''arguments'', JObj args)])]),
    [(''params'', JObj [(''arguments'', JObj args)])])"
proof -
  have m: "doc_depth v = doc_depth (JObj args)" "doc_nodes v = doc_nodes (JObj args)" using canon_measures [OF assms(4)] assms(5) by simp_all
  have b: "doc_depth (JObj args) + 2 \<le> maxCanonDepth \<and> doc_nodes (JObj args) + 2 \<le> maxCanonNodes"
  proof (cases "args = []")
    case False
    obtain ps where ps: "map_get msg ''params'' = Some (JObj ps)" "map_get ps ''arguments'' = Some (JObj args)"
      using assms(2) False by (auto simp: argumentsOf_def split: option.splits json.splits)
    have "admissible (JObj msg)" using canonicalize_tree(3) [OF assms(1)] .
    moreover have "doc_depth (JObj ps) < doc_depth (JObj msg) \<and> doc_nodes (JObj ps) < doc_nodes (JObj msg)"
      "doc_depth (JObj args) < doc_depth (JObj ps) \<and> doc_nodes (JObj args) < doc_nodes (JObj ps)"
      using member_measures ps by blast+
    ultimately show ?thesis unfolding admissible_def by linarith
  qed (simp add: maxCanonDepth_def maxCanonNodes_def)
  have adm: "admissible (JObj [(''params'', JObj [(''arguments'', v)])])"
    using b assms(4) by (simp add: admissible_def m)
  have "json_ok (JObj [(''params'', JObj [(''arguments'', v)])])" using assms(3) by (auto intro!: utf8_valid_ascii)
  from lex_render [OF this] adm show ?thesis
    unfolding wrapped_render by (rule canonicalize_run) (simp_all add: assms(5))
qed

lemma filing_binding:
  assumes "canonicalize body = Inr (out, msg)" "argumentsOf msg = Some args" "toolNameOf msg = fqSubject req"
    and "dSha g = adSha d" "dUprint g = adUprint d" "dPolicy g = cfPolicy (adConfig d)"
    and "same_arguments (fqArguments req) args" "\<And>v. fqArguments req = Some v \<Longrightarrow> json_ok v"
  shows "file_binding d req = Inr (call_binding g msg args)"
proof (cases "fqArguments req")
  case None
  then show ?thesis using assms(3-7)
    by (simp add: file_binding_def call_binding_def BindArguments_def same_arguments_def trim_space_def split: prod.splits)
next
  case (Some v)
  then have v: "json_ok v" "no_dup_keys v" "canon v = JObj args" using assms(7,8) by (simp_all add: same_arguments_def)
  then obtain ms where "v = JObj ms" by (cases v) (auto split: option.splits)
  then have t: "trim_space (render v) \<noteq> []" using trim_space_brace by simp
  have a: "argumentsOf [(''params'', JObj [(''arguments'', JObj args)])] = Some args"
    by (simp add: argumentsOf_def map_get_def)
  show ?thesis using assms(3-6) t
    by (simp add: file_binding_def call_binding_def BindArguments_def Some a
        wrapped_canonicalises [OF assms(1,2) v, simplified] split: prod.splits)
qed

lemma ApproveRequest_rows:
  "ApproveRequest rid ex mu am by now uuid d = (Inr g, d') \<Longrightarrow>
    has_credential d (grCredentialName g) \<and> texts_ok [grCredentialName g, grSubject g] \<and>
    (case grArgDigest g of None \<Rightarrow> True | Some a \<Rightarrow> pg_text_ok a) \<and> credentials d' = credentials d"
  by (auto simp: ApproveRequest_def Let_def insert_grant_def texts_ok_def decide_def
      split: sum.splits if_splits option.splits dest!: insert_frames)

lemma find_last_new: "(\<forall>x \<in> set xs. \<not> p x) \<Longrightarrow> p y \<Longrightarrow> List.find p (xs @ [y]) = Some y"
  by (induction xs) auto

lemma consume_finds:
  assumes "gr \<in> set (permit_grant d)" "exact_match cred tool dig t gr" "has_credential d cred" "texts_ok [cred, tool, dig]"
  shows "\<exists>gid d'. ConsumeToolGrant cred tool dig t d = (Inr (Some gid), d')"
proof -
  obtain r d' where c: "consumeToolGrantLocked cred tool dig t d = (r, d')" by fastforce
  have "r \<noteq> Inl e" for e using c assms(4) by (auto simp: consumeToolGrantLocked_def split: option.splits)
  then have "\<exists>gid. r = Inr (Some gid)"
    by (rule_tac consumeToolGrantLocked_outcome [OF c]) (use assms(1,2) in blast)+
  then show ?thesis using c assms(3,4) by (auto simp: ConsumeToolGrant_locked texts_ok_def)
qed

text \<open>
  C11: an operator who files a call and approves it admits exactly the call the agent makes: when the
  filed arguments are those of the agent's message up to layout, order of members and spelling of
  numbers, the grant the approval mints carries the digest the gateway computes for that message,
  and while the grant lives the gateway's consumption of that digest succeeds.
\<close>

theorem an_operators_preapproval_admits_the_call:
  assumes "canonicalize body = Inr (out, msg)" "argumentsOf msg = Some args" "toolNameOf msg = fqSubject req"
    and "dSha g = adSha d" "dUprint g = adUprint d" "dPolicy g = cfPolicy (adConfig d)" "adStore d = pg_admin_store"
    and "decodeStrict set_file_request \<lparr>fqCredential = [], fqKind = [], fqSubject = [], fqArguments = None\<rparr> r = Inr req"
    and "fqKind req = ''tool''" "same_arguments (fqArguments req) args"
    and "admin_fileRequest d r w = ((201, AvFiled True dup), w1)"
    and "pg_uuid (wuuid w (wnext w)) = Some (wuuid w (wnext w))"
    and "approve d (wuuid w (wnext w)) r2 w2 = ((201, AvGrant gr), w3)" "wdb w2 = wdb w1" "grantLive t gr"
  shows "grArgDigest gr = Some (cbDigest (call_binding g msg args)) \<and>
    (\<exists>gid d'. ConsumeToolGrant (fqCredential req) (fqSubject req) (cbDigest (call_binding g msg args)) t (wdb w3) = (Inr (Some gid), d'))"
proof -
  let ?b = "call_binding g msg args" and ?u = "wuuid w (wnext w)"
  define fl where "fl = \<lparr>fiCredential = fqCredential req, fiKind = ''tool'', fiSubject = fqSubject req,
    fiDetail = ''filed explicitly via admin'', fiArgDigest = cbDigest ?b, fiArgSummary = cbSummary ?b\<rparr>"
  have fb: "file_filing d req = Inr fl"
    using filing_binding [OF assms(1-6,10)] decoded_args_ok [OF assms(8)] assms(9)
    by (simp add: file_filing_def fl_def Let_def)
  have "pg_write (\<lambda>now uuid d. FileApprovalRequest fl now uuid d) w = (Inr True, w1)"
    using assms(8,11) fb by (auto simp: admin_fileRequest_def assms(7) pg_admin_store_def store_failed_def split: if_splits sum.splits prod.splits)
  then have "FileApprovalRequest fl (wnow w) ?u (wdb w) = (Inr True, wdb w1)" by (rule pg_write_Inr(1))
  then obtain x where "FileRequest fl (wnow w) ?u (wdb w) = (Inr (x, True), wdb w1)"
    by (auto simp: FileApprovalRequest_def split: sum.splits prod.splits)
  then have rows: "approval_request (wdb w1) = approval_request (wdb w) @ [request_of fl (wnow w) ?u]"
    "\<forall>q \<in> set (approval_request (wdb w)). arID q \<noteq> ?u"
    by (cases rule: FileRequest_outcome; simp)+
  have pend: "pending_request ?u (wdb w1) = Inr (request_of fl (wnow w) ?u)"
    using rows find_last_new [of "approval_request (wdb w)" "\<lambda>r. arID r = ?u" "request_of fl (wnow w) ?u"] by (simp add: pending_request_def assms(12) request_of_def)
  obtain ex mu am where "pg_write (\<lambda>now uuid d. ApproveRequest ?u ex mu am DecidedByAdmin now uuid d) w2 = (Inr gr, w3)"
    using assms(13) unfolding approve_def
    by (auto simp: assms(7) pg_admin_store_def store_failed_def strict_answer_def split: if_splits sum.splits prod.splits store_error.splits)
  then have ap: "ApproveRequest ?u ex mu am DecidedByAdmin (wnow w2) (wuuid w2 (wnext w2)) (wdb w1) = (Inr gr, wdb w3)"
    using pg_write_Inr(1) assms(14) by metis
  then have gr: "gr = minted (request_of fl (wnow w) ?u) ex mu am DecidedByAdmin (wnow w2) (wuuid w2 (wnext w2))"
    "gr \<in> set (permit_grant (wdb w3))"
    by (cases rule: ApproveRequest_outcome; use pend in auto)+
  then have f: "grCredentialName gr = fqCredential req" "grKind gr = ''tool''" "grSubject gr = fqSubject req" "grArgDigest gr = Some (cbDigest ?b)"
    by (simp_all add: minted_def request_of_def fl_def)
  have ex: "exact_match (fqCredential req) (fqSubject req) (cbDigest ?b) t gr"
    using f assms(15) by (simp add: exact_match_def grant_matches_def)
  have "has_credential (wdb w3) (fqCredential req)" "texts_ok [fqCredential req, fqSubject req, cbDigest ?b]"
    using ApproveRequest_rows [OF ap] f by (simp_all add: has_credential_def texts_ok_def)
  from consume_finds [OF gr(2) ex this] show ?thesis using f(4) by simp
qed

subsection \<open>A budget with a misspelt cap\<close>

text \<open>
  A member that names no field is ignored here, unlike in the bodies of the approval surface:
  a budget whose one cap is misspelt is answered with success and removes both caps, so a request
  meant to limit a credential leaves it unlimited.
\<close>

theorem a_misspelt_cap_lifts_both:
  assumes "lex (rqBody r) = doc_lexemes (JObj [(''credential'', JStr n), (k, v)])" "nesting v + 1 \<le> maxNestingDepth"
    and "length (rqBody r) \<le> 4096" "\<not> rqBroken r"
    and "\<forall>f \<in> {''credential'', ''cap_cents'', ''cap_tokens''}. \<not> names_field f k"
    and "adStore d = pg_admin_store" "wfaults w = []" "n \<noteq> []" "pg_text_ok n" "has_credential (wdb w) n"
  shows "\<exists>w'. setBudget d r w = ((204, AvEmpty), w') \<and>
    (\<exists>c. List.find (\<lambda>c. crName c = n) (credentials (wdb w')) = Some c \<and> crCapCents c = None \<and> crCapTokens c = None)"
proof -
  let ?z = "\<lparr>bqCredential = [], bqCapCents = None, bqCapTokens = None\<rparr>"
  let ?f = "\<lambda>c. c\<lparr>crCapCents := None, crCapTokens := None\<rparr>"
  let ?db = "wdb w\<lparr>credentials := update_first (\<lambda>c. crName c = n) ?f (credentials (wdb w))\<rparr>"
  have "decode_request 4096 set_budget_request ?z r = (case set_budget_request (JObj [(''credential'', JStr n), (k, v)]) (?z, False) of
      (x, bad) \<Rightarrow> if bad then Inl Syntax else Inr x)"
    by (rule decode_request_doc [OF assms(1) _ assms(3,4)]) (use assms(2) in \<open>simp add: maxNestingDepth_def\<close>)
  then have b: "decode_request 4096 set_budget_request ?z r = Inr (?z\<lparr>bqCredential := n\<rparr>)"
    using assms(5) by (simp add: set_budget_request_def set_struct_def set_members_def admin_names set_field_def set_string_def)
  have st: "asSetBudget (adStore d) n None None w = (Inr (), w\<lparr>wdb := ?db, wnext := Suc (wnext w)\<rparr>)"
    unfolding assms(6) pg_admin_store_def using assms(7,9,10) by (auto simp: SetBudget_def cap_ok_def intro!: pg_write_now)
  obtain c where c: "List.find (\<lambda>c. crName c = n) (credentials (wdb w)) = Some c" "crName c = n"
    using assms(10) has_credential_find by blast
  have "setBudget d r w = ((204, AvEmpty), w\<lparr>wdb := ?db, wnext := Suc (wnext w)\<rparr>)"
    using assms(8) st by (simp add: setBudget_def b Let_def)
  moreover have "List.find (\<lambda>c. crName c = n) (credentials ?db) = Some (?f c)"
    using find_update_first [OF c(1), of ?f] c(2) by simp
  ultimately show ?thesis by simp
qed

subsection \<open>Validating an overlay\<close>

definition entry_of_fragment :: "Fragment \<Rightarrow> dir_entry" where
  "entry_of_fragment f = \<lparr>deName = fgName f, deIsDir = False, deRaw = Some (fgRaw f)\<rparr>"

lemma read_entries:
  "\<forall>f \<in> set fs. FragmentName (fgName f) \<Longrightarrow> read_fragments (map entry_of_fragment fs) = Inr fs"
  by (induction fs) (auto simp: entry_of_fragment_def)

lemma validate_wf:
  assumes "decode_request n set_validate [] r = Inr fragments"
  shows "map_wf fragments"
proof -
  have m: "map_wf (fst t) \<Longrightarrow> map_wf (fst (set_map set_raw None v t))" for v and t :: "json option gomap \<times> bool"
  proof (cases v)
    case (JObj ms)
    assume "map_wf (fst t)"
    then show ?thesis unfolding JObj set_map_def json.case
      by (induction ms arbitrary: t) (auto simp: set_raw_def map_wf_set)
  qed (simp_all add: set_map_def map_wf_def)
  have "map_wf (fst (fold (set_members True [(''fragments'', set_map set_raw None)]) ms t))" if "map_wf (fst t)" for ms t
    using that by (induction ms arbitrary: t) (simp_all add: set_members_def m)
  then have "map_wf (fst (set_validate v ([], False)))" for v
    by (cases v) (simp_all add: set_validate_def set_struct_def map_wf_def)
  then show ?thesis using assms
    by (auto simp: decode_request_def split: sum.splits prod.splits if_splits) (metis fst_conv)
qed

lemma read_validated:
  assumes "map_wf fragments" "\<forall>n \<in> fst ` set fragments. FragmentName n" "dir \<noteq> []"
    "mset fs = mset (validate_fragments fragments)"
  shows "Read (Some base) dir (Entries (map entry_of_fragment fs)) = Inr (base, validate_fragments fragments)"
proof -
  have names: "map fgName (validate_fragments fragments) = map fst fragments" by (simp add: validate_fragments_def comp_def case_prod_beta')
  have s: "set fs = set (validate_fragments fragments)" using assms(4) by (rule mset_eq_setD)
  have "\<forall>f \<in> set fs. FragmentName (fgName f)" using assms(2) unfolding s by (auto simp: validate_fragments_def)
  then have r: "read_fragments (map entry_of_fragment fs) = Inr fs" by (rule read_entries)
  have d: "distinct (map fst fragments)" and o1: "sorted (map fst fragments)"
    using assms(1) map_wf_distinct strict_sorted_imp_sorted by (auto simp: map_wf_def)
  have "inj_on fgName (set fs)" using d unfolding s names [symmetric] by (simp add: distinct_map)
  then have "sort_key fgName fs = validate_fragments fragments"
    using sort_key_inj_key_eq [OF assms(4), of fgName] o1 unfolding names by blast
  then show ?thesis using assms(3) by (simp add: Read_def r)
qed

text \<open>
  C17: a dry run decides what the boot decides: for fragments under names the boot reads, written into
  the directory in any order, the table that loads is the one whose upstreams and declarations the
  answer lists, and an error is the very error the load ends with; only the check of the existing
  allowlists can make the answer another.
\<close>

theorem a_dry_run_is_the_boot:
  assumes "decode_request maxOverlayBytes set_validate [] r = Inr fragments"
    and "validateConfig d r s = ((status, view), s')"
    and "\<forall>n \<in> fst ` set fragments. FragmentName n" "dir \<noteq> []" "mset fs = mset (validate_fragments fragments)"
  shows "case LoadDir (adParseURL d) (adParseAddr d) (Some (adConfigBase d)) dir (Entries (map entry_of_fragment fs)) of
      Inl e \<Rightarrow> status = 400 \<and> s' = s \<and> ((\<exists>m. e = LdMerge m \<and> view = invalid (VeMerge m)) \<or> (\<exists>p. e = LdParse p \<and> view = invalid (VeParse p)))
    | Inr c \<Rightarrow> (\<exists>e. status = 503 \<and> view = invalid (VeStore e)) \<or>
        status = 200 \<and> (\<exists>resp. view = AvValidated resp \<and> vrOK resp \<and> vrToolUpstreams resp = map fst (cfToolUpstreams c) \<and>
          vrTableDeclared resp = AllDeclared (cfPolicy c))"
proof -
  have rd: "Read (Some (adConfigBase d)) dir (Entries (map entry_of_fragment fs)) = Inr (adConfigBase d, validate_fragments fragments)"
    by (rule read_validated [OF validate_wf [OF assms(1)] assms(3-5)])
  have nf: "List.find (\<lambda>n. \<not> FragmentName n) (map fst fragments) = None" using assms(3) by (auto simp: find_None_iff)
  show ?thesis using assms(2) unfolding validateConfig_def assms(1) sum.case nf option.case LoadDir_def rd prod.case Let_def
    by (auto split: sum.splits prod.splits)
qed

subsection \<open>Witnesses\<close>

definition ad_deps :: "string \<Rightarrow> world AdminDeps" where
  "ad_deps base = \<lparr>adStore = pg_admin_store, adConfig = zero_config, adConfigBase = base, adTokenFile = ''/t'',
     adReadFile = (\<lambda>p w. Some ''tok''), adNow = wnow, adRandom = (\<lambda>w. Some [CHR ''r'']), adSha = id,
     adUprint = (\<lambda>r. True), adParseURL = (\<lambda>r. Some ov_url), adParseAddr = (\<lambda>h. None)\<rparr>"

definition ad_request :: "string \<Rightarrow> AdminRequest" where
  "ad_request body = \<lparr>rqName = [], rqHeader = [(''Authorization'', [''Bearer tok''])], rqBody = body, rqBroken = False, aqQuery = []\<rparr>"

definition ad_world :: "db \<Rightarrow> world" where
  "ad_world db = \<lparr>wdb = db, wnow = 3, wuuid = (\<lambda>i. demo_uuid), wnext = 0, wfaults = []\<rparr>"

lemmas ad_defs = ad_deps_def ad_request_def ad_world_def

lemma bot_name: "credentialName ''bot''"
  by (simp add: credentialName_def dns_char_def go_defs)

lemma bot_there: "has_credential (empty_db\<lparr>credentials := [demo_cred]\<rparr>) ''bot''"
  by (simp add: has_credential_def demo_cred_def)

theorem no_request_leaves_a_credential_undated_witness:
  "\<exists>w'. admin_serve (ad_deps []) (RtRenew ''bot'') (ad_request []) (ad_world (empty_db\<lparr>credentials := [demo_cred]\<rparr>)) =
      ((200, AvRenewed ''bot'' (format_rfc3339 (3 + defaultCredentialTTL))), w') \<and>
    (\<exists>c \<in> set (credentials (wdb w')). credential_row_ok 3 [demo_cred] c)"
proof -
  let ?w = "ad_world (empty_db\<lparr>credentials := [demo_cred]\<rparr>)" and ?d = "ad_deps []" and ?r = "ad_request []"
  have h: "cut_prefix (header_get (rqHeader ?r) ''Authorization'') ''Bearer '' = (''tok'', True)"
    by (simp add: ad_request_def header_get_def canonical_key_def header_byte_def map_get_def cut_prefix_def go_defs)
  have t: "trim_space ''tok'' = ''tok''" by (simp add: go_defs)
  have b: "decode_request 4096 set_renew None ?r = Inl EOF"
    by (simp add: decode_request_def bounded_value_def first_value_def ad_request_def lex.simps)
  obtain w' where w: "asRenewCredential pg_admin_store ''bot'' (3 + defaultCredentialTTL) ?w = (Inr (), w')" "credentials (wdb w') \<noteq> []"
    using bot_there credentialName_text [OF bot_name]
    by (simp add: pg_admin_store_def pg_write_def next_fault_def ad_world_def RenewCredential_def demo_cred_def)
  have s: "admin_serve ?d (RtRenew ''bot'') ?r ?w = ((200, AvRenewed ''bot'' (format_rfc3339 (3 + defaultCredentialTTL))), w')"
    using w(1) by (simp add: admin_serve_def admin_auth_def Let_def h t admin_handler_def renewCredential_def bot_name b credentialTTL_def
        ad_deps_def ad_world_def)
  obtain c where "c \<in> set (credentials (wdb w'))" using w(2) by (cases "credentials (wdb w')") auto
  then have "credential_row_ok 3 [demo_cred] c"
    using no_request_leaves_a_credential_undated [OF s, of c] by (simp add: ad_deps_def ad_world_def)
  then show ?thesis using s \<open>c \<in> _\<close> by blast
qed

theorem an_absurd_lifetime_wraps_witness:
  "credentialTTL (Some 90) = Some 90000000000 \<and>
   (\<exists>w'. renewCredential (ad_deps []) ''bot'' (ad_request (render absurd_ttl)) (ad_world (empty_db\<lparr>credentials := [demo_cred]\<rparr>)) =
      ((200, AvRenewed ''bot'' (format_rfc3339 60290448387)), w'))"
proof -
  let ?w = "ad_world (empty_db\<lparr>credentials := [demo_cred]\<rparr>)" and ?r = "ad_request (render absurd_ttl)"
  note t = an_absurd_lifetime_wraps [of 90 "?r" "''bot''" "?w" "ad_deps []"]
  have "credentialTTL (Some 90) = Some 90000000000" using t by (simp add: second_def)
  moreover have "\<exists>w'. renewCredential (ad_deps []) ''bot'' ?r ?w = ((200, AvRenewed ''bot'' (format_rfc3339 60290448387)), w')"
    using t bot_name bot_there by (auto simp: ad_defs)
  ultimately show ?thesis by blast
qed

definition misspelt :: json where "misspelt = JObj [(''credential'', JStr ''bot''), (''cap_cent'', JNum ''5'')]"

theorem a_misspelt_cap_lifts_both_witness:
  "\<exists>w'. setBudget (ad_deps []) (ad_request (render misspelt)) (ad_world (empty_db\<lparr>credentials := [demo_cred]\<rparr>)) = ((204, AvEmpty), w')"
proof -
  have ok: "json_ok misspelt" by (auto simp: misspelt_def number_ok_def lex_eval intro!: utf8_valid_ascii)
  have k: "fold_runes ''cap_cent'' = ''cap_cent''" by code_simp
  have len: "length (render misspelt) \<le> 4096" by (simp add: misspelt_def render_eval)
  show ?thesis
    using a_misspelt_cap_lifts_both [of "ad_request (render misspelt)" "''bot''" "''cap_cent''" "JNum ''5''" "ad_deps []"
        "ad_world (empty_db\<lparr>credentials := [demo_cred]\<rparr>)"] lex_render [OF ok] len bot_there credentialName_text [OF bot_name]
    by (auto simp: ad_defs misspelt_def [symmetric] maxNestingDepth_def names_field_def k)
qed

definition val_doc :: json where "val_doc = JObj [(''fragments'', JObj [(''a.json'', ov_frag)])]"

lemma val_doc_reads: "decode_request maxOverlayBytes set_validate [] (ad_request (render val_doc)) = Inr [(''a.json'', Some ov_frag)]"
proof -
  have ok: "json_ok val_doc" by (auto simp: val_doc_def ov_frag_def intro!: utf8_valid_ascii)
  have "length (render val_doc) \<le> maxOverlayBytes" by (simp add: val_doc_def ov_frag_def maxOverlayBytes_def render_eval)
  moreover have "nesting val_doc \<le> maxNestingDepth" by (simp add: val_doc_def ov_frag_def maxNestingDepth_def)
  ultimately have "decode_request maxOverlayBytes set_validate [] (ad_request (render val_doc)) =
      (case set_validate val_doc ([], False) of (x, bad) \<Rightarrow> if bad then Inl Syntax else Inr x)"
    using lex_render [OF ok] by (intro decode_request_doc) (simp_all add: ad_request_def)
  then show ?thesis by (simp add: val_doc_def set_validate_def set_struct_def set_members_def admin_names set_map_def set_raw_def)
qed

lemma val_doc_tools: "fragment_tools (render ov_frag) = [(''t'', [])]"
  unfolding fragment_tools_def unmarshal_def ov_texts
  by (simp add: ov_frag_def set_struct_def set_members_def ov_names set_map_def)

theorem a_dry_run_is_the_boot_witness:
  "\<exists>resp s'. validateConfig (ad_deps (render ov_base)) (ad_request (render val_doc)) (ad_world empty_db) = ((200, AvValidated resp), s') \<and>
     ''t'' \<in> set (vrToolUpstreams resp)"
proof -
  let ?r = "ad_request (render val_doc)" and ?d = "ad_deps (render ov_base)" and ?fr = "[(''a.json'', Some ov_frag)]"
  have fn: "\<forall>n \<in> fst ` set ?fr. FragmentName n" by (simp add: FragmentName_def has_prefix_def has_suffix_def)
  have vf: "validate_fragments ?fr = [ov_fragment]" by (simp add: validate_fragments_def ov_fragment_def)
  obtain status view s' where a: "validateConfig ?d ?r (ad_world empty_db) = ((status, view), s')" by (metis prod.exhaust)
  obtain c where c: "LoadDir (\<lambda>r. Some ov_url) (\<lambda>h. None) (Some (render ov_base)) ''/d''
      (Entries (map entry_of_fragment [ov_fragment])) = Inr c" "''t'' \<in> fst ` set (cfToolUpstreams c)"
    using ov_loads by (force simp: entry_of_fragment_def ov_fragment_def map_get_def dest: map_of_SomeD)
  have "overlay_declared p [ov_fragment] = []" for p by (simp add: overlay_declared_def ov_fragment_def val_doc_tools)
  then have "view \<noteq> invalid (VeStore e)" for e
    using a unfolding validateConfig_def val_doc_reads
    by (auto simp: vf fn ad_deps_def pg_admin_store_def pg_read_def next_fault_def ad_world_def texts_ok_def invalid_def Let_def
        split: sum.splits option.splits prod.splits)
  then show ?thesis
    using a_dry_run_is_the_boot [OF val_doc_reads a fn, of "''/d''" "[ov_fragment]"] c a by (auto simp: vf ad_deps_def image_iff Bex_def)
qed

definition file_doc :: json where
  "file_doc = JObj [(''credential'', JStr ''bot''), (''kind'', JStr ''tool''), (''subject'', JStr ''pay''), (''arguments'', JObj [(''amount'', JNum ''7'')])]"

definition approve_doc :: json where "approve_doc = JObj [(''max_uses'', JNum ''1'')]"

definition file_req :: file_request where
  "file_req = \<lparr>fqCredential = ''bot'', fqKind = ''tool'', fqSubject = ''pay'', fqArguments = Some (JObj [(''amount'', JNum ''7'')])\<rparr>"

lemma decodeStrict_doc:
  assumes "json_ok v" "nesting v \<le> maxNestingDepth" "length (render v) \<le> 65536"
  shows "decodeStrict setter zero (ad_request (render v)) = (case setter v (zero, False) of (x, bad) \<Rightarrow> if bad then Inl InvalidBody else Inr x)"
  using first_value_run [OF lex_render [OF assms(1)] assms(2)] assms(3) by (simp add: decodeStrict_def ad_request_def split: prod.split)

lemma file_names:
  "names_field x ''kind'' \<longleftrightarrow> x = ''kind''" "names_field x ''subject'' \<longleftrightarrow> x = ''subject''"
  "names_field x ''arguments'' \<longleftrightarrow> x = ''arguments''" "names_field x ''max_uses'' \<longleftrightarrow> x = ''max_uses''"
proof -
  have "fold_runes ''kind'' = ''kind''" "fold_runes ''subject'' = ''subject''" "fold_runes ''arguments'' = ''arguments''"
    "fold_runes ''max_uses'' = ''max_uses''" by code_simp+
  then show "names_field x ''kind'' \<longleftrightarrow> x = ''kind''" "names_field x ''subject'' \<longleftrightarrow> x = ''subject''"
    "names_field x ''arguments'' \<longleftrightarrow> x = ''arguments''" "names_field x ''max_uses'' \<longleftrightarrow> x = ''max_uses''" by (auto simp: names_field_def)
qed

lemma file_doc_reads:
  "decodeStrict set_file_request \<lparr>fqCredential = [], fqKind = [], fqSubject = [], fqArguments = None\<rparr> (ad_request (render file_doc)) = Inr file_req"
proof -
  have "json_ok file_doc" by (auto simp: file_doc_def number_ok_def lex_eval intro!: utf8_valid_ascii)
  moreover have "length (render file_doc) \<le> 65536" by (simp add: file_doc_def render_eval)
  moreover have "nesting file_doc \<le> maxNestingDepth" by (simp add: file_doc_def maxNestingDepth_def)
  ultimately show ?thesis
    by (subst decodeStrict_doc) (simp_all add: file_doc_def file_req_def set_file_request_def set_struct_def set_members_def
        admin_names file_names set_field_def set_string_def set_raw_def)
qed

lemma approve_doc_reads:
  "decodeStrict set_approval_bounds \<lparr>abTTLSeconds = None, abMaxUses = None, abAmount = None\<rparr> (ad_request (render approve_doc)) =
     Inr \<lparr>abTTLSeconds = None, abMaxUses = Some 1, abAmount = None\<rparr>"
proof -
  have "json_ok approve_doc" by (auto simp: approve_doc_def number_ok_def lex_eval intro!: utf8_valid_ascii)
  moreover have "length (render approve_doc) \<le> 65536" by (simp add: approve_doc_def render_eval)
  moreover have "nesting approve_doc \<le> maxNestingDepth" by (simp add: approve_doc_def maxNestingDepth_def)
  ultimately show ?thesis
    by (subst decodeStrict_doc) (simp_all add: approve_doc_def set_approval_bounds_def set_struct_def set_members_def
        file_names set_field_def set_pointer_def set_int32_def set_int64_def go_defs)
qed

theorem an_operators_preapproval_admits_the_call_witness:
  "\<exists>w3 gid d'. approve (ad_deps []\<lparr>adSha := \<lambda>x. ''h''\<rparr>) demo_uuid (ad_request (render approve_doc))
      (snd (admin_fileRequest (ad_deps []\<lparr>adSha := \<lambda>x. ''h''\<rparr>) (ad_request (render file_doc)) (ad_world (empty_db\<lparr>credentials := [demo_cred]\<rparr>)))) = w3 \<and>
    ConsumeToolGrant ''bot'' ''pay'' ''68'' 9 (wdb (snd w3)) = (Inr (Some gid), d')"
proof -
  let ?d = "ad_deps []\<lparr>adSha := \<lambda>x. ''h''\<rparr>" and ?g = "gw_deps no_policy\<lparr>dSha := \<lambda>x. ''h''\<rparr>"
  let ?w = "ad_world (empty_db\<lparr>credentials := [demo_cred]\<rparr>)"
  have msg: "argumentsOf pay_msg = Some [(''amount'', JNum ''7'')]" "toolNameOf pay_msg = ''pay''"
    by (simp_all add: argumentsOf_def toolNameOf_def pay_msg_def map_get_def)
  have same: "same_arguments (fqArguments file_req) [(''amount'', JNum ''7'')]"
    by (simp add: same_arguments_def file_req_def go_defs format_nat.simps)
  have dig: "cbDigest (call_binding ?g pay_msg [(''amount'', JNum ''7'')]) = ''68''"
    by (simp add: call_binding_def Bind_def hex_encode_def go_defs split: prod.split)
  define fl where "fl = \<lparr>fiCredential = ''bot'', fiKind = ''tool'', fiSubject = ''pay'', fiDetail = ''filed explicitly via admin'', fiArgDigest = ''68'',
       fiArgSummary = ''pay: (this tool declares no policy-relevant arguments; the approval binds the whole call)''\<rparr>"
  let ?rq = "request_of fl 3 demo_uuid"
  let ?db1 = "empty_db\<lparr>credentials := [demo_cred], approval_request := [?rq], approval_audit := [requested_audit fl 3 demo_uuid]\<rparr>"
  let ?g1 = "minted ?rq None (Some 1) None DecidedByAdmin 3 demo_uuid"
  have "file_binding ?d file_req = Inr (call_binding ?g pay_msg [(''amount'', JNum ''7'')])"
    by (rule filing_binding [OF pay_canonical msg(1)])
      (use same msg(2) in \<open>simp_all add: ad_deps_def gw_deps_def file_req_def no_policy_def zero_config_def number_ok_def lex_eval utf8_valid_ascii\<close>)
  moreover have "cbSummary (call_binding ?g pay_msg [(''amount'', JNum ''7'')]) = fiArgSummary fl"
    using msg(2) by (simp add: call_binding_def Bind_def summarize_def Declared_def no_policy_def map_get_def fl_def)
  ultimately have ff: "file_filing ?d file_req = Inr fl"
    using dig by (simp add: file_filing_def file_req_def fl_def)
  have fr: "FileRequest fl 3 demo_uuid (empty_db\<lparr>credentials := [demo_cred]\<rparr>) = (Inr (demo_uuid, True), ?db1)"
    by (simp add: FileRequest_def insert_request_def insert_approval_audit_def kind_ok_def has_credential_def
        texts_ok_ascii demo_defs demo_uuid_def fl_def)
  have "subjectRe ''pay''" by (simp add: subjectRe_def go_defs)
  then have f: "admin_fileRequest ?d (ad_request (render file_doc)) ?w = ((201, AvFiled True False), ?w\<lparr>wdb := ?db1, wnext := 1\<rparr>)"
    using fr ff file_doc_reads bot_name
    by (simp add: admin_fileRequest_def file_req_def ad_deps_def pg_admin_store_def pg_write_def next_fault_def ad_world_def FileApprovalRequest_def)
  have ap: "\<exists>d'. ApproveRequest demo_uuid None (Some 1) None DecidedByAdmin 3 demo_uuid ?db1 = (Inr ?g1, d')"
    using demo_uuid_ok
    by (simp add: ApproveRequest_def pending_request_def Let_def insert_grant_def insert_approval_audit_def DecidedByAdmin_def
      kind_ok_def has_credential_def texts_ok_ascii ascii_text_ok grant_row_ok_def bounds_uses_1 demo_defs demo_uuid_def fl_def)
  have "uuidRe demo_uuid" by (simp add: uuidRe_def demo_uuid_def go_defs upt_rec)
  then obtain w3 where a: "approve ?d demo_uuid (ad_request (render approve_doc)) (?w\<lparr>wdb := ?db1, wnext := 1\<rparr>) = ((201, AvGrant ?g1), w3)"
    using ap approve_doc_reads
    by (auto simp: approve_def out_of_bounds_def maxUsesLimit_def ad_deps_def pg_admin_store_def pg_write_def next_fault_def ad_world_def)
  have "grantLive 9 ?g1" by (simp add: grantLive_def minted_def)
  then show ?thesis
    using an_operators_preapproval_admits_the_call [OF pay_canonical msg(1) _ _ _ _ _ file_doc_reads _ same f _ _ _, of ?g "ad_request (render approve_doc)"
        "?w\<lparr>wdb := ?db1, wnext := 1\<rparr>" ?g1 w3 9] a f demo_uuid_ok msg(2) dig
    by (simp add: ad_deps_def gw_deps_def ad_world_def file_req_def no_policy_def zero_config_def)
qed

end
