(* ===== verification/Blueprint.thy ===== *)
theory Blueprint
  imports GoNum
begin

text \<open>
  Component \<^verbatim>\<open>internal/kmx/blueprint/blueprint.go\<close>, with the vocabulary of \<^verbatim>\<open>params.go\<close> and the
  refusals of \<^verbatim>\<open>credentials.go\<close>: what a workflow file may say. The decoding of YAML and the
  compilation of an operator's regular expression are arguments; the regular expressions of the
  code itself are written out. Where the code ranges over a map the first error in key order is
  reported; a message is a constructor.
\<close>

subsection \<open>Data\<close>

record Parameter =
  paType :: string
  paHelp :: string
  paPattern :: string
  paRequired :: bool
  paRequiredFor :: "string list"
  paNeeds :: "string list"
  paDefault :: string

record BpConstraint =
  bcField :: string
  bcOp :: string
  bcValue :: string
  bcValues :: string
  bcWhen :: string
  bcLiteral :: string
  bcValuesSet :: bool

record Refresh =
  rfCommand :: "string list"
  rfSecret :: string
  rfKey :: string
  rfRequires :: string
  rfWhy :: string
  rfSeam :: string

record Seam =
  seRequires :: "string list gomap"
  seAllow :: "string list"
  seBound :: "BpConstraint list gomap"
  seRefresh :: "Refresh option"

record Call =
  caUpstream :: string
  caTool :: string
  caArgs :: "string gomap"
  caTypes :: "string gomap"
  caUngoverned :: string

record Exec =
  exCommand :: "string list"
  exScript :: string
  exArgs :: "string list"
  exEnv :: "string gomap"
  exRequires :: "string list"
  exPreview :: "string list"

record PollSpec =
  psInterval :: int
  psTimeout :: int
  psDoneMarker :: string
  psFailedMarker :: string
  psRunning :: string
  psOnFailure :: string

record Step =
  stName :: string
  stKind :: string
  stPrompt :: string
  stCapture :: string
  stCall :: "Call option"
  stForEach :: string
  stPoll :: "PollSpec option"
  stExec :: "Exec option"
  stWhen :: string

record Blueprint =
  bpVersion :: string
  bpName :: string
  bpSummary :: string
  bpCredential :: string
  bpAgent :: string
  bpParameters :: "Parameter gomap"
  bpSeams :: "Seam gomap"
  bpSteps :: "Step list"

subsection \<open>Vocabulary\<close>

definition bp_Version :: string where "bp_Version = ''v1''"

definition KindRead :: string where "KindRead = ''read''"
definition KindPropose :: string where "KindPropose = ''propose''"
definition KindConsequential :: string where "KindConsequential = ''consequential''"
definition KindBounded :: string where "KindBounded = ''bounded''"
definition KindPoll :: string where "KindPoll = ''poll''"

definition StepKinds :: "string list" where
  "StepKinds = [KindRead, KindPropose, KindConsequential, KindBounded, KindPoll]"

definition TypeString :: string where "TypeString = ''string''"
definition TypeStringList :: string where "TypeStringList = ''string_list''"
definition TypeIntList :: string where "TypeIntList = ''int_list''"
definition TypeGitHubRepo :: string where "TypeGitHubRepo = ''github_repo''"

definition ParameterTypes :: "string list" where
  "ParameterTypes = [TypeString, TypeStringList, TypeIntList, TypeGitHubRepo]"

definition ConstraintOps :: "string list" where
  "ConstraintOps = [''eq'', ''ne'', ''lt'', ''lte'', ''gt'', ''gte'', ''in'', ''not_in'']"

definition bp_numericOps :: "string \<Rightarrow> bool" where
  "bp_numericOps op \<longleftrightarrow> op \<in> {''lt'', ''lte'', ''gt'', ''gte''}"

definition ArgInt :: string where "ArgInt = ''int''"
definition ArgBool :: string where "ArgBool = ''bool''"
definition ArgTypes :: "string list" where "ArgTypes = [''string'', ArgInt, ArgBool]"

definition LiteralString :: string where "LiteralString = ''string''"
definition LiteralInt :: string where "LiteralInt = ''int''"

lemmas kind_defs = KindRead_def KindPropose_def KindConsequential_def KindBounded_def KindPoll_def StepKinds_def
lemmas type_defs = TypeString_def TypeStringList_def TypeIntList_def TypeGitHubRepo_def ParameterTypes_def

definition lower_digit :: "char \<Rightarrow> bool" where "lower_digit c \<longleftrightarrow> is_lower c \<or> is_digit c"

definition paramNameRE :: "string \<Rightarrow> bool" where
  "paramNameRE s \<longleftrightarrow> (case s of [] \<Rightarrow> False
     | c # cs \<Rightarrow> is_lower c \<and> class_len (\<lambda>x. lower_digit x \<or> x = CHR ''_'') 0 40 cs)"

text \<open>\<open>^[a-z0-9]([-a-z0-9]{0,n}[a-z0-9])?$\<close>.\<close>

definition label_upto :: "nat option \<Rightarrow> string \<Rightarrow> bool" where
  "label_upto bound s \<longleftrightarrow> s \<noteq> [] \<and> lower_digit (hd s) \<and> lower_digit (last s) \<and>
     list_all (\<lambda>c. lower_digit c \<or> c = CHR ''-'') s \<and> (case bound of None \<Rightarrow> True | Some n \<Rightarrow> length s \<le> n + 2)"

definition dnsLabelRE :: "string \<Rightarrow> bool" where "dnsLabelRE = label_upto (Some 40)"
definition upstreamNameRE :: "string \<Rightarrow> bool" where "upstreamNameRE = label_upto None"

definition toolNameRE :: "string \<Rightarrow> bool" where
  "toolNameRE s \<longleftrightarrow> s \<noteq> [] \<and> is_alnum (hd s) \<and> list_all (\<lambda>c. is_alnum c \<or> c = CHR ''_'' \<or> c = CHR ''.'' \<or> c = CHR ''-'') s"

definition policyFieldRE :: "string \<Rightarrow> bool" where
  "policyFieldRE s \<longleftrightarrow> class_len (\<lambda>c. is_alnum c \<or> c = CHR ''_'' \<or> c = CHR ''-'') 1 64 s"

definition scriptNameRE :: "string \<Rightarrow> bool" where
  "scriptNameRE s \<longleftrightarrow> s \<noteq> [] \<and> is_alnum (hd s) \<and>
     class_len (\<lambda>c. is_alnum c \<or> c = CHR ''.'' \<or> c = CHR ''_'' \<or> c = CHR ''-'') 0 63 (tl s)"

definition envNameRE :: "string \<Rightarrow> bool" where
  "envNameRE s \<longleftrightarrow> s \<noteq> [] \<and> is_upper (hd s) \<and> class_len (\<lambda>c. is_upper c \<or> is_digit c \<or> c = CHR ''_'') 0 63 (tl s)"

subsection \<open>References\<close>

text \<open>
  \<open>referenceRE\<close>: \<open>${\<close>, a name of lower-case letters, digits and underscores with at most one field,
  both perhaps behind \<open>capture.\<close>, and \<open>}\<close>. A body holds no brace, so a match ends at the first one.
\<close>

definition ref_char :: "char \<Rightarrow> bool" where
  "ref_char c \<longleftrightarrow> lower_digit c \<or> c = CHR ''_'' \<or> c = CHR ''.''"

definition capturePrefix :: string where "capturePrefix = ''capture.''"
definition fileSuffix :: string where "fileSuffix = ''.file''"
definition itemRef :: string where "itemRef = ''item''"

definition plain_ref :: "string \<Rightarrow> bool" where
  "plain_ref s \<longleftrightarrow> (case cut_at CHR ''.'' s of (name, field, dotted) \<Rightarrow>
     name \<noteq> [] \<and> is_lower (hd name) \<and> list_all (\<lambda>c. lower_digit c \<or> c = CHR ''_'') name \<and>
     (dotted \<longrightarrow> field \<noteq> [] \<and> list_all is_lower field))"

definition ref_body :: "string \<Rightarrow> bool" where
  "ref_body s \<longleftrightarrow> plain_ref s \<or> has_prefix s capturePrefix \<and> plain_ref (drop (length capturePrefix) s)"

definition ref_at :: "string \<Rightarrow> string option" where
  "ref_at s =
     (if has_prefix s ''${'' then
        (let body = takeWhile ref_char (drop 2 s); rest = dropWhile ref_char (drop 2 s) in
         if ref_body body \<and> rest \<noteq> [] \<and> hd rest = CHR ''}'' then Some body else None)
      else None)"

datatype segment = Lit char | Ref string

function segments :: "string \<Rightarrow> segment list" where
  "segments [] = []"
| "segments (c # cs) =
     (case ref_at (c # cs) of
        Some body \<Rightarrow> Ref body # segments (drop (length body + 3) (c # cs))
      | None \<Rightarrow> Lit c # segments cs)"
  by pat_completeness auto
termination by (relation "measure length") auto

fun seg_refs :: "segment list \<Rightarrow> string list" where
  "seg_refs [] = []"
| "seg_refs (Ref b # s) = b # seg_refs s"
| "seg_refs (Lit c # s) = seg_refs s"

definition references :: "string \<Rightarrow> string list" where "references s = seg_refs (segments s)"

definition cut_dot :: "string \<Rightarrow> string \<times> string" where
  "cut_dot s = (case cut_at CHR ''.'' s of (a, b, _) \<Rightarrow> (a, b))"

subsection \<open>Credential material\<close>

text \<open>A line that starts a key: blanks and dashes, an identifier, blanks and a colon.\<close>

definition key_start :: "char \<Rightarrow> bool" where "key_start c \<longleftrightarrow> is_upper c \<or> is_lower c \<or> c = CHR ''_''"
definition key_char :: "char \<Rightarrow> bool" where "key_char c \<longleftrightarrow> key_start c \<or> is_digit c"

definition yaml_key :: "string \<Rightarrow> string option" where
  "yaml_key line =
     (let body = dropWhile (\<lambda>c. c = CHR '' '' \<or> c = CHR 0x09 \<or> c = CHR ''-'') line;
          key = takeWhile key_char body;
          rest = dropWhile (\<lambda>c. c = CHR '' '' \<or> c = CHR 0x09) (dropWhile key_char body) in
      if key \<noteq> [] \<and> key_start (hd key) \<and> rest \<noteq> [] \<and> hd rest = CHR '':'' then Some key else None)"

fun lines_of :: "string \<Rightarrow> string list" where
  "lines_of [] = [[]]"
| "lines_of (c # s) =
     (if c = CHR 0x0A then [] # lines_of s
      else (case lines_of s of [] \<Rightarrow> [[c]] | l # ls \<Rightarrow> (c # l) # ls))"

definition credentialKeys :: "string list" where
  "credentialKeys = [''token'', ''password'', ''passwd'', ''api_key'', ''apikey'', ''access_key'', ''secret_value'', ''secret_key'',
     ''client_secret'', ''private_key'', ''bearer'', ''credential_file'', ''credential_header'']"

definition word_char :: "char \<Rightarrow> bool" where "word_char c \<longleftrightarrow> is_alnum c \<or> c = CHR ''_''"

definition boundary :: "char option \<Rightarrow> string \<Rightarrow> bool" where
  "boundary before s \<longleftrightarrow> (case before of None \<Rightarrow> False | Some c \<Rightarrow> word_char c) \<noteq> (s \<noteq> [] \<and> word_char (hd s))"

definition run_of :: "(char \<Rightarrow> bool) \<Rightarrow> nat \<Rightarrow> string \<Rightarrow> bool" where
  "run_of p n s \<longleftrightarrow> n \<le> length s \<and> list_all p (take n s)"

definition dash_word :: "char \<Rightarrow> bool" where "dash_word c \<longleftrightarrow> is_alnum c \<or> c = CHR ''_'' \<or> c = CHR ''-''"

definition jwt_part :: "string \<Rightarrow> string option" where
  "jwt_part s = (let rest = dropWhile dash_word s in
     if 10 \<le> length (takeWhile dash_word s) \<and> rest \<noteq> [] \<and> hd rest = CHR ''.'' then Some (tl rest) else None)"

fun pem_tail :: "string \<Rightarrow> bool" where
  "pem_tail [] = False"
| "pem_tail (c # s) = (has_prefix (c # s) ''PRIVATE KEY-----'' \<or> ((is_upper c \<or> c = CHR '' '') \<and> pem_tail s))"

definition gh_token :: "string \<Rightarrow> bool" where
  "gh_token s \<longleftrightarrow> has_prefix s ''gh'' \<and> length s > 3 \<and> s ! 2 \<in> set ''pousr'' \<and> s ! 3 = CHR ''_'' \<and> run_of is_alnum 16 (drop 4 s)"

definition slack_token :: "string \<Rightarrow> bool" where
  "slack_token s \<longleftrightarrow> has_prefix s ''xox'' \<and> length s > 4 \<and> s ! 3 \<in> set ''baprs'' \<and> s ! 4 = CHR ''-'' \<and>
     run_of (\<lambda>c. is_alnum c \<or> c = CHR ''-'') 10 (drop 5 s)"

definition token_at :: "char option \<Rightarrow> string \<Rightarrow> bool" where
  "token_at before s \<longleftrightarrow>
     boundary before s \<and>
       (gh_token s \<or>
        has_prefix s ''github_pat_'' \<and> run_of (\<lambda>c. is_alnum c \<or> c = CHR ''_'') 20 (drop 11 s) \<or>
        slack_token s \<or>
        has_prefix s ''kmh_'' \<and> run_of dash_word 16 (drop 4 s) \<or>
        has_prefix s ''sk-'' \<and> run_of is_alnum 20 (drop 3 s) \<or>
        has_prefix s ''eyJ'' \<and> (case jwt_part (drop 3 s) of None \<Rightarrow> False | Some rest \<Rightarrow> jwt_part rest \<noteq> None)) \<or>
     has_prefix s ''-----BEGIN '' \<and> pem_tail (drop 11 s)"

fun token_in :: "char option \<Rightarrow> string \<Rightarrow> bool" where
  "token_in before [] = False"
| "token_in before (c # s) = (token_at before (c # s) \<or> token_in (Some c) s)"

datatype material = KeyRefused string | TokenShape

definition refuseCredentialMaterial :: "string \<Rightarrow> material option" where
  "refuseCredentialMaterial text =
     (case List.find (\<lambda>k. to_lower k \<in> set credentialKeys) (List.map_filter yaml_key (lines_of text)) of
        Some k \<Rightarrow> Some (KeyRefused k)
      | None \<Rightarrow> if token_in None text then Some TokenShape else None)"

end
