(* ===== verification/BlueprintCheck.thy ===== *)
theory BlueprintCheck
  imports Blueprint
begin

text \<open>
  Component \<^verbatim>\<open>internal/kmx/blueprint/blueprint.go\<close>, \<open>Parse\<close> and everything it checks. A check answers
  the first error, by the check that found it and what its message names; \<open>Parse\<close> answers the document with the binary a refresh needs filled in.
\<close>

text \<open>A refusal: which check failed, and what it names.\<close>

datatype bp_error =
    BpMaterial material
  | BpYaml
  | BpRefused string "string list"

text \<open>The checks of a function in their order: the first error there is.\<close>

fun first_refusal :: "bp_error option list \<Rightarrow> bp_error option" where
  "first_refusal [] = None"
| "first_refusal (None # es) = first_refusal es"
| "first_refusal (Some e # es) = Some e"

definition refuse :: "bool \<Rightarrow> bp_error \<Rightarrow> bp_error option" where
  "refuse bad e = (if bad then Some e else None)"

lemma first_refusal_None: "first_refusal es = None \<longleftrightarrow> (\<forall>e \<in> set es. e = None)"
  by (induction es rule: first_refusal.induct) auto

lemma refuse_None [simp]: "refuse bad e = None \<longleftrightarrow> \<not> bad"
  by (simp add: refuse_def)

definition blank :: "string \<Rightarrow> bool" where "blank s \<longleftrightarrow> trim_space s = []"

subsection \<open>References\<close>

definition knownReferenceWithItem :: "Blueprint \<Rightarrow> string \<Rightarrow> bool \<Rightarrow> bp_error option" where
  "knownReferenceWithItem b ref hasItem =
     (if ref = itemRef then refuse (\<not> hasItem) (BpRefused ''item'' [ref])
      else case cut_dot ref of
             (name, field) \<Rightarrow>
               (case map_get (bpParameters b) name of
                  None \<Rightarrow> Some (BpRefused ''undeclared'' [ref])
                | Some p \<Rightarrow>
                    if field = [] then refuse (paType p = TypeGitHubRepo) (BpRefused ''repo field'' [ref])
                    else refuse (paType p \<noteq> TypeGitHubRepo \<or> (field \<noteq> ''owner'' \<and> field \<noteq> ''name'')) (BpRefused ''no field'' [ref])))"

definition knownReference :: "Blueprint \<Rightarrow> string \<Rightarrow> bp_error option" where
  "knownReference b ref = knownReferenceWithItem b ref False"

definition is_list_type :: "string \<Rightarrow> bool" where
  "is_list_type t \<longleftrightarrow> t = TypeIntList \<or> t = TypeStringList"

definition hasStep :: "Blueprint \<Rightarrow> string \<Rightarrow> bool" where
  "hasStep b name \<longleftrightarrow> list_ex (\<lambda>s. stName s = name) (bpSteps b)"

subsection \<open>Parameters\<close>

definition compilePattern :: "(string \<Rightarrow> (string \<Rightarrow> bool) option) \<Rightarrow> string \<Rightarrow> (string \<Rightarrow> bool) option" where
  "compilePattern compile p = (if \<not> has_prefix p ''^'' \<or> \<not> has_suffix p ''$'' then None else compile p)"

definition check_default :: "Blueprint \<Rightarrow> string \<Rightarrow> string \<Rightarrow> bp_error option" where
  "check_default b name ref =
     (let base = fst (cut_dot ref) in
      first_refusal
        [refuse (base = name) (BpRefused ''self default'' [name]),
         knownReference b ref,
         (case map_get (bpParameters b) base of
            None \<Rightarrow> None
          | Some q \<Rightarrow> refuse (paDefault q \<noteq> [] \<and> references (paDefault q) \<noteq> []) (BpRefused ''chained default'' [name, base]))])"

definition validateParameter :: "(string \<Rightarrow> (string \<Rightarrow> bool) option) \<Rightarrow> Blueprint \<Rightarrow> string \<times> Parameter \<Rightarrow> bp_error option" where
  "validateParameter compile b np =
     (case np of (name, p) \<Rightarrow>
        first_refusal
          [refuse (\<not> paramNameRE name) (BpRefused ''param name'' [name]),
           refuse (paType p \<notin> set ParameterTypes) (BpRefused ''param type'' [name, paType p]),
           refuse (blank (paHelp p)) (BpRefused ''param help'' [name]),
           refuse (paPattern p \<noteq> [] \<and> compilePattern compile (paPattern p) = None) (BpRefused ''pattern'' [name]),
           refuse (paRequired p \<and> paDefault p \<noteq> []) (BpRefused ''required default'' [name]),
           check_all (check_default b name) (references (paDefault p)),
           check_all (\<lambda>need. refuse (\<not> map_has (bpParameters b) need) (BpRefused ''param needs'' [name, need])) (paNeeds p),
           check_all (\<lambda>step. refuse (\<not> hasStep b step) (BpRefused ''param step'' [name, step])) (paRequiredFor p)])"

definition validateParameters :: "(string \<Rightarrow> (string \<Rightarrow> bool) option) \<Rightarrow> Blueprint \<Rightarrow> bp_error option" where
  "validateParameters compile b = check_all (validateParameter compile b) (bpParameters b)"

subsection \<open>Seams\<close>

definition bp_validateConstraint :: "Blueprint \<Rightarrow> BpConstraint \<Rightarrow> string list \<Rightarrow> bp_error option" where
  "bp_validateConstraint b c fs =
     (let setOp = (bcOp c = ''in'' \<or> bcOp c = ''not_in'') in
      first_refusal
        [refuse (\<not> policyFieldRE (bcField c)) (BpRefused ''constraint field'' [bcField c]),
         refuse (bcField c \<notin> set fs) (BpRefused ''constraint undeclared'' [bcField c, bcOp c]),
         refuse (bcOp c \<notin> set ConstraintOps) (BpRefused ''constraint op'' [bcOp c]),
         (if setOp \<and> \<not> bcValuesSet c then Some (BpRefused ''needs values'' [])
          else if \<not> setOp \<and> bcValuesSet c then Some (BpRefused ''takes value'' [])
          else refuse (\<not> setOp \<and> bcValue c = []) (BpRefused ''needs value'' [])),
         refuse (bcLiteral c \<noteq> [] \<and> bcLiteral c \<noteq> LiteralString \<and> bcLiteral c \<noteq> LiteralInt) (BpRefused ''literal'' [bcLiteral c]),
         refuse (bcWhen c \<noteq> [] \<and> \<not> map_has (bpParameters b) (bcWhen c)) (BpRefused ''when'' [bcWhen c]),
         check_all (knownReference b) (references (bcValue c)),
         check_all (\<lambda>ref.
           (case cut_dot ref of
              (name, field) \<Rightarrow>
                (case map_get (bpParameters b) name of
                   Some p \<Rightarrow> if field = [] \<and> is_list_type (paType p) then None else knownReference b ref
                 | None \<Rightarrow> knownReference b ref))) (references (bcValues c))])"

definition default_requires :: "Refresh \<Rightarrow> Refresh" where
  "default_requires r = (if rfRequires r = [] then r\<lparr>rfRequires := hd (rfCommand r)\<rparr> else r)"

definition validateRefresh :: "Blueprint \<Rightarrow> Refresh \<Rightarrow> bp_error option" where
  "validateRefresh b r =
     first_refusal
       [refuse (rfCommand r = []) (BpRefused ''refresh command'' []),
        refuse (rfSecret r = [] \<or> rfKey r = []) (BpRefused ''refresh secret'' []),
        refuse (blank (rfWhy r)) (BpRefused ''refresh why'' []),
        check_all (\<lambda>arg. check_all (knownReference b) (references arg)) (rfCommand r)]"

text \<open>The tools a seam allows are checked one by one against those allowed so far.\<close>

fun allow_tools :: "string list gomap \<Rightarrow> string \<Rightarrow> string list \<Rightarrow> string list \<Rightarrow> bp_error + string list" where
  "allow_tools declares seam [] seen = Inr seen"
| "allow_tools declares seam (t # ts) seen =
     (if \<not> map_has declares t then Inl (BpRefused ''allow undeclared'' [seam, t])
      else if t \<in> set seen then Inl (BpRefused ''allowed twice'' [t])
      else allow_tools declares seam ts (t # seen))"

fun bound_tools :: "Blueprint \<Rightarrow> string list gomap \<Rightarrow> string \<Rightarrow> (string \<times> BpConstraint list) list \<Rightarrow> string list \<Rightarrow> bp_error + string list" where
  "bound_tools b declares seam [] seen = Inr seen"
| "bound_tools b declares seam ((t, cs) # ts) seen =
     (case map_get declares t of
        None \<Rightarrow> Inl (BpRefused ''bound undeclared'' [seam, t])
      | Some fs \<Rightarrow>
          if t \<in> set seen then Inl (BpRefused ''bound twice'' [t])
          else if cs = [] then Inl (BpRefused ''empty bound'' [t])
          else case check_all (\<lambda>c. bp_validateConstraint b c fs) cs of
                 Some e \<Rightarrow> Inl e
               | None \<Rightarrow> bound_tools b declares seam ts (t # seen))"

definition validateSeam :: "Blueprint \<Rightarrow> string \<times> Seam \<Rightarrow> string list \<times> string list \<Rightarrow> bp_error + (string list \<times> string list)" where
  "validateSeam b ns seen =
     (case ns of (name, seam) \<Rightarrow>
        (case first_refusal
                [refuse (\<not> upstreamNameRE name) (BpRefused ''seam name'' [name]),
                 refuse (seRequires seam = []) (BpRefused ''no requires'' [name]),
                 check_all (\<lambda>(tool, fs). first_refusal
                     [refuse (\<not> toolNameRE tool) (BpRefused ''tool name'' [name, tool]),
                      check_all (\<lambda>f. refuse (\<not> policyFieldRE f) (BpRefused ''field name'' [name, tool, f])) fs]) (seRequires seam)] of
           Some e \<Rightarrow> Inl e
         | None \<Rightarrow>
             (case allow_tools (seRequires seam) name (seAllow seam) (fst seen) of
                Inl e \<Rightarrow> Inl e
              | Inr allowed \<Rightarrow>
                  (case bound_tools b (seRequires seam) name (seBound seam) (snd seen) of
                     Inl e \<Rightarrow> Inl e
                   | Inr bound \<Rightarrow>
                       (case (case seRefresh seam of None \<Rightarrow> None | Some r \<Rightarrow> validateRefresh b r) of
                          Some e \<Rightarrow> Inl e
                        | None \<Rightarrow> Inr (allowed, bound))))))"

definition validateSeams :: "Blueprint \<Rightarrow> bp_error option" where
  "validateSeams b = (case foldM (validateSeam b) (bpSeams b) ([], []) of Inl e \<Rightarrow> Some e | Inr _ \<Rightarrow> None)"

subsection \<open>Steps\<close>

definition validateExec :: "Exec \<Rightarrow> bp_error option" where
  "validateExec e =
     first_refusal
       [refuse (exCommand e = [] \<and> exScript e = []) (BpRefused ''exec neither'' []),
        refuse (exCommand e \<noteq> [] \<and> exScript e \<noteq> []) (BpRefused ''exec both'' []),
        refuse (exScript e \<noteq> [] \<and> \<not> scriptNameRE (exScript e)) (BpRefused ''script'' [exScript e]),
        check_all (\<lambda>(k, v). refuse (\<not> envNameRE k) (BpRefused ''env'' [k])) (exEnv e)]"

definition validateCall :: "Blueprint \<Rightarrow> Step \<Rightarrow> Call \<Rightarrow> bp_error option" where
  "validateCall b s c =
     (case map_get (bpSeams b) (caUpstream c) of
        None \<Rightarrow> Some (BpRefused ''upstream'' [caUpstream c])
      | Some seam \<Rightarrow>
          first_refusal
            [refuse (\<not> map_has (seRequires seam) (caTool c)) (BpRefused ''tool'' [caTool c]),
             check_all (\<lambda>(arg, v). refuse (\<not> policyFieldRE arg) (BpRefused ''arg name'' [arg])) (caArgs c),
             check_all (\<lambda>(arg, kind). first_refusal
                 [refuse (\<not> map_has (caArgs c) arg) (BpRefused ''types arg'' [arg]), refuse (kind \<notin> set ArgTypes) (BpRefused ''types kind'' [arg])]) (caTypes c),
             refuse (stExec s \<noteq> None \<and> caUngoverned c = []) (BpRefused ''needs ungoverned'' []),
             refuse (caUngoverned c \<noteq> [] \<and> stExec s = None) (BpRefused ''ungoverned no exec'' [])])"

definition validateStepShape :: "Blueprint \<Rightarrow> Step \<Rightarrow> bp_error option" where
  "validateStepShape b s =
     first_refusal
       [(if stKind s = KindConsequential then refuse (stCall s = None) (BpRefused ''needs call'' [])
         else if stKind s = KindBounded then first_refusal [refuse (stCall s = None) (BpRefused ''needs call'' []), refuse (stExec s \<noteq> None) (BpRefused ''bounded exec'' [])]
         else first_refusal [refuse (stCall s \<noteq> None) (BpRefused ''call not allowed'' []), refuse (stExec s \<noteq> None) (BpRefused ''exec not allowed'' [])]),
        refuse (stKind s \<noteq> KindPropose \<and> stCapture s \<noteq> []) (BpRefused ''capture'' []),
        (if stKind s = KindPoll then
           (case stPoll s of
              None \<Rightarrow> Some (BpRefused ''needs poll'' [])
            | Some p \<Rightarrow> first_refusal [refuse (psTimeout p \<le> 0 \<or> psInterval p \<le> 0) (BpRefused ''poll bounds'' []),
                refuse (psDoneMarker p = [] \<or> psFailedMarker p = []) (BpRefused ''poll markers'' [])])
         else refuse (stPoll s \<noteq> None) (BpRefused ''poll not allowed'' [])),
        refuse (blank (stPrompt s) \<and> stExec s = None) (BpRefused ''nothing'' []),
        refuse (stWhen s \<noteq> [] \<and> \<not> map_has (bpParameters b) (stWhen s)) (BpRefused ''when'' [stWhen s]),
        (if stForEach s = [] then None
         else case map_get (bpParameters b) (stForEach s) of
                None \<Rightarrow> Some (BpRefused ''for each'' [stForEach s])
              | Some p \<Rightarrow> refuse (\<not> is_list_type (paType p)) (BpRefused ''for each type'' [stForEach s])),
        (case stExec s of None \<Rightarrow> None | Some e \<Rightarrow> validateExec e),
        (case stCall s of None \<Rightarrow> None | Some c \<Rightarrow> validateCall b s c)]"

text \<open>A call's argument reads parameters and literals only.\<close>

definition check_arg_ref :: "Blueprint \<Rightarrow> bool \<Rightarrow> string \<Rightarrow> string \<Rightarrow> bp_error option" where
  "check_arg_ref b hasItem arg ref =
     first_refusal
       [(if ref \<noteq> itemRef \<and> \<not> has_prefix ref capturePrefix then
           (case map_get (bpParameters b) (fst (cut_dot ref)) of
              None \<Rightarrow> None
            | Some p \<Rightarrow> refuse (is_list_type (paType p)) (BpRefused ''list arg'' [arg]))
         else None),
        refuse (has_prefix ref capturePrefix) (BpRefused ''capture arg'' [arg, ref]),
        knownReferenceWithItem b ref hasItem]"

definition check_prose_ref :: "Blueprint \<Rightarrow> bool \<Rightarrow> string list \<Rightarrow> string \<Rightarrow> bp_error option" where
  "check_prose_ref b hasItem captured ref =
     (if has_prefix ref capturePrefix then
        refuse (trim_suffix (trim_prefix ref capturePrefix) fileSuffix \<notin> set captured) (BpRefused ''not captured'' [ref])
      else knownReferenceWithItem b ref hasItem)"

definition step_prose :: "Step \<Rightarrow> string list" where
  "step_prose s =
     stPrompt s # (case stPoll s of None \<Rightarrow> [] | Some p \<Rightarrow> [psOnFailure p]) @
     (case stExec s of None \<Rightarrow> [] | Some e \<Rightarrow> exCommand e @ exArgs e @ exPreview e @ map snd (exEnv e))"

definition validateStepReferences :: "Blueprint \<Rightarrow> Step \<Rightarrow> string list \<Rightarrow> bp_error option" where
  "validateStepReferences b s captured =
     (let hasItem = (stForEach s \<noteq> []) in
      first_refusal
        [(case stCall s of
            None \<Rightarrow> None
          | Some c \<Rightarrow> check_all (\<lambda>(arg, text). check_all (check_arg_ref b hasItem arg) (references text)) (caArgs c)),
         check_all (\<lambda>text. check_all (check_prose_ref b hasItem captured) (references text)) (step_prose s)])"

definition validateStep :: "Blueprint \<Rightarrow> Step \<Rightarrow> string list \<times> string list \<Rightarrow> bp_error + (string list \<times> string list)" where
  "validateStep b s state =
     (case state of (seen, captured) \<Rightarrow>
        (case first_refusal
                [refuse (\<not> dnsLabelRE (stName s)) (BpRefused ''step name'' [stName s]),
                 refuse (stName s \<in> set seen) (BpRefused ''step twice'' [stName s]),
                 refuse (stKind s \<notin> set StepKinds) (BpRefused ''step kind'' [stKind s]),
                 validateStepShape b s,
                 validateStepReferences b s captured] of
           Some e \<Rightarrow> Inl e
         | None \<Rightarrow> Inr (stName s # seen, (if stCapture s \<noteq> [] then stCapture s # captured else captured))))"

text \<open>The posture of a step against one seam, then against all.\<close>

definition check_posture :: "Step \<Rightarrow> Call \<Rightarrow> string \<times> Seam \<Rightarrow> bp_error option" where
  "check_posture s c ns =
     (case ns of (name, seam) \<Rightarrow>
        (let allowed = caTool c \<in> set (seAllow seam); isBound = map_has (seBound seam) (caTool c) in
         if stKind s = KindConsequential then
           first_refusal [refuse allowed (BpRefused ''allowlisted'' [stName s, name]), refuse isBound (BpRefused ''standing bound'' [stName s, name])]
         else if stKind s = KindBounded then refuse allowed (BpRefused ''bounded allowlisted'' [stName s, name])
         else None))"

definition step_posture :: "Blueprint \<Rightarrow> Step \<Rightarrow> bp_error option" where
  "step_posture b s =
     (case stCall s of
        None \<Rightarrow> None
      | Some c \<Rightarrow>
          first_refusal
            [check_all (check_posture s c) (bpSeams b),
             refuse (stKind s = KindBounded \<and> \<not> list_ex (\<lambda>(n, seam). map_has (seBound seam) (caTool c)) (bpSeams b))
               (BpRefused ''bounded no bound'' [stName s])])"

definition validatePostures :: "Blueprint \<Rightarrow> bp_error option" where
  "validatePostures b = check_all (step_posture b) (bpSteps b)"

definition validateSteps :: "Blueprint \<Rightarrow> bp_error option" where
  "validateSteps b =
     (case foldM (validateStep b) (bpSteps b) ([], []) of Inl e \<Rightarrow> Some e | Inr _ \<Rightarrow> validatePostures b)"

subsection \<open>The document\<close>

definition validate :: "(string \<Rightarrow> (string \<Rightarrow> bool) option) \<Rightarrow> Blueprint \<Rightarrow> bp_error option" where
  "validate compile b =
     first_refusal
       [refuse (bpVersion b \<noteq> bp_Version) (BpRefused ''version'' []),
        refuse (\<not> dnsLabelRE (bpName b)) (BpRefused ''label'' [''name'', bpName b]),
        refuse (\<not> dnsLabelRE (bpCredential b)) (BpRefused ''label'' [''credential'', bpCredential b]),
        refuse (\<not> dnsLabelRE (bpAgent b)) (BpRefused ''label'' [''agent'', bpAgent b]),
        refuse (blank (bpSummary b)) (BpRefused ''no summary'' []),
        refuse (bpSeams b = []) (BpRefused ''no seams'' []),
        refuse (bpSteps b = []) (BpRefused ''no steps'' []),
        validateParameters compile b,
        validateSeams b,
        validateSteps b]"

definition fill_requires :: "Blueprint \<Rightarrow> Blueprint" where
  "fill_requires b = b\<lparr>bpSeams := map (\<lambda>(n, s). (n, s\<lparr>seRefresh := map_option default_requires (seRefresh s)\<rparr>)) (bpSeams b)\<rparr>"

definition bp_Parse :: "(string \<Rightarrow> Blueprint option) \<Rightarrow> (string \<Rightarrow> (string \<Rightarrow> bool) option) \<Rightarrow> string \<Rightarrow> bp_error + Blueprint" where
  "bp_Parse decode compile raw =
     (case refuseCredentialMaterial raw of
        Some m \<Rightarrow> Inl (BpMaterial m)
      | None \<Rightarrow>
          (case decode raw of
             None \<Rightarrow> Inl BpYaml
           | Some b \<Rightarrow> (case validate compile b of Some e \<Rightarrow> Inl e | None \<Rightarrow> Inr (fill_requires b))))"

subsection \<open>Bundles\<close>

text \<open>
  \<^verbatim>\<open>load.go\<close>: a blueprint with the scripts beside it. The files the binary carries and the directory
  of a file are functions from a name to a text.
\<close>

record Bundle =
  buBlueprint :: Blueprint
  buSource :: string
  buScripts :: "string \<Rightarrow> string option"

definition step_script :: "Step \<Rightarrow> string option" where
  "step_script s = (case stExec s of None \<Rightarrow> None | Some e \<Rightarrow> if exScript e = [] then None else Some (exScript e))"

definition Scripts :: "Blueprint \<Rightarrow> string list" where
  "Scripts b = sorted_list_of_set (set (List.map_filter step_script (bpSteps b)))"

definition bundle_Script :: "Bundle \<Rightarrow> string \<Rightarrow> string option" where
  "bundle_Script bu name = (if \<not> scriptNameRE name then None else buScripts bu name)"

datatype bundle_error =
    LbNoName
  | LbBothNames
  | LbNotAName string
  | LbNotCarried string
  | LbRead
  | LbParse bp_error
  | LbNameDiffers string
  | LbNoScript string

definition checkScripts :: "Bundle \<Rightarrow> bundle_error option" where
  "checkScripts bu = check_all (\<lambda>n. if bundle_Script bu n = None then Some (LbNoScript n) else None) (Scripts (buBlueprint bu))"

definition checked_bundle :: "Bundle \<Rightarrow> bundle_error + Bundle" where
  "checked_bundle bu = (case checkScripts bu of None \<Rightarrow> Inr bu | Some e \<Rightarrow> Inl e)"

type_synonym bp_parser = "string \<Rightarrow> bp_error + Blueprint"

definition Load :: "bp_parser \<Rightarrow> (string \<Rightarrow> string option) \<Rightarrow> string \<Rightarrow> bundle_error + Bundle" where
  "Load parse carried name =
     (if \<not> dnsLabelRE name then Inl (LbNotAName name)
      else case carried (''blueprints/'' @ name @ ''.yaml'') of
             None \<Rightarrow> Inl (LbNotCarried name)
           | Some raw \<Rightarrow>
               (case parse raw of
                  Inl e \<Rightarrow> Inl (LbParse e)
                | Inr b \<Rightarrow>
                    if bpName b \<noteq> name then Inl (LbNameDiffers (bpName b))
                    else checked_bundle \<lparr>buBlueprint = b, buSource = ''carried by kmx (blueprints/'' @ name @ ''.yaml)'',
                           buScripts = (\<lambda>script. carried (''scripts/'' @ script))\<rparr>))"

definition LoadFile :: "bp_parser \<Rightarrow> (string \<Rightarrow> string option) \<Rightarrow> (string \<Rightarrow> string option) \<Rightarrow> string \<Rightarrow> bundle_error + Bundle" where
  "LoadFile parse files beside path =
     (case files path of
        None \<Rightarrow> Inl LbRead
      | Some raw \<Rightarrow>
          (case parse raw of
             Inl e \<Rightarrow> Inl (LbParse e)
           | Inr b \<Rightarrow> checked_bundle \<lparr>buBlueprint = b, buSource = path, buScripts = beside\<rparr>))"

definition loadBlueprint ::
  "bp_parser \<Rightarrow> (string \<Rightarrow> string option) \<Rightarrow> (string \<Rightarrow> string option) \<Rightarrow> (string \<Rightarrow> string option) \<Rightarrow> string \<Rightarrow> string \<Rightarrow>
    bundle_error + Bundle" where
  "loadBlueprint parse carried files beside name file =
     (if file \<noteq> [] then (if name \<noteq> [] then Inl LbBothNames else LoadFile parse files beside file)
      else if name = [] then Inl LbNoName
      else Load parse carried name)"

end
