(* ===== verification/BlueprintBind.thy ===== *)
theory BlueprintBind
  imports BlueprintCheck
begin

text \<open>
  Component \<^verbatim>\<open>internal/kmx/blueprint/params.go\<close>: the operator's values, checked against their
  declarations, and the replacement of references by them. The problems of a binding are listed
  as they are found; the code sorts their messages.
\<close>

subsection \<open>BpValues\<close>

record BpValues =
  vaScalars :: "string gomap"
  vaInts :: "int list gomap"
  vaStrs :: "string list gomap"
  vaSupplied :: "string list"

definition no_values :: BpValues where
  "no_values = \<lparr>vaScalars = [], vaInts = [], vaStrs = [], vaSupplied = []\<rparr>"

definition Supplied :: "BpValues \<Rightarrow> string \<Rightarrow> bool" where "Supplied v name \<longleftrightarrow> name \<in> set (vaSupplied v)"

text \<open>\<open>BpValues.Items\<close>: \<open>None\<close> for a name that is no bound list.\<close>

definition Items :: "BpValues \<Rightarrow> string \<Rightarrow> string list option" where
  "Items v name =
     (case map_get (vaStrs v) name of
        Some s \<Rightarrow> Some s
      | None \<Rightarrow> map_option (map format_int) (map_get (vaInts v) name))"

subsection \<open>Replacing references\<close>

text \<open>What a reference reads: \<open>None\<close> is unresolved. A capture is left for the driver.\<close>

definition resolve :: "BpValues \<Rightarrow> string \<Rightarrow> bool \<Rightarrow> string \<Rightarrow> string option" where
  "resolve v item loose ref =
     (if ref = itemRef then (if item = [] then (if loose then Some [] else None) else Some item)
      else if has_prefix ref capturePrefix then Some (''${'' @ ref @ ''}'')
      else case map_get (vaScalars v) ref of
             Some x \<Rightarrow> Some x
           | None \<Rightarrow>
               (case Items v ref of
                  Some xs \<Rightarrow> Some (join '','' xs)
                | None \<Rightarrow> if loose then Some [] else None))"

fun expand_segments :: "BpValues \<Rightarrow> string \<Rightarrow> bool \<Rightarrow> segment list \<Rightarrow> string list + string" where
  "expand_segments v item loose [] = Inr []"
| "expand_segments v item loose (Lit c # s) =
     (case expand_segments v item loose s of Inl m \<Rightarrow> Inl m | Inr t \<Rightarrow> Inr (c # t))"
| "expand_segments v item loose (Ref r # s) =
     (case (resolve v item loose r, expand_segments v item loose s) of
        (None, Inl m) \<Rightarrow> Inl (r # m)
      | (None, Inr t) \<Rightarrow> Inl [r]
      | (Some x, Inl m) \<Rightarrow> Inl m
      | (Some x, Inr t) \<Rightarrow> Inr (x @ t))"

definition expand :: "BpValues \<Rightarrow> string \<Rightarrow> string \<Rightarrow> bool \<Rightarrow> string list + string" where
  "expand v s item loose = (case expand_segments v item loose (segments s) of Inl m \<Rightarrow> Inl (sort m) | Inr t \<Rightarrow> Inr t)"

definition substitute :: "BpValues \<Rightarrow> string \<Rightarrow> string \<Rightarrow> string list + string" where
  "substitute v s item = expand v s item False"

definition substituteEnv :: "BpValues \<Rightarrow> string \<Rightarrow> string \<Rightarrow> string list + string" where
  "substituteEnv v s item = expand v s item True"

subsection \<open>Binding\<close>

datatype problem =
    NotAParameter string
  | Missing string
  | MissingFor string string
  | BadPattern string
  | NoMatch string
  | NotARepo string
  | NamedNothing string
  | NotAnInt string string
  | AlsoNeeds string string

definition missing :: "string \<Rightarrow> Parameter \<Rightarrow> string list \<Rightarrow> problem list" where
  "missing name p running =
     (if paRequired p then [Missing name]
      else case List.find (\<lambda>s. s \<in> set running) (paRequiredFor p) of None \<Rightarrow> [] | Some s \<Rightarrow> [MissingFor name s])"

text \<open>\<open>strings.Split(raw, ",")\<close>, each part trimmed and the empty ones dropped.\<close>

fun split_comma :: "string \<Rightarrow> string list" where
  "split_comma [] = [[]]"
| "split_comma (c # s) =
     (if c = CHR '','' then [] # split_comma s
      else (case split_comma s of [] \<Rightarrow> [[c]] | p # ps \<Rightarrow> (c # p) # ps))"

definition list_parts :: "string \<Rightarrow> string list" where
  "list_parts raw = filter (\<lambda>p. p \<noteq> []) (map trim_space (split_comma raw))"

fun parse_ints :: "string \<Rightarrow> string list \<Rightarrow> problem + int list" where
  "parse_ints name [] = Inr []"
| "parse_ints name (p # ps) =
     (case parse_int p of
        None \<Rightarrow> Inl (NotAnInt name p)
      | Some n \<Rightarrow> (case parse_ints name ps of Inl e \<Rightarrow> Inl e | Inr ns \<Rightarrow> Inr (n # ns)))"

definition bind_value :: "string \<Rightarrow> Parameter \<Rightarrow> string \<Rightarrow> BpValues \<Rightarrow> problem + BpValues" where
  "bind_value name p raw v =
     (if paType p = TypeString then Inr (v\<lparr>vaScalars := map_set name raw (vaScalars v)\<rparr>)
      else if paType p = TypeGitHubRepo then
        (case cut_at CHR ''/'' raw of
           (owner, repo, ok) \<Rightarrow>
             if \<not> ok \<or> owner = [] \<or> repo = [] \<or> CHR ''/'' \<in> set repo then Inl (NotARepo name)
             else Inr (v\<lparr>vaScalars := map_set (name @ ''.name'') repo (map_set (name @ ''.owner'') owner (vaScalars v))\<rparr>))
      else if paType p = TypeStringList then
        (let out = list_parts raw in
         if out = [] then Inl (NamedNothing name) else Inr (v\<lparr>vaStrs := map_set name out (vaStrs v)\<rparr>))
      else if paType p = TypeIntList then
        (case parse_ints name (list_parts raw) of
           Inl e \<Rightarrow> Inl e
         | Inr [] \<Rightarrow> Inl (NamedNothing name)
         | Inr ns \<Rightarrow> Inr (v\<lparr>vaInts := map_set name ns (vaInts v)\<rparr>))
      else Inr v)"

definition bindOne :: "(string \<Rightarrow> (string \<Rightarrow> bool) option) \<Rightarrow> string \<Rightarrow> Parameter \<Rightarrow> string \<Rightarrow> BpValues \<Rightarrow> problem + BpValues" where
  "bindOne compile name p raw v =
     (if paPattern p = [] then bind_value name p raw v
      else case compilePattern compile (paPattern p) of
             None \<Rightarrow> Inl (BadPattern name)
           | Some re \<Rightarrow> if \<not> re raw then Inl (NoMatch name) else bind_value name p raw v)"

definition bind_raw ::
  "(string \<Rightarrow> (string \<Rightarrow> bool) option) \<Rightarrow> string \<Rightarrow> Parameter \<Rightarrow> string \<Rightarrow> BpValues \<times> problem list \<Rightarrow> BpValues \<times> problem list" where
  "bind_raw compile name p raw state =
     (case state of (v, problems) \<Rightarrow>
        (let v1 = v\<lparr>vaSupplied := name # vaSupplied v\<rparr> in
         case bindOne compile name p raw v1 of Inl e \<Rightarrow> (v1, problems @ [e]) | Inr v2 \<Rightarrow> (v2, problems)))"

text \<open>The pass over the literal values: a computed default is put off to the next.\<close>

definition raw_of :: "string gomap \<Rightarrow> string \<Rightarrow> string" where
  "raw_of vals name = trim_space (case map_get vals name of None \<Rightarrow> [] | Some x \<Rightarrow> x)"

definition is_deferred :: "string gomap \<Rightarrow> string \<times> Parameter \<Rightarrow> bool" where
  "is_deferred vals np \<longleftrightarrow> raw_of vals (fst np) = [] \<and> paDefault (snd np) \<noteq> [] \<and> references (paDefault (snd np)) \<noteq> []"

definition bind_literal ::
  "(string \<Rightarrow> (string \<Rightarrow> bool) option) \<Rightarrow> string gomap \<Rightarrow> string list \<Rightarrow> string \<times> Parameter \<Rightarrow> BpValues \<times> problem list \<Rightarrow> BpValues \<times> problem list" where
  "bind_literal compile vals running np state =
     (case np of (name, p) \<Rightarrow>
        if is_deferred vals np then state
        else
          (let raw = (if raw_of vals name = [] then paDefault p else raw_of vals name) in
           if raw = [] then (fst state, snd state @ missing name p running)
           else bind_raw compile name p raw state))"

definition bind_deferred ::
  "(string \<Rightarrow> (string \<Rightarrow> bool) option) \<Rightarrow> string list \<Rightarrow> string \<times> Parameter \<Rightarrow> BpValues \<times> problem list \<Rightarrow> BpValues \<times> problem list" where
  "bind_deferred compile running np state =
     (case np of (name, p) \<Rightarrow>
        (case substitute (fst state) (paDefault p) [] of
           Inl m \<Rightarrow> (fst state, snd state @ missing name p running)
         | Inr raw \<Rightarrow> bind_raw compile name p raw state))"

definition unmet_needs :: "BpValues \<Rightarrow> string \<times> Parameter \<Rightarrow> problem list" where
  "unmet_needs v np =
     (case np of (name, p) \<Rightarrow>
        if Supplied v name then map (AlsoNeeds name) (filter (\<lambda>need. \<not> Supplied v need) (paNeeds p)) else [])"

definition bp_Bind :: "(string \<Rightarrow> (string \<Rightarrow> bool) option) \<Rightarrow> Blueprint \<Rightarrow> string gomap \<Rightarrow> string list \<Rightarrow> problem list + BpValues" where
  "bp_Bind compile b vals steps =
     (let unknown = map NotAParameter (filter (\<lambda>n. \<not> map_has (bpParameters b) n) (map fst vals));
          s1 = fold (bind_literal compile vals steps) (bpParameters b) (no_values, unknown);
          s2 = fold (bind_deferred compile steps) (filter (is_deferred vals) (bpParameters b)) s1;
          problems = snd s2 @ concat (map (unmet_needs (fst s2)) (bpParameters b))
      in if problems \<noteq> [] then Inl problems else Inr (fst s2))"

end
