(* ===== verification/BlueprintRender.thy ===== *)
theory BlueprintRender
  imports BlueprintBind Json
begin

text \<open>
  Component \<^verbatim>\<open>internal/kmx/blueprint/render.go\<close>: a blueprint and one operator's values as the
  allowlist, the standing constraints and the steps they become.
\<close>

datatype literal = LString string | LInt int

record RenderedConstraint =
  rcField :: string
  rcOp :: string
  rcValue :: "literal option"
  rcValues :: "literal list"

record RenderedExec =
  reCommand :: "string list"
  reScript :: string
  reArgs :: "string list"
  reEnv :: "string gomap"
  reRequires :: "string list"
  rePreview :: "string list"

record RenderedStep =
  rsName :: string
  rsKind :: string
  rsLabel :: string
  rsPrompt :: string
  rsCapture :: string
  rsUpstream :: string
  rsTool :: string
  rsArgs :: "string gomap"
  rsArgTypes :: "string gomap"
  rsPolicyFields :: "string list"
  rsUngoverned :: string
  rsExec :: "RenderedExec option"
  rsPoll :: "PollSpec option"
  rsOnFailure :: string
  rsBlocked :: "string option"

record Rendered =
  rdAllowlist :: "string list"
  rdConstraints :: "RenderedConstraint list gomap gomap"
  rdSteps :: "RenderedStep list"

datatype render_error =
    ReUnresolved "string list"
  | ReNotInt string
  | ReNoValues string
  | RePartial string
  | ReNoItems string

subsection \<open>Constraints\<close>

fun toAny :: "bool \<Rightarrow> string list \<Rightarrow> render_error + literal list" where
  "toAny asInt [] = Inr []"
| "toAny asInt (s # ss) =
     (case (if asInt then (case parse_int s of None \<Rightarrow> Inl (ReNotInt s) | Some n \<Rightarrow> Inr (LInt n)) else Inr (LString s)) of
        Inl e \<Rightarrow> Inl e
      | Inr x \<Rightarrow> (case toAny asInt ss of Inl e \<Rightarrow> Inl e | Inr xs \<Rightarrow> Inr (x # xs)))"

definition literal_parts :: "BpValues \<Rightarrow> BpConstraint \<Rightarrow> string \<Rightarrow> render_error + literal list" where
  "literal_parts v c expr =
     (case substitute v expr [] of
        Inl m \<Rightarrow> Inl (ReUnresolved m)
      | Inr s \<Rightarrow>
          (let parts = list_parts s in
           if parts = [] then Inl (ReNoValues (bcValues c)) else toAny (bcLiteral c = LiteralInt) parts))"

definition literalList :: "BpValues \<Rightarrow> BpConstraint \<Rightarrow> render_error + literal list" where
  "literalList v c =
     (let expr = trim_space (bcValues c) in
      case references expr of
        [ref] \<Rightarrow>
          if expr = ''${'' @ ref @ ''}'' then
            (case (map_get (vaInts v) ref, bcLiteral c \<noteq> LiteralString, map_get (vaStrs v) ref) of
               (Some ns, True, _) \<Rightarrow> Inr (map LInt ns)
             | (_, _, Some ss) \<Rightarrow> toAny (bcLiteral c = LiteralInt) ss
             | _ \<Rightarrow> literal_parts v c expr)
          else literal_parts v c expr
      | _ \<Rightarrow> literal_parts v c expr)"

definition as_int :: "BpConstraint \<Rightarrow> bool" where
  "as_int c \<longleftrightarrow> bcLiteral c \<noteq> LiteralString \<and> (bp_numericOps (bcOp c) \<or> bcLiteral c = LiteralInt)"

definition render_constraint :: "BpValues \<Rightarrow> BpConstraint \<Rightarrow> render_error + RenderedConstraint" where
  "render_constraint v c =
     (let rc = \<lparr>rcField = bcField c, rcOp = bcOp c, rcValue = None, rcValues = []\<rparr> in
      if bcOp c = ''in'' \<or> bcOp c = ''not_in'' then
        (case literalList v c of Inl e \<Rightarrow> Inl e | Inr vs \<Rightarrow> Inr (rc\<lparr>rcValues := vs\<rparr>))
      else
        (case substitute v (bcValue c) [] of
           Inl m \<Rightarrow> Inl (ReUnresolved m)
         | Inr s \<Rightarrow>
             if as_int c then (case parse_int s of None \<Rightarrow> Inl (ReNotInt s) | Some n \<Rightarrow> Inr (rc\<lparr>rcValue := Some (LInt n)\<rparr>))
             else Inr (rc\<lparr>rcValue := Some (LString s)\<rparr>)))"

definition applies :: "BpValues \<Rightarrow> BpConstraint \<Rightarrow> bool" where
  "applies v c \<longleftrightarrow> bcWhen c = [] \<or> Supplied v (bcWhen c)"

fun render_list :: "('a \<Rightarrow> 'e + 'b) \<Rightarrow> 'a list \<Rightarrow> 'e + 'b list" where
  "render_list f [] = Inr []"
| "render_list f (x # xs) =
     (case f x of Inl e \<Rightarrow> Inl e | Inr y \<Rightarrow> (case render_list f xs of Inl e \<Rightarrow> Inl e | Inr ys \<Rightarrow> Inr (y # ys)))"

definition renderConstraints :: "BpValues \<Rightarrow> string \<Rightarrow> BpConstraint list \<Rightarrow> render_error + RenderedConstraint list" where
  "renderConstraints v tool cs =
     (case render_list (render_constraint v) (filter (applies v) cs) of
        Inl e \<Rightarrow> Inl e
      | Inr out \<Rightarrow> if out \<noteq> [] \<and> length out \<noteq> length cs then Inl (RePartial tool) else Inr out)"

definition render_bound :: "BpValues \<Rightarrow> string \<times> BpConstraint list \<Rightarrow> RenderedConstraint list gomap \<Rightarrow> render_error + RenderedConstraint list gomap" where
  "render_bound v tc tools =
     (case tc of (tool, cs) \<Rightarrow>
        (case renderConstraints v tool cs of
           Inl e \<Rightarrow> Inl e
         | Inr out \<Rightarrow> Inr (if out \<noteq> [] then map_set tool out tools else tools)))"

definition render_seams :: "BpValues \<Rightarrow> Seam gomap \<Rightarrow> render_error + RenderedConstraint list gomap" where
  "render_seams v seams = foldM (\<lambda>(n, seam). foldM (render_bound v) (seBound seam)) seams []"

definition seam_tools :: "Seam gomap \<Rightarrow> string list" where
  "seam_tools seams = sorted_list_of_set (set (concat (map (\<lambda>(n, s). seAllow s) seams)))"

subsection \<open>Steps\<close>

definition sub_list :: "BpValues \<Rightarrow> string \<Rightarrow> string list \<Rightarrow> render_error + string list" where
  "sub_list v item = render_list (\<lambda>s. case substitute v s item of Inl m \<Rightarrow> Inl (ReUnresolved m) | Inr t \<Rightarrow> Inr t)"

definition sub_map :: "(string \<Rightarrow> string list + string) \<Rightarrow> string gomap \<Rightarrow> render_error + string gomap" where
  "sub_map sub = render_list (\<lambda>(k, s). case sub s of Inl m \<Rightarrow> Inl (ReUnresolved m) | Inr t \<Rightarrow> Inr (k, t))"

definition sub_text :: "BpValues \<Rightarrow> string \<Rightarrow> string \<Rightarrow> render_error + string" where
  "sub_text v item s = (case substitute v s item of Inl m \<Rightarrow> Inl (ReUnresolved m) | Inr t \<Rightarrow> Inr t)"

definition render_exec :: "BpValues \<Rightarrow> string \<Rightarrow> Exec \<Rightarrow> render_error + RenderedExec" where
  "render_exec v item e =
     and_then (sub_list v item (exCommand e)) (\<lambda>cmd.
     and_then (sub_list v item (exArgs e)) (\<lambda>args.
     and_then (sub_list v item (exPreview e)) (\<lambda>pre.
     and_then (sub_map (\<lambda>s. substituteEnv v s item) (exEnv e)) (\<lambda>env.
       Inr \<lparr>reCommand = cmd, reScript = exScript e, reArgs = args, reEnv = env, reRequires = exRequires e, rePreview = pre\<rparr>))))"

definition policy_fields :: "Seam gomap \<Rightarrow> string list gomap option \<Rightarrow> Call \<Rightarrow> string list" where
  "policy_fields seams declared c =
     (case (case declared of None \<Rightarrow> None | Some d \<Rightarrow> map_get d (caTool c)) of
        Some fs \<Rightarrow> fs
      | None \<Rightarrow>
          (case map_get seams (caUpstream c) of
             None \<Rightarrow> []
           | Some seam \<Rightarrow> (case map_get (seRequires seam) (caTool c) of None \<Rightarrow> [] | Some fs \<Rightarrow> fs)))"

definition render_call :: "Seam gomap \<Rightarrow> string list gomap option \<Rightarrow> BpValues \<Rightarrow> string \<Rightarrow> Call \<Rightarrow> RenderedStep \<Rightarrow> render_error + RenderedStep" where
  "render_call seams declared v item c rs =
     (case sub_map (\<lambda>s. substitute v s item) (caArgs c) of
        Inl e \<Rightarrow> Inl e
      | Inr args \<Rightarrow>
          Inr (rs\<lparr>rsUpstream := caUpstream c, rsTool := caTool c, rsUngoverned := caUngoverned c, rsArgs := args,
            rsArgTypes := caTypes c, rsPolicyFields := policy_fields seams declared c\<rparr>))"

definition render_item :: "Seam gomap \<Rightarrow> string list gomap option \<Rightarrow> BpValues \<Rightarrow> Step \<Rightarrow> string \<Rightarrow> render_error + RenderedStep" where
  "render_item seams declared v s item =
     and_then (sub_text v item (stPrompt s)) (\<lambda>prompt.
     and_then (case stPoll s of None \<Rightarrow> Inr [] | Some p \<Rightarrow> sub_text v item (psOnFailure p)) (\<lambda>onf.
     and_then (case stExec s of None \<Rightarrow> Inr None | Some e \<Rightarrow> and_then (render_exec v item e) (\<lambda>x. Inr (Some x))) (\<lambda>ex.
       (let rs = \<lparr>rsName = stName s, rsKind = stKind s,
              rsLabel = (if item = [] then stName s else stName s @ ''['' @ item @ '']''), rsPrompt = prompt,
              rsCapture = stCapture s, rsUpstream = [], rsTool = [], rsArgs = [], rsArgTypes = [], rsPolicyFields = [],
              rsUngoverned = [], rsExec = ex, rsPoll = stPoll s, rsOnFailure = onf, rsBlocked = None\<rparr> in
        case stCall s of None \<Rightarrow> Inr rs | Some c \<Rightarrow> render_call seams declared v item c rs))))"

definition step_items :: "BpValues \<Rightarrow> Step \<Rightarrow> render_error + string list" where
  "step_items v s =
     (if stForEach s = [] then Inr [[]]
      else case Items v (stForEach s) of
             None \<Rightarrow> Inl (ReNoItems (stName s))
           | Some xs \<Rightarrow> if xs = [] then Inl (ReNoItems (stName s)) else Inr xs)"

definition renderStep :: "Seam gomap \<Rightarrow> string list gomap option \<Rightarrow> BpValues \<Rightarrow> Step \<Rightarrow> render_error + RenderedStep list" where
  "renderStep seams declared v s =
     (case step_items v s of Inl e \<Rightarrow> Inl e | Inr items \<Rightarrow> render_list (render_item seams declared v s) items)"

definition blocked_step :: "Step \<Rightarrow> string \<Rightarrow> RenderedStep" where
  "blocked_step s why = \<lparr>rsName = stName s, rsKind = stKind s, rsLabel = stName s, rsPrompt = [], rsCapture = [],
     rsUpstream = [], rsTool = [], rsArgs = [], rsArgTypes = [], rsPolicyFields = [], rsUngoverned = [], rsExec = None,
     rsPoll = None, rsOnFailure = [], rsBlocked = Some why\<rparr>"

definition render_one ::
  "Blueprint \<Rightarrow> BpValues \<Rightarrow> string list gomap option \<Rightarrow> bool \<Rightarrow> Step \<Rightarrow> render_error + RenderedStep list" where
  "render_one b v declared review s =
     (if stWhen s \<noteq> [] \<and> \<not> Supplied v (stWhen s) then
        Inr (if review then [blocked_step s (''not in this run '' @ [CHR 0xE2, CHR 0x80, CHR 0x94] @ '' needs --set '' @ stWhen s)] else [])
      else case renderStep (bpSeams b) declared v s of
             Inl e \<Rightarrow> if review then Inr [blocked_step s ''unresolved''] else Inl e
           | Inr rs \<Rightarrow> Inr rs)"

definition render_blueprint ::
  "Blueprint \<Rightarrow> BpValues \<Rightarrow> string list \<Rightarrow> string list gomap option \<Rightarrow> bool \<Rightarrow> render_error + Rendered" where
  "render_blueprint b v steps declared review =
     (case render_seams v (bpSeams b) of
        Inl e \<Rightarrow> Inl e
      | Inr tools \<Rightarrow>
          (case render_list (render_one b v declared review) (filter (\<lambda>s. stName s \<in> set steps) (bpSteps b)) of
             Inl e \<Rightarrow> Inl e
           | Inr steps' \<Rightarrow>
               Inr \<lparr>rdAllowlist = seam_tools (bpSeams b),
                 rdConstraints = (if tools \<noteq> [] then [(bpCredential b, tools)] else []), rdSteps = concat steps'\<rparr>))"

definition Render :: "Blueprint \<Rightarrow> BpValues \<Rightarrow> string list \<Rightarrow> string list gomap option \<Rightarrow> render_error + Rendered" where
  "Render b v steps declared = render_blueprint b v steps declared False"

definition StepNames :: "Blueprint \<Rightarrow> string list" where "StepNames b = map stName (bpSteps b)"

definition RenderForReview :: "Blueprint \<Rightarrow> BpValues \<Rightarrow> string list gomap option \<Rightarrow> render_error + Rendered" where
  "RenderForReview b v declared = render_blueprint b v (StepNames b) declared True"

subsection \<open>What a step asks for\<close>

text \<open>\<open>ArgsJSON\<close>, before its encoding: the object of the call.\<close>

definition arg_value :: "string option \<Rightarrow> string \<Rightarrow> string + json" where
  "arg_value ty s =
     (if ty = Some ArgInt then (case parse_int s of None \<Rightarrow> Inl s | Some n \<Rightarrow> Inr (JNum (format_int n)))
      else if ty = Some ArgBool then
        (if s = ''true'' then Inr (JBool True) else if s = ''false'' then Inr (JBool False) else Inl s)
      else Inr (JStr s))"

definition ArgsJSON :: "RenderedStep \<Rightarrow> string + json gomap" where
  "ArgsJSON s = render_list (\<lambda>(k, x). case arg_value (map_get (rsArgTypes s) k) x of Inl e \<Rightarrow> Inl e | Inr j \<Rightarrow> Inr (k, j)) (rsArgs s)"

definition Summary :: "RenderedStep \<Rightarrow> string" where
  "Summary s = rsTool s @ '': '' @ join '', ''
     (List.map_filter (\<lambda>f. map_option (\<lambda>x. f @ '' '' @ x) (map_get (rsArgs s) f)) (rsPolicyFields s))"

definition literal_json :: "literal \<Rightarrow> json" where
  "literal_json l = (case l of LString s \<Rightarrow> JStr s | LInt n \<Rightarrow> JNum (format_int n))"

definition constraint_json :: "RenderedConstraint \<Rightarrow> json" where
  "constraint_json c =
     JObj ([(''field'', JStr (rcField c)), (''op'', JStr (rcOp c))] @
       (if rcValues c \<noteq> [] then [(''values'', JArr (map literal_json (rcValues c)))]
        else [(''value'', case rcValue c of None \<Rightarrow> JNull | Some l \<Rightarrow> literal_json l)]))"

definition constraintsJSON :: "RenderedConstraint list gomap gomap \<Rightarrow> json" where
  "constraintsJSON cs = JObj (map (\<lambda>(cred, tools). (cred, JObj (map (\<lambda>(tool, l). (tool, JArr (map constraint_json l))) tools))) cs)"

text \<open>\<open>Fragment\<close>: the overlay fragment, none when there are no constraints.\<close>

definition fragment_doc :: "Rendered \<Rightarrow> json option" where
  "fragment_doc r = (if rdConstraints r = [] then None else Some (JObj [(''standing_constraints'', constraintsJSON (rdConstraints r))]))"

definition FragmentKey :: "Blueprint \<Rightarrow> string" where
  "FragmentKey b = ''workflow-'' @ bpName b @ ''.json''"

end
