(* ===== verification/BlueprintFlow.thy ===== *)
theory BlueprintFlow
  imports BlueprintRender
begin

text \<open>
  Facts about accepted blueprints, bound values and what is rendered from them, shared by the
  properties of \<open>BlueprintProps\<close>.
\<close>

subsection \<open>Accepted documents\<close>

lemma bp_ParseD:
  assumes "bp_Parse decode compile raw = Inr b"
  obtains b0 where "b = fill_requires b0" "validate compile b0 = None"
  using assms by (auto simp: bp_Parse_def split: option.splits)

lemma fill_requires_sel [simp]:
  "bpParameters (fill_requires b) = bpParameters b" "bpSteps (fill_requires b) = bpSteps b"
  "bpCredential (fill_requires b) = bpCredential b" "bpName (fill_requires b) = bpName b"
  by (simp_all add: fill_requires_def)

lemma fill_requires_seam:
  assumes "(n, seam) \<in> set (bpSeams (fill_requires b))"
  obtains seam0 where "(n, seam0) \<in> set (bpSeams b)" "seAllow seam = seAllow seam0" "seBound seam = seBound seam0"
    "seRequires seam = seRequires seam0"
  using assms by (auto simp: fill_requires_def)

lemma validateD:
  assumes "validate compile b = None"
  shows "validateParameters compile b = None" "validateSeams b = None" "validateSteps b = None"
  using assms by (simp_all add: validate_def first_refusal_None)

lemma foldM_each: "foldM f xs s = Inr t \<Longrightarrow> x \<in> set xs \<Longrightarrow> \<exists>s1 s2. f x s1 = Inr s2"
proof (induction xs arbitrary: s)
  case (Cons y xs)
  then obtain u where "f y s = Inr u" "foldM f xs u = Inr t" by auto
  then show ?case using Cons by auto
qed simp

lemma validateStepsD:
  assumes "validateSteps b = None" "s \<in> set (bpSteps b)"
  shows "step_posture b s = None" "validateStepShape b s = None" "\<exists>captured. validateStepReferences b s captured = None"
proof -
  obtain st where f: "foldM (validateStep b) (bpSteps b) ([], []) = Inr st" and p: "validatePostures b = None"
    using assms(1) by (auto simp: validateSteps_def split: sum.splits)
  show "step_posture b s = None" using p assms(2) by (simp add: validatePostures_def check_all_None)
  obtain s1 s2 where "validateStep b s s1 = Inr s2" using foldM_each [OF f assms(2)] by blast
  then have "validateStepShape b s = None \<and> validateStepReferences b s (snd s1) = None"
    by (auto simp: validateStep_def first_refusal_None split: prod.splits option.splits)
  then show "validateStepShape b s = None" "\<exists>captured. validateStepReferences b s captured = None" by blast+
qed

lemma accepted_step:
  assumes "bp_Parse decode compile raw = Inr b" "s \<in> set (bpSteps b)"
  obtains b0 captured where "b = fill_requires b0" "validateStepShape b0 s = None" "validateStepReferences b0 s captured = None"
    "step_posture b0 s = None" "validateParameters compile b0 = None" "validateSeams b0 = None"
proof -
  obtain b0 where b0: "b = fill_requires b0" "validate compile b0 = None" using assms(1) by (rule bp_ParseD)
  have "s \<in> set (bpSteps b0)" using assms(2) b0(1) by simp
  from validateStepsD [OF validateD(3) [OF b0(2)] this] show thesis
    using that [of b0] b0 validateD(1,2) [OF b0(2)] by blast
qed

subsection \<open>Rendering\<close>

lemma render_list_all2: "render_list f xs = Inr ys \<Longrightarrow> list_all2 (\<lambda>x y. f x = Inr y) xs ys"
proof (induction xs arbitrary: ys)
  case (Cons x xs)
  then show ?case by (cases "f x"; cases "render_list f xs") auto
qed simp

lemma render_list_in:
  "render_list f xs = Inr ys \<Longrightarrow> y \<in> set ys \<Longrightarrow> \<exists>x \<in> set xs. f x = Inr y"
proof (induction xs arbitrary: ys)
  case (Cons x xs)
  then show ?case by (cases "f x"; cases "render_list f xs") auto
qed simp

lemma rendered_step:
  assumes "Render b v steps decl = Inr r" "rs \<in> set (rdSteps r)"
  obtains s item where "s \<in> set (bpSteps b)" "render_item (bpSeams b) decl v s item = Inr rs"
    "stForEach s = [] \<longrightarrow> item = []" "stForEach s \<noteq> [] \<longrightarrow> (\<exists>xs. Items v (stForEach s) = Some xs \<and> item \<in> set xs)"
proof -
  obtain l where l: "render_list (render_one b v decl False) (filter (\<lambda>s. stName s \<in> set steps) (bpSteps b)) = Inr l"
    and r: "rdSteps r = concat l"
    using assms(1) by (auto simp: Render_def render_blueprint_def split: sum.splits)
  obtain rss where rss: "rss \<in> set l" "rs \<in> set rss" using assms(2) r by auto
  obtain s where s: "s \<in> set (bpSteps b)" "render_one b v decl False s = Inr rss"
    using render_list_in [OF l rss(1)] by auto
  then obtain items where i: "step_items v s = Inr items" "render_list (render_item (bpSeams b) decl v s) items = Inr rss"
    using rss(2) by (auto simp: render_one_def renderStep_def split: if_splits sum.splits)
  obtain item where it: "item \<in> set items" "render_item (bpSeams b) decl v s item = Inr rs"
    using render_list_in [OF i(2) rss(2)] by blast
  show thesis using that [OF s(1) it(2)] i(1) it(1) by (auto simp: step_items_def split: if_splits option.splits)
qed

lemma render_item_call:
  assumes "render_item seams decl v s item = Inr rs" "stCall s = Some c"
  shows "rsKind rs = stKind s" "rsTool rs = caTool c" "sub_map (\<lambda>t. substitute v t item) (caArgs c) = Inr (rsArgs rs)"
    "rsArgTypes rs = caTypes c" "rsPolicyFields rs = policy_fields seams decl c"
  using assms by (cases "sub_map (\<lambda>t. substitute v t item) (caArgs c)"; auto simp: render_item_def render_call_def Let_def)+

lemma render_item_kind:
  assumes "render_item seams decl v s item = Inr rs"
  shows "rsKind rs = stKind s" "stCall s = None \<Longrightarrow> rsArgs rs = [] \<and> rsTool rs = []"
proof -
  show "rsKind rs = stKind s"
  proof (cases "stCall s")
    case (Some c)
    then show ?thesis using assms render_item_call(1) by blast
  qed (use assms in \<open>auto simp: render_item_def Let_def\<close>)
  show "rsArgs rs = [] \<and> rsTool rs = []" if "stCall s = None" using assms that by (auto simp: render_item_def Let_def)
qed

text \<open>A rendered bound belongs to a tool some seam bounds.\<close>

lemma render_seams_keys:
  assumes "render_seams v seams = Inr tools" "map_has tools t"
  shows "\<exists>(n, seam) \<in> set seams. map_has (seBound seam) t"
proof -
  let ?P = "\<lambda>tools. \<forall>t. map_has tools t \<longrightarrow> (\<exists>(n, seam) \<in> set seams. map_has (seBound seam) t)"
  have "?P tools"
  proof (rule foldM_keeps [OF assms(1) [unfolded render_seams_def]])
    show "?P []" by (simp add: map_has_def)
    fix x m m' assume x: "x \<in> set seams" and m: "?P m" and f: "(case x of (n, seam) \<Rightarrow> foldM (render_bound v) (seBound seam)) m = Inr m'"
    obtain n seam where ns: "x = (n, seam)" by fastforce
    have "foldM (render_bound v) (seBound seam) m = Inr m'" using f ns by simp
    then show "?P m'"
    proof (rule foldM_keeps)
      show "?P m" by (rule m)
      fix y k k' assume y: "y \<in> set (seBound seam)" and k: "?P k" and g: "render_bound v y k = Inr k'"
      obtain tool cs where y2: "y = (tool, cs)" by fastforce
      have "map_has (seBound seam) tool" using y y2 by (force simp: map_has_def)
      moreover have "k' = k \<or> (\<exists>out. k' = map_set tool out k)" using g y2 by (auto simp: render_bound_def split: sum.splits if_splits)
      ultimately show "?P k'"
      proof (elim disjE)
        assume k': "map_has (seBound seam) tool" "\<exists>out. k' = map_set tool out k"
        show ?thesis
        proof (intro allI impI)
          fix t assume "map_has k' t"
          then have "t = tool \<or> map_has k t" using k'(2) by (auto simp: map_has_get split: if_splits)
          then show "\<exists>(n, seam) \<in> set seams. map_has (seBound seam) t" using k k'(1) x ns by blast
        qed
      qed (use k in simp)
    qed
  qed
  then show ?thesis using assms(2) by blast
qed

lemma in_seam_tools: "t \<in> set (seam_tools seams) \<longleftrightarrow> (\<exists>n seam. (n, seam) \<in> set seams \<and> t \<in> set (seAllow seam))"
  unfolding seam_tools_def set_sorted_list_of_set [OF finite_set] by auto

subsection \<open>Bound values\<close>

text \<open>What is in the values belongs to a declared parameter of that type, a list is never empty and its numbers fit.\<close>

definition values_ok :: "Parameter gomap \<Rightarrow> BpValues \<Rightarrow> bool" where
  "values_ok ps v \<longleftrightarrow>
     (\<forall>n xs. map_get (vaStrs v) n = Some xs \<longrightarrow> xs \<noteq> [] \<and> (\<exists>p. (n, p) \<in> set ps \<and> paType p = TypeStringList)) \<and>
     (\<forall>n xs. map_get (vaInts v) n = Some xs \<longrightarrow> xs \<noteq> [] \<and> list_all int64_ok xs \<and>
       (\<exists>p. (n, p) \<in> set ps \<and> paType p = TypeIntList))"

lemma Items_param:
  assumes "values_ok ps v" "Items v n = Some xs"
  shows "\<exists>p. (n, p) \<in> set ps \<and> is_list_type (paType p)"
proof (cases "map_get (vaStrs v) n")
  case None
  then obtain ns where "map_get (vaInts v) n = Some ns" using assms(2) by (auto simp: Items_def)
  then show ?thesis using assms(1) unfolding values_ok_def is_list_type_def by blast
next
  case (Some ss)
  then show ?thesis using assms(1) unfolding values_ok_def is_list_type_def by blast
qed

lemma parse_ints_ok: "parse_ints name ps = Inr ns \<Longrightarrow> list_all int64_ok ns"
proof (induction ps arbitrary: ns)
  case (Cons p ps)
  then show ?case using parse_int_range [of p] by (auto split: option.splits sum.splits)
qed simp

lemma bind_value_lists:
  assumes "bind_value n p raw v = Inr v'"
  shows "vaStrs v' = vaStrs v \<or> (paType p = TypeStringList \<and> (\<exists>xs. xs \<noteq> [] \<and> vaStrs v' = map_set n xs (vaStrs v)))"
    "vaInts v' = vaInts v \<or> (paType p = TypeIntList \<and> (\<exists>xs. xs \<noteq> [] \<and> list_all int64_ok xs \<and> vaInts v' = map_set n xs (vaInts v)))"
proof -
  note b = assms [unfolded bind_value_def]
  show "vaStrs v' = vaStrs v \<or> (paType p = TypeStringList \<and> (\<exists>xs. xs \<noteq> [] \<and> vaStrs v' = map_set n xs (vaStrs v)))"
    using b by (auto simp: Let_def split: if_splits prod.splits sum.splits list.splits)
  show "vaInts v' = vaInts v \<or> (paType p = TypeIntList \<and> (\<exists>xs. xs \<noteq> [] \<and> list_all int64_ok xs \<and> vaInts v' = map_set n xs (vaInts v)))"
  proof (cases "paType p = TypeIntList")
    case True
    then show ?thesis using b parse_ints_ok [of n "list_parts raw"]
      by (cases "parse_ints n (list_parts raw)") (auto simp: type_defs split: list.splits)
  next
    case False
    then show ?thesis using b by (auto simp: Let_def split: if_splits prod.splits)
  qed
qed

lemma bindOne_ok:
  assumes "bindOne compile n p raw v = Inr v'" "values_ok ps v" "(n, p) \<in> set ps"
  shows "values_ok ps v'"
proof -
  have v: "bind_value n p raw v = Inr v'" using assms(1) by (auto simp: bindOne_def split: if_splits option.splits)
  show ?thesis using bind_value_lists [OF v] assms(2,3) unfolding values_ok_def by (elim disjE conjE exE) auto
qed

lemma bind_raw_ok:
  assumes "values_ok ps (fst st)" "(n, p) \<in> set ps"
  shows "values_ok ps (fst (bind_raw compile n p raw st))"
proof -
  have "values_ok ps (fst st\<lparr>vaSupplied := n # vaSupplied (fst st)\<rparr>)" using assms(1) by (simp add: values_ok_def)
  then show ?thesis using bindOne_ok [OF _ _ assms(2)]
    by (auto simp: bind_raw_def Let_def split: prod.splits sum.splits)
qed

lemma fold_ok:
  assumes "\<And>x st. x \<in> set xs \<Longrightarrow> P (fst st) \<Longrightarrow> P (fst (f x st))" "P (fst st)"
  shows "P (fst (fold f xs st))"
  using assms by (induction xs arbitrary: st) auto

lemma bp_Bind_ok:
  assumes "bp_Bind compile b vals steps = Inr v"
  shows "values_ok (bpParameters b) v"
proof -
  let ?ps = "bpParameters b"
  let ?unknown = "map NotAParameter (filter (\<lambda>n. \<not> map_has ?ps n) (map fst vals))"
  let ?s1 = "fold (bind_literal compile vals steps) ?ps (no_values, ?unknown)"
  let ?s2 = "fold (bind_deferred compile steps) (filter (is_deferred vals) ?ps) ?s1"
  have "values_ok ?ps (fst ?s1)"
  proof (rule fold_ok)
    show "values_ok ?ps (fst (no_values, ?unknown))" by (simp add: values_ok_def no_values_def)
    fix x and st :: "BpValues \<times> problem list" assume "x \<in> set ?ps" "values_ok ?ps (fst st)"
    then show "values_ok ?ps (fst (bind_literal compile vals steps x st))"
      using bind_raw_ok [of ?ps st] by (auto simp: bind_literal_def Let_def split: prod.splits)
  qed
  then have "values_ok ?ps (fst ?s2)"
  proof (rule fold_ok [rotated])
    fix x and st :: "BpValues \<times> problem list" assume "x \<in> set (filter (is_deferred vals) ?ps)" "values_ok ?ps (fst st)"
    then show "values_ok ?ps (fst (bind_deferred compile steps x st))"
      using bind_raw_ok [of ?ps st] by (auto simp: bind_deferred_def split: prod.splits sum.splits)
  qed
  then show ?thesis using assms by (auto simp: bp_Bind_def Let_def split: if_splits)
qed

end
