(* ===== verification/BlueprintEval.thy ===== *)
theory BlueprintEval
  imports BlueprintFlow
begin

text \<open>A small blueprint, accepted, bound and rendered, on which the properties are applied.\<close>

lemmas ref_eval = references_def ref_at_def has_prefix_def ref_char_def lower_digit_def is_lower_def is_digit_def ref_body_def
  plain_ref_def cut_at_def Let_def capturePrefix_def itemRef_def

lemmas label_eval = dnsLabelRE_def upstreamNameRE_def label_upto_def lower_digit_def is_lower_def is_digit_def

lemmas name_eval = paramNameRE_def toolNameRE_def policyFieldRE_def class_len_def is_alnum_def is_upper_def is_lower_def is_digit_def
  lower_digit_def

definition demo_constraint :: BpConstraint where
  "demo_constraint = \<lparr>bcField = ''id'', bcOp = ''in'', bcValue = [], bcValues = ''${ids}'', bcWhen = [], bcLiteral = [], bcValuesSet = True\<rparr>"

definition demo_call :: "string \<Rightarrow> string \<Rightarrow> string \<Rightarrow> Call" where
  "demo_call tool arg t = \<lparr>caUpstream = ''gh'', caTool = tool, caArgs = [(arg, t)], caTypes = [], caUngoverned = []\<rparr>"

definition demo_step :: "string \<Rightarrow> string \<Rightarrow> Call \<Rightarrow> Step" where
  "demo_step name kind c = \<lparr>stName = name, stKind = kind, stPrompt = ''do it'', stCapture = [], stCall = Some c,
     stForEach = [], stPoll = None, stExec = None, stWhen = []\<rparr>"

definition demo_parameter :: "string \<Rightarrow> Parameter" where
  "demo_parameter ty = \<lparr>paType = ty, paHelp = ''h'', paPattern = [], paRequired = True, paRequiredFor = [], paNeeds = [], paDefault = []\<rparr>"

definition demo_blueprint :: Blueprint where
  "demo_blueprint = \<lparr>bpVersion = ''v1'', bpName = ''demo'', bpSummary = ''s'', bpCredential = ''rel'', bpAgent = ''bot'',
     bpParameters = [(''ids'', demo_parameter TypeIntList), (''version'', demo_parameter TypeString)],
     bpSeams = [(''gh'', \<lparr>seRequires = [(''run'', [''id'']), (''tag'', [''name''])], seAllow = [],
       seBound = [(''run'', [demo_constraint])], seRefresh = None\<rparr>)],
     bpSteps = [demo_step ''cut'' KindConsequential (demo_call ''tag'' ''name'' ''v${version}''),
       demo_step ''go'' KindBounded (demo_call ''run'' ''id'' ''7'')]\<rparr>"

definition demo_values :: BpValues where
  "demo_values = \<lparr>vaScalars = [(''version'', ''1'')], vaInts = [(''ids'', [7])], vaStrs = [], vaSupplied = [''version'', ''ids'']\<rparr>"

lemma demo_parameters_ok: "validateParameters compile demo_blueprint = None"
  by (simp add: validateParameters_def check_all_def demo_blueprint_def validateParameter_def demo_parameter_def refuse_def
      type_defs name_eval blank_def trim_space_def go_defs references_def)

lemma demo_seams_ok: "validateSeams demo_blueprint = None"
  by (simp add: validateSeams_def demo_blueprint_def validateSeam_def refuse_def check_all_def label_eval name_eval map_has_def
      map_get_def bp_validateConstraint_def demo_constraint_def ConstraintOps_def demo_parameter_def ref_eval type_defs
      cut_dot_def is_list_type_def)

lemma demo_steps_ok: "validateSteps demo_blueprint = None"
  by (simp add: validateSteps_def demo_blueprint_def demo_step_def validateStep_def refuse_def label_eval kind_defs
      validateStepShape_def demo_call_def validateCall_def map_get_def map_has_def check_all_def name_eval blank_def trim_space_def go_defs
      validateStepReferences_def ref_eval check_arg_ref_def cut_dot_def demo_parameter_def type_defs is_list_type_def
      knownReferenceWithItem_def step_prose_def validatePostures_def step_posture_def check_posture_def)

lemma demo_material: "refuseCredentialMaterial ''demo'' = None"
  by (simp add: refuseCredentialMaterial_def List.map_filter_def yaml_key_def key_char_def key_start_def is_upper_def is_lower_def
      is_digit_def token_at_def boundary_def word_char_def is_alnum_def gh_token_def has_prefix_def slack_token_def Let_def)

lemma demo_valid: "validate compile demo_blueprint = None"
proof -
  have "bpVersion demo_blueprint = bp_Version" "dnsLabelRE (bpName demo_blueprint)" "dnsLabelRE (bpCredential demo_blueprint)"
    "dnsLabelRE (bpAgent demo_blueprint)" "\<not> blank (bpSummary demo_blueprint)" "bpSeams demo_blueprint \<noteq> []" "bpSteps demo_blueprint \<noteq> []"
    by (simp_all add: demo_blueprint_def bp_Version_def label_eval blank_def trim_space_def go_defs)
  then show ?thesis by (simp add: validate_def refuse_def demo_parameters_ok demo_seams_ok demo_steps_ok)
qed

lemma demo_parsed: "bp_Parse (\<lambda>_. Some demo_blueprint) compile ''demo'' = Inr demo_blueprint"
  by (simp add: bp_Parse_def demo_material demo_valid fill_requires_def) (simp add: demo_blueprint_def)

lemma demo_wf: "map_wf (bpParameters demo_blueprint)"
  by (simp add: demo_blueprint_def map_wf_def)

lemma demo_bound: "bp_Bind compile demo_blueprint [(''ids'', ''7''), (''version'', ''1'')] [''cut'', ''go''] = Inr demo_values"
  by (simp add: bp_Bind_def demo_blueprint_def map_has_def is_deferred_def raw_of_def map_get_def trim_space_def go_defs bind_literal_def
      bind_raw_def bindOne_def bind_value_def demo_parameter_def type_defs list_parts_def Let_def no_values_def demo_values_def unmet_needs_def)

definition demo_rendered_step :: "string \<Rightarrow> string \<Rightarrow> string \<Rightarrow> string \<Rightarrow> string \<Rightarrow> RenderedStep" where
  "demo_rendered_step name kind tool arg x = \<lparr>rsName = name, rsKind = kind, rsLabel = name, rsPrompt = ''do it'', rsCapture = [],
     rsUpstream = ''gh'', rsTool = tool, rsArgs = [(arg, x)], rsArgTypes = [], rsPolicyFields = [arg], rsUngoverned = [],
     rsExec = None, rsPoll = None, rsOnFailure = [], rsBlocked = None\<rparr>"

definition demo_rule :: RenderedConstraint where
  "demo_rule = \<lparr>rcField = ''id'', rcOp = ''in'', rcValue = None, rcValues = [LInt 7]\<rparr>"

definition demo_run :: Rendered where
  "demo_run = \<lparr>rdAllowlist = [], rdConstraints = [(''rel'', [(''run'', [demo_rule])])],
     rdSteps = [demo_rendered_step ''cut'' KindConsequential ''tag'' ''name'' ''v1'', demo_rendered_step ''go'' KindBounded ''run'' ''id'' ''7'']\<rparr>"

lemma demo_seams_rendered: "render_seams demo_values (bpSeams demo_blueprint) = Inr [(''run'', [demo_rule])]"
  by (simp add: render_seams_def demo_blueprint_def render_bound_def renderConstraints_def applies_def demo_constraint_def
      render_constraint_def literalList_def trim_space_def go_defs ref_eval demo_values_def map_get_def demo_rule_def LiteralString_def)

lemma demo_steps_rendered:
  "renderStep (bpSeams demo_blueprint) None demo_values (demo_step ''cut'' KindConsequential (demo_call ''tag'' ''name'' ''v${version}''))
    = Inr [demo_rendered_step ''cut'' KindConsequential ''tag'' ''name'' ''v1'']"
  "renderStep (bpSeams demo_blueprint) None demo_values (demo_step ''go'' KindBounded (demo_call ''run'' ''id'' ''7''))
    = Inr [demo_rendered_step ''go'' KindBounded ''run'' ''id'' ''7'']"
  by (simp_all add: renderStep_def step_items_def demo_step_def render_item_def sub_text_def substitute_def expand_def ref_eval
      render_call_def demo_call_def sub_map_def resolve_def demo_values_def map_get_def policy_fields_def demo_blueprint_def
      demo_rendered_step_def)

lemma demo_rendered: "Render demo_blueprint demo_values [''cut'', ''go''] None = Inr demo_run"
proof -
  have "bpSteps demo_blueprint = [demo_step ''cut'' KindConsequential (demo_call ''tag'' ''name'' ''v${version}''),
      demo_step ''go'' KindBounded (demo_call ''run'' ''id'' ''7'')]" "bpCredential demo_blueprint = ''rel''"
    by (simp_all add: demo_blueprint_def)
  moreover have "stName (demo_step n k c) = n" "stWhen (demo_step n k c) = []" for n k c by (simp_all add: demo_step_def)
  moreover have "seam_tools (bpSeams demo_blueprint) = []" by (simp add: seam_tools_def demo_blueprint_def)
  ultimately show ?thesis
    by (simp add: Render_def render_blueprint_def demo_seams_rendered render_one_def demo_steps_rendered demo_run_def)
qed

end
