(* ===== verification/Action.thy ===== *)
theory Action
  imports Prelude
begin

text \<open>
  The actions of the command line client: a state threaded through calls that answer an error or a
  value, as a Go function with an \<open>error\<close> does, with the rules that open a successful one.
\<close>

type_synonym ('r, 'e, 'a) action = "'r \<Rightarrow> ('e + 'a) \<times> 'r"

definition give :: "'a \<Rightarrow> ('r, 'e, 'a) action" where "give x r = (Inr x, r)"
definition throw :: "'e \<Rightarrow> ('r, 'e, 'a) action" where "throw e r = (Inl e, r)"

definition bind :: "('r, 'e, 'a) action \<Rightarrow> ('a \<Rightarrow> ('r, 'e, 'b) action) \<Rightarrow> ('r, 'e, 'b) action" where
  "bind m f r = (case m r of (Inl e, r1) \<Rightarrow> (Inl e, r1) | (Inr x, r1) \<Rightarrow> f x r1)"

definition refuse_if :: "bool \<Rightarrow> 'e \<Rightarrow> ('r, 'e, unit) action" where
  "refuse_if bad e = (if bad then throw e else give ())"

definition of_sum :: "'e + 'a \<Rightarrow> ('r, 'e, 'a) action" where "of_sum x r = (x, r)"

definition or_fail :: "'e \<Rightarrow> 'a option \<Rightarrow> ('r, 'e, 'a) action" where
  "or_fail e x = (case x of None \<Rightarrow> throw e | Some y \<Rightarrow> give y)"

text \<open>An operation on the state itself, one whose error is only noted, and each element in turn.\<close>

definition op_action :: "('r \<Rightarrow> 'a \<times> 'r) \<Rightarrow> ('r, 'e, 'a) action" where
  "op_action f r = (case f r of (x, r1) \<Rightarrow> (Inr x, r1))"

definition noted :: "('r, 'e, 'a) action \<Rightarrow> ('r, 'e, unit) action" where
  "noted m r = (Inr (), snd (m r))"

fun for_all :: "('a \<Rightarrow> ('r, 'e, unit) action) \<Rightarrow> 'a list \<Rightarrow> ('r, 'e, unit) action" where
  "for_all f [] = give ()"
| "for_all f (x # xs) = bind (f x) (\<lambda>_. for_all f xs)"

lemma bind_Inr [simp]: "bind m f r = (Inr y, r') \<longleftrightarrow> (\<exists>x r1. m r = (Inr x, r1) \<and> f x r1 = (Inr y, r'))"
  unfolding bind_def by (auto split: prod.splits sum.splits)

lemma action_Inr [simp]:
  "give x r = (Inr y, r') \<longleftrightarrow> y = x \<and> r' = r"
  "throw e r = (Inr y, r') \<longleftrightarrow> False"
  "of_sum z r = (Inr y, r') \<longleftrightarrow> z = Inr y \<and> r' = r"
  "refuse_if bad e r = (Inr u, r') \<longleftrightarrow> \<not> bad \<and> r' = r"
  "or_fail e p r = (Inr q, r') \<longleftrightarrow> p = Some q \<and> r' = r"
  "op_action f r = (Inr v, r') \<longleftrightarrow> f r = (v, r')"
  by (auto simp: give_def throw_def of_sum_def refuse_if_def or_fail_def op_action_def split: option.splits prod.splits)

lemma noted_Inr [simp]: "noted m r = (Inr u, r') \<longleftrightarrow> r' = snd (m r)"
  by (auto simp: noted_def)

text \<open>An error comes from the first action or from the second after it.\<close>

lemma bind_Inl: "bind m f r = (Inl e, r') \<longleftrightarrow> m r = (Inl e, r') \<or> (\<exists>x r1. m r = (Inr x, r1) \<and> f x r1 = (Inl e, r'))"
  unfolding bind_def by (auto split: prod.splits sum.splits)

lemma for_all_keeps:
  assumes "for_all f xs r = (Inr u, r')" "P r"
    and "\<And>x r1 r2 v. x \<in> set xs \<Longrightarrow> P r1 \<Longrightarrow> f x r1 = (Inr v, r2) \<Longrightarrow> P r2"
  shows "P r'"
  using assms by (induction xs arbitrary: r) auto

lemmas action_defs = give_def throw_def bind_def refuse_if_def of_sum_def noted_def or_fail_def op_action_def

end
