(* ===== verification/Workflow.thy ===== *)
theory Workflow
  imports Action BlueprintRender RateLimit
begin

text \<open>
  Component \<^verbatim>\<open>internal/kmx/app/workflow_run.go\<close>: the driver of a rendered blueprint, and \<open>checkSeams\<close>
  of \<^verbatim>\<open>workflow.go\<close>. The admin views, the agent, the commands on the machine, the files, \<open>kubectl\<close>
  and the clock are a record of operations over a world \<open>'s\<close>; a view is a list of rows, \<open>None\<close> a
  read that failed. The code ignores the error of decoding the rows of a view, so an answer of
  another shape is the rows that could be decoded, an empty list if none. The clock and the lengths
  of sleeps count nanoseconds. An action threads the run and answers an error or a value, as a Go
  function does; a note to the operator is left out.
\<close>

subsection \<open>Actions\<close>

record grant_view =
  gvID :: string
  gvRequestID :: string
  gvKind :: string
  gvSubject :: string
  gvLive :: bool
  gvDigest :: string
  gvDecidedBy :: string

record pending_view =
  pvID :: string
  pvCredential :: string
  pvKind :: string
  pvSubject :: string
  pvSummary :: string

record audit_view =
  avCreated :: string
  avTool :: string
  avDecision :: string
  avDetail :: string
  avSummary :: string

record 's Driver =
  dvGrants :: "string \<Rightarrow> 's \<Rightarrow> grant_view list option \<times> 's"
  dvPending :: "'s \<Rightarrow> pending_view list option \<times> 's"
  dvAudit :: "string \<Rightarrow> 's \<Rightarrow> audit_view list option \<times> 's"
  dvRequest :: "string \<Rightarrow> string \<Rightarrow> string \<Rightarrow> json gomap \<Rightarrow> 's \<Rightarrow> bool \<times> 's"
  dvAskAgent :: "string \<Rightarrow> string \<Rightarrow> 's \<Rightarrow> (string \<times> string) option \<times> 's"
  dvLookPath :: "string \<Rightarrow> 's \<Rightarrow> bool"
  dvCommand :: "string \<Rightarrow> string list \<Rightarrow> string gomap \<Rightarrow> 's \<Rightarrow> bool \<times> 's"
  dvCapture :: "string \<Rightarrow> string list \<Rightarrow> 's \<Rightarrow> string option \<times> 's"
  dvScripts :: "string \<Rightarrow> 's \<Rightarrow> string option"
  dvPath :: "string \<Rightarrow> string"
  dvWriteFile :: "string \<Rightarrow> string \<Rightarrow> 's \<Rightarrow> bool \<times> 's"
  dvApplySecret :: "string \<Rightarrow> string \<Rightarrow> string \<Rightarrow> 's \<Rightarrow> bool \<times> 's"
  dvSeamStatus :: "string \<Rightarrow> 's \<Rightarrow> string option \<times> 's"
  dvAnnotate :: "string \<Rightarrow> 's \<Rightarrow> 's"
  dvNow :: "'s \<Rightarrow> int"
  dvSleep :: "int \<Rightarrow> 's \<Rightarrow> 's"

record RunOptions =
  roStep :: string
  roDryRun :: bool
  roApprover :: string
  roHumanSeconds :: int

text \<open>What a run carries from step to step: the replies captured, the files they are in, and the refreshes.\<close>

record 's workflowRun =
  wrCaptures :: "string gomap"
  wrFiles :: "string gomap"
  wrRefreshed :: "int gomap"
  wrWorld :: 's

datatype seam_error = SeNoUpstream string | SeUndeclared string | SeDisagree string

datatype run_error =
    DryRunStop
  | RuStep string
  | RuBind "problem list"
  | RuTable
  | RuSeams seam_error
  | RuRender render_error
  | RuNothing
  | RuRead
  | RuTurn
  | RuCapture string
  | RuEmptyReply
  | RuWrite
  | RuLiveGrant
  | RuPreview run_error
  | RuArgs string
  | RuRequest
  | RuNotFiled
  | RuUndecided
  | RuNotLive
  | RuNoGrant
  | RuOtherApprover string
  | RuScript string
  | RuRequires string
  | RuCommand
  | RuNoRow
  | RuNotAdmitted
  | RuNotByBound
  | RuPollFailed
  | RuPollTimeout
  | RuSecret
  | RuKind
  | RuFuel

type_synonym ('s, 'a) run_action = "('s workflowRun, run_error, 'a) action"

text \<open>An operation of the world, and a look at it.\<close>

definition world :: "('s \<Rightarrow> 'a \<times> 's) \<Rightarrow> ('s, 'a) run_action" where
  "world op r = (case op (wrWorld r) of (x, w) \<Rightarrow> (Inr x, r\<lparr>wrWorld := w\<rparr>))"

definition look :: "('s \<Rightarrow> 'a) \<Rightarrow> ('s, 'a) run_action" where "look f r = (Inr (f (wrWorld r)), r)"

lemma look_Inr [simp]: "look f r = (Inr v, r') \<longleftrightarrow> v = f (wrWorld r) \<and> r' = r"
  by (auto simp: look_def)

lemma world_Inr [simp]: "world op r = (Inr x, r') \<longleftrightarrow> op (wrWorld r) = (x, wrWorld r') \<and> r' = r\<lparr>wrWorld := wrWorld r'\<rparr>"
  unfolding world_def by (cases r, cases r') (auto split: prod.splits)

subsection \<open>The assertion about the table\<close>

definition check_seam :: "string list \<Rightarrow> string list gomap \<Rightarrow> string \<times> Seam \<Rightarrow> seam_error option" where
  "check_seam upstreams declared ns =
     (case ns of (name, seam) \<Rightarrow>
        if name \<notin> set upstreams then Some (SeNoUpstream name)
        else check_all (\<lambda>(tool, want).
          (case map_get declared tool of
             None \<Rightarrow> Some (SeUndeclared tool)
           | Some got \<Rightarrow> if join '','' got \<noteq> join '','' want then Some (SeDisagree tool) else None)) (seRequires seam))"

definition checkSeams :: "Blueprint \<Rightarrow> string list \<Rightarrow> string list gomap \<Rightarrow> seam_error option" where
  "checkSeams b upstreams declared = check_all (check_seam upstreams declared) (bpSeams b)"

subsection \<open>Captures\<close>

text \<open>\<open>strings.ReplaceAll\<close> for a non-empty text.\<close>

function ReplaceAll :: "string \<Rightarrow> string \<Rightarrow> string \<Rightarrow> string" where
  "ReplaceAll [] old new = []"
| "ReplaceAll (c # s) old new =
     (if old \<noteq> [] \<and> has_prefix (c # s) old then new @ ReplaceAll (drop (length old) (c # s)) old new
      else c # ReplaceAll s old new)"
  by pat_completeness auto
termination by (relation "measure (\<lambda>(s, old, new). length s)") auto

definition capture_ref :: "string \<Rightarrow> string" where "capture_ref name = ''${capture.'' @ name @ ''}''"

fun open_capture :: "string \<Rightarrow> bool" where
  "open_capture [] = False"
| "open_capture (c # s) =
     (if has_prefix (c # s) ''${capture.'' then CHR ''}'' \<in> set (c # s) else open_capture s)"

text \<open>The map is ranged over in key order here.\<close>

definition resolveCaptures :: "string \<Rightarrow> ('s, string) run_action" where
  "resolveCaptures s r =
     (let out = fold (\<lambda>(name, text) out.
            ReplaceAll (ReplaceAll out (capture_ref name) text) (capture_ref (name @ fileSuffix))
              (case map_get (wrFiles r) name of None \<Rightarrow> [] | Some f \<Rightarrow> f)) (wrCaptures r) s
      in if open_capture out then throw (RuCapture s) r else give out r)"

definition note_capture :: "string \<Rightarrow> string \<Rightarrow> string \<Rightarrow> ('s, unit) run_action" where
  "note_capture name reply path r =
     give () (r\<lparr>wrCaptures := map_set name reply (wrCaptures r), wrFiles := map_set name path (wrFiles r)\<rparr>)"

definition hasMarker :: "string \<Rightarrow> string \<Rightarrow> bool" where
  "hasMarker reply marker \<longleftrightarrow> list_ex (\<lambda>l. trim_space l = marker) (lines_of reply)"

subsection \<open>The agent\<close>

definition turn :: "'s Driver \<Rightarrow> Blueprint \<Rightarrow> string \<Rightarrow> ('s, string) run_action" where
  "turn dv b prompt =
     bind (resolveCaptures prompt) (\<lambda>p.
     bind (world (dvAskAgent dv (bpAgent b) p)) (\<lambda>answer.
     bind (or_fail RuTurn answer) (\<lambda>(state, reply).
       if state \<noteq> ''completed'' \<or> blank reply then throw RuTurn else give reply)))"

definition turnStep :: "'s Driver \<Rightarrow> Blueprint \<Rightarrow> RenderedStep \<Rightarrow> ('s, unit) run_action" where
  "turnStep dv b s =
     bind (turn dv b (rsPrompt s)) (\<lambda>reply.
       if rsCapture s = [] then give ()
       else if blank reply then throw RuEmptyReply
       else (let path = dvPath dv (rsCapture s @ ''.txt'') in
         bind (world (dvWriteFile dv path reply)) (\<lambda>ok.
         bind (refuse_if (\<not> ok) RuWrite) (\<lambda>_. note_capture (rsCapture s) reply path))))"

subsection \<open>Credentials\<close>

definition refreshInterval :: int where "refreshInterval = 10 * minute"
definition secretProjectionWait :: int where "secretProjectionWait = 45 * second"

definition reconnectSeam :: "'s Driver \<Rightarrow> Refresh \<Rightarrow> ('s, unit) run_action" where
  "reconnectSeam dv ref =
     (if rfSeam ref = [] then give ()
      else bind (world (dvSeamStatus dv (rfSeam ref))) (\<lambda>status.
        case status of
          None \<Rightarrow> give ()
        | Some x \<Rightarrow>
            if has_prefix x ''True'' then give ()
            else world (\<lambda>w. ((), dvAnnotate dv (rfSeam ref) (dvSleep dv secretProjectionWait w)))))"

definition note_refresh :: "string \<Rightarrow> int \<Rightarrow> ('s, unit) run_action" where
  "note_refresh name now r = give () (r\<lparr>wrRefreshed := map_set name now (wrRefreshed r)\<rparr>)"

definition is_fresh :: "'s Driver \<Rightarrow> string \<Rightarrow> 's workflowRun \<Rightarrow> bool" where
  "is_fresh dv name r =
     (case map_get (wrRefreshed r) name of None \<Rightarrow> False | Some since \<Rightarrow> dvNow dv (wrWorld r) - since < refreshInterval)"

definition store_refreshed :: "'s Driver \<Rightarrow> string \<Rightarrow> Refresh \<Rightarrow> string \<Rightarrow> ('s, unit) run_action" where
  "store_refreshed dv name ref minted =
     bind (world (dvWriteFile dv (dvPath dv (name @ ''.cred'')) (trim_space minted))) (\<lambda>written.
     bind (refuse_if (\<not> written) RuWrite) (\<lambda>_.
     bind (world (dvApplySecret dv (rfSecret ref) (rfKey ref) (trim_space minted))) (\<lambda>applied.
     bind (refuse_if (\<not> applied) RuSecret) (\<lambda>_.
     bind (look (dvNow dv)) (\<lambda>now.
     bind (note_refresh name now) (\<lambda>_. reconnectSeam dv ref))))))"

definition refreshSeam :: "'s Driver \<Rightarrow> Blueprint \<Rightarrow> string \<Rightarrow> ('s, unit) run_action" where
  "refreshSeam dv b name r =
     (case Option.bind (map_get (bpSeams b) name) seRefresh of
        None \<Rightarrow> give () r
      | Some ref \<Rightarrow>
          if is_fresh dv name r \<or> \<not> dvLookPath dv (rfRequires ref) (wrWorld r) then give () r
          else bind (world (dvCapture dv (hd (rfCommand ref)) (tl (rfCommand ref)))) (\<lambda>out.
                 case out of
                   None \<Rightarrow> give ()
                 | Some minted \<Rightarrow> if blank minted then give () else store_refreshed dv name ref minted) r)"

definition refreshFor :: "'s Driver \<Rightarrow> Blueprint \<Rightarrow> RenderedStep \<Rightarrow> ('s, unit) run_action" where
  "refreshFor dv b s =
     (if rsUpstream s = [] then for_all (refreshSeam dv b) (map fst (bpSeams b)) else refreshSeam dv b (rsUpstream s))"

subsection \<open>Waiting for a status\<close>

text \<open>
  \<open>time.Duration(n) * time.Second\<close> is a product of \<open>int64\<close>, which wraps: from 9223372037 seconds on it
  can be negative, and a sleep of a negative duration returns at once. \<open>Time.Add\<close> of such a duration
  does not wrap again.
\<close>

definition Seconds :: "int \<Rightarrow> int" where "Seconds n = wrap64 (n * second)"

lemma Seconds_exact: "\<bar>n\<bar> \<le> 9223372036 \<Longrightarrow> Seconds n = n * second"
  by (simp add: Seconds_def wrap64_def second_def)

text \<open>One look per round until the deadline; the first argument is fuel.\<close>

definition poll_answer :: "'s Driver \<Rightarrow> Blueprint \<Rightarrow> PollSpec \<Rightarrow> RenderedStep \<Rightarrow> string \<Rightarrow> ('s, bool) run_action" where
  "poll_answer dv b p s reply =
     (if hasMarker reply (psDoneMarker p) then give True
      else if hasMarker reply (psFailedMarker p) then
        bind (if rsOnFailure s \<noteq> [] then noted (turn dv b (rsOnFailure s)) else give ()) (\<lambda>_. throw RuPollFailed)
      else give False)"

definition poll_round :: "'s Driver \<Rightarrow> Blueprint \<Rightarrow> PollSpec \<Rightarrow> RenderedStep \<Rightarrow> ('s, bool) run_action" where
  "poll_round dv b p s =
     bind (refreshFor dv b s) (\<lambda>_ r.
       case turn dv b (rsPrompt s) r of
         (Inl e, r1) \<Rightarrow> give False r1
       | (Inr reply, r1) \<Rightarrow> poll_answer dv b p s reply r1)"

fun pollStep :: "nat \<Rightarrow> 's Driver \<Rightarrow> Blueprint \<Rightarrow> int \<Rightarrow> PollSpec \<Rightarrow> RenderedStep \<Rightarrow> ('s, unit) run_action" where
  "pollStep 0 dv b deadline p s = throw RuFuel"
| "pollStep (Suc f) dv b deadline p s =
     bind (look (dvNow dv)) (\<lambda>now.
       if \<not> now < deadline then throw RuPollTimeout
       else bind (poll_round dv b p s) (\<lambda>finished.
         if finished then give ()
         else bind (world (\<lambda>w. ((), dvSleep dv (Seconds (psInterval p)) w))) (\<lambda>_. pollStep f dv b deadline p s)))"

subsection \<open>Reading the record of the plane\<close>

definition row_id :: "audit_view \<Rightarrow> string" where
  "row_id a = avCreated a @ ''|'' @ avDecision a @ ''|'' @ avDetail a @ ''|'' @ avSummary a"

definition auditRows :: "'s Driver \<Rightarrow> Blueprint \<Rightarrow> ('s, audit_view list) run_action" where
  "auditRows dv b = bind (world (dvAudit dv (bpCredential b))) (or_fail RuRead)"

definition newest_id :: "audit_view list \<Rightarrow> string \<Rightarrow> string" where
  "newest_id rows tool = (case List.find (\<lambda>r. avTool r = tool) rows of None \<Rightarrow> [] | Some r \<Rightarrow> row_id r)"

definition newestFor :: "'s Driver \<Rightarrow> Blueprint \<Rightarrow> string \<Rightarrow> ('s, string) run_action" where
  "newestFor dv b tool =
     bind (auditRows dv b) (\<lambda>rows. give (newest_id rows tool))"

definition newest_row :: "audit_view list \<Rightarrow> string \<Rightarrow> string \<Rightarrow> audit_view option" where
  "newest_row rows tool before =
     (case List.find (\<lambda>r. avTool r = tool) rows of
        None \<Rightarrow> None
      | Some r \<Rightarrow> if row_id r = before then None else Some r)"

definition newestAudit :: "'s Driver \<Rightarrow> Blueprint \<Rightarrow> string \<Rightarrow> string \<Rightarrow> ('s, audit_view) run_action" where
  "newestAudit dv b tool before = bind (auditRows dv b) (\<lambda>rows. or_fail RuNoRow (newest_row rows tool before))"

definition all_grants :: "'s Driver \<Rightarrow> Blueprint \<Rightarrow> ('s, grant_view list) run_action" where
  "all_grants dv b = bind (world (dvGrants dv (bpCredential b))) (or_fail RuRead)"

definition liveGrant :: "grant_view list \<Rightarrow> string \<Rightarrow> bool" where
  "liveGrant grants tool \<longleftrightarrow> list_ex (\<lambda>g. gvKind g = ''tool'' \<and> gvSubject g = tool \<and> gvLive g) grants"

definition selectRequest :: "pending_view list \<Rightarrow> string \<Rightarrow> string \<Rightarrow> string \<Rightarrow> string" where
  "selectRequest requests credential tool want =
     (case List.find (\<lambda>p. pvCredential p = credential \<and> pvKind p = ''tool'' \<and> pvSubject p = tool \<and> pvSummary p = want) requests of
        None \<Rightarrow> []
      | Some p \<Rightarrow> pvID p)"

definition pendingRequest :: "'s Driver \<Rightarrow> Blueprint \<Rightarrow> RenderedStep \<Rightarrow> ('s, string) run_action" where
  "pendingRequest dv b s =
     bind (world (dvPending dv)) (\<lambda>view.
     bind (or_fail RuRead view) (\<lambda>ps.
       (let rid = selectRequest ps (bpCredential b) (rsTool s) (Summary s) in
        if rid = [] then throw RuNotFiled else give rid)))"

definition selectGrant :: "grant_view list \<Rightarrow> string \<Rightarrow> run_error + grant_view" where
  "selectGrant grants rid =
     (case List.find (\<lambda>g. gvRequestID g = rid) grants of
        None \<Rightarrow> Inl RuNoGrant
      | Some g \<Rightarrow> if \<not> gvLive g then Inl RuNotLive else Inr g)"

definition confirmDecision :: "'s Driver \<Rightarrow> Blueprint \<Rightarrow> RunOptions \<Rightarrow> string \<Rightarrow> ('s, grant_view) run_action" where
  "confirmDecision dv b ro rid =
     bind (all_grants dv b) (\<lambda>grants.
     bind (of_sum (selectGrant grants rid)) (\<lambda>g.
       if roApprover ro \<noteq> [] \<and> gvDecidedBy g \<noteq> roApprover ro then throw (RuOtherApprover (gvDecidedBy g)) else give g))"

definition stillPending :: "'s Driver \<Rightarrow> string \<Rightarrow> ('s, bool) run_action" where
  "stillPending dv rid =
     bind (world (dvPending dv)) (\<lambda>view. bind (or_fail RuRead view) (\<lambda>ps. give (list_ex (\<lambda>p. pvID p = rid) ps)))"

fun awaitApproval :: "nat \<Rightarrow> 's Driver \<Rightarrow> Blueprint \<Rightarrow> RunOptions \<Rightarrow> int \<Rightarrow> string \<Rightarrow> ('s, grant_view) run_action" where
  "awaitApproval 0 dv b ro deadline rid = throw RuFuel"
| "awaitApproval (Suc f) dv b ro deadline rid =
     bind (look (dvNow dv)) (\<lambda>now.
       if \<not> now < deadline then throw RuUndecided
       else bind (stillPending dv rid) (\<lambda>still.
         if \<not> still then confirmDecision dv b ro rid
         else bind (world (\<lambda>w. ((), dvSleep dv (5 * second) w))) (\<lambda>_. awaitApproval f dv b ro deadline rid)))"

subsection \<open>The action on the operator's machine\<close>

definition Script :: "'s Driver \<Rightarrow> string \<Rightarrow> ('s, string) run_action" where
  "Script dv name =
     (if \<not> scriptNameRE name then throw (RuScript name) else bind (look (dvScripts dv name)) (or_fail (RuScript name)))"

definition exec_argv :: "'s Driver \<Rightarrow> RenderedExec \<Rightarrow> string list \<Rightarrow> ('s, string \<times> string list) run_action" where
  "exec_argv dv e args =
     (if reScript e \<noteq> [] then
        bind (Script dv (reScript e)) (\<lambda>body.
        bind (world (dvWriteFile dv (dvPath dv (reScript e)) body)) (\<lambda>ok.
        bind (refuse_if (\<not> ok) RuWrite) (\<lambda>_. give (''bash'', dvPath dv (reScript e) # args))))
      else give (hd (reCommand e), tl (reCommand e) @ args))"

fun exec_env :: "string gomap \<Rightarrow> ('s, string gomap) run_action" where
  "exec_env [] = give []"
| "exec_env ((k, v) # env) = bind (resolveCaptures v) (\<lambda>x. bind (exec_env env) (\<lambda>xs. give ((k, x) # xs)))"

definition run_exec :: "'s Driver \<Rightarrow> RenderedExec \<Rightarrow> string list \<Rightarrow> ('s, unit) run_action" where
  "run_exec dv e args =
     bind (exec_argv dv e args) (\<lambda>(bin, argv).
     bind (for_all (\<lambda>need. bind (look (dvLookPath dv need)) (\<lambda>found. refuse_if (\<not> found) (RuRequires need))) (reRequires e)) (\<lambda>_.
     bind (exec_env (reEnv e)) (\<lambda>env.
     bind (world (dvCommand dv bin argv env)) (\<lambda>ok. refuse_if (\<not> ok) RuCommand))))"

subsection \<open>A call inside its standing bound\<close>

definition boundedStep :: "'s Driver \<Rightarrow> Blueprint \<Rightarrow> RunOptions \<Rightarrow> RenderedStep \<Rightarrow> ('s, unit) run_action" where
  "boundedStep dv b ro s =
     (if roDryRun ro then throw DryRunStop
      else bind (newestFor dv b (rsTool s)) (\<lambda>before.
        bind (noted (turn dv b (rsPrompt s))) (\<lambda>_.
        bind (newestAudit dv b (rsTool s) before) (\<lambda>row.
          if \<not> contains (avDecision row) ''allowed'' then throw RuNotAdmitted
          else if \<not> contains (to_lower (avDetail row)) ''standing constraint'' then throw RuNotByBound
          else give ()))))"

subsection \<open>A call a human approves\<close>

text \<open>
  The arguments go through \<open>map[string]any\<close>, so a number becomes a \<open>float64\<close> and is written as the
  shortest decimal that reads back as it: a multiple of the coarsest power of ten that has one, the
  nearer of the two that may do.
\<close>

definition round_signed :: "int \<Rightarrow> rat" where
  "round_signed n = (if n < 0 then - round64 (of_int (- n)) else round64 (of_int n))"

definition near_multiple :: "int \<Rightarrow> nat \<Rightarrow> int option" where
  "near_multiple f e =
     (let lo = (f div 10 ^ e) * 10 ^ e; hi = lo + 10 ^ e in
      if round_signed lo = of_int f \<and> (f - lo \<le> hi - f \<or> round_signed hi \<noteq> of_int f) then Some lo
      else if round_signed hi = of_int f then Some hi else None)"

definition float_text :: "int \<Rightarrow> int" where
  "float_text n =
     (case List.map_filter (near_multiple \<lfloor>round_signed n\<rfloor>) (rev [0..<20]) of [] \<Rightarrow> \<lfloor>round_signed n\<rfloor> | x # _ \<Rightarrow> x)"

definition filed_value :: "json \<Rightarrow> json" where
  "filed_value v = (case v of JNum n \<Rightarrow> (case parse_int n of Some i \<Rightarrow> JNum (format_int (float_text i)) | None \<Rightarrow> v) | _ \<Rightarrow> v)"

definition filed_args :: "json gomap \<Rightarrow> json gomap" where
  "filed_args args = map (\<lambda>(k, v). (k, filed_value v)) args"

definition preview_step :: "'s Driver \<Rightarrow> RenderedStep \<Rightarrow> ('s, unit) run_action" where
  "preview_step dv s =
     (case rsExec s of
        None \<Rightarrow> give ()
      | Some e \<Rightarrow>
          if rePreview e = [] then give ()
          else (\<lambda>r. case run_exec dv e (rePreview e) r of (Inl x, r1) \<Rightarrow> (Inl (RuPreview x), r1) | (Inr u, r1) \<Rightarrow> (Inr u, r1)))"

text \<open>After the approval: the command, or the turn and the row it left.\<close>

definition perform :: "'s Driver \<Rightarrow> Blueprint \<Rightarrow> RenderedStep \<Rightarrow> string \<Rightarrow> ('s, unit) run_action" where
  "perform dv b s before =
     (case rsExec s of
        Some e \<Rightarrow> run_exec dv e (reArgs e)
      | None \<Rightarrow>
          bind (noted (turn dv b (rsPrompt s))) (\<lambda>_.
          bind (newestAudit dv b (rsTool s) before) (\<lambda>row.
            refuse_if (\<not> contains (avDecision row) ''allowed'' \<or> \<not> contains (avDetail row) ''granted'') RuNotAdmitted)))"

definition file_step :: "'s Driver \<Rightarrow> Blueprint \<Rightarrow> RenderedStep \<Rightarrow> ('s, unit) run_action" where
  "file_step dv b s =
     (case ArgsJSON s of
        Inl e \<Rightarrow> throw (RuArgs e)
      | Inr args \<Rightarrow>
          bind (world (dvRequest dv (bpCredential b) ''tool'' (rsTool s) (filed_args args))) (\<lambda>ok. refuse_if (\<not> ok) RuRequest))"

text \<open>No live grant, the preview, the filing, the request it left, and the wait for its grant.\<close>

definition approved_call :: "nat \<Rightarrow> 's Driver \<Rightarrow> Blueprint \<Rightarrow> RunOptions \<Rightarrow> RenderedStep \<Rightarrow> ('s, grant_view) run_action" where
  "approved_call fuel dv b ro s =
     bind (all_grants dv b) (\<lambda>grants.
     bind (refuse_if (liveGrant grants (rsTool s)) RuLiveGrant) (\<lambda>_.
     bind (preview_step dv s) (\<lambda>_.
     bind (file_step dv b s) (\<lambda>_.
     bind (pendingRequest dv b s) (\<lambda>rid.
     bind (look (dvNow dv)) (\<lambda>now.
       awaitApproval fuel dv b ro (now + Seconds (roHumanSeconds ro)) rid))))))"

definition consequentialStep :: "nat \<Rightarrow> 's Driver \<Rightarrow> Blueprint \<Rightarrow> RunOptions \<Rightarrow> RenderedStep \<Rightarrow> ('s, unit) run_action" where
  "consequentialStep fuel dv b ro s =
     (if roDryRun ro then throw DryRunStop
      else bind (approved_call fuel dv b ro s) (\<lambda>permit.
        bind (newestFor dv b (rsTool s)) (\<lambda>before. perform dv b s before)))"

subsection \<open>The run\<close>

definition do_step :: "nat \<Rightarrow> 's Driver \<Rightarrow> Blueprint \<Rightarrow> RunOptions \<Rightarrow> RenderedStep \<Rightarrow> ('s, unit) run_action" where
  "do_step fuel dv b ro s =
     bind (refreshFor dv b s) (\<lambda>_.
       if rsKind s = KindRead \<or> rsKind s = KindPropose then turnStep dv b s
       else if rsKind s = KindPoll then
         (case rsPoll s of
            None \<Rightarrow> throw RuKind
          | Some p \<Rightarrow> bind (look (dvNow dv)) (\<lambda>now. pollStep fuel dv b (now + Seconds (psTimeout p)) p s))
       else if rsKind s = KindBounded then boundedStep dv b ro s
       else if rsKind s = KindConsequential then consequentialStep fuel dv b ro s
       else throw RuKind)"

text \<open>The steps that were asked for, bound and rendered against the running table.\<close>

definition asked_steps :: "Blueprint \<Rightarrow> RunOptions \<Rightarrow> run_error + string list" where
  "asked_steps b ro =
     (if roStep ro = [] then Inr (StepNames b)
      else if roStep ro \<notin> set (StepNames b) then Inl (RuStep (roStep ro)) else Inr [roStep ro])"

definition bound_run ::
  "(string \<Rightarrow> (string \<Rightarrow> bool) option) \<Rightarrow> Blueprint \<Rightarrow> string gomap \<Rightarrow> RunOptions \<Rightarrow> run_error + (string list \<times> BpValues)" where
  "bound_run compile b vals ro =
     and_then (asked_steps b ro) (\<lambda>steps.
       case bp_Bind compile b vals steps of Inl ps \<Rightarrow> Inl (RuBind ps) | Inr v \<Rightarrow> Inr (steps, v))"

definition rendered_run ::
  "Blueprint \<Rightarrow> string list \<times> BpValues \<Rightarrow> string list \<times> string list gomap \<Rightarrow> run_error + Rendered" where
  "rendered_run b sv table =
     (case (sv, table) of ((steps, v), (upstreams, decl)) \<Rightarrow>
        (case checkSeams b upstreams decl of
           Some e \<Rightarrow> Inl (RuSeams e)
         | None \<Rightarrow>
             (case Render b v steps (Some decl) of
                Inl e \<Rightarrow> Inl (RuRender e)
              | Inr r \<Rightarrow> if rdSteps r = [] then Inl RuNothing else Inr r)))"

definition human_seconds :: "RunOptions \<Rightarrow> RunOptions" where
  "human_seconds ro = (if roHumanSeconds ro = 0 then ro\<lparr>roHumanSeconds := 900\<rparr> else ro)"

definition run_steps :: "nat \<Rightarrow> 's Driver \<Rightarrow> Blueprint \<Rightarrow> RunOptions \<Rightarrow> RenderedStep list \<Rightarrow> ('s, unit) run_action" where
  "run_steps fuel dv b ro steps r =
     (case for_all (do_step fuel dv b ro) steps r of
        (Inl DryRunStop, r1) \<Rightarrow> (Inr (), r1)
      | x \<Rightarrow> x)"

definition RunWorkflow ::
  "nat \<Rightarrow> 's Driver \<Rightarrow> (string \<Rightarrow> (string \<Rightarrow> bool) option) \<Rightarrow> Blueprint \<Rightarrow> string gomap \<Rightarrow> RunOptions \<Rightarrow>
    ('s \<Rightarrow> (string list \<times> string list gomap) option \<times> 's) \<Rightarrow> ('s, unit) run_action" where
  "RunWorkflow fuel dv compile b vals ro table =
     bind (of_sum (bound_run compile b vals ro)) (\<lambda>sv.
     bind (world table) (\<lambda>view.
     bind (or_fail RuTable view) (\<lambda>t.
     bind (of_sum (rendered_run b sv t)) (\<lambda>rendered.
       run_steps fuel dv b (human_seconds ro) (rdSteps rendered)))))"

end
