(* ===== verification/Govern.thy ===== *)
theory Govern
  imports Workflow ConfigDecode
begin

text \<open>
  Component \<^verbatim>\<open>internal/kmx/app/workflow.go\<close>, \<open>kmx workflow govern\<close>: the bounds of a blueprint written
  to the overlay, the proxy rolled, the allowlist of the credential set. \<open>kubectl\<close>, the admin API, the
  guard and the session are a record of operations over a world; \<open>readOverlay\<close> and \<open>rollProxy\<close> are of
  \<^verbatim>\<open>toolsadd.go\<close>. What \<open>kubectl\<close> prints of a ConfigMap is its version and its data, decoded; the
  patch file is the document in it.
\<close>

subsection \<open>The cluster\<close>

datatype kube_read = KubeFailed | KubeMissing | KubeObject "(string \<times> string gomap option) option"

record validate_answer =
  vwOK :: bool
  vwToolUpstreams :: "string list"
  vwTableDeclared :: "string list gomap option"

record 's Cluster =
  clGet :: "'s \<Rightarrow> kube_read \<times> 's"
  clCreate :: "'s \<Rightarrow> bool \<times> 's"
  clPatch :: "json \<Rightarrow> 's \<Rightarrow> bool \<times> 's"
  clRestart :: "'s \<Rightarrow> bool \<times> 's"
  clRollout :: "'s \<Rightarrow> bool \<times> 's"
  clSession :: "'s \<Rightarrow> bool \<times> 's"
  clValidate :: "string gomap \<Rightarrow> 's \<Rightarrow> (int \<times> validate_answer) option \<times> 's"
  clAllowlist :: "string \<Rightarrow> string list \<Rightarrow> 's \<Rightarrow> bool \<times> 's"
  clGuard :: "'s \<Rightarrow> bool \<times> 's"

datatype govern_error =
    GoBind "problem list"
  | GoRead
  | GoFragment string
  | GoCollision string
  | GoSession
  | GoRender render_error
  | GoPost
  | GoRefused
  | GoOldPlane
  | GoSeams seam_error
  | GoWouldRemove
  | GoDiffers
  | GoGuard
  | GoKube
  | GoMoved
  | GoAllowlist

type_synonym ('s, 'a) govern_action = "('s, govern_error, 'a) action"

definition run_op :: "govern_error \<Rightarrow> ('s \<Rightarrow> bool \<times> 's) \<Rightarrow> ('s, unit) govern_action" where
  "run_op e f = bind (op_action f) (\<lambda>ok. refuse_if (\<not> ok) e)"

text \<open>An absent ConfigMap is an empty overlay without a version; one without a version is refused.\<close>

definition readOverlay :: "'s Cluster \<Rightarrow> ('s, string gomap \<times> string) govern_action" where
  "readOverlay cl =
     bind (op_action (clGet cl)) (\<lambda>out.
       case out of
         KubeMissing \<Rightarrow> give ([], [])
       | KubeFailed \<Rightarrow> throw GoRead
       | KubeObject None \<Rightarrow> throw GoRead
       | KubeObject (Some (version, data)) \<Rightarrow>
           if version = [] then throw GoRead else give (case data of None \<Rightarrow> [] | Some d \<Rightarrow> d, version))"

definition rollProxy :: "'s Cluster \<Rightarrow> ('s, unit) govern_action" where
  "rollProxy cl = bind (run_op GoKube (clRestart cl)) (\<lambda>_. run_op GoKube (clRollout cl))"

definition validateWorkflowOverlay ::
  "'s Cluster \<Rightarrow> string gomap \<Rightarrow> ('s, string list \<times> string list gomap) govern_action" where
  "validateWorkflowOverlay cl fragments =
     bind (op_action (clValidate cl fragments)) (\<lambda>out.
     bind (or_fail GoPost out) (\<lambda>(status, resp).
       if status \<noteq> 200 \<or> \<not> vwOK resp then throw GoRefused
       else case vwTableDeclared resp of None \<Rightarrow> throw GoOldPlane | Some d \<Rightarrow> give (vwToolUpstreams resp, d)))"

subsection \<open>Documents\<close>

text \<open>\<open>json.MarshalIndent\<close> with two blanks, its strings with HTML escaping.\<close>

definition html_char :: "char \<Rightarrow> string" where
  "html_char c =
     (if c = CHR ''<'' then CHR 0x5C # ''u003c'' else if c = CHR ''>'' then CHR 0x5C # ''u003e''
      else if c = CHR ''&'' then CHR 0x5C # ''u0026'' else [c])"

definition quote_html :: "string \<Rightarrow> string" where "quote_html s = concat (map html_char (quote_json s))"

definition break_to :: "nat \<Rightarrow> string" where "break_to d = CHR 0x0A # replicate (2 * d) CHR '' ''"

fun marshal_indent :: "nat \<Rightarrow> json \<Rightarrow> string" where
  "marshal_indent d JNull = ''null''"
| "marshal_indent d (JBool b) = (if b then ''true'' else ''false'')"
| "marshal_indent d (JNum n) = n"
| "marshal_indent d (JStr s) = quote_html s"
| "marshal_indent d (JArr vs) =
     (if vs = [] then ''[]''
      else ''['' @ break_to (Suc d) @ join ('','' @ break_to (Suc d)) (map (marshal_indent (Suc d)) vs) @ break_to d @ '']'')"
| "marshal_indent d (JObj ms) =
     (if ms = [] then ''{}''
      else ''{'' @ break_to (Suc d) @
        join ('','' @ break_to (Suc d)) (map (\<lambda>(k, v). quote_html k @ '': '' @ marshal_indent (Suc d) v) ms) @ break_to d @ ''}'')"

definition Fragment_text :: "Rendered \<Rightarrow> string" where
  "Fragment_text r = (case fragment_doc r of None \<Rightarrow> [] | Some v \<Rightarrow> marshal_indent 0 v @ [CHR 0x0A])"

text \<open>\<open>Normalize\<close> before its printing: the first value, objects by key with the last member of a name, numbers as written.\<close>

fun sort_doc :: "json \<Rightarrow> json" where
  "sort_doc (JArr vs) = JArr (map sort_doc vs)"
| "sort_doc (JObj ms) = JObj (fold (\<lambda>(k, v) m. map_set k v m) (map (\<lambda>(k, v). (k, sort_doc v)) ms) [])"
| "sort_doc v = v"

definition Normalize :: "string \<Rightarrow> json_error + json" where
  "Normalize raw = (case first_value raw of Inl e \<Rightarrow> Inl e | Inr (v, rest) \<Rightarrow> Inr (sort_doc v))"

definition sameJSON :: "string \<Rightarrow> string \<Rightarrow> bool" where
  "sameJSON a b =
     (case (Normalize a, Normalize b) of (Inr x, Inr y) \<Rightarrow> x = y | _ \<Rightarrow> False)"

definition set_raw_entries :: "json \<Rightarrow> json gomap \<times> bool \<Rightarrow> json gomap \<times> bool" where
  "set_raw_entries v t =
     (case v of JObj ms \<Rightarrow> (fold (\<lambda>(k, x) m. map_set k x m) ms (fst t), snd t) | JNull \<Rightarrow> ([], snd t) | _ \<Rightarrow> (fst t, True))"

definition fragmentConstrains :: "string \<Rightarrow> string \<Rightarrow> bool option" where
  "fragmentConstrains raw credential =
     (case unmarshal (set_struct (set_fields [(''standing_constraints'', set_raw_entries)])) raw [] of
        (m, bad) \<Rightarrow> if bad then None else Some (map_has m credential))"

definition overlayPatch :: "string \<Rightarrow> string \<Rightarrow> json \<Rightarrow> json" where
  "overlayPatch version key v =
     JObj ((''data'', JObj [(key, v)]) # (if version \<noteq> [] then [(''metadata'', JObj [(''resourceVersion'', JStr version)])] else []))"

subsection \<open>Writing one key\<close>

definition patch_overlay :: "'s Cluster \<Rightarrow> string \<Rightarrow> string \<Rightarrow> json \<Rightarrow> ('s, unit) govern_action" where
  "patch_overlay cl version key v = run_op GoKube (clPatch cl (overlayPatch version key v))"

definition writeOverlayFragment :: "'s Cluster \<Rightarrow> string \<Rightarrow> string \<Rightarrow> string \<Rightarrow> ('s, unit) govern_action" where
  "writeOverlayFragment cl key fragment version =
     bind (op_action (clGet cl)) (\<lambda>probe.
       case probe of
         KubeFailed \<Rightarrow> throw GoKube
       | KubeMissing \<Rightarrow>
           bind (run_op GoKube (clCreate cl)) (\<lambda>_.
           bind (readOverlay cl) (\<lambda>(data, now). patch_overlay cl now key (JStr fragment)))
       | KubeObject x \<Rightarrow>
           bind (readOverlay cl) (\<lambda>(data, now).
             if now \<noteq> version then throw GoMoved else patch_overlay cl version key (JStr fragment)))"

definition removeOverlayFragment :: "'s Cluster \<Rightarrow> string \<Rightarrow> string \<Rightarrow> ('s, unit) govern_action" where
  "removeOverlayFragment cl key version =
     bind (readOverlay cl) (\<lambda>(data, now).
       if now \<noteq> version then throw GoMoved else patch_overlay cl version key JNull)"

subsection \<open>The command\<close>

definition collision :: "string \<Rightarrow> string \<Rightarrow> string \<times> string \<Rightarrow> govern_error option" where
  "collision key credential frag =
     (case frag of (other, raw) \<Rightarrow>
        if other = key then None
        else case fragmentConstrains raw credential of
               None \<Rightarrow> Some (GoFragment other)
             | Some constrains \<Rightarrow> if constrains then Some (GoCollision other) else None)"

text \<open>Rendered once with the declarations of the blueprint, checked, and rendered with those of the table.\<close>

definition govern_render :: "'s Cluster \<Rightarrow> Blueprint \<Rightarrow> BpValues \<Rightarrow> string gomap \<Rightarrow> ('s, Rendered) govern_action" where
  "govern_render cl b v fragments =
     bind (of_sum (case Render b v [] None of Inl e \<Rightarrow> Inl (GoRender e) | Inr r \<Rightarrow> Inr (Fragment_text r))) (\<lambda>fragment.
     bind (validateWorkflowOverlay cl (if fragment \<noteq> [] then map_set (FragmentKey b) fragment fragments else fragments)) (\<lambda>(upstreams, decl).
     bind (case checkSeams b upstreams decl of None \<Rightarrow> give () | Some e \<Rightarrow> throw (GoSeams e)) (\<lambda>_.
       of_sum (case Render b v [] (Some decl) of Inl e \<Rightarrow> Inl (GoRender e) | Inr r \<Rightarrow> Inr r))))"

datatype plan = PlNothing | PlRemove | PlWrite | PlUnchanged | PlRefuse govern_error

definition govern_plan :: "string option \<Rightarrow> string \<Rightarrow> bool \<Rightarrow> plan" where
  "govern_plan existing fragment replace =
     (case existing of
        None \<Rightarrow> if fragment \<noteq> [] then PlWrite else PlNothing
      | Some e \<Rightarrow>
          if fragment = [] then (if \<not> replace then PlRefuse GoWouldRemove else PlRemove)
          else if sameJSON e fragment \<and> \<not> replace then PlUnchanged
          else if \<not> replace then PlRefuse GoDiffers
          else PlWrite)"

definition govern_apply :: "'s Cluster \<Rightarrow> plan \<Rightarrow> string \<Rightarrow> string \<Rightarrow> string \<Rightarrow> ('s, unit) govern_action" where
  "govern_apply cl plan key fragment version =
     (case plan of
        PlRefuse e \<Rightarrow> throw e
      | PlNothing \<Rightarrow> give ()
      | PlRemove \<Rightarrow> bind (removeOverlayFragment cl key version) (\<lambda>_. rollProxy cl)
      | PlWrite \<Rightarrow> bind (writeOverlayFragment cl key fragment version) (\<lambda>_. rollProxy cl)
      | PlUnchanged \<Rightarrow> noted (op_action (clRollout cl)))"

definition GovernWorkflow ::
  "'s Cluster \<Rightarrow> (string \<Rightarrow> (string \<Rightarrow> bool) option) \<Rightarrow> Blueprint \<Rightarrow> string gomap \<Rightarrow> bool \<Rightarrow> ('s, unit) govern_action" where
  "GovernWorkflow cl compile b vals replace =
     bind (of_sum (case bp_Bind compile b vals [] of Inl ps \<Rightarrow> Inl (GoBind ps) | Inr v \<Rightarrow> Inr v)) (\<lambda>v.
     bind (readOverlay cl) (\<lambda>(fragments, version).
     bind (case check_all (collision (FragmentKey b) (bpCredential b)) fragments of None \<Rightarrow> give () | Some e \<Rightarrow> throw e) (\<lambda>_.
     bind (run_op GoSession (clSession cl)) (\<lambda>_.
     bind (govern_render cl b v fragments) (\<lambda>r.
       (let key = FragmentKey b; fragment = Fragment_text r; plan = govern_plan (map_get fragments key) fragment replace in
        bind (case plan of PlRefuse e \<Rightarrow> throw e | _ \<Rightarrow> give ()) (\<lambda>_.
        bind (run_op GoGuard (clGuard cl)) (\<lambda>_.
        bind (govern_apply cl plan key fragment version) (\<lambda>_.
        bind (run_op GoSession (clSession cl)) (\<lambda>_.
          run_op GoAllowlist (clAllowlist cl (bpCredential b) (rdAllowlist r))))))))))))"

end
