(* ===== verification/BlueprintProps.thy ===== *)
theory BlueprintProps
  imports BlueprintEval Govern Gateway
begin

text \<open>
  Properties of a rendered blueprint against the plane it is applied to: what the plane reads of the
  bounds, which of them it refuses, what it answers to a step, and what a step may be made of.
\<close>

subsection \<open>What the plane reads\<close>

definition plane_literal :: "literal \<Rightarrow> Literal" where
  "plane_literal l = (case l of LString s \<Rightarrow> \<lparr>LitStr = Some s, LitInt = None\<rparr> | LInt n \<Rightarrow> \<lparr>LitStr = None, LitInt = Some n\<rparr>)"

definition plane_constraint :: "RenderedConstraint \<Rightarrow> Constraint" where
  "plane_constraint c = \<lparr>Field = rcField c, Op = rcOp c,
     Value = (if rcValues c = [] then map_option plane_literal (rcValue c) else None), Values = map plane_literal (rcValues c)\<rparr>"

definition plane_bounds :: "RenderedConstraint list gomap gomap \<Rightarrow> Constraint list gomap gomap" where
  "plane_bounds cs = map (\<lambda>(cred, tools). (cred, map (\<lambda>(t, l). (t, map plane_constraint l)) tools)) cs"

definition literal_ok :: "literal \<Rightarrow> bool" where
  "literal_ok l = (case l of LString s \<Rightarrow> True | LInt n \<Rightarrow> int64_ok n)"

definition constraint_ok :: "RenderedConstraint \<Rightarrow> bool" where
  "constraint_ok c \<longleftrightarrow> list_all literal_ok (rcValues c) \<and> (case rcValue c of None \<Rightarrow> True | Some l \<Rightarrow> literal_ok l)"

lemma names_field_self: "names_field f k \<longleftrightarrow> fold_runes k = f"
  by (simp add: names_field_def)

lemma set_literal_json: "literal_ok l \<Longrightarrow> set_literal (literal_json l) (zero_literal, e) = (plane_literal l, e)"
  by (auto simp: set_literal_def literal_json_def plane_literal_def literal_ok_def zero_literal_def parse_int_format split: literal.splits)

lemma set_elems_fresh:
  assumes "\<And>x e. x \<in> set xs \<Longrightarrow> setter (j x) (zero, e) = (t x, e)"
  shows "set_elems setter zero (map j xs) [] e = (map t xs, e)"
  using assms by (induction xs) auto

lemma set_list_fresh:
  assumes "\<And>x e. x \<in> set xs \<Longrightarrow> setter (j x) (zero, e) = (t x, e)"
  shows "set_list setter zero (JArr (map j xs)) ([], e) = (map t xs, e)"
  using assms by (cases xs) (auto simp: set_list_def set_slice_def set_elems_fresh [where j = j and t = t] slice_elems_def)

definition zero_constraint :: Constraint where
  "zero_constraint = \<lparr>Field = [], Op = [], Value = None, Values = []\<rparr>"

lemma set_constraint_json:
  assumes "constraint_ok c"
  shows "set_constraint True (constraint_json c) (zero_constraint, e) = (plane_constraint c, e)"
proof -
  have vs: "set_slice set_literal zero_literal (JArr (map literal_json (rcValues c))) (([], 0), e)
      = ((map plane_literal (rcValues c), length (rcValues c)), e)" for e
  proof -
    have "set_elems set_literal zero_literal (map literal_json (rcValues c)) [] e = (map plane_literal (rcValues c), e)"
      by (rule set_elems_fresh) (use assms in \<open>auto simp: constraint_ok_def list_all_iff set_literal_json\<close>)
    then show ?thesis by (cases "rcValues c") (auto simp: set_slice_def)
  qed
  have f: "fold_runes ''field'' = ''field''" "fold_runes ''op'' = ''op''" "fold_runes ''value'' = ''value''" "fold_runes ''values'' = ''values''"
    by (simp_all add: lower_char_def is_upper_def)
  let ?t = "((\<lparr>Field = [], Op = [], Value = None, Values = []\<rparr>, ([], 0)), e)"
  have ok: "case rcValue c of None \<Rightarrow> True | Some l \<Rightarrow> literal_ok l" using assms by (simp add: constraint_ok_def)
  have nonnull: "literal_json l \<noteq> JNull" for l by (simp add: literal_json_def split: literal.splits)
  show ?thesis
  proof (cases "rcValues c")
    case Nil
    show ?thesis
    proof (cases "rcValue c")
      case None
      then show ?thesis using Nil by (simp add: set_constraint_def constraint_json_def set_struct_def set_members_def names_field_def f
          set_field_def set_string_def set_pointer_def plane_constraint_def zero_constraint_def slice_elems_def del: fold_runes.simps)
    next
      case (Some l)
      then show ?thesis using Nil ok nonnull by (simp add: set_constraint_def constraint_json_def set_struct_def set_members_def names_field_def f
          set_field_def set_string_def set_pointer_def plane_constraint_def zero_constraint_def slice_elems_def set_literal_json del: fold_runes.simps)
    qed
  next
    case (Cons l ls)
    have ne: "rcValues c \<noteq> []" using Cons by simp
    show ?thesis by (simp add: set_constraint_def constraint_json_def set_struct_def set_members_def names_field_def f ne
        set_field_def set_string_def plane_constraint_def zero_constraint_def slice_elems_def vs del: fold_runes.simps)
  qed
qed

lemma fold_entries:
  assumes "map_wf (map (\<lambda>(k, x). (k, t x)) acc @ map (\<lambda>(k, x). (k, t x)) ms)"
    and "\<And>k x e. (k, x) \<in> set ms \<Longrightarrow> setter (j x) (zero, e) = (t x, e)"
  shows "fold (\<lambda>(k, x) (m, e). case setter x (zero, e) of (y, e1) \<Rightarrow> (map_set k y m, e1)) (map (\<lambda>(k, x). (k, j x)) ms)
      (map (\<lambda>(k, x). (k, t x)) acc, e) = (map (\<lambda>(k, x). (k, t x)) (acc @ ms), e)"
  using assms
proof (induction ms arbitrary: acc)
  case (Cons kx ms)
  obtain k x where kx: "kx = (k, x)" by fastforce
  have "\<forall>k' \<in> set (map fst (map (\<lambda>(k, x). (k, t x)) acc)). k' < k"
    using Cons.prems(1) kx by (auto simp: map_wf_def sorted_wrt_append)
  then have "map_set k (t x) (map (\<lambda>(k, x). (k, t x)) acc) = map (\<lambda>(k, x). (k, t x)) (acc @ [(k, x)])"
    by (simp add: map_set_last)
  moreover have "fold (\<lambda>(k, x) (m, e). case setter x (zero, e) of (y, e1) \<Rightarrow> (map_set k y m, e1)) (map (\<lambda>(k, x). (k, j x)) ms)
      (map (\<lambda>(k, x). (k, t x)) (acc @ [(k, x)]), e) = (map (\<lambda>(k, x). (k, t x)) ((acc @ [(k, x)]) @ ms), e)"
    by (rule Cons.IH) (use Cons.prems kx in auto)
  ultimately show ?case using Cons.prems(2) [of k x] kx by simp
qed simp

lemma set_map_fresh:
  assumes "map_wf ms" "\<And>k x e. (k, x) \<in> set ms \<Longrightarrow> setter (j x) (zero, e) = (t x, e)"
  shows "set_map setter zero (JObj (map (\<lambda>(k, x). (k, j x)) ms)) ([], e) = (map (\<lambda>(k, x). (k, t x)) ms, e)"
proof -
  have "map_wf (map (\<lambda>(k, x). (k, t x)) ms)" using assms(1) by (simp add: map_wf_def comp_def case_prod_unfold)
  then show ?thesis using fold_entries [of t "[]" ms setter j zero e] assms(2) by (simp add: set_map_def)
qed

subsection \<open>What is rendered\<close>

lemma toAny_ok: "toAny i ss = Inr ls \<Longrightarrow> list_all literal_ok ls \<and> length ls = length ss"
proof (induction ss arbitrary: ls)
  case (Cons s ss)
  then show ?case using parse_int_range [of s] by (auto simp: literal_ok_def split: if_splits option.splits sum.splits)
qed simp

lemma literalList_ok:
  assumes "literalList v c = Inr ls" "values_ok ps v"
  shows "list_all literal_ok ls \<and> ls \<noteq> []"
proof -
  have parts: "list_all literal_ok ls \<and> ls \<noteq> []" if "literal_parts v c e = Inr ls" for e
    using that toAny_ok [of "bcLiteral c = LiteralInt"]
    by (fastforce simp: literal_parts_def Let_def split: sum.splits if_splits)
  have ints: "list_all literal_ok (map LInt ns) \<and> ns \<noteq> []" if "map_get (vaInts v) r = Some ns" for r ns
    using assms(2) that by (auto simp: values_ok_def list_all_iff literal_ok_def)
  have strs: "list_all literal_ok ls \<and> ls \<noteq> []" if "map_get (vaStrs v) r = Some ss" "toAny b ss = Inr ls" for r ss b
    using assms(2) that toAny_ok [of b ss ls] by (auto simp: values_ok_def)
  show ?thesis using assms(1) parts ints strs
    by (auto simp: literalList_def Let_def split: list.splits if_splits option.splits bool.splits)
qed

lemma render_constraint_ok:
  assumes "render_constraint v c = Inr rc" "values_ok ps v"
  shows "rcField rc = bcField c" "rcOp rc = bcOp c" "constraint_ok rc"
    "bcOp c = ''in'' \<or> bcOp c = ''not_in'' \<Longrightarrow> rcValue rc = None \<and> rcValues rc \<noteq> []"
    "bcOp c \<noteq> ''in'' \<Longrightarrow> bcOp c \<noteq> ''not_in'' \<Longrightarrow> rcValues rc = [] \<and> (\<exists>l. rcValue rc = Some l \<and> ((\<exists>n. l = LInt n) \<longleftrightarrow> as_int c))"
proof -
  note r = assms(1) [unfolded render_constraint_def Let_def]
  show "rcField rc = bcField c" "rcOp rc = bcOp c" using r by (auto split: if_splits sum.splits option.splits)
  show "bcOp c = ''in'' \<or> bcOp c = ''not_in'' \<Longrightarrow> rcValue rc = None \<and> rcValues rc \<noteq> []"
    using r literalList_ok [OF _ assms(2)] by (auto split: sum.splits)
  show "bcOp c \<noteq> ''in'' \<Longrightarrow> bcOp c \<noteq> ''not_in'' \<Longrightarrow> rcValues rc = [] \<and> (\<exists>l. rcValue rc = Some l \<and> ((\<exists>n. l = LInt n) \<longleftrightarrow> as_int c))"
    using r by (auto split: if_splits sum.splits option.splits)
  show "constraint_ok rc"
  proof (cases "bcOp c = ''in'' \<or> bcOp c = ''not_in''")
    case True
    then show ?thesis using r literalList_ok [OF _ assms(2)] by (auto simp: constraint_ok_def split: sum.splits)
  next
    case False
    then show ?thesis using r parse_int_range by (auto simp: constraint_ok_def literal_ok_def split: if_splits sum.splits option.splits)
  qed
qed

text \<open>The rendered bounds: keyed in order, never empty, each from a rule of a seam.\<close>

definition rendered_from :: "BpValues \<Rightarrow> Seam gomap \<Rightarrow> string \<Rightarrow> RenderedConstraint \<Rightarrow> bool" where
  "rendered_from v seams t rc \<longleftrightarrow> (\<exists>n seam cs c. (n, seam) \<in> set seams \<and> (t, cs) \<in> set (seBound seam) \<and> c \<in> set cs \<and>
     render_constraint v c = Inr rc)"

definition tools_ok :: "BpValues \<Rightarrow> Seam gomap \<Rightarrow> RenderedConstraint list gomap \<Rightarrow> bool" where
  "tools_ok v seams tools \<longleftrightarrow> map_wf tools \<and> (\<forall>t l. (t, l) \<in> set tools \<longrightarrow> l \<noteq> [] \<and> (\<forall>rc \<in> set l. rendered_from v seams t rc))"

lemma set_map_set_subset: "set (map_set k x m) \<subseteq> insert (k, x) (set m)"
  by (induction k x m rule: map_set.induct) auto

lemma render_seams_ok:
  assumes "render_seams v seams = Inr tools"
  shows "tools_ok v seams tools"
proof (rule foldM_keeps [OF assms [unfolded render_seams_def]])
  show "tools_ok v seams []" by (simp add: tools_ok_def)
  fix x m m' assume x: "x \<in> set seams" and m: "tools_ok v seams m"
    and f: "(case x of (n, seam) \<Rightarrow> foldM (render_bound v) (seBound seam)) m = Inr m'"
  obtain n seam where ns: "x = (n, seam)" by fastforce
  have "foldM (render_bound v) (seBound seam) m = Inr m'" using f ns by simp
  then show "tools_ok v seams m'"
  proof (rule foldM_keeps)
    fix y k k' assume y: "y \<in> set (seBound seam)" and k: "tools_ok v seams k" and g: "render_bound v y k = Inr k'"
    obtain tool cs where y2: "y = (tool, cs)" by fastforce
    obtain out where out: "renderConstraints v tool cs = Inr out" "k' = (if out \<noteq> [] then map_set tool out k else k)"
      using g y2 by (auto simp: render_bound_def split: sum.splits)
    have "render_list (render_constraint v) (filter (applies v) cs) = Inr out"
      using out(1) by (auto simp: renderConstraints_def split: sum.splits if_splits)
    then have "\<forall>rc \<in> set out. \<exists>c \<in> set cs. render_constraint v c = Inr rc" using render_list_in by fastforce
    then have from_seam: "\<forall>rc \<in> set out. rendered_from v seams tool rc"
      using x y y2 ns unfolding rendered_from_def by blast
    show "tools_ok v seams k'"
    proof (cases "out = []")
      case False
      have "l \<noteq> [] \<and> (\<forall>rc \<in> set l. rendered_from v seams t rc)" if "(t, l) \<in> set (map_set tool out k)" for t l
        using that set_map_set_subset [of tool out k] False from_seam k unfolding tools_ok_def by blast
      then show ?thesis using k map_wf_set [of k tool out] False out(2) unfolding tools_ok_def by simp
    qed (use k out(2) in simp)
  qed (rule m)
qed

lemma Render_bounds:
  assumes "Render b v steps decl = Inr r"
  obtains tools where "tools_ok v (bpSeams b) tools" "rdAllowlist r = seam_tools (bpSeams b)"
    "rdConstraints r = (if tools \<noteq> [] then [(bpCredential b, tools)] else [])"
    "\<And>t. map_has tools t \<Longrightarrow> \<exists>(n, seam) \<in> set (bpSeams b). map_has (seBound seam) t"
proof -
  obtain tools where t: "render_seams v (bpSeams b) = Inr tools"
    and r: "rdAllowlist r = seam_tools (bpSeams b)" "rdConstraints r = (if tools \<noteq> [] then [(bpCredential b, tools)] else [])"
    using assms by (auto simp: Render_def render_blueprint_def split: sum.splits)
  show thesis by (rule that [OF render_seams_ok [OF t] r render_seams_keys [OF t]])
qed

subsection \<open>The bounds in the plane\<close>

text \<open>
  C18: The bounds a blueprint renders to from an operator's values are what the plane reads from the
  fragment written of them: a table of that document alone holds exactly these constraints, each
  field, operator and literal as rendered, integers as integers, and nothing else.
\<close>

theorem the_plane_reads_the_bounds_as_rendered:
  assumes "bp_Bind compile b vals running = Inr v" "Render b v steps decl = Inr r" "fragment_doc r = Some doc"
  shows "config_of doc = Some (zero_config\<lparr>cfStandingConstraints := plane_bounds (rdConstraints r)\<rparr>)"
proof -
  have vo: "values_ok (bpParameters b) v" by (rule bp_Bind_ok [OF assms(1)])
  obtain tools where t: "tools_ok v (bpSeams b) tools" "rdConstraints r = (if tools \<noteq> [] then [(bpCredential b, tools)] else [])"
    using Render_bounds [OF assms(2)] by blast
  have ne: "tools \<noteq> []" "rdConstraints r = [(bpCredential b, tools)]" using assms(3) t(2) by (auto simp: fragment_doc_def split: if_splits)
  have doc: "doc = JObj [(''standing_constraints'', constraintsJSON (rdConstraints r))]"
    using assms(3) by (auto simp: fragment_doc_def split: if_splits)
  have ok: "constraint_ok rc" if "(tool, l) \<in> set tools" "rc \<in> set l" for tool l rc
    using t(1) that render_constraint_ok(3) [OF _ vo] unfolding tools_ok_def rendered_from_def by blast
  let ?rules = "\<lambda>l. JArr (map constraint_json l)" and ?tools = "\<lambda>ts. JObj (map (\<lambda>(k, l). (k, JArr (map constraint_json l))) ts)"
  have rules: "set_list (set_constraint True) zero_constraint (?rules l) ([], e) = (map plane_constraint l, e)"
    if "(tool, l) \<in> set tools" for tool l e
    by (rule set_list_fresh) (rule set_constraint_json [OF ok [OF that]])
  have "set_map (set_list (set_constraint True) zero_constraint) [] (?tools tools) ([], e)
      = (map (\<lambda>(k, l). (k, map plane_constraint l)) tools, e)" for e
    by (rule set_map_fresh) (use t(1) rules in \<open>auto simp: tools_ok_def\<close>)
  then have all: "set_map (set_map (set_list (set_constraint True) zero_constraint) []) [] (constraintsJSON (rdConstraints r)) ([], e)
      = (plane_bounds (rdConstraints r), e)" for e
    by (simp add: ne constraintsJSON_def plane_bounds_def set_map_def)
  have f: "fold_runes ''standing_constraints'' = ''standing_constraints''" by (simp add: lower_char_def is_upper_def)
  show ?thesis using all by (simp add: config_of_def doc set_struct_def set_members_def config_fields_def names_field_def f
      set_field_def zero_config_def zero_constraint_def del: fold_runes.simps)
qed

theorem the_plane_reads_the_bounds_as_rendered_witness:
  "\<exists>doc. fragment_doc demo_run = Some doc \<and>
    config_of doc = Some (zero_config\<lparr>cfStandingConstraints := [(''rel'', [(''run'',
      [\<lparr>Field = ''id'', Op = ''in'', Value = None, Values = [\<lparr>LitStr = None, LitInt = Some 7\<rparr>]\<rparr>])])]\<rparr>)"
proof -
  obtain doc where doc: "fragment_doc demo_run = Some doc" by (simp add: fragment_doc_def demo_run_def)
  have "config_of doc = Some (zero_config\<lparr>cfStandingConstraints := plane_bounds (rdConstraints demo_run)\<rparr>)"
    by (rule the_plane_reads_the_bounds_as_rendered [OF demo_bound [where compile = "\<lambda>_. None"] demo_rendered doc])
  moreover have "plane_bounds (rdConstraints demo_run) = [(''rel'', [(''run'',
      [\<lparr>Field = ''id'', Op = ''in'', Value = None, Values = [\<lparr>LitStr = None, LitInt = Some 7\<rparr>]\<rparr>])])]"
    by (simp add: plane_bounds_def demo_run_def plane_constraint_def demo_rule_def plane_literal_def)
  ultimately show ?thesis using doc by simp
qed

text \<open>
  C38: Of the bounds a blueprint may state, the plane's own check refuses exactly a comparison of
  integers whose literal is declared text. Such a rule passes every check of the blueprint and takes
  the whole table down at the plane.
\<close>

theorem a_bound_is_refused_for_a_text_literal_alone:
  assumes "bp_validateConstraint b c fs = None" "render_constraint v c = Inr rc" "values_ok ps v"
  shows "Policy.validateConstraint credential tool (plane_constraint rc) fs = None \<longleftrightarrow>
    \<not> (bp_numericOps (bcOp c) \<and> bcLiteral c = LiteralString)"
proof -
  note rc = render_constraint_ok [OF assms(2,3)]
  have f: "containsString fs (bcField c)" and op: "bcOp c \<in> set ConstraintOps"
    using assms(1) by (auto simp: bp_validateConstraint_def Let_def first_refusal_None)
  show ?thesis
  proof (cases "bcOp c = ''in'' \<or> bcOp c = ''not_in''")
    case True
    then show ?thesis using f rc(1,2) rc(4)
      by (auto simp: validateConstraint_def plane_constraint_def op_defs bp_numericOps_def)
  next
    case False
    then obtain l where l: "rcValues rc = []" "rcValue rc = Some l" "(\<exists>n. l = LInt n) \<longleftrightarrow> as_int c" using rc(5) by blast
    then have "LitInt (plane_literal l) \<noteq> None \<longleftrightarrow> as_int c" by (auto simp: plane_literal_def split: literal.splits)
    then show ?thesis using f rc(1,2) False l(1,2) op
      by (auto simp: validateConstraint_def plane_constraint_def op_defs numericOps_def bp_numericOps_def ConstraintOps_def as_int_def)
  qed
qed

definition text_bound :: BpConstraint where
  "text_bound = \<lparr>bcField = ''n'', bcOp = ''lt'', bcValue = ''5'', bcValues = [], bcWhen = [], bcLiteral = ''string'', bcValuesSet = False\<rparr>"

theorem a_bound_is_refused_for_a_text_literal_alone_witness:
  "bp_validateConstraint demo_blueprint text_bound [''n''] = None \<and>
    (\<exists>rc. render_constraint demo_values text_bound = Inr rc \<and>
      Policy.validateConstraint ''rel'' ''run'' (plane_constraint rc) [''n''] \<noteq> None)"
proof -
  have v: "bp_validateConstraint demo_blueprint text_bound [''n''] = None"
    by (simp add: bp_validateConstraint_def text_bound_def refuse_def name_eval ConstraintOps_def check_all_def ref_eval LiteralString_def)
  obtain rc where rc: "render_constraint demo_values text_bound = Inr rc"
    by (simp add: render_constraint_def text_bound_def substitute_def expand_def ref_eval as_int_def LiteralString_def)
  have "values_ok (bpParameters demo_blueprint) demo_values" by (rule bp_Bind_ok [OF demo_bound [where compile = "\<lambda>_. None"]])
  from a_bound_is_refused_for_a_text_literal_alone [OF v rc this, of "''rel''" "''run''"] show ?thesis
    using v rc by (auto simp: text_bound_def bp_numericOps_def LiteralString_def)
qed

lemma accepted_posture:
  assumes "bp_Parse decode compile raw = Inr b" "s \<in> set (bpSteps b)" "(n, seam) \<in> set (bpSeams b)" "stCall s = Some c"
    and "stKind s = KindConsequential \<or> stKind s = KindBounded"
  shows "caTool c \<notin> set (seAllow seam) \<and> (stKind s = KindConsequential \<longrightarrow> \<not> map_has (seBound seam) (caTool c))"
proof -
  obtain b0 captured where b0: "b = fill_requires b0" "step_posture b0 s = None" by (rule accepted_step [OF assms(1,2)])
  obtain seam0 where "(n, seam0) \<in> set (bpSeams b0)" and same: "seAllow seam = seAllow seam0" "seBound seam = seBound seam0"
    using fill_requires_seam [OF assms(3) [unfolded b0(1)]] by blast
  then have "check_posture s c (n, seam0) = None" using b0(2) assms(4) by (auto simp: step_posture_def first_refusal_None check_all_None)
  then show ?thesis using assms(5) same
    by (auto simp: check_posture_def Let_def first_refusal_None kind_defs split: if_splits)
qed

text \<open>
  C13: In an accepted blueprint a step with consequences is admitted by nothing but a human: under the
  allowlist and the bounds rendered with it the plane's standing admission refuses every call of its
  tool, so the call waits for a grant. A bounded step's tool is never on the allowlist.
\<close>

theorem a_step_with_consequences_waits_for_a_human:
  assumes "bp_Parse decode compile raw = Inr b" "Render b v steps decl = Inr r" "rs \<in> set (rdSteps r)"
  shows "(rsKind rs = KindConsequential \<longrightarrow>
      standing_admission \<lparr>declared = d, constraints = plane_bounds (rdConstraints r)\<rparr> (bpCredential b) (rsTool rs) args (rdAllowlist r)
        = NotAdmitted []) \<and>
    (rsKind rs = KindBounded \<longrightarrow> rsTool rs \<notin> set (rdAllowlist r))"
proof -
  obtain s item where s: "s \<in> set (bpSteps b)" "render_item (bpSeams b) decl v s item = Inr rs"
    by (rule rendered_step [OF assms(2,3)])
  obtain b0 captured where b0: "b = fill_requires b0" "validateStepShape b0 s = None" "step_posture b0 s = None"
    by (rule accepted_step [OF assms(1) s(1)])
  have kind: "rsKind rs = stKind s" by (rule render_item_kind(1) [OF s(2)])
  have call: "\<exists>c. stCall s = Some c \<and> rsTool rs = caTool c" if "rsKind rs = KindConsequential \<or> rsKind rs = KindBounded"
    using that b0(2) kind render_item_call(2) [OF s(2)]
    by (cases "stCall s") (auto simp: validateStepShape_def first_refusal_None kind_defs split: if_splits)
  note seam = accepted_posture [OF assms(1) s(1)]
  obtain tools where t: "rdAllowlist r = seam_tools (bpSeams b)" "rdConstraints r = (if tools \<noteq> [] then [(bpCredential b, tools)] else [])"
    "\<And>t. map_has tools t \<Longrightarrow> \<exists>(n, seam) \<in> set (bpSeams b). map_has (seBound seam) t"
    using Render_bounds [OF assms(2)] by metis
  have list: "rsTool rs \<notin> set (rdAllowlist r)" if k: "rsKind rs = KindConsequential \<or> rsKind rs = KindBounded"
  proof
    assume "rsTool rs \<in> set (rdAllowlist r)"
    then obtain n seam where "(n, seam) \<in> set (bpSeams b)" "rsTool rs \<in> set (seAllow seam)" unfolding t(1) in_seam_tools by blast
    then show False using call [OF k] seam k kind by metis
  qed
  have "standing_admission \<lparr>declared = d, constraints = plane_bounds (rdConstraints r)\<rparr> (bpCredential b) (rsTool rs) args (rdAllowlist r)
      = NotAdmitted []" if k: "rsKind rs = KindConsequential"
  proof -
    have "\<not> map_has tools (rsTool rs)"
    proof
      assume "map_has tools (rsTool rs)"
      then obtain n sm where "(n, sm) \<in> set (bpSeams b)" "map_has (seBound sm) (rsTool rs)" using t(3) by blast
      moreover obtain c where "stCall s = Some c" "rsTool rs = caTool c" using call k by blast
      ultimately show False using seam [of n sm c] k kind by simp
    qed
    then have "map_get (map (\<lambda>(t, l). (t, map plane_constraint l)) tools) (rsTool rs) = None"
      by (auto simp: map_get_def map_has_def map_of_eq_None_iff image_iff)
    then have "Policy.Constraints \<lparr>declared = d, constraints = plane_bounds (rdConstraints r)\<rparr> (bpCredential b) (rsTool rs) = ([], False)"
      unfolding t(2) Constraints_def plane_bounds_def by (simp add: map_get_def)
    then show ?thesis using list k by (simp add: standing_admission_def)
  qed
  then show ?thesis using list by blast
qed

theorem a_step_with_consequences_waits_for_a_human_witness:
  "standing_admission \<lparr>declared = [], constraints = plane_bounds (rdConstraints demo_run)\<rparr> ''rel'' ''tag'' [] (rdAllowlist demo_run)
    = NotAdmitted []"
proof -
  have "demo_rendered_step ''cut'' KindConsequential ''tag'' ''name'' ''v1'' \<in> set (rdSteps demo_run)" by (simp add: demo_run_def)
  from a_step_with_consequences_waits_for_a_human
    [OF demo_parsed [where compile = "\<lambda>_. None"] demo_rendered this, of "[]" "[]"]
  show ?thesis by (simp add: demo_rendered_step_def demo_blueprint_def)
qed

subsection \<open>What an argument is made of\<close>

fun filled :: "(string \<Rightarrow> string) \<Rightarrow> segment list \<Rightarrow> string" where
  "filled f [] = []"
| "filled f (Lit c # s) = c # filled f s"
| "filled f (Ref r # s) = f r @ filled f s"

lemma expand_segments_filled:
  assumes "expand_segments v item loose segs = Inr t"
    and "\<And>r x. r \<in> set (seg_refs segs) \<Longrightarrow> resolve v item loose r = Some x \<Longrightarrow> f r = x \<and> P r"
  shows "t = filled f segs \<and> (\<forall>r \<in> set (seg_refs segs). P r)"
  using assms
proof (induction segs arbitrary: t rule: seg_refs.induct)
  case (2 r segs)
  then obtain x u where x: "resolve v item loose r = Some x" "expand_segments v item loose segs = Inr u" "t = x @ u"
    by (auto split: option.splits sum.splits)
  have "u = filled f segs \<and> (\<forall>r \<in> set (seg_refs segs). P r)" by (rule "2.IH" [OF x(2)]) (use "2.prems"(2) in auto)
  then show ?case using x "2.prems"(2) [of r x] by auto
next
  case (3 c segs)
  then obtain u where u: "expand_segments v item loose segs = Inr u" "t = c # u" by (auto split: sum.splits)
  have "u = filled f segs \<and> (\<forall>r \<in> set (seg_refs segs). P r)" by (rule "3.IH" [OF u(1)]) (use "3.prems"(2) in auto)
  then show ?case using u by auto
qed simp

lemma sub_map_entry:
  assumes "sub_map sub m = Inr out" "(k, x) \<in> set out"
  shows "\<exists>s. (k, s) \<in> set m \<and> sub s = Inr x"
  using render_list_in [OF assms(1) [unfolded sub_map_def] assms(2)] by (auto split: sum.splits)

lemma param_name_no_dot: "paramNameRE n \<Longrightarrow> cut_dot n = (n, [])"
proof -
  assume n: "paramNameRE n"
  then obtain c cs where "n = c # cs" "is_lower c" "list_all (\<lambda>x. lower_digit x \<or> x = CHR ''_'') cs"
    by (cases n) (auto simp: paramNameRE_def class_len_def)
  moreover have "\<not> is_lower CHR ''.''" "\<not> lower_digit CHR ''.''" by (simp_all add: is_lower_def lower_digit_def is_digit_def)
  ultimately have "CHR ''.'' \<notin> set n" by (auto simp: list_all_iff)
  then show ?thesis by (simp add: cut_dot_def cut_at_def)
qed

text \<open>
  C19: Every argument of a rendered call, which is what a request is filed for, is a template of the
  blueprint in which each reference stands for one text of the operator's: the element of the list a
  step is repeated over, or the bound value of a scalar parameter. Nothing an agent replied is in it,
  and no list is joined into it.
\<close>

theorem an_argument_holds_only_the_operators_values:
  assumes "bp_Parse decode compile raw = Inr b" "map_wf (bpParameters b)" "bp_Bind compile b vals running = Inr v"
    and "Render b v steps decl = Inr r" "rs \<in> set (rdSteps r)" "(arg, x) \<in> set (rsArgs rs)"
  shows "\<exists>s \<in> set (bpSteps b). \<exists>c template item. stCall s = Some c \<and> (arg, template) \<in> set (caArgs c) \<and>
    (item \<noteq> [] \<longrightarrow> (\<exists>xs. Items v (stForEach s) = Some xs \<and> item \<in> set xs)) \<and>
    (\<forall>ref \<in> set (references template). if ref = itemRef then item \<noteq> [] else map_get (vaScalars v) ref \<noteq> None) \<and>
    x = filled (\<lambda>ref. if ref = itemRef then item else the (map_get (vaScalars v) ref)) (segments template)"
proof -
  obtain s item where s: "s \<in> set (bpSteps b)" "render_item (bpSeams b) decl v s item = Inr rs"
    "stForEach s = [] \<longrightarrow> item = []" "stForEach s \<noteq> [] \<longrightarrow> (\<exists>xs. Items v (stForEach s) = Some xs \<and> item \<in> set xs)"
    by (rule rendered_step [OF assms(4,5)])
  obtain b0 captured where b0: "b = fill_requires b0" "validateStepReferences b0 s captured = None" "validateParameters compile b0 = None"
    by (rule accepted_step [OF assms(1) s(1)])
  obtain c where c: "stCall s = Some c" using render_item_kind(2) [OF s(2)] assms(6) by (cases "stCall s") auto
  obtain t where t: "(arg, t) \<in> set (caArgs c)" "substitute v t item = Inr x"
    using sub_map_entry [OF render_item_call(3) [OF s(2) c] assms(6)] by blast
  let ?ps = "bpParameters b0"
  have ps: "bpParameters b = ?ps" by (simp add: b0(1))
  have vo: "values_ok ?ps v" using bp_Bind_ok [OF assms(3)] ps by simp
  have ref_ok: "check_arg_ref b0 (stForEach s \<noteq> []) arg ref = None" if "ref \<in> set (references t)" for ref
    using b0(2) c t(1) that by (force simp: validateStepReferences_def Let_def first_refusal_None check_all_None)
  have list_ref: "Items v ref = None" if "ref \<in> set (references t)" "ref \<noteq> itemRef" for ref
  proof (rule ccontr)
    assume "Items v ref \<noteq> None"
    then obtain p where p: "(ref, p) \<in> set ?ps" "is_list_type (paType p)"
      using Items_param [OF vo] by blast
    have "validateParameter compile b0 (ref, p) = None" using b0(3) p(1) by (simp add: validateParameters_def check_all_None)
    then have "paramNameRE ref" by (simp add: validateParameter_def first_refusal_None)
    then have "cut_dot ref = (ref, [])" by (rule param_name_no_dot)
    moreover have "map_get ?ps ref = Some p" using p(1) map_wf_distinct [OF assms(2)] ps by (simp add: map_get_def)
    ultimately show False using ref_ok [OF that(1)] that(2) p(2) by (auto simp: check_arg_ref_def first_refusal_None split: if_splits)
  qed
  let ?f = "\<lambda>ref. if ref = itemRef then item else the (map_get (vaScalars v) ref)"
  let ?P = "\<lambda>ref. if ref = itemRef then item \<noteq> [] else map_get (vaScalars v) ref \<noteq> None"
  have e: "expand_segments v item False (segments t) = Inr x"
    using t(2) by (auto simp: substitute_def expand_def split: sum.splits)
  have "x = filled ?f (segments t) \<and> (\<forall>ref \<in> set (seg_refs (segments t)). ?P ref)"
  proof (rule expand_segments_filled [OF e])
    fix ref y assume r: "ref \<in> set (seg_refs (segments t))" and y: "resolve v item False ref = Some y"
    have in_t: "ref \<in> set (references t)" using r by (simp add: references_def)
    have "\<not> has_prefix ref capturePrefix" using ref_ok [OF in_t] by (simp add: check_arg_ref_def first_refusal_None)
    then show "?f ref = y \<and> ?P ref" using y list_ref [OF in_t] by (auto simp: resolve_def split: if_splits option.splits)
  qed
  moreover have "item \<noteq> [] \<longrightarrow> (\<exists>xs. Items v (stForEach s) = Some xs \<and> item \<in> set xs)" using s(3,4) by auto
  ultimately show ?thesis using s(1) c t(1) unfolding references_def by blast
qed

theorem an_argument_holds_only_the_operators_values_witness:
  "\<exists>s \<in> set (bpSteps demo_blueprint). \<exists>c template item. stCall s = Some c \<and> (''name'', template) \<in> set (caArgs c) \<and>
    ''v1'' = filled (\<lambda>ref. if ref = itemRef then item else the (map_get (vaScalars demo_values) ref)) (segments template)"
proof -
  have s: "demo_rendered_step ''cut'' KindConsequential ''tag'' ''name'' ''v1'' \<in> set (rdSteps demo_run)" by (simp add: demo_run_def)
  have "(''name'', ''v1'') \<in> set (rsArgs (demo_rendered_step ''cut'' KindConsequential ''tag'' ''name'' ''v1''))"
    by (simp add: demo_rendered_step_def)
  from an_argument_holds_only_the_operators_values [OF demo_parsed [where compile = "\<lambda>_. None"] demo_wf
      demo_bound [where compile = "\<lambda>_. None"] demo_rendered s this]
  show ?thesis by blast
qed

end
