(* ===== verification/WorkflowFlow.thy ===== *)
theory WorkflowFlow
  imports Workflow
begin

text \<open>
  The driver over a world that keeps a trace of its operations, newest first, with their answers,
  and the rules that bound what an action adds to the trace.
\<close>

subsection \<open>The trace\<close>

datatype run_event =
    EvGrants "grant_view list option"
  | EvPending "pending_view list option"
  | EvAudit "audit_view list option"
  | EvRequest string string "json gomap" bool
  | EvAsk string string
  | EvCommand string "string list" "string gomap"
  | EvCapture string "string list"
  | EvWrite string string
  | EvSecret string string
  | EvSeam string
  | EvAnnotate string
  | EvSleep int

type_synonym 's traced = "'s \<times> run_event list"

definition log_op :: "('a \<Rightarrow> run_event) \<Rightarrow> ('s \<Rightarrow> 'a \<times> 's) \<Rightarrow> 's traced \<Rightarrow> 'a \<times> 's traced" where
  "log_op ev f w = (case f (fst w) of (x, w1) \<Rightarrow> (x, (w1, ev x # snd w)))"

definition traced :: "'s Driver \<Rightarrow> 's traced Driver" where
  "traced dv = \<lparr>
     dvGrants = (\<lambda>c. log_op EvGrants (dvGrants dv c)),
     dvPending = log_op EvPending (dvPending dv),
     dvAudit = (\<lambda>c. log_op EvAudit (dvAudit dv c)),
     dvRequest = (\<lambda>c k t a. log_op (EvRequest c t a) (dvRequest dv c k t a)),
     dvAskAgent = (\<lambda>a p. log_op (\<lambda>_. EvAsk a p) (dvAskAgent dv a p)),
     dvLookPath = (\<lambda>n w. dvLookPath dv n (fst w)),
     dvCommand = (\<lambda>c a e. log_op (\<lambda>_. EvCommand c a e) (dvCommand dv c a e)),
     dvCapture = (\<lambda>c a. log_op (\<lambda>_. EvCapture c a) (dvCapture dv c a)),
     dvScripts = (\<lambda>n w. dvScripts dv n (fst w)),
     dvPath = dvPath dv,
     dvWriteFile = (\<lambda>p t. log_op (\<lambda>_. EvWrite p t) (dvWriteFile dv p t)),
     dvApplySecret = (\<lambda>n k x. log_op (\<lambda>_. EvSecret n k) (dvApplySecret dv n k x)),
     dvSeamStatus = (\<lambda>n. log_op (\<lambda>_. EvSeam n) (dvSeamStatus dv n)),
     dvAnnotate = (\<lambda>n w. (dvAnnotate dv n (fst w), EvAnnotate n # snd w)),
     dvNow = (\<lambda>w. dvNow dv (fst w)),
     dvSleep = (\<lambda>n w. (dvSleep dv n (fst w), EvSleep n # snd w))\<rparr>"

definition trace :: "'s traced workflowRun \<Rightarrow> run_event list" where "trace r = snd (wrWorld r)"

subsection \<open>What an action adds\<close>

definition adds :: "(run_event \<Rightarrow> bool) \<Rightarrow> ('s traced, 'a) run_action \<Rightarrow> bool" where
  "adds K m \<longleftrightarrow> (\<forall>r x r'. m r = (x, r') \<longrightarrow> (\<exists>evs. trace r' = evs @ trace r \<and> list_all K evs))"

lemma addsD: "adds K m \<Longrightarrow> m r = (x, r') \<Longrightarrow> \<exists>evs. trace r' = evs @ trace r \<and> list_all K evs"
  by (simp add: adds_def)

named_theorems adds_rules

lemma adds_none [adds_rules]:
  "adds K (give x)" "adds K (throw e)" "adds K (of_sum z)" "adds K (refuse_if bad e)" "adds K (or_fail e p)" "adds K (look f)"
  by (auto simp: adds_def action_defs look_def split: option.splits if_splits)

lemma adds_bind_result:
  assumes "adds K m" "\<And>x r r1. m r = (Inr x, r1) \<Longrightarrow> adds K (f x)"
  shows "adds K (bind m f)"
  unfolding adds_def
proof (intro allI impI)
  fix r x r' assume b: "bind m f r = (x, r')"
  obtain y r1 where m: "m r = (y, r1)" by fastforce
  obtain e1 where e1: "trace r1 = e1 @ trace r" "list_all K e1" using addsD [OF assms(1) m] by blast
  show "\<exists>evs. trace r' = evs @ trace r \<and> list_all K evs"
  proof (cases y)
    case (Inl e)
    then show ?thesis using b m e1 by (auto simp: bind_def)
  next
    case (Inr z)
    then have "adds K (f z)" "f z r1 = (x, r')" using b m assms(2) by (simp_all add: bind_def)
    then obtain e2 where "trace r' = e2 @ trace r1" "list_all K e2" using addsD by blast
    then show ?thesis using e1 by (intro exI [of _ "e2 @ e1"]) simp
  qed
qed

lemma adds_bind [adds_rules]: "adds K m \<Longrightarrow> (\<And>x. adds K (f x)) \<Longrightarrow> adds K (bind m f)"
  by (rule adds_bind_result)

lemma adds_world [adds_rules]: "(\<And>x. K (ev x)) \<Longrightarrow> adds K (world (log_op ev f))"
  by (auto simp: adds_def world_def log_op_def trace_def split: prod.splits)

lemma adds_sleep [adds_rules]:
  "K (EvSleep n) \<Longrightarrow> adds K (world (\<lambda>w. ((), dvSleep (traced dv) n w)))"
  by (auto simp: adds_def world_def traced_def trace_def)

lemma adds_if [adds_rules]: "adds K m \<Longrightarrow> adds K m' \<Longrightarrow> adds K (if c then m else m')"
  by simp

lemma adds_for_all: "(\<And>x. x \<in> set xs \<Longrightarrow> adds K (f x)) \<Longrightarrow> adds K (for_all f xs)"
  by (induction xs) (auto intro!: adds_rules)

lemma traced_sel [simp]:
  "dvGrants (traced dv) c = log_op EvGrants (dvGrants dv c)" "dvPending (traced dv) = log_op EvPending (dvPending dv)"
  "dvAudit (traced dv) c = log_op EvAudit (dvAudit dv c)"
  "dvRequest (traced dv) c k t a = log_op (EvRequest c t a) (dvRequest dv c k t a)"
  "dvAskAgent (traced dv) g p = log_op (\<lambda>_. EvAsk g p) (dvAskAgent dv g p)"
  "dvCommand (traced dv) n l e = log_op (\<lambda>_. EvCommand n l e) (dvCommand dv n l e)"
  "dvWriteFile (traced dv) p x = log_op (\<lambda>_. EvWrite p x) (dvWriteFile dv p x)"
  "dvPath (traced dv) = dvPath dv" "dvNow (traced dv) w = dvNow dv (fst w)"
  by (simp_all add: traced_def)

lemma adds_resolve [adds_rules]: "adds K (resolveCaptures s)"
  by (auto simp: adds_def resolveCaptures_def Let_def throw_def give_def)

lemma adds_noted [adds_rules]: "adds K m \<Longrightarrow> adds K (noted m)"
  unfolding adds_def noted_def by (metis prod.exhaust_sel snd_conv)

lemma adds_turn [adds_rules]: "(\<And>a p. K (EvAsk a p)) \<Longrightarrow> adds K (turn (traced dv) b prompt)"
  by (auto simp: turn_def intro!: adds_rules split: prod.splits)

lemma adds_env [adds_rules]: "adds K (exec_env env)"
  by (induction env rule: exec_env.induct) (auto intro!: adds_rules)

lemma adds_reads [adds_rules]:
  assumes "\<And>x. K (EvGrants x)" "\<And>x. K (EvPending x)" "\<And>x. K (EvAudit x)"
  shows "adds K (all_grants (traced dv) b)" "adds K (auditRows (traced dv) b)" "adds K (stillPending (traced dv) rid)"
    "adds K (pendingRequest (traced dv) b s)" "adds K (confirmDecision (traced dv) b ro rid)"
    "adds K (newestFor (traced dv) b tool)" "adds K (newestAudit (traced dv) b tool before)"
  using assms by (auto simp: all_grants_def auditRows_def newestFor_def newestAudit_def stillPending_def pendingRequest_def confirmDecision_def Let_def intro!: adds_rules)

lemma adds_await [adds_rules]:
  assumes "\<And>x. K (EvGrants x)" "\<And>x. K (EvPending x)" "\<And>x. K (EvAudit x)" "\<And>n. K (EvSleep n)"
  shows "adds K (awaitApproval fuel (traced dv) b ro deadline rid)"
  by (induction fuel) (auto intro!: adds_rules assms)

definition exec_words :: "'s Driver \<Rightarrow> RenderedExec \<Rightarrow> string list \<Rightarrow> string list" where
  "exec_words dv e args = (if reScript e \<noteq> [] then dvPath dv (reScript e) # args else tl (reCommand e) @ args)"

lemma adds_exec:
  assumes "\<And>p x. K (EvWrite p x)" "\<And>bin env. K (EvCommand bin (exec_words dv e args) env)"
  shows "adds K (run_exec (traced dv) e args)"
proof -
  have argv: "adds K (exec_argv (traced dv) e args)"
    using assms(1) by (auto simp: exec_argv_def Script_def intro!: adds_rules)
  have words: "snd ba = exec_words dv e args" if "exec_argv (traced dv) e args r = (Inr ba, r1)" for ba r r1
    using that by (auto simp: exec_argv_def exec_words_def split: if_splits)
  show ?thesis unfolding run_exec_def
  proof (rule adds_bind_result [OF argv])
    fix ba r r1 assume "exec_argv (traced dv) e args r = (Inr ba, r1)"
    then have "snd ba = exec_words dv e args" by (rule words)
    then show "adds K (case ba of (bin, argv) \<Rightarrow>
        bind (for_all (\<lambda>need. bind (look (dvLookPath (traced dv) need)) (\<lambda>found. refuse_if (\<not> found) (RuRequires need))) (reRequires e)) (\<lambda>_.
        bind (exec_env (reEnv e)) (\<lambda>env. bind (world (dvCommand (traced dv) bin argv env)) (\<lambda>ok. refuse_if (\<not> ok) RuCommand))))"
      by (cases ba) (auto intro!: adds_rules adds_for_all assms)
  qed
qed

subsection \<open>What a successful read leaves\<close>

lemma world_read: "world (log_op ev f) r = (Inr x, r') \<Longrightarrow> trace r' = ev x # trace r"
  unfolding world_def log_op_def trace_def by (auto split: prod.splits)

lemma all_grants_read: "all_grants (traced dv) b r = (Inr gs, r') \<Longrightarrow> trace r' = EvGrants (Some gs) # trace r"
  by (auto simp: all_grants_def dest!: world_read simp del: world_Inr)

lemma auditRows_read: "auditRows (traced dv) b r = (Inr rows, r') \<Longrightarrow> trace r' = EvAudit (Some rows) # trace r"
  by (auto simp: auditRows_def dest!: world_read simp del: world_Inr)

lemma find_Some_D: "List.find P xs = Some x \<Longrightarrow> x \<in> set xs \<and> P x"
  by (rule find_Some_in)

lemma newestFor_read: "newestFor (traced dv) b tool r = (Inr old, r') \<Longrightarrow>
    \<exists>rows. trace r' = EvAudit (Some rows) # trace r \<and> old = newest_id rows tool"
  by (auto simp: newestFor_def dest!: auditRows_read)

lemma newestAudit_read:
  "newestAudit (traced dv) b tool old r = (Inr row, r') \<Longrightarrow>
    \<exists>rows. trace r' = EvAudit (Some rows) # trace r \<and> newest_row rows tool old = Some row"
  by (fastforce simp: newestAudit_def or_fail_def throw_def give_def dest!: auditRows_read split: option.splits)

lemma pendingRequest_read:
  assumes "pendingRequest (traced dv) b s r = (Inr rid, r')"
  shows "\<exists>ps p. trace r' = EvPending (Some ps) # trace r \<and> p \<in> set ps \<and> pvID p = rid \<and> pvCredential p = bpCredential b \<and>
    pvKind p = ''tool'' \<and> pvSubject p = rsTool s \<and> pvSummary p = Summary s"
proof -
  from assms obtain ps where ps: "trace r' = EvPending (Some ps) # trace r"
    "selectRequest ps (bpCredential b) (rsTool s) (Summary s) = rid" "rid \<noteq> []"
    by (auto simp: pendingRequest_def Let_def dest!: world_read simp del: world_Inr split: if_splits)
  then show ?thesis by (auto simp: selectRequest_def dest!: find_Some_D split: option.splits)
qed

definition permits :: "RunOptions \<Rightarrow> string \<Rightarrow> grant_view list \<Rightarrow> grant_view \<Rightarrow> bool" where
  "permits ro rid gs g \<longleftrightarrow> g \<in> set gs \<and> gvRequestID g = rid \<and> gvLive g \<and> (roApprover ro \<noteq> [] \<longrightarrow> gvDecidedBy g = roApprover ro)"

lemma confirmDecision_read:
  assumes "confirmDecision (traced dv) b ro rid r = (Inr g, r')"
  shows "\<exists>gs. trace r' = EvGrants (Some gs) # trace r \<and> permits ro rid gs g"
proof -
  obtain gs r1 where g: "all_grants (traced dv) b r = (Inr gs, r1)" "selectGrant gs rid = Inr g" "r' = r1"
    "roApprover ro \<noteq> [] \<longrightarrow> gvDecidedBy g = roApprover ro"
    using assms by (auto simp: confirmDecision_def split: if_splits)
  then show ?thesis using all_grants_read [OF g(1)]
    by (auto simp: permits_def selectGrant_def dest!: find_Some_D split: option.splits if_splits)
qed

lemma awaitApproval_read:
  assumes "awaitApproval fuel (traced dv) b ro deadline rid r = (Inr g, r')"
  shows "\<exists>gs evs. trace r' = EvGrants (Some gs) # evs @ trace r \<and> permits ro rid gs g"
  using assms
proof (induction fuel arbitrary: r)
  case (Suc f)
  let ?next = "\<lambda>still. if \<not> still then confirmDecision (traced dv) b ro rid
      else bind (world (\<lambda>w. ((), dvSleep (traced dv) (5 * second) w))) (\<lambda>_. awaitApproval f (traced dv) b ro deadline rid)"
  obtain now r0 where n: "look (dvNow (traced dv)) r = (Inr now, r0)"
    "(if \<not> now < deadline then throw RuUndecided else bind (stillPending (traced dv) rid) ?next) r0 = (Inr g, r')"
    using Suc.prems unfolding awaitApproval.simps(2) bind_Inr by blast
  then have "bind (stillPending (traced dv) rid) ?next r = (Inr g, r')" by (cases "now < deadline") (simp_all del: bind_Inr)
  then obtain still r1 where s: "stillPending (traced dv) rid r = (Inr still, r1)" "?next still r1 = (Inr g, r')"
    unfolding bind_Inr by blast
  obtain e1 where e1: "trace r1 = e1 @ trace r"
    using addsD [OF adds_reads(3) [where K = "\<lambda>_. True"] s(1)] by auto
  show ?case
  proof (cases still)
    case False
    then show ?thesis using s(2) confirmDecision_read e1 by fastforce
  next
    case True
    then obtain r2 where r2: "world (\<lambda>w. ((), dvSleep (traced dv) (5 * second) w)) r1 = (Inr (), r2)"
      "awaitApproval f (traced dv) b ro deadline rid r2 = (Inr g, r')"
      using s(2) by auto
    obtain e2 where "trace r2 = e2 @ trace r1"
      using addsD [OF adds_sleep [where K = "\<lambda>_. True"] r2(1)] by auto
    moreover obtain gs evs where "trace r' = EvGrants (Some gs) # evs @ trace r2" "permits ro rid gs g" using Suc.IH [OF r2(2)] by blast
    ultimately show ?thesis using e1 by (intro exI [of _ gs] exI [of _ "evs @ e2 @ e1"]) simp
  qed
qed simp

end
