(* ===== verification/WorkflowClock.thy ===== *)
theory WorkflowClock
  imports WorkflowFlow BlueprintFlow
begin

text \<open>
  The clock of a run: which actions never turn it back, and that each round of a wait either ends it
  or moves the clock by the length of a sleep, so that a wait has a bounded number of rounds.
\<close>

subsection \<open>Actions that end and actions that move the clock on\<close>

definition clock :: "'s Driver \<Rightarrow> 's workflowRun \<Rightarrow> int" where "clock dv r = dvNow dv (wrWorld r)"

definition onward :: "'s Driver \<Rightarrow> ('s, 'a) run_action \<Rightarrow> bool" where
  "onward dv m \<longleftrightarrow> (\<forall>r. clock dv r \<le> clock dv (snd (m r)))"

definition ends :: "('s, 'a) run_action \<Rightarrow> bool" where
  "ends m \<longleftrightarrow> (\<forall>r. fst (m r) \<noteq> Inl RuFuel)"

text \<open>The clock never goes back, and a sleep lasts as long as it was asked to, a negative one no time at all.\<close>

definition steady :: "'s Driver \<Rightarrow> bool" where
  "steady dv \<longleftrightarrow>
     (\<forall>w. dvNow dv w \<le> dvNow dv (snd (dvPending dv w))) \<and>
     (\<forall>a p w. dvNow dv w \<le> dvNow dv (snd (dvAskAgent dv a p w))) \<and>
     (\<forall>c a w. dvNow dv w \<le> dvNow dv (snd (dvCapture dv c a w))) \<and>
     (\<forall>p t w. dvNow dv w \<le> dvNow dv (snd (dvWriteFile dv p t w))) \<and>
     (\<forall>n k x w. dvNow dv w \<le> dvNow dv (snd (dvApplySecret dv n k x w))) \<and>
     (\<forall>n w. dvNow dv w \<le> dvNow dv (snd (dvSeamStatus dv n w))) \<and>
     (\<forall>n w. dvNow dv w \<le> dvNow dv (dvAnnotate dv n w)) \<and>
     (\<forall>n w. dvNow dv w + max 0 n \<le> dvNow dv (dvSleep dv n w))"

named_theorems end_rules
named_theorems onward_rules

lemma end_steps [end_rules]:
  "ends (give x)" "e \<noteq> RuFuel \<Longrightarrow> ends (throw e)" "z \<noteq> Inl RuFuel \<Longrightarrow> ends (of_sum z)" "e \<noteq> RuFuel \<Longrightarrow> ends (refuse_if bad e)"
  "e \<noteq> RuFuel \<Longrightarrow> ends (or_fail e p)" "ends (look f)" "ends (world g)" "ends (noted m)" "ends (resolveCaptures s)"
  by (auto simp: ends_def action_defs look_def world_def resolveCaptures_def Let_def split: option.splits prod.splits)

lemma end_bind_result:
  assumes "ends m" "\<And>x r r1. m r = (Inr x, r1) \<Longrightarrow> fst (f x r1) \<noteq> Inl RuFuel"
  shows "ends (bind m f)"
  unfolding ends_def bind_def
proof (intro allI)
  fix r
  obtain y r1 where m: "m r = (y, r1)" by fastforce
  then have "y \<noteq> Inl RuFuel" using assms(1) unfolding ends_def by (metis fst_conv)
  then show "fst (case m r of (Inl e, r1) \<Rightarrow> (Inl e, r1) | (Inr x, r1) \<Rightarrow> f x r1) \<noteq> Inl RuFuel"
    using m assms(2) by (cases y) auto
qed

lemma end_bind [end_rules]: "ends m \<Longrightarrow> (\<And>x. ends (f x)) \<Longrightarrow> ends (bind m f)"
  by (rule end_bind_result) (auto simp: ends_def)

lemma end_if [end_rules]: "ends m \<Longrightarrow> ends m' \<Longrightarrow> ends (if c then m else m')" by simp

lemma end_for_all: "(\<And>x. x \<in> set xs \<Longrightarrow> ends (f x)) \<Longrightarrow> ends (for_all f xs)"
  by (induction xs) (auto intro!: end_rules)

lemma onward_steps [onward_rules]:
  "onward dv (give v)" "onward dv (throw e)" "onward dv (of_sum z)" "onward dv (refuse_if bad e)" "onward dv (or_fail e p)"
  "onward dv (look f)" "onward dv (resolveCaptures s)" "onward dv (note_capture n x q)" "onward dv (note_refresh n t)"
  by (auto simp: onward_def clock_def action_defs look_def resolveCaptures_def note_capture_def note_refresh_def Let_def
      split: option.splits)

lemma onward_bind [onward_rules]:
  assumes "onward dv m" "\<And>x. onward dv (f x)"
  shows "onward dv (bind m f)"
  unfolding onward_def bind_def
proof (intro allI)
  fix r
  obtain y r1 where m: "m r = (y, r1)" by fastforce
  have "clock dv r \<le> clock dv r1" using assms(1) m unfolding onward_def by (metis snd_conv)
  then show "clock dv r \<le> clock dv (snd (case m r of (Inl e, r1) \<Rightarrow> (Inl e, r1) | (Inr x, r1) \<Rightarrow> f x r1))"
    using m assms(2) unfolding onward_def by (cases y) (auto intro: order_trans)
qed

lemma onward_noted [onward_rules]: "onward dv m \<Longrightarrow> onward dv (noted m)"
  by (simp add: onward_def noted_def)

lemma onward_if [onward_rules]: "onward dv m \<Longrightarrow> onward dv m' \<Longrightarrow> onward dv (if c then m else m')" by simp

lemma onward_for_all [onward_rules]: "(\<And>x. onward dv (f x)) \<Longrightarrow> onward dv (for_all f xs)"
  by (induction xs) (auto intro!: onward_rules)

lemma onward_world: "(\<And>w. dvNow dv w \<le> dvNow dv (snd (f w))) \<Longrightarrow> onward dv (world f)"
  by (simp add: onward_def clock_def world_def split: prod.splits) (metis snd_conv)

lemma steadyD:
  assumes "steady dv"
  shows "dvNow dv w \<le> dvNow dv (snd (dvPending dv w))" "dvNow dv w \<le> dvNow dv (snd (dvAskAgent dv a p w))"
    "dvNow dv w \<le> dvNow dv (snd (dvCapture dv c l w))" "dvNow dv w \<le> dvNow dv (snd (dvWriteFile dv p t w))"
    "dvNow dv w \<le> dvNow dv (snd (dvApplySecret dv n k x w))" "dvNow dv w \<le> dvNow dv (snd (dvSeamStatus dv n w))"
    "dvNow dv w \<le> dvNow dv (dvAnnotate dv n w)" "dvNow dv w + max 0 d \<le> dvNow dv (dvSleep dv d w)"
  using assms unfolding steady_def by blast+

lemma onward_ops [onward_rules]:
  assumes "steady dv"
  shows "onward dv (world (dvPending dv))" "onward dv (world (dvAskAgent dv a p))" "onward dv (world (dvCapture dv c l))"
    "onward dv (world (dvWriteFile dv p t))" "onward dv (world (dvApplySecret dv n k x))" "onward dv (world (dvSeamStatus dv n))"
  by (rule onward_world, rule steadyD [OF assms])+

lemma onward_annotate [onward_rules]:
  assumes "steady dv"
  shows "onward dv (world (\<lambda>w. ((), dvAnnotate dv n (dvSleep dv d w))))"
proof (rule onward_world)
  fix w
  have "dvNow dv w \<le> dvNow dv (dvSleep dv d w)" using steadyD(8) [OF assms, of w d] by linarith
  also have "\<dots> \<le> dvNow dv (dvAnnotate dv n (dvSleep dv d w))" by (rule steadyD(7) [OF assms])
  finally show "dvNow dv w \<le> dvNow dv (snd ((), dvAnnotate dv n (dvSleep dv d w)))" by simp
qed

subsection \<open>The parts of a step\<close>

lemma turn_ends [end_rules]: "ends (turn dv b prompt)"
  by (auto simp: turn_def intro!: end_rules split: prod.splits)

lemma turn_onward [onward_rules]: "steady dv \<Longrightarrow> onward dv (turn dv b prompt)"
  by (auto simp: turn_def intro!: onward_rules split: prod.splits)

lemma refreshSeam_onward [onward_rules]:
  assumes "steady dv"
  shows "onward dv (refreshSeam dv b name)"
proof -
  have rec: "onward dv (reconnectSeam dv ref)" for ref
    unfolding reconnectSeam_def
    by (auto intro!: onward_rules assms split: option.splits)
  have st: "onward dv (store_refreshed dv name ref minted)" for ref minted
    unfolding store_refreshed_def by (auto intro!: onward_rules assms rec)
  have mint: "onward dv (bind (world (dvCapture dv c l)) (\<lambda>out. case out of None \<Rightarrow> give ()
      | Some minted \<Rightarrow> if blank minted then give () else store_refreshed dv name ref minted))" for c l ref
    by (auto intro!: onward_rules assms st split: option.splits)
  show ?thesis unfolding onward_def
  proof (intro allI)
    fix r
    show "clock dv r \<le> clock dv (snd (refreshSeam dv b name r))"
      using mint unfolding refreshSeam_def onward_def by (simp add: give_def split: option.splits)
  qed
qed

lemma refreshFor_onward [onward_rules]: "steady dv \<Longrightarrow> onward dv (refreshFor dv b s)"
  by (simp add: refreshFor_def onward_rules)

lemma refreshSeam_ends: "ends (refreshSeam dv b name)"
proof -
  have rec: "ends (reconnectSeam dv ref)" for ref
    unfolding reconnectSeam_def by (auto intro!: end_rules split: option.splits)
  have nr: "ends (note_refresh n t)" for n t by (simp add: ends_def note_refresh_def give_def)
  have "ends (bind (world (dvCapture dv c l)) (\<lambda>out. case out of None \<Rightarrow> give ()
      | Some minted \<Rightarrow> if blank minted then give () else store_refreshed dv name ref minted))" for c l ref
    unfolding store_refreshed_def by (auto intro!: end_rules rec nr split: option.splits)
  then show ?thesis by (simp add: ends_def refreshSeam_def give_def split: option.splits)
qed

lemma refreshFor_ends [end_rules]: "ends (refreshFor dv b s)"
  by (simp add: refreshFor_def refreshSeam_ends end_for_all)

lemma poll_answer_onward: "steady dv \<Longrightarrow> onward dv (poll_answer dv b p s reply)"
  unfolding poll_answer_def by (intro onward_rules)

lemma poll_round_onward [onward_rules]: "steady dv \<Longrightarrow> onward dv (poll_round dv b p s)"
proof -
  assume dv: "steady dv"
  have "onward dv (\<lambda>r. case turn dv b (rsPrompt s) r of (Inl e, r1) \<Rightarrow> give False r1 | (Inr reply, r1) \<Rightarrow> poll_answer dv b p s reply r1)"
    using turn_onward [OF dv, of b "rsPrompt s"] poll_answer_onward [OF dv, of b p s] unfolding onward_def
    by (fastforce simp: give_def split: prod.splits sum.splits intro: order_trans)
  then show ?thesis unfolding poll_round_def by (intro onward_rules dv)
qed

lemma poll_round_ends [end_rules]: "ends (poll_round dv b p s)"
proof -
  have ans: "ends (poll_answer dv b p s reply)" for reply unfolding poll_answer_def by (intro end_rules) simp_all
  then have "ends (\<lambda>r. case turn dv b (rsPrompt s) r of (Inl e, r1) \<Rightarrow> give False r1 | (Inr reply, r1) \<Rightarrow> poll_answer dv b p s reply r1)"
    unfolding ends_def by (auto simp: give_def split: prod.splits sum.splits)
  then show ?thesis unfolding poll_round_def by (intro end_rules)
qed

subsection \<open>The waits\<close>

text \<open>A wait with a deadline: every round that does not end it sleeps for \<open>d\<close> nanoseconds.\<close>

lemma sleep_clock: "steady dv \<Longrightarrow> world (\<lambda>w. ((), dvSleep dv d w)) r = (x, r') \<Longrightarrow> clock dv r + d \<le> clock dv r'"
  using steadyD(8) [of dv "wrWorld r" d] by (auto simp: world_def clock_def)

lemma wait_round:
  assumes dv: "steady dv" and "0 < d" and m: "onward dv m" "ends m"
    and rec: "\<And>r1. deadline - clock dv r1 \<le> d * (int f - 1) \<Longrightarrow> 0 < f \<Longrightarrow> fst (rest r1) \<noteq> Inl RuFuel"
    and fin: "\<And>x r1. stop x \<Longrightarrow> fst (finish x r1) \<noteq> Inl RuFuel"
    and "deadline - clock dv r \<le> d * int f" "e \<noteq> RuFuel"
  shows "fst (bind (look (dvNow dv)) (\<lambda>now. if \<not> now < deadline then throw e
    else bind m (\<lambda>x. if stop x then finish x else bind (world (\<lambda>w. ((), dvSleep dv d w))) (\<lambda>_. rest))) r) \<noteq> Inl RuFuel"
proof (cases "clock dv r < deadline")
  case True
  then have "0 < d * int f" using assms by linarith
  then have f: "0 < f" using \<open>0 < d\<close> by (simp add: zero_less_mult_iff)
  obtain y r1 where y: "m r = (y, r1)" by fastforce
  have now: "clock dv r \<le> clock dv r1" using m(1) y unfolding onward_def by (metis snd_conv)
  obtain u r2 where s: "world (\<lambda>w. ((), dvSleep dv d w)) r1 = (u, r2)" by fastforce
  have "clock dv r1 + d \<le> clock dv r2" by (rule sleep_clock [OF dv s])
  then have "deadline - clock dv r2 \<le> d * (int f - 1)" using now assms(7) by (simp add: algebra_simps)
  then have "fst (rest r2) \<noteq> Inl RuFuel" using rec f by blast
  moreover have "y \<noteq> Inl RuFuel" using m(2) y unfolding ends_def by (metis fst_conv)
  moreover have "u = Inr ()" using s by (auto simp: world_def)
  ultimately show ?thesis using True y s fin by (auto simp: bind_def look_def clock_def split: sum.splits simp del: world_Inr)
next
  case False
  then show ?thesis using assms(8) by (simp add: bind_def look_def clock_def throw_def)
qed

lemma poll_ends:
  assumes "steady dv" "0 < Seconds (psInterval p)" "0 < fuel" "deadline - clock dv r \<le> Seconds (psInterval p) * (int fuel - 1)"
  shows "fst (pollStep fuel dv b deadline p s r) \<noteq> Inl RuFuel"
  using assms(3,4)
proof (induction fuel arbitrary: r)
  case (Suc f)
  have "fst (bind (look (dvNow dv)) (\<lambda>now. if \<not> now < deadline then throw RuPollTimeout
    else bind (poll_round dv b p s) (\<lambda>x. if x then give () else bind (world (\<lambda>w. ((), dvSleep dv (Seconds (psInterval p)) w)))
      (\<lambda>_. pollStep f dv b deadline p s))) r) \<noteq> Inl RuFuel"
    by (rule wait_round [where stop = "\<lambda>x. x" and finish = "\<lambda>_. give ()" and f = f])
      (use assms Suc poll_round_onward poll_round_ends in \<open>auto simp: give_def\<close>)
  then show ?case by simp
qed simp

lemma await_ends:
  assumes "steady dv" "0 < fuel" "deadline - clock dv r \<le> 5 * second * (int fuel - 1)"
  shows "fst (awaitApproval fuel dv b ro deadline rid r) \<noteq> Inl RuFuel"
  using assms(2,3)
proof (induction fuel arbitrary: r)
  case (Suc f)
  have still: "onward dv (stillPending dv rid)" "ends (stillPending dv rid)"
    unfolding stillPending_def by (intro onward_rules end_rules assms; simp)+
  have conf: "ends (confirmDecision dv b ro rid)"
    unfolding confirmDecision_def all_grants_def by (intro end_rules) (simp_all add: selectGrant_def split: option.splits)
  have "fst (bind (look (dvNow dv)) (\<lambda>now. if \<not> now < deadline then throw RuUndecided
    else bind (stillPending dv rid) (\<lambda>x. if \<not> x then confirmDecision dv b ro rid else bind (world (\<lambda>w. ((), dvSleep dv (5 * second) w)))
      (\<lambda>_. awaitApproval f dv b ro deadline rid))) r) \<noteq> Inl RuFuel"
    by (rule wait_round [where stop = "\<lambda>x. \<not> x" and finish = "\<lambda>_. confirmDecision dv b ro rid" and f = f])
      (use assms Suc still conf in \<open>auto simp: ends_def second_def\<close>)
  then show ?case by simp
qed simp

subsection \<open>The steps\<close>

lemma exec_env_ends [end_rules]: "ends (exec_env env)"
  by (induction env rule: exec_env.induct) (auto intro!: end_rules)

lemma run_exec_ends [end_rules]: "ends (run_exec dv e args)"
proof -
  have "ends (exec_argv dv e args)" unfolding exec_argv_def Script_def by (auto intro!: end_rules)
  then show ?thesis unfolding run_exec_def by (auto intro!: end_rules end_for_all split: prod.splits)
qed

lemma reads_end [end_rules]: "ends (auditRows dv b)" "ends (all_grants dv b)" "ends (newestFor dv b tool)" "ends (newestAudit dv b tool old)"
  "ends (pendingRequest dv b s)"
  unfolding auditRows_def all_grants_def newestFor_def newestAudit_def pendingRequest_def Let_def by (intro end_rules; simp)+

lemma preview_ends [end_rules]: "ends (preview_step dv s)"
  by (auto simp: preview_step_def ends_def give_def split: option.splits prod.splits sum.splits)

lemma file_ends [end_rules]: "ends (file_step dv b s)"
  unfolding file_step_def by (auto intro!: end_rules split: sum.splits)

lemma perform_ends [end_rules]: "ends (perform dv b s before)"
  unfolding perform_def by (auto intro!: end_rules split: option.splits)

lemma turnStep_ends [end_rules]: "ends (turnStep dv b s)"
proof -
  have "ends (note_capture n x q)" for n x q by (simp add: ends_def note_capture_def give_def)
  then show ?thesis unfolding turnStep_def Let_def by (auto intro!: end_rules)
qed

lemma boundedStep_ends [end_rules]: "ends (boundedStep dv b ro s)"
  unfolding boundedStep_def by (auto intro!: end_rules)

lemma consequentialStep_ends:
  assumes "steady dv" "0 < fuel" "Seconds (roHumanSeconds ro) \<le> 5 * second * (int fuel - 1)"
  shows "ends (consequentialStep fuel dv b ro s)"
proof -
  have wait: "ends (bind (look (dvNow dv)) (\<lambda>now. awaitApproval fuel dv b ro (now + Seconds (roHumanSeconds ro)) rid))" for rid
  proof (rule end_bind_result)
    fix now r r1 assume "look (dvNow dv) r = (Inr now, r1)"
    then show "fst (awaitApproval fuel dv b ro (now + Seconds (roHumanSeconds ro)) rid r1) \<noteq> Inl RuFuel"
      using assms by (intro await_ends) (simp_all add: clock_def)
  qed (rule end_rules)
  have "ends (approved_call fuel dv b ro s)" unfolding approved_call_def by (intro end_rules wait) simp_all
  then show ?thesis unfolding consequentialStep_def by (auto intro!: end_rules)
qed

text \<open>The interval of a poll is no longer than an \<open>int64\<close> of nanoseconds, and fuel for a look per interval is there.\<close>

definition waits_fit :: "nat \<Rightarrow> PollSpec option \<Rightarrow> bool" where
  "waits_fit fuel poll \<longleftrightarrow> (case poll of None \<Rightarrow> True
     | Some p \<Rightarrow> psInterval p \<le> 9223372036 \<and> Seconds (psTimeout p) \<le> psInterval p * second * (int fuel - 1))"

lemma Seconds_interval: "0 < n \<Longrightarrow> n \<le> 9223372036 \<Longrightarrow> Seconds n = n * second \<and> 0 < n * second"
  by (simp add: Seconds_exact second_def)

lemma do_step_ends:
  assumes "steady dv" "0 < fuel" "Seconds (roHumanSeconds ro) \<le> 5 * second * (int fuel - 1)" "waits_fit fuel (rsPoll s)"
    "\<And>p. rsPoll s = Some p \<Longrightarrow> 0 < psInterval p"
  shows "ends (do_step fuel dv b ro s)"
proof -
  have poll: "ends (bind (look (dvNow dv)) (\<lambda>now. pollStep fuel dv b (now + Seconds (psTimeout p)) p s))" if "rsPoll s = Some p" for p
  proof (rule end_bind_result)
    fix now r r1 assume "look (dvNow dv) r = (Inr now, r1)"
    then show "fst (pollStep fuel dv b (now + Seconds (psTimeout p)) p s r1) \<noteq> Inl RuFuel"
      using assms that Seconds_interval [of "psInterval p"] by (intro poll_ends) (auto simp: clock_def waits_fit_def)
  qed (rule end_rules)
  show ?thesis unfolding do_step_def
    by (auto intro!: end_rules consequentialStep_ends assms poll split: option.splits)
qed

lemma rendered_poll:
  assumes "Render b v steps decl = Inr r" "rs \<in> set (rdSteps r)"
  obtains s where "s \<in> set (bpSteps b)" "rsPoll rs = stPoll s"
proof -
  obtain s item where s: "s \<in> set (bpSteps b)" "render_item (bpSeams b) decl v s item = Inr rs"
    using rendered_step [OF assms] by metis
  have "rsPoll rs = stPoll s"
  proof (cases "stCall s")
    case (Some c)
    then show ?thesis using s(2)
      by (cases "sub_map (\<lambda>t. substitute v t item) (caArgs c)"; auto simp: render_item_def render_call_def Let_def)
  qed (use s(2) in \<open>auto simp: render_item_def Let_def\<close>)
  then show thesis using that s(1) by blast
qed

lemma accepted_poll:
  assumes "bp_Parse decode compile raw = Inr b" "s \<in> set (bpSteps b)" "stPoll s = Some p"
  shows "0 < psInterval p"
proof -
  obtain b0 where "validateStepShape b0 s = None" using accepted_step [OF assms(1,2)] by metis
  then show ?thesis using assms(3) by (auto simp: validateStepShape_def first_refusal_None refuse_def split: if_splits)
qed

lemma run_steps_ends:
  assumes "\<And>s. s \<in> set steps \<Longrightarrow> ends (do_step fuel dv b ro s)"
  shows "ends (run_steps fuel dv b ro steps)"
  unfolding ends_def
proof (intro allI)
  fix r
  obtain y r1 where y: "for_all (do_step fuel dv b ro) steps r = (y, r1)" by fastforce
  have "ends (for_all (do_step fuel dv b ro) steps)" using end_for_all assms by blast
  then have "y \<noteq> Inl RuFuel" using y unfolding ends_def by (metis fst_conv)
  then show "fst (run_steps fuel dv b ro steps r) \<noteq> Inl RuFuel"
    using y by (auto simp: run_steps_def split: sum.splits run_error.splits)
qed

end
