(* ===== verification/WorkflowNumbers.thy ===== *)
theory WorkflowNumbers
  imports Workflow
begin

text \<open>
  The integers of the arguments that are filed: an integer of at most \<open>2 ^ 53\<close> is written as itself
  after it has been a \<open>float64\<close>, and integers with one \<open>float64\<close> are written as one.
\<close>

text \<open>Between \<open>2 ^ 53\<close> and \<open>2 ^ 54\<close> only the even numbers are floats, and a tie goes down here.\<close>

lemma binexp_eq:
  assumes "2 powi k \<le> q" "q < 2 powi (k + 1)"
  shows "binexp q = k"
proof -
  have "0 < q" using assms(1) by (rule less_le_trans [rotated]) simp
  note b = binexp_bounds [OF this]
  have "(2::rat) powi k < 2 powi (binexp q + 1)" "(2::rat) powi binexp q < 2 powi (k + 1)" using assms b by linarith+
  then have "k < binexp q + 1" "binexp q < k + 1"
    using power_int_increasing [of "binexp q + 1" k "2::rat"] power_int_increasing [of "k + 1" "binexp q" "2::rat"] by force+
  then show ?thesis by simp
qed

lemma round64_53:
  assumes "9007199254740992 \<le> n" "n < 18014398509481984"
  shows "round64 (of_int n) = of_int (2 * round_even (of_int n / 2))"
proof -
  have "(9007199254740992::rat) \<le> of_int n" "of_int n < (18014398509481984::rat)" using assms by linarith+
  then have "binexp (of_int n) = 53" by (intro binexp_eq) simp_all
  then show ?thesis using assms by (simp add: round64_def)
qed

lemma tie_floor: "\<lfloor>9007199254740993 / 2 :: rat\<rfloor> = 4503599627370496"
  by (rule floor_unique) simp_all

lemma round_tie: "round_signed 9007199254740993 = 9007199254740992"
  using round64_53 [of 9007199254740993] by (simp add: round_signed_def round_even_def tie_floor)

lemma round_even_numbers: "round64 9007199254740992 = 9007199254740992" "round64 9007199254741000 = 9007199254741000"
  using round64_53 [of 9007199254740992] round64_53 [of 9007199254741000] round_even_int [of 4503599627370496] round_even_int [of 4503599627370500]
  by simp_all

lemma round_signed_abs: "\<bar>round_signed n\<bar> = round64 (of_int \<bar>n\<bar>)"
  using round64_nonneg by (simp add: round_signed_def)

lemma round_signed_exact:
  assumes "\<bar>n\<bar> \<le> 2 ^ 53"
  shows "round_signed n = of_int n"
proof -
  have "round64 (of_int \<bar>n\<bar>) = of_int \<bar>n\<bar>"
  proof (cases "\<bar>n\<bar> = 2 ^ 53")
    case False
    then show ?thesis using assms by (intro round64_int) simp_all
  qed (simp add: round_even_numbers)
  then show ?thesis by (cases "n < 0") (simp_all add: round_signed_def)
qed

text \<open>A multiple of ten above \<open>2 ^ 53\<close> is no float up to \<open>2 ^ 53\<close>.\<close>

lemma round_signed_tens:
  assumes "10 dvd x" "round_signed x = of_int n" "\<bar>n\<bar> \<le> 2 ^ 53"
  shows "x = n"
proof (cases "\<bar>x\<bar> \<le> 2 ^ 53")
  case True
  then show ?thesis using round_signed_exact assms(2) by simp
next
  case False
  obtain k where "x = 10 * k" using assms(1) by blast
  moreover have "9007199254740992 < x \<or> x < -9007199254740992" using False by (simp add: abs_if split: if_splits)
  ultimately have "900719925474100 \<le> k \<or> k \<le> -900719925474100" by linarith
  then have "9007199254741000 \<le> \<bar>x\<bar>" using \<open>x = 10 * k\<close> by linarith
  then have "round64 (of_int 9007199254741000) \<le> round64 (of_int \<bar>x\<bar>)" by (intro round64_mono) (simp only: of_int_le_iff)
  then have "of_int 9007199254741000 \<le> \<bar>of_int n :: rat\<bar>"
    using round_signed_abs [of x] assms(2) by (simp add: round_even_numbers)
  then have "9007199254741000 \<le> \<bar>n\<bar>" by (simp only: of_int_le_iff flip: of_int_abs)
  then show ?thesis using assms(3) by simp
qed

lemma near_multiple_exact:
  assumes "\<bar>n\<bar> \<le> 2 ^ 53" "near_multiple n e = Some x"
  shows "x = n"
proof (cases e)
  case 0
  then show ?thesis using assms round_signed_exact by (simp add: near_multiple_def)
next
  case (Suc e')
  let ?lo = "n div 10 ^ e * 10 ^ e"
  have ten: "(10::int) dvd 10 ^ e" by (simp add: Suc)
  have "x = ?lo \<or> x = ?lo + 10 ^ e" "round_signed x = of_int n"
    using assms(2) by (auto simp: near_multiple_def Let_def split: if_splits)
  moreover have "10 dvd ?lo" "10 dvd ?lo + 10 ^ e" using ten by simp_all
  ultimately show ?thesis using round_signed_tens assms(1) by blast
qed

lemma float_text_exact: "\<bar>n\<bar> \<le> 2 ^ 53 \<Longrightarrow> float_text n = n"
proof -
  assume n: "\<bar>n\<bar> \<le> 2 ^ 53"
  have "x = n" if "x \<in> set (List.map_filter (near_multiple n) es)" for x es
    using that near_multiple_exact [OF n] by (auto simp: List.map_filter_def)
  from this [of _ "rev [0..<20]"] show ?thesis
    using round_signed_exact [OF n] unfolding float_text_def by (simp split: list.split)
qed

text \<open>Values that decode to the same thing in \<open>map[string]any\<close>, and values that survive it as they are.\<close>

definition read_alike :: "json \<Rightarrow> json \<Rightarrow> bool" where
  "read_alike v w \<longleftrightarrow> v = w \<or> (\<exists>i j. v = JNum (format_int i) \<and> w = JNum (format_int j) \<and> int64_ok i \<and> int64_ok j \<and> round_signed i = round_signed j)"

definition float_exact :: "json \<Rightarrow> bool" where
  "float_exact v \<longleftrightarrow> (case v of JNum n \<Rightarrow> \<exists>i. n = format_int i \<and> \<bar>i\<bar> \<le> 2 ^ 53 | _ \<Rightarrow> True)"

lemma filed_value_int: "int64_ok i \<Longrightarrow> filed_value (JNum (format_int i)) = JNum (format_int (float_text i))"
  by (simp add: filed_value_def parse_int_format)

lemma float_text_alike: "round_signed i = round_signed j \<Longrightarrow> float_text i = float_text j"
  by (simp only: float_text_def)

lemma read_alike_filed: "read_alike v w \<Longrightarrow> filed_value v = filed_value w"
  unfolding read_alike_def by (metis filed_value_int float_text_alike)

lemma float_exact_filed: "float_exact v \<Longrightarrow> filed_value v = v"
proof (cases v)
  case (JNum n)
  assume "float_exact v"
  then obtain i where i: "n = format_int i" "\<bar>i\<bar> \<le> 2 ^ 53" using JNum by (auto simp: float_exact_def)
  then have "int64_ok i" by (simp add: int64_ok_def abs_le_iff)
  then show ?thesis using JNum i by (simp add: filed_value_int float_text_exact)
qed (simp_all add: filed_value_def)

lemma filed_args_exact: "list_all (\<lambda>(k, v). float_exact v) args \<Longrightarrow> filed_args args = args"
  by (induction args) (auto simp: filed_args_def float_exact_filed)

lemma filed_args_alike: "list_all2 (\<lambda>(k, v) (l, w). k = l \<and> read_alike v w) args others \<Longrightarrow> filed_args args = filed_args others"
  by (induction rule: list_all2_induct) (auto simp: filed_args_def read_alike_filed)

end
