(* ===== verification/WorkflowProps.thy ===== *)
theory WorkflowProps
  imports WorkflowClock WorkflowNumbers BlueprintProps
begin

text \<open>
  Properties of the driver: what happens before an action a human approves, that the waits end,
  which request it finds again, and what is filed.
\<close>

subsection \<open>Nothing before the approval\<close>

text \<open>Before the approval a step with consequences asks no agent and runs no command but its preview.\<close>

fun quiet :: "'s Driver \<Rightarrow> RenderedStep \<Rightarrow> run_event \<Rightarrow> bool" where
  "quiet dv s (EvAsk a p) = False"
| "quiet dv s (EvCommand bin argv env) = (case rsExec s of None \<Rightarrow> False
     | Some e \<Rightarrow> rePreview e \<noteq> [] \<and> argv = exec_words dv e (rePreview e))"
| "quiet dv s e = True"

text \<open>No live grant at first, the request of this very call seen pending, and then a live grant of that request.\<close>

definition vetted :: "Blueprint \<Rightarrow> RunOptions \<Rightarrow> RenderedStep \<Rightarrow> run_event list \<Rightarrow> bool" where
  "vetted b ro s evs \<longleftrightarrow> (\<exists>mid gs0 gs g ps p. evs = EvGrants (Some gs) # mid @ [EvGrants (Some gs0)] \<and>
     \<not> liveGrant gs0 (rsTool s) \<and> EvPending (Some ps) \<in> set mid \<and> p \<in> set ps \<and> pvCredential p = bpCredential b \<and>
     pvKind p = ''tool'' \<and> pvSubject p = rsTool s \<and> pvSummary p = Summary s \<and> permits ro (pvID p) gs g)"

text \<open>The first row of a tool in a reading of the audit, and that it was not the first one before.\<close>

definition new_row :: "audit_view list \<Rightarrow> audit_view list \<Rightarrow> string \<Rightarrow> audit_view \<Rightarrow> bool" where
  "new_row rows0 rows tool row \<longleftrightarrow> row \<in> set rows \<and> avTool row = tool \<and> List.find (\<lambda>r. avTool r = tool) rows = Some row \<and>
     (\<forall>old. List.find (\<lambda>r. avTool r = tool) rows0 = Some old \<longrightarrow> row_id row \<noteq> row_id old)"

lemma new_rowI: "newest_row rows tool (newest_id rows0 tool) = Some row \<Longrightarrow> new_row rows0 rows tool row"
  using find_Some_D by (fastforce simp: new_row_def newest_row_def newest_id_def split: option.splits if_splits)

lemma adds_preview: "adds (quiet dv s) (preview_step (traced dv) s)"
proof (cases "rsExec s")
  case (Some e)
  show ?thesis
  proof (cases "rePreview e = []")
    case False
    have "adds (quiet dv s) (run_exec (traced dv) e (rePreview e))" by (rule adds_exec) (use Some False in simp_all)
    then show ?thesis using Some False by (fastforce simp: preview_step_def adds_def split: prod.splits sum.splits)
  qed (use Some in \<open>simp add: preview_step_def adds_rules\<close>)
qed (simp add: preview_step_def adds_rules)

lemma adds_file: "adds (quiet dv s) (file_step (traced dv) b s)"
  by (auto simp: file_step_def intro!: adds_rules split: sum.splits)

lemma adds_approved: "adds (quiet dv s) (approved_call fuel (traced dv) b ro s)"
  unfolding approved_call_def by (auto intro!: adds_rules adds_preview adds_file)

lemma approved_call_vetted:
  assumes "approved_call fuel (traced dv) b ro s r = (Inr g, r')"
  shows "\<exists>evs. trace r' = evs @ trace r \<and> vetted b ro s evs"
proof -
  obtain gs0 r1 r2 r3 r4 rid now where a: "all_grants (traced dv) b r = (Inr gs0, r1)" "\<not> liveGrant gs0 (rsTool s)"
    "preview_step (traced dv) s r1 = (Inr (), r2)" "file_step (traced dv) b s r2 = (Inr (), r3)"
    "pendingRequest (traced dv) b s r3 = (Inr rid, r4)"
    "awaitApproval fuel (traced dv) b ro (now + Seconds (roHumanSeconds ro)) rid r4 = (Inr g, r')"
    using assms by (auto simp: approved_call_def)
  obtain e2 where e2: "trace r2 = e2 @ trace r1" using addsD [OF adds_preview a(3)] by blast
  obtain e3 where e3: "trace r3 = e3 @ trace r2" using addsD [OF adds_file a(4)] by blast
  obtain ps p where p: "trace r4 = EvPending (Some ps) # trace r3" "p \<in> set ps" "pvID p = rid" "pvCredential p = bpCredential b"
    "pvKind p = ''tool''" "pvSubject p = rsTool s" "pvSummary p = Summary s"
    using pendingRequest_read [OF a(5)] by blast
  obtain gs evs where g: "trace r' = EvGrants (Some gs) # evs @ trace r4" "permits ro rid gs g"
    using awaitApproval_read [OF a(6)] by blast
  have t: "trace r' = (EvGrants (Some gs) # (evs @ EvPending (Some ps) # e3 @ e2) @ [EvGrants (Some gs0)]) @ trace r"
    using g(1) p(1) e2 e3 all_grants_read [OF a(1)] by simp
  have "vetted b ro s (EvGrants (Some gs) # (evs @ EvPending (Some ps) # e3 @ e2) @ [EvGrants (Some gs0)])"
    unfolding vetted_def using a(2) p g(2) by (intro exI conjI) (auto intro: refl)
  then show ?thesis using t by blast
qed

lemma adds_perform: "adds (\<lambda>_. True) (perform (traced dv) b s before)"
  by (auto simp: perform_def intro!: adds_rules adds_exec split: option.splits)

lemma done_leaves_its_row:
  assumes "bind (newestFor (traced dv) b (rsTool s)) (\<lambda>before. perform (traced dv) b s before) r1 = (Inr (), r')"
    and acts: "trace r' = acts @ trace r1"
  shows "acts \<noteq> [] \<and> (rsExec s = None \<longrightarrow> (\<exists>rows0 rows row. last acts = EvAudit (Some rows0) \<and> hd acts = EvAudit (Some rows) \<and>
      new_row rows0 rows (rsTool s) row \<and> contains (avDecision row) ''allowed'' \<and> contains (avDetail row) ''granted''))"
proof -
  obtain old r2 where n: "newestFor (traced dv) b (rsTool s) r1 = (Inr old, r2)" "perform (traced dv) b s old r2 = (Inr (), r')"
    using assms(1) unfolding bind_Inr by blast
  obtain rows0 where r2: "trace r2 = EvAudit (Some rows0) # trace r1" "old = newest_id rows0 (rsTool s)" using newestFor_read [OF n(1)] by blast
  obtain more where more: "trace r' = more @ trace r2" using addsD [OF adds_perform n(2)] by blast
  have ne: "acts = more @ [EvAudit (Some rows0)]" using acts more r2(1) by simp
  show ?thesis
  proof (cases "rsExec s")
    case (Some e)
    then show ?thesis using ne by simp
  next
    case None
    obtain r3 row where t: "noted (turn (traced dv) b (rsPrompt s)) r2 = (Inr (), r3)"
      and row: "newestAudit (traced dv) b (rsTool s) old r3 = (Inr row, r')"
        "contains (avDecision row) ''allowed''" "contains (avDetail row) ''granted''"
      using n(2) unfolding perform_def None option.case bind_Inr by auto
    obtain e3 where e3: "trace r3 = e3 @ trace r2" using addsD [OF adds_noted [OF adds_turn [where K = "\<lambda>_. True"]] t] by auto
    obtain rows where rows: "trace r' = EvAudit (Some rows) # trace r3" "newest_row rows (rsTool s) old = Some row"
      using newestAudit_read [OF row(1)] by blast
    have "hd acts = EvAudit (Some rows)" using acts rows(1) e3 r2 by (cases acts) auto
    moreover have "new_row rows0 rows (rsTool s) row" using rows(2) r2(2) new_rowI by simp
    moreover have "last acts = EvAudit (Some rows0)" using ne by simp
    ultimately show ?thesis using row ne by blast
  qed
qed

text \<open>
  C12: Whatever the plane, the agent and the machine answer, a step with consequences asks no agent and
  runs no command but its preview before it has read that no grant of the tool was live, found the
  pending request of this very call, and then read a live grant of that request, decided by the
  demanded approver. A call of an agent is reported done only when the first row of its tool, in the
  last reading of the audit, is one allowed under a grant and differs from the first such row of the
  reading after the approval and before the call (the plane lists the newest first).
\<close>

theorem no_action_before_its_approval:
  assumes "consequentialStep fuel (traced dv) b ro s r = (x, r')"
  shows "\<exists>acts before. trace r' = acts @ before @ trace r \<and> list_all (quiet dv s) before \<and>
    (acts \<noteq> [] \<longrightarrow> vetted b ro s before) \<and>
    (x = Inr () \<longrightarrow> acts \<noteq> [] \<and> (rsExec s = None \<longrightarrow> (\<exists>rows0 rows row. last acts = EvAudit (Some rows0) \<and>
      hd acts = EvAudit (Some rows) \<and> new_row rows0 rows (rsTool s) row \<and> contains (avDecision row) ''allowed'' \<and> contains (avDetail row) ''granted'')))"
proof (cases "roDryRun ro")
  case True
  then show ?thesis using assms by (intro exI [of _ "[]"]) (auto simp: consequentialStep_def throw_def)
next
  case False
  let ?rest = "bind (newestFor (traced dv) b (rsTool s)) (\<lambda>before. perform (traced dv) b s before)"
  have step: "bind (approved_call fuel (traced dv) b ro s) (\<lambda>_. ?rest) r = (x, r')"
    using assms False by (simp add: consequentialStep_def del: bind_Inr)
  obtain y r1 where a: "approved_call fuel (traced dv) b ro s r = (y, r1)" by fastforce
  obtain before where q: "trace r1 = before @ trace r" "list_all (quiet dv s) before" using addsD [OF adds_approved a] by blast
  show ?thesis
  proof (cases y)
    case (Inl e)
    then show ?thesis using step a q by (intro exI [of _ "[]"] exI [of _ before]) (auto simp: bind_def)
  next
    case (Inr g)
    have rest: "?rest r1 = (x, r')" using step a Inr by (simp add: bind_def)
    have v: "vetted b ro s before" using approved_call_vetted [of fuel dv b ro s r g r1] a Inr q(1) by auto
    have ad: "adds (\<lambda>_. True) ?rest" by (intro adds_bind adds_perform adds_reads) simp_all
    obtain acts where acts: "trace r' = acts @ trace r1" using addsD [OF ad rest] by blast
    have "acts \<noteq> [] \<and> (rsExec s = None \<longrightarrow> (\<exists>rows0 rows row. last acts = EvAudit (Some rows0) \<and>
        hd acts = EvAudit (Some rows) \<and> new_row rows0 rows (rsTool s) row \<and> contains (avDecision row) ''allowed'' \<and> contains (avDetail row) ''granted''))" if ok: "x = Inr ()"
      by (rule done_leaves_its_row [OF rest [unfolded ok] acts])
    then show ?thesis using acts q v by (intro exI [of _ acts] exI [of _ before]) simp
  qed
qed

text \<open>A world that counts: the request is filed at 0, seen pending at 1, approved at 2, and the agent calls at 3.\<close>

definition demo_run_step :: RenderedStep where "demo_run_step = demo_rendered_step ''cut'' KindConsequential ''tag'' ''name'' ''v1''"

definition demo_options :: RunOptions where
  "demo_options = \<lparr>roStep = [], roDryRun = False, roApprover = ''ana'', roHumanSeconds = 900\<rparr>"

definition demo_permit :: grant_view where
  "demo_permit = \<lparr>gvID = ''g'', gvRequestID = ''r'', gvKind = ''tool'', gvSubject = ''tag'', gvLive = True, gvDigest = [],
     gvDecidedBy = ''ana''\<rparr>"

definition demo_asked :: pending_view where
  "demo_asked = \<lparr>pvID = ''r'', pvCredential = ''rel'', pvKind = ''tool'', pvSubject = ''tag'', pvSummary = Summary demo_run_step\<rparr>"

definition demo_row :: audit_view where
  "demo_row = \<lparr>avCreated = ''t'', avTool = ''tag'', avDecision = ''allowed'', avDetail = ''granted'', avSummary = []\<rparr>"

definition demo_driver :: "nat Driver" where
  "demo_driver = \<lparr>
     dvGrants = (\<lambda>_ n. (Some (if n < 3 then [] else [demo_permit]), n)),
     dvPending = (\<lambda>n. if n = 1 then (Some [demo_asked], 2) else (Some [], 3)),
     dvAudit = (\<lambda>_ n. (Some (if n < 4 then [] else [demo_row]), n)),
     dvRequest = (\<lambda>_ _ _ _ n. (True, 1)),
     dvAskAgent = (\<lambda>_ _ n. (Some (''completed'', ''done''), 4)),
     dvLookPath = (\<lambda>_ _. False), dvCommand = (\<lambda>_ _ _ n. (False, n)), dvCapture = (\<lambda>_ _ n. (None, n)),
     dvScripts = (\<lambda>_ _. None), dvPath = (\<lambda>p. p), dvWriteFile = (\<lambda>_ _ n. (False, n)), dvApplySecret = (\<lambda>_ _ _ n. (False, n)),
     dvSeamStatus = (\<lambda>_ n. (None, n)), dvAnnotate = (\<lambda>_ n. n), dvNow = (\<lambda>_. 0), dvSleep = (\<lambda>_ n. n)\<rparr>"

definition demo_start :: "nat traced workflowRun" where
  "demo_start = \<lparr>wrCaptures = [], wrFiles = [], wrRefreshed = [], wrWorld = (0, [])\<rparr>"

lemma demo_driver_sel [simp]:
  "dvGrants demo_driver c n = (Some (if n < 3 then [] else [demo_permit]), n)"
  "dvPending demo_driver n = (if n = 1 then (Some [demo_asked], 2) else (Some [], 3))"
  "dvAudit demo_driver c n = (Some (if n < 4 then [] else [demo_row]), n)"
  "dvRequest demo_driver c k t a n = (True, 1)" "dvAskAgent demo_driver g q n = (Some (''completed'', ''done''), 4)"
  "dvNow demo_driver n = 0"
  by (simp_all add: demo_driver_def)

lemma demo_blueprint_sel [simp]: "bpCredential demo_blueprint = ''rel''" "bpAgent demo_blueprint = ''bot''"
  by (simp_all add: demo_blueprint_def)

lemma demo_run_step_sel [simp]:
  "rsTool demo_run_step = ''tag''" "rsExec demo_run_step = None" "rsPrompt demo_run_step = ''do it''"
  "ArgsJSON demo_run_step = Inr [(''name'', JStr ''v1'')]"
  by (simp_all add: demo_run_step_def demo_rendered_step_def ArgsJSON_def arg_value_def map_get_def)

lemmas demo_run_eval = Seconds_exact second_def action_defs world_def look_def log_op_def demo_start_def demo_options_def demo_permit_def demo_asked_def demo_row_def

lemma demo_call_approved: "approved_call (Suc 0) (traced demo_driver) demo_blueprint demo_options demo_run_step demo_start =
  (Inr demo_permit, demo_start\<lparr>wrWorld := (3, [EvGrants (Some [demo_permit]), EvPending (Some []), EvPending (Some [demo_asked]),
     EvRequest ''rel'' ''tag'' [(''name'', JStr ''v1'')] True, EvGrants (Some [])])\<rparr>)"
  by (simp add: approved_call_def all_grants_def demo_run_eval liveGrant_def preview_step_def file_step_def filed_args_def filed_value_def
      pendingRequest_def selectRequest_def stillPending_def confirmDecision_def selectGrant_def)

lemma demo_step_done: "fst (consequentialStep (Suc 0) (traced demo_driver) demo_blueprint demo_options demo_run_step demo_start) = Inr ()"
  by (simp add: consequentialStep_def demo_call_approved bind_def, simp add: demo_run_eval perform_def newestFor_def newest_id_def auditRows_def turn_def
      resolveCaptures_def Let_def newestAudit_def newest_row_def row_id_def blank_def trim_space_def go_defs contains_def)

theorem no_action_before_its_approval_witness:
  "\<exists>acts before. trace (snd (consequentialStep (Suc 0) (traced demo_driver) demo_blueprint demo_options demo_run_step demo_start)) =
     acts @ before \<and> acts \<noteq> [] \<and> vetted demo_blueprint demo_options demo_run_step before"
  using no_action_before_its_approval [OF prod.collapse [symmetric],
      of "Suc 0" demo_driver demo_blueprint demo_options demo_run_step demo_start] demo_step_done
  by (auto simp: demo_start_def trace_def)

subsection \<open>Every run ends\<close>

text \<open>
  C20: A run of an accepted blueprint whose polls have intervals of at most 9223372036 seconds (292
  years) always comes to an end, whatever its plane and its agent answer: when the clock never goes
  back and a sleep lasts as long as it was asked to, the wait for a human takes at most one round for
  every five seconds of its deadline and a poll one for every interval, so that a run with fuel for
  the longest of its waits never runs out of it. The waits are the \<open>int64\<close> durations the code makes of
  the seconds. The bound on the interval is needed: a longer one is accepted, and may wrap to a
  negative sleep (\<open>an_absurd_interval_never_sleeps\<close>).
\<close>

theorem a_run_comes_to_an_end:
  assumes "bp_Parse decode compile raw = Inr b" "steady dv" "0 < fuel"
    and "Seconds (roHumanSeconds (human_seconds ro)) \<le> 5 * second * (int fuel - 1)"
    and "list_all (\<lambda>s. waits_fit fuel (stPoll s)) (bpSteps b)"
  shows "fst (RunWorkflow fuel dv compile b vals ro table r) \<noteq> Inl RuFuel"
proof -
  have "bound_run compile b vals ro \<noteq> Inl RuFuel"
    by (auto simp: bound_run_def asked_steps_def split: sum.splits if_splits)
  moreover have "rendered_run b sv t \<noteq> Inl RuFuel" for sv t
    by (auto simp: rendered_run_def split: prod.splits option.splits sum.splits if_splits)
  moreover have "ends (run_steps fuel dv b (human_seconds ro) (rdSteps rendered))" if run: "rendered_run b sv t = Inr rendered" for sv t rendered
  proof (rule run_steps_ends)
    fix s assume s: "s \<in> set (rdSteps rendered)"
    obtain v steps decl where "Render b v steps (Some decl) = Inr rendered"
      using run by (cases sv; cases t) (auto simp: rendered_run_def split: option.splits sum.splits if_splits)
    then obtain st where st: "st \<in> set (bpSteps b)" "rsPoll s = stPoll st" using s by (rule rendered_poll)
    show "ends (do_step fuel dv b (human_seconds ro) s)"
      using assms st accepted_poll [OF assms(1) st(1)] by (intro do_step_ends) (auto simp: list_all_iff)
  qed
  ultimately have "ends (RunWorkflow fuel dv compile b vals ro table)" unfolding RunWorkflow_def
    by (intro end_rules end_bind_result) (auto simp: of_sum_def ends_def give_def throw_def split: sum.splits)
  then show ?thesis by (simp add: ends_def)
qed

text \<open>A human who never decides: the clock is the world, and the run gives up after fifteen minutes.\<close>

definition idle_driver :: "nat Driver" where
  "idle_driver = demo_driver\<lparr>dvPending := (\<lambda>n. (Some [demo_asked], n)), dvGrants := (\<lambda>_ n. (Some [], n)),
     dvAskAgent := (\<lambda>_ _ n. (None, n)), dvRequest := (\<lambda>_ _ _ _ n. (True, n)),
     dvNow := int, dvSleep := (\<lambda>d n. n + nat d)\<rparr>"

theorem a_run_comes_to_an_end_witness:
  "fst (RunWorkflow 181 idle_driver (\<lambda>_. None) demo_blueprint [(''ids'', ''7''), (''version'', ''1'')]
     demo_options (\<lambda>n. (Some ([''gh''], [(''run'', [''id'']), (''tag'', [''name''])]), n))
     \<lparr>wrCaptures = [], wrFiles = [], wrRefreshed = [], wrWorld = 0\<rparr>) \<noteq> Inl RuFuel"
proof (rule a_run_comes_to_an_end [OF demo_parsed])
  show "steady idle_driver" by (auto simp: steady_def idle_driver_def demo_driver_def)
  show "list_all (\<lambda>s. waits_fit 181 (stPoll s)) (bpSteps demo_blueprint)"
    by (simp add: demo_blueprint_def demo_step_def waits_fit_def)
qed (simp_all add: human_seconds_def demo_options_def Seconds_exact second_def)

text \<open>
  An interval of 10^10 seconds passes the check of a blueprint, which only asks for a positive number,
  and wraps to a negative duration: with an agent that fails at once, no number of rounds gets a poll
  of ten minutes past the instant it began.
\<close>

lemma an_absurd_interval_never_sleeps:
  assumes "psInterval p = 10000000000" "psTimeout p = 600" "bpSeams b = []" "rsUpstream s = []"
  shows "fst (pollStep fuel idle_driver b (clock idle_driver r + Seconds (psTimeout p)) p s r) = Inl RuFuel"
proof -
  have neg: "Seconds (psInterval p) = -8446744073709551616" and pos: "0 < Seconds (psTimeout p)"
    by (simp_all add: assms Seconds_def wrap64_def second_def)
  have ask: "dvAskAgent idle_driver a q n = (None, n)" and sleep: "dvSleep idle_driver d n = n + nat d" for a q n d
    by (simp_all add: idle_driver_def)
  have turn: "\<exists>e. turn idle_driver b q r = (Inl e, r)" for q
    by (auto simp: turn_def bind_def resolveCaptures_def Let_def throw_def give_def world_def or_fail_def ask)
  have round: "poll_round idle_driver b p s r = (Inr False, r)"
    using turn [of "rsPrompt s"] by (auto simp: poll_round_def refreshFor_def assms bind_def give_def)
  show ?thesis
  proof (induction fuel)
    case (Suc f)
    have "pollStep (Suc f) idle_driver b (clock idle_driver r + Seconds (psTimeout p)) p s r =
        pollStep f idle_driver b (clock idle_driver r + Seconds (psTimeout p)) p s r"
      using pos by (simp add: bind_def look_def clock_def round world_def sleep neg)
    then show ?case using Suc by (simp only:)
  qed (simp add: throw_def)
qed

subsection \<open>What is filed\<close>

text \<open>An argument the plane shows as it is: short, printable, and an integer no larger than a float keeps and spelled as Go spells it.\<close>

definition plain_value :: "(nat \<Rightarrow> bool) \<Rightarrow> string option \<Rightarrow> string \<Rightarrow> bool" where
  "plain_value uprint ty x \<longleftrightarrow> length x \<le> maxSummaryValue \<and>
     (if ty = Some ArgInt then \<exists>i. x = format_int i \<and> \<bar>i\<bar> \<le> 2 ^ 53 else ty = Some ArgBool \<or> sanitize uprint x = x)"

lemma plain_int: "\<bar>i\<bar> \<le> 2 ^ 53 \<Longrightarrow> parse_int (format_int i) = Some i"
  by (intro parse_int_format) (simp add: int64_ok_def abs_le_iff)

lemma plain_rendered:
  assumes "arg_value ty x = Inr j" "plain_value uprint ty x"
  shows "renderValue uprint (filed_value j) = x"
proof (cases "ty = Some ArgInt")
  case True
  obtain i where i: "x = format_int i" "\<bar>i\<bar> \<le> 2 ^ 53" "length x \<le> maxSummaryValue"
    using assms(2) True by (auto simp: plain_value_def)
  have "j = JNum (format_int i)" using assms(1) True i plain_int [OF i(2)] by (simp add: arg_value_def)
  moreover have "float_exact (JNum (format_int i))" using i(2) by (auto simp: float_exact_def)
  ultimately show ?thesis using float_exact_filed [of j] i by (simp add: clip_def clipTo_def)
next
  case False
  then have "j = JStr x \<or> (\<exists>b. j = JBool b)" using assms(1) by (auto simp: arg_value_def split: if_splits)
  then show ?thesis using assms False
    by (auto simp: arg_value_def plain_value_def clip_def clipTo_def ArgBool_def filed_value_def split: if_splits)
qed

lemma map_get_filed: "map_get (filed_args args) f = map_option filed_value (map_get args f)"
  by (simp add: map_get_def filed_args_def map_of_map)

lemma render_list_get:
  assumes "render_list (\<lambda>(k, x). case g k x of Inl e \<Rightarrow> Inl e | Inr j \<Rightarrow> Inr (k, j)) m = Inr out"
  shows "map_get out f = Option.bind (map_get m f) (\<lambda>x. case g f x of Inl e \<Rightarrow> None | Inr j \<Rightarrow> Some j)"
    and "map_get m f = Some x \<Longrightarrow> \<exists>j. g f x = Inr j"
  using assms by (induction m arbitrary: out) (auto simp: map_get_def split: sum.splits if_splits)

text \<open>The parts of the two summaries are the same, so that of the plane is that of the driver, clipped.\<close>

lemma summary_of_filed:
  assumes "ArgsJSON s = Inr args"
    and "\<forall>f \<in> set (rsPolicyFields s). \<forall>x. map_get (rsArgs s) f = Some x \<longrightarrow> plain_value uprint (map_get (rsArgTypes s) f) x"
  shows "summarize uprint (rsTool s) (filed_args args) (rsPolicyFields s) True =
    (if rsPolicyFields s = [] then rsTool s @ '': (no policy-relevant arguments)''
     else if \<exists>f \<in> set (rsPolicyFields s). map_has (rsArgs s) f then clipTo (Summary s) maxSummary
     else rsTool s @ '': (no declared argument present)'')"
proof -
  let ?p = "\<lambda>f. case map_get (filed_args args) f of None \<Rightarrow> None | Some v \<Rightarrow> Some (f @ '' '' @ renderValue uprint v)"
  let ?q = "\<lambda>f. map_option (\<lambda>x. f @ '' '' @ x) (map_get (rsArgs s) f)"
  note get = render_list_get [OF assms(1) [unfolded ArgsJSON_def]]
  have "?p f = ?q f" if f: "f \<in> set (rsPolicyFields s)" for f
  proof (cases "map_get (rsArgs s) f")
    case (Some x)
    then obtain j where j: "arg_value (map_get (rsArgTypes s) f) x = Inr j" using get(2) by blast
    then show ?thesis using Some plain_rendered [OF j] assms(2) f by (simp add: get(1) map_get_filed)
  qed (simp add: get(1) map_get_filed)
  then have parts: "List.map_filter ?p (rsPolicyFields s) = List.map_filter ?q (rsPolicyFields s)"
    unfolding List.map_filter_def by (intro map_cong filter_cong) auto
  have "List.map_filter ?q (rsPolicyFields s) = [] \<longleftrightarrow> \<not> (\<exists>f \<in> set (rsPolicyFields s). map_has (rsArgs s) f)"
    by (auto simp: List.map_filter_def filter_empty_conv map_has_get)
  then show ?thesis using parts by (auto simp: summarize_def Summary_def)
qed



definition big_step :: RenderedStep where
  "big_step = demo_run_step\<lparr>rsArgs := [(''name'', ''9007199254740993'')], rsArgTypes := [(''name'', ArgInt)]\<rparr>"

definition even_step :: RenderedStep where
  "even_step = demo_run_step\<lparr>rsArgs := [(''name'', ''9007199254740992'')], rsArgTypes := [(''name'', ArgInt)]\<rparr>"

text \<open>
  C40: The request that is filed for a call is made of its arguments read as \<open>map[string]any\<close>: while the
  integers are at most \<open>2 ^ 53\<close> it asks for these arguments, but two calls of a tool whose integers have
  the same \<open>float64\<close> file one and the same request, so that a human decides on a call on
  9007199254740992 when the step is one on 9007199254740993.
\<close>

theorem a_large_integer_is_filed_as_another:
  assumes "ArgsJSON s = Inr args" "ArgsJSON s' = Inr args'" "rsTool s' = rsTool s"
    and "list_all2 (\<lambda>(k, v) (l, w). k = l \<and> read_alike v w) args args'"
  shows "file_step dv b s = file_step dv b s' \<and>
    (list_all (\<lambda>(k, v). float_exact v) args' \<longrightarrow>
      file_step dv b s = bind (world (dvRequest dv (bpCredential b) ''tool'' (rsTool s) args')) (\<lambda>ok. refuse_if (\<not> ok) RuRequest))"
  using filed_args_alike [OF assms(4)] filed_args_exact [of args'] assms(1-3) by (auto simp: file_step_def)

theorem a_large_integer_is_filed_as_another_witness:
  "ArgsJSON big_step \<noteq> ArgsJSON even_step \<and> file_step demo_driver demo_blueprint big_step =
    bind (world (dvRequest demo_driver ''rel'' ''tool'' ''tag'' [(''name'', JNum ''9007199254740992'')])) (\<lambda>ok. refuse_if (\<not> ok) RuRequest)"
proof -
  have p: "format_int 9007199254740993 = ''9007199254740993''" "format_int 9007199254740992 = ''9007199254740992''"
    by (simp_all add: go_defs format_int_def format_nat.simps)
  have i: "parse_int ''9007199254740993'' = Some 9007199254740993" "parse_int ''9007199254740992'' = Some 9007199254740992"
    by (simp_all add: go_defs)
  have a: "ArgsJSON big_step = Inr [(''name'', JNum ''9007199254740993'')]" "ArgsJSON even_step = Inr [(''name'', JNum ''9007199254740992'')]"
    by (simp_all add: ArgsJSON_def big_step_def even_step_def arg_value_def map_get_def p i demo_run_step_def demo_rendered_step_def)
  have t: "rsTool even_step = rsTool big_step" "rsTool big_step = ''tag''" by (simp_all add: big_step_def even_step_def demo_run_step_def demo_rendered_step_def)
  have alike: "read_alike (JNum ''9007199254740993'') (JNum ''9007199254740992'')"
    unfolding read_alike_def p [symmetric]
    by (intro disjI2 exI [of _ "9007199254740993"] exI [of _ "9007199254740992"]) (simp add: int64_ok_def round_tie round_signed_exact)
  have exact: "float_exact (JNum ''9007199254740992'')" unfolding float_exact_def p(2) [symmetric] by auto
  show ?thesis using a_large_integer_is_filed_as_another [OF a t(1), of demo_driver demo_blueprint] alike exact a t(2) by fastforce
qed

end
