(* ===== verification/GovernFlow.thy ===== *)
theory GovernFlow
  imports Govern
begin

text \<open>
  What \<open>kmx workflow govern\<close> relies on of the cluster, as \<open>kubectl\<close> documents it, over an abstract view
  of it: the overlay ConfigMap, its version and data, when there is one, and the allowlist of each
  credential. Then what each operation on the overlay does to that view.
\<close>

subsection \<open>The cluster\<close>

type_synonym overlay = "(string \<times> (string \<Rightarrow> string option)) option"

definition overlay_data :: "overlay \<Rightarrow> string \<Rightarrow> string option" where
  "overlay_data ov = (case ov of None \<Rightarrow> (\<lambda>_. None) | Some (v, d) \<Rightarrow> d)"

fun kube_shows :: "overlay \<Rightarrow> kube_read \<Rightarrow> bool" where
  "kube_shows None out \<longleftrightarrow> out = KubeMissing"
| "kube_shows (Some (v, d)) out \<longleftrightarrow>
     v \<noteq> [] \<and> (\<exists>data. out = KubeObject (Some (v, data)) \<and> d = (case data of None \<Rightarrow> (\<lambda>_. None) | Some l \<Rightarrow> map_get l))"

text \<open>A merge patch of one key: a text sets it, \<open>null\<close> removes it, and a version is a precondition.\<close>

definition patched_value :: "json \<Rightarrow> string option" where
  "patched_value v = (case v of JStr s \<Rightarrow> Some s | _ \<Rightarrow> None)"

definition patched :: "json \<Rightarrow> overlay \<Rightarrow> overlay \<Rightarrow> bool" where
  "patched p ov ov' \<longleftrightarrow> (\<exists>v d key x w. ov = Some (v, d) \<and> (p = overlayPatch [] key x \<or> p = overlayPatch v key x) \<and>
     ov' = Some (w, d(key := patched_value x)))"

definition kube_contract :: "'s Cluster \<Rightarrow> ('s \<Rightarrow> overlay) \<Rightarrow> ('s \<Rightarrow> string \<Rightarrow> string list) \<Rightarrow> bool" where
  "kube_contract cl ov al \<longleftrightarrow>
     (\<forall>w. ov (snd (clGet cl w)) = ov w \<and> (fst (clGet cl w) = KubeFailed \<or> kube_shows (ov w) (fst (clGet cl w)))) \<and>
     (\<forall>w. fst (clCreate cl w) \<longrightarrow> ov w = None \<and> (\<exists>v. ov (snd (clCreate cl w)) = Some (v, \<lambda>_. None))) \<and>
     (\<forall>p w. fst (clPatch cl p w) \<longrightarrow> patched p (ov w) (ov (snd (clPatch cl p w)))) \<and>
     (\<forall>w. ov (snd (clRestart cl w)) = ov w) \<and> (\<forall>w. ov (snd (clRollout cl w)) = ov w) \<and>
     (\<forall>w. ov (snd (clSession cl w)) = ov w) \<and> (\<forall>w. ov (snd (clGuard cl w)) = ov w) \<and>
     (\<forall>f w. ov (snd (clValidate cl f w)) = ov w) \<and>
     (\<forall>c ts w. ov (snd (clAllowlist cl c ts w)) = ov w \<and> (fst (clAllowlist cl c ts w) \<longrightarrow> al (snd (clAllowlist cl c ts w)) c = ts))"

lemma contractD:
  assumes "kube_contract cl ov al"
  shows "clGet cl w = (out, w') \<Longrightarrow> ov w' = ov w \<and> (out = KubeFailed \<or> kube_shows (ov w) out)"
    "clCreate cl w = (True, w') \<Longrightarrow> ov w = None \<and> (\<exists>v. ov w' = Some (v, \<lambda>_. None))"
    "clPatch cl p w = (True, w') \<Longrightarrow> patched p (ov w) (ov w')"
    "ov (snd (clRestart cl w)) = ov w" "ov (snd (clRollout cl w)) = ov w" "ov (snd (clSession cl w)) = ov w"
    "ov (snd (clGuard cl w)) = ov w" "ov (snd (clValidate cl f w)) = ov w"
    "clAllowlist cl c ts w = (ok, w') \<Longrightarrow> ov w' = ov w \<and> (ok \<longrightarrow> al w' c = ts)"
  using assms unfolding kube_contract_def by (metis fst_conv snd_conv)+

lemma overlayPatch_eq: "overlayPatch v key x = overlayPatch v' key' x' \<longleftrightarrow> v = v' \<and> key = key' \<and> x = x'"
  by (auto simp: overlayPatch_def)

subsection \<open>Actions that leave the overlay alone\<close>

definition calm :: "('s \<Rightarrow> overlay) \<Rightarrow> ('s, 'a) govern_action \<Rightarrow> bool" where
  "calm ov m \<longleftrightarrow> (\<forall>w. ov (snd (m w)) = ov w)"

lemma calmD: "calm ov m \<Longrightarrow> m w = (x, w') \<Longrightarrow> ov w' = ov w"
  unfolding calm_def by (metis snd_conv)

named_theorems calm_rules

lemma calm_steps [calm_rules]:
  "calm ov (give x)" "calm ov (throw e)" "calm ov (of_sum z)" "calm ov (refuse_if bad e)" "calm ov (or_fail e q)"
  by (auto simp: calm_def action_defs split: option.splits)

lemma calm_bind [calm_rules]: "calm ov m \<Longrightarrow> (\<And>x. calm ov (f x)) \<Longrightarrow> calm ov (bind m f)"
  unfolding calm_def bind_def by (auto split: prod.splits sum.splits) (metis snd_conv)+

lemma calm_noted [calm_rules]: "calm ov m \<Longrightarrow> calm ov (noted m)"
  by (simp add: calm_def noted_def)

lemma calm_op: "(\<And>w. ov (snd (f w)) = ov w) \<Longrightarrow> calm ov (op_action f)"
  by (simp add: calm_def op_action_def split: prod.splits) (metis snd_conv)

lemma calm_run_op: "(\<And>w. ov (snd (f w)) = ov w) \<Longrightarrow> calm ov (run_op e f)"
  unfolding run_op_def by (intro calm_rules calm_op)

lemma calm_ops [calm_rules]:
  assumes "kube_contract cl ov al"
  shows "calm ov (run_op e (clRestart cl))" "calm ov (run_op e (clRollout cl))" "calm ov (run_op e (clSession cl))"
    "calm ov (run_op e (clGuard cl))" "calm ov (op_action (clRollout cl))" "calm ov (op_action (clValidate cl f))"
    "calm ov (rollProxy cl)"
  unfolding rollProxy_def by (intro calm_rules calm_run_op calm_op contractD [OF assms])+

lemma calm_validate [calm_rules]: "kube_contract cl ov al \<Longrightarrow> calm ov (validateWorkflowOverlay cl fs)"
  unfolding validateWorkflowOverlay_def by (auto intro!: calm_rules split: prod.splits option.splits)

lemma calm_render [calm_rules]: "kube_contract cl ov al \<Longrightarrow> calm ov (govern_render cl b v fs)"
  unfolding govern_render_def by (auto intro!: calm_rules split: prod.splits option.splits)

subsection \<open>The operations on the overlay\<close>

lemma run_op_Inr: "run_op e f w = (Inr u, w') \<longleftrightarrow> f w = (True, w')"
  by (auto simp: run_op_def)

lemma readOverlay_spec:
  assumes "kube_contract cl ov al" "readOverlay cl w = (Inr (l, version), w')"
  shows "ov w' = ov w" "map_get l = overlay_data (ov w)"
    "ov w = None \<and> version = [] \<or> (\<exists>d. ov w = Some (version, d) \<and> version \<noteq> [])"
proof -
  obtain out w1 where get: "clGet cl w = (out, w1)" by fastforce
  have out: "w1 = w' \<and> (out = KubeMissing \<and> l = [] \<and> version = [] \<or>
      (\<exists>data. out = KubeObject (Some (version, data)) \<and> version \<noteq> [] \<and> l = (case data of None \<Rightarrow> [] | Some d \<Rightarrow> d)))"
  proof (cases out)
    case (KubeObject x)
    then show ?thesis using assms(2) get
      by (cases x; cases "the x") (simp_all add: readOverlay_def bind_def op_action_def throw_def give_def split: if_splits)
  qed (use assms(2) get in \<open>simp_all add: readOverlay_def bind_def op_action_def throw_def give_def\<close>)
  then have o: "clGet cl w = (out, w')" and r: "out = KubeMissing \<and> l = [] \<and> version = [] \<or>
      (\<exists>data. out = KubeObject (Some (version, data)) \<and> version \<noteq> [] \<and> l = (case data of None \<Rightarrow> [] | Some d \<Rightarrow> d))"
    using get by auto
  note c = contractD(1) [OF assms(1) o]
  show "ov w' = ov w" using c by simp
  have nil: "map_get [] = (\<lambda>_. None :: string option)" by (rule ext) simp
  show "map_get l = overlay_data (ov w)"
  proof (cases "ov w")
    case None
    then show ?thesis using c r nil by (auto simp: overlay_data_def)
  next
    case (Some vd)
    obtain v d where vd: "vd = (v, d)" by fastforce
    then obtain data where "out = KubeObject (Some (v, data))" "d = (case data of None \<Rightarrow> (\<lambda>_. None) | Some l \<Rightarrow> map_get l)"
      using c r Some by auto
    then show ?thesis using r Some vd nil by (cases data) (simp_all add: overlay_data_def)
  qed
  show "ov w = None \<and> version = [] \<or> (\<exists>d. ov w = Some (version, d) \<and> version \<noteq> [])"
    using c r by (cases "ov w") auto
qed

lemma patch_spec:
  assumes "kube_contract cl ov al" "patch_overlay cl version key x w = (Inr u, w')" "ov w = None \<and> version = [] \<or> (\<exists>d. ov w = Some (version, d) \<and> version \<noteq> [])"
  shows "overlay_data (ov w') = (overlay_data (ov w))(key := patched_value x)"
proof -
  have "clPatch cl (overlayPatch version key x) w = (True, w')" using assms(2) by (simp add: patch_overlay_def run_op_Inr)
  from contractD(3) [OF assms(1) this] show ?thesis
    by (auto simp: patched_def overlayPatch_eq overlay_data_def)
qed

lemma write_spec:
  assumes "kube_contract cl ov al" "writeOverlayFragment cl key fragment version w = (Inr u, w')"
  shows "overlay_data (ov w') = (overlay_data (ov w))(key := Some fragment)"
proof -
  obtain probe w1 where p: "clGet cl w = (probe, w1)" using assms(2) by (auto simp: writeOverlayFragment_def)
  have o: "ov w1 = ov w" and seen: "probe = KubeFailed \<or> kube_shows (ov w) probe" using contractD(1) [OF assms(1) p] by auto
  show ?thesis
  proof (cases probe)
    case KubeFailed
    then show ?thesis using assms(2) p by (simp add: writeOverlayFragment_def)
  next
    case KubeMissing
    then have "ov w = None" using seen by (cases "ov w") auto
    obtain w2 data now w3 where s: "clCreate cl w1 = (True, w2)" "readOverlay cl w2 = (Inr (data, now), w3)"
      "patch_overlay cl now key (JStr fragment) w3 = (Inr u, w')"
      using assms(2) p KubeMissing by (auto simp: writeOverlayFragment_def run_op_Inr)
    have "overlay_data (ov w3) = overlay_data (ov w)" using contractD(2) [OF assms(1) s(1)] readOverlay_spec(1) [OF assms(1) s(2)] o
      by (auto simp: overlay_data_def \<open>ov w = None\<close>)
    then show ?thesis using patch_spec [OF assms(1) s(3)] readOverlay_spec(1,3) [OF assms(1) s(2)] by (simp add: patched_value_def)
  next
    case (KubeObject x)
    then obtain data now w3 where s: "readOverlay cl w1 = (Inr (data, now), w3)" "now = version"
      "patch_overlay cl version key (JStr fragment) w3 = (Inr u, w')"
      using assms(2) p by (auto simp: writeOverlayFragment_def split: if_splits)
    then show ?thesis using patch_spec [OF assms(1) s(3)] readOverlay_spec(1,3) [OF assms(1) s(1)] o by (simp add: patched_value_def)
  qed
qed

lemma remove_spec:
  assumes "kube_contract cl ov al" "removeOverlayFragment cl key version w = (Inr u, w')"
  shows "overlay_data (ov w') = (overlay_data (ov w))(key := None)"
proof -
  obtain data w1 where s: "readOverlay cl w = (Inr (data, version), w1)" "patch_overlay cl version key JNull w1 = (Inr u, w')"
    using assms(2) by (auto simp: removeOverlayFragment_def split: if_splits)
  then show ?thesis using patch_spec [OF assms(1) s(2)] readOverlay_spec(1,3) [OF assms(1) s(1)] by (simp add: patched_value_def)
qed

end
