(* ===== verification/GovernProps.thy ===== *)
theory GovernProps
  imports GovernFlow BlueprintEval
begin

text \<open>Properties of \<open>kmx workflow govern\<close>: what the overlay and the allowlist hold afterwards.\<close>

definition holds_fragment :: "string option \<Rightarrow> string \<Rightarrow> bool" where
  "holds_fragment text fragment \<longleftrightarrow>
     (case text of None \<Rightarrow> fragment = [] | Some t \<Rightarrow> fragment \<noteq> [] \<and> (t = fragment \<or> sameJSON t fragment))"

lemma apply_spec:
  assumes "kube_contract cl ov al" "govern_apply cl (govern_plan (overlay_data (ov w) key) fragment replace) key fragment version w = (Inr u, w')"
  shows "\<exists>t. overlay_data (ov w') = (overlay_data (ov w))(key := t) \<and> holds_fragment t fragment \<and>
    (replace \<or> (case overlay_data (ov w) key of None \<Rightarrow> True | Some e \<Rightarrow> sameJSON e fragment))"
proof -
  let ?plan = "govern_plan (overlay_data (ov w) key) fragment replace"
  show ?thesis
  proof (cases ?plan)
    case (PlRefuse e)
    then show ?thesis using assms(2) by (simp add: govern_apply_def)
  next
    case PlNothing
    then have "ov w' = ov w" "overlay_data (ov w) key = None" "fragment = []"
      using assms(2) by (auto simp: govern_apply_def govern_plan_def split: option.splits if_splits)
    then show ?thesis by (intro exI [of _ None]) (simp add: holds_fragment_def fun_upd_idem)
  next
    case PlRemove
    then have r: "replace" "fragment = []" by (auto simp: govern_plan_def split: option.splits if_splits)
    obtain w1 where "removeOverlayFragment cl key version w = (Inr (), w1)" "rollProxy cl w1 = (Inr u, w')"
      using assms(2) PlRemove by (auto simp: govern_apply_def)
    then have "overlay_data (ov w') = (overlay_data (ov w))(key := None)"
      using remove_spec [OF assms(1)] calmD [OF calm_ops(7) [OF assms(1)]] by metis
    then show ?thesis using r by (intro exI [of _ None]) (simp add: holds_fragment_def)
  next
    case PlWrite
    then have r: "fragment \<noteq> []" "replace \<or> overlay_data (ov w) key = None" by (auto simp: govern_plan_def split: option.splits if_splits)
    obtain w1 where "writeOverlayFragment cl key fragment version w = (Inr (), w1)" "rollProxy cl w1 = (Inr u, w')"
      using assms(2) PlWrite by (auto simp: govern_apply_def)
    then have "overlay_data (ov w') = (overlay_data (ov w))(key := Some fragment)"
      using write_spec [OF assms(1)] calmD [OF calm_ops(7) [OF assms(1)]] by metis
    then show ?thesis using r by (intro exI [of _ "Some fragment"]) (auto simp: holds_fragment_def)
  next
    case PlUnchanged
    then obtain e where e: "overlay_data (ov w) key = Some e" "fragment \<noteq> []" "sameJSON e fragment"
      by (auto simp: govern_plan_def split: option.splits if_splits)
    have "govern_apply cl ?plan key fragment version w = noted (op_action (clRollout cl)) w" by (simp add: PlUnchanged govern_apply_def)
    then have "ov w' = ov w" using assms(2) calmD [OF calm_noted [OF calm_ops(5) [OF assms(1)]]] by metis
    then show ?thesis using e by (intro exI [of _ "Some e"]) (simp add: holds_fragment_def fun_upd_idem)
  qed
qed

lemma no_other_constrains:
  assumes "check_all (collision key credential) fragments = None" "map_get fragments other = Some raw" "other \<noteq> key"
  shows "fragmentConstrains raw credential = Some False"
proof -
  have "(other, raw) \<in> set fragments" using assms(2) by (auto simp: map_get_def dest: map_of_SomeD)
  then have "collision key credential (other, raw) = None" using assms(1) by (auto simp: check_all_None)
  then show ?thesis using assms(3) by (auto simp: collision_def split: option.splits if_splits)
qed

lemma govern_render_result:
  assumes "govern_render cl b v fs w = (Inr r, w')"
  shows "\<exists>decl. Render b v [] (Some decl) = Inr r"
proof -
  obtain decl where "(case Render b v [] (Some decl) of Inl e \<Rightarrow> Inl (GoRender e) | Inr r \<Rightarrow> Inr r) = Inr r"
    using assms by (auto simp: govern_render_def)
  then show ?thesis by (cases "Render b v [] (Some decl)") auto
qed

text \<open>
  C14: When \<open>kmx workflow govern\<close> succeeds and nobody else writes the overlay meanwhile (the contract of
  the cluster has every operation but its own keep it), the overlay holds under the key of the blueprint the bounds it
  renders to, or nothing when there are none, the allowlist of its credential is the rendered one,
  every other key is as it was and none of them binds that credential; and what was there before is
  replaced only when that was asked for or says the same.
\<close>

theorem governing_leaves_exactly_the_rendered_bounds:
  assumes "kube_contract cl ov al" "GovernWorkflow cl compile b vals replace w = (Inr (), w')"
  shows "\<exists>v decl r t. bp_Bind compile b vals [] = Inr v \<and> Render b v [] (Some decl) = Inr r \<and>
    overlay_data (ov w') = (overlay_data (ov w))(FragmentKey b := t) \<and> holds_fragment t (Fragment_text r) \<and>
    al w' (bpCredential b) = rdAllowlist r \<and>
    (replace \<or> (case overlay_data (ov w) (FragmentKey b) of None \<Rightarrow> True | Some e \<Rightarrow> sameJSON e (Fragment_text r))) \<and>
    (\<forall>key raw. key \<noteq> FragmentKey b \<longrightarrow> overlay_data (ov w) key = Some raw \<longrightarrow> fragmentConstrains raw (bpCredential b) = Some False)"
proof -
  note c = assms(1)
  obtain v where v: "bp_Bind compile b vals [] = Inr v"
    using assms(2) by (auto simp: GovernWorkflow_def split: sum.splits)
  let ?k = "FragmentKey b"
  let ?plan = "\<lambda>fragments r. govern_plan (map_get fragments ?k) (Fragment_text r) replace"
  obtain fragments version w1 w2 w3 r where s:
    "readOverlay cl w = (Inr (fragments, version), w1)" "check_all (collision ?k (bpCredential b)) fragments = None"
    "run_op GoSession (clSession cl) w1 = (Inr (), w2)" "govern_render cl b v fragments w2 = (Inr r, w3)"
    and rest: "bind (case ?plan fragments r of PlRefuse e \<Rightarrow> throw e | _ \<Rightarrow> give ()) (\<lambda>_.
        bind (run_op GoGuard (clGuard cl)) (\<lambda>_.
        bind (govern_apply cl (?plan fragments r) ?k (Fragment_text r) version) (\<lambda>_.
        bind (run_op GoSession (clSession cl)) (\<lambda>_.
          run_op GoAllowlist (clAllowlist cl (bpCredential b) (rdAllowlist r)))))) w3 = (Inr (), w')"
    using assms(2) v by (fastforce simp: GovernWorkflow_def Let_def split: option.splits)
  obtain w4 w5 w6 where a: "run_op GoGuard (clGuard cl) w3 = (Inr (), w4)"
    "govern_apply cl (?plan fragments r) ?k (Fragment_text r) version w4 = (Inr (), w5)"
    "run_op GoSession (clSession cl) w5 = (Inr (), w6)" "clAllowlist cl (bpCredential b) (rdAllowlist r) w6 = (True, w')"
    using rest by (auto simp: run_op_Inr split: plan.splits)
  note read = readOverlay_spec [OF c s(1)]
  have w4: "ov w4 = ov w"
    using read(1) calmD [OF calm_ops(3) [OF c] s(3)] calmD [OF calm_render [OF c] s(4)] calmD [OF calm_ops(4) [OF c] a(1)] by simp
  then have "govern_apply cl (govern_plan (overlay_data (ov w4) ?k) (Fragment_text r) replace) ?k (Fragment_text r) version w4 = (Inr (), w5)"
    using a(2) read(2) by simp
  from apply_spec [OF c this] obtain t where t: "overlay_data (ov w5) = (overlay_data (ov w))(?k := t)" "holds_fragment t (Fragment_text r)"
    "replace \<or> (case overlay_data (ov w) ?k of None \<Rightarrow> True | Some e \<Rightarrow> sameJSON e (Fragment_text r))"
    unfolding w4 by blast
  have w': "ov w' = ov w5" "al w' (bpCredential b) = rdAllowlist r"
    using calmD [OF calm_ops(3) [OF c] a(3)] contractD(9) [OF c a(4)] by simp_all
  obtain decl where "Render b v [] (Some decl) = Inr r" using s(4) using govern_render_result [OF s(4)] by blast
  moreover have "fragmentConstrains raw (bpCredential b) = Some False" if "key \<noteq> ?k" "overlay_data (ov w) key = Some raw" for key raw
    using no_other_constrains [OF s(2)] that read(2) by simp
  ultimately show ?thesis using v t w' by (intro exI [of _ v] exI [of _ decl] exI [of _ r] exI [of _ t]) simp
qed

text \<open>A cluster whose state is the overlay and the allowlist last set.\<close>

type_synonym demo_kube_state = "(string \<times> string gomap) option \<times> string list"

definition demo_overlay :: "demo_kube_state \<Rightarrow> overlay" where
  "demo_overlay w = map_option (\<lambda>(v, l). (v, map_get l)) (fst w)"

definition demo_get :: "demo_kube_state \<Rightarrow> kube_read" where
  "demo_get w = (case fst w of None \<Rightarrow> KubeMissing | Some (v, l) \<Rightarrow> if v = [] then KubeFailed else KubeObject (Some (v, Some l)))"

definition demo_patch :: "json \<Rightarrow> demo_kube_state \<Rightarrow> bool \<times> demo_kube_state" where
  "demo_patch p w = (case fst w of None \<Rightarrow> (False, w) | Some (v, l) \<Rightarrow>
     (case p of JObj ((_, JObj [(key, JStr s)]) # _) \<Rightarrow>
        if p = overlayPatch v key (JStr s) then (True, (Some (v @ ''1'', map_set key s l), snd w)) else (False, w)
      | _ \<Rightarrow> (False, w)))"

definition demo_kube :: "demo_kube_state Cluster" where
  "demo_kube = \<lparr>
     clGet = (\<lambda>w. (demo_get w, w)),
     clCreate = (\<lambda>w. if fst w = None then (True, (Some (''1'', []), snd w)) else (False, w)),
     clPatch = demo_patch,
     clRestart = (\<lambda>w. (True, w)), clRollout = (\<lambda>w. (True, w)), clSession = (\<lambda>w. (True, w)),
     clValidate = (\<lambda>_ w. (Some (200, \<lparr>vwOK = True, vwToolUpstreams = [''gh''],
        vwTableDeclared = Some [(''run'', [''id'']), (''tag'', [''name''])]\<rparr>), w)),
     clAllowlist = (\<lambda>_ ts w. (True, (fst w, ts))), clGuard = (\<lambda>w. (True, w))\<rparr>"

lemma demo_kube_sel [simp]:
  "clGet demo_kube w = (demo_get w, w)" "clCreate demo_kube w = (if fst w = None then (True, (Some (''1'', []), snd w)) else (False, w))"
  "clPatch demo_kube = demo_patch" "clRestart demo_kube w = (True, w)" "clRollout demo_kube w = (True, w)"
  "clSession demo_kube w = (True, w)" "clAllowlist demo_kube c ts w = (True, (fst w, ts))" "clGuard demo_kube w = (True, w)"
  "clValidate demo_kube fs w = (Some (200, \<lparr>vwOK = True, vwToolUpstreams = [''gh''],
        vwTableDeclared = Some [(''run'', [''id'']), (''tag'', [''name''])]\<rparr>), w)"
  by (simp_all add: demo_kube_def)

lemma demo_patchD:
  "fst (demo_patch p w) \<Longrightarrow> \<exists>v l key s. fst w = Some (v, l) \<and> p = overlayPatch v key (JStr s) \<and>
    snd (demo_patch p w) = (Some (v @ ''1'', map_set key s l), snd w)"
  by (auto simp: demo_patch_def split: option.splits json.splits list.splits prod.splits if_splits) metis

lemma demo_patched:
  assumes "fst (demo_patch p w)"
  shows "patched p (demo_overlay w) (demo_overlay (snd (demo_patch p w)))"
proof -
  obtain v l key s where d: "fst w = Some (v, l)" "p = overlayPatch v key (JStr s)" "snd (demo_patch p w) = (Some (v @ ''1'', map_set key s l), snd w)"
    using demo_patchD [OF assms] by blast
  have "map_get (map_set key s l) = (map_get l)(key := Some s)" by (rule ext) (simp add: map_get_set)
  then have "demo_overlay (snd (demo_patch p w)) = Some (v @ ''1'', (map_get l)(key := patched_value (JStr s)))"
    by (simp add: d(3) demo_overlay_def patched_value_def)
  moreover have "demo_overlay w = Some (v, map_get l)" by (simp add: d(1) demo_overlay_def)
  ultimately show ?thesis unfolding patched_def using d(2) by blast
qed

lemma demo_contract: "kube_contract demo_kube demo_overlay (\<lambda>w _. snd w)"
proof -
  have nil: "map_get [] = (\<lambda>_. None :: string option)" by (rule ext) simp
  have "demo_get w = KubeFailed \<or> kube_shows (demo_overlay w) (demo_get w)" for w
  proof (cases "fst w")
    case (Some vl)
    then show ?thesis by (cases vl; cases "fst vl = []") (auto simp: demo_get_def demo_overlay_def intro!: exI [of _ "Some (snd vl)"])
  qed (simp add: demo_get_def demo_overlay_def)
  then show ?thesis unfolding kube_contract_def using demo_patched nil by (simp add: demo_overlay_def)
qed

definition demo_governing :: Rendered where
  "demo_governing = demo_run\<lparr>rdSteps := []\<rparr>"

lemma demo_bind_govern: "bp_Bind compile demo_blueprint [(''ids'', ''7''), (''version'', ''1'')] [] = Inr demo_values"
  by (simp add: bp_Bind_def demo_blueprint_def map_has_def is_deferred_def raw_of_def map_get_def trim_space_def go_defs bind_literal_def
      bind_raw_def bindOne_def bind_value_def demo_parameter_def type_defs list_parts_def Let_def no_values_def demo_values_def unmet_needs_def)

lemma demo_render_govern: "Render demo_blueprint demo_values [] decl = Inr demo_governing"
proof -
  have "seam_tools (bpSeams demo_blueprint) = []" "bpCredential demo_blueprint = ''rel''" by (simp_all add: seam_tools_def demo_blueprint_def)
  then show ?thesis by (simp add: Render_def render_blueprint_def demo_seams_rendered demo_governing_def demo_run_def)
qed

lemma demo_fragment: "Fragment_text demo_governing \<noteq> []"
  by (simp add: Fragment_text_def fragment_doc_def demo_governing_def demo_run_def)

lemma demo_seams_checked: "checkSeams demo_blueprint [''gh''] [(''run'', [''id'']), (''tag'', [''name''])] = None"
  by (simp add: checkSeams_def check_all_def check_seam_def demo_blueprint_def map_get_def)

lemma demo_governed:
  "GovernWorkflow demo_kube (\<lambda>_. None) demo_blueprint [(''ids'', ''7''), (''version'', ''1'')] False (None, []) =
    (Inr (), (Some (''11'', [(''workflow-demo.json'', Fragment_text demo_governing)]), []))"
proof -
  have k: "FragmentKey demo_blueprint = ''workflow-demo.json''" "bpCredential demo_blueprint = ''rel''" "rdAllowlist demo_governing = []"
    by (simp_all add: FragmentKey_def demo_blueprint_def demo_governing_def demo_run_def)
  have r: "govern_render demo_kube demo_blueprint demo_values [] w = (Inr demo_governing, w)" for w
    by (simp add: govern_render_def demo_render_govern validateWorkflowOverlay_def demo_seams_checked action_defs)
  have w: "writeOverlayFragment demo_kube ''workflow-demo.json'' f [] (None, []) = (Inr (), (Some (''11'', [(''workflow-demo.json'', f)]), []))" for f
    by (simp add: writeOverlayFragment_def demo_get_def run_op_def readOverlay_def patch_overlay_def demo_patch_def overlayPatch_def
        action_defs)
  show ?thesis
    by (simp add: GovernWorkflow_def demo_bind_govern readOverlay_def demo_get_def check_all_def r run_op_def Let_def govern_plan_def
        demo_fragment govern_apply_def k w rollProxy_def action_defs)
qed

theorem governing_leaves_exactly_the_rendered_bounds_witness:
  "\<exists>t. overlay_data (demo_overlay (Some (''11'', [(''workflow-demo.json'', Fragment_text demo_governing)]), [])) =
     (overlay_data (demo_overlay (None, [])))(FragmentKey demo_blueprint := t) \<and> holds_fragment t (Fragment_text demo_governing)"
  using governing_leaves_exactly_the_rendered_bounds [OF demo_contract demo_governed] demo_render_govern
  by (auto simp: demo_bind_govern)

end
