(* ===== verification/Spec2Isabelle.thy ===== *)
theory Spec2Isabelle
  imports ArgumentProps StoreProps MeterProps StoreMetrics EgressProps ConfigProps GatewayProps ProxyProps BridgeProps NotifyProps OverlayProps AdminProps BlueprintProps WorkflowProps GovernProps
begin

text \<open>
  The governance plane of Kaimahi (\<^verbatim>\<open>src/plane\<close>): the component between an agent and what it
  may use. Tool calls go through the MCP gateway, model calls through the metering proxy,
  webhooks through the inbound receiver; all of them read and write one Postgres database of
  credentials, allowlists, approval requests, bounded grants, spend and audit rows, and reach
  hosted upstreams through one hardened client. The command line client \<^verbatim>\<open>kmx\<close>
  (\<^verbatim>\<open>src/internal/kmx\<close>) drives an agent through the plane by a blueprint: a workflow written
  down once, checked, given the values of an operator, rendered to bounds for the plane and to
  steps, and run. This development models the logic of both and proves what their documentation
  promises, and that the bounds and steps of a blueprint mean in the plane what they say.

  \<^bold>\<open>Theories and sources.\<close> \<open>Prelude\<close>: 64-bit arithmetic, Go maps as association lists sorted by
  key, sums for errors. \<open>GoText\<close>, \<open>GoNum\<close>, \<open>Clock\<close>, \<open>Json\<close>, \<open>Http\<close>: the parts of the Go
  library the plane uses (strings, \<open>strconv\<close>, time and the UTC calendar, the lexer and encoder
  of \<open>encoding/json\<close>, header maps and the line scanner). \<open>Canon\<close> (\<^verbatim>\<open>gateway/canon.go\<close>) with
  \<open>JsonRoundtrip\<close>: one canonical tree per message. \<open>Digest\<close> (\<^verbatim>\<open>gateway/digest.go\<close>): what an
  approval binds. \<open>Policy\<close> (\<^verbatim>\<open>config/policy.go\<close>): declared fields and standing constraints.
  \<open>Config\<close> (\<^verbatim>\<open>config/config.go\<close>): the upstream table and its checks; \<open>ConfigDecode\<close>: its strict decoding;
  \<open>Overlay\<close> (\<^verbatim>\<open>config/overlay.go\<close>): fragments, the walk over duplicated keys, custody, the merge. \<open>Pricing\<close>
  (\<^verbatim>\<open>pricing/pricing.go\<close>). \<open>Egress\<close> (\<^verbatim>\<open>egress/egress.go\<close>): refused ranges, vetting, the dialer,
  the client of named hosts, the bounded body. \<open>Schema\<close> (the migrations), \<open>Store\<close>,
  \<open>Approvals\<close>, \<open>Spend\<close>, \<open>Identity\<close>, \<open>InboundStore\<close>, \<open>StoreMetrics\<close> (\<^verbatim>\<open>store/*.go\<close>): each
  exported operation as one transaction on a record of tables. \<open>World\<close>: that database with a
  clock, a supply of row ids and a script of connection faults. \<open>Meter\<close> (\<^verbatim>\<open>meter/meter.go\<close>).
  \<open>Gateway\<close> (\<^verbatim>\<open>gateway/gateway.go\<close>): the whole relay, over a record of store operations.
  \<open>Proxy\<close> (\<^verbatim>\<open>proxy/handler.go\<close>): the metered path of model calls, over \<open>Unmarshal\<close>, the decoding of
  a JSON text into the fields of a struct. \<open>Inbound\<close> (\<^verbatim>\<open>inbound/verify.go\<close>), \<open>InboundCommand\<close>
  (\<^verbatim>\<open>inbound/command.go\<close>), \<open>RateLimit\<close> (\<^verbatim>\<open>inbound/ratelimit.go\<close>), \<open>Bridge\<close> and \<open>BridgeInvoke\<close>
  (\<^verbatim>\<open>inbound/inbound.go\<close>): proofs of a webhook, approval commands, the token bucket, the receive
  handler, and the workers with the call of the agent; \<open>worker_step\<close> and \<open>bridge_step\<close> interleave
  requests, workers and whatever else writes the store. \<open>Notify\<close> (\<^verbatim>\<open>notify/*.go\<close>): the message a
  fresh filing posts, its queue and worker (\<open>poster_step\<close>, labelled with what a step took or sent) and
  the bounded retry through the gateway.
  \<open>Admin\<close> (\<^verbatim>\<open>proxy/admin.go\<close>, \<^verbatim>\<open>proxy/admin_approvals.go\<close>, \<^verbatim>\<open>proxy/validate.go\<close>): the control surface, its
  bearer check and every handler over a record of store operations.

  The client: \<open>Action\<close>: a state threaded through calls that may fail. \<open>Blueprint\<close> (\<^verbatim>\<open>blueprint/blueprint.go\<close>,
  \<^verbatim>\<open>credentials.go\<close>): the records of a blueprint, the lexical rules, the refusal of credential material;
  \<open>BlueprintCheck\<close>: every check of \<open>Parse\<close>, parameters, seams, steps and their postures; \<open>BlueprintBind\<close>
  (\<^verbatim>\<open>params.go\<close>): the values of an operator and their substitution; \<open>BlueprintRender\<close> (\<^verbatim>\<open>render.go\<close>): bounds,
  steps, the arguments and summary of a call, the overlay fragment. \<open>Workflow\<close>
  (\<^verbatim>\<open>app/workflow_run.go\<close>): the driver of a run, over the record \<open>Driver\<close> of what it asks the plane, the agent
  and the machine; \<open>Govern\<close> (\<^verbatim>\<open>app/workflow.go\<close>, \<^verbatim>\<open>app/toolsadd.go\<close>): \<open>kmx workflow govern\<close>, over the record
  \<open>Cluster\<close> of \<open>kubectl\<close> and the admin surface.

  \<^bold>\<open>State.\<close> A struct is a record with the source's fields, an enum or error a datatype, an
  operation that may fail returns a sum, a panic is a value of its own. A handler takes its
  dependencies, the request and its state (the store, the breaker, what was sent, the decisions
  counted) and returns the answer and the next state. Concurrent callers are interleaved
  transactions: \<open>StoreSteps\<close> has one rule per writing operation, and its invariants hold in
  every reachable database.

  \<^bold>\<open>Interfaces.\<close> \<open>use_pool\<close> (\<open>UsePool\<close>) is the contract of a counted permit, kept by the grants of
  \<open>Approvals\<close>; \<open>budget_store\<close> (\<open>Meter\<close>) and \<open>gateway_contract\<close> (\<open>GatewayFlow\<close>) are what the meter
  and the gateway need of the store, kept by \<open>pg_meter_store\<close> and \<open>pg_gateway_store\<close>; \<open>door\<close> is the
  part that every handler needs to admit a credential, extended by \<open>gateway_contract\<close> and by
  \<open>proxy_contract\<close> (\<open>ProxyFlow\<close>), which \<open>pg_proxy_store\<close> keeps. In \<open>BridgeFlow\<close>, \<open>bridge_frame\<close> is a
  relation every part of the bridge's handler keeps but an approval (interpreted for the queue
  and its slots, extended by \<open>store_frame\<close> for the rows of the store), and \<open>caller_store\<close> with
  \<open>admission_store\<close> what an authenticated caller and an acknowledged admission mean, which
  \<open>pg_inbound_store\<close> keeps.

  \<^bold>\<open>Properties.\<close> \<open>ArgumentProps\<close>: canonicalisation is exact, total and idempotent, the digest
  identifies the call, constraints mean what they say. \<open>StoreProps\<close>, \<open>MeterProps\<close>: grants are
  backed by approvals and admit exactly their uses, racing admissions stay under the caps but for
  the hold of the last. \<open>EgressProps\<close>:
  which addresses are dialed, how a body ends. \<open>ConfigProps\<close>: what an accepted table guarantees. \<open>OverlayProps\<close>
  (over \<open>OverlayFlow\<close>): an overlay adds entries without custody and changes nothing.
  \<open>GatewayProps\<close>: nothing leaves unauthorised, and what is recorded of it. \<open>ProxyProps\<close>: spend is
  admitted and ledgered, and three bodies for which it is not. \<open>BridgeProps\<close>: what a queued event
  and a grant from chat presuppose, the queue and its slots, the bound on a flood in any span of time, what a
  signature covers, and outcomes that cannot be recorded. \<open>NotifyProps\<close>: one announcement per
  filing, posts sent once each in the order they were taken, repeated only after a refusal. \<open>AdminProps\<close>: what an admin request can do to the
  credentials, that an operator's filing is the agent's call and a dry run of an overlay is the boot.
  \<open>BlueprintProps\<close> (over \<open>BlueprintFlow\<close>: what an accepted, bound and rendered blueprint satisfies): its
  bounds arrive in the plane as rendered, a step with consequences is admitted by a human alone, an argument holds
  what the operator gave. \<open>WorkflowProps\<close>: nothing happens before its approval (over \<open>WorkflowFlow\<close>, a driver
  that keeps the trace of its operations and what each action adds to it), every run whose intervals fit an
  \<open>int64\<close> of nanoseconds ends (over \<open>WorkflowClock\<close>, which actions move the clock on), and which request is filed
  and found again (over \<open>WorkflowNumbers\<close>, integers that have been a \<open>float64\<close>). \<open>GovernProps\<close> (over \<open>GovernFlow\<close>, the contract of the cluster): the overlay
  holds the rendered bounds and is otherwise as it was. The \<open>Eval\<close> theories hold the small concrete inputs
  the witnesses use.

  \<^bold>\<open>Bounds and fuel.\<close> The decoder walks of \<open>Canon\<close> and \<open>Overlay\<close> take fuel, two units per lexeme, and never
  run out (\<open>canonicalize_never_out_of_fuel\<close>, \<open>duplicated_keys_are_refused\<close>); every other loop of the
  plane is a terminating recursion. The waits of the driver, for a human and for a status, take fuel, one unit per
  round; a unit for each interval of sleep in the longest wait is enough (\<open>await_ends\<close>, \<open>poll_ends\<close>).
  The lengths of these waits are products of seconds that wrap at 64 bits, as in the code (\<open>Seconds\<close>).
  A \<open>float64\<close>, of the rate limiter or of a filed argument, is a rational rounded to 53 bits after each operation.
  Integers of the code are \<open>int\<close> with the wrap-around written out where the code does arithmetic
  on values that are not bounded by a check before.

  \<^bold>\<open>Parameters.\<close> SHA-256, the Unicode print tables, \<open>url.Parse\<close>, \<open>netip.ParseAddr\<close>, the gateway's
  decoding of JSON into structs, the resolver, the connections, the upstream servers and the mounted
  files are arguments of the definitions that use them; so are, for the client, the decoding of YAML,
  \<open>regexp.Compile\<close>, the scripts of a bundle, and the operations of \<open>Driver\<close> and \<open>Cluster\<close>.

  \<^bold>\<open>Not modelled.\<close> Deadlines and cancellation of contexts, logs, the exposition of metrics, the
  connection pool and the migration runner; and the rest of the command line client, its
  scaffolding, bundles and commands, which drive clusters, downloads and terminals.
\<close>

end
